(* ===== verification/Prelude.thy ===== *)
theory Prelude
  imports Main "HOL-Library.List_Lexorder" "HOL-Library.Char_ord" "HOL-Library.AList"
begin

text \<open>
  Shared vocabulary of the development: Python's results (a value or an exception), state
  passing with exceptions, the string operations the trading code uses to classify broker
  messages, and a few facts about lists that several components need.

  Strings are byte lists: a Python string is modelled by its UTF-8 bytes, so the em dash the
  messages contain is three bytes. Searching for an ASCII marker and lowering ASCII letters
  agree with what Python does on the text, which is all the code relies on.
\<close>

named_theorems outcome_simps \<open>what a call returns on each branch\<close>

section \<open>Results and state passing\<close>

text \<open>The built-in exceptions the modelled code raises, with their message.\<close>

datatype py_exn =
    ValueError string
  | TypeError string
  | RuntimeError string
  | KeyError string
  | OverflowError string
  | ZeroDivisionError string
  | AssertionError string
  | UnboundLocalError string
  | IndexError string
  | AttributeError string

type_synonym ('e, 'a) result = "'e + 'a"

text \<open>An effectful call: it may change the world and it returns a value or raises.\<close>

type_synonym ('w, 'e, 'a) call = "'w \<Rightarrow> ('e + 'a) \<times> 'w"

definition bindR :: "'e + 'a \<Rightarrow> ('a \<Rightarrow> 'e + 'b) \<Rightarrow> 'e + 'b" where
  "bindR r f = (case r of Inl e \<Rightarrow> Inl e | Inr x \<Rightarrow> f x)"

lemma bindR_simps [simp]:
  "bindR (Inl e) f = Inl e"
  "bindR (Inr x) f = f x"
  by (simp_all add: bindR_def)

lemma bindR_Inr_iff: "bindR r f = Inr y \<longleftrightarrow> (\<exists>x. r = Inr x \<and> f x = Inr y)"
  by (cases r) auto

definition bindC :: "('w, 'e, 'a) call \<Rightarrow> ('a \<Rightarrow> ('w, 'e, 'b) call) \<Rightarrow> ('w, 'e, 'b) call" where
  "bindC m f = (\<lambda>w. case m w of (Inl e, w') \<Rightarrow> (Inl e, w') | (Inr x, w') \<Rightarrow> f x w')"

definition returnC :: "'a \<Rightarrow> ('w, 'e, 'a) call" where
  "returnC x = (\<lambda>w. (Inr x, w))"

definition raiseC :: "'e \<Rightarrow> ('w, 'e, 'a) call" where
  "raiseC e = (\<lambda>w. (Inl e, w))"

lemma returnC_apply [simp]: "returnC x w = (Inr x, w)"
  by (simp add: returnC_def)

lemma raiseC_apply [simp]: "raiseC e w = (Inl e, w)"
  by (simp add: raiseC_def)

lemma bindC_Inl [simp]: "m w = (Inl e, w') \<Longrightarrow> bindC m f w = (Inl e, w')"
  by (simp add: bindC_def)

lemma bindC_Inr [simp]: "m w = (Inr x, w') \<Longrightarrow> bindC m f w = f x w'"
  by (simp add: bindC_def)

lemma bindC_Inr_iff:
  "bindC m f w = (Inr y, w'') \<longleftrightarrow> (\<exists>x w'. m w = (Inr x, w') \<and> f x w' = (Inr y, w''))"
  by (auto simp: bindC_def split: prod.splits sum.splits)

lemma bindC_E:
  assumes "bindC m f w = (x, w'')"
  obtains (raised) e where "m w = (Inl e, w'')" "x = Inl e"
  | (went_on) y w' where "m w = (Inr y, w')" "f y w' = (x, w'')"
  using assms by (auto simp: bindC_def split: prod.splits sum.splits)

text \<open>A Python \<open>for\<close> loop whose body may raise.\<close>

fun forC :: "'a list \<Rightarrow> ('a \<Rightarrow> ('w, 'e, unit) call) \<Rightarrow> ('w, 'e, unit) call" where
  "forC [] f = returnC ()"
| "forC (x # xs) f = bindC (f x) (\<lambda>_. forC xs f)"

text \<open>An invariant of a world, kept by every call whether it returns or raises.\<close>

definition keepsC :: "('w \<Rightarrow> bool) \<Rightarrow> ('w, 'e, 'a) call \<Rightarrow> bool" where
  "keepsC I m \<longleftrightarrow> (\<forall>w. I w \<longrightarrow> I (snd (m w)))"

lemma keepsC_D: "keepsC I m \<Longrightarrow> I w \<Longrightarrow> m w = (r, w') \<Longrightarrow> I w'"
  unfolding keepsC_def by (metis snd_conv)

lemma keepsC_I: "(\<And>w r w'. I w \<Longrightarrow> m w = (r, w') \<Longrightarrow> I w') \<Longrightarrow> keepsC I m"
  unfolding keepsC_def by (metis surjective_pairing)

lemma keepsC_return [intro, simp]: "keepsC I (returnC x)"
  by (simp add: keepsC_def)

lemma keepsC_raise [intro, simp]: "keepsC I (raiseC e)"
  by (simp add: keepsC_def)

lemma keepsC_bind [intro]: "keepsC I m \<Longrightarrow> (\<And>x. keepsC I (f x)) \<Longrightarrow> keepsC I (bindC m f)"
  by (rule keepsC_I, erule bindC_E) (auto dest: keepsC_D)

lemma keepsC_bindI:
  assumes "keepsC I m" and "\<And>w x w' r w''. I w \<Longrightarrow> m w = (Inr x, w') \<Longrightarrow> f x w' = (r, w'') \<Longrightarrow> I w''"
  shows "keepsC I (bindC m f)"
  using assms by (intro keepsC_I) (auto elim!: bindC_E dest: keepsC_D)

lemma keepsC_for [intro]: "(\<And>x. x \<in> set xs \<Longrightarrow> keepsC I (f x)) \<Longrightarrow> keepsC I (forC xs f)"
  by (induction xs) auto

text \<open>A call that returns, and what holds then.\<close>

definition okC :: "('w \<Rightarrow> bool) \<Rightarrow> ('w, 'e, 'a) call \<Rightarrow> ('a \<Rightarrow> 'w \<Rightarrow> bool) \<Rightarrow> bool" where
  "okC I m J \<longleftrightarrow> (\<forall>w. I w \<longrightarrow> (\<exists>x w'. m w = (Inr x, w') \<and> J x w'))"

lemma okC_I: "(\<And>w. I w \<Longrightarrow> \<exists>x w'. m w = (Inr x, w') \<and> J x w') \<Longrightarrow> okC I m J"
  by (simp add: okC_def)

lemma okC_D: "okC I m J \<Longrightarrow> I w \<Longrightarrow> \<exists>x w'. m w = (Inr x, w') \<and> J x w'"
  by (simp add: okC_def)

lemma okC_return: "(\<And>w. I w \<Longrightarrow> J x w) \<Longrightarrow> okC I (returnC x) J"
  by (simp add: okC_def)

lemma okC_bind: "okC I m K \<Longrightarrow> (\<And>x. okC (K x) (f x) J) \<Longrightarrow> okC I (bindC m f) J"
  unfolding okC_def by (metis bindC_Inr)

lemma okC_weaken: "okC I m J \<Longrightarrow> (\<And>w. I' w \<Longrightarrow> I w) \<Longrightarrow> (\<And>x w. J x w \<Longrightarrow> J' x w) \<Longrightarrow> okC I' m J'"
  unfolding okC_def by blast

lemma okC_for: "(\<And>x. x \<in> set xs \<Longrightarrow> okC I (f x) (\<lambda>_. I)) \<Longrightarrow> okC I (forC xs f) (\<lambda>_. I)"
  by (induction xs) (auto intro!: okC_return okC_bind [where K = "\<lambda>_. I"])

text \<open>A loop one of whose iterations establishes \<open>D\<close>, which the others keep.\<close>

lemma okC_for_reaches:
  assumes "\<And>x. x \<in> set xs \<Longrightarrow> okC I (f x) (\<lambda>_. I)"
    and "\<And>x. x \<in> set xs \<Longrightarrow> okC D (f x) (\<lambda>_. D)"
    and "\<exists>x \<in> set xs. okC I (f x) (\<lambda>_. D)"
  shows "okC I (forC xs f) (\<lambda>_. D)"
  using assms
proof (induction xs)
  case (Cons x xs)
  show ?case
  proof (cases "okC I (f x) (\<lambda>_. D)")
    case True
    have "okC D (forC xs f) (\<lambda>_. D)"
      using Cons.prems(2) by (intro okC_for) auto
    with True show ?thesis by (auto intro: okC_bind)
  next
    case False
    have "okC I (forC xs f) (\<lambda>_. D)"
      using Cons.prems False by (intro Cons.IH) auto
    moreover have "okC I (f x) (\<lambda>_. I)"
      using Cons.prems(1) by simp
    ultimately show ?thesis by (auto intro: okC_bind)
  qed
qed simp

section \<open>Strings\<close>

definition lower_char :: "char \<Rightarrow> char" where
  "lower_char c = (if 65 \<le> (of_char c :: nat) \<and> (of_char c :: nat) \<le> 90
                   then char_of (of_char c + 32 :: nat) else c)"

definition py_lower :: "string \<Rightarrow> string" where
  "py_lower s = map lower_char s"

fun starts_with :: "string \<Rightarrow> string \<Rightarrow> bool" where
  "starts_with [] s = True"
| "starts_with (c # cs) [] = False"
| "starts_with (c # cs) (d # ds) = (c = d \<and> starts_with cs ds)"

text \<open>Python's \<open>needle in haystack\<close> on strings.\<close>

fun contains :: "string \<Rightarrow> string \<Rightarrow> bool" where
  "contains needle [] = (needle = [])"
| "contains needle (c # cs) = (starts_with needle (c # cs) \<or> contains needle cs)"

definition upper_char :: "char \<Rightarrow> char" where
  "upper_char c = (if 97 \<le> (of_char c :: nat) \<and> (of_char c :: nat) \<le> 122
                   then char_of (of_char c - 32 :: nat) else c)"

definition py_upper :: "string \<Rightarrow> string" where
  "py_upper s = map upper_char s"

text \<open>\<open>s.strip()\<close>: the ASCII whitespace.\<close>

definition is_space :: "char \<Rightarrow> bool" where
  "is_space c = (let n = (of_char c :: nat) in (9 \<le> n \<and> n \<le> 13) \<or> (28 \<le> n \<and> n \<le> 32))"

definition strip :: "string \<Rightarrow> string" where
  "strip s = rev (dropWhile is_space (rev (dropWhile is_space s)))"

text \<open>\<open>s.split(c)\<close> and \<open>s.partition(c)\<close> at one character.\<close>

fun py_split :: "char \<Rightarrow> string \<Rightarrow> string list" where
  "py_split c [] = [[]]"
| "py_split c (d # ds) =
     (if d = c then [] # py_split c ds
      else case py_split c ds of (p # ps) \<Rightarrow> (d # p) # ps | [] \<Rightarrow> [[d]])"

definition partition_at :: "char \<Rightarrow> string \<Rightarrow> string \<times> bool \<times> string" where
  "partition_at c s =
     (let rest = dropWhile (\<lambda>d. d \<noteq> c) s
      in (takeWhile (\<lambda>d. d \<noteq> c) s, rest \<noteq> [], tl rest))"

fun join_with :: "string \<Rightarrow> string list \<Rightarrow> string" where
  "join_with sep [] = []"
| "join_with sep [p] = p"
| "join_with sep (p # q # ps) = p @ sep @ join_with sep (q # ps)"

text \<open>
  \<open>repr(s)\<close> of a printable string: single quotes, unless it holds single quotes and no double
  ones; \<open>repr(None)\<close>.
\<close>

definition py_repr :: "string \<Rightarrow> string" where
  "py_repr s =
     (let q = (if CHR 0x27 \<in> set s \<and> CHR 0x22 \<notin> set s then CHR 0x22 else CHR 0x27)
      in [q] @ concat (map (\<lambda>c. if c = q \<or> c = CHR 0x5C then [CHR 0x5C, c] else [c]) s) @ [q])"

definition repr_opt :: "string option \<Rightarrow> string" where
  "repr_opt s = (case s of None \<Rightarrow> ''None'' | Some t \<Rightarrow> py_repr t)"

text \<open>A string or \<open>None\<close> is true when it is a non-empty string.\<close>

definition truthy :: "string option \<Rightarrow> bool" where
  "truthy s = (case s of None \<Rightarrow> False | Some t \<Rightarrow> t \<noteq> [])"

lemma truthy_iff: "truthy s \<longleftrightarrow> (\<exists>t. s = Some t \<and> t \<noteq> [])"
  by (simp add: truthy_def split: option.split)

definition em_dash :: string where
  "em_dash = [CHR 0xE2, CHR 0x80, CHR 0x94]"

lemma starts_with_append [simp]: "starts_with p (p @ s)"
  by (induction p) auto

lemma contains_prefix: "starts_with needle s \<Longrightarrow> contains needle s"
  by (cases s) (auto elim: starts_with.elims)

lemma contains_append: "contains needle s \<Longrightarrow> contains needle (p @ s)"
  by (induction p) auto

lemma contains_self_append: "contains needle (needle @ s)"
  by (simp add: contains_prefix)

lemma py_lower_append: "py_lower (s @ t) = py_lower s @ py_lower t"
  by (simp add: py_lower_def)

section \<open>Decimal numerals\<close>

text \<open>\<open>str(n)\<close> of a natural number, and \<open>int(s)\<close> of a string of ASCII digits.\<close>

definition digit_char :: "nat \<Rightarrow> char" where
  "digit_char d = char_of (48 + d)"

definition is_digit :: "char \<Rightarrow> bool" where
  "is_digit c = (48 \<le> (of_char c :: nat) \<and> (of_char c :: nat) \<le> 57)"

definition digit_val :: "char \<Rightarrow> nat" where
  "digit_val c = of_char c - 48"

fun nat_str :: "nat \<Rightarrow> string" where
  "nat_str n = (if n < 10 then [digit_char n] else nat_str (n div 10) @ [digit_char (n mod 10)])"

declare nat_str.simps [simp del]

definition int_str :: "int \<Rightarrow> string" where
  "int_str i = (if i < 0 then ''-'' @ nat_str (nat (- i)) else nat_str (nat i))"

definition digits_val :: "string \<Rightarrow> nat" where
  "digits_val s = foldl (\<lambda>acc c. 10 * acc + digit_val c) 0 s"

lemma of_char_digit_char: "d < 10 \<Longrightarrow> (of_char (digit_char d) :: nat) = 48 + d"
  by (simp add: digit_char_def of_char_of)

lemma is_digit_digit_char [simp]: "d < 10 \<Longrightarrow> is_digit (digit_char d)"
  by (simp add: is_digit_def of_char_digit_char)

lemma digit_val_digit_char [simp]: "d < 10 \<Longrightarrow> digit_val (digit_char d) = d"
  by (simp add: digit_val_def of_char_digit_char)

lemma nat_str_digits: "list_all is_digit (nat_str n)"
  by (induction n rule: nat_str.induct) (subst nat_str.simps, simp)

lemma nat_str_not_Nil [simp]: "nat_str n \<noteq> []"
  by (subst nat_str.simps) simp

lemma digits_val_nat_str [simp]: "digits_val (nat_str n) = n"
proof (induction n rule: nat_str.induct)
  case (1 n)
  then show ?case
    by (subst nat_str.simps) (auto simp: digits_val_def)
qed

definition pad_left :: "nat \<Rightarrow> string \<Rightarrow> string" where
  "pad_left k s = replicate (k - length s) CHR ''0'' @ s"

lemma digit_char_0: "CHR ''0'' = digit_char 0"
  by code_simp

lemma pad_left_digits: "list_all is_digit s \<Longrightarrow> list_all is_digit (pad_left k s)"
  by (auto simp: pad_left_def list_all_iff digit_char_0)

lemma foldl_digits_zeros: "foldl (\<lambda>acc c. 10 * acc + digit_val c) 0 (replicate m CHR ''0'') = 0"
  by (induction m) (simp_all add: digit_char_0)

lemma digits_val_pad_left [simp]: "digits_val (pad_left k s) = digits_val s"
  by (simp add: digits_val_def pad_left_def foldl_digits_zeros)

lemma length_nat_str_le: "0 < k \<Longrightarrow> n < 10 ^ k \<Longrightarrow> length (nat_str n) \<le> k"
proof (induction n arbitrary: k rule: nat_str.induct)
  case (1 n)
  show ?case
  proof (cases "n < 10")
    case True
    with 1 show ?thesis by (subst nat_str.simps) simp
  next
    case False
    obtain j where j: "k = Suc j" and "0 < j"
      using 1 False by (cases k; cases "k - 1") auto
    have "n div 10 < 10 ^ j"
      using 1 j by (simp add: less_mult_imp_div_less mult.commute)
    with 1 False \<open>0 < j\<close> j show ?thesis by (subst nat_str.simps) simp
  qed
qed

lemma length_pad_left: "length s \<le> k \<Longrightarrow> length (pad_left k s) = k"
  by (simp add: pad_left_def)

text \<open>Splitting a string at the end of its leading digits, as \<open>\\d+\<close> does.\<close>

lemma takeWhile_digits:
  "list_all is_digit ds \<Longrightarrow> \<not> is_digit c \<Longrightarrow> takeWhile is_digit (ds @ c # s) = ds"
  by (induction ds) auto

lemma dropWhile_digits:
  "list_all is_digit ds \<Longrightarrow> \<not> is_digit c \<Longrightarrow> dropWhile is_digit (ds @ c # s) = c # s"
  by (induction ds) auto

section \<open>Lists\<close>

text \<open>\<open>sorted(xs, key=...)\<close> is stable; \<open>sort_key\<close> is the stable insertion sort of HOL.\<close>

lemma hd_sort_key_le:
  assumes "xs \<noteq> []" and "x \<in> set xs"
  shows "f (hd (sort_key f xs)) \<le> f x"
proof -
  have ne: "sort_key f xs \<noteq> []"
    using assms(1) by (metis length_0_conv length_sort)
  have srt: "sorted (map f (sort_key f xs))"
    by simp
  from ne obtain y ys where ys: "sort_key f xs = y # ys"
    by (cases "sort_key f xs") auto
  with srt have le: "\<forall>z \<in> set ys. f y \<le> f z"
    by auto
  have "x \<in> set (y # ys)"
    using assms(2) ys by (metis set_sort)
  with le ys show ?thesis
    by auto
qed

lemma hd_sort_key_in: "xs \<noteq> [] \<Longrightarrow> hd (sort_key f xs) \<in> set xs"
  by (metis hd_in_set length_0_conv length_sort set_sort)

lemma concat_singletons: "(\<And>x. x \<in> set xs \<Longrightarrow> f x = [g x]) \<Longrightarrow> concat (map f xs) = map g xs"
  by (induction xs) auto

lemma filter_conj: "filter (\<lambda>x. P x \<and> Q x) xs = filter Q (filter P xs)"
  by (simp add: conj_commute)

text \<open>The first occurrence of each element, in order: what \<open>dict.fromkeys\<close> keeps.\<close>

fun dedup :: "'a list \<Rightarrow> 'a list \<Rightarrow> 'a list" where
  "dedup seen [] = []"
| "dedup seen (x # xs) = (if x \<in> set seen then dedup seen xs else x # dedup (x # seen) xs)"

lemma set_dedup: "set (dedup seen xs) = set xs - set seen"
  by (induction seen xs rule: dedup.induct) auto

lemma distinct_dedup: "distinct (dedup seen xs)"
  by (induction seen xs rule: dedup.induct) (auto simp: set_dedup)

text \<open>Association lists as dicts.\<close>

lemma set_update_subset: "set (AList.update k v al) \<subseteq> insert (k, v) (set al)"
  by (induction al) auto

section \<open>Versioned tables\<close>

text \<open>
  A table whose rows are versions of a key: the next version number, and what closing the open
  version of one key does to the rows that are selected by key and flag.
\<close>

definition max_vid :: "int list \<Rightarrow> int" where
  "max_vid vs = foldr max vs 0"

lemma max_vid_ge: "v \<in> set vs \<Longrightarrow> v \<le> max_vid vs"
  by (induction vs) (auto simp: max_vid_def)

lemma find_filter: "find P xs = (case filter P xs of [] \<Rightarrow> None | x # _ \<Rightarrow> Some x)"
  by (induction xs) auto

lemma find_SomeD: "find P xs = Some x \<Longrightarrow> P x \<and> x \<in> set xs"
  by (induction xs) (auto split: if_splits)

lemma filter_le1_find:
  "length (filter P xs) \<le> 1 \<Longrightarrow> x \<in> set xs \<Longrightarrow> P x \<Longrightarrow> find P xs = Some x"
proof -
  assume len: "length (filter P xs) \<le> 1" and x: "x \<in> set xs" "P x"
  then have "x \<in> set (filter P xs)" by simp
  with len have "filter P xs = [x]"
    by (cases "filter P xs") auto
  then show ?thesis by (simp add: find_filter)
qed

lemma filter_none_closed:
  "filter (\<lambda>r. Q r \<and> flag r) (map (\<lambda>r. if Q r then upd r else r) rs) = []"
  if "\<And>r. Q r \<Longrightarrow> Q (upd r)" and "\<And>r. \<not> flag (upd r)"
  using that by (induction rs) auto

lemma filter_other_closed:
  assumes "\<And>r. Q r \<Longrightarrow> \<not> P r" and "\<And>r. Q r \<Longrightarrow> \<not> P (upd r)"
  shows "filter P (map (\<lambda>r. if Q r then upd r else r) rs) = filter P rs"
  using assms by (induction rs) auto

end
