(* ===== verification/PyFloat.thy ===== *)
theory PyFloat
  imports Prelude Complex_Main
begin

text \<open>
  Python's \<open>float\<close>: an IEEE 754 double. A finite double is a rational number, so a value is
  a rational, an infinity or a NaN; arithmetic rounds the exact result to the nearest double
  (ties to even), which the definitions compute. Comparisons with a NaN are false, as in the
  code. The sign of a zero is not modelled: no modelled comparison depends on it.
\<close>

datatype flt = Fin rat | PosInf | NegInf | NaN

section \<open>Rounding\<close>

text \<open>\<open>round(x)\<close> of Python: to the nearest integer, ties to the even one.\<close>

definition round_half_even :: "rat \<Rightarrow> int" where
  "round_half_even q =
     (let f = \<lfloor>q\<rfloor>; d = q - of_int f
      in if d < 1 / 2 then f else if 1 / 2 < d then f + 1 else if even f then f else f + 1)"

lemma round_half_even_of_int [simp]: "round_half_even (of_int n) = n"
  by (simp add: round_half_even_def)

lemma round_half_even_bounds:
  "of_int (round_half_even q) - q \<le> 1 / 2 \<and> q - of_int (round_half_even q) \<le> 1 / 2"
proof -
  have "of_int \<lfloor>q\<rfloor> \<le> q" and "q < of_int \<lfloor>q\<rfloor> + 1"
    by linarith+
  then show ?thesis
    by (simp add: round_half_even_def Let_def) linarith
qed

definition pow2 :: "int \<Rightarrow> rat" where
  "pow2 e = (if 0 \<le> e then of_int (2 ^ nat e) else 1 / of_int (2 ^ nat (- e)))"

text \<open>
  The exponent of the leading bit, found in steps of 32 and then of 1; 70 coarse steps cover
  the product of any two doubles.
\<close>

fun binade_fine :: "nat \<Rightarrow> rat \<Rightarrow> int" where
  "binade_fine 0 q = 0"
| "binade_fine (Suc n) q =
     (if 2 \<le> q then binade_fine n (q / 2) + 1
      else if q < 1 then binade_fine n (2 * q) - 1 else 0)"

fun binade_coarse :: "nat \<Rightarrow> rat \<Rightarrow> int" where
  "binade_coarse 0 q = 0"
| "binade_coarse (Suc n) q =
     (if 4294967296 \<le> q then binade_coarse n (q / 4294967296) + 32
      else if q * 4294967296 < 2 then binade_coarse n (q * 4294967296) - 32
      else binade_fine 33 q)"

definition binade :: "rat \<Rightarrow> int" where
  "binade q = binade_coarse 70 q"

text \<open>Round an exact result to a double: 53 significant bits, exponents from -1074 to 1023.\<close>

definition fl :: "rat \<Rightarrow> flt" where
  "fl q =
     (if q = 0 then Fin 0
      else let e = max (binade \<bar>q\<bar> - 52) (- 1074);
               m = round_half_even (q / pow2 e)
           in if 971 < e \<or> (e = 971 \<and> \<bar>m\<bar> = 9007199254740992)
              then (if 0 < q then PosInf else NegInf)
              else Fin (of_int m * pow2 e))"

text \<open>Rounding never moves a value across an integer, and keeps integers up to \<open>2^53\<close> as they are.\<close>

lemma round_half_even_ge: "of_int n \<le> q \<Longrightarrow> n \<le> round_half_even q"
  using round_half_even_bounds [of q] by linarith

lemma round_half_even_le: "q \<le> of_int n \<Longrightarrow> round_half_even q \<le> n"
  using round_half_even_bounds [of q] by linarith

lemma binade_fine_le: "q < 2 ^ Suc k \<Longrightarrow> binade_fine m q \<le> int k"
proof (induction m arbitrary: q k)
  case 0
  then show ?case by simp
next
  case (Suc m)
  show ?case
  proof (cases "2 \<le> q")
    case True
    with Suc.prems obtain j where j: "k = Suc j" by (cases k) auto
    then have "binade_fine m (q / 2) \<le> int j" using Suc.prems by (intro Suc.IH) simp
    with True j show ?thesis by simp
  next
    case False
    then have "q < 1 \<Longrightarrow> 2 * q < 2 ^ Suc k"
      using order.strict_trans2 [of q 1 "2 ^ k"] by simp
    then have "q < 1 \<Longrightarrow> binade_fine m (2 * q) \<le> int k" by (rule Suc.IH)
    with False show ?thesis by auto
  qed
qed

lemma binade_coarse_le: "q < 2 ^ Suc k \<Longrightarrow> binade_coarse m q \<le> int k"
proof (induction m arbitrary: q k)
  case 0
  then show ?case by simp
next
  case (Suc m)
  show ?case
  proof (cases "4294967296 \<le> q")
    case True
    have "(2::rat) ^ 32 < 2 ^ Suc k" using True Suc.prems by simp
    then have "32 < Suc k" by (rule power_less_imp_less_exp [rotated]) simp
    then have k: "Suc k = Suc (k - 32) + 32" by simp
    have "q < 2 ^ Suc (k - 32) * 2 ^ 32"
      using Suc.prems unfolding k power_add .
    then have "q / 4294967296 < 2 ^ Suc (k - 32)"
      by (simp add: pos_divide_less_eq)
    then have "binade_coarse m (q / 4294967296) \<le> int (k - 32)" by (rule Suc.IH)
    with True k show ?thesis by simp
  next
    case False
    have "q * 4294967296 < 2 \<Longrightarrow> binade_coarse m (q * 4294967296) \<le> int 0"
      by (intro Suc.IH) simp
    with False binade_fine_le [OF Suc.prems, of 33] show ?thesis by auto
  qed
qed

lemma binade_le: "q < 2 ^ Suc k \<Longrightarrow> binade q \<le> int k"
  unfolding binade_def by (rule binade_coarse_le)

lemma pow2_scale:
  assumes "e \<le> 0"
  shows "0 < pow2 e" and "of_int n / pow2 e = of_int (n * 2 ^ nat (- e))"
  using assms by (auto simp: pow2_def)

lemma fl_between:
  assumes "\<bar>q\<bar> < 2 ^ 53"
  shows "\<exists>r. fl q = Fin r \<and> (\<forall>n. of_int n \<le> q \<longrightarrow> of_int n \<le> r) \<and> (\<forall>n. q \<le> of_int n \<longrightarrow> r \<le> of_int n)"
proof (cases "q = 0")
  case True
  then show ?thesis by (simp add: fl_def)
next
  case False
  define e where "e = max (binade \<bar>q\<bar> - 52) (- 1074)"
  define r where "r = of_int (round_half_even (q / pow2 e)) * pow2 e"
  have e: "e \<le> 0"
    using binade_le [of "\<bar>q\<bar>" 52] assms by (simp add: e_def)
  note sc = pow2_scale [OF e]
  have lo: "of_int n \<le> r" if "of_int n \<le> q" for n
  proof -
    have "of_int (n * 2 ^ nat (- e)) \<le> q / pow2 e"
      unfolding sc(2) [symmetric] using that sc(1) by (simp add: divide_right_mono)
    then have "n * 2 ^ nat (- e) \<le> round_half_even (q / pow2 e)" by (rule round_half_even_ge)
    then have "of_int n / pow2 e \<le> of_int (round_half_even (q / pow2 e))"
      unfolding sc(2) by linarith
    then show ?thesis using sc(1) by (simp add: r_def pos_divide_le_eq)
  qed
  have hi: "r \<le> of_int n" if "q \<le> of_int n" for n
  proof -
    have "q / pow2 e \<le> of_int (n * 2 ^ nat (- e))"
      unfolding sc(2) [symmetric] using that sc(1) by (simp add: divide_right_mono)
    then have "round_half_even (q / pow2 e) \<le> n * 2 ^ nat (- e)" by (rule round_half_even_le)
    then have "of_int (round_half_even (q / pow2 e)) \<le> of_int n / pow2 e"
      unfolding sc(2) by linarith
    then show ?thesis using sc(1) by (simp add: r_def pos_le_divide_eq)
  qed
  have "fl q = Fin r"
    using False e by (auto simp: fl_def e_def r_def Let_def)
  with lo hi show ?thesis by blast
qed

lemma fl_of_int: "\<bar>n\<bar> < 2 ^ 53 \<Longrightarrow> fl (of_int n) = Fin (of_int n)"
  using fl_between [of "of_int n"] by (force simp flip: of_int_abs)

text \<open>\<open>int(a / b)\<close> of two integers: the quotient rounded to a double, then truncated.\<close>

definition py_trunc :: "flt \<Rightarrow> int" where
  "py_trunc x = (case x of Fin q \<Rightarrow> (if 0 \<le> q then \<lfloor>q\<rfloor> else \<lceil>q\<rceil>) | _ \<Rightarrow> 0)"

definition int_truediv :: "int \<Rightarrow> int \<Rightarrow> int" where
  "int_truediv a b = py_trunc (fl (of_int a / of_int b))"

lemma int_truediv_bounds:
  assumes "0 < b" and "0 \<le> a" and "a < 2 ^ 53 * b"
  shows "n * b \<le> a \<Longrightarrow> n \<le> int_truediv a b" and "a \<le> n * b \<Longrightarrow> int_truediv a b \<le> n"
proof -
  let ?q = "of_int a / of_int b :: rat"
  have "of_int a < (of_int (2 ^ 53 * b) :: rat)"
    using assms(3) by (simp only: of_int_less_iff)
  then have "0 \<le> ?q" and "\<bar>?q\<bar> < 2 ^ 53"
    using assms by (simp_all add: pos_divide_less_eq)
  obtain r where r: "fl ?q = Fin r"
    and lo: "\<And>n. of_int n \<le> ?q \<Longrightarrow> of_int n \<le> r" and hi: "\<And>n. ?q \<le> of_int n \<Longrightarrow> r \<le> of_int n"
    using fl_between [OF \<open>\<bar>?q\<bar> < 2 ^ 53\<close>] by blast
  have "0 \<le> r" using lo [of 0] \<open>0 \<le> ?q\<close> by simp
  with r have trunc: "int_truediv a b = \<lfloor>r\<rfloor>"
    by (simp add: int_truediv_def py_trunc_def)
  show "n \<le> int_truediv a b" if "n * b \<le> a"
  proof -
    have "(of_int (n * b) :: rat) \<le> of_int a" using that by (simp only: of_int_le_iff)
    then have "of_int n \<le> ?q" using assms(1) by (simp add: pos_le_divide_eq)
    then show ?thesis unfolding trunc using lo by (simp add: le_floor_iff)
  qed
  show "int_truediv a b \<le> n" if "a \<le> n * b"
  proof -
    have "(of_int a :: rat) \<le> of_int (n * b)" using that by (simp only: of_int_le_iff)
    then have "?q \<le> of_int n" using assms(1) by (simp add: pos_divide_le_eq)
    then have "r \<le> of_int n" by (rule hi)
    then show ?thesis unfolding trunc by (simp add: floor_le_iff)
  qed
qed

lemma int_truediv_exact:
  assumes "0 < b" and "0 \<le> n" and "n < 2 ^ 53"
  shows "int_truediv (n * b) b = n"
  using int_truediv_bounds [of b "n * b" n] assms by (simp add: order_antisym)

section \<open>Comparisons and arithmetic\<close>

fun flt_lt :: "flt \<Rightarrow> flt \<Rightarrow> bool" where
  "flt_lt NaN y = False"
| "flt_lt x NaN = False"
| "flt_lt (Fin a) (Fin b) = (a < b)"
| "flt_lt (Fin a) PosInf = True"
| "flt_lt (Fin a) NegInf = False"
| "flt_lt PosInf y = False"
| "flt_lt NegInf y = (y \<noteq> NegInf)"

definition flt_eq :: "flt \<Rightarrow> flt \<Rightarrow> bool" where
  "flt_eq x y = (x \<noteq> NaN \<and> x = y)"

definition flt_le :: "flt \<Rightarrow> flt \<Rightarrow> bool" where
  "flt_le x y = (flt_lt x y \<or> flt_eq x y)"

definition is_finite :: "flt \<Rightarrow> bool" where
  "is_finite x = (case x of Fin q \<Rightarrow> True | _ \<Rightarrow> False)"

fun flt_neg :: "flt \<Rightarrow> flt" where
  "flt_neg (Fin a) = Fin (- a)"
| "flt_neg PosInf = NegInf"
| "flt_neg NegInf = PosInf"
| "flt_neg NaN = NaN"

fun flt_abs :: "flt \<Rightarrow> flt" where
  "flt_abs (Fin a) = Fin \<bar>a\<bar>"
| "flt_abs NaN = NaN"
| "flt_abs x = PosInf"

text \<open>\<open>bool(x)\<close>: only zero is false; a NaN is true.\<close>

definition flt_truthy :: "flt \<Rightarrow> bool" where
  "flt_truthy x = (x \<noteq> Fin 0)"

fun flt_mul :: "flt \<Rightarrow> flt \<Rightarrow> flt" where
  "flt_mul NaN y = NaN"
| "flt_mul x NaN = NaN"
| "flt_mul (Fin a) (Fin b) = fl (a * b)"
| "flt_mul (Fin a) PosInf = (if a = 0 then NaN else if 0 < a then PosInf else NegInf)"
| "flt_mul (Fin a) NegInf = (if a = 0 then NaN else if 0 < a then NegInf else PosInf)"
| "flt_mul PosInf (Fin b) = (if b = 0 then NaN else if 0 < b then PosInf else NegInf)"
| "flt_mul NegInf (Fin b) = (if b = 0 then NaN else if 0 < b then NegInf else PosInf)"
| "flt_mul PosInf PosInf = PosInf"
| "flt_mul PosInf NegInf = NegInf"
| "flt_mul NegInf PosInf = NegInf"
| "flt_mul NegInf NegInf = PosInf"

fun flt_add :: "flt \<Rightarrow> flt \<Rightarrow> flt" where
  "flt_add NaN y = NaN"
| "flt_add x NaN = NaN"
| "flt_add (Fin a) (Fin b) = fl (a + b)"
| "flt_add (Fin a) y = y"
| "flt_add PosInf NegInf = NaN"
| "flt_add NegInf PosInf = NaN"
| "flt_add PosInf y = PosInf"
| "flt_add NegInf y = NegInf"

definition flt_sub :: "flt \<Rightarrow> flt \<Rightarrow> flt" where
  "flt_sub x y = flt_add x (flt_neg y)"

text \<open>Division of numpy: by zero it gives an infinity or a NaN (the divisor zeros here are positive).\<close>

fun flt_div :: "flt \<Rightarrow> flt \<Rightarrow> flt" where
  "flt_div NaN y = NaN"
| "flt_div x NaN = NaN"
| "flt_div (Fin a) (Fin b) =
     (if b \<noteq> 0 then fl (a / b) else if a = 0 then NaN else if 0 < a then PosInf else NegInf)"
| "flt_div (Fin a) y = Fin 0"
| "flt_div PosInf (Fin b) = (if 0 \<le> b then PosInf else NegInf)"
| "flt_div NegInf (Fin b) = (if 0 \<le> b then NegInf else PosInf)"
| "flt_div x y = NaN"

text \<open>\<open>int(round(x))\<close>: a NaN or an infinity raises.\<close>

fun py_round_int :: "flt \<Rightarrow> py_exn + int" where
  "py_round_int (Fin q) = Inr (round_half_even q)"
| "py_round_int NaN = Inl (ValueError ''cannot convert float NaN to integer'')"
| "py_round_int x = Inl (OverflowError ''cannot convert float infinity to integer'')"

lemma flt_lt_irrefl [simp]: "\<not> flt_lt x x"
  by (cases x) auto

lemma flt_lt_asym: "flt_lt x y \<Longrightarrow> \<not> flt_lt y x"
  by (cases x; cases y) auto

lemma flt_lt_trans: "flt_lt x y \<Longrightarrow> flt_lt y z \<Longrightarrow> flt_lt x z"
  by (cases x; cases y; cases z) auto

lemma flt_lt_Fin_iff: "flt_lt (Fin a) y \<longleftrightarrow> y = PosInf \<or> (\<exists>b. y = Fin b \<and> a < b)"
  by (cases y) auto

section \<open>Text\<close>

text \<open>\<open>f''{x:.kf}''\<close>.\<close>

definition fmt_fixed_rat :: "nat \<Rightarrow> rat \<Rightarrow> string" where
  "fmt_fixed_rat k q =
     (let ds = pad_left (Suc k) (nat_str (nat (round_half_even (\<bar>q\<bar> * 10 ^ k))));
          n = length ds - k
      in (if q < 0 then ''-'' else '''') @ take n ds
         @ (if k = 0 then '''' else ''.'' @ drop n ds))"

definition special_str :: "flt \<Rightarrow> string" where
  "special_str x = (case x of PosInf \<Rightarrow> ''inf'' | NegInf \<Rightarrow> ''-inf'' | _ \<Rightarrow> ''nan'')"

definition fmt_fixed :: "nat \<Rightarrow> flt \<Rightarrow> string" where
  "fmt_fixed k x = (case x of Fin q \<Rightarrow> fmt_fixed_rat k q | _ \<Rightarrow> special_str x)"

definition pow10 :: "int \<Rightarrow> rat" where
  "pow10 e = (if 0 \<le> e then 10 ^ nat e else 1 / 10 ^ nat (- e))"

fun decade :: "nat \<Rightarrow> rat \<Rightarrow> int" where
  "decade 0 q = 0"
| "decade (Suc n) q =
     (if 10 \<le> q then decade n (q / 10) + 1 else if q < 1 then decade n (10 * q) - 1 else 0)"

definition strip_zeros :: "string \<Rightarrow> string" where
  "strip_zeros s = rev (dropWhile (\<lambda>c. c = CHR ''0'') (rev s))"

definition with_point :: "string \<Rightarrow> string \<Rightarrow> string" where
  "with_point i f = (if f = [] then i else i @ ''.'' @ f)"

text \<open>\<open>f''{x:g}''\<close>: six significant digits, trailing zeros removed.\<close>

definition fmt_g_rat :: "rat \<Rightarrow> string" where
  "fmt_g_rat q =
     (if q = 0 then ''0''
      else let x0 = decade 700 \<bar>q\<bar>;
               m0 = nat (round_half_even (\<bar>q\<bar> / pow10 (x0 - 5)));
               (x, m) = (if m0 = 1000000 then (x0 + 1, 100000) else (x0, m0));
               ds = nat_str m;
               body =
                 (if -4 \<le> x \<and> x < 6 then
                    (if 0 \<le> x then with_point (take (nat x + 1) ds) (strip_zeros (drop (nat x + 1) ds))
                     else with_point ''0'' (replicate (nat (- x) - 1) CHR ''0'' @ strip_zeros ds))
                  else with_point (take 1 ds) (strip_zeros (drop 1 ds)) @ ''e''
                       @ (if x < 0 then ''-'' else ''+'') @ pad_left 2 (nat_str (nat \<bar>x\<bar>)))
           in (if q < 0 then ''-'' else '''') @ body)"

definition fmt_g :: "flt \<Rightarrow> string" where
  "fmt_g x = (case x of Fin q \<Rightarrow> fmt_g_rat q | _ \<Rightarrow> special_str x)"

section \<open>Reading numbers\<close>

text \<open>
  \<open>float(text)\<close> on decimal and exponent notation, \<open>inf\<close> and \<open>nan\<close> (not on digits grouped by
  underscores).
\<close>

definition exponent_of :: "string \<Rightarrow> int option" where
  "exponent_of s =
     (case s of
        [] \<Rightarrow> Some 0
      | e # r \<Rightarrow>
          (let neg = (r \<noteq> [] \<and> hd r = CHR ''-'');
               ds = (if r \<noteq> [] \<and> (hd r = CHR ''-'' \<or> hd r = CHR ''+'') then tl r else r)
           in if lower_char e = CHR ''e'' \<and> ds \<noteq> [] \<and> list_all is_digit ds
              then Some (if neg then - int (digits_val ds) else int (digits_val ds)) else None))"

definition unsigned_float :: "string \<Rightarrow> flt option" where
  "unsigned_float s =
     (if py_lower s = ''inf'' \<or> py_lower s = ''infinity'' then Some PosInf
      else if py_lower s = ''nan'' then Some NaN
      else
        (let ip = takeWhile is_digit s; r1 = dropWhile is_digit s;
             fp = (if r1 \<noteq> [] \<and> hd r1 = CHR ''.'' then takeWhile is_digit (tl r1) else []);
             r2 = (if r1 \<noteq> [] \<and> hd r1 = CHR ''.'' then dropWhile is_digit (tl r1) else r1)
         in if ip = [] \<and> fp = [] then None
            else map_option (\<lambda>e. fl (of_nat (digits_val (ip @ fp)) * pow10 (e - int (length fp))))
                   (exponent_of r2)))"

definition parse_float :: "string \<Rightarrow> flt option" where
  "parse_float text =
     (case strip text of
        [] \<Rightarrow> None
      | c # s \<Rightarrow>
          (if c = CHR ''-'' then map_option flt_neg (unsigned_float s)
           else if c = CHR ''+'' then unsigned_float s
           else unsigned_float (c # s)))"

section \<open>JSON\<close>

text \<open>
  The payloads the code stores and reads back. \<open>d.get(k)\<close> of a dict is \<open>None\<close> both for a
  missing key and for a null, so the reader returns \<open>JNull\<close> for both; of the keys of an object
  the first entry is the one read.
\<close>

datatype json =
    JNull
  | JBool bool
  | JInt int
  | JNum flt
  | JStr string
  | JArr "json list"
  | JObj "(string \<times> json) list"

definition opt_num :: "flt option \<Rightarrow> json" where
  "opt_num v = (case v of None \<Rightarrow> JNull | Some x \<Rightarrow> JNum x)"

definition jget :: "string \<Rightarrow> (string \<times> json) list \<Rightarrow> json" where
  "jget k d = (case map_of d k of None \<Rightarrow> JNull | Some v \<Rightarrow> v)"

lemma jget_simps [simp]:
  "jget k [] = JNull"
  "jget k ((k', v) # d) = (if k' = k then v else jget k d)"
  by (simp_all add: jget_def)

end
