(* ===== verification/Intervals.thy ===== *)
theory Intervals
  imports PyFloat
begin

text \<open>
  \<^verbatim>\<open>quant/shared/intervals.py\<close>: bar boundaries and scheduler slots.

  A \<open>timedelta\<close> is its length in microseconds (an \<open>int\<close>, Python's own resolution). A
  \<open>datetime\<close> is either naive (its wall-clock microseconds since 1970-01-01) or aware (the
  instant in microseconds since the Unix epoch); aware datetimes are compared and subtracted
  by instant. The functions on microseconds carry the arithmetic; the functions on
  \<open>datetime\<close> add what the code does to a naive value.
\<close>

datatype datetime = Naive int | Aware int

definition us_second :: int where "us_second = 1000000"
definition us_minute :: int where "us_minute = 60 * us_second"
definition us_hour :: int where "us_hour = 60 * us_minute"
definition us_day :: int where "us_day = 24 * us_hour"

lemmas us_defs = us_second_def us_minute_def us_hour_def us_day_def

section \<open>Boundaries\<close>

definition as_utc :: "datetime \<Rightarrow> int" where
  "as_utc ts = (case ts of Naive t \<Rightarrow> t | Aware t \<Rightarrow> t)"

definition require_utc :: "datetime \<Rightarrow> py_exn + int" where
  "require_utc ts =
     (case ts of Naive t \<Rightarrow> Inl (ValueError ''timestamp must be timezone-aware UTC'')
      | Aware t \<Rightarrow> Inr t)"

text \<open>\<open>_EPOCH + (elapsed // period) * period\<close>, on an instant.\<close>

definition floor_us :: "int \<Rightarrow> int \<Rightarrow> int" where
  "floor_us t p = (t div p) * p"

definition floor_to_period :: "datetime \<Rightarrow> int \<Rightarrow> py_exn + int" where
  "floor_to_period ts p =
     bindR (require_utc ts)
       (\<lambda>t. if p = 0 then Inl (ZeroDivisionError ''integer division or modulo by zero'')
            else Inr (floor_us t p))"

definition last_closed_bar :: "int \<Rightarrow> int \<Rightarrow> int" where
  "last_closed_bar now p = floor_us now p - p"

definition next_run_at :: "int \<Rightarrow> int \<Rightarrow> int" where
  "next_run_at after p = floor_us after p + p"

lemma floor_us_le: "0 < p \<Longrightarrow> floor_us t p \<le> t"
  by (simp add: floor_us_def minus_mod_eq_div_mult [symmetric])

lemma floor_us_gt: "0 < p \<Longrightarrow> t < floor_us t p + p"
  using pos_mod_bound [of p t] by (simp add: floor_us_def minus_mod_eq_div_mult [symmetric])

lemma floor_us_dvd [simp]: "p dvd floor_us t p"
  by (simp add: floor_us_def)

lemma aligned_gap:
  assumes "0 < p" and "(p::int) dvd a" and "p dvd b" and "a < b"
  shows "a + p \<le> b"
proof -
  have "p dvd b - a" and "0 < b - a"
    using assms by auto
  then have "p \<le> b - a"
    by (rule zdvd_imp_le)
  then show ?thesis by simp
qed

lemma floor_us_greatest:
  assumes "0 < p" and "p dvd b" and "b \<le> t"
  shows "b \<le> floor_us t p"
  using aligned_gap [OF assms(1) floor_us_dvd assms(2), of t] assms floor_us_gt [of p t]
  by force

lemma floor_us_aligned [simp]: "0 < p \<Longrightarrow> p dvd t \<Longrightarrow> floor_us t p = t"
  using floor_us_greatest [of p t t] floor_us_le [of p t] by simp

lemma floor_us_mono: "0 < p \<Longrightarrow> s \<le> t \<Longrightarrow> floor_us s p \<le> floor_us t p"
  using floor_us_greatest [of p "floor_us s p" t] floor_us_le [of p s] by simp

lemma last_closed_bar_dvd [simp]: "p dvd last_closed_bar now p"
  by (simp add: last_closed_bar_def)

lemma last_closed_bar_closed: "0 < p \<Longrightarrow> last_closed_bar now p + p \<le> now"
  by (simp add: last_closed_bar_def floor_us_le)

lemma last_closed_bar_newest:
  "0 < p \<Longrightarrow> p dvd b \<Longrightarrow> b + p \<le> now \<Longrightarrow> b \<le> last_closed_bar now p"
  using floor_us_greatest [of p "b + p" now] by (simp add: last_closed_bar_def)

section \<open>Scheduler slots\<close>

definition next_apply_slot :: "datetime \<Rightarrow> int \<Rightarrow> int \<Rightarrow> py_exn + int" where
  "next_apply_slot after_ts p offset =
     (if \<not> (0 \<le> offset \<and> offset < p) then Inl (ValueError ''EXECUTE_OFFSET must be in [0, period)'')
      else let after_us = as_utc after_ts;
               close = floor_us after_us p + p;
               candidate = close - offset
           in if after_us < candidate then Inr candidate else Inr (candidate + p))"

lemma next_apply_slot_Inr_iff:
  "(\<exists>s. next_apply_slot a p off = Inr s) \<longleftrightarrow> 0 \<le> off \<and> off < p"
  by (auto simp: next_apply_slot_def Let_def)

lemma next_apply_slot_spec:
  assumes "next_apply_slot a p off = Inr s"
  shows "as_utc a < s" and "p dvd s + off" and "s \<le> as_utc a + p"
    and "\<And>r. as_utc a < r \<Longrightarrow> p dvd r + off \<Longrightarrow> s \<le> r"
proof -
  have off: "0 \<le> off" "off < p" and p: "0 < p"
    using assms by (auto simp: next_apply_slot_def Let_def split: if_splits)
  let ?a = "as_utc a" and ?c = "floor_us (as_utc a) p + p - off"
  have s: "s = (if ?a < ?c then ?c else ?c + p)"
    using assms off by (auto simp: next_apply_slot_def Let_def split: if_splits)
  have fl: "floor_us ?a p \<le> ?a" "?a < floor_us ?a p + p"
    using p by (auto intro: floor_us_le floor_us_gt)
  show "?a < s" using s fl off by auto
  show dvd: "p dvd s + off"
    using s by (auto simp: algebra_simps intro!: dvd_add)
  show "s \<le> ?a + p" using s fl off by auto
  fix r assume r: "?a < r" "p dvd r + off"
  show "s \<le> r"
  proof (rule ccontr)
    assume "\<not> s \<le> r"
    then have "r + off + p \<le> s + off"
      using aligned_gap [OF p r(2) dvd] by simp
    with r s fl off show False by (auto split: if_splits)
  qed
qed

text \<open>
  A listed session. The time zone database is outside the repository: \<open>to_wall\<close> is
  \<open>astimezone(zone)\<close> read as wall-clock microseconds, \<open>of_wall\<close> is the instant
  \<open>astimezone(UTC)\<close> gives back for a wall-clock time of the zone. Two datetimes that share
  their \<open>ZoneInfo\<close> are compared by wall clock, and subtracting a \<open>timedelta\<close> moves the wall
  clock, so the search runs on wall-clock microseconds. Day 0 (1970-01-01) is a Thursday.
\<close>

definition weekday :: "int \<Rightarrow> int" where
  "weekday day = (day + 3) mod 7"

fun session_search :: "nat \<Rightarrow> int \<Rightarrow> int \<Rightarrow> int \<Rightarrow> int \<Rightarrow> int option" where
  "session_search 0 day cursor close_time offset = None"
| "session_search (Suc n) day cursor close_time offset =
     (if 5 \<le> weekday day then session_search n (day + 1) cursor close_time offset
      else let candidate = day * us_day + close_time - offset
           in if cursor < candidate then Some candidate
              else session_search n (day + 1) cursor close_time offset)"

definition next_session_apply_slot ::
  "(int \<Rightarrow> int) \<Rightarrow> (int \<Rightarrow> int) \<Rightarrow> datetime \<Rightarrow> int \<Rightarrow> int \<Rightarrow> py_exn + int" where
  "next_session_apply_slot to_wall of_wall after_ts close_time offset =
     (if offset < 0 then Inl (ValueError ''EXECUTE_OFFSET must be >= 0'')
      else let cursor = to_wall (as_utc after_ts)
           in case session_search 10 (cursor div us_day) cursor close_time offset of
                Some candidate \<Rightarrow> Inr (of_wall candidate)
              | None \<Rightarrow> Inl (ValueError ''no session close within 10 days''))"

text \<open>The search returns a weekday's slot after the cursor, with no earlier one skipped.\<close>

definition session_slot :: "int \<Rightarrow> int \<Rightarrow> int \<Rightarrow> int" where
  "session_slot day close_time offset = day * us_day + close_time - offset"

lemma session_search_sound:
  "session_search n day cursor ct off = Some c \<Longrightarrow>
   \<exists>d. day \<le> d \<and> d < day + int n \<and> weekday d < 5 \<and> c = session_slot d ct off \<and> cursor < c
     \<and> (\<forall>e. day \<le> e \<and> e < d \<and> weekday e < 5 \<longrightarrow> session_slot e ct off \<le> cursor)"
proof (induction n day cursor ct off rule: session_search.induct)
  case (1 day cursor ct off)
  then show ?case by simp
next
  case (2 n day cursor ct off)
  show ?case
  proof (cases "5 \<le> weekday day \<or> \<not> cursor < session_slot day ct off")
    case True
    then have "session_search n (day + 1) cursor ct off = Some c"
      using "2.prems" by (auto simp: Let_def session_slot_def split: if_splits)
    with "2.IH" True obtain d where
      d: "day + 1 \<le> d" "d < day + 1 + int n" "weekday d < 5" "c = session_slot d ct off"
         "cursor < c" "\<forall>e. day + 1 \<le> e \<and> e < d \<and> weekday e < 5 \<longrightarrow> session_slot e ct off \<le> cursor"
      by (metis (no_types, lifting) session_slot_def)
    have "\<forall>e. day \<le> e \<and> e < d \<and> weekday e < 5 \<longrightarrow> session_slot e ct off \<le> cursor"
      using d(6) True by (metis linorder_not_less order_le_less zless_imp_add1_zle)
    with d show ?thesis by (intro exI [of _ d]) auto
  next
    case False
    then show ?thesis
      using "2.prems" by (intro exI [of _ day]) (auto simp: Let_def session_slot_def)
  qed
qed

lemma session_search_skip:
  "\<not> (weekday day < 5 \<and> cursor < session_slot day ct off) \<Longrightarrow>
   session_search (Suc n) day cursor ct off = session_search n (day + 1) cursor ct off"
  by (auto simp: Let_def session_slot_def)

lemma int_interval_Suc: "{day..<day + int (Suc n)} = insert day {day + 1..<day + 1 + int n}"
  by auto

lemma session_search_None_iff:
  "session_search n day cursor ct off = None \<longleftrightarrow>
   (\<forall>d \<in> {day..<day + int n}. weekday d < 5 \<longrightarrow> session_slot d ct off \<le> cursor)"
proof (induction n arbitrary: day)
  case 0
  show ?case by simp
next
  case (Suc n)
  have step: "session_search (Suc n) day cursor ct off = None \<longleftrightarrow>
      (weekday day < 5 \<longrightarrow> session_slot day ct off \<le> cursor)
      \<and> session_search n (day + 1) cursor ct off = None"
    by (auto simp: Let_def session_slot_def)
  show ?case
    unfolding step Suc.IH int_interval_Suc by (rule ball_simps(7) [symmetric])
qed

lemma weekday_among_three: "weekday d < 5 \<or> weekday (d + 1) < 5 \<or> weekday (d + 2) < 5"
  unfolding weekday_def by presburger

text \<open>
  With a lead under a day, a slot three calendar days ahead is always after the cursor, so the
  ten-day search cannot come back empty.
\<close>

lemma session_search_total:
  assumes "0 \<le> ct" and "off < us_day"
  shows "\<exists>c. session_search 10 (cursor div us_day) cursor ct off = Some c"
proof (rule ccontr)
  let ?d0 = "cursor div us_day"
  assume "\<nexists>c. session_search 10 ?d0 cursor ct off = Some c"
  then have none: "\<And>d. ?d0 \<le> d \<Longrightarrow> d < ?d0 + 10 \<Longrightarrow> weekday d < 5 \<Longrightarrow> session_slot d ct off \<le> cursor"
    using session_search_None_iff [of 10 ?d0 cursor ct off] by auto
  obtain d where d: "?d0 + 2 \<le> d" "d \<le> ?d0 + 4" "weekday d < 5"
    using weekday_among_three [of "?d0 + 2"] that [of "?d0 + 2"] that [of "?d0 + 2 + 1"]
      that [of "?d0 + 2 + 2"]
    by linarith
  have cur: "cursor < (?d0 + 1) * us_day"
    using pos_mod_bound [of us_day cursor] div_mult_mod_eq [of cursor us_day]
    by (simp add: us_defs algebra_simps)
  have "(?d0 + 1) * us_day < d * us_day + ct - off"
    using d assms by (simp add: us_defs)
  with cur none [of d] d show False by (simp add: session_slot_def)
qed

section \<open>Bar start times\<close>

text \<open>The \<open>while current <= end\<close> loop; \<^verbatim>\<open>parse_period\<close> only lets positive periods through.\<close>

function bar_loop :: "int \<Rightarrow> int \<Rightarrow> int \<Rightarrow> int list" where
  "bar_loop current end_us p =
     (if 0 < p \<and> current \<le> end_us then current # bar_loop (current + p) end_us p else [])"
  by pat_completeness auto
termination
  by (relation "measure (\<lambda>(current, end_us, p). nat (end_us + 1 - current))") auto

declare bar_loop.simps [simp del]

definition bar_starts :: "int \<Rightarrow> int \<Rightarrow> int \<Rightarrow> int list" where
  "bar_starts start end_us p =
     (let current = floor_us start p
      in bar_loop (if current < start then current + p else current) end_us p)"

lemma bar_loop_set:
  "0 < p \<Longrightarrow> set (bar_loop c e p) = {t. c \<le> t \<and> t \<le> e \<and> p dvd t - c}"
proof (induction c e p rule: bar_loop.induct)
  case (1 c e p)
  have step: "t = c \<or> (c + p \<le> t \<and> p dvd t - (c + p)) \<longleftrightarrow> c \<le> t \<and> p dvd t - c" for t
  proof -
    have "t - c = (t - (c + p)) + p"
      by simp
    then have dvd: "p dvd t - (c + p) \<longleftrightarrow> p dvd t - c"
      by (metis dvd_add_left_iff dvd_refl)
    have "c \<le> t \<Longrightarrow> p dvd t - c \<Longrightarrow> t \<noteq> c \<Longrightarrow> c + p \<le> t"
      using aligned_gap [of p 0 "t - c"] "1.prems" by simp
    with dvd "1.prems" show ?thesis by auto
  qed
  show ?case
  proof (cases "c \<le> e")
    case True
    have "set (bar_loop c e p) = insert c (set (bar_loop (c + p) e p))"
      using True "1.prems" by (simp add: bar_loop.simps [of c e p])
    also have "\<dots> = {t. t = c \<or> (c + p \<le> t \<and> t \<le> e \<and> p dvd t - (c + p))}"
      using "1.IH" True "1.prems" by auto
    also have "\<dots> = {t. c \<le> t \<and> t \<le> e \<and> p dvd t - c}"
      using step True by blast
    finally show ?thesis .
  next
    case False
    then show ?thesis by (auto simp: bar_loop.simps [of c e p])
  qed
qed

lemma bar_loop_ge: "t \<in> set (bar_loop c e p) \<Longrightarrow> c \<le> t"
  by (cases "0 < p") (auto simp: bar_loop_set bar_loop.simps [of c e p])

lemma bar_loop_sorted: "sorted_wrt (<) (bar_loop c e p)"
proof (induction c e p rule: bar_loop.induct)
  case (1 c e p)
  then show ?case
    using bar_loop_ge by (auto simp: bar_loop.simps [of c e p] less_le_trans dest!: bar_loop_ge)
qed

lemma bar_loop_length:
  "0 < p \<Longrightarrow> length (bar_loop c e p) = (if c \<le> e then nat ((e - c) div p + 1) else 0)"
proof (induction c e p rule: bar_loop.induct)
  case (1 c e p)
  show ?case
  proof (cases "c \<le> e")
    case True
    have div: "(e - c) div p = (e - (c + p)) div p + 1"
      using "1.prems" by (metis diff_add_cancel diff_diff_eq div_add_self2 less_irrefl)
    show ?thesis
    proof (cases "c + p \<le> e")
      case le: True
      then have "0 \<le> (e - (c + p)) div p"
        using "1.prems" by (simp add: pos_imp_zdiv_nonneg_iff)
      with "1.IH" True "1.prems" div le show ?thesis
        by (simp add: bar_loop.simps [of c e p])
    next
      case gt: False
      then have "(e - c) div p = 0"
        using True by (intro div_pos_pos_trivial) auto
      with True gt "1.prems" show ?thesis
        by (simp add: bar_loop.simps [of c e p] bar_loop.simps [of "c + p" e p])
    qed
  next
    case False
    then show ?thesis by (simp add: bar_loop.simps [of c e p])
  qed
qed

definition ceil_us :: "int \<Rightarrow> int \<Rightarrow> int" where
  "ceil_us t p = (if floor_us t p < t then floor_us t p + p else floor_us t p)"

lemma ceil_us_spec:
  assumes "0 < p"
  shows "t \<le> ceil_us t p" and "p dvd ceil_us t p" and "ceil_us t p < t + p"
    and "p dvd b \<Longrightarrow> t \<le> b \<Longrightarrow> ceil_us t p \<le> b"
proof -
  note fl = floor_us_le [OF assms, of t] floor_us_gt [OF assms, of t]
  show "t \<le> ceil_us t p" and "ceil_us t p < t + p"
    using fl assms by (auto simp: ceil_us_def)
  show "p dvd ceil_us t p"
    by (simp add: ceil_us_def)
  assume b: "p dvd b" "t \<le> b"
  then show "ceil_us t p \<le> b"
    using aligned_gap [OF assms floor_us_dvd b(1), of t] fl by (auto simp: ceil_us_def)
qed

lemma bar_starts_alt: "bar_starts s e p = bar_loop (ceil_us s p) e p"
  by (simp add: bar_starts_def ceil_us_def Let_def)

lemma set_bar_starts:
  assumes "0 < p"
  shows "set (bar_starts s e p) = {t. s \<le> t \<and> t \<le> e \<and> p dvd t}"
proof -
  note c = ceil_us_spec [OF assms, of s]
  have "p dvd t - ceil_us s p \<longleftrightarrow> p dvd t" for t
    using c(2) by (metis diff_add_cancel dvd_add_left_iff)
  then have "ceil_us s p \<le> t \<and> t \<le> e \<and> p dvd t - ceil_us s p \<longleftrightarrow> s \<le> t \<and> t \<le> e \<and> p dvd t" for t
    using c(1) ceil_us_spec(4) [OF assms, of t s] by auto
  then show ?thesis
    using assms by (simp add: bar_starts_alt bar_loop_set)
qed

lemma sorted_bar_starts: "sorted_wrt (<) (bar_starts s e p)"
  by (simp add: bar_starts_alt bar_loop_sorted)

lemma distinct_bar_starts: "distinct (bar_starts s e p)"
  using sorted_bar_starts strict_sorted_iff by blast

section \<open>ccxt timeframes\<close>

text \<open>\<open>int(period.total_seconds())\<close> of a positive period is the whole seconds in it.\<close>

definition ccxt_timeframe :: "int \<Rightarrow> py_exn + string" where
  "ccxt_timeframe p =
     (let seconds = p div us_second
      in if seconds mod 604800 = 0 then Inr (int_str (seconds div 604800) @ ''w'')
         else if seconds mod 86400 = 0 then Inr (int_str (seconds div 86400) @ ''d'')
         else if seconds mod 3600 = 0 then Inr (int_str (seconds div 3600) @ ''h'')
         else if seconds mod 60 = 0 then Inr (int_str (seconds div 60) @ ''m'')
         else Inl (ValueError ''no ccxt timeframe for period''))"

text \<open>What a timeframe string means, in seconds: a count and a unit.\<close>

definition unit_seconds :: "char \<Rightarrow> int option" where
  "unit_seconds c =
     (if c = CHR ''w'' then Some 604800 else if c = CHR ''d'' then Some 86400
      else if c = CHR ''h'' then Some 3600 else if c = CHR ''m'' then Some 60 else None)"

definition timeframe_seconds :: "string \<Rightarrow> int option" where
  "timeframe_seconds s =
     (if s = [] then None
      else map_option (\<lambda>u. int (digits_val (butlast s)) * u) (unit_seconds (last s)))"

lemma timeframe_seconds_append:
  "0 \<le> n \<Longrightarrow> unit_seconds c = Some u \<Longrightarrow> timeframe_seconds (int_str n @ [c]) = Some (n * u)"
  by (simp add: timeframe_seconds_def int_str_def)

lemma timeframe_of_multiple:
  assumes "0 \<le> n" and "0 < k" and "n mod k = 0" and "unit_seconds c = Some k"
  shows "timeframe_seconds (int_str (n div k) @ [c]) = Some n"
proof -
  have "n div k * k = n"
    using assms(3) by (simp add: mod_0_imp_dvd)
  moreover have "0 \<le> n div k"
    using assms(1,2) by (simp add: pos_imp_zdiv_nonneg_iff)
  ultimately show ?thesis
    using assms(4) by (simp only: timeframe_seconds_append)
qed

lemma unit_seconds_simps:
  "unit_seconds CHR ''w'' = Some 604800" "unit_seconds CHR ''d'' = Some 86400"
  "unit_seconds CHR ''h'' = Some 3600" "unit_seconds CHR ''m'' = Some 60"
  by (simp_all add: unit_seconds_def)

lemma ccxt_timeframe_seconds:
  assumes "0 < p" and "ccxt_timeframe p = Inr s"
  shows "timeframe_seconds s = Some (p div us_second)"
proof -
  define n where "n = p div us_second"
  have "0 \<le> n"
    using assms(1) by (simp add: n_def us_second_def pos_imp_zdiv_nonneg_iff)
  note units = timeframe_of_multiple [OF this _ _ unit_seconds_simps(1)]
    timeframe_of_multiple [OF this _ _ unit_seconds_simps(2)]
    timeframe_of_multiple [OF this _ _ unit_seconds_simps(3)]
    timeframe_of_multiple [OF this _ _ unit_seconds_simps(4)]
  show ?thesis
    using assms(2) units unfolding ccxt_timeframe_def Let_def n_def [symmetric]
    by (simp split: if_split_asm)
qed

section \<open>PERIOD_LENGTH\<close>

text \<open>
  \<open>_TIMEDELTA_TEXT\<close> as a parser: blanks, an optional \<open>N day(s),\<close> group, hours, minutes and
  seconds, an optional fraction, blanks. The regular expression can only match one way, so no
  backtracking is left out: digits followed by a blank cannot start \<open>hours:\<close>, and digits
  followed by a colon cannot start the day group. Blanks and digits are the ASCII ones.
\<close>

datatype period_value = PTimedelta int | PText string | POther string

definition is_space :: "char \<Rightarrow> bool" where
  "is_space c = (of_char c \<in> {9, 10, 11, 12, 13, 28, 29, 30, 31, 32 :: nat})"

definition skip_space :: "string \<Rightarrow> string" where
  "skip_space s = dropWhile is_space s"

definition take_int :: "string \<Rightarrow> (int \<times> string) option" where
  "take_int s =
     (let (sgn, r) = (if starts_with ''-'' s then (- 1, tl s) else (1, s));
          ds = takeWhile is_digit r
      in if ds = [] then None else Some (sgn * int (digits_val ds), dropWhile is_digit r))"

definition take_two :: "string \<Rightarrow> (int \<times> string) option" where
  "take_two s =
     (let ds = takeWhile is_digit s
      in if length ds = 1 \<or> length ds = 2 then Some (int (digits_val ds), dropWhile is_digit s)
         else None)"

definition take_lit :: "string \<Rightarrow> string \<Rightarrow> string option" where
  "take_lit p s = (if starts_with p s then Some (drop (length p) s) else None)"

definition take_days :: "string \<Rightarrow> (int \<times> string) option" where
  "take_days s =
     Option.bind (take_int s) (\<lambda>(d, r).
       if r = [] \<or> \<not> is_space (hd r) then None
       else map_option
         (\<lambda>r. let r = (case take_lit ''s'' r of Some r' \<Rightarrow> r' | None \<Rightarrow> r);
                  r = (case take_lit '','' r of Some r' \<Rightarrow> r' | None \<Rightarrow> r)
              in (d, skip_space r))
         (take_lit ''day'' (skip_space r)))"

definition take_fraction :: "string \<Rightarrow> string \<times> string" where
  "take_fraction s =
     (if starts_with ''.'' s \<and> takeWhile is_digit (tl s) \<noteq> []
      then (takeWhile is_digit (tl s), dropWhile is_digit (tl s)) else ([], s))"

definition fraction_us :: "string \<Rightarrow> int" where
  "fraction_us ds =
     (if ds = [] then 0 else int (digits_val (take 6 (ds @ replicate (6 - length ds) CHR ''0''))))"

definition match_timedelta :: "string \<Rightarrow> int option" where
  "match_timedelta s =
     (let s0 = skip_space s;
          (days, s1) = (case take_days s0 of Some x \<Rightarrow> x | None \<Rightarrow> (0, s0))
      in Option.bind (take_int s1) (\<lambda>(h, s2).
         Option.bind (take_lit '':'' s2) (\<lambda>s3.
         Option.bind (take_two s3) (\<lambda>(m, s4).
         Option.bind (take_lit '':'' s4) (\<lambda>s5.
         Option.bind (take_two s5) (\<lambda>(sec, s6).
           let (frac, s7) = take_fraction s6
           in if skip_space s7 = []
              then Some (days * us_day + h * us_hour + m * us_minute + sec * us_second
                         + fraction_us frac)
              else None))))))"

definition timedelta_max_days :: int where
  "timedelta_max_days = 999999999"

text \<open>\<open>timedelta(...)\<close> raises when the normalised day count leaves its range.\<close>

definition mk_timedelta :: "int \<Rightarrow> py_exn + int" where
  "mk_timedelta us =
     (if - timedelta_max_days \<le> us div us_day \<and> us div us_day \<le> timedelta_max_days then Inr us
      else Inl (OverflowError ''days; must have magnitude <= 999999999''))"

definition parse_period :: "period_value \<Rightarrow> py_exn + int" where
  "parse_period v =
     bindR (case v of
              PTimedelta us \<Rightarrow> Inr us
            | PText s \<Rightarrow>
                (case match_timedelta s of
                   None \<Rightarrow> Inl (ValueError (''unrecognised PERIOD_LENGTH: '' @ s))
                 | Some us \<Rightarrow> mk_timedelta us)
            | POther ty \<Rightarrow> Inl (TypeError (''PERIOD_LENGTH must be a timedelta or str, got '' @ ty)))
       (\<lambda>period. if period \<le> 0 then Inl (ValueError ''PERIOD_LENGTH must be positive'')
                 else Inr period)"

lemma parse_period_positive: "parse_period v = Inr p \<Longrightarrow> 0 < p"
  by (auto simp: parse_period_def bindR_Inr_iff split: if_splits)

text \<open>\<open>str(timedelta)\<close>, which is what the REFDATA publisher writes.\<close>

definition str_timedelta :: "int \<Rightarrow> string" where
  "str_timedelta us =
     (let days = us div us_day; r = us mod us_day;
          h = r div us_hour; m = r mod us_hour div us_minute;
          sec = r mod us_minute div us_second; micro = r mod us_second
      in (if days = 0 then []
          else int_str days @ '' day'' @ (if \<bar>days\<bar> \<noteq> 1 then ''s'' else []) @ '', '')
         @ nat_str (nat h) @ '':'' @ pad_left 2 (nat_str (nat m)) @ '':''
         @ pad_left 2 (nat_str (nat sec))
         @ (if micro = 0 then [] else ''.'' @ pad_left 6 (nat_str (nat micro))))"

text \<open>Each reader of the parser undoes the writer that produced its text.\<close>

lemma not_digit_facts [simp]:
  "\<not> is_digit CHR '':''" "\<not> is_digit CHR '' ''" "\<not> is_digit CHR ''.''" "\<not> is_digit CHR ''-''"
  "is_space CHR '' ''" "\<not> is_space CHR '':''"
  by (simp_all add: is_digit_def is_space_def)

lemma take_int_nat_str:
  "\<not> is_digit c \<Longrightarrow> take_int (nat_str n @ c # s) = Some (int n, c # s)"
proof -
  assume c: "\<not> is_digit c"
  obtain d ds where ds: "nat_str n = d # ds" "is_digit d"
    using nat_str_digits [of n] by (cases "nat_str n") auto
  have "d \<noteq> CHR ''-''"
    using ds by auto
  then have "\<not> starts_with ''-'' (nat_str n @ c # s)"
    using ds by simp
  then show ?thesis
    using c nat_str_digits [of n]
    by (simp add: take_int_def takeWhile_digits dropWhile_digits)
qed

lemma take_two_pad:
  assumes "n < 100"
  shows "\<not> is_digit c \<Longrightarrow> take_two (pad_left 2 (nat_str n) @ c # s) = Some (int n, c # s)"
    and "take_two (pad_left 2 (nat_str n)) = Some (int n, [])"
proof -
  have len: "length (pad_left 2 (nat_str n)) = 2"
    using assms by (intro length_pad_left length_nat_str_le) auto
  have dig: "list_all is_digit (pad_left 2 (nat_str n))"
    by (simp add: pad_left_digits nat_str_digits)
  show "\<not> is_digit c \<Longrightarrow> take_two (pad_left 2 (nat_str n) @ c # s) = Some (int n, c # s)"
    using len dig by (simp add: take_two_def takeWhile_digits dropWhile_digits)
  have all: "takeWhile is_digit (pad_left 2 (nat_str n)) = pad_left 2 (nat_str n)"
    "dropWhile is_digit (pad_left 2 (nat_str n)) = []"
    using dig by (auto simp: list_all_iff)
  show "take_two (pad_left 2 (nat_str n)) = Some (int n, [])"
    unfolding take_two_def Let_def all using len by simp
qed

lemma take_fraction_pad:
  assumes "n < 1000000"
  shows "take_fraction (''.'' @ pad_left 6 (nat_str n)) = (pad_left 6 (nat_str n), [])"
    and "fraction_us (pad_left 6 (nat_str n)) = int n"
proof -
  have len: "length (pad_left 6 (nat_str n)) = 6"
    using assms by (intro length_pad_left length_nat_str_le) auto
  have dig: "list_all is_digit (pad_left 6 (nat_str n))"
    by (simp add: pad_left_digits nat_str_digits)
  have all: "takeWhile is_digit (pad_left 6 (nat_str n)) = pad_left 6 (nat_str n)"
    "dropWhile is_digit (pad_left 6 (nat_str n)) = []"
    using dig by (auto simp: list_all_iff)
  have ne: "pad_left 6 (nat_str n) \<noteq> []"
    using len by auto
  show "take_fraction (''.'' @ pad_left 6 (nat_str n)) = (pad_left 6 (nat_str n), [])"
    unfolding take_fraction_def append_Cons append_Nil list.sel all using ne by simp
  show "fraction_us (pad_left 6 (nat_str n)) = int n"
    using len ne by (simp add: fraction_us_def)
qed

lemma take_lit_colon [simp]: "take_lit '':'' (CHR '':'' # s) = Some s"
  by (simp add: take_lit_def)

text \<open>The clock part, with its optional fraction.\<close>

definition clock_str :: "nat \<Rightarrow> nat \<Rightarrow> nat \<Rightarrow> nat \<Rightarrow> string" where
  "clock_str h m sec micro =
     nat_str h @ CHR '':'' # pad_left 2 (nat_str m) @ CHR '':'' # pad_left 2 (nat_str sec)
     @ (if micro = 0 then [] else ''.'' @ pad_left 6 (nat_str micro))"

lemma skip_space_digits [simp]: "list_all is_digit ds \<Longrightarrow> ds \<noteq> [] \<Longrightarrow> skip_space (ds @ s) = ds @ s"
  by (cases ds) (auto simp: skip_space_def is_digit_def is_space_def)

lemma skip_space_clock: "skip_space (clock_str h m sec micro) = clock_str h m sec micro"
  by (simp add: clock_str_def nat_str_digits)

lemma take_days_clock: "take_days (clock_str h m sec micro) = None"
  by (simp add: take_days_def clock_str_def take_int_nat_str)

lemma take_days_days:
  assumes "s = [] \<or> s = ''s''"
  shows "take_days (nat_str d @ '' day'' @ s @ '', '' @ clock_str h m sec micro)
         = Some (int d, clock_str h m sec micro)"
  using assms skip_space_clock [of h m sec micro]
  by (auto simp: take_days_def take_int_nat_str skip_space_def take_lit_def is_space_def)

definition match_clock :: "int \<Rightarrow> string \<Rightarrow> int option" where
  "match_clock days s1 =
     Option.bind (take_int s1) (\<lambda>(h, s2).
     Option.bind (take_lit '':'' s2) (\<lambda>s3.
     Option.bind (take_two s3) (\<lambda>(m, s4).
     Option.bind (take_lit '':'' s4) (\<lambda>s5.
     Option.bind (take_two s5) (\<lambda>(sec, s6).
       let (frac, s7) = take_fraction s6
       in if skip_space s7 = []
          then Some (days * us_day + h * us_hour + m * us_minute + sec * us_second
                     + fraction_us frac)
          else None)))))"

lemma match_clock_str:
  assumes "m < 60" and "sec < 60" and "micro < 1000000"
  shows "match_clock days (clock_str h m sec micro)
         = Some (days * us_day + int h * us_hour + int m * us_minute + int sec * us_second + int micro)"
proof (cases "micro = 0")
  case True
  have "take_fraction [] = ([], [])" and "fraction_us [] = 0" and "skip_space [] = []"
    by (simp_all add: take_fraction_def fraction_us_def skip_space_def)
  then show ?thesis
    using True assms
    by (simp add: match_clock_def clock_str_def take_int_nat_str take_two_pad)
next
  case False
  have "skip_space [] = []"
    by (simp add: skip_space_def)
  then show ?thesis
    using False assms take_fraction_pad [of micro]
    by (simp add: match_clock_def clock_str_def take_int_nat_str take_two_pad)
qed

lemma match_timedelta_alt:
  "match_timedelta s =
     (let s0 = skip_space s
      in case take_days s0 of Some (d, s1) \<Rightarrow> match_clock d s1 | None \<Rightarrow> match_clock 0 s0)"
  by (simp add: match_timedelta_def match_clock_def Let_def split: option.splits prod.splits)

lemma clock_split:
  "r = r div us_hour * us_hour + r mod us_hour div us_minute * us_minute
       + r mod us_minute div us_second * us_second + r mod us_second"
proof -
  have "r mod us_hour mod us_minute = r mod us_minute"
    by (rule mod_mod_cancel) (simp add: us_defs)
  moreover have "r mod us_minute mod us_second = r mod us_second"
    by (rule mod_mod_cancel) (simp add: us_defs)
  ultimately show ?thesis
    by (metis add.assoc div_mult_mod_eq)
qed

lemma str_timedelta_clock:
  assumes "0 \<le> us"
  shows "\<exists>h m sec micro. us mod us_day = int h * us_hour + int m * us_minute + int sec * us_second + int micro
    \<and> m < 60 \<and> sec < 60 \<and> micro < 1000000
    \<and> str_timedelta us = (if us div us_day = 0 then []
        else nat_str (nat (us div us_day)) @ '' day'' @ (if us div us_day \<noteq> 1 then ''s'' else []) @ '', '')
        @ clock_str h m sec micro"
proof -
  define r where "r = us mod us_day"
  let ?h = "nat (r div us_hour)" and ?m = "nat (r mod us_hour div us_minute)"
    and ?sec = "nat (r mod us_minute div us_second)" and ?micro = "nat (r mod us_second)"
  have r: "0 \<le> r"
    by (simp add: r_def us_defs)
  then have "0 \<le> r div us_hour" "0 \<le> r mod us_hour div us_minute" "0 \<le> r mod us_minute div us_second"
    and micro: "0 \<le> r mod us_second"
    by (simp_all add: us_defs pos_imp_zdiv_nonneg_iff)
  then have split: "us mod us_day = int ?h * us_hour + int ?m * us_minute + int ?sec * us_second + int ?micro"
    using clock_split [of r] by (simp add: r_def)
  have bounds: "?m < 60" "?sec < 60" "?micro < 1000000"
    using r by (simp_all add: us_defs)
  have "0 \<le> us div us_day"
    using assms by (simp add: us_defs pos_imp_zdiv_nonneg_iff)
  then have days: "\<bar>us div us_day\<bar> = us div us_day"
    "int_str (us div us_day) = nat_str (nat (us div us_day))"
    by (simp_all add: int_str_def)
  have zero: "nat (r mod us_second) = 0 \<longleftrightarrow> r mod us_second = 0"
    using micro by linarith
  have "str_timedelta us = (if us div us_day = 0 then []
        else nat_str (nat (us div us_day)) @ '' day'' @ (if us div us_day \<noteq> 1 then ''s'' else []) @ '', '')
        @ clock_str ?h ?m ?sec ?micro"
    unfolding str_timedelta_def clock_str_def Let_def r_def [symmetric] days zero by simp
  with split bounds show ?thesis by blast
qed

lemma match_str_timedelta:
  assumes "0 \<le> us"
  shows "match_timedelta (str_timedelta us) = Some us"
proof -
  obtain h m sec micro where
    r: "us mod us_day = int h * us_hour + int m * us_minute + int sec * us_second + int micro"
    and b: "m < 60" "sec < 60" "micro < 1000000"
    and str: "str_timedelta us = (if us div us_day = 0 then []
        else nat_str (nat (us div us_day)) @ '' day'' @ (if us div us_day \<noteq> 1 then ''s'' else []) @ '', '')
        @ clock_str h m sec micro"
    using str_timedelta_clock [OF assms] by blast
  have us: "us = us div us_day * us_day + us mod us_day"
    by simp
  have d: "0 \<le> us div us_day"
    using assms by (simp add: us_defs pos_imp_zdiv_nonneg_iff)
  show ?thesis
  proof (cases "us div us_day = 0")
    case True
    with str have "str_timedelta us = clock_str h m sec micro"
      by simp
    then have "match_timedelta (str_timedelta us) = match_clock 0 (clock_str h m sec micro)"
      by (simp add: match_timedelta_alt skip_space_clock take_days_clock)
    with True us r b show ?thesis
      by (simp add: match_clock_str)
  next
    case False
    let ?d = "nat (us div us_day)" and ?s = "if us div us_day \<noteq> 1 then ''s'' else []"
    let ?txt = "nat_str ?d @ '' day'' @ ?s @ '', '' @ clock_str h m sec micro"
    from str False have shape: "str_timedelta us = ?txt"
      by simp
    have "skip_space ?txt = ?txt"
      by (rule skip_space_digits [OF nat_str_digits nat_str_not_Nil])
    moreover have "take_days ?txt = Some (int ?d, clock_str h m sec micro)"
      by (rule take_days_days) simp
    ultimately have "match_timedelta (str_timedelta us) = match_clock (int ?d) (clock_str h m sec micro)"
      unfolding shape by (simp add: match_timedelta_alt)
    with us r b d show ?thesis
      by (simp add: match_clock_str)
  qed
qed

lemma session_slot_mono: "d \<le> e \<Longrightarrow> session_slot d ct off \<le> session_slot e ct off"
  by (simp add: session_slot_def us_defs)

section \<open>Properties\<close>

text \<open>\<open>next_apply_slot\<close> accepts exactly the leads in \<open>[0, period)\<close>, and what it returns
  is the earliest instant strictly after \<open>after\<close> that lies the lead before a bar close.\<close>

theorem next_apply_slot_exact:
  "next_apply_slot a p off = Inr s \<longleftrightarrow>
     0 \<le> off \<and> off < p \<and> as_utc a < s \<and> p dvd s + off
     \<and> (\<forall>r. as_utc a < r \<and> p dvd r + off \<longrightarrow> s \<le> r)"
proof
  assume s: "next_apply_slot a p off = Inr s"
  then show "0 \<le> off \<and> off < p \<and> as_utc a < s \<and> p dvd s + off
     \<and> (\<forall>r. as_utc a < r \<and> p dvd r + off \<longrightarrow> s \<le> r)"
    using next_apply_slot_spec [OF s] next_apply_slot_Inr_iff [of a p off] by blast
next
  assume R: "0 \<le> off \<and> off < p \<and> as_utc a < s \<and> p dvd s + off
     \<and> (\<forall>r. as_utc a < r \<and> p dvd r + off \<longrightarrow> s \<le> r)"
  then obtain t where t: "next_apply_slot a p off = Inr t"
    using next_apply_slot_Inr_iff by blast
  note spec = next_apply_slot_spec [OF t]
  have "t = s"
    using spec R by (meson order_antisym)
  with t show "next_apply_slot a p off = Inr s" by simp
qed

theorem next_apply_slot_exact_witness:
  "next_apply_slot (Aware 25) 10 2 = Inr 28 \<and> (10::int) dvd 28 + 2"
proof -
  have "next_apply_slot (Aware 25) 10 2 = Inr 28"
    by (simp add: next_apply_slot_def floor_us_def as_utc_def)
  with next_apply_slot_exact [of "Aware 25" 10 2 28] show ?thesis by blast
qed

text \<open>For a session close within the day and a lead under a day, the ten-day search of
  \<open>next_session_apply_slot\<close> always finds a slot, and it is the first weekday's slot after the
  given instant in the listing's wall clock: no weekday before it still has one to come.\<close>

theorem next_session_apply_slot_first:
  assumes "0 \<le> ct" and "ct < us_day" and "0 \<le> off" and "off < us_day"
  shows "\<exists>d. next_session_apply_slot to_wall of_wall a ct off = Inr (of_wall (session_slot d ct off))
    \<and> weekday d < 5 \<and> to_wall (as_utc a) < session_slot d ct off
    \<and> (\<forall>e < d. weekday e < 5 \<longrightarrow> session_slot e ct off \<le> to_wall (as_utc a))"
proof -
  let ?cur = "to_wall (as_utc a)"
  obtain c where c: "session_search 10 (?cur div us_day) ?cur ct off = Some c"
    using session_search_total assms(1,4) by blast
  obtain d where d: "weekday d < 5" "c = session_slot d ct off" "?cur < c"
    and skip: "\<forall>e. ?cur div us_day \<le> e \<and> e < d \<and> weekday e < 5 \<longrightarrow> session_slot e ct off \<le> ?cur"
    using session_search_sound [OF c] by blast
  have old: "session_slot e ct off \<le> ?cur" if "e < ?cur div us_day" for e
  proof -
    have "session_slot e ct off \<le> session_slot (?cur div us_day - 1) ct off"
      using that by (intro session_slot_mono) simp
    also have "\<dots> \<le> ?cur div us_day * us_day"
      using assms by (simp add: session_slot_def us_defs)
    also have "\<dots> \<le> ?cur"
      using pos_mod_sign [of us_day ?cur] div_mult_mod_eq [of ?cur us_day]
      by (simp add: us_defs)
    finally show ?thesis .
  qed
  have "\<forall>e < d. weekday e < 5 \<longrightarrow> session_slot e ct off \<le> ?cur"
    using skip old by (meson linorder_not_less)
  with c d assms(3) show ?thesis
    by (auto simp: next_session_apply_slot_def Let_def)
qed

theorem next_session_apply_slot_first_witness:
  "\<exists>d. next_session_apply_slot (\<lambda>t. t) (\<lambda>t. t) (Aware (2 * us_day)) (16 * us_hour) us_minute
      = Inr (session_slot d (16 * us_hour) us_minute) \<and> weekday d < 5"
  using next_session_apply_slot_first [of "16 * us_hour" us_minute "\<lambda>t. t" "\<lambda>t. t" "Aware (2 * us_day)"]
  by (auto simp: us_defs)

text \<open>\<open>bar_starts\<close> lists exactly the bar boundaries of the period between the two instants,
  both included, each once and in increasing order, so a gap check against it misses nothing.\<close>

theorem bar_starts_exact:
  assumes "0 < p"
  shows "set (bar_starts s e p) = {t. s \<le> t \<and> t \<le> e \<and> p dvd t}
    \<and> sorted_wrt (<) (bar_starts s e p)"
  using set_bar_starts [OF assms] sorted_bar_starts by blast

theorem bar_starts_exact_witness: "set (bar_starts 5 31 10) = {t. 5 \<le> t \<and> t \<le> 31 \<and> (10::int) dvd t}"
  using bar_starts_exact [of 10 5 31] by simp

text \<open>\<open>last_closed_bar\<close> is the newest aligned bar that has already ended: it has closed by
  \<open>now\<close>, and every aligned bar that has is no newer.\<close>

theorem last_closed_bar_exact:
  assumes "0 < p"
  shows "b = last_closed_bar now p \<longleftrightarrow>
    p dvd b \<and> b + p \<le> now \<and> (\<forall>c. p dvd c \<and> c + p \<le> now \<longrightarrow> c \<le> b)"
  using last_closed_bar_closed [OF assms, of now] last_closed_bar_newest [OF assms]
    last_closed_bar_dvd [of p now]
  by (meson order_antisym)

theorem last_closed_bar_exact_witness: "last_closed_bar 37 10 = 20 \<and> (10::int) dvd 20"
proof -
  have "20 = last_closed_bar 37 10" by (simp add: last_closed_bar_def floor_us_def)
  with last_closed_bar_exact [of 10 20 37] show ?thesis by simp
qed

text \<open>A positive \<open>PERIOD_LENGTH\<close> survives the trip through the REFDATA cache: what
  \<open>parse_period\<close> reads from the text \<open>str(timedelta)\<close> is the period that was written.\<close>

theorem period_text_roundtrip:
  assumes "0 < us" and "us div us_day \<le> timedelta_max_days"
  shows "parse_period (PText (str_timedelta us)) = Inr us"
proof -
  have "0 \<le> us div us_day"
    using assms(1) by (simp add: us_defs pos_imp_zdiv_nonneg_iff)
  with assms match_str_timedelta [of us] show ?thesis
    by (simp add: parse_period_def mk_timedelta_def timedelta_max_days_def)
qed

theorem period_text_roundtrip_witness:
  "parse_period (PText (str_timedelta 93784000005)) = Inr 93784000005"
  using period_text_roundtrip [of 93784000005] by (simp add: us_defs timedelta_max_days_def)

text \<open>A timeframe string \<open>ccxt_timeframe\<close> produces denotes the period it was given, to the
  whole second; a period of whole minutes always has one.\<close>

theorem ccxt_timeframe_denotes:
  assumes "0 < p"
  shows "(\<forall>s. ccxt_timeframe p = Inr s \<longrightarrow> timeframe_seconds s = Some (p div us_second))
    \<and> (p div us_second mod 60 = 0 \<longrightarrow> (\<exists>s. ccxt_timeframe p = Inr s))"
  using ccxt_timeframe_seconds [OF assms] by (auto simp: ccxt_timeframe_def Let_def)

theorem ccxt_timeframe_denotes_witness:
  "ccxt_timeframe (4 * us_hour) = Inr ''4h'' \<and> timeframe_seconds ''4h'' = Some 14400"
proof -
  have "ccxt_timeframe (4 * us_hour) = Inr ''4h''" by code_simp
  with ccxt_timeframe_denotes [of "4 * us_hour"] show ?thesis by (simp add: us_defs)
qed

end
