(* ===== verification/Orders.thy ===== *)
theory Orders
  imports PyFloat
begin

text \<open>
  The value objects the trading layers pass around: \<^verbatim>\<open>quant/trade/models/order.py\<close>,
  \<^verbatim>\<open>market.py\<close>, \<^verbatim>\<open>key_profile.py\<close> and the exceptions of
  \<^verbatim>\<open>quant/trade/errors.py\<close>. Enum members keep their name; the members \<open>BUY\<close> and
  \<open>SELL\<close> of the order side carry a prefix, since the intended action has them too.
\<close>

section \<open>Orders\<close>

datatype order_side = Side_BUY | Side_SELL

datatype order_type = MARKET | LIMIT

datatype reject_reason =
    SIZE_BELOW_MINIMUM
  | IP_NOT_ALLOWED
  | REGION_RESTRICTED
  | KEY_READ_ONLY
  | KEY_REFUSED
  | INSUFFICIENT_FUNDS
  | INVALID_ORDER
  | VENUE_REJECTED
  | NOT_ACKNOWLEDGED
  | CANCEL_FAILED

definition requires_operator_fix :: "reject_reason \<Rightarrow> bool" where
  "requires_operator_fix r =
     (r \<in> {SIZE_BELOW_MINIMUM, IP_NOT_ALLOWED, REGION_RESTRICTED, KEY_READ_ONLY, CANCEL_FAILED})"

datatype intended = BUY | SELL | HOLD | OPEN_SHORT | CLOSE_SHORT

definition order_side :: "intended \<Rightarrow> order_side option" where
  "order_side a =
     (if a = BUY \<or> a = CLOSE_SHORT then Some Side_BUY
      else if a = SELL \<or> a = OPEN_SHORT then Some Side_SELL
      else None)"

definition side_value :: "order_side \<Rightarrow> string" where
  "side_value s = (case s of Side_BUY \<Rightarrow> ''BUY'' | Side_SELL \<Rightarrow> ''SELL'')"

definition action_value :: "intended \<Rightarrow> string" where
  "action_value a =
     (case a of BUY \<Rightarrow> ''BUY'' | SELL \<Rightarrow> ''SELL'' | HOLD \<Rightarrow> ''HOLD''
      | OPEN_SHORT \<Rightarrow> ''OPEN_SHORT'' | CLOSE_SHORT \<Rightarrow> ''CLOSE_SHORT'')"

record order_request =
  req_symbol :: string
  req_qty :: flt
  req_side :: order_side
  req_type :: order_type
  req_limit_price :: "flt option"

record order_result =
  success :: bool
  vendor_order_id :: "string option"
  message :: string
  reason :: "reject_reason option"
  raw_status :: "string option"
  res_side :: "order_side option"
  requested_qty :: "flt option"
  filled_qty :: "flt option"
  avg_price :: "flt option"
  fee :: "flt option"
  fee_ccy :: "string option"

text \<open>\<open>OrderResult(success, vendor_order_id, message)\<close> with the dataclass defaults.\<close>

definition mk_result :: "bool \<Rightarrow> string option \<Rightarrow> string \<Rightarrow> order_result" where
  "mk_result ok oid msg =
     \<lparr>success = ok, vendor_order_id = oid, message = msg, reason = None, raw_status = None,
      res_side = None, requested_qty = None, filled_qty = None, avg_price = None, fee = None,
      fee_ccy = None\<rparr>"

lemma mk_result_simps [simp]:
  "success (mk_result ok oid msg) = ok"
  "vendor_order_id (mk_result ok oid msg) = oid"
  "message (mk_result ok oid msg) = msg"
  "reason (mk_result ok oid msg) = None"
  "filled_qty (mk_result ok oid msg) = None"
  by (simp_all add: mk_result_def)

section \<open>Exceptions\<close>

text \<open>
  \<open>TradeValidationError\<close> and its subclasses; \<open>BrokerAuthError\<close> and \<open>OrderNotFoundError\<close> are
  \<open>BrokerConnectionError\<close>s. \<open>PyExn\<close> is any other exception the code lets through.
\<close>

datatype trade_exn =
    TradeValidationError string int
  | SymbolMappingError string
  | AdapterNotFoundError string
  | BrokerConnectionError string int "reject_reason option"
  | BrokerAuthError string "reject_reason option"
  | OrderNotFoundError string
  | DeploymentNotFound string
  | PyExn py_exn

definition is_broker_connection :: "trade_exn \<Rightarrow> bool" where
  "is_broker_connection e =
     (case e of BrokerConnectionError m c r \<Rightarrow> True | BrokerAuthError m r \<Rightarrow> True
      | OrderNotFoundError m \<Rightarrow> True | _ \<Rightarrow> False)"

fun py_message :: "py_exn \<Rightarrow> string" where
  "py_message (ValueError m) = m"
| "py_message (TypeError m) = m"
| "py_message (RuntimeError m) = m"
| "py_message (KeyError m) = m"
| "py_message (OverflowError m) = m"
| "py_message (ZeroDivisionError m) = m"
| "py_message (AssertionError m) = m"
| "py_message (UnboundLocalError m) = m"

definition exn_message :: "trade_exn \<Rightarrow> string" where
  "exn_message e =
     (case e of TradeValidationError m c \<Rightarrow> m | SymbolMappingError m \<Rightarrow> m
      | AdapterNotFoundError m \<Rightarrow> m | BrokerConnectionError m c r \<Rightarrow> m | BrokerAuthError m r \<Rightarrow> m
      | OrderNotFoundError m \<Rightarrow> m | DeploymentNotFound m \<Rightarrow> m | PyExn p \<Rightarrow> py_message p)"

definition exn_reason :: "trade_exn \<Rightarrow> reject_reason option" where
  "exn_reason e =
     (case e of BrokerConnectionError m c r \<Rightarrow> r | BrokerAuthError m r \<Rightarrow> r | _ \<Rightarrow> None)"

definition exn_status :: "trade_exn \<Rightarrow> int option" where
  "exn_status e =
     (case e of TradeValidationError m c \<Rightarrow> Some c | SymbolMappingError m \<Rightarrow> Some 400
      | AdapterNotFoundError m \<Rightarrow> Some 400 | BrokerConnectionError m c r \<Rightarrow> Some c
      | BrokerAuthError m r \<Rightarrow> Some 400 | OrderNotFoundError m \<Rightarrow> Some 503
      | DeploymentNotFound m \<Rightarrow> None | PyExn p \<Rightarrow> None)"

section \<open>Venue limits\<close>

record market_limits =
  lim_symbol :: string
  min_qty :: "flt option"
  min_notional :: "flt option"

definition no_limits :: "string \<Rightarrow> market_limits" where
  "no_limits symb = \<lparr>lim_symbol = symb, min_qty = None, min_notional = None\<rparr>"

definition below :: "flt \<Rightarrow> flt option \<Rightarrow> bool" where
  "below x limit = (case limit of None \<Rightarrow> False | Some m \<Rightarrow> flt_lt x m)"

definition undersized :: "market_limits \<Rightarrow> flt \<Rightarrow> flt option \<Rightarrow> string option" where
  "undersized lims qty price =
     (if flt_le qty (Fin 0) then None
      else if below qty (min_qty lims) then
        Some (''qty '' @ fmt_g qty @ '' is below '' @ lim_symbol lims @ '' min qty ''
              @ fmt_g (the (min_qty lims)))
      else case (min_notional lims, price) of
             (Some m, Some p) \<Rightarrow>
               (let notional = flt_mul qty p
                in if flt_lt notional m then
                     Some (''notional '' @ fmt_g notional @ '' is below '' @ lim_symbol lims
                           @ '' min notional '' @ fmt_g m)
                   else None)
           | _ \<Rightarrow> None)"

lemma undersized_no_limits [simp]: "undersized (no_limits symb) qty price = None"
  by (simp add: undersized_def no_limits_def below_def)

lemma undersized_None_iff:
  "undersized lims qty price = None \<longleftrightarrow>
     flt_le qty (Fin 0)
     \<or> (\<not> below qty (min_qty lims)
        \<and> (\<forall>m p. min_notional lims = Some m \<and> price = Some p \<longrightarrow> \<not> flt_lt (flt_mul qty p) m))"
  by (auto simp: undersized_def Let_def split: option.splits)

text \<open>With no quote only the lot rule applies: what the edit-time check enforces.\<close>

lemma undersized_without_price:
  "undersized lims qty None = None \<longleftrightarrow> flt_le qty (Fin 0) \<or> \<not> below qty (min_qty lims)"
  by (auto simp: undersized_None_iff)

section \<open>Key profiles\<close>

record api_key_info =
  ips :: "string list"
  kyc_region :: "string option"
  read_only :: "bool option"
  expires_at :: "string option"

record key_profile =
  route :: string
  info :: "api_key_info option"
  restricted_market_types :: "string set"

definition accepted :: "string \<Rightarrow> api_key_info option \<Rightarrow> key_profile option \<Rightarrow> key_profile" where
  "accepted r i carrying =
     \<lparr>route = r, info = i,
      restricted_market_types =
        (case carrying of Some p \<Rightarrow> restricted_market_types p | None \<Rightarrow> {})\<rparr>"

text \<open>\<open>x or y\<close> on an optional string: an empty string falls through too.\<close>

definition str_or :: "string option \<Rightarrow> string \<Rightarrow> string" where
  "str_or s d = (if truthy s then the s else d)"

definition refusal :: "key_profile \<Rightarrow> string \<Rightarrow> (reject_reason \<times> string) option" where
  "refusal p market_type =
     (if info p \<noteq> None \<and> read_only (the (info p)) = Some True then
        Some (KEY_READ_ONLY,
              ''API key is read-only '' @ em_dash @ '' enable trading on it at the venue'')
      else if market_type \<in> restricted_market_types p then
        Some (REGION_RESTRICTED,
              ''venue refuses '' @ market_type @ '' for this account (KYC region ''
              @ str_or (case info p of Some i \<Rightarrow> kyc_region i | None \<Rightarrow> None) ''unknown'' @ '')'')
      else None)"

definition restricting :: "key_profile \<Rightarrow> string \<Rightarrow> key_profile" where
  "restricting p market_type =
     p\<lparr>restricted_market_types := insert market_type (restricted_market_types p)\<rparr>"

lemma refusal_restricting: "refusal (restricting p t) t \<noteq> None"
  by (simp add: refusal_def restricting_def)

lemma refusal_restricting_other: "t \<noteq> u \<Longrightarrow> refusal (restricting p t) u = refusal p u"
  by (simp add: refusal_def restricting_def)

text \<open>Whatever a profile refuses, the refusal is a reason that pauses the deployment.\<close>

lemma refusal_requires_operator_fix:
  "refusal p t = Some (r, m) \<Longrightarrow> requires_operator_fix r"
  by (auto simp: refusal_def requires_operator_fix_def split: if_splits)

definition opt_str :: "string option \<Rightarrow> json" where
  "opt_str s = (case s of None \<Rightarrow> JNull | Some t \<Rightarrow> JStr t)"

definition api_key_info_to_json :: "api_key_info \<Rightarrow> json" where
  "api_key_info_to_json i =
     JObj [(''ips'', JArr (map JStr (ips i))), (''kyc_region'', opt_str (kyc_region i)),
           (''read_only'', case read_only i of None \<Rightarrow> JNull | Some b \<Rightarrow> JBool b),
           (''expires_at'', opt_str (expires_at i))]"

text \<open>
  Reading back. The constructor does not check the types of what it is given; the model reads
  a field of another shape than the writer's as absent.
\<close>

definition jstr_opt :: "json \<Rightarrow> string option" where
  "jstr_opt j = (case j of JStr t \<Rightarrow> Some t | _ \<Rightarrow> None)"

definition jstr_list :: "json \<Rightarrow> string list" where
  "jstr_list j = (case j of JArr xs \<Rightarrow> List.map_filter jstr_opt xs | _ \<Rightarrow> [])"

definition api_key_info_from_json :: "(string \<times> json) list \<Rightarrow> api_key_info" where
  "api_key_info_from_json d =
     \<lparr>ips = jstr_list (jget ''ips'' d), kyc_region = jstr_opt (jget ''kyc_region'' d),
      read_only = (case jget ''read_only'' d of JBool b \<Rightarrow> Some b | _ \<Rightarrow> None),
      expires_at = jstr_opt (jget ''expires_at'' d)\<rparr>"

definition key_profile_to_json :: "key_profile \<Rightarrow> (string \<times> json) list" where
  "key_profile_to_json p =
     [(''route'', JStr (route p)),
      (''info'', case info p of None \<Rightarrow> JNull | Some i \<Rightarrow> api_key_info_to_json i),
      (''restricted_market_types'',
         JArr (map JStr (sorted_list_of_set (restricted_market_types p))))]"

definition key_profile_from_json :: "(string \<times> json) list \<Rightarrow> py_exn + key_profile" where
  "key_profile_from_json d =
     (case jget ''route'' d of
        JStr r \<Rightarrow>
          Inr \<lparr>route = r,
               info = (case jget ''info'' d of
                         JObj i \<Rightarrow> if i = [] then None else Some (api_key_info_from_json i)
                       | _ \<Rightarrow> None),
               restricted_market_types = set (jstr_list (jget ''restricted_market_types'' d))\<rparr>
      | _ \<Rightarrow> Inl (KeyError ''route''))"

lemma jstr_list_map_JStr [simp]: "jstr_list (JArr (map JStr xs)) = xs"
  by (induction xs) (auto simp: jstr_list_def jstr_opt_def List.map_filter_simps)

lemma jstr_opt_opt_str [simp]: "jstr_opt (opt_str s) = s"
  by (simp add: jstr_opt_def opt_str_def split: option.split)

lemma api_key_info_json_roundtrip:
  "\<exists>d. api_key_info_to_json i = JObj d \<and> d \<noteq> [] \<and> api_key_info_from_json d = i"
  by (cases i) (auto simp: api_key_info_to_json_def api_key_info_from_json_def split: option.splits)

lemma key_profile_json_roundtrip:
  assumes "finite (restricted_market_types p)"
  shows "key_profile_from_json (key_profile_to_json p) = Inr p"
proof (cases "info p")
  case None
  with assms show ?thesis
    by (cases p) (simp add: key_profile_to_json_def key_profile_from_json_def)
next
  case (Some i)
  with assms api_key_info_json_roundtrip [of i] show ?thesis
    by (cases p) (auto simp: key_profile_to_json_def key_profile_from_json_def)
qed

section \<open>Properties\<close>

text \<open>A key profile survives the encrypted store: reading back what \<open>KeyProfile.to_json\<close>
  wrote gives the same route, key information and restricted market types.\<close>

theorem key_profile_roundtrip:
  assumes "finite (restricted_market_types p)"
  shows "key_profile_from_json (key_profile_to_json p) = Inr p"
  by (rule key_profile_json_roundtrip [OF assms])

theorem key_profile_roundtrip_witness:
  "key_profile_from_json (key_profile_to_json
     \<lparr>route = ''direct'', info = Some \<lparr>ips = [''1.2.3.4''], kyc_region = Some ''HKG'',
        read_only = Some False, expires_at = None\<rparr>, restricted_market_types = {''swap''}\<rparr>)
   = Inr \<lparr>route = ''direct'', info = Some \<lparr>ips = [''1.2.3.4''], kyc_region = Some ''HKG'',
        read_only = Some False, expires_at = None\<rparr>, restricted_market_types = {''swap''}\<rparr>"
  by (rule key_profile_roundtrip) simp

text \<open>What a key profile refuses: a read-only key refuses every market type, a restricted
  market type is refused, a key that learned a restriction keeps refusing that type and no
  other, and every refusal carries a reason that pauses the deployment on its first attempt.\<close>

theorem refusal_sound:
  "(info p = Some i \<and> read_only i = Some True \<longrightarrow> (\<exists>m. refusal p t = Some (KEY_READ_ONLY, m)))
   \<and> refusal (restricting p t) t \<noteq> None
   \<and> (t \<noteq> u \<longrightarrow> refusal (restricting p t) u = refusal p u)
   \<and> (\<forall>r m. refusal p t = Some (r, m) \<longrightarrow> requires_operator_fix r)"
  using refusal_restricting refusal_restricting_other refusal_requires_operator_fix
  by (auto simp: refusal_def)

theorem refusal_sound_witness:
  "refusal (restricting \<lparr>route = ''direct'', info = None, restricted_market_types = {}\<rparr> ''swap'') ''spot''
   = None"
  using refusal_sound [of "\<lparr>route = ''direct'', info = None, restricted_market_types = {}\<rparr>" _ "''swap''" "''spot''"]
  by (simp add: refusal_def)

end
