(* ===== verification/OrderPolicy.thy ===== *)
theory OrderPolicy
  imports Orders
begin

text \<open>
  \<^verbatim>\<open>quant/trade/order_policy.py\<close>: what to place for a signal and a position, and how
  often to try. The broker is a \<open>trade_adapter\<close>: the three calls of
  \<^verbatim>\<open>TradeAdapter\<close> the executor makes, each acting on a world \<open>'w\<close> (the venue) and
  returning a value or raising. \<open>time.sleep\<close> is left out: whatever the venue does meanwhile
  is part of the next call's effect on the world.
\<close>

section \<open>The decision\<close>

definition flat_eps :: rat where
  "flat_eps = 1 / 1000000000"

text \<open>The float literal \<open>1e-9\<close> is the double nearest to it; only comparisons use it.\<close>

definition flat_position :: "flt \<Rightarrow> flt" where
  "flat_position p = (if flt_le (flt_abs p) (fl flat_eps) then Fin 0 else p)"

definition intended_action :: "flt \<Rightarrow> flt \<Rightarrow> py_exn + intended" where
  "intended_action signal position =
     bindR (py_round_int signal) (\<lambda>sig.
       let p = flat_position position
       in Inr (if 0 < sig then
                 (if flt_lt p (Fin 0) then CLOSE_SHORT
                  else if flt_eq p (Fin 0) then BUY else HOLD)
               else if sig = 0 then
                 (if flt_lt (Fin 0) p then SELL
                  else if flt_lt p (Fin 0) then CLOSE_SHORT else HOLD)
               else
                 (if flt_lt (Fin 0) p then SELL
                  else if flt_eq p (Fin 0) then OPEN_SHORT else HOLD)))"

definition market_order :: "string \<Rightarrow> flt \<Rightarrow> order_side \<Rightarrow> order_request" where
  "market_order symb qty side =
     \<lparr>req_symbol = symb, req_qty = qty, req_side = side, req_type = MARKET, req_limit_price = None\<rparr>"

definition order_for :: "string \<Rightarrow> intended \<Rightarrow> flt \<Rightarrow> flt \<Rightarrow> order_request option" where
  "order_for symb action qty position =
     (let due = (\<lambda>r. if flt_lt (Fin 0) (req_qty r) then Some r else None)
      in case action of
           HOLD \<Rightarrow> None
         | BUY \<Rightarrow> due (market_order symb qty Side_BUY)
         | OPEN_SHORT \<Rightarrow> due (market_order symb qty Side_SELL)
         | SELL \<Rightarrow> due (market_order symb (flt_abs position) Side_SELL)
         | CLOSE_SHORT \<Rightarrow> due (market_order symb (flt_abs position) Side_BUY))"

lemma market_order_simps [simp]:
  "req_symbol (market_order symb qty side) = symb"
  "req_qty (market_order symb qty side) = qty"
  "req_side (market_order symb qty side) = side"
  "req_type (market_order symb qty side) = MARKET"
  by (simp_all add: market_order_def)

lemma order_for_market: "order_for symb a q p = Some r \<Longrightarrow> req_type r = MARKET \<and> req_symbol r = symb"
  by (auto simp: order_for_def Let_def split: intended.splits if_splits)

lemma order_for_side: "order_for symb a q p = Some r \<Longrightarrow> order_side a = Some (req_side r)"
  by (auto simp: order_for_def order_side_def Let_def split: intended.splits if_splits)

lemma order_for_positive: "order_for symb a q p = Some r \<Longrightarrow> flt_lt (Fin 0) (req_qty r)"
  by (auto simp: order_for_def Let_def split: intended.splits if_splits)

text \<open>Finite positions: the three regions the flat threshold cuts the line into.\<close>

definition eps_double :: rat where
  "eps_double = 4835703278458517 / 4835703278458516698824704"

lemma fl_flat_eps: "fl flat_eps = Fin eps_double"
  unfolding eps_double_def by code_simp

lemma eps_double_pos: "0 < eps_double"
  by (simp add: eps_double_def)

lemma flat_position_Fin:
  "flat_position (Fin q) = (if \<bar>q\<bar> \<le> eps_double then Fin 0 else Fin q)"
  by (auto simp: flat_position_def fl_flat_eps flt_le_def flt_eq_def)

lemma intended_action_Fin:
  "intended_action (Fin s) (Fin q) =
     (let sig = round_half_even s
      in Inr (if 0 < sig then
                (if q < - eps_double then CLOSE_SHORT else if q \<le> eps_double then BUY else HOLD)
              else if sig = 0 then
                (if eps_double < q then SELL else if q < - eps_double then CLOSE_SHORT else HOLD)
              else
                (if eps_double < q then SELL else if q < - eps_double then HOLD else OPEN_SHORT)))"
  using eps_double_pos
  by (auto simp: intended_action_def flat_position_Fin Let_def flt_eq_def)

text \<open>A position that cannot be read as a number holds, whatever the signal.\<close>

lemma intended_action_NaN_position: "intended_action (Fin s) NaN = Inr HOLD"
  by (simp add: intended_action_def flat_position_def flt_le_def flt_eq_def Let_def)

lemma intended_action_raises_iff: "(\<exists>e. intended_action s p = Inl e) \<longleftrightarrow> \<not> is_finite s"
  by (cases s) (auto simp: intended_action_def is_finite_def Let_def)

section \<open>Attempts and outcomes\<close>

record apply_attempt =
  att_action :: intended
  att_position :: flt
  att_result :: "order_result option"

definition buy_sell_cd :: "apply_attempt \<Rightarrow> string" where
  "buy_sell_cd a =
     (if att_action a = HOLD then ''HOLD''
      else case order_side (att_action a) of
             Some side \<Rightarrow> side_value side
           | None \<Rightarrow> action_value (att_action a))"

definition is_success_ind :: "apply_attempt \<Rightarrow> string" where
  "is_success_ind a =
     (case att_result a of None \<Rightarrow> ''Y'' | Some r \<Rightarrow> (if success r then ''Y'' else ''N''))"

definition att_vendor_order_id :: "apply_attempt \<Rightarrow> string option" where
  "att_vendor_order_id a = (case att_result a of None \<Rightarrow> None | Some r \<Rightarrow> vendor_order_id r)"

definition quantity :: "apply_attempt \<Rightarrow> flt \<Rightarrow> flt option" where
  "quantity a default_qty =
     (case att_result a of
        None \<Rightarrow> None
      | Some r \<Rightarrow>
          (if filled_qty r \<noteq> None then filled_qty r
           else if requested_qty r \<noteq> None then requested_qty r
           else Some default_qty))"

record retry_result =
  ret_action :: intended
  ret_position :: flt
  ret_result :: "order_result option"
  attempts :: "apply_attempt list"
  ret_max_attempts :: int
  permanent_failure :: bool

definition no_order_message :: "retry_result \<Rightarrow> string" where
  "no_order_message r =
     (if ret_action r = HOLD then ''no order needed (HOLD)''
      else ''no order needed (qty resolved to 0)'')"

definition vendor_order_ids :: "retry_result \<Rightarrow> string list" where
  "vendor_order_ids r =
     List.map_filter
       (\<lambda>a. if truthy (att_vendor_order_id a) then att_vendor_order_id a else None)
       (attempts r)"

section \<open>Retry policy\<close>

record retry_policy =
  max_attempts :: int
  backoff_s :: flt

definition transient_markers :: "string list" where
  "transient_markers = [''unreachable'', ''rate'', ''timeout'']"

definition is_unconfirmed :: "order_result \<Rightarrow> bool" where
  "is_unconfirmed r =
     (let msg = py_lower (message r)
      in contains ''fill unconfirmed'' msg \<or> contains ''requires manual reconciliation'' msg)"

definition is_retryable :: "order_result \<Rightarrow> bool" where
  "is_retryable r =
     (if success r then False
      else if reason r \<noteq> None then False
      else if is_unconfirmed r then True
      else if truthy (vendor_order_id r) then True
      else list_ex (\<lambda>marker. contains marker (py_lower (message r))) transient_markers)"

lemma is_retryable_success: "success r \<Longrightarrow> \<not> is_retryable r"
  by (simp add: is_retryable_def)

lemma is_retryable_typed: "reason r = Some x \<Longrightarrow> \<not> is_retryable r"
  by (simp add: is_retryable_def)

section \<open>Executor\<close>

record 'w trade_adapter =
  get_position_qty :: "string \<Rightarrow> ('w, trade_exn, flt) call"
  place_order :: "order_request \<Rightarrow> ('w, trade_exn, order_result option) call"
  cancel_order :: "string \<Rightarrow> string \<Rightarrow> ('w, trade_exn, order_result) call"

definition outcome_of ::
  "retry_policy \<Rightarrow> intended \<Rightarrow> flt \<Rightarrow> order_result option \<Rightarrow> apply_attempt list \<Rightarrow> retry_result" where
  "outcome_of pol action position res atts =
     \<lparr>ret_action = action, ret_position = position, ret_result = res, attempts = atts,
      ret_max_attempts = max_attempts pol,
      permanent_failure =
        (case res of None \<Rightarrow> False
         | Some r \<Rightarrow> \<not> success r \<and> length atts = 1 \<and> \<not> is_retryable r)\<rparr>"

definition mk_attempt :: "intended \<Rightarrow> flt \<Rightarrow> order_result option \<Rightarrow> apply_attempt" where
  "mk_attempt a p r = \<lparr>att_action = a, att_position = p, att_result = r\<rparr>"

text \<open>
  The body of the \<open>for\<close> loop. \<open>Inl\<close> is the outcome the loop returns with; \<open>Inr\<close> carries the
  attempts into the next pass.
\<close>

definition attempt_once ::
  "retry_policy \<Rightarrow> 'w trade_adapter \<Rightarrow> string \<Rightarrow> flt \<Rightarrow> flt \<Rightarrow> int \<Rightarrow> apply_attempt list
   \<Rightarrow> ('w, trade_exn, retry_result + apply_attempt list) call" where
  "attempt_once pol ad symb signal qty attempt_num atts =
     bindC (get_position_qty ad symb) (\<lambda>position.
       case intended_action signal position of
         Inl e \<Rightarrow> raiseC (PyExn e)
       | Inr action \<Rightarrow>
           (case order_for symb action qty position of
              None \<Rightarrow>
                returnC (Inl (outcome_of pol action position None
                               (atts @ [mk_attempt action position None])))
            | Some req \<Rightarrow>
                bindC (place_order ad req) (\<lambda>res.
                  let atts' = atts @ [mk_attempt action position res];
                      done = returnC (Inl (outcome_of pol action position res atts'));
                      next = (if max_attempts pol \<le> attempt_num then done
                              else returnC (Inr atts'))
                  in case res of
                       None \<Rightarrow> done
                     | Some r \<Rightarrow>
                         if success r then done
                         else if \<not> is_retryable r then done
                         else if is_unconfirmed r \<and> truthy (vendor_order_id r) then
                           bindC (cancel_order ad (the (vendor_order_id r)) symb) (\<lambda>c.
                             if \<not> success c then
                               (let failed = r\<lparr>reason := Some CANCEL_FAILED\<rparr>
                                in returnC (Inl (outcome_of pol action position (Some failed)
                                     (atts @ [mk_attempt action position (Some failed)]))))
                             else next)
                         else next)))"

text \<open>\<open>for attempt_num in range(1, max_attempts + 1)\<close>, from \<open>attempt_num\<close> with \<open>n\<close> left.\<close>

fun attempt_loop ::
  "retry_policy \<Rightarrow> 'w trade_adapter \<Rightarrow> string \<Rightarrow> flt \<Rightarrow> flt \<Rightarrow> nat \<Rightarrow> int \<Rightarrow> apply_attempt list
   \<Rightarrow> ('w, trade_exn, retry_result) call" where
  "attempt_loop pol ad symb signal qty 0 k atts =
     raiseC (PyExn (AssertionError (''unreachable '' @ em_dash @ '' loop always returns'')))"
| "attempt_loop pol ad symb signal qty (Suc n) k atts =
     bindC (attempt_once pol ad symb signal qty k atts) (\<lambda>res.
       case res of
         Inl out \<Rightarrow> returnC out
       | Inr atts' \<Rightarrow> attempt_loop pol ad symb signal qty n (k + 1) atts')"

definition execute ::
  "retry_policy \<Rightarrow> 'w trade_adapter \<Rightarrow> string \<Rightarrow> flt \<Rightarrow> flt \<Rightarrow> ('w, trade_exn, retry_result) call" where
  "execute pol ad symb signal qty =
     attempt_loop pol ad symb signal qty (nat (max_attempts pol)) 1 []"

section \<open>What the executor does to the broker\<close>

text \<open>
  The adapter with a log of its calls and their results. The executor is polymorphic in the
  world, so running it on \<open>logged ad\<close> records exactly the calls it makes on \<open>ad\<close>.
\<close>

datatype broker_event =
    EvRead string "trade_exn + flt"
  | EvPlace order_request "trade_exn + order_result option"
  | EvCancel string string "trade_exn + order_result"

definition logged :: "'w trade_adapter \<Rightarrow> ('w \<times> broker_event list) trade_adapter" where
  "logged ad =
     \<lparr>get_position_qty = (\<lambda>symb (w, l). case get_position_qty ad symb w of
        (x, w') \<Rightarrow> (x, (w', l @ [EvRead symb x]))),
      place_order = (\<lambda>req (w, l). case place_order ad req w of
        (x, w') \<Rightarrow> (x, (w', l @ [EvPlace req x]))),
      cancel_order = (\<lambda>oid symb (w, l). case cancel_order ad oid symb w of
        (x, w') \<Rightarrow> (x, (w', l @ [EvCancel oid symb x])))\<rparr>"

lemma logged_simps [simp]:
  "get_position_qty (logged ad) symb (w, l) =
     (let (x, w') = get_position_qty ad symb w in (x, (w', l @ [EvRead symb x])))"
  "place_order (logged ad) req (w, l) =
     (let (x, w') = place_order ad req w in (x, (w', l @ [EvPlace req x])))"
  "cancel_order (logged ad) oid symb (w, l) =
     (let (x, w') = cancel_order ad oid symb w in (x, (w', l @ [EvCancel oid symb x])))"
  by (simp_all add: logged_def Let_def)

text \<open>
  The protocol a log has to follow. \<open>GOpen\<close>: an order may be placed. \<open>GCancel i\<close>: order \<open>i\<close> is
  of unknown state and has to be cancelled first. \<open>GDone\<close>: nothing more may be placed.
\<close>

datatype gate = GOpen | GCancel string | GDone

definition gate_place :: "trade_exn + order_result option \<Rightarrow> gate" where
  "gate_place res =
     (case res of
        Inr (Some r) \<Rightarrow>
          (if success r \<or> \<not> is_retryable r then GDone
           else if is_unconfirmed r \<and> truthy (vendor_order_id r)
             then GCancel (the (vendor_order_id r))
           else GOpen)
      | _ \<Rightarrow> GDone)"

definition gate_cancel :: "trade_exn + order_result \<Rightarrow> gate" where
  "gate_cancel res = (case res of Inr c \<Rightarrow> (if success c then GOpen else GDone) | Inl e \<Rightarrow> GDone)"

fun gate_step :: "gate \<Rightarrow> broker_event \<Rightarrow> gate option" where
  "gate_step g (EvRead symb x) = Some g"
| "gate_step g (EvPlace req res) = (if g = GOpen then Some (gate_place res) else None)"
| "gate_step g (EvCancel oid symb res) = (if g = GCancel oid then Some (gate_cancel res) else None)"

fun gate_run :: "gate \<Rightarrow> broker_event list \<Rightarrow> gate option" where
  "gate_run g [] = Some g"
| "gate_run g (e # es) = Option.bind (gate_step g e) (\<lambda>g'. gate_run g' es)"

lemma gate_run_append:
  "gate_run g (xs @ ys) = Option.bind (gate_run g xs) (\<lambda>g'. gate_run g' ys)"
  by (induction xs arbitrary: g) (auto split: bind_splits)

definition is_place :: "broker_event \<Rightarrow> bool" where
  "is_place e = (case e of EvPlace req res \<Rightarrow> True | _ \<Rightarrow> False)"

definition placed :: "broker_event list \<Rightarrow> nat" where
  "placed es = length (filter is_place es)"

lemma placed_simps [simp]:
  "placed [] = 0"
  "placed (EvRead s x # es) = placed es"
  "placed (EvPlace r y # es) = Suc (placed es)"
  "placed (EvCancel i s z # es) = placed es"
  "placed (es @ es') = placed es + placed es'"
  by (simp_all add: placed_def is_place_def)

definition from_broker :: "'w trade_adapter \<Rightarrow> broker_event \<Rightarrow> bool" where
  "from_broker ad e =
     (\<forall>req res. e = EvPlace req res \<longrightarrow> (\<exists>w w'. place_order ad req w = (res, w')))"

text \<open>One pass of the loop appends a run of the protocol that ends open if the loop goes on.\<close>

definition pass_ok ::
  "'w trade_adapter \<Rightarrow> broker_event list \<Rightarrow> trade_exn + (retry_result + apply_attempt list) \<Rightarrow> bool" where
  "pass_ok ad es res \<longleftrightarrow>
     (\<exists>g. gate_run GOpen es = Some g \<and> ((\<exists>atts. res = Inr (Inr atts)) \<longrightarrow> g = GOpen))
     \<and> placed es \<le> 1 \<and> list_all (from_broker ad) es"

lemma attempt_once_log:
  "\<exists>res w' es. attempt_once pol (logged ad) symb s q k atts (w, l) = (res, (w', l @ es))
     \<and> pass_ok ad es res"
proof -
  obtain x w1 where read: "get_position_qty ad symb w = (x, w1)"
    by fastforce
  show ?thesis
  proof (cases x)
    case (Inl e)
    with read show ?thesis
      by (simp add: attempt_once_def bindC_def pass_ok_def from_broker_def)
  next
    case (Inr p)
    note read = read [unfolded Inr]
    show ?thesis
    proof (cases "\<exists>a req. intended_action s p = Inr a \<and> order_for symb a q p = Some req")
      case False
      with read show ?thesis
        by (auto simp: attempt_once_def bindC_def pass_ok_def from_broker_def
            split: sum.splits option.splits)
    next
      case True
      then obtain a req where act: "intended_action s p = Inr a" "order_for symb a q p = Some req"
        by blast
      obtain y w2 where place: "place_order ad req w1 = (y, w2)"
        by fastforce
      then have origin: "from_broker ad (EvPlace req y)"
        unfolding from_broker_def by blast
      show ?thesis
      proof (cases "\<exists>r. y = Inr (Some r) \<and> \<not> success r \<and> is_retryable r \<and> is_unconfirmed r
                       \<and> truthy (vendor_order_id r)")
        case False
        with read act place origin show ?thesis
          by (auto simp: attempt_once_def bindC_def pass_ok_def from_broker_def gate_place_def Let_def
              split: sum.splits option.splits)
      next
        case True
        then obtain r where y: "y = Inr (Some r)" and r: "\<not> success r" "is_retryable r"
          "is_unconfirmed r" "truthy (vendor_order_id r)"
          by blast
        obtain z w3 where cancel: "cancel_order ad (the (vendor_order_id r)) symb w2 = (z, w3)"
          by fastforce
        have g: "gate_place y = GCancel (the (vendor_order_id r))"
          using y r by (simp add: gate_place_def)
        from read act place origin y r cancel g show ?thesis
          by (cases z) (auto simp: attempt_once_def bindC_def pass_ok_def from_broker_def
              gate_cancel_def Let_def)
      qed
    qed
  qed
qed

lemma attempt_loop_log:
  "\<exists>res w' es g. attempt_loop pol (logged ad) symb s q n k atts (w, l) = (res, (w', l @ es))
     \<and> gate_run GOpen es = Some g \<and> placed es \<le> n \<and> list_all (from_broker ad) es"
proof (induction n arbitrary: k atts w l)
  case 0
  show ?case by simp
next
  case (Suc n)
  obtain res w1 es where
    one: "attempt_once pol (logged ad) symb s q k atts (w, l) = (res, (w1, l @ es))"
    and ok: "pass_ok ad es res"
    using attempt_once_log [of pol ad symb s q k atts w l] by blast
  show ?case
  proof (cases "\<exists>atts'. res = Inr (Inr atts')")
    case False
    with one ok show ?thesis
      by (auto simp: bindC_def pass_ok_def split: sum.splits)
  next
    case True
    then obtain atts' where res: "res = Inr (Inr atts')" by blast
    obtain res' w2 es' g where
      rest: "attempt_loop pol (logged ad) symb s q n (k + 1) atts' (w1, l @ es)
             = (res', (w2, (l @ es) @ es'))"
      and g: "gate_run GOpen es' = Some g" "placed es' \<le> n" "list_all (from_broker ad) es'"
      using Suc.IH [of "k + 1" atts' w1 "l @ es"] by blast
    have run: "gate_run GOpen (es @ es') = Some g" "placed (es @ es') \<le> Suc n"
      "list_all (from_broker ad) (es @ es')"
      using ok g res by (auto simp: pass_ok_def gate_run_append)
    have "attempt_loop pol (logged ad) symb s q (Suc n) k atts (w, l) = (res', (w2, l @ (es @ es')))"
      using one rest res by (simp add: bindC_def)
    with run show ?thesis by blast
  qed
qed

text \<open>The log only grows: running on a longer log prepends it.\<close>

definition prepended :: "broker_event list \<Rightarrow> 'a \<times> ('w \<times> broker_event list) \<Rightarrow> 'a \<times> ('w \<times> broker_event list)" where
  "prepended l r = (fst r, (fst (snd r), l @ snd (snd r)))"

definition log_blind :: "('w \<times> broker_event list, 'e, 'a) call \<Rightarrow> bool" where
  "log_blind f \<longleftrightarrow> (\<forall>w l l'. f (w, l @ l') = prepended l (f (w, l')))"

lemma log_blind_bindC:
  assumes "log_blind m" and "\<And>x. log_blind (f x)"
  shows "log_blind (bindC m f)"
  using assms
  by (auto simp: log_blind_def prepended_def bindC_def split: prod.splits sum.splits)

lemma log_blind_pure: "log_blind (returnC x)" "log_blind (raiseC e)"
  by (simp_all add: log_blind_def prepended_def)

lemma log_blind_logged:
  "log_blind (get_position_qty (logged ad) symb)"
  "log_blind (place_order (logged ad) req)"
  "log_blind (cancel_order (logged ad) oid symb)"
  by (auto simp: log_blind_def prepended_def split: prod.splits)

lemma log_blind_attempt_once: "log_blind (attempt_once pol (logged ad) symb s q k atts)"
  unfolding attempt_once_def Let_def
  by (auto intro!: log_blind_bindC log_blind_pure log_blind_logged
      split: sum.splits option.splits)

lemma log_blind_attempt_loop: "log_blind (attempt_loop pol (logged ad) symb s q n k atts)"
proof (induction n arbitrary: k atts)
  case 0
  have "attempt_loop pol (logged ad) symb s q 0 k atts
      = raiseC (PyExn (AssertionError (''unreachable '' @ em_dash @ '' loop always returns'')))"
    by simp
  then show ?case by (simp only: log_blind_pure)
next
  case (Suc n)
  have "attempt_loop pol (logged ad) symb s q (Suc n) k atts =
      bindC (attempt_once pol (logged ad) symb s q k atts) (\<lambda>res.
        case res of Inl out \<Rightarrow> returnC out | Inr atts' \<Rightarrow> attempt_loop pol (logged ad) symb s q n (k + 1) atts')"
    by simp
  then show ?case
    by (auto intro!: log_blind_bindC log_blind_attempt_once log_blind_pure Suc.IH
        simp del: attempt_loop.simps split: sum.splits)
qed

lemma execute_log_blind: "execute pol (logged ad) symb s q (w, l) = prepended l (execute pol (logged ad) symb s q (w, []))"
  using log_blind_attempt_loop [of pol ad symb s q "nat (max_attempts pol)" 1 "[]"]
  unfolding execute_def log_blind_def by (metis append_Nil2)

definition broker_log :: "retry_policy \<Rightarrow> 'w trade_adapter \<Rightarrow> string \<Rightarrow> flt \<Rightarrow> flt \<Rightarrow> 'w \<Rightarrow> broker_event list" where
  "broker_log pol ad symb s q w = snd (snd (execute pol (logged ad) symb s q (w, [])))"

lemma broker_log_run:
  "\<exists>g. gate_run GOpen (broker_log pol ad symb s q w) = Some g
     \<and> placed (broker_log pol ad symb s q w) \<le> nat (max_attempts pol)
     \<and> list_all (from_broker ad) (broker_log pol ad symb s q w)"
  using attempt_loop_log [of pol ad symb s q "nat (max_attempts pol)" 1 "[]" w "[]"]
  by (auto simp: broker_log_def execute_def)

section \<open>Result of the executor\<close>

definition retried :: "apply_attempt \<Rightarrow> bool" where
  "retried a = (case att_result a of None \<Rightarrow> False | Some r \<Rightarrow> \<not> success r \<and> is_retryable r)"

definition well_formed_outcome :: "retry_result \<Rightarrow> bool" where
  "well_formed_outcome out \<longleftrightarrow>
     attempts out \<noteq> [] \<and> list_all retried (butlast (attempts out))
     \<and> last (attempts out) = mk_attempt (ret_action out) (ret_position out) (ret_result out)"

lemma well_formed_outcome_of:
  "list_all retried atts \<Longrightarrow>
   well_formed_outcome (outcome_of pol a p r (atts @ [mk_attempt a p r]))
   \<and> length (attempts (outcome_of pol a p r (atts @ [mk_attempt a p r]))) = Suc (length atts)"
  by (simp add: well_formed_outcome_def outcome_of_def)

definition pass_result :: "retry_policy \<Rightarrow> int \<Rightarrow> apply_attempt list
    \<Rightarrow> retry_result + apply_attempt list \<Rightarrow> bool" where
  "pass_result pol k atts res =
     (case res of
        Inl out \<Rightarrow> well_formed_outcome out \<and> length (attempts out) = Suc (length atts)
      | Inr atts' \<Rightarrow> list_all retried atts' \<and> length atts' = Suc (length atts) \<and> k < max_attempts pol)"

lemma attempt_once_result:
  assumes "attempt_once pol ad symb s q k atts w = (Inr res, w')" and atts: "list_all retried atts"
  shows "pass_result pol k atts res"
proof -
  note wf = well_formed_outcome_of [OF atts]
  obtain p w1 where read: "get_position_qty ad symb w = (Inr p, w1)"
    using assms(1) by (cases "get_position_qty ad symb w"; cases "fst (get_position_qty ad symb w)")
      (auto simp: attempt_once_def bindC_def)
  obtain a where act: "intended_action s p = Inr a"
    using assms(1) read by (cases "intended_action s p") (auto simp: attempt_once_def bindC_def)
  show ?thesis
  proof (cases "order_for symb a q p")
    case None
    with assms(1) read act wf show ?thesis
      by (auto simp: attempt_once_def bindC_def pass_result_def)
  next
    case (Some req)
    obtain y w2 where place: "place_order ad req w1 = (Inr y, w2)"
      using assms(1) read act Some
      by (cases "place_order ad req w1"; cases "fst (place_order ad req w1)")
        (auto simp: attempt_once_def bindC_def)
    show ?thesis
    proof (cases "\<exists>r. y = Some r \<and> \<not> success r \<and> is_retryable r")
      case False
      with assms(1) read act Some place wf show ?thesis
        by (cases y) (auto simp: attempt_once_def bindC_def pass_result_def Let_def split: if_splits)
    next
      case True
      then obtain r where r: "y = Some r" "\<not> success r" "is_retryable r" by blast
      then have ret: "retried (mk_attempt a p y)"
        by (simp add: retried_def mk_attempt_def)
      obtain z w3 where cancel: "cancel_order ad (the (vendor_order_id r)) symb w2 = (z, w3)"
        by fastforce
      show ?thesis
        using assms(1) read act Some place r ret wf atts cancel
        by (cases z) (auto simp: attempt_once_def bindC_def pass_result_def Let_def split: if_splits)
    qed
  qed
qed

lemma attempt_loop_result:
  assumes "attempt_loop pol ad symb s q n k atts w = (Inr out, w')" and "list_all retried atts"
  shows "well_formed_outcome out \<and> length atts < length (attempts out)
    \<and> length (attempts out) \<le> length atts + n"
  using assms
proof (induction n arbitrary: k atts w)
  case 0
  then show ?case by simp
next
  case (Suc n)
  then obtain res w1 where one: "attempt_once pol ad symb s q k atts w = (Inr res, w1)"
    and rest: "(case res of Inl out \<Rightarrow> returnC out
                | Inr atts' \<Rightarrow> attempt_loop pol ad symb s q n (k + 1) atts') w1 = (Inr out, w')"
    by (auto simp: bindC_Inr_iff)
  have r: "pass_result pol k atts res"
    by (rule attempt_once_result [OF one Suc.prems(2)])
  show ?case
  proof (cases res)
    case (Inl o')
    with rest r show ?thesis by (auto simp: pass_result_def)
  next
    case (Inr atts')
    with rest r Suc.IH [of "k + 1" atts' w1] show ?thesis by (auto simp: pass_result_def)
  qed
qed

text \<open>A broker that answers every call: no exception leaves the executor.\<close>

definition answers :: "'w trade_adapter \<Rightarrow> bool" where
  "answers ad \<longleftrightarrow>
     (\<forall>symb w. \<exists>p w'. get_position_qty ad symb w = (Inr p, w'))
     \<and> (\<forall>req w. \<exists>r w'. place_order ad req w = (Inr r, w'))
     \<and> (\<forall>oid symb w. \<exists>c w'. cancel_order ad oid symb w = (Inr c, w'))"

lemma attempt_once_returns:
  assumes "answers ad" and "is_finite s"
  shows "\<exists>res w'. attempt_once pol ad symb s q k atts w = (Inr res, w')
    \<and> ((\<exists>atts'. res = Inr atts') \<longrightarrow> k < max_attempts pol)"
proof -
  obtain p w1 where read: "get_position_qty ad symb w = (Inr p, w1)"
    using assms(1) unfolding answers_def by blast
  obtain a where act: "intended_action s p = Inr a"
    using intended_action_raises_iff [of s p] assms(2) by (cases "intended_action s p") auto
  show ?thesis
  proof (cases "order_for symb a q p")
    case None
    with read act show ?thesis by (simp add: attempt_once_def bindC_def)
  next
    case (Some req)
    obtain r w2 where place: "place_order ad req w1 = (Inr r, w2)"
      using assms(1) unfolding answers_def by blast
    have cancel: "\<exists>c w3. cancel_order ad oid symb w2 = (Inr c, w3)" for oid
      using assms(1) unfolding answers_def by blast
    from read act Some place cancel [of "the (vendor_order_id (the r))"] show ?thesis
      by (cases r) (auto simp: attempt_once_def bindC_def Let_def)
  qed
qed

lemma attempt_loop_returns:
  assumes "answers ad" and "is_finite s" and "0 < n" and "max_attempts pol = k + int n - 1"
  shows "\<exists>out w'. attempt_loop pol ad symb s q n k atts w = (Inr out, w')"
  using assms(3,4)
proof (induction n arbitrary: k atts w)
  case 0
  then show ?case by simp
next
  case (Suc n)
  obtain res w1 where one: "attempt_once pol ad symb s q k atts w = (Inr res, w1)"
    and more: "(\<exists>atts'. res = Inr atts') \<longrightarrow> k < max_attempts pol"
    using attempt_once_returns [OF assms(1,2)] by blast
  show ?case
  proof (cases res)
    case (Inl out)
    with one show ?thesis by (simp add: bindC_def)
  next
    case (Inr atts')
    then have "0 < n" and "max_attempts pol = (k + 1) + int n - 1"
      using more Suc.prems by auto
    then obtain out w2 where "attempt_loop pol ad symb s q n (k + 1) atts' w1 = (Inr out, w2)"
      using Suc.IH by blast
    with one Inr show ?thesis by (simp add: bindC_def)
  qed
qed

section \<open>A broker whose unresolved orders are recognisable\<close>

text \<open>
  The executor cancels an order only when the message says its fill is unconfirmed. What it
  needs of the broker is that every other order that got an id and did not succeed carries a
  typed reason, hence is over. Then no order is ever placed while one of unknown state rests.
\<close>

definition unresolved :: "order_result \<Rightarrow> string set" where
  "unresolved r =
     (if \<not> success r \<and> reason r = None \<and> truthy (vendor_order_id r)
      then {the (vendor_order_id r)} else {})"

fun no_stacking :: "string set \<Rightarrow> broker_event list \<Rightarrow> bool" where
  "no_stacking R [] = True"
| "no_stacking R (EvRead symb x # es) = no_stacking R es"
| "no_stacking R (EvPlace req res # es) =
     (R = {} \<and> no_stacking (case res of Inr (Some r) \<Rightarrow> unresolved r | _ \<Rightarrow> {}) es)"
| "no_stacking R (EvCancel oid symb res # es) =
     no_stacking (case res of Inr c \<Rightarrow> if success c then R - {oid} else R | Inl e \<Rightarrow> R) es"

locale acknowledging_broker =
  fixes ad :: "'w trade_adapter"
  assumes untyped_is_unconfirmed:
    "place_order ad req w = (Inr (Some r), w') \<Longrightarrow> \<not> success r \<Longrightarrow> reason r = None \<Longrightarrow>
     truthy (vendor_order_id r) \<Longrightarrow> is_unconfirmed r"
begin

lemma gate_place_open_resolved:
  assumes "from_broker ad (EvPlace req res)"
  shows "gate_place res = GOpen \<longrightarrow> (case res of Inr (Some r) \<Rightarrow> unresolved r | _ \<Rightarrow> {}) = {}"
    and "gate_place res = GCancel i \<longrightarrow> (case res of Inr (Some r) \<Rightarrow> unresolved r | _ \<Rightarrow> {}) \<subseteq> {i}"
  using assms
  by (auto simp: gate_place_def from_broker_def unresolved_def
      dest: untyped_is_unconfirmed split: sum.splits option.splits if_splits)

lemma gate_run_no_stacking:
  assumes "gate_run g es \<noteq> None" and "list_all (from_broker ad) es"
    and "g = GOpen \<longrightarrow> R = {}" and "\<And>i. g = GCancel i \<longrightarrow> R \<subseteq> {i}"
  shows "no_stacking R es"
  using assms
proof (induction es arbitrary: g R)
  case Nil
  show ?case by simp
next
  case (Cons e es)
  obtain g' where step: "gate_step g e = Some g'" and rest: "gate_run g' es \<noteq> None"
    using Cons.prems(1) by (cases "gate_step g e") auto
  have origin: "from_broker ad e" and all: "list_all (from_broker ad) es"
    using Cons.prems(2) by auto
  note IH = Cons.IH [OF rest all]
  show ?case
  proof (cases e)
    case (EvRead symb x)
    with step Cons.prems(3,4) show ?thesis by (auto intro: IH)
  next
    case (EvPlace req res)
    with step have "g = GOpen" and g': "g' = gate_place res"
      by (auto split: if_splits)
    moreover have "no_stacking (case res of Inr (Some r) \<Rightarrow> unresolved r | _ \<Rightarrow> {}) es"
      using gate_place_open_resolved [of req res] origin EvPlace g' by (intro IH) auto
    ultimately show ?thesis
      using EvPlace Cons.prems(3) by simp
  next
    case (EvCancel oid symb res)
    with step have "g = GCancel oid" and g': "g' = gate_cancel res"
      by (auto split: if_splits)
    with Cons.prems(4) have "R \<subseteq> {oid}" by blast
    then have "no_stacking (case res of Inr c \<Rightarrow> if success c then R - {oid} else R | Inl e \<Rightarrow> R) es"
      using g' by (intro IH) (auto simp: gate_cancel_def split: sum.splits if_splits)
    with EvCancel show ?thesis by simp
  qed
qed

lemma execute_never_stacks: "no_stacking {} (broker_log pol ad symb s q w)"
  using broker_log_run [of pol ad symb s q w] gate_run_no_stacking [of GOpen _ "{}"] by auto

end

section \<open>Repeated applies converge\<close>

text \<open>A venue that fills every market order in full, at the exact size.\<close>

definition fill_position :: "rat \<Rightarrow> order_request option \<Rightarrow> rat" where
  "fill_position p req =
     (case req of
        None \<Rightarrow> p
      | Some r \<Rightarrow>
          (case req_qty r of
             Fin q \<Rightarrow> (case req_side r of Side_BUY \<Rightarrow> p + q | Side_SELL \<Rightarrow> p - q)
           | _ \<Rightarrow> p))"

definition apply_once :: "string \<Rightarrow> rat \<Rightarrow> rat \<Rightarrow> rat \<Rightarrow> rat" where
  "apply_once symb s qty p =
     (case intended_action (Fin s) (Fin p) of
        Inr a \<Rightarrow> fill_position p (order_for symb a (Fin qty) (Fin p))
      | Inl e \<Rightarrow> p)"

lemma apply_once_cases:
  assumes "0 < qty"
  shows "apply_once symb s qty p =
    (let sig = round_half_even s
     in if 0 < sig then (if p < - eps_double then 0 else if p \<le> eps_double then p + qty else p)
        else if sig = 0 then (if eps_double < \<bar>p\<bar> then 0 else p)
        else (if eps_double < p then 0 else if p < - eps_double then p else p - qty))"
  using assms eps_double_pos
  by (auto simp: apply_once_def intended_action_Fin order_for_def fill_position_def Let_def)

definition on_target :: "rat \<Rightarrow> rat \<Rightarrow> bool" where
  "on_target s p =
     (let sig = round_half_even s
      in if 0 < sig then eps_double < p else if sig = 0 then \<bar>p\<bar> \<le> eps_double else p < - eps_double)"

lemma on_target_holds: "on_target s p \<Longrightarrow> intended_action (Fin s) (Fin p) = Inr HOLD"
  using eps_double_pos by (auto simp: on_target_def intended_action_Fin Let_def split: if_splits)

lemma apply_twice_on_target:
  assumes "2 * eps_double < qty"
  shows "on_target s (apply_once symb s qty (apply_once symb s qty p))"
  using assms eps_double_pos
  by (auto simp: apply_once_cases on_target_def Let_def split: if_splits)

section \<open>Properties\<close>

text \<open>C1: Whatever the broker answers, raises or does between two calls, the calls of one
  \<open>execute\<close> follow the order protocol: at most \<open>max_attempts\<close> orders, never an order after one
  that succeeded, was refused for good or raised, never an order while an unconfirmed one with
  an id has not been cancelled, and never a cancel of anything but that order.\<close>

theorem execute_protocol:
  "gate_run GOpen (broker_log pol ad symb signal qty w) \<noteq> None
   \<and> placed (broker_log pol ad symb signal qty w) \<le> nat (max_attempts pol)"
  using broker_log_run [of pol ad symb signal qty w] by auto

text \<open>C9: With a broker that answers, a finite signal and a positive attempt budget,
  \<open>execute\<close> returns: it makes between one and \<open>max_attempts\<close> attempts, every attempt but the
  last failed in a way a retry may clear, and the reported action, position and result are the
  last attempt's.\<close>

theorem execute_returns:
  assumes "answers ad" and "is_finite signal" and "1 \<le> max_attempts pol"
  shows "\<exists>out w'. execute pol ad symb signal qty w = (Inr out, w')
    \<and> well_formed_outcome out \<and> int (length (attempts out)) \<le> max_attempts pol"
proof -
  obtain out w' where run: "attempt_loop pol ad symb signal qty (nat (max_attempts pol)) 1 [] w = (Inr out, w')"
    using attempt_loop_returns [OF assms(1,2), of "nat (max_attempts pol)" pol 1 symb qty "[]" w] assms(3)
    by auto
  with attempt_loop_result [OF run] assms(3) show ?thesis
    unfolding execute_def by auto
qed

text \<open>A venue that times out on every order and acknowledges every cancel.\<close>

definition timing_out :: "unit trade_adapter" where
  "timing_out =
     \<lparr>get_position_qty = (\<lambda>symb w. (Inr (Fin 0), w)),
      place_order = (\<lambda>req w. (Inr (Some (mk_result False None ''venue timeout'')), w)),
      cancel_order = (\<lambda>oid symb w. (Inr (mk_result True (Some oid) ''cancelled''), w))\<rparr>"

theorem execute_returns_witness:
  "\<exists>out w'. execute \<lparr>max_attempts = 3, backoff_s = Fin 1\<rparr> timing_out ''BTC/USDT'' (Fin 1) (Fin 2) ()
      = (Inr out, w') \<and> int (length (attempts out)) \<le> 3"
proof -
  have "answers timing_out" and "is_finite (Fin 1)"
    by (auto simp: answers_def timing_out_def is_finite_def)
  from execute_returns [OF this, of "\<lparr>max_attempts = 3, backoff_s = Fin 1\<rparr>" "''BTC/USDT''" "Fin 2" "()"]
  show ?thesis by auto
qed

text \<open>C10: One order never crosses flat. The order for a finite signal and position either opens
  from a flat book with exactly the configured size, or trades exactly the held size back to
  flat, on the side opposite to what is held.\<close>

theorem order_never_crosses_flat:
  assumes "intended_action (Fin s) (Fin p) = Inr a" and "order_for symb a qty (Fin p) = Some r"
  shows "(flat_position (Fin p) = Fin 0 \<and> req_qty r = qty)
    \<or> (flat_position (Fin p) \<noteq> Fin 0 \<and> req_qty r = Fin \<bar>p\<bar>
        \<and> req_side r = (if 0 < p then Side_SELL else Side_BUY))"
  using assms eps_double_pos
  by (auto simp: intended_action_Fin order_for_def flat_position_Fin Let_def split: if_splits)

theorem order_never_crosses_flat_witness:
  "\<exists>r. order_for ''BTC/USDT'' SELL (Fin 5) (Fin 3) = Some r \<and> req_qty r = Fin 3 \<and> req_side r = Side_SELL"
proof -
  have a: "intended_action (Fin (- 1)) (Fin 3) = Inr SELL" by code_simp
  have o: "order_for ''BTC/USDT'' SELL (Fin 5) (Fin 3)
      = Some (market_order ''BTC/USDT'' (Fin 3) Side_SELL)" by code_simp
  from order_never_crosses_flat [OF a o] show ?thesis
    by (simp add: flat_position_Fin eps_double_def o)
qed

lemma round_half_even_above: "0 < round_half_even s \<longleftrightarrow> 1 / 2 < s"
proof -
  have f: "of_int \<lfloor>s\<rfloor> \<le> s" "s < of_int \<lfloor>s\<rfloor> + 1" by linarith+
  consider "\<lfloor>s\<rfloor> < 0" | "\<lfloor>s\<rfloor> = 0" | "0 < \<lfloor>s\<rfloor>" by linarith
  then show ?thesis
  proof cases
    case 1
    then have "s < 0" by simp
    with 1 show ?thesis by (auto simp: round_half_even_def Let_def)
  next
    case 2
    then show ?thesis by (auto simp: round_half_even_def Let_def)
  next
    case 3
    then have "1 \<le> s" by linarith
    with 3 show ?thesis by (auto simp: round_half_even_def Let_def)
  qed
qed

lemma round_half_even_below: "round_half_even s < 0 \<longleftrightarrow> s < - (1 / 2)"
proof -
  have f: "of_int \<lfloor>s\<rfloor> \<le> s" "s < of_int \<lfloor>s\<rfloor> + 1" by linarith+
  consider "\<lfloor>s\<rfloor> < -1" | "\<lfloor>s\<rfloor> = -1" | "0 \<le> \<lfloor>s\<rfloor>" by linarith
  then show ?thesis
  proof cases
    case 1
    then have "s < - 1" by linarith
    with 1 show ?thesis by (auto simp: round_half_even_def Let_def)
  next
    case 2
    then show ?thesis using f by (auto simp: round_half_even_def Let_def)
  next
    case 3
    then have s: "0 \<le> s" by linarith
    with round_half_even_bounds [of s] have "of_int (- 1) < (of_int (round_half_even s) :: rat)" by simp
    then have "- 1 < round_half_even s" by (simp only: of_int_less_iff)
    with s show ?thesis by simp
  qed
qed

lemmas round_half_even_sign = round_half_even_above round_half_even_below

lemma on_target_side:
  assumes "on_target s p"
  shows "(1 / 2 < s \<longrightarrow> eps_double < p) \<and> (s < - (1 / 2) \<longrightarrow> p < - eps_double)
    \<and> (- (1 / 2) \<le> s \<and> s \<le> 1 / 2 \<longrightarrow> \<bar>p\<bar> \<le> eps_double)"
  using assms round_half_even_sign [of s] by (auto simp: on_target_def Let_def split: if_splits)

text \<open>C8: Applying the same signal converges. With a size of more than twice the flat threshold
  and a venue that fills in full, two applies take any position to the side of the signal: above
  the threshold when the signal rounds to a long, below its negative when it rounds to a short,
  within it when it rounds to zero. There the decision is HOLD, and every further apply leaves
  the position as it is.\<close>

theorem apply_converges:
  assumes "2 * eps_double < qty"
  shows "let p' = apply_once symb s qty (apply_once symb s qty p)
    in (1 / 2 < s \<longrightarrow> eps_double < p')
     \<and> (s < - (1 / 2) \<longrightarrow> p' < - eps_double)
     \<and> (- (1 / 2) \<le> s \<and> s \<le> 1 / 2 \<longrightarrow> \<bar>p'\<bar> \<le> eps_double)
     \<and> intended_action (Fin s) (Fin p') = Inr HOLD
     \<and> apply_once symb s qty p' = p'"
proof -
  let ?p = "apply_once symb s qty (apply_once symb s qty p)"
  have t: "on_target s ?p" by (rule apply_twice_on_target [OF assms])
  have h: "intended_action (Fin s) (Fin ?p) = Inr HOLD" by (rule on_target_holds [OF t])
  then have "apply_once symb s qty ?p = ?p"
    by (simp add: apply_once_def [of symb s qty ?p] order_for_def fill_position_def)
  with on_target_side [OF t] h show ?thesis by (simp add: Let_def)
qed

theorem apply_converges_witness:
  "0 < apply_once ''X'' 1 2 (apply_once ''X'' 1 2 (- 7))"
  using apply_converges [of 2 "''X''" 1 "- 7"] by (simp add: eps_double_def Let_def)

end
