(* ===== verification/TradeDb.thy ===== *)
theory TradeDb
  imports Orders
begin

text \<open>
  The \<open>TRADE\<close> tables behind \<^verbatim>\<open>quant/trade/db_repo.py\<close>: versioned deployments, the
  schedule cursor of each, and the three append-only diaries, with the stored procedures of
  \<^verbatim>\<open>db/liquidbase/trade/procedures\<close> as functions on them and the repository methods as
  fallible calls.

  A table is the list of its rows, newest first; a version window that is still open
  (\<open>TRANSACT_TO_TS = 9999-12-31\<close>) is a flag. A procedure runs in one transaction: a call either
  takes effect or, when the database fails, changes nothing and raises. The failures are an
  input: \<open>faults\<close> says, call by call, whether the next one fails and with what text. A UUID is
  a number. \<open>LAST_RUN_AT\<close>, \<open>NEXT_DUE_AT\<close>, \<open>STRATEGY_NM\<close> and the logging columns, which no
  modelled decision reads, are left out.
\<close>

type_synonym uuid = nat

datatype ind = Y | N

datatype deployment_status = CREATED | ACTIVE | PAUSED | STOPPED

datatype sched_status = PENDING | SUCCESS | FAILED

record deployment =
  deployment_id :: uuid
  deployment_vid :: int
  app_user_id :: uuid
  strategy_id :: uuid
  strategy_vid :: int
  api_credential_id :: int
  app_id :: int
  internal_cusip :: string
  qty :: rat
  is_paper_ind :: ind
  is_enabled_ind :: ind
  deployment_status :: deployment_status
  schedule_tm_interval_id :: "int option"
  user_id :: string
  is_open :: bool

record sched_row =
  deployment_schedule_id :: uuid
  deployment_schedule_vid :: int
  sched_deployment_id :: uuid
  sched_deployment_vid :: int
  status :: sched_status
  row_scheduled_ts :: int
  is_current :: bool

record intent =
  int_deployment_id :: uuid
  int_deployment_vid :: int
  int_tm_interval_id :: int
  bar_timestamp :: int
  int_bar_source :: string
  signal_value :: flt
  target_qty :: flt
  int_transact_at :: int

record execution_event =
  ev_deployment_id :: uuid
  ev_deployment_vid :: int
  ev_buy_sell_cd :: string
  ev_is_success_ind :: string
  ev_signal_value :: flt
  ev_quantity :: "flt option"
  ev_vendor_order_id :: "string option"
  ev_transact_at :: int
  ev_position_qty :: flt

record transaction =
  tr_deployment_id :: uuid
  tr_app_id :: int
  tr_internal_cusip :: string
  tr_buy_sell_cd :: string
  tr_trans_ccy_cd :: string
  tr_vendor_symbol :: string
  tr_quantity :: "flt option"
  tr_price :: "flt option"
  tr_notional :: "flt option"
  tr_fee :: "flt option"
  tr_fee_ccy :: "string option"
  tr_vendor_order_id :: "string option"

record trade_db =
  deployments :: "deployment list"
  schedules :: "sched_row list"
  intents :: "intent list"
  execution_events :: "execution_event list"
  transactions :: "transaction list"
  db_now :: int
  faults :: "string option list"

section \<open>Stored procedures\<close>

definition sp_ins_schedule_status ::
  "uuid \<Rightarrow> uuid \<Rightarrow> int \<Rightarrow> sched_status \<Rightarrow> int \<Rightarrow> trade_db \<Rightarrow> trade_db" where
  "sp_ins_schedule_status sid did dvid st ts db =
     (let mine = (\<lambda>r. deployment_schedule_id r = sid);
          vid = max_vid (map deployment_schedule_vid (filter mine (schedules db))) + 1;
          closed = map (\<lambda>r. if mine r then r\<lparr>is_current := False\<rparr> else r) (schedules db);
          new = \<lparr>deployment_schedule_id = sid, deployment_schedule_vid = vid,
                 sched_deployment_id = did, sched_deployment_vid = dvid, status = st,
                 row_scheduled_ts = ts, is_current = True\<rparr>
      in db\<lparr>schedules := new # closed\<rparr>)"

definition current_schedule :: "uuid \<Rightarrow> trade_db \<Rightarrow> sched_row option" where
  "current_schedule did db =
     find (\<lambda>r. sched_deployment_id r = did \<and> is_current r) (schedules db)"

definition coalesce :: "'a option \<Rightarrow> 'a \<Rightarrow> 'a" where
  "coalesce x d = (case x of Some v \<Rightarrow> v | None \<Rightarrow> d)"

text \<open>
  \<open>SP_INS_DEPLOYMENT\<close>: close the open version, append the next one, then move the schedule
  cursor with it. \<open>d\<close> carries the argument values; its version and flag are the procedure's. The
  nested call that writes the cursor is taken to succeed: the procedure ignores the state it
  returns, so where that insert alone fails, the version stands with its cursor unwritten.
\<close>

definition sp_ins_deployment_proc :: "deployment \<Rightarrow> int option \<Rightarrow> trade_db \<Rightarrow> trade_db" where
  "sp_ins_deployment_proc d initial_ts db =
     (let did = deployment_id d;
          mine = (\<lambda>r. deployment_id r = did);
          vid = max_vid (map deployment_vid (filter mine (deployments db))) + 1;
          closed = map (\<lambda>r. if mine r then r\<lparr>is_open := False\<rparr> else r) (deployments db);
          db1 = db\<lparr>deployments := d\<lparr>deployment_vid := vid, is_open := True\<rparr> # closed\<rparr>;
          prior = current_schedule did db
      in if schedule_tm_interval_id d \<noteq> None then
           (if vid = 1 then
              sp_ins_schedule_status did did vid PENDING (coalesce initial_ts (db_now db)) db1
            else
              (let ts = (case initial_ts of Some t \<Rightarrow> t
                         | None \<Rightarrow> coalesce (map_option row_scheduled_ts prior) (db_now db));
                   st = (if deployment_status d = STOPPED \<or> is_enabled_ind d = N
                            \<or> deployment_status d = PAUSED then SUCCESS else PENDING)
               in sp_ins_schedule_status did did vid st ts db1))
         else if 1 < vid \<and> prior \<noteq> None then
           sp_ins_schedule_status did did vid SUCCESS (row_scheduled_ts (the prior)) db1
         else db1)"

definition open_deployment :: "uuid \<Rightarrow> trade_db \<Rightarrow> deployment option" where
  "open_deployment did db = find (\<lambda>d. deployment_id d = did \<and> is_open d) (deployments db)"

definition sp_get_deployment_rows :: "uuid \<Rightarrow> uuid option \<Rightarrow> trade_db \<Rightarrow> deployment list" where
  "sp_get_deployment_rows uid did db =
     filter (\<lambda>d. app_user_id d = uid \<and> is_open d \<and> (did = None \<or> did = Some (deployment_id d)))
       (deployments db)"

record due_row =
  due_dep :: deployment
  scheduled_ts :: int
  next_scheduled_ts :: int

text \<open>\<open>periods\<close> is \<open>REFDATA.TM_INTERVAL\<close>: an interval's \<open>PERIOD_LENGTH\<close> in microseconds.\<close>

definition is_due :: "int \<Rightarrow> deployment \<Rightarrow> sched_row \<Rightarrow> bool" where
  "is_due now d ss \<longleftrightarrow>
     is_enabled_ind d = Y \<and> deployment_status d \<notin> {PAUSED, STOPPED} \<and> is_open d
     \<and> status ss = PENDING \<and> row_scheduled_ts ss \<le> now"

definition due_rows_of :: "int \<Rightarrow> sched_row list \<Rightarrow> int \<Rightarrow> deployment \<Rightarrow> due_row list" where
  "due_rows_of now sss period d =
     map (\<lambda>ss. \<lparr>due_dep = d, scheduled_ts = row_scheduled_ts ss,
                next_scheduled_ts = row_scheduled_ts ss + period\<rparr>)
       (filter (\<lambda>ss. sched_deployment_id ss = deployment_id d \<and> is_current ss \<and> is_due now d ss) sss)"

definition sp_get_missed_due :: "(int \<Rightarrow> int option) \<Rightarrow> int \<Rightarrow> trade_db \<Rightarrow> due_row list" where
  "sp_get_missed_due periods iv db =
     (case periods iv of
        None \<Rightarrow> []
      | Some period \<Rightarrow>
          sort_key scheduled_ts
            (concat (map (due_rows_of (db_now db) (schedules db) period)
              (filter (\<lambda>d. schedule_tm_interval_id d = Some iv) (deployments db)))))"

section \<open>Repository calls\<close>

text \<open>A call on the pair of the tables and the rest of the world.\<close>

type_synonym ('v, 'a) db_call = "(trade_db \<times> 'v, trade_exn, 'a) call"

definition db_error :: "string \<Rightarrow> trade_exn" where
  "db_error m = PyExn (RuntimeError m)"

definition on_db :: "(trade_db \<Rightarrow> trade_exn + 'a \<times> trade_db) \<Rightarrow> ('v, 'a) db_call" where
  "on_db f = (\<lambda>(db, v).
     case faults db of
       Some m # fs \<Rightarrow> (Inl (db_error m), (db\<lparr>faults := fs\<rparr>, v))
     | _ \<Rightarrow>
         (let db' = db\<lparr>faults := tl (faults db)\<rparr>
          in case f db' of Inl e \<Rightarrow> (Inl e, (db', v)) | Inr (x, db'') \<Rightarrow> (Inr x, (db'', v))))"

text \<open>\<open>write_deployment\<close>: the procedure, then the read-back as the same user.\<close>

definition write_deployment :: "deployment \<Rightarrow> int option \<Rightarrow> ('v, deployment) db_call" where
  "write_deployment d initial_ts =
     bindC (on_db (\<lambda>db. Inr ((), sp_ins_deployment_proc d initial_ts db))) (\<lambda>_.
     bindC (on_db (\<lambda>db. Inr (sp_get_deployment_rows (app_user_id d) (Some (deployment_id d)) db, db)))
       (\<lambda>rows. case rows of
          [] \<Rightarrow> raiseC (db_error (''SP_INS_DEPLOYMENT succeeded but SP_GET returned no row: '' @ nat_str (deployment_id d)))
        | r # _ \<Rightarrow> returnC r))"

definition deployment_version :: "uuid \<Rightarrow> int \<Rightarrow> trade_db \<Rightarrow> deployment option" where
  "deployment_version did vid db =
     find (\<lambda>d. deployment_id d = did \<and> deployment_vid d = vid) (deployments db)"

text \<open>
  \<open>sp_ins_deployment_schedule_status\<close>: the version has to exist, then the procedure. The status is
  a value of the datatype, so its check against the reference data is left out.
\<close>

definition ins_schedule_status ::
  "uuid \<Rightarrow> uuid \<Rightarrow> int \<Rightarrow> sched_status \<Rightarrow> int option \<Rightarrow> ('v, unit) db_call" where
  "ins_schedule_status sid did dvid st ts =
     (if st = PENDING \<and> ts = None then
        raiseC (TradeValidationError (''scheduled_ts is required when status is PENDING '' @ em_dash
          @ '' it is the next due time'') 400)
      else
        bindC (on_db (\<lambda>db. Inr (deployment_version did dvid db, db))) (\<lambda>dep.
          if dep = None then raiseC (TradeValidationError ''deployment not found'' 404)
          else on_db (\<lambda>db. Inr ((), sp_ins_schedule_status sid did dvid st (the ts) db))))"

definition missed_due_rows :: "(int \<Rightarrow> int option) \<Rightarrow> int \<Rightarrow> ('v, due_row list) db_call" where
  "missed_due_rows periods iv = on_db (\<lambda>db. Inr (sp_get_missed_due periods iv db, db))"

section \<open>Facts about the tables\<close>

text \<open>The cursor of a deployment that can still fire: open, enabled, neither paused nor
  stopped, with a pending schedule row.\<close>

definition can_fire :: "deployment \<Rightarrow> bool" where
  "can_fire d \<longleftrightarrow> is_enabled_ind d = Y \<and> deployment_status d \<notin> {PAUSED, STOPPED}"

definition pending :: "trade_db \<Rightarrow> uuid \<Rightarrow> int option" where
  "pending db did =
     (case (open_deployment did db, current_schedule did db) of
        (Some d, Some ss) \<Rightarrow>
          (if can_fire d \<and> schedule_tm_interval_id d \<noteq> None \<and> status ss = PENDING
           then Some (row_scheduled_ts ss) else None)
      | _ \<Rightarrow> None)"

text \<open>
  The table invariant: at most one open version per deployment, at most one current schedule
  row per deployment, and a schedule id is its deployment's id.
\<close>

definition db_wf :: "trade_db \<Rightarrow> bool" where
  "db_wf db \<longleftrightarrow>
     (\<forall>did. length (filter (\<lambda>d. deployment_id d = did \<and> is_open d) (deployments db)) \<le> 1)
     \<and> (\<forall>did. length (filter (\<lambda>r. sched_deployment_id r = did \<and> is_current r) (schedules db)) \<le> 1)
     \<and> (\<forall>r \<in> set (schedules db). deployment_schedule_id r = sched_deployment_id r)"

definition set_cursor :: "uuid \<Rightarrow> int \<Rightarrow> sched_status \<Rightarrow> int \<Rightarrow> trade_db \<Rightarrow> sched_row" where
  "set_cursor did dvid st ts db = hd (schedules (sp_ins_schedule_status did did dvid st ts db))"

lemma set_cursor_simps [simp]:
  "sched_deployment_id (set_cursor did dvid st ts db) = did"
  "deployment_schedule_id (set_cursor did dvid st ts db) = did"
  "status (set_cursor did dvid st ts db) = st"
  "row_scheduled_ts (set_cursor did dvid st ts db) = ts"
  "is_current (set_cursor did dvid st ts db)"
  by (simp_all add: set_cursor_def sp_ins_schedule_status_def Let_def)

lemma sp_ins_schedule_status_schedules:
  "schedules (sp_ins_schedule_status did did dvid st ts db) =
     set_cursor did dvid st ts db
     # map (\<lambda>r. if deployment_schedule_id r = did then r\<lparr>is_current := False\<rparr> else r) (schedules db)"
  by (simp add: set_cursor_def sp_ins_schedule_status_def Let_def)

lemma sp_ins_schedule_status_frame [simp]:
  "deployments (sp_ins_schedule_status sid did dvid st ts db) = deployments db"
  "db_now (sp_ins_schedule_status sid did dvid st ts db) = db_now db"
  "faults (sp_ins_schedule_status sid did dvid st ts db) = faults db"
  "intents (sp_ins_schedule_status sid did dvid st ts db) = intents db"
  "execution_events (sp_ins_schedule_status sid did dvid st ts db) = execution_events db"
  "transactions (sp_ins_schedule_status sid did dvid st ts db) = transactions db"
  by (simp_all add: sp_ins_schedule_status_def Let_def)

lemma db_wf_ids:
  "db_wf db \<Longrightarrow> r \<in> set (schedules db) \<Longrightarrow> deployment_schedule_id r = sched_deployment_id r"
  by (simp add: db_wf_def)

lemma closed_current_rows:
  assumes "db_wf db"
  shows "filter (\<lambda>r. sched_deployment_id r = x \<and> is_current r)
      (map (\<lambda>r. if deployment_schedule_id r = did then r\<lparr>is_current := False\<rparr> else r) (schedules db))
    = (if x = did then [] else filter (\<lambda>r. sched_deployment_id r = x \<and> is_current r) (schedules db))"
proof -
  have same: "map (\<lambda>r. if deployment_schedule_id r = did then r\<lparr>is_current := False\<rparr> else r) (schedules db)
      = map (\<lambda>r. if sched_deployment_id r = did then r\<lparr>is_current := False\<rparr> else r) (schedules db)"
    by (rule map_cong [OF refl]) (simp add: db_wf_ids [OF assms])
  show ?thesis
  proof (cases "x = did")
    case True
    then show ?thesis
      unfolding same by (simp add: filter_none_closed)
  next
    case False
    then show ?thesis
      unfolding same by (simp only: if_False) (rule filter_other_closed, simp_all)
  qed
qed

lemma current_schedule_after:
  assumes "db_wf db"
  shows "current_schedule x (sp_ins_schedule_status did did dvid st ts db)
         = (if x = did then Some (set_cursor did dvid st ts db) else current_schedule x db)"
  using closed_current_rows [OF assms, of x did]
  by (simp add: current_schedule_def find_filter sp_ins_schedule_status_schedules)

lemma sp_ins_schedule_status_wf:
  assumes "db_wf db"
  shows "db_wf (sp_ins_schedule_status did did dvid st ts db)"
  using assms closed_current_rows [OF assms, of _ did]
  by (auto simp: db_wf_def sp_ins_schedule_status_schedules)

lemma open_deployment_after_schedule [simp]:
  "open_deployment x (sp_ins_schedule_status sid did dvid st ts db) = open_deployment x db"
  by (simp add: open_deployment_def)

lemma pending_after_advance:
  assumes "db_wf db"
  shows "pending (sp_ins_schedule_status did did dvid PENDING ts db) =
    (pending db)(did := (case open_deployment did db of
        Some d \<Rightarrow> if can_fire d \<and> schedule_tm_interval_id d \<noteq> None then Some ts else None
      | None \<Rightarrow> None))"
  using current_schedule_after [OF assms]
  by (auto simp: pending_def fun_eq_iff split: option.splits)

text \<open>\<open>SP_INS_DEPLOYMENT\<close> first replaces the open version, then touches the cursor.\<close>

definition new_version :: "deployment \<Rightarrow> trade_db \<Rightarrow> deployment" where
  "new_version d db =
     d\<lparr>deployment_vid :=
         max_vid (map deployment_vid (filter (\<lambda>r. deployment_id r = deployment_id d) (deployments db))) + 1,
       is_open := True\<rparr>"

definition with_version :: "deployment \<Rightarrow> trade_db \<Rightarrow> trade_db" where
  "with_version d db =
     db\<lparr>deployments := new_version d db
        # map (\<lambda>r. if deployment_id r = deployment_id d then r\<lparr>is_open := False\<rparr> else r) (deployments db)\<rparr>"

lemma new_version_simps [simp]:
  "deployment_id (new_version d db) = deployment_id d"
  "app_user_id (new_version d db) = app_user_id d"
  "schedule_tm_interval_id (new_version d db) = schedule_tm_interval_id d"
  "is_enabled_ind (new_version d db) = is_enabled_ind d"
  "deployment_status (new_version d db) = deployment_status d"
  "qty (new_version d db) = qty d"
  "is_open (new_version d db)"
  "can_fire (new_version d db) = can_fire d"
  by (simp_all add: new_version_def can_fire_def)

lemma with_version_frame [simp]:
  "schedules (with_version d db) = schedules db"
  "db_now (with_version d db) = db_now db"
  "faults (with_version d db) = faults db"
  "intents (with_version d db) = intents db"
  "execution_events (with_version d db) = execution_events db"
  "transactions (with_version d db) = transactions db"
  "current_schedule x (with_version d db) = current_schedule x db"
  by (simp_all add: with_version_def current_schedule_def)

lemma open_rows_with_version:
  "filter (\<lambda>r. deployment_id r = x \<and> is_open r) (deployments (with_version d db)) =
   (if x = deployment_id d then [new_version d db]
    else filter (\<lambda>r. deployment_id r = x \<and> is_open r) (deployments db))"
proof (cases "x = deployment_id d")
  case True
  then show ?thesis
    by (simp add: with_version_def filter_none_closed)
next
  case False
  then have "filter (\<lambda>r. deployment_id r = x \<and> is_open r)
      (map (\<lambda>r. if deployment_id r = deployment_id d then r\<lparr>is_open := False\<rparr> else r) (deployments db))
    = filter (\<lambda>r. deployment_id r = x \<and> is_open r) (deployments db)"
    by (intro filter_other_closed) simp_all
  with False show ?thesis by (simp add: with_version_def)
qed

lemma open_deployment_with_version [simp]:
  "open_deployment x (with_version d db) =
   (if x = deployment_id d then Some (new_version d db) else open_deployment x db)"
  using open_rows_with_version [of x d db] by (simp add: open_deployment_def find_filter)

lemma with_version_wf: "db_wf db \<Longrightarrow> db_wf (with_version d db)"
  by (simp add: db_wf_def open_rows_with_version)

definition proc_status :: "deployment \<Rightarrow> trade_db \<Rightarrow> sched_status" where
  "proc_status d db =
     (if deployment_vid (new_version d db) = 1 then PENDING
      else if deployment_status d = STOPPED \<or> is_enabled_ind d = N \<or> deployment_status d = PAUSED
        then SUCCESS else PENDING)"

definition proc_ts :: "deployment \<Rightarrow> int option \<Rightarrow> trade_db \<Rightarrow> int" where
  "proc_ts d initial_ts db =
     (if deployment_vid (new_version d db) = 1 then coalesce initial_ts (db_now db)
      else case initial_ts of Some t \<Rightarrow> t
        | None \<Rightarrow> coalesce (map_option row_scheduled_ts (current_schedule (deployment_id d) db)) (db_now db))"

lemma sp_ins_deployment_proc_alt:
  "sp_ins_deployment_proc d its db =
     (if schedule_tm_interval_id d \<noteq> None then
        sp_ins_schedule_status (deployment_id d) (deployment_id d) (deployment_vid (new_version d db))
          (proc_status d db) (proc_ts d its db) (with_version d db)
      else if 1 < deployment_vid (new_version d db) \<and> current_schedule (deployment_id d) db \<noteq> None then
        sp_ins_schedule_status (deployment_id d) (deployment_id d) (deployment_vid (new_version d db))
          SUCCESS (row_scheduled_ts (the (current_schedule (deployment_id d) db))) (with_version d db)
      else with_version d db)"
  by (auto simp: sp_ins_deployment_proc_def with_version_def new_version_def proc_status_def proc_ts_def Let_def)

lemma sp_ins_deployment_proc_wf: "db_wf db \<Longrightarrow> db_wf (sp_ins_deployment_proc d its db)"
  by (simp add: sp_ins_deployment_proc_alt with_version_wf sp_ins_schedule_status_wf)

lemma open_deployment_after_proc [simp]:
  "open_deployment x (sp_ins_deployment_proc d its db) =
   (if x = deployment_id d then Some (new_version d db) else open_deployment x db)"
  by (simp add: sp_ins_deployment_proc_alt)

lemma sp_ins_deployment_proc_frame [simp]:
  "db_now (sp_ins_deployment_proc d its db) = db_now db"
  "faults (sp_ins_deployment_proc d its db) = faults db"
  "intents (sp_ins_deployment_proc d its db) = intents db"
  "execution_events (sp_ins_deployment_proc d its db) = execution_events db"
  "transactions (sp_ins_deployment_proc d its db) = transactions db"
  by (simp_all add: sp_ins_deployment_proc_alt)

text \<open>The cursor a version leaves behind: pending exactly when the version can fire.\<close>

lemma can_fire_proc_status: "can_fire d \<Longrightarrow> proc_status d db = PENDING"
  by (auto simp: can_fire_def proc_status_def intro: ind.exhaust)

lemma pending_after_proc:
  assumes "db_wf db"
  shows "pending (sp_ins_deployment_proc d its db) =
    (pending db)(deployment_id d :=
       (if can_fire d \<and> schedule_tm_interval_id d \<noteq> None then Some (proc_ts d its db) else None))"
proof
  fix x
  note cur = current_schedule_after [OF with_version_wf [OF assms]]
  show "pending (sp_ins_deployment_proc d its db) x =
    ((pending db)(deployment_id d :=
       (if can_fire d \<and> schedule_tm_interval_id d \<noteq> None then Some (proc_ts d its db) else None))) x"
  proof (cases "x = deployment_id d")
    case True
    then show ?thesis
      by (auto simp: pending_def sp_ins_deployment_proc_alt cur can_fire_proc_status split: option.splits)
  next
    case False
    then show ?thesis
      by (cases "open_deployment x db") (simp_all add: pending_def sp_ins_deployment_proc_alt cur)
  qed
qed

text \<open>The due list is exactly the pending cursors that have come up.\<close>

lemma sp_get_missed_due_iff:
  assumes "db_wf db" and "periods iv = Some p"
  shows "r \<in> set (sp_get_missed_due periods iv db) \<longleftrightarrow>
    open_deployment (deployment_id (due_dep r)) db = Some (due_dep r)
    \<and> schedule_tm_interval_id (due_dep r) = Some iv
    \<and> pending db (deployment_id (due_dep r)) = Some (scheduled_ts r)
    \<and> scheduled_ts r \<le> db_now db \<and> next_scheduled_ts r = scheduled_ts r + p"
    (is "?L \<longleftrightarrow> ?R")
proof
  assume ?L
  then obtain ss where d: "due_dep r \<in> set (deployments db)" "schedule_tm_interval_id (due_dep r) = Some iv"
    and ss: "ss \<in> set (schedules db)" "sched_deployment_id ss = deployment_id (due_dep r)" "is_current ss"
      "is_due (db_now db) (due_dep r) ss"
    and r: "scheduled_ts r = row_scheduled_ts ss" "next_scheduled_ts r = row_scheduled_ts ss + p"
    using assms(2) by (auto simp: sp_get_missed_due_def due_rows_of_def)
  have "open_deployment (deployment_id (due_dep r)) db = Some (due_dep r)"
    unfolding open_deployment_def
    using assms(1) d ss by (intro filter_le1_find) (auto simp: db_wf_def is_due_def)
  moreover have "current_schedule (deployment_id (due_dep r)) db = Some ss"
    unfolding current_schedule_def
    using assms(1) ss by (intro filter_le1_find) (auto simp: db_wf_def)
  ultimately show ?R
    using d ss r by (simp add: pending_def is_due_def can_fire_def)
next
  assume R: ?R
  then obtain ss where ss: "current_schedule (deployment_id (due_dep r)) db = Some ss"
    "can_fire (due_dep r)" "status ss = PENDING" "row_scheduled_ts ss = scheduled_ts r"
    by (auto simp: pending_def split: option.splits if_splits)
  have mem: "ss \<in> set (schedules db)" "sched_deployment_id ss = deployment_id (due_dep r)" "is_current ss"
    "due_dep r \<in> set (deployments db)" "is_open (due_dep r)"
    using find_SomeD [OF ss(1) [unfolded current_schedule_def]]
      find_SomeD [OF conjunct1 [OF R, unfolded open_deployment_def]] by simp_all
  have eq: "r = \<lparr>due_dep = due_dep r, scheduled_ts = row_scheduled_ts ss,
                 next_scheduled_ts = row_scheduled_ts ss + p\<rparr>"
    using R ss by (cases r) simp
  have "\<lparr>due_dep = due_dep r, scheduled_ts = row_scheduled_ts ss, next_scheduled_ts = row_scheduled_ts ss + p\<rparr>
      \<in> set (sp_get_missed_due periods iv db)"
    using R ss(2-4) mem assms(2)
    by (auto simp: sp_get_missed_due_def due_rows_of_def is_due_def can_fire_def
        intro!: bexI [of _ "due_dep r"] image_eqI [of _ _ ss])
  then show ?L
    by (subst eq)
qed

lemma count_list_distinct: "(\<And>x. count_list xs x \<le> 1) \<Longrightarrow> distinct xs"
proof (induction xs)
  case (Cons y ys)
  have "count_list ys x \<le> 1" for x
    using Cons.prems [of x] by (simp split: if_splits)
  moreover have "count_list ys y = 0"
    using Cons.prems [of y] by simp
  ultimately show ?case
    using Cons.IH by (simp add: count_list_0_iff)
qed simp

lemma length_filter_conj_le: "length (filter (\<lambda>x. P x \<and> Q x \<and> R x) xs) \<le> length (filter (\<lambda>x. P x \<and> Q x) xs)"
  by (induction xs) auto

lemma length_filter_filter_le: "length (filter P (filter Q xs)) \<le> length (filter P xs)"
  by (induction xs) auto

text \<open>Each open deployment has one current row, so it is due at most once.\<close>

lemma sp_get_missed_due_distinct:
  assumes "db_wf db"
  shows "distinct (map (\<lambda>r. deployment_id (due_dep r)) (sp_get_missed_due periods iv db))"
proof (cases "periods iv")
  case None
  then show ?thesis by (simp add: sp_get_missed_due_def)
next
  case (Some p)
  let ?ids = "\<lambda>rows. map (\<lambda>r. deployment_id (due_dep r)) rows"
  let ?ds = "filter (\<lambda>d. schedule_tm_interval_id d = Some iv) (deployments db)"
  let ?rows = "due_rows_of (db_now db) (schedules db) p"
  have one: "count_list (?ids (?rows d)) x
      \<le> (if deployment_id d = x \<and> is_open d then 1 else 0)" for d x
  proof -
    have "length (filter (\<lambda>ss. sched_deployment_id ss = deployment_id d \<and> is_current ss
        \<and> is_due (db_now db) d ss) (schedules db))
      \<le> length (filter (\<lambda>ss. sched_deployment_id ss = deployment_id d \<and> is_current ss) (schedules db))"
      by (rule length_filter_conj_le)
    also have "\<dots> \<le> 1" using assms by (simp add: db_wf_def)
    finally have le: "length (?rows d) \<le> 1" by (simp add: due_rows_of_def)
    have "count_list (?ids (?rows d)) x \<le> length (?rows d)"
      using count_le_length [of "?ids (?rows d)" x] by simp
    moreover have "count_list (?ids (?rows d)) x = 0" if "\<not> (deployment_id d = x \<and> is_open d)"
      using that by (auto simp: count_list_0_iff due_rows_of_def is_due_def)
    ultimately show ?thesis using le by auto
  qed
  have "count_list (?ids (concat (map ?rows ds))) x
      \<le> length (filter (\<lambda>d. deployment_id d = x \<and> is_open d) ds)" for x ds
  proof (induction ds)
    case (Cons d ds)
    with one [of d x] show ?case by (auto split: if_splits)
  qed simp
  moreover have "length (filter (\<lambda>d. deployment_id d = x \<and> is_open d) ?ds) \<le> 1" for x
  proof -
    have "length (filter (\<lambda>d. deployment_id d = x \<and> is_open d) ?ds)
        \<le> length (filter (\<lambda>d. deployment_id d = x \<and> is_open d) (deployments db))"
      by (rule length_filter_filter_le)
    also have "\<dots> \<le> 1" using assms by (simp add: db_wf_def)
    finally show ?thesis .
  qed
  ultimately have "distinct (?ids (concat (map ?rows ?ds)))"
    by (intro count_list_distinct) (rule le_trans)
  with Some show ?thesis
    by (simp add: sp_get_missed_due_def distinct_map)
qed

section \<open>Fallible calls\<close>

lemma pending_faults [simp]: "pending (db\<lparr>faults := fs\<rparr>) = pending db"
  by (simp add: pending_def fun_eq_iff open_deployment_def current_schedule_def)

lemma db_wf_faults [simp]: "db_wf (db\<lparr>faults := fs\<rparr>) = db_wf db"
  by (simp add: db_wf_def)

lemma on_db_cases:
  assumes "on_db f (db, v) = (x, w')"
  obtains (fault) m fs where "faults db = Some m # fs" "x = Inl (db_error m)" "w' = (db\<lparr>faults := fs\<rparr>, v)"
  | (raised) e where "f (db\<lparr>faults := tl (faults db)\<rparr>) = Inl e" "x = Inl e"
      "w' = (db\<lparr>faults := tl (faults db)\<rparr>, v)"
  | (answered) y db'' where "f (db\<lparr>faults := tl (faults db)\<rparr>) = Inr (y, db'')" "x = Inr y" "w' = (db'', v)"
  using assms
  by (auto simp: on_db_def Let_def split: list.splits option.splits sum.splits prod.splits)

end
