(* ===== verification/Tick.thy ===== *)
theory Tick
  imports TradeDb
begin

text \<open>
  The deployment scheduler: \<^verbatim>\<open>quant/trade/scheduler/tick.py\<close> (one pass over one
  interval), \<^verbatim>\<open>sweep.py\<close> (one pass over every interval) and
  \<^verbatim>\<open>poller.py\<close> (the drain on boot).

  The runner sees the database through three calls, the record \<open>schedule_repo\<close>, and the apply
  cycle as one call; both act on a world \<open>'w\<close>. Sleeping and logging are left out. What the
  runner needs of the store is the locale \<open>schedule_store\<close>, stated on the abstract view
  "which cursor is pending for which deployment"; the stored procedures of \<open>TradeDb\<close> provide it.
\<close>

section \<open>Reports\<close>

record apply_report =
  rep_deployment_id :: uuid
  rep_deployment_vid :: int
  rep_action :: intended
  rep_vendor_symbol :: string
  rep_signal :: flt
  rep_position_qty :: flt
  rep_order_success :: "bool option"
  rep_vendor_order_id :: "string option"
  rep_filled_qty :: "flt option"
  rep_avg_price :: "flt option"
  rep_fee :: "flt option"
  rep_fee_ccy :: "string option"
  rep_message :: string
  rep_reject_reason :: "reject_reason option"
  rep_bar_source :: "string option"

record order_failure =
  fail_message :: string
  fail_reason :: "reject_reason option"

definition position_of :: "apply_report \<Rightarrow> flt option" where
  "position_of r = Some (rep_position_qty r)"

definition failed_order :: "apply_report \<Rightarrow> order_failure option" where
  "failed_order r =
     (if rep_order_success r \<noteq> Some False then None
      else Some \<lparr>fail_message = (if rep_message r = [] then ''order failed'' else rep_message r),
                 fail_reason = rep_reject_reason r\<rparr>)"

datatype tick_outcome = Tick_APPLIED | Tick_PAUSED | Tick_ABANDONED | Tick_STUCK

record tick_result =
  tick_deployment_id :: uuid
  outcome :: tick_outcome
  attempt :: int
  error :: "string option"
  tick_position_qty :: "flt option"

record tick_report =
  rep_tm_interval_id :: int
  results :: "tick_result list"

definition due :: "tick_report \<Rightarrow> nat" where
  "due r = length (results r)"

definition advanced :: "tick_report \<Rightarrow> nat" where
  "advanced r =
     length (filter (\<lambda>x. outcome x = Tick_APPLIED \<or> outcome x = Tick_ABANDONED) (results r))"

section \<open>The runner\<close>

record 'w schedule_repo =
  missed_due :: "int \<Rightarrow> ('w, trade_exn, due_row list) call"
  put_deployment :: "deployment \<Rightarrow> ('w, trade_exn, deployment) call"
  put_schedule_status ::
    "uuid \<Rightarrow> uuid \<Rightarrow> int \<Rightarrow> sched_status \<Rightarrow> int option \<Rightarrow> ('w, trade_exn, unit) call"

type_synonym 'w apply_fn = "uuid \<Rightarrow> uuid \<Rightarrow> ('w, trade_exn, apply_report) call"

definition advance_cursor ::
  "'w schedule_repo \<Rightarrow> due_row \<Rightarrow> tick_outcome \<Rightarrow> int \<Rightarrow> string option \<Rightarrow> flt option
   \<Rightarrow> 'w \<Rightarrow> tick_result \<times> 'w" where
  "advance_cursor repo row out att err pos w =
     (let did = deployment_id (due_dep row)
      in case put_schedule_status repo did did (deployment_vid (due_dep row)) PENDING
                (Some (next_scheduled_ts row)) w of
           (Inl e, w') \<Rightarrow>
             (\<lparr>tick_deployment_id = did, outcome = Tick_STUCK, attempt = att,
               error = Some (exn_message e), tick_position_qty = pos\<rparr>, w')
         | (Inr _, w') \<Rightarrow>
             (\<lparr>tick_deployment_id = did, outcome = out, attempt = att, error = err,
               tick_position_qty = pos\<rparr>, w'))"

text \<open>The row written by the auto-pause: the due row's values, disabled and paused.\<close>

definition paused_version :: "deployment \<Rightarrow> deployment" where
  "paused_version d = d\<lparr>is_enabled_ind := N, deployment_status := PAUSED\<rparr>"

definition auto_pause ::
  "'w schedule_repo \<Rightarrow> due_row \<Rightarrow> int \<Rightarrow> string \<Rightarrow> 'w \<Rightarrow> tick_result \<times> 'w" where
  "auto_pause repo row att err w =
     (case put_deployment repo (paused_version (due_dep row)) w of
        (Inl e, w') \<Rightarrow>
          advance_cursor repo row Tick_ABANDONED att
            (Some (err @ ''; pause failed: '' @ exn_message e)) None w'
      | (Inr _, w') \<Rightarrow>
          (\<lparr>tick_deployment_id = deployment_id (due_dep row), outcome = Tick_PAUSED, attempt = att,
            error = Some err, tick_position_qty = None\<rparr>, w'))"

text \<open>
  The attempts of one deployment: either an apply that did not fail, with its attempt number
  and position, or the last attempt's number and error text.
\<close>

datatype tries = Applied int "flt option" | GaveUp int string

definition try_apply :: "'w apply_fn \<Rightarrow> due_row \<Rightarrow> 'w \<Rightarrow> (order_failure + flt option) \<times> 'w" where
  "try_apply apply_dep row w =
     (case apply_dep (app_user_id (due_dep row)) (deployment_id (due_dep row)) w of
        (Inl e, w') \<Rightarrow> (Inl \<lparr>fail_message = exn_message e, fail_reason = exn_reason e\<rparr>, w')
      | (Inr rep, w') \<Rightarrow>
          (case failed_order rep of
             None \<Rightarrow> (Inr (position_of rep), w')
           | Some f \<Rightarrow> (Inl f, w')))"

definition stops_retry :: "order_failure \<Rightarrow> bool" where
  "stops_retry f = (case fail_reason f of Some r \<Rightarrow> requires_operator_fix r | None \<Rightarrow> False)"

text \<open>\<open>for attempt in range(1, max_attempts + 1)\<close>: attempt \<open>k\<close>, with \<open>n\<close> more after it.\<close>

fun try_loop :: "'w apply_fn \<Rightarrow> due_row \<Rightarrow> nat \<Rightarrow> int \<Rightarrow> 'w \<Rightarrow> tries \<times> 'w" where
  "try_loop apply_dep row n k w =
     (case try_apply apply_dep row w of
        (Inr pos, w') \<Rightarrow> (Applied k pos, w')
      | (Inl f, w') \<Rightarrow>
          (if stops_retry f then (GaveUp k (fail_message f), w')
           else (case n of
                   0 \<Rightarrow> (GaveUp k (fail_message f), w')
                 | Suc m \<Rightarrow> try_loop apply_dep row m (k + 1) w')))"

declare try_loop.simps [simp del]

text \<open>With no attempt allowed the loop never binds \<open>attempt\<close> and the call after it raises.\<close>

definition run_one ::
  "int \<Rightarrow> 'w schedule_repo \<Rightarrow> 'w apply_fn \<Rightarrow> due_row \<Rightarrow> ('w, trade_exn, tick_result) call" where
  "run_one max_att repo apply_dep row w =
     (if max_att < 1 then
        (Inl (PyExn (UnboundLocalError
           ''cannot access local variable 'attempt' where it is not associated with a value'')), w)
      else case try_loop apply_dep row (nat (max_att - 1)) 1 w of
             (Applied k pos, w') \<Rightarrow>
               (case advance_cursor repo row Tick_APPLIED k None pos w' of (r, w'') \<Rightarrow> (Inr r, w''))
           | (GaveUp k err, w') \<Rightarrow>
               (case auto_pause repo row k err w' of (r, w'') \<Rightarrow> (Inr r, w'')))"

fun run_rows ::
  "int \<Rightarrow> 'w schedule_repo \<Rightarrow> 'w apply_fn \<Rightarrow> due_row list \<Rightarrow> ('w, trade_exn, tick_result list) call" where
  "run_rows max_att repo apply_dep [] w = (Inr [], w)"
| "run_rows max_att repo apply_dep (row # rows) w =
     (case run_one max_att repo apply_dep row w of
        (Inl e, w') \<Rightarrow> (Inl e, w')
      | (Inr r, w') \<Rightarrow>
          (case run_rows max_att repo apply_dep rows w' of
             (Inl e, w'') \<Rightarrow> (Inl e, w'')
           | (Inr rs, w'') \<Rightarrow> (Inr (r # rs), w'')))"

definition run_interval ::
  "int \<Rightarrow> 'w schedule_repo \<Rightarrow> 'w apply_fn \<Rightarrow> int \<Rightarrow> ('w, trade_exn, tick_report) call" where
  "run_interval max_att repo apply_dep iv =
     bindC (missed_due repo iv) (\<lambda>rows.
     bindC (run_rows max_att repo apply_dep rows) (\<lambda>rs.
       returnC \<lparr>rep_tm_interval_id = iv, results = rs\<rparr>))"

section \<open>Sweep and drain\<close>

text \<open>An interval whose pass raises is skipped; what it already did to the world stays.\<close>

fun sweep :: "int \<Rightarrow> 'w schedule_repo \<Rightarrow> 'w apply_fn \<Rightarrow> int list \<Rightarrow> 'w \<Rightarrow> tick_report list \<times> 'w" where
  "sweep max_att repo apply_dep [] w = ([], w)"
| "sweep max_att repo apply_dep (iv # ivs) w =
     (case run_interval max_att repo apply_dep iv w of
        (Inl e, w') \<Rightarrow> sweep max_att repo apply_dep ivs w'
      | (Inr rep, w') \<Rightarrow>
          (case sweep max_att repo apply_dep ivs w' of (reps, w'') \<Rightarrow> (rep # reps, w'')))"

definition has_stuck :: "tick_report list \<Rightarrow> bool" where
  "has_stuck reps = list_ex (\<lambda>rep. list_ex (\<lambda>r. outcome r = Tick_STUCK) (results rep)) reps"

fun drain_loop ::
  "('w \<Rightarrow> tick_report list \<times> 'w) \<Rightarrow> nat \<Rightarrow> nat \<Rightarrow> 'w \<Rightarrow> nat \<times> 'w" where
  "drain_loop poll_once 0 tot w = (tot, w)"
| "drain_loop poll_once (Suc n) tot w =
     (case poll_once w of (reps, w') \<Rightarrow>
        if has_stuck reps then (tot, w')
        else let adv = sum_list (map advanced reps)
             in if adv = 0 then (tot, w')
                else drain_loop poll_once n (tot + adv) w')"

definition drain :: "('w \<Rightarrow> tick_report list \<times> 'w) \<Rightarrow> int \<Rightarrow> 'w \<Rightarrow> nat \<times> 'w" where
  "drain poll_once max_drain_passes w = drain_loop poll_once (nat max_drain_passes) 0 w"

section \<open>Attempts\<close>

text \<open>
  The applies one deployment gets: at most \<open>Suc n\<close>, all but the last failed with a reason a
  retry may clear, and the verdict is the last one's.
\<close>

lemma try_loop_number:
  "try_loop ap row n k w = (t, w') \<Longrightarrow>
   (case t of Applied j pos \<Rightarrow> k \<le> j \<and> j \<le> k + int n | GaveUp j err \<Rightarrow> k \<le> j \<and> j \<le> k + int n)"
proof (induction n arbitrary: k w)
  case 0
  then show ?case
    by (subst (asm) try_loop.simps) (auto split: prod.splits sum.splits if_splits)
next
  case (Suc n)
  show ?case
  proof (cases "\<exists>f w1. try_apply ap row w = (Inl f, w1) \<and> \<not> stops_retry f")
    case True
    then obtain f w1 where "try_apply ap row w = (Inl f, w1)" "\<not> stops_retry f" by blast
    then have "try_loop ap row n (k + 1) w1 = (t, w')"
      using Suc.prems by (subst (asm) try_loop.simps) simp
    then show ?thesis
      using Suc.IH by (fastforce split: tries.splits)
  next
    case False
    then show ?thesis
      using Suc.prems by (subst (asm) try_loop.simps) (auto split: prod.splits sum.splits if_splits)
  qed
qed

lemma try_loop_first_success:
  "try_apply ap row w = (Inr pos, w') \<Longrightarrow> try_loop ap row n k w = (Applied k pos, w')"
  by (subst try_loop.simps) simp

lemma try_loop_operator_fix:
  "try_apply ap row w = (Inl f, w') \<Longrightarrow> stops_retry f \<Longrightarrow>
   try_loop ap row n k w = (GaveUp k (fail_message f), w')"
  by (subst try_loop.simps) simp

text \<open>If every apply fails and none of the failures needs an operator, all attempts are spent.\<close>

lemma try_loop_exhausts:
  assumes "\<And>w. \<exists>f w'. try_apply ap row w = (Inl f, w') \<and> \<not> stops_retry f"
  shows "\<exists>err w'. try_loop ap row n k w = (GaveUp (k + int n) err, w')"
proof (induction n arbitrary: k w)
  case 0
  obtain f w' where "try_apply ap row w = (Inl f, w')" "\<not> stops_retry f"
    using assms by blast
  then show ?case by (subst try_loop.simps) simp
next
  case (Suc n)
  obtain f w1 where "try_apply ap row w = (Inl f, w1)" "\<not> stops_retry f"
    using assms by blast
  then have "try_loop ap row (Suc n) k w = try_loop ap row n (k + 1) w1"
    by (subst try_loop.simps) simp
  with Suc.IH [of "k + 1" w1] show ?case by (simp add: algebra_simps)
qed

lemma advance_cursor_result:
  "advance_cursor repo row out k err pos w = (r, w') \<Longrightarrow> attempt r = k \<and> outcome r \<in> {out, Tick_STUCK}"
  by (auto simp: advance_cursor_def Let_def split: prod.splits sum.splits)

lemma auto_pause_result:
  "auto_pause repo row k err w = (r, w') \<Longrightarrow>
   attempt r = k \<and> outcome r \<in> {Tick_PAUSED, Tick_ABANDONED, Tick_STUCK}"
  by (auto simp: auto_pause_def split: prod.splits sum.splits dest: advance_cursor_result)

lemma run_one_returns: "1 \<le> max_att \<Longrightarrow> \<exists>r w'. run_one max_att repo ap row w = (Inr r, w')"
  by (auto simp: run_one_def split: prod.splits tries.splits)

lemma run_rows_returns: "1 \<le> max_att \<Longrightarrow> \<exists>rs w'. run_rows max_att repo ap rows w = (Inr rs, w')"
proof (induction rows arbitrary: w)
  case Nil
  show ?case by simp
next
  case (Cons row rows)
  obtain r w1 where "run_one max_att repo ap row w = (Inr r, w1)"
    using run_one_returns [OF Cons.prems, of repo ap row w] by blast
  moreover obtain rs w2 where "run_rows max_att repo ap rows w1 = (Inr rs, w2)"
    using Cons by blast
  ultimately show ?case by simp
qed

section \<open>What the runner needs of the store\<close>

text \<open>Where the cursor of a due deployment may be after its turn, by outcome.\<close>

definition cursor_ok :: "due_row \<Rightarrow> tick_outcome \<Rightarrow> int option \<Rightarrow> int option \<Rightarrow> bool" where
  "cursor_ok row out before after =
     (case out of
        Tick_APPLIED \<Rightarrow> after = Some (next_scheduled_ts row)
      | Tick_PAUSED \<Rightarrow> after = None
      | Tick_ABANDONED \<Rightarrow> after \<in> {Some (next_scheduled_ts row), None}
      | Tick_STUCK \<Rightarrow> after \<in> {before, None})"

definition turn_ok :: "due_row \<Rightarrow> tick_result \<Rightarrow> (uuid \<Rightarrow> int option) \<Rightarrow> (uuid \<Rightarrow> int option) \<Rightarrow> bool" where
  "turn_ok row r before after \<longleftrightarrow>
     tick_deployment_id r = deployment_id (due_dep row)
     \<and> cursor_ok row (outcome r) (before (deployment_id (due_dep row))) (after (deployment_id (due_dep row)))"

text \<open>
  \<open>pend\<close> is the view of the store: the cursor of each deployment that can still fire. The
  due list reads it; writing a schedule row moves the cursor of a live deployment; writing a
  disabled version removes it; nothing else changes, and a call that raises changes nothing
  but may have removed the cursor of the deployment it was writing.
\<close>

locale schedule_store =
  fixes repo :: "'w schedule_repo"
    and good :: "'w \<Rightarrow> bool"
    and pend :: "'w \<Rightarrow> uuid \<Rightarrow> int option"
    and clock :: "'w \<Rightarrow> int"
    and periods :: "int \<Rightarrow> int option"
  assumes due_frame: "good w \<Longrightarrow> missed_due repo iv w = (x, w') \<Longrightarrow>
      good w' \<and> pend w' = pend w \<and> clock w' = clock w"
    and due_distinct: "good w \<Longrightarrow> missed_due repo iv w = (Inr rows, w') \<Longrightarrow>
      distinct (map (\<lambda>row. deployment_id (due_dep row)) rows)"
    and due_rows: "good w \<Longrightarrow> missed_due repo iv w = (Inr rows, w') \<Longrightarrow> row \<in> set rows \<Longrightarrow>
      pend w (deployment_id (due_dep row)) = Some (scheduled_ts row)
      \<and> scheduled_ts row \<le> clock w
      \<and> (\<exists>p. periods iv = Some p \<and> next_scheduled_ts row = scheduled_ts row + p)"
    and status_raises:
      "good w \<Longrightarrow> put_schedule_status repo did did vid PENDING (Some ts) w = (Inl e, w') \<Longrightarrow>
      good w' \<and> pend w' = pend w \<and> clock w' = clock w"
    and status_moves:
      "good w \<Longrightarrow> put_schedule_status repo did did vid PENDING (Some ts) w = (Inr u, w') \<Longrightarrow>
      good w' \<and> clock w' = clock w
      \<and> (\<exists>c. pend w' = (pend w)(did := c) \<and> c \<in> {Some ts, None} \<and> (pend w did \<noteq> None \<longrightarrow> c \<noteq> None))"
    and pause_raises: "good w \<Longrightarrow> put_deployment repo (paused_version d) w = (Inl e, w') \<Longrightarrow>
      good w' \<and> clock w' = clock w
      \<and> (pend w' = pend w \<or> pend w' = (pend w)(deployment_id d := None))"
    and pause_removes: "good w \<Longrightarrow> put_deployment repo (paused_version d) w = (Inr r, w') \<Longrightarrow>
      good w' \<and> pend w' = (pend w)(deployment_id d := None) \<and> clock w' = clock w"
begin

definition schedule_frame :: "'w apply_fn \<Rightarrow> bool" where
  "schedule_frame ap \<longleftrightarrow>
     (\<forall>u d w x w'. good w \<longrightarrow> ap u d w = (x, w') \<longrightarrow> good w' \<and> pend w' = pend w \<and> clock w' = clock w)"

lemma try_apply_frame:
  "schedule_frame ap \<Longrightarrow> good w \<Longrightarrow> try_apply ap row w = (x, w') \<Longrightarrow>
   good w' \<and> pend w' = pend w \<and> clock w' = clock w"
  by (auto simp: schedule_frame_def try_apply_def split: prod.splits sum.splits option.splits)

lemma try_loop_frame:
  "schedule_frame ap \<Longrightarrow> good w \<Longrightarrow> try_loop ap row n k w = (x, w') \<Longrightarrow>
   good w' \<and> pend w' = pend w \<and> clock w' = clock w"
proof (induction n arbitrary: k w)
  case 0
  then show ?case
    by (subst (asm) try_loop.simps)
      (auto split: prod.splits sum.splits if_splits dest: try_apply_frame)
next
  case (Suc n)
  obtain y w1 where one: "try_apply ap row w = (y, w1)" by fastforce
  note fr = try_apply_frame [OF Suc.prems(1,2) one]
  show ?case
  proof (cases "\<exists>f. y = Inl f \<and> \<not> stops_retry f")
    case True
    with one Suc.prems(3) have "try_loop ap row n (k + 1) w1 = (x, w')"
      by (subst (asm) try_loop.simps) auto
    with Suc.IH [OF Suc.prems(1)] fr show ?thesis by metis
  next
    case False
    with one Suc.prems(3) have "w' = w1"
      by (subst (asm) try_loop.simps) (auto split: sum.splits if_splits)
    with fr show ?thesis by simp
  qed
qed

text \<open>\<open>moved row r w w'\<close>: the turn of \<open>row\<close> took the store from \<open>w\<close> to \<open>w'\<close> with result \<open>r\<close>.\<close>

definition moved :: "due_row \<Rightarrow> tick_result \<Rightarrow> 'w \<Rightarrow> 'w \<Rightarrow> bool" where
  "moved row r w w' \<longleftrightarrow>
     good w' \<and> clock w' = clock w \<and> turn_ok row r (pend w) (pend w')
     \<and> (\<forall>x. x \<noteq> deployment_id (due_dep row) \<longrightarrow> pend w' x = pend w x)"

lemma advance_cursor_moves:
  assumes "good w" and "advance_cursor repo row out k err pos w = (r, w')"
    and "out = Tick_APPLIED \<or> out = Tick_ABANDONED"
    and "out = Tick_APPLIED \<longrightarrow> pend w (deployment_id (due_dep row)) \<noteq> None"
  shows "moved row r w w'"
proof -
  let ?did = "deployment_id (due_dep row)"
  obtain y w1 where put: "put_schedule_status repo ?did ?did (deployment_vid (due_dep row)) PENDING
      (Some (next_scheduled_ts row)) w = (y, w1)" by fastforce
  show ?thesis
  proof (cases y)
    case (Inl e)
    with assms(2) put status_raises [OF assms(1) put [unfolded Inl]] show ?thesis
      by (auto simp: advance_cursor_def moved_def turn_ok_def cursor_ok_def)
  next
    case (Inr u)
    obtain c where "pend w1 = (pend w)(?did := c)" "c \<in> {Some (next_scheduled_ts row), None}"
      "pend w ?did \<noteq> None \<longrightarrow> c \<noteq> None" "good w1" "clock w1 = clock w"
      using status_moves [OF assms(1) put [unfolded Inr]] by blast
    with assms(2-4) put Inr show ?thesis
      by (auto simp: advance_cursor_def moved_def turn_ok_def cursor_ok_def)
  qed
qed

lemma auto_pause_moves:
  assumes "good w" and "auto_pause repo row k err w = (r, w')"
  shows "moved row r w w'"
proof -
  obtain y w1 where put: "put_deployment repo (paused_version (due_dep row)) w = (y, w1)" by fastforce
  show ?thesis
  proof (cases y)
    case (Inr d)
    with assms(2) put pause_removes [OF assms(1) put [unfolded Inr]] show ?thesis
      by (auto simp: auto_pause_def moved_def turn_ok_def cursor_ok_def)
  next
    case (Inl e)
    note pr = pause_raises [OF assms(1) put [unfolded Inl]]
    have "moved row r w1 w'"
      using assms(2) put Inl pr
      by (intro advance_cursor_moves [where out = Tick_ABANDONED]) (auto simp: auto_pause_def)
    with pr show ?thesis
      by (auto simp: moved_def turn_ok_def cursor_ok_def split: tick_outcome.splits)
  qed
qed

lemma run_one_moves:
  assumes "schedule_frame ap" and "good w" and "pend w (deployment_id (due_dep row)) \<noteq> None"
    and "run_one max_att repo ap row w = (Inr r, w')"
  shows "moved row r w w'"
proof -
  obtain t w1 where loop: "try_loop ap row (nat (max_att - 1)) 1 w = (t, w1)" by fastforce
  note fr = try_loop_frame [OF assms(1,2) loop]
  have "moved row r w1 w'"
  proof (cases t)
    case (Applied k pos)
    with assms(3,4) loop fr show ?thesis
      by (intro advance_cursor_moves [where out = Tick_APPLIED])
        (auto simp: run_one_def split: if_splits prod.splits)
  next
    case (GaveUp k err)
    with assms(4) loop fr show ?thesis
      by (intro auto_pause_moves) (auto simp: run_one_def split: if_splits prod.splits)
  qed
  with fr show ?thesis by (simp add: moved_def)
qed

lemma run_rows_moves:
  assumes "schedule_frame ap" and "good w"
    and "distinct (map (\<lambda>row. deployment_id (due_dep row)) rows)"
    and "\<forall>row \<in> set rows. pend w (deployment_id (due_dep row)) \<noteq> None"
    and "run_rows max_att repo ap rows w = (Inr rs, w')"
  shows "good w' \<and> clock w' = clock w
    \<and> list_all2 (\<lambda>row r. turn_ok row r (pend w) (pend w')) rows rs
    \<and> (\<forall>x. x \<notin> (\<lambda>row. deployment_id (due_dep row)) ` set rows \<longrightarrow> pend w' x = pend w x)"
  using assms(2-5)
proof (induction rows arbitrary: w rs)
  case Nil
  then show ?case by simp
next
  case (Cons row rows)
  obtain r w1 rs' where one: "run_one max_att repo ap row w = (Inr r, w1)"
    and rest: "run_rows max_att repo ap rows w1 = (Inr rs', w')" and rs: "rs = r # rs'"
    using Cons.prems(4) by (auto split: prod.splits sum.splits)
  have m: "moved row r w w1"
    using Cons.prems one by (intro run_one_moves [OF assms(1)]) auto
  let ?id = "\<lambda>row. deployment_id (due_dep row)"
  have same: "pend w1 (?id row') = pend w (?id row')" if "row' \<in> set rows" for row'
    using that m Cons.prems(2) by (auto simp: moved_def image_iff)
  have IH: "good w' \<and> clock w' = clock w1
    \<and> list_all2 (\<lambda>row r. turn_ok row r (pend w1) (pend w')) rows rs'
    \<and> (\<forall>x. x \<notin> ?id ` set rows \<longrightarrow> pend w' x = pend w1 x)"
    using Cons.prems m same rest by (intro Cons.IH) (auto simp: moved_def)
  have lifted: "turn_ok row' r' (pend w) (pend w')"
    if "row' \<in> set rows" and "turn_ok row' r' (pend w1) (pend w')" for row' r'
    using same [OF that(1)] that(2) by (simp add: turn_ok_def)
  have "list_all2 (\<lambda>row r. turn_ok row r (pend w1) (pend w')) rows rs'"
    using IH by simp
  then have "list_all2 (\<lambda>row r. turn_ok row r (pend w) (pend w')) rows rs'"
    by (rule list.rel_mono_strong) (rule lifted)
  moreover have "turn_ok row r (pend w) (pend w')"
    using m IH Cons.prems(2) by (auto simp: moved_def turn_ok_def)
  ultimately show ?case
    using IH m rs by (auto simp: moved_def)
qed

end

section \<open>The stored procedures provide it\<close>

text \<open>The repository the scheduler is given, on the tables and whatever else the world holds.\<close>

definition db_schedule_repo :: "(int \<Rightarrow> int option) \<Rightarrow> (trade_db \<times> 'v) schedule_repo" where
  "db_schedule_repo periods =
     \<lparr>missed_due = missed_due_rows periods,
      put_deployment = (\<lambda>d. write_deployment d None),
      put_schedule_status = ins_schedule_status\<rparr>"

lemma db_schedule_repo_simps [simp]:
  "missed_due (db_schedule_repo periods) = missed_due_rows periods"
  "put_deployment (db_schedule_repo periods) = (\<lambda>d. write_deployment d None)"
  "put_schedule_status (db_schedule_repo periods) = ins_schedule_status"
  by (simp_all add: db_schedule_repo_def)

lemma missed_due_rows_cases:
  assumes "missed_due_rows periods iv (db, v) = (x, w')"
  shows "\<exists>fs. w' = (db\<lparr>faults := fs\<rparr>, v)
    \<and> (\<forall>rows. x = Inr rows \<longrightarrow> rows = sp_get_missed_due periods iv (db\<lparr>faults := fs\<rparr>))"
  using assms unfolding missed_due_rows_def
  by (cases rule: on_db_cases) (force simp: missed_due_rows_def)+

lemma ins_schedule_status_cases:
  assumes "ins_schedule_status sid did vid PENDING (Some ts) (db, v) = (x, w')"
  shows "(\<exists>fs. w' = (db\<lparr>faults := fs\<rparr>, v) \<and> (\<exists>e. x = Inl e))
    \<or> (\<exists>fs. w' = (sp_ins_schedule_status sid did vid PENDING ts (db\<lparr>faults := fs\<rparr>), v) \<and> x = Inr ())"
proof -
  obtain y db1 where one: "on_db (\<lambda>db. Inr (deployment_version did vid db, db)) (db, v) = (y, (db1, v))"
    and db1: "\<exists>fs. db1 = db\<lparr>faults := fs\<rparr>"
    by (cases "faults db"; cases "hd (faults db)") (auto simp: on_db_def Let_def)
  show ?thesis
  proof (cases "\<exists>d. y = Inr (Some d)")
    case False
    with assms one db1 show ?thesis
      by (cases y) (auto simp: ins_schedule_status_def bindC_def)
  next
    case True
    with assms one have
      "on_db (\<lambda>db. Inr ((), sp_ins_schedule_status sid did vid PENDING ts db)) (db1, v) = (x, w')"
      by (auto simp: ins_schedule_status_def bindC_def)
    then show ?thesis
      using db1 by (cases rule: on_db_cases) force+
  qed
qed

lemma write_deployment_cases:
  assumes "write_deployment d its (db, v) = (x, w')"
  shows "\<exists>fs. (w' = (db\<lparr>faults := fs\<rparr>, v) \<and> (\<exists>e. x = Inl e))
    \<or> w' = ((sp_ins_deployment_proc d its (db\<lparr>faults := fs\<rparr>)), v)
    \<or> (\<exists>fs'. w' = ((sp_ins_deployment_proc d its (db\<lparr>faults := fs\<rparr>))\<lparr>faults := fs'\<rparr>, v))"
proof -
  obtain y w1 where one: "on_db (\<lambda>db. Inr ((), sp_ins_deployment_proc d its db)) (db, v) = (y, w1)"
    by (meson surj_pair)
  show ?thesis
  proof (cases y)
    case (Inl e)
    with one have "\<exists>fs. w1 = (db\<lparr>faults := fs\<rparr>, v)"
      by (cases rule: on_db_cases) auto
    with assms one Inl show ?thesis
      by (auto simp: write_deployment_def bindC_def)
  next
    case (Inr u)
    with one obtain db1 where db1: "w1 = (db1, v)"
      "\<exists>fs. db1 = sp_ins_deployment_proc d its (db\<lparr>faults := fs\<rparr>)"
      by (cases rule: on_db_cases) auto
    obtain z w2 where two: "on_db (\<lambda>db. Inr (sp_get_deployment_rows (app_user_id d)
        (Some (deployment_id d)) db, db)) (db1, v) = (z, w2)"
      by (meson surj_pair)
    then have "\<exists>fs'. w2 = (db1\<lparr>faults := fs'\<rparr>, v)"
      by (cases rule: on_db_cases) auto
    moreover have "w' = w2"
      using assms one Inr db1(1) two
      by (auto simp: write_deployment_def bindC_def split: sum.splits list.splits)
    ultimately show ?thesis
      using db1(2) by blast
  qed
qed

lemma write_paused:
  assumes "db_wf db" and "write_deployment (paused_version d) None (db, v) = (x, (db', v'))"
  shows "db_wf db' \<and> db_now db' = db_now db
    \<and> (pending db' = (pending db)(deployment_id d := None)
        \<or> ((\<exists>e. x = Inl e) \<and> pending db' = pending db))"
proof -
  have "pending (sp_ins_deployment_proc (paused_version d) None (db\<lparr>faults := fs\<rparr>))
      = (pending db)(deployment_id d := None)" for fs
    using assms(1) by (simp add: pending_after_proc paused_version_def can_fire_def)
  moreover have "db_wf (sp_ins_deployment_proc (paused_version d) None (db\<lparr>faults := fs\<rparr>))" for fs
    using assms(1) by (simp add: sp_ins_deployment_proc_wf)
  ultimately show ?thesis
    using write_deployment_cases [OF assms(2)] assms(1) by auto
qed

lemma ins_schedule_moves:
  assumes "db_wf db" and "ins_schedule_status did did vid PENDING (Some ts) (db, v) = (x, (db', v'))"
  shows "db_wf db' \<and> db_now db' = db_now db
    \<and> (case x of Inl e \<Rightarrow> pending db' = pending db
        | Inr u \<Rightarrow> \<exists>c. pending db' = (pending db)(did := c) \<and> c \<in> {Some ts, None}
            \<and> (pending db did \<noteq> None \<longrightarrow> c \<noteq> None))"
proof -
  have "\<exists>c. pending (sp_ins_schedule_status did did vid PENDING ts (db\<lparr>faults := fs\<rparr>)) = (pending db)(did := c)
      \<and> c \<in> {Some ts, None} \<and> (pending db did \<noteq> None \<longrightarrow> c \<noteq> None)" for fs
    using pending_after_advance [of "db\<lparr>faults := fs\<rparr>" did vid ts] assms(1)
    by (auto simp: open_deployment_def pending_def split: option.splits if_splits)
  moreover have "db_wf (sp_ins_schedule_status did did vid PENDING ts (db\<lparr>faults := fs\<rparr>))" for fs
    using assms(1) by (simp add: sp_ins_schedule_status_wf)
  ultimately show ?thesis
    using ins_schedule_status_cases [OF assms(2)] assms(1) by auto
qed

interpretation db_store: schedule_store "db_schedule_repo periods" "db_wf \<circ> fst" "pending \<circ> fst"
    "db_now \<circ> fst" periods
  for periods
proof unfold_locales
  fix w w' :: "trade_db \<times> 'v" and iv x
  assume "(db_wf \<circ> fst) w" and "missed_due (db_schedule_repo periods) iv w = (x, w')"
  then show "(db_wf \<circ> fst) w' \<and> (pending \<circ> fst) w' = (pending \<circ> fst) w \<and> (db_now \<circ> fst) w' = (db_now \<circ> fst) w"
    using missed_due_rows_cases [of periods iv "fst w" "snd w" x w'] by auto
next
  fix w w' :: "trade_db \<times> 'v" and iv rows
  assume "(db_wf \<circ> fst) w" and "missed_due (db_schedule_repo periods) iv w = (Inr rows, w')"
  then show "distinct (map (\<lambda>row. deployment_id (due_dep row)) rows)"
    using missed_due_rows_cases [of periods iv "fst w" "snd w" "Inr rows" w']
    by (auto intro: sp_get_missed_due_distinct)
next
  fix w w' :: "trade_db \<times> 'v" and iv rows row
  assume "(db_wf \<circ> fst) w" and "missed_due (db_schedule_repo periods) iv w = (Inr rows, w')"
    and "row \<in> set rows"
  then obtain fs where wf: "db_wf ((fst w)\<lparr>faults := fs\<rparr>)"
    and row: "row \<in> set (sp_get_missed_due periods iv ((fst w)\<lparr>faults := fs\<rparr>))"
    using missed_due_rows_cases [of periods iv "fst w" "snd w" "Inr rows" w'] by auto
  then obtain p where p: "periods iv = Some p"
    by (cases "periods iv") (auto simp: sp_get_missed_due_def)
  with row sp_get_missed_due_iff [of "(fst w)\<lparr>faults := fs\<rparr>" periods iv p row] wf
  show "(pending \<circ> fst) w (deployment_id (due_dep row)) = Some (scheduled_ts row)
      \<and> scheduled_ts row \<le> (db_now \<circ> fst) w
      \<and> (\<exists>p. periods iv = Some p \<and> next_scheduled_ts row = scheduled_ts row + p)"
    by simp
next
  fix w w' :: "trade_db \<times> 'v" and did vid ts e
  assume "(db_wf \<circ> fst) w"
    and "put_schedule_status (db_schedule_repo periods) did did vid PENDING (Some ts) w = (Inl e, w')"
  then show "(db_wf \<circ> fst) w' \<and> (pending \<circ> fst) w' = (pending \<circ> fst) w \<and> (db_now \<circ> fst) w' = (db_now \<circ> fst) w"
    using ins_schedule_moves [of "fst w" did vid ts "snd w" "Inl e" "fst w'" "snd w'"] by simp
next
  fix w w' :: "trade_db \<times> 'v" and did vid ts u
  assume "(db_wf \<circ> fst) w"
    and "put_schedule_status (db_schedule_repo periods) did did vid PENDING (Some ts) w = (Inr u, w')"
  then show "(db_wf \<circ> fst) w' \<and> (db_now \<circ> fst) w' = (db_now \<circ> fst) w
      \<and> (\<exists>c. (pending \<circ> fst) w' = ((pending \<circ> fst) w)(did := c) \<and> c \<in> {Some ts, None}
          \<and> ((pending \<circ> fst) w did \<noteq> None \<longrightarrow> c \<noteq> None))"
    using ins_schedule_moves [of "fst w" did vid ts "snd w" "Inr u" "fst w'" "snd w'"] by simp
next
  fix w w' :: "trade_db \<times> 'v" and d e
  assume "(db_wf \<circ> fst) w" and "put_deployment (db_schedule_repo periods) (paused_version d) w = (Inl e, w')"
  then show "(db_wf \<circ> fst) w' \<and> (db_now \<circ> fst) w' = (db_now \<circ> fst) w
      \<and> ((pending \<circ> fst) w' = (pending \<circ> fst) w
        \<or> (pending \<circ> fst) w' = ((pending \<circ> fst) w)(deployment_id d := None))"
    using write_paused [of "fst w" d "snd w" "Inl e" "fst w'" "snd w'"] by auto
next
  fix w w' :: "trade_db \<times> 'v" and d r
  assume "(db_wf \<circ> fst) w" and "put_deployment (db_schedule_repo periods) (paused_version d) w = (Inr r, w')"
  then show "(db_wf \<circ> fst) w' \<and> (pending \<circ> fst) w' = ((pending \<circ> fst) w)(deployment_id d := None)
      \<and> (db_now \<circ> fst) w' = (db_now \<circ> fst) w"
    using write_paused [of "fst w" d "snd w" "Inr r" "fst w'" "snd w'"] by auto
qed

text \<open>An apply cycle that leaves the deployment and schedule tables and the clock alone.\<close>

definition keeps_schedule :: "(trade_db \<times> 'v) apply_fn \<Rightarrow> bool" where
  "keeps_schedule ap \<longleftrightarrow>
     (\<forall>u d w x w'. ap u d w = (x, w') \<longrightarrow>
        deployments (fst w') = deployments (fst w) \<and> schedules (fst w') = schedules (fst w)
        \<and> db_now (fst w') = db_now (fst w))"

lemma same_schedule:
  assumes "deployments db' = deployments db" and "schedules db' = schedules db"
  shows "db_wf db' = db_wf db" and "pending db' = pending db"
  using assms by (simp_all add: db_wf_def pending_def open_deployment_def current_schedule_def fun_eq_iff)

lemma keeps_schedule_frame: "keeps_schedule ap \<Longrightarrow> db_store.schedule_frame ap"
  unfolding db_store.schedule_frame_def
proof (intro allI impI)
  fix u d x w w'
  assume "keeps_schedule ap" and good: "(db_wf \<circ> fst) w" and "ap u d w = (x, w')"
  then have eq: "deployments (fst w') = deployments (fst w)" "schedules (fst w') = schedules (fst w)"
    "db_now (fst w') = db_now (fst w)"
    unfolding keeps_schedule_def by blast+
  from same_schedule [OF eq(1,2)] eq(3) good
  show "(db_wf \<circ> fst) w' \<and> (pending \<circ> fst) w' = (pending \<circ> fst) w \<and> (db_now \<circ> fst) w' = (db_now \<circ> fst) w"
    by simp
qed

text \<open>A pass over one interval: every due deployment gets one turn, nothing else moves.\<close>

lemma run_interval_moves:
  assumes "keeps_schedule ap" and "db_wf (fst w)"
    and "run_interval max_att (db_schedule_repo periods) ap iv w = (Inr rep, w')"
  shows "\<exists>rows. list_all2 (\<lambda>row r. turn_ok row r (pending (fst w)) (pending (fst w'))) rows (results rep)
    \<and> (\<forall>row \<in> set rows. pending (fst w) (deployment_id (due_dep row)) = Some (scheduled_ts row)
        \<and> scheduled_ts row \<le> db_now (fst w)
        \<and> (\<exists>p. periods iv = Some p \<and> next_scheduled_ts row = scheduled_ts row + p))
    \<and> distinct (map (\<lambda>row. deployment_id (due_dep row)) rows)
    \<and> (\<forall>x. x \<notin> (\<lambda>row. deployment_id (due_dep row)) ` set rows \<longrightarrow>
         pending (fst w') x = pending (fst w) x)
    \<and> db_wf (fst w')"
proof -
  obtain rows w1 where due: "missed_due_rows periods iv w = (Inr rows, w1)"
    and rest: "run_rows max_att (db_schedule_repo periods) ap rows w1 = (Inr (results rep), w')"
    using assms(3) by (auto simp: run_interval_def bindC_Inr_iff)
  note due' = due [folded db_schedule_repo_simps(1)]
  note fr = db_store.due_frame [OF _ due', unfolded comp_apply, OF assms(2)]
  note rws = db_store.due_rows [OF _ due', unfolded comp_apply, OF assms(2)]
  note dst = db_store.due_distinct [OF _ due', unfolded comp_apply, OF assms(2)]
  have "db_wf (fst w') \<and> db_now (fst w') = db_now (fst w1)
    \<and> list_all2 (\<lambda>row r. turn_ok row r (pending (fst w1)) (pending (fst w'))) rows (results rep)
    \<and> (\<forall>x. x \<notin> (\<lambda>row. deployment_id (due_dep row)) ` set rows \<longrightarrow>
         pending (fst w') x = pending (fst w1) x)"
    using db_store.run_rows_moves [OF keeps_schedule_frame [OF assms(1)] _ dst _ rest] fr rws
    by auto
  with fr rws dst show ?thesis by metis
qed

section \<open>Properties\<close>

text \<open>C2: One pass over an interval, on the stored procedures and for any apply cycle that
  leaves the schedule tables alone: the deployments processed are distinct and were due, each
  got one result, an applied one's cursor moved by exactly one period from its own slot, a
  paused one's is gone, a stuck one's stayed or is gone, and no other deployment's cursor
  moved.\<close>

theorem run_interval_cursors:
  assumes "keeps_schedule ap" and "db_wf (fst w)"
    and "run_interval max_att (db_schedule_repo periods) ap iv w = (Inr rep, w')"
  shows "\<exists>rows. list_all2 (\<lambda>row r. turn_ok row r (pending (fst w)) (pending (fst w'))) rows (results rep)
    \<and> (\<forall>row \<in> set rows. pending (fst w) (deployment_id (due_dep row)) = Some (scheduled_ts row)
        \<and> scheduled_ts row \<le> db_now (fst w)
        \<and> (\<exists>p. periods iv = Some p \<and> next_scheduled_ts row = scheduled_ts row + p))
    \<and> distinct (map (\<lambda>row. deployment_id (due_dep row)) rows)
    \<and> (\<forall>x. x \<notin> (\<lambda>row. deployment_id (due_dep row)) ` set rows \<longrightarrow>
         pending (fst w') x = pending (fst w) x)
    \<and> db_wf (fst w')"
  by (rule run_interval_moves [OF assms])

text \<open>One due deployment, and an apply cycle that finds nothing to order.\<close>

definition demo_deployment :: deployment where
  "demo_deployment =
     \<lparr>deployment_id = 7, deployment_vid = 1, app_user_id = 1, strategy_id = 2, strategy_vid = 1,
      api_credential_id = 3, app_id = 4, internal_cusip = ''BTCUSDT'', qty = 1, is_paper_ind = Y,
      is_enabled_ind = Y, deployment_status = ACTIVE, schedule_tm_interval_id = Some 5,
      user_id = ''u'', is_open = True\<rparr>"

definition demo_db :: trade_db where
  "demo_db =
     \<lparr>deployments = [demo_deployment],
      schedules = [\<lparr>deployment_schedule_id = 7, deployment_schedule_vid = 1, sched_deployment_id = 7,
        sched_deployment_vid = 1, status = PENDING, row_scheduled_ts = 100, is_current = True\<rparr>],
      intents = [], execution_events = [], transactions = [], db_now = 150, faults = []\<rparr>"

definition demo_apply :: "(trade_db \<times> unit) apply_fn" where
  "demo_apply uid did w =
     (Inr \<lparr>rep_deployment_id = did, rep_deployment_vid = 1, rep_action = HOLD,
        rep_vendor_symbol = ''BTC/USDT'', rep_signal = Fin 0, rep_position_qty = Fin 0,
        rep_order_success = None, rep_vendor_order_id = None, rep_filled_qty = None,
        rep_avg_price = None, rep_fee = None, rep_fee_ccy = None,
        rep_message = ''no order needed (HOLD)'', rep_reject_reason = None,
        rep_bar_source = Some ''bars''\<rparr>, w)"

lemma demo_db_wf: "db_wf demo_db"
  by (simp add: db_wf_def demo_db_def)

lemma demo_keeps_schedule: "keeps_schedule demo_apply"
  by (simp add: keeps_schedule_def demo_apply_def)

theorem run_interval_cursors_witness:
  "\<exists>rep w'. run_interval 3 (db_schedule_repo (\<lambda>i. Some 60)) demo_apply 5 (demo_db, ()) = (Inr rep, w')
     \<and> db_wf (fst w') \<and> pending (fst w') 7 = Some 160"
proof -
  have ran: "case run_interval 3 (db_schedule_repo (\<lambda>i. Some 60)) demo_apply 5 (demo_db, ()) of
      (Inr rep, w') \<Rightarrow> map tick_deployment_id (results rep) = [7] \<and> pending (fst w') 7 = Some 160
    | (Inl e, w') \<Rightarrow> False"
    by code_simp
  obtain x w' where run:
    "run_interval 3 (db_schedule_repo (\<lambda>i. Some 60)) demo_apply 5 (demo_db, ()) = (x, w')"
    by (meson surj_pair)
  with ran obtain rep where rep: "x = Inr rep" and p: "pending (fst w') 7 = Some 160"
    by (cases x) auto
  from run_interval_cursors [OF demo_keeps_schedule _ run [unfolded rep]] demo_db_wf
  have "db_wf (fst w')" by auto
  with run rep p show ?thesis by blast
qed

text \<open>The attempts of one deployment in a tick: with a positive budget the turn always
  yields a result, its attempt number lies between one and the budget, and a first apply that
  succeeds, or that fails with a reason only the operator can fix, is the only one.\<close>

theorem run_one_attempts:
  assumes "1 \<le> max_att"
  shows "\<exists>r w'. run_one max_att repo ap row w = (Inr r, w') \<and> 1 \<le> attempt r \<and> attempt r \<le> max_att
    \<and> (\<forall>pos w1. try_apply ap row w = (Inr pos, w1) \<longrightarrow>
         attempt r = 1 \<and> outcome r \<in> {Tick_APPLIED, Tick_STUCK})
    \<and> (\<forall>f w1. try_apply ap row w = (Inl f, w1) \<and> stops_retry f \<longrightarrow>
         attempt r = 1 \<and> outcome r \<noteq> Tick_APPLIED)"
proof -
  obtain t w1 where loop: "try_loop ap row (nat (max_att - 1)) 1 w = (t, w1)" by (meson surj_pair)
  note num = try_loop_number [OF loop]
  obtain r w2 where turn: "(case t of
      Applied k pos \<Rightarrow> advance_cursor repo row Tick_APPLIED k None pos w1
    | GaveUp k err \<Rightarrow> auto_pause repo row k err w1) = (r, w2)" by (meson surj_pair)
  have run: "run_one max_att repo ap row w = (Inr r, w2)"
    using assms loop turn by (cases t) (simp_all add: run_one_def)
  have res: "case t of Applied k pos \<Rightarrow> attempt r = k \<and> outcome r \<in> {Tick_APPLIED, Tick_STUCK}
    | GaveUp k err \<Rightarrow> attempt r = k \<and> outcome r \<noteq> Tick_APPLIED"
    using turn advance_cursor_result auto_pause_result by (cases t) fastforce+
  have bounds: "1 \<le> attempt r \<and> attempt r \<le> max_att"
    using res num assms by (cases t) auto
  have ok: "attempt r = 1 \<and> outcome r \<in> {Tick_APPLIED, Tick_STUCK}" if "try_apply ap row w = (Inr pos, v)" for pos v
    using try_loop_first_success [OF that] loop res by auto
  have bad: "attempt r = 1 \<and> outcome r \<noteq> Tick_APPLIED" if "try_apply ap row w = (Inl f, v)" "stops_retry f" for f v
    using try_loop_operator_fix [OF that] loop res by auto
  from run bounds ok bad show ?thesis by blast
qed

theorem run_one_attempts_witness:
  "\<exists>r w'. run_one 3 (db_schedule_repo (\<lambda>i. Some 60)) demo_apply
      \<lparr>due_dep = demo_deployment, scheduled_ts = 100, next_scheduled_ts = 160\<rparr> (demo_db, ()) = (Inr r, w')
    \<and> attempt r \<le> 3"
  using run_one_attempts [of 3 "db_schedule_repo (\<lambda>i. Some 60)" demo_apply
      "\<lparr>due_dep = demo_deployment, scheduled_ts = 100, next_scheduled_ts = 160\<rparr>" "(demo_db, ())"]
  by auto

end
