(* ===== verification/CcxtApi.thy ===== *)
theory CcxtApi
  imports PyFloat
begin

text \<open>
  What the code relies on of the third-party \<^verbatim>\<open>ccxt\<close> package, whose source is not in the
  repository: the exception classes it catches, and, in the theories that use them, records of
  the calls it makes. An exception is its class and its text. \<open>OrderNotFound\<close> is an
  \<open>InvalidOrder\<close>; every constructor but \<open>CcxtOther\<close> is a \<open>BaseError\<close>; \<open>CcxtOther\<close> is an
  exception that is none of ccxt's.
\<close>

datatype ccxt_exn =
    InsufficientFunds string
  | InvalidOrder string
  | OrderNotFound string
  | AuthenticationError string
  | BadSymbol string
  | BaseError string
  | CcxtOther py_exn

definition ccxt_message :: "ccxt_exn \<Rightarrow> string" where
  "ccxt_message e =
     (case e of InsufficientFunds m \<Rightarrow> m | InvalidOrder m \<Rightarrow> m | OrderNotFound m \<Rightarrow> m
      | AuthenticationError m \<Rightarrow> m | BadSymbol m \<Rightarrow> m | BaseError m \<Rightarrow> m | CcxtOther p \<Rightarrow> [])"

text \<open>\<open>float(value)\<close> of a JSON number or a null.\<close>

definition float_none_message :: string where
  "float_none_message =
     ''float() argument must be a string or a real number, not '' @ [CHR 0x27] @ ''NoneType'' @ [CHR 0x27]"

definition py_float :: "flt option \<Rightarrow> py_exn + flt" where
  "py_float v = (case v of Some x \<Rightarrow> Inr x | None \<Rightarrow> Inl (TypeError float_none_message))"

lemma py_float_Some [simp]: "py_float (Some x) = Inr x"
  by (simp add: py_float_def)

section \<open>Numeric fields\<close>

text \<open>
  A numeric field of a ccxt structure is absent, a number, or text.
\<close>

datatype raw_num = RawNone | RawNum flt | RawText string

definition float_of :: "raw_num \<Rightarrow> py_exn + flt" where
  "float_of v =
     (case v of
        RawNone \<Rightarrow> Inl (TypeError float_none_message)
      | RawNum x \<Rightarrow> Inr x
      | RawText t \<Rightarrow>
          (case parse_float t of
             Some x \<Rightarrow> Inr x
           | None \<Rightarrow> Inl (ValueError (''could not convert string to float: '' @ py_repr t))))"

text \<open>Truth of a field, as in \<open>value or 0\<close>.\<close>

definition raw_truthy :: "raw_num \<Rightarrow> bool" where
  "raw_truthy v =
     (case v of RawNone \<Rightarrow> False | RawNum x \<Rightarrow> flt_truthy x | RawText t \<Rightarrow> t \<noteq> [])"

lemma float_of_RawNum [simp]: "float_of (RawNum x) = Inr x"
  by (simp add: float_of_def)

end
