(* ===== verification/BarFetch.thy ===== *)
theory BarFetch
  imports CcxtApi Intervals
begin

text \<open>
  \<^verbatim>\<open>quant/market_data/fetcher.py\<close>: reading OHLCV bars from an exchange, page by page.
  The exchange is a \<open>ccxt_public\<close> record of the calls made on the ccxt client, each acting on a
  world \<open>'w\<close>. A bar is stamped by its open time in microseconds; the exchange stamps rows in
  milliseconds, and the conversions go through doubles as in the code. The paging loop may run
  for ever on a period under a millisecond, so it is an option-valued partial function; for any
  longer period it is proved to return.
\<close>

section \<open>Clock conversions\<close>

text \<open>\<open>int(x.timestamp() * 1000)\<close> and \<open>int(period.total_seconds() * 1000)\<close>.\<close>

definition to_ms :: "int \<Rightarrow> int" where
  "to_ms us = py_trunc (flt_mul (fl (of_int us / 1000000)) (Fin 1000))"

text \<open>
  \<open>datetime.fromtimestamp(ms / 1000, tz=UTC)\<close>: the fraction of the double is scaled to
  microseconds and rounded half to even.
\<close>

definition from_ms :: "int \<Rightarrow> int" where
  "from_ms ms =
     (case fl (of_int ms / 1000) of
        Fin q \<Rightarrow>
          (let whole = py_trunc (Fin q)
           in case fl ((q - of_int whole) * 1000000) of
                Fin m \<Rightarrow> whole * 1000000 + round_half_even m
              | _ \<Rightarrow> 0)
      | _ \<Rightarrow> 0)"

lemma py_trunc_of_int [simp]: "py_trunc (Fin (of_int n)) = n"
  by (simp add: py_trunc_def)

lemma fl_0 [simp]: "fl 0 = Fin 0"
  by (simp add: fl_def)

text \<open>Whole seconds convert exactly, for any date a datetime can hold.\<close>

lemma to_ms_seconds:
  assumes "\<bar>n\<bar> < 2 ^ 43"
  shows "to_ms (n * us_second) = n * 1000"
proof -
  have "(of_int (n * us_second) / 1000000 :: rat) = of_int n"
    by (simp add: us_second_def)
  moreover have "fl (of_int n) = Fin (of_int n)"
    using assms by (intro fl_of_int) simp
  moreover have "fl (of_int n * 1000) = Fin (of_int (n * 1000))"
    using fl_of_int [of "n * 1000"] assms by simp
  ultimately show ?thesis
    by (simp add: to_ms_def del: of_int_mult)
qed

lemma from_ms_seconds:
  assumes "\<bar>n\<bar> < 2 ^ 53"
  shows "from_ms (n * 1000) = n * us_second"
proof -
  have eq: "(of_int (n * 1000) / 1000 :: rat) = of_int n"
    by simp
  show ?thesis
    unfolding from_ms_def eq fl_of_int [OF assms]
    using round_half_even_of_int [of 0] by (simp add: us_second_def Let_def)
qed

section \<open>The exchange\<close>

record ohlcv =
  bar_timestamp :: int
  open_px :: flt
  high_px :: flt
  low_px :: flt
  close_px :: flt
  volume :: flt

record ohlcv_row =
  row_ms :: int
  row_open :: "flt option"
  row_high :: "flt option"
  row_low :: "flt option"
  row_close :: "flt option"
  row_volume :: "flt option"

record listed_market =
  mkt_active :: bool
  mkt_type :: "string option"
  mkt_id :: "string option"
  mkt_base :: "string option"
  mkt_quote :: "string option"

record 'w ccxt_public =
  load_markets :: "('w, ccxt_exn, listed_market list) call"
  set_default_type :: "string \<Rightarrow> 'w \<Rightarrow> 'w"
  market_created :: "string \<Rightarrow> ('w, ccxt_exn, int option) call"
  fetch_ohlcv :: "string \<Rightarrow> string \<Rightarrow> int \<Rightarrow> int \<Rightarrow> ('w, ccxt_exn, ohlcv_row list) call"

datatype fetch_exn = BarFetchError string | FetchPy py_exn

definition page_limit :: int where
  "page_limit = 1000"

definition apply_default_type :: "'w ccxt_public \<Rightarrow> string option \<Rightarrow> 'w \<Rightarrow> 'w" where
  "apply_default_type ex default_type w =
     (if truthy default_type then set_default_type ex (the default_type) w else w)"

definition fetch_page ::
  "'w ccxt_public \<Rightarrow> string \<Rightarrow> string \<Rightarrow> int \<Rightarrow> int \<Rightarrow> string option \<Rightarrow> ('w, fetch_exn, ohlcv_row list) call"
  where
  "fetch_page ex symb timeframe since_ms lims default_type w =
     (case fetch_ohlcv ex symb timeframe since_ms lims (apply_default_type ex default_type w) of
        (Inr rows, w') \<Rightarrow> (Inr rows, w')
      | (Inl (BadSymbol m), w') \<Rightarrow> (Inl (BarFetchError (''unknown symbol '' @ py_repr symb @ '': '' @ m)), w')
      | (Inl (CcxtOther p), w') \<Rightarrow> (Inl (FetchPy p), w')
      | (Inl e, w') \<Rightarrow>
          (Inl (BarFetchError (''fetch_ohlcv failed for '' @ py_repr symb @ '': '' @ ccxt_message e)), w'))"

section \<open>Paging\<close>

definition row_bar :: "ohlcv_row \<Rightarrow> fetch_exn + ohlcv" where
  "row_bar r =
     (case (py_float (row_open r), py_float (row_high r), py_float (row_low r),
            py_float (row_close r), py_float (row_volume r)) of
        (Inr opn, Inr high, Inr low, Inr cls, Inr vol) \<Rightarrow>
          Inr \<lparr>bar_timestamp = from_ms (row_ms r), open_px = opn, high_px = high, low_px = low,
               close_px = cls, volume = vol\<rparr>
      | _ \<Rightarrow> Inl (FetchPy (TypeError float_none_message)))"

text \<open>The rows of one page that lie in the window, in the page's order.\<close>

fun page_bars :: "int \<Rightarrow> int \<Rightarrow> ohlcv_row list \<Rightarrow> fetch_exn + ohlcv list" where
  "page_bars cursor_ms until_ms [] = Inr []"
| "page_bars cursor_ms until_ms (r # rs) =
     (if row_ms r < cursor_ms \<or> until_ms < row_ms r then page_bars cursor_ms until_ms rs
      else bindR (row_bar r) (\<lambda>b. bindR (page_bars cursor_ms until_ms rs) (\<lambda>bs. Inr (b # bs))))"

partial_function (option) fetch_loop ::
  "'w ccxt_public \<Rightarrow> string \<Rightarrow> string \<Rightarrow> string option \<Rightarrow> int \<Rightarrow> int \<Rightarrow> int \<Rightarrow> ohlcv list \<Rightarrow> 'w
   \<Rightarrow> ((fetch_exn + ohlcv list) \<times> 'w) option" where
  "fetch_loop ex symb timeframe default_type step_ms until_ms cursor_ms bars w =
     (if until_ms < cursor_ms then Some (Inr bars, w)
      else case fetch_page ex symb timeframe cursor_ms page_limit default_type w of
             (Inl e, w') \<Rightarrow> Some (Inl e, w')
           | (Inr rows, w') \<Rightarrow>
               (if rows = [] then Some (Inr bars, w')
                else case page_bars cursor_ms until_ms rows of
                       Inl e \<Rightarrow> Some (Inl e, w')
                     | Inr new \<Rightarrow>
                         (if row_ms (last rows) < cursor_ms then Some (Inr (bars @ new), w')
                          else fetch_loop ex symb timeframe default_type step_ms until_ms
                                 (row_ms (last rows) + step_ms) (bars @ new) w')))"

definition fetch_bars ::
  "'w ccxt_public \<Rightarrow> string \<Rightarrow> int \<Rightarrow> int \<Rightarrow> int \<Rightarrow> string option \<Rightarrow> 'w
   \<Rightarrow> ((fetch_exn + ohlcv list) \<times> 'w) option" where
  "fetch_bars ex symb period since until default_type w =
     (if until < since then Some (Inr [], w)
      else case ccxt_timeframe period of
             Inl e \<Rightarrow> Some (Inl (FetchPy e), w)
           | Inr timeframe \<Rightarrow>
               fetch_loop ex symb timeframe default_type (to_ms period) (to_ms until) (to_ms since) [] w)"

section \<open>Listing time and symbols\<close>

text \<open>Any exception while asking for the listing time means it is unknown.\<close>

definition listing_ms :: "'w ccxt_public \<Rightarrow> string \<Rightarrow> string option \<Rightarrow> 'w \<Rightarrow> int option \<times> 'w" where
  "listing_ms ex symb default_type w =
     (case load_markets ex w of
        (Inl e, w') \<Rightarrow> (None, w')
      | (Inr ms, w') \<Rightarrow>
          (case market_created ex symb (apply_default_type ex default_type w') of
             (Inl e, w'') \<Rightarrow> (None, w'')
           | (Inr created, w'') \<Rightarrow> (if created = Some 0 then None else created, w'')))"

definition earliest_bar ::
  "'w ccxt_public \<Rightarrow> string \<Rightarrow> int \<Rightarrow> string option \<Rightarrow> ('w, fetch_exn, int option) call" where
  "earliest_bar ex symb period default_type w =
     (case listing_ms ex symb default_type w of
        (None, w') \<Rightarrow> (Inr None, w')
      | (Some ms, w') \<Rightarrow>
          (case ccxt_timeframe period of
             Inl e \<Rightarrow> (Inl (FetchPy e), w')
           | Inr timeframe \<Rightarrow>
               (case fetch_page ex symb timeframe ms 1 default_type w' of
                  (Inl e, w'') \<Rightarrow> (Inl e, w'')
                | (Inr [], w'') \<Rightarrow> (Inr None, w'')
                | (Inr (r # rs), w'') \<Rightarrow> (Inr (Some (from_ms (row_ms r))), w''))))"

record venue_market =
  vm_vendor_symbol :: string
  vm_base :: "string option"
  vm_quote :: "string option"
  vm_market_types :: "string list"

definition listable :: "listed_market \<Rightarrow> bool" where
  "listable m \<longleftrightarrow> mkt_active m \<and> mkt_type m \<noteq> Some ''option'' \<and> truthy (mkt_id m)"

definition group_of :: "listed_market list \<Rightarrow> string \<Rightarrow> venue_market" where
  "group_of ms raw =
     (let grp = filter (\<lambda>m. listable m \<and> mkt_id m = Some raw) ms
      in \<lparr>vm_vendor_symbol = raw, vm_base = mkt_base (hd grp), vm_quote = mkt_quote (hd grp),
          vm_market_types =
            sorted_list_of_set (set (List.map_filter
              (\<lambda>m. if truthy (mkt_type m) then mkt_type m else None) grp))\<rparr>)"

definition venue_symbols :: "string \<Rightarrow> 'w ccxt_public \<Rightarrow> ('w, fetch_exn, venue_market list) call" where
  "venue_symbols exchange_id ex w =
     (case load_markets ex w of
        (Inl (CcxtOther p), w') \<Rightarrow> (Inl (FetchPy p), w')
      | (Inl e, w') \<Rightarrow>
          (Inl (BarFetchError (''could not list markets on '' @ exchange_id @ '': '' @ ccxt_message e)), w')
      | (Inr ms, w') \<Rightarrow>
          (Inr (map (group_of ms)
             (sorted_list_of_set (set (List.map_filter (\<lambda>m. if listable m then mkt_id m else None) ms)))), w'))"

section \<open>The loop ends\<close>

text \<open>Whatever the exchange answers, each page that does not end the loop moves the cursor on.\<close>

lemma fetch_loop_returns:
  assumes "0 < step"
  shows "\<exists>r. fetch_loop ex symb tf dt step until c bars w = Some r"
proof (induction "nat (until + 1 - c)" arbitrary: c bars w rule: less_induct)
  case less
  show ?case
  proof (cases "until < c")
    case True
    then show ?thesis by (subst fetch_loop.simps) simp
  next
    case False
    obtain x w' where page: "fetch_page ex symb tf c page_limit dt w = (x, w')"
      by (meson surj_pair)
    show ?thesis
    proof (cases "\<exists>rows new. x = Inr rows \<and> rows \<noteq> [] \<and> page_bars c until rows = Inr new \<and> c \<le> row_ms (last rows)")
      case True
      then obtain rows new where rows: "x = Inr rows" "rows \<noteq> []" "page_bars c until rows = Inr new"
        "c \<le> row_ms (last rows)" by blast
      then have "nat (until + 1 - (row_ms (last rows) + step)) < nat (until + 1 - c)"
        using False assms by simp
      then obtain r where "fetch_loop ex symb tf dt step until (row_ms (last rows) + step) (bars @ new) w' = Some r"
        using less by blast
      with False page rows show ?thesis
        by (subst fetch_loop.simps) simp
    next
      case stop: False
      with False page show ?thesis
        by (subst fetch_loop.simps) (cases x; auto split: sum.splits)
    qed
  qed
qed

text \<open>Every bar comes from a row of the window.\<close>

lemma page_bars_window:
  "page_bars c until rows = Inr bs \<Longrightarrow> b \<in> set bs \<Longrightarrow>
   \<exists>r \<in> set rows. row_bar r = Inr b \<and> c \<le> row_ms r \<and> row_ms r \<le> until"
proof (induction rows arbitrary: bs)
  case (Cons r rs)
  then show ?case
    by (fastforce simp: bindR_Inr_iff split: if_splits)
qed simp

lemma row_bar_stamp: "row_bar r = Inr b \<Longrightarrow> bar_timestamp b = from_ms (row_ms r)"
  by (auto simp: row_bar_def split: sum.splits)

definition in_window :: "int \<Rightarrow> int \<Rightarrow> ohlcv \<Rightarrow> bool" where
  "in_window since_ms until_ms b \<longleftrightarrow>
     (\<exists>ms. since_ms \<le> ms \<and> ms \<le> until_ms \<and> bar_timestamp b = from_ms ms)"

lemma fetch_loop_window:
  assumes "0 < step"
  shows "fetch_loop ex symb tf dt step until c bars w = Some (Inr bs, w') \<Longrightarrow> lo \<le> c \<Longrightarrow>
    list_all (in_window lo until) bars \<Longrightarrow> list_all (in_window lo until) bs"
proof (induction "nat (until + 1 - c)" arbitrary: c bars w rule: less_induct)
  case less
  obtain x w1 where page: "fetch_page ex symb tf c page_limit dt w = (x, w1)"
    by (meson surj_pair)
  show ?case
  proof (cases "until < c \<or> (\<exists>e. x = Inl e) \<or> x = Inr []")
    case True
    with less.prems page show ?thesis
      by (subst (asm) fetch_loop.simps) (auto split: if_splits)
  next
    case False
    then obtain rows where rows: "x = Inr rows" "rows \<noteq> []" and c: "c \<le> until"
      by (cases x) auto
    with less.prems(1) page obtain new where new: "page_bars c until rows = Inr new"
      by (subst (asm) fetch_loop.simps) (auto split: sum.splits)
    have "list_all (in_window lo until) new"
      unfolding list_all_iff
    proof
      fix b assume "b \<in> set new"
      then obtain r where "row_bar r = Inr b" "c \<le> row_ms r" "row_ms r \<le> until"
        using page_bars_window [OF new] by blast
      with less.prems(2) row_bar_stamp show "in_window lo until b"
        unfolding in_window_def by (intro exI [of _ "row_ms r"]) auto
    qed
    then have all: "list_all (in_window lo until) (bars @ new)"
      using less.prems(3) by simp
    show ?thesis
    proof (cases "row_ms (last rows) < c")
      case True
      with less.prems(1) page rows new c all show ?thesis
        by (subst (asm) fetch_loop.simps) auto
    next
      case go: False
      have "fetch_loop ex symb tf dt step until (row_ms (last rows) + step) (bars @ new) w1 = Some (Inr bs, w')"
        using less.prems(1) page rows new c go by (subst (asm) fetch_loop.simps) simp
      then show ?thesis
        by (rule less.hyps [rotated]) (use go c assms less.prems(2) all in auto)
    qed
  qed
qed

section \<open>A venue that serves a series\<close>

text \<open>
  The documented answer of \<open>fetch_ohlcv\<close> to a page of the loop: the first \<open>limit\<close> rows of the series
  at or after \<open>since\<close>, oldest first. Only a positive \<open>since\<close> and the loop's own limit are meant:
  \<open>since=0\<close> is falsy, and a venue answers it with its newest page. Rows are complete and at least
  one step apart.
\<close>

definition serves :: "'w ccxt_public \<Rightarrow> string \<Rightarrow> string \<Rightarrow> ohlcv_row list \<Rightarrow> bool" where
  "serves ex symb tf series \<longleftrightarrow>
     (\<forall>since w. 0 < since \<longrightarrow> (\<exists>w'. fetch_ohlcv ex symb tf since page_limit w
        = (Inr (take (nat page_limit) (filter (\<lambda>r. since \<le> row_ms r) series)), w')))"

definition complete_row :: "ohlcv_row \<Rightarrow> bool" where
  "complete_row r \<longleftrightarrow> row_open r \<noteq> None \<and> row_high r \<noteq> None \<and> row_low r \<noteq> None
     \<and> row_close r \<noteq> None \<and> row_volume r \<noteq> None"

definition spaced :: "int \<Rightarrow> ohlcv_row list \<Rightarrow> bool" where
  "spaced step series \<longleftrightarrow>
     sorted_wrt (\<lambda>a b. row_ms a + step \<le> row_ms b) series
     \<and> list_all complete_row series"

definition bar_of_row :: "ohlcv_row \<Rightarrow> ohlcv" where
  "bar_of_row r =
     \<lparr>bar_timestamp = from_ms (row_ms r), open_px = the (row_open r), high_px = the (row_high r),
      low_px = the (row_low r), close_px = the (row_close r), volume = the (row_volume r)\<rparr>"

lemma row_bar_complete:
  "complete_row r \<Longrightarrow>
   row_bar r = Inr (bar_of_row r)"
  by (auto simp: row_bar_def bar_of_row_def complete_row_def)

lemma page_bars_complete:
  "list_all complete_row rows \<Longrightarrow>
   page_bars c until rows
   = Inr (map bar_of_row (filter (\<lambda>r. c \<le> row_ms r \<and> row_ms r \<le> until) rows))"
proof (induction rows)
  case (Cons r rows)
  then have "row_bar r = Inr (bar_of_row r)"
    by (intro row_bar_complete) auto
  with Cons show ?case by auto
qed simp

lemma sorted_wrt_after:
  assumes "sorted_wrt (\<lambda>a b. row_ms a + step \<le> row_ms b) (xs @ ys)" and "xs \<noteq> []" and "0 < step"
  shows "filter (\<lambda>r. row_ms (last xs) + step \<le> row_ms r) (xs @ ys) = ys"
proof -
  have "\<forall>r \<in> set ys. row_ms (last xs) + step \<le> row_ms r"
    using assms(1,2) by (auto simp: sorted_wrt_append)
  moreover have "\<forall>r \<in> set xs. row_ms r \<le> row_ms (last xs)"
  proof
    fix r assume "r \<in> set xs"
    moreover have "xs = butlast xs @ [last xs]" using assms(2) by simp
    moreover have "sorted_wrt (\<lambda>a b. row_ms a + step \<le> row_ms b) xs"
      using assms(1) by (simp add: sorted_wrt_append)
    ultimately show "row_ms r \<le> row_ms (last xs)"
      using assms(3) by (metis (no_types, lifting) Un_iff add_increasing2 dual_order.trans empty_iff
          le_add_same_cancel1 less_imp_le list.set(1) set_ConsD set_append sorted_wrt_append
          list.set_intros(1) order_refl)
  qed
  ultimately show ?thesis
    using assms(3) by (auto simp: filter_empty_conv)
qed

lemma fetch_loop_complete:
  assumes "serves ex symb tf series" and "spaced step series" and "0 < step" and "0 < c"
  shows "\<exists>w'. fetch_loop ex symb tf dt step until c bars w
    = Some (Inr (bars @ map bar_of_row (filter (\<lambda>r. c \<le> row_ms r \<and> row_ms r \<le> until) series)), w')"
  using assms(4)
proof (induction "nat (until + 1 - c)" arbitrary: c bars w rule: less_induct)
  case less
  define F where "F = filter (\<lambda>r. c \<le> row_ms r) series"
  let ?in = "filter (\<lambda>r. row_ms r \<le> until)"
  have F: "filter (\<lambda>r. c \<le> row_ms r \<and> row_ms r \<le> until) series = ?in F"
    unfolding F_def by (rule filter_conj)
  obtain w1 where "fetch_ohlcv ex symb tf c page_limit (apply_default_type ex dt w)
      = (Inr (take (nat page_limit) F), w1)"
    using assms(1) less.prems unfolding serves_def F_def by blast
  then have page: "fetch_page ex symb tf c page_limit dt w = (Inr (take 1000 F), w1)"
    by (simp add: fetch_page_def page_limit_def)
  show ?case
  proof (cases "until < c \<or> F = []")
    case True
    then have "?in F = []"
      by (auto simp: F_def filter_empty_conv)
    with True page show ?thesis
      unfolding F by (subst fetch_loop.simps) auto
  next
    case False
    let ?pg = "take 1000 F" and ?rest = "drop 1000 F"
    have ne: "?pg \<noteq> []" using False by simp
    have srt: "sorted_wrt (\<lambda>a b. row_ms a + step \<le> row_ms b) (?pg @ ?rest)"
      using assms(2) by (simp add: spaced_def F_def sorted_wrt_filter)
    have full: "list_all complete_row ?pg"
      using assms(2) by (auto simp: spaced_def F_def list_all_iff dest!: in_set_takeD)
    have ge: "\<forall>r \<in> set F. c \<le> row_ms r" by (auto simp: F_def)
    then have pgc: "filter (\<lambda>r. c \<le> row_ms r \<and> row_ms r \<le> until) ?pg = ?in ?pg"
      by (intro filter_cong) (auto dest: in_set_takeD)
    have pb: "page_bars c until ?pg = Inr (map bar_of_row (?in ?pg))"
      using page_bars_complete [OF full, of c until] unfolding pgc .
    let ?n = "row_ms (last ?pg)"
    have cn: "c \<le> ?n" using ge ne last_in_set [OF ne] in_set_takeD by metis
    have "filter (\<lambda>r. ?n + step \<le> row_ms r) series = filter (\<lambda>r. ?n + step \<le> row_ms r) F"
      using cn assms(3) by (auto simp: F_def intro!: filter_cong)
    also have "\<dots> = ?rest"
      using sorted_wrt_after [OF srt ne assms(3)] by simp
    finally have next_rows: "filter (\<lambda>r. ?n + step \<le> row_ms r \<and> row_ms r \<le> until) series = ?in ?rest"
      unfolding filter_conj by (rule arg_cong)
    obtain w2 where "fetch_loop ex symb tf dt step until (?n + step) (bars @ map bar_of_row (?in ?pg)) w1
      = Some (Inr ((bars @ map bar_of_row (?in ?pg)) @ map bar_of_row (?in ?rest)), w2)"
      using less(1) [of "?n + step" "bars @ map bar_of_row (?in ?pg)" w1] cn assms(3) False less.prems
      unfolding next_rows by auto
    moreover have "?in ?pg @ ?in ?rest = ?in F"
      by (metis append_take_drop_id filter_append)
    then have "(bars @ map bar_of_row (?in ?pg)) @ map bar_of_row (?in ?rest) = bars @ map bar_of_row (?in F)"
      by (metis append_assoc map_append)
    moreover have "fetch_loop ex symb tf dt step until c bars w
        = fetch_loop ex symb tf dt step until (?n + step) (bars @ map bar_of_row (?in ?pg)) w1"
      using False page pb cn ne
      by (subst fetch_loop.simps) (simp del: take_eq_Nil)
    ultimately show ?thesis
      unfolding F by auto
  qed
qed

section \<open>Properties\<close>

text \<open>Whatever the exchange answers, page after page, the paging loop of \<open>fetch_bars\<close> ends
  for a period of whole seconds, and every bar it returns is stamped inside the requested
  window, so a bar that is still forming is never among them.\<close>

theorem fetch_bars_returns:
  assumes "period = n * us_second" and "0 < n" and "n < 2 ^ 43"
  shows "\<exists>r w'. fetch_bars ex symb period since until dt w = Some (r, w')
    \<and> (\<forall>bs. r = Inr bs \<longrightarrow> list_all (in_window (to_ms since) (to_ms until)) bs)"
proof -
  have step: "0 < to_ms period"
    using assms by (simp add: to_ms_seconds)
  show ?thesis
  proof (cases "until < since \<or> (\<exists>e. ccxt_timeframe period = Inl e)")
    case True
    then show ?thesis by (auto simp: fetch_bars_def)
  next
    case False
    then obtain tf where tf: "ccxt_timeframe period = Inr tf" by (cases "ccxt_timeframe period") auto
    obtain r w' where "fetch_loop ex symb tf dt (to_ms period) (to_ms until) (to_ms since) [] w = Some (r, w')"
      using fetch_loop_returns [OF step] by (metis surj_pair)
    moreover from this have "list_all (in_window (to_ms since) (to_ms until)) bs" if "r = Inr bs" for bs
      using that fetch_loop_window [OF step, of ex symb tf dt "to_ms until" "to_ms since" "[]" w bs w' "to_ms since"]
      by simp
    ultimately show ?thesis using False tf by (simp add: fetch_bars_def)
  qed
qed

text \<open>A venue with three daily candles, answering as documented.\<close>

definition demo_row :: "int \<Rightarrow> ohlcv_row" where
  "demo_row ms = \<lparr>row_ms = ms, row_open = Some (Fin 1), row_high = Some (Fin 2), row_low = Some (Fin 1),
     row_close = Some (Fin 2), row_volume = Some (Fin 10)\<rparr>"

definition demo_series :: "ohlcv_row list" where
  "demo_series = map demo_row [86400000, 172800000, 259200000]"

definition demo_venue :: "unit ccxt_public" where
  "demo_venue =
     \<lparr>load_markets = (\<lambda>w. (Inr [], w)), set_default_type = (\<lambda>t w. w),
      market_created = (\<lambda>symb w. (Inr (Some 86400000), w)),
      fetch_ohlcv = (\<lambda>symb tf since lims w.
        (Inr (take (nat lims) (filter (\<lambda>r. since \<le> row_ms r) demo_series)), w))\<rparr>"

theorem fetch_bars_returns_witness:
  "\<exists>r w'. fetch_bars demo_venue ''BTCUSDT'' us_day (1 * us_day) (2 * us_day) None () = Some (r, w')"
  using fetch_bars_returns [of us_day 86400 demo_venue "''BTCUSDT''" "1 * us_day" "2 * us_day" None "()"]
  by (auto simp: us_defs)

text \<open>C38: Against a venue that serves a series as documented, pages of at most a thousand rows
  lose nothing and repeat nothing. For a period of whole seconds and two instants of whole seconds
  after 1970, and a venue that answers every page request with a positive \<open>since\<close> by the first
  thousand rows of its series from there, rows being complete and at least a period apart,
  \<open>fetch_bars\<close> returns exactly the venue's bars between the two instants, oldest first, however
  many pages that takes.\<close>

theorem fetch_bars_complete:
  assumes "0 < n" and "n < 2 ^ 43" and "0 < a" and "a \<le> b" and "b < 2 ^ 43"
    and "ccxt_timeframe (n * us_second) = Inr tf"
    and "\<forall>since u. 0 < since \<longrightarrow> (\<exists>u'. fetch_ohlcv ex symb tf since 1000 u
        = (Inr (take 1000 (filter (\<lambda>r. since \<le> row_ms r) series)), u'))"
    and "spaced (n * 1000) series"
  shows "\<exists>w'. fetch_bars ex symb (n * us_second) (a * us_second) (b * us_second) dt w
    = Some (Inr (map bar_of_row (filter (\<lambda>r. a * 1000 \<le> row_ms r \<and> row_ms r \<le> b * 1000) series)), w')"
proof -
  have ms: "to_ms (n * us_second) = n * 1000" "to_ms (a * us_second) = a * 1000" "to_ms (b * us_second) = b * 1000"
    using assms(1-5) by (simp_all add: to_ms_seconds)
  have srv: "serves ex symb tf series" using assms(7) by (simp add: serves_def page_limit_def)
  have "\<not> b * us_second < a * us_second"
    using assms(4) by (simp add: us_second_def)
  then show ?thesis
    using fetch_loop_complete [OF srv assms(8), of "a * 1000" dt "b * 1000" "[]" w] assms(1,3,6)
    unfolding fetch_bars_def ms by simp
qed

theorem fetch_bars_complete_witness:
  "\<exists>w'. fetch_bars demo_venue ''BTCUSDT'' (86400 * us_second) (86400 * us_second) (172800 * us_second) None ()
    = Some (Inr (map bar_of_row (map demo_row [86400000, 172800000])), w')"
proof -
  have tf: "ccxt_timeframe (86400 * us_second) = Inr ''1d''" by code_simp
  have srv: "\<forall>since u. 0 < since \<longrightarrow> (\<exists>u'. fetch_ohlcv demo_venue ''BTCUSDT'' ''1d'' since 1000 u
      = (Inr (take 1000 (filter (\<lambda>r. since \<le> row_ms r) demo_series)), u'))"
    by (simp add: demo_venue_def)
  have spc: "spaced (86400 * 1000) demo_series"
    by (simp add: spaced_def demo_series_def demo_row_def complete_row_def)
  from fetch_bars_complete [of 86400 86400 172800, OF _ _ _ _ _ tf srv spc, of None "()"]
  show ?thesis by (simp add: demo_series_def demo_row_def)
qed

end
