(* ===== verification/PriceBars.thy ===== *)
theory PriceBars
  imports BarFetch "HOL-Library.AList"
begin

text \<open>
  \<^verbatim>\<open>quant/market_data/service.py\<close> and \<^verbatim>\<open>repo.py\<close>: keeping \<open>MARKET_DATA.PRICE_BAR\<close>
  current. The service is a record of the calls it makes (the repository, the REFDATA period of
  an interval, the vendor symbol of an instrument, the fetcher, the clock), each acting on a
  world \<open>'w\<close>. The stored procedures are functions on the table of bars; other workers' inserts
  and the database's failures are inputs of the table's state, so every interleaving of
  concurrent inserts with the calls of one service is a run of the model.

  Instants are microseconds since the epoch. A price is a double: a double stored as
  \<open>DECIMAL\<close> and read back with \<open>float\<close> is the same double. Messages are kept as the values they
  interpolate. A pandas frame is its rows in index order.
\<close>

text \<open>The primary key of a series: instrument, interval and source venue.\<close>

datatype series_key = Series (key_cusip: string) (key_interval: int) (key_app: int)

datatype stale_cause =
    NoMapping string int
  | Incomplete string nat int int
  | NoForming int string
  | TooShort nat int string int int

datatype mkt_exn =
    StaleBarsError stale_cause
  | BackfillTooLargeError int int int int
  | FetchFailed fetch_exn
  | ProcedureError string string
  | MktPy py_exn

record 'w bar_service =
  get_coverage :: "series_key \<Rightarrow> ('w, mkt_exn, (int \<times> int) option) call"
  get_bars :: "series_key \<Rightarrow> int \<Rightarrow> int \<Rightarrow> ('w, mkt_exn, ohlcv list) call"
  ins_bar :: "series_key \<Rightarrow> ohlcv \<Rightarrow> ('w, mkt_exn, unit) call"
  interval_period :: "int \<Rightarrow> mkt_exn + int"
  resolve_internal_cusip :: "string \<Rightarrow> int \<Rightarrow> string option"
  default_type_for :: "string \<Rightarrow> mkt_exn + string option"
  fetch :: "string \<Rightarrow> int \<Rightarrow> int \<Rightarrow> int \<Rightarrow> string option \<Rightarrow> ('w, mkt_exn, ohlcv list) call"
  fetch_earliest :: "string \<Rightarrow> int \<Rightarrow> string option \<Rightarrow> ('w, mkt_exn, int option) call"
  utc_now :: "'w \<Rightarrow> int \<times> 'w"

definition liftR :: "'e + 'a \<Rightarrow> ('w, 'e, 'a) call" where
  "liftR r = (\<lambda>w. (r, w))"

lemma liftR_apply [simp]: "liftR r w = (r, w)"
  by (simp add: liftR_def)

text \<open>\<open>now or datetime.now(UTC)\<close>; a datetime is never false.\<close>

definition now_or :: "'w bar_service \<Rightarrow> int option \<Rightarrow> ('w, mkt_exn, int) call" where
  "now_or svc now w =
     (case now of Some t \<Rightarrow> (Inr t, w) | None \<Rightarrow> (case utc_now svc w of (t, w') \<Rightarrow> (Inr t, w')))"

definition unique_violation :: string where
  "unique_violation = ''23505''"

definition max_backfill_bars :: int where
  "max_backfill_bars = 10000"

section \<open>Gaps and fetches\<close>

definition find_gaps ::
  "'w bar_service \<Rightarrow> series_key \<Rightarrow> int \<Rightarrow> int \<Rightarrow> ('w, mkt_exn, int list) call" where
  "find_gaps svc key start end_us =
     bindC (liftR (interval_period svc (key_interval key))) (\<lambda>period.
     bindC (get_bars svc key start end_us) (\<lambda>rows.
       returnC (filter (\<lambda>ts. ts \<notin> bar_timestamp ` set rows) (bar_starts start end_us period))))"

definition vendor_symbol :: "'w bar_service \<Rightarrow> string \<Rightarrow> int \<Rightarrow> mkt_exn + string" where
  "vendor_symbol svc cusip app =
     (case resolve_internal_cusip svc cusip app of
        Some s \<Rightarrow> Inr s
      | None \<Rightarrow> Inl (StaleBarsError (NoMapping cusip app)))"

text \<open>The dict built from the fetched bars: of two bars with one stamp the later one stays.\<close>

definition bar_at :: "ohlcv list \<Rightarrow> int \<Rightarrow> ohlcv option" where
  "bar_at bars ts = find (\<lambda>b. bar_timestamp b = ts) (rev bars)"

definition fetch_dict ::
  "'w bar_service \<Rightarrow> series_key \<Rightarrow> int \<Rightarrow> int \<Rightarrow> int \<Rightarrow> ('w, mkt_exn, ohlcv list) call" where
  "fetch_dict svc key period since until =
     bindC (liftR (vendor_symbol svc (key_cusip key) (key_app key))) (\<lambda>symb.
     bindC (liftR (default_type_for svc (key_cusip key))) (\<lambda>dt.
       fetch svc symb period since until dt))"

definition unfilled_of :: "int list \<Rightarrow> ohlcv list \<Rightarrow> int list" where
  "unfilled_of missing fetched = filter (\<lambda>ts. bar_at fetched ts = None) missing"

definition earliest_of :: "ohlcv list \<Rightarrow> int option" where
  "earliest_of bars = (if bars = [] then None else Some (Min (set (map bar_timestamp bars))))"

definition reject_incomplete :: "string \<Rightarrow> int list \<Rightarrow> ohlcv list \<Rightarrow> int \<Rightarrow> mkt_exn + unit" where
  "reject_incomplete cusip missing fetched newest =
     (let unfilled = unfilled_of missing fetched
      in if unfilled = [] then Inr ()
         else let holes = (case earliest_of fetched of
                             None \<Rightarrow> []
                           | Some e \<Rightarrow> filter (\<lambda>ts. e < ts) unfilled)
              in if holes \<noteq> [] \<or> newest \<in> set unfilled then
                   Inl (StaleBarsError (Incomplete cusip (length unfilled) (hd unfilled) newest))
                 else Inr ())"

definition is_unique_violation :: "mkt_exn \<Rightarrow> bool" where
  "is_unique_violation e = (case e of ProcedureError sqlstate m \<Rightarrow> sqlstate = unique_violation | _ \<Rightarrow> False)"

lemma is_unique_violation_iff: "is_unique_violation e \<longleftrightarrow> (\<exists>m. e = ProcedureError unique_violation m)"
  by (auto simp: is_unique_violation_def split: mkt_exn.splits)

definition insert_bar :: "'w bar_service \<Rightarrow> series_key \<Rightarrow> ohlcv \<Rightarrow> ('w, mkt_exn, bool) call" where
  "insert_bar svc key bar w =
     (case ins_bar svc key bar w of
        (Inr u, w') \<Rightarrow> (Inr True, w')
      | (Inl e, w') \<Rightarrow>
          (if is_unique_violation e then (Inr False, w') else (Inl e, w')))"

fun store_bars ::
  "'w bar_service \<Rightarrow> series_key \<Rightarrow> ohlcv list \<Rightarrow> int list \<Rightarrow> nat \<Rightarrow> ('w, mkt_exn, nat) call" where
  "store_bars svc key fetched [] n = returnC n"
| "store_bars svc key fetched (ts # tss) n =
     (case bar_at fetched ts of
        None \<Rightarrow> store_bars svc key fetched tss n
      | Some bar \<Rightarrow>
          bindC (insert_bar svc key bar) (\<lambda>ok.
            store_bars svc key fetched tss (if ok then Suc n else n)))"

section \<open>Population\<close>

definition ensure_fresh ::
  "'w bar_service \<Rightarrow> series_key \<Rightarrow> int \<Rightarrow> int option \<Rightarrow> ('w, mkt_exn, nat) call" where
  "ensure_fresh svc key lookback now =
     (if lookback < 1 then raiseC (MktPy (ValueError ''lookback must be at least 1''))
      else
        bindC (liftR (interval_period svc (key_interval key))) (\<lambda>period.
        bindC (now_or svc now) (\<lambda>now.
          let newest = last_closed_bar now period;
              window_start = newest - period * (lookback - 1)
          in bindC (get_coverage svc key) (\<lambda>coverage.
               if (case coverage of None \<Rightarrow> False | Some (mn, mx) \<Rightarrow> newest \<le> mx) then returnC 0
               else
                 bindC (find_gaps svc key window_start newest) (\<lambda>missing.
                   if missing = [] then returnC 0
                   else
                     bindC (fetch_dict svc key period (hd missing) newest) (\<lambda>fetched.
                     bindC (liftR (reject_incomplete (key_cusip key) missing fetched newest)) (\<lambda>_.
                       store_bars svc key fetched missing 0)))))))"

record sync_result =
  instruments :: nat
  inserted :: nat
  failures :: "(string \<times> mkt_exn) list"

text \<open>The batch warm-up; the last failure of an instrument is the one kept in the dict.\<close>

fun sync_loop ::
  "'w bar_service \<Rightarrow> int \<Rightarrow> int \<Rightarrow> int option \<Rightarrow> (string \<times> int) list \<Rightarrow> (string \<times> int) list
   \<Rightarrow> nat \<Rightarrow> (string \<times> mkt_exn) list \<Rightarrow> 'w \<Rightarrow> sync_result \<times> 'w" where
  "sync_loop svc iv lookback now [] seen n fails w =
     (\<lparr>instruments = length seen, inserted = n, failures = fails\<rparr>, w)"
| "sync_loop svc iv lookback now ((cusip, app) # rest) seen n fails w =
     (if (cusip, app) \<in> set seen then sync_loop svc iv lookback now rest seen n fails w
      else case ensure_fresh svc (Series cusip iv app) lookback now w of
             (Inr k, w') \<Rightarrow> sync_loop svc iv lookback now rest ((cusip, app) # seen) (n + k) fails w'
           | (Inl e, w') \<Rightarrow>
               sync_loop svc iv lookback now rest ((cusip, app) # seen) n (AList.update cusip e fails) w')"

definition sync ::
  "'w bar_service \<Rightarrow> (string \<times> int) list \<Rightarrow> int \<Rightarrow> int \<Rightarrow> int option \<Rightarrow> 'w \<Rightarrow> sync_result \<times> 'w" where
  "sync svc pairs iv lookback now w = sync_loop svc iv lookback now pairs [] 0 [] w"

record backfill_result =
  bf_start :: int
  bf_end :: int
  expected :: nat
  missing :: nat
  bf_inserted :: nat
  unfilled :: "int list"

definition is_continuous :: "backfill_result \<Rightarrow> bool" where
  "is_continuous r = (unfilled r = [])"

definition oldest_unfilled :: "backfill_result \<Rightarrow> int option" where
  "oldest_unfilled r = (if unfilled r = [] then None else Some (hd (unfilled r)))"

definition end_or_closed ::
  "'w bar_service \<Rightarrow> datetime option \<Rightarrow> int option \<Rightarrow> int \<Rightarrow> ('w, mkt_exn, int) call" where
  "end_or_closed svc end_ts now period =
     (case end_ts of
        Some e \<Rightarrow> returnC (as_utc e)
      | None \<Rightarrow> bindC (now_or svc now) (\<lambda>now. returnC (last_closed_bar now period)))"

text \<open>\<open>int((end - start) / period) + 1\<close>: a float quotient, truncated.\<close>

definition span_of :: "int \<Rightarrow> int \<Rightarrow> int \<Rightarrow> int" where
  "span_of start end_us period = int_truediv (end_us - start) period + 1"

definition backfill ::
  "'w bar_service \<Rightarrow> series_key \<Rightarrow> datetime \<Rightarrow> datetime option \<Rightarrow> int option
   \<Rightarrow> ('w, mkt_exn, backfill_result) call" where
  "backfill svc key start_ts end_ts now =
     bindC (liftR (interval_period svc (key_interval key))) (\<lambda>period.
     bindC (end_or_closed svc end_ts now period) (\<lambda>end_us.
       let start = as_utc start_ts in
       if end_us < start then raiseC (MktPy (ValueError ''start is after end''))
       else if max_backfill_bars < span_of start end_us period then
         raiseC (BackfillTooLargeError start end_us (span_of start end_us period)
                   (start + period * (max_backfill_bars - 1)))
       else
         bindC (find_gaps svc key start end_us) (\<lambda>gaps.
           let n = length (bar_starts start end_us period) in
           if gaps = [] then
             returnC \<lparr>bf_start = start, bf_end = end_us, expected = n, missing = 0,
                      bf_inserted = 0, unfilled = []\<rparr>
           else
             bindC (fetch_dict svc key period (hd gaps) end_us) (\<lambda>fetched.
             bindC (store_bars svc key fetched gaps 0) (\<lambda>ins.
               returnC \<lparr>bf_start = start, bf_end = end_us, expected = n, missing = length gaps,
                        bf_inserted = ins, unfilled = unfilled_of gaps fetched\<rparr>)))))"

record backfill_plan =
  plan_start :: "int option"
  plan_end :: "int option"
  plan_bars :: int
  passes_remaining :: int
  plan_target :: int

definition nothing_to_do :: "int \<Rightarrow> backfill_plan" where
  "nothing_to_do target =
     \<lparr>plan_start = None, plan_end = None, plan_bars = 0, passes_remaining = 0, plan_target = target\<rparr>"

definition stored_bounds :: "'w bar_service \<Rightarrow> series_key \<Rightarrow> ('w, mkt_exn, (int \<times> int) option) call" where
  "stored_bounds svc key = get_coverage svc key"

text \<open>The arithmetic of the next pass, given the newest bar it may reach.\<close>

definition plan_pass :: "int \<Rightarrow> int \<Rightarrow> int \<Rightarrow> backfill_plan" where
  "plan_pass period target end_us =
     (let start = max target (end_us - period * (max_backfill_bars - 1));
          outstanding = span_of target end_us period
      in \<lparr>plan_start = Some start, plan_end = Some end_us,
          plan_bars = span_of start end_us period,
          passes_remaining = - (- outstanding div max_backfill_bars), plan_target = target\<rparr>)"

definition plan_backfill ::
  "'w bar_service \<Rightarrow> series_key \<Rightarrow> datetime \<Rightarrow> int option \<Rightarrow> ('w, mkt_exn, backfill_plan) call" where
  "plan_backfill svc key target_ts now =
     bindC (liftR (interval_period svc (key_interval key))) (\<lambda>period.
     bindC (now_or svc now) (\<lambda>now.
       let target = as_utc target_ts; last_closed = last_closed_bar now period in
       if last_closed < target then returnC (nothing_to_do target)
       else bindC (stored_bounds svc key) (\<lambda>bounds.
              case bounds of
                None \<Rightarrow> returnC (plan_pass period target last_closed)
              | Some (first_bar, _) \<Rightarrow>
                  (if first_bar \<le> target then returnC (nothing_to_do target)
                   else returnC (plan_pass period target (first_bar - period))))))"

definition venue_depth ::
  "'w bar_service \<Rightarrow> series_key \<Rightarrow> int option \<Rightarrow> ('w, mkt_exn, int option \<times> int option) call" where
  "venue_depth svc key now =
     bindC (liftR (interval_period svc (key_interval key))) (\<lambda>period.
     bindC (liftR (vendor_symbol svc (key_cusip key) (key_app key))) (\<lambda>symb.
     bindC (liftR (default_type_for svc (key_cusip key))) (\<lambda>dt.
     bindC (fetch_earliest svc symb period dt) (\<lambda>earliest.
       case earliest of
         None \<Rightarrow> returnC (None, None)
       | Some e \<Rightarrow>
           bindC (now_or svc now) (\<lambda>now. returnC (Some e, Some (int_truediv (now - e) period + 1)))))))"

section \<open>Reads\<close>

record frame_row =
  idx :: int
  price :: flt
  factor :: flt
  Open :: flt
  High :: flt
  Low :: flt
  Close :: flt
  Volume :: flt

definition frame_row_of :: "ohlcv \<Rightarrow> frame_row" where
  "frame_row_of b =
     \<lparr>idx = bar_timestamp b, price = close_px b, factor = close_px b, Open = open_px b,
      High = high_px b, Low = low_px b, Close = close_px b, Volume = volume b\<rparr>"

definition ohlcv_frame :: "ohlcv list \<Rightarrow> frame_row list" where
  "ohlcv_frame bars = sort_key idx (map frame_row_of bars)"

definition read_bars ::
  "'w bar_service \<Rightarrow> series_key \<Rightarrow> int \<Rightarrow> int \<Rightarrow> ('w, mkt_exn, frame_row list) call" where
  "read_bars svc key start end_us =
     bindC (get_bars svc key start end_us) (\<lambda>rows. returnC (ohlcv_frame rows))"

definition append_forming ::
  "'w bar_service \<Rightarrow> series_key \<Rightarrow> int \<Rightarrow> int \<Rightarrow> frame_row list \<Rightarrow> ('w, mkt_exn, frame_row list) call" where
  "append_forming svc key period forming_open bars =
     bindC (fetch_dict svc key period forming_open forming_open) (\<lambda>fetched.
       case bar_at fetched forming_open of
         None \<Rightarrow> raiseC (StaleBarsError (NoForming forming_open (key_cusip key)))
       | Some bar \<Rightarrow>
           (let frame = ohlcv_frame [bar]
            in returnC (if bars = [] then frame else sort_key idx (bars @ frame))))"

text \<open>\<open>math.ceil(lookback * 0.8)\<close>, in doubles.\<close>

definition required_bars :: "int \<Rightarrow> int" where
  "required_bars lookback =
     (case flt_mul (fl (of_int lookback)) (fl (4 / 5)) of Fin q \<Rightarrow> \<lceil>q\<rceil> | _ \<Rightarrow> 0)"

definition load_window ::
  "'w bar_service \<Rightarrow> string \<Rightarrow> int \<Rightarrow> int \<Rightarrow> int \<Rightarrow> int option \<Rightarrow> bool
   \<Rightarrow> ('w, mkt_exn, frame_row list) call" where
  "load_window svc cusip lookback iv app now include_forming =
     (let key = Series cusip iv app in
      bindC (ensure_fresh svc key lookback now) (\<lambda>_.
      bindC (liftR (interval_period svc iv)) (\<lambda>period.
      bindC (now_or svc now) (\<lambda>moment.
        let newest = last_closed_bar moment period;
            n_closed = (if include_forming then lookback - 1 else lookback)
        in bindC (if 1 \<le> n_closed
                  then read_bars svc key (newest - period * (n_closed - 1)) newest
                  else returnC []) (\<lambda>bars.
           bindC (if include_forming
                  then append_forming svc key period (floor_us moment period) bars
                  else returnC bars) (\<lambda>bars.
             let required = required_bars lookback
             in if int (length bars) < required
                then raiseC (StaleBarsError (TooShort (length bars) lookback cusip iv required))
                else returnC bars))))))"

section \<open>What the service needs of its calls\<close>

text \<open>
  \<open>stored w key\<close> is the series the world \<open>w\<close> holds for a key, by open time. Every call may let
  other workers run, so a series may grow under it, but a stored bar is never changed.
\<close>

definition grows ::
  "('w \<Rightarrow> series_key \<Rightarrow> int \<Rightarrow> ohlcv option) \<Rightarrow> 'w \<Rightarrow> 'w \<Rightarrow> bool" where
  "grows st w w' \<longleftrightarrow> (\<forall>key. st w key \<subseteq>\<^sub>m st w' key)"

lemma grows_refl [simp]: "grows st w w"
  by (simp add: grows_def)

lemma grows_trans [trans]: "grows st w w' \<Longrightarrow> grows st w' w'' \<Longrightarrow> grows st w w''"
  unfolding grows_def by (meson map_le_trans)

lemma grows_keeps: "grows st w w' \<Longrightarrow> st w key ts = Some b \<Longrightarrow> st w' key ts = Some b"
  unfolding grows_def map_le_def by (metis domI)

lemma grows_stored: "grows st w w' \<Longrightarrow> st w key ts \<noteq> None \<Longrightarrow> st w' key ts \<noteq> None"
  using grows_keeps by fastforce

locale bar_store =
  fixes svc :: "'w bar_service"
    and good :: "'w \<Rightarrow> bool"
    and stored :: "'w \<Rightarrow> series_key \<Rightarrow> int \<Rightarrow> ohlcv option"
  assumes period_pos: "interval_period svc iv = Inr p \<Longrightarrow> 0 < p"
    and coverage_frame: "good w \<Longrightarrow> get_coverage svc key w = (c, w') \<Longrightarrow> good w' \<and> grows stored w w'"
    and coverage_some: "good w \<Longrightarrow> get_coverage svc key w = (Inr (Some (mn, mx)), w') \<Longrightarrow>
      stored w' key mn \<noteq> None \<and> stored w' key mx \<noteq> None
      \<and> (\<forall>ts. stored w' key ts \<noteq> None \<longrightarrow> mn \<le> ts \<and> ts \<le> mx)"
    and coverage_none: "good w \<Longrightarrow> get_coverage svc key w = (Inr None, w') \<Longrightarrow> stored w' key = Map.empty"
    and bars_frame: "good w \<Longrightarrow> get_bars svc key s e w = (x, w') \<Longrightarrow> good w' \<and> grows stored w w'"
    and bars_rows: "good w \<Longrightarrow> get_bars svc key s e w = (Inr rows, w') \<Longrightarrow>
      (\<forall>b. b \<in> set rows \<longleftrightarrow> stored w' key (bar_timestamp b) = Some b \<and> s \<le> bar_timestamp b \<and> bar_timestamp b \<le> e)
      \<and> distinct (map bar_timestamp rows)"
    and bars_stamps: "good w \<Longrightarrow> stored w key ts = Some b \<Longrightarrow> bar_timestamp b = ts"
    and ins_frame: "good w \<Longrightarrow> ins_bar svc key b w = (i, w') \<Longrightarrow> good w' \<and> grows stored w w'"
    and ins_stores: "good w \<Longrightarrow> ins_bar svc key b w = (Inr u, w') \<Longrightarrow>
      stored w key (bar_timestamp b) = None \<and> stored w' key (bar_timestamp b) = Some b"
    and ins_conflict: "good w \<Longrightarrow> ins_bar svc key b w = (Inl (ProcedureError unique_violation m), w') \<Longrightarrow>
      stored w' key (bar_timestamp b) \<noteq> None"
    and fetch_frame: "good w \<Longrightarrow> fetch svc symb p s e dt w = (x, w') \<Longrightarrow> good w' \<and> grows stored w w'"
    and now_frame: "good w \<Longrightarrow> utc_now svc w = (t, w') \<Longrightarrow> good w' \<and> grows stored w w'"
begin

definition steps :: "'w \<Rightarrow> 'w \<Rightarrow> bool" where
  "steps w w' \<longleftrightarrow> good w' \<and> grows stored w w'"

lemma steps_trans: "steps w w' \<Longrightarrow> steps w' w'' \<Longrightarrow> steps w w''"
  unfolding steps_def by (auto intro: grows_trans)

lemma steps_refl: "good w \<Longrightarrow> steps w w"
  by (simp add: steps_def)

lemma steps_good: "steps w w' \<Longrightarrow> good w'"
  by (simp add: steps_def)

text \<open>A call keeps to the frame when every one of its runs does; frames compose.\<close>

definition framed :: "('w, 'e, 'a) call \<Rightarrow> bool" where
  "framed c \<longleftrightarrow> (\<forall>w x w'. good w \<longrightarrow> c w = (x, w') \<longrightarrow> steps w w')"

lemma framedD: "framed c \<Longrightarrow> good w \<Longrightarrow> c w = (x, w') \<Longrightarrow> steps w w'"
  by (auto simp: framed_def)

lemma framed_return [intro, simp]: "framed (returnC x)"
  by (simp add: framed_def steps_refl)

lemma framed_raise [intro, simp]: "framed (raiseC e)"
  by (simp add: framed_def steps_refl)

lemma framed_lift [intro, simp]: "framed (liftR r)"
  by (simp add: framed_def steps_refl)

lemma framed_bind [intro]:
  assumes "framed m" and "\<And>x. framed (f x)"
  shows "framed (bindC m f)"
  unfolding framed_def
proof (intro allI impI)
  fix w x w'
  assume good: "good w" and run: "bindC m f w = (x, w')"
  obtain y w1 where one: "m w = (y, w1)" by (meson surj_pair)
  note s1 = framedD [OF assms(1) good one]
  show "steps w w'"
  proof (cases y)
    case (Inl e)
    with run one s1 show ?thesis by (simp add: bindC_def)
  next
    case (Inr z)
    with run one have "f z w1 = (x, w')" by (simp add: bindC_def)
    from s1 framedD [OF assms(2) steps_good [OF s1] this] show ?thesis by (rule steps_trans)
  qed
qed

lemma framed_if: "framed a \<Longrightarrow> framed b \<Longrightarrow> framed (if c then a else b)"
  by simp

lemma framed_option: "framed a \<Longrightarrow> (\<And>y. framed (f y)) \<Longrightarrow> framed (case z of None \<Rightarrow> a | Some y \<Rightarrow> f y)"
  by (simp split: option.split)

lemma framed_coverage [intro]: "framed (get_coverage svc key)"
  using coverage_frame by (auto simp: framed_def steps_def)

lemma framed_bars [intro]: "framed (get_bars svc key s e)"
  using bars_frame by (auto simp: framed_def steps_def)

lemma framed_fetch [intro]: "framed (fetch svc symb p s u dt)"
  using fetch_frame by (auto simp: framed_def steps_def)

lemma framed_now [intro]: "framed (now_or svc now)"
  unfolding framed_def now_or_def
  using now_frame by (auto simp: steps_def split: option.splits prod.splits)

lemma framed_insert [intro]: "framed (insert_bar svc key b)"
  unfolding framed_def insert_bar_def
  using ins_frame by (auto simp: steps_def split: prod.splits sum.splits if_splits)

lemma framed_store [intro]: "framed (store_bars svc key fetched tss n)"
  by (induction tss arbitrary: n) (auto split: option.splits)

lemmas framed_intros =
  framed_bind framed_if framed_option framed_return framed_raise framed_lift framed_coverage framed_bars
  framed_fetch framed_now framed_insert framed_store

lemma framed_gaps: "framed (find_gaps svc key s e)"
  unfolding find_gaps_def by (intro framed_intros)

lemma framed_dict: "framed (fetch_dict svc key p s u)"
  unfolding fetch_dict_def by (intro framed_intros)

lemma framed_ensure_fresh: "framed (ensure_fresh svc key lookback now)"
  unfolding ensure_fresh_def Let_def by (intro framed_intros framed_gaps framed_dict)

lemma framed_backfill: "framed (backfill svc key s e now)"
  unfolding backfill_def end_or_closed_def Let_def by (intro framed_intros framed_gaps framed_dict)

text \<open>What a gap check, a store and the freshness gate leave behind.\<close>

lemma find_gaps_result:
  assumes "good w" and "find_gaps svc key s e w = (Inr gaps, w')"
  shows "\<exists>p. interval_period svc (key_interval key) = Inr p
    \<and> gaps = filter (\<lambda>ts. stored w' key ts = None) (bar_starts s e p)"
proof -
  obtain p rows where p: "interval_period svc (key_interval key) = Inr p"
    and rows: "get_bars svc key s e w = (Inr rows, w')"
    and gaps: "gaps = filter (\<lambda>ts. ts \<notin> bar_timestamp ` set rows) (bar_starts s e p)"
    using assms(2) by (auto simp: find_gaps_def bindC_Inr_iff)
  have r: "b \<in> set rows \<longleftrightarrow> stored w' key (bar_timestamp b) = Some b \<and> s \<le> bar_timestamp b \<and> bar_timestamp b \<le> e" for b
    using bars_rows [OF assms(1) rows] by blast
  have good': "good w'" using bars_frame [OF assms(1) rows] by blast
  have "ts \<in> bar_timestamp ` set rows \<longleftrightarrow> stored w' key ts \<noteq> None" if "ts \<in> set (bar_starts s e p)" for ts
  proof -
    have "s \<le> ts" "ts \<le> e"
      using that set_bar_starts [OF period_pos [OF p]] by auto
    then have "b \<in> set rows \<and> bar_timestamp b = ts \<longleftrightarrow> stored w' key ts = Some b" for b
      using r [of b] bars_stamps [OF good', of key ts b] by auto
    then have "(\<exists>b. b \<in> set rows \<and> bar_timestamp b = ts) \<longleftrightarrow> (\<exists>b. stored w' key ts = Some b)"
      by simp
    then show ?thesis by auto
  qed
  then have "filter (\<lambda>ts. ts \<notin> bar_timestamp ` set rows) (bar_starts s e p)
      = filter (\<lambda>ts. stored w' key ts = None) (bar_starts s e p)"
    by (intro filter_cong) auto
  with p gaps show ?thesis by blast
qed

lemma insert_bar_stores:
  "good w \<Longrightarrow> insert_bar svc key b w = (Inr ok, w') \<Longrightarrow> stored w' key (bar_timestamp b) \<noteq> None"
  using ins_stores [of w key b _ w'] ins_conflict [of w key b _ w']
  by (auto simp: insert_bar_def is_unique_violation_iff split: prod.splits sum.splits if_splits)

lemma bar_at_stamp: "bar_at fetched ts = Some b \<Longrightarrow> bar_timestamp b = ts"
  by (auto simp: bar_at_def find_Some_iff)

lemma store_bars_stores:
  "good w \<Longrightarrow> store_bars svc key fetched tss n w = (Inr m, w') \<Longrightarrow> ts \<in> set tss \<Longrightarrow>
   bar_at fetched ts \<noteq> None \<Longrightarrow> stored w' key ts \<noteq> None"
proof (induction tss arbitrary: n w)
  case Nil
  then show ?case by simp
next
  case (Cons t tss)
  show ?case
  proof (cases "bar_at fetched t")
    case None
    with Cons show ?thesis by auto
  next
    case (Some b)
    with Cons.prems(2) obtain ok w1 where one: "insert_bar svc key b w = (Inr ok, w1)"
      and rest: "store_bars svc key fetched tss (if ok then Suc n else n) w1 = (Inr m, w')"
      by (auto simp: bindC_Inr_iff)
    have s1: "steps w w1" by (rule framedD [OF framed_insert Cons.prems(1) one])
    have s2: "steps w1 w'" by (rule framedD [OF framed_store steps_good [OF s1] rest])
    show ?thesis
    proof (cases "ts = t")
      case True
      then have "stored w1 key ts \<noteq> None"
        using insert_bar_stores [OF Cons.prems(1) one] bar_at_stamp [OF Some] by simp
      then show ?thesis
        by (rule grows_stored [of stored w1 w', rotated]) (use s2 in \<open>simp add: steps_def\<close>)
    next
      case False
      with Cons.IH [OF steps_good [OF s1] rest] Cons.prems show ?thesis by simp
    qed
  qed
qed

lemma reject_incomplete_ok:
  assumes "reject_incomplete cusip gaps fetched newest = Inr u" and "ts \<in> set gaps"
    and "\<exists>b \<in> set fetched. bar_timestamp b \<le> ts"
  shows "bar_at fetched ts \<noteq> None"
proof (rule ccontr)
  assume none: "\<not> bar_at fetched ts \<noteq> None"
  then have un: "ts \<in> set (unfilled_of gaps fetched)"
    using assms(2) by (simp add: unfilled_of_def)
  then have ne: "unfilled_of gaps fetched \<noteq> []" by auto
  obtain b where b: "b \<in> set fetched" "bar_timestamp b \<le> ts" using assms(3) by blast
  let ?e = "Min (set (map bar_timestamp fetched))"
  have ne_f: "fetched \<noteq> []" using b(1) by auto
  then have e: "earliest_of fetched = Some ?e" by (simp add: earliest_of_def)
  have "?e \<le> bar_timestamp b" using b(1) by simp
  moreover have "?e \<in> bar_timestamp ` set fetched"
    using ne_f Min_in [of "bar_timestamp ` set fetched"] by simp
  moreover have "ts \<notin> bar_timestamp ` set fetched"
    using none by (auto simp: bar_at_def find_None_iff)
  ultimately have "?e < ts" using b(2) by (metis order.not_eq_order_implies_strict order_trans)
  with un have "filter (\<lambda>ts. ?e < ts) (unfilled_of gaps fetched) \<noteq> []"
    by (auto simp: filter_empty_conv)
  with assms(1) ne e show False by (simp add: reject_incomplete_def Let_def)
qed

lemma reject_incomplete_newest:
  "reject_incomplete cusip gaps fetched newest = Inr u \<Longrightarrow> newest \<in> set gaps \<Longrightarrow>
   bar_at fetched newest \<noteq> None"
  by (auto simp: reject_incomplete_def Let_def unfilled_of_def filter_empty_conv split: if_splits)

text \<open>
  What a gate that had to look for gaps leaves: the whole window is stored, or the exchange was
  asked for the bars from the first gap on, between the look and the inserts, and every boundary of
  the window is stored that lies before that gap, at the newest closed bar, or at or after a bar
  the exchange returned.
\<close>

definition window_filled :: "'w \<Rightarrow> nat \<Rightarrow> 'w \<Rightarrow> series_key \<Rightarrow> int \<Rightarrow> int \<Rightarrow> int \<Rightarrow> bool" where
  "window_filled w n w' key p start newest \<longleftrightarrow>
     (\<forall>ts \<in> set (bar_starts start newest p). stored w' key ts \<noteq> None)
     \<or> (\<exists>cov w1 gaps w2 bars w3. get_coverage svc key w = (Inr cov, w1)
         \<and> find_gaps svc key start newest w1 = (Inr gaps, w2)
         \<and> fetch_dict svc key p (hd gaps) newest w2 = (Inr bars, w3)
         \<and> store_bars svc key bars gaps 0 w3 = (Inr n, w')
         \<and> hd gaps \<in> set (bar_starts start newest p) \<and> stored w key (hd gaps) = None
         \<and> (\<forall>ts \<in> set (bar_starts start newest p).
              ts < hd gaps \<or> ts = newest \<or> (\<exists>b \<in> set bars. bar_timestamp b \<le> ts) \<longrightarrow> stored w' key ts \<noteq> None))"

lemma hd_gaps_least:
  assumes "ts \<in> set (filter Q (bar_starts s e p))"
  shows "hd (filter Q (bar_starts s e p)) \<le> ts"
proof -
  have "sorted_wrt (<) (filter Q (bar_starts s e p))"
    by (rule sorted_wrt_filter [OF sorted_bar_starts])
  with assms show ?thesis by (cases "filter Q (bar_starts s e p)") auto
qed

lemma ensure_fresh_fills:
  assumes good: "good w" and run: "ensure_fresh svc key lookback (Some now) w = (Inr n, w')"
    and p: "interval_period svc (key_interval key) = Inr p"
  shows "(\<exists>mx \<ge> last_closed_bar now p. stored w' key mx \<noteq> None)
    \<and> ((\<exists>mn mx v. get_coverage svc key w = (Inr (Some (mn, mx)), v) \<and> last_closed_bar now p \<le> mx)
       \<or> window_filled w n w' key p (last_closed_bar now p - p * (lookback - 1)) (last_closed_bar now p))"
proof -
  let ?new = "last_closed_bar now p" and ?st = "last_closed_bar now p - p * (lookback - 1)"
  have pos: "0 < p" by (rule period_pos [OF p])
  have lb: "1 \<le> lookback" using run by (auto simp: ensure_fresh_def split: if_splits)
  then have "0 \<le> p * (lookback - 1)" using pos by simp
  then have new_in: "?new \<in> set (bar_starts ?st ?new p)"
    using set_bar_starts [OF pos] by simp
  have s0: "steps w w'" by (rule framedD [OF framed_ensure_fresh good run])
  obtain cov w1 where cov: "get_coverage svc key w = (Inr cov, w1)"
    and rest: "(if (case cov of None \<Rightarrow> False | Some (mn, mx) \<Rightarrow> ?new \<le> mx) then returnC 0
       else bindC (find_gaps svc key ?st ?new) (\<lambda>gaps. if gaps = [] then returnC 0
         else bindC (fetch_dict svc key p (hd gaps) ?new) (\<lambda>fetched.
           bindC (liftR (reject_incomplete (key_cusip key) gaps fetched ?new)) (\<lambda>_.
             store_bars svc key fetched gaps 0)))) w1 = (Inr n, w')"
    using run p lb by (auto simp: ensure_fresh_def now_or_def Let_def bindC_Inr_iff)
  have s1: "steps w w1" by (rule framedD [OF framed_coverage good cov])
  show ?thesis
  proof (cases "case cov of None \<Rightarrow> False | Some (mn, mx) \<Rightarrow> ?new \<le> mx")
    case True
    then obtain mn mx where mx: "cov = Some (mn, mx)" "?new \<le> mx" by (auto split: option.splits)
    with coverage_some [OF good, of key mn mx w1] cov have "stored w1 key mx \<noteq> None" by auto
    with rest True mx cov show ?thesis by auto
  next
    case False
    with rest obtain gaps w2 where g: "find_gaps svc key ?st ?new w1 = (Inr gaps, w2)"
      and rest: "(if gaps = [] then returnC 0
         else bindC (fetch_dict svc key p (hd gaps) ?new) (\<lambda>fetched.
           bindC (liftR (reject_incomplete (key_cusip key) gaps fetched ?new)) (\<lambda>_.
             store_bars svc key fetched gaps 0))) w2 = (Inr n, w')"
      by (auto simp: bindC_Inr_iff)
    have s2: "steps w1 w2" by (rule framedD [OF framed_gaps steps_good [OF s1] g])
    have gaps: "gaps = filter (\<lambda>ts. stored w2 key ts = None) (bar_starts ?st ?new p)"
      using find_gaps_result [OF steps_good [OF s1] g] p by auto
    show ?thesis
    proof (cases "gaps = []")
      case True
      then have "\<forall>ts \<in> set (bar_starts ?st ?new p). stored w2 key ts \<noteq> None"
        using gaps by (auto simp: filter_empty_conv)
      with True rest new_in show ?thesis by (auto simp: window_filled_def)
    next
      case False
      with rest obtain fetched w3 where f: "fetch_dict svc key p (hd gaps) ?new w2 = (Inr fetched, w3)"
        and ok: "reject_incomplete (key_cusip key) gaps fetched ?new = Inr ()"
        and st: "store_bars svc key fetched gaps 0 w3 = (Inr n, w')"
        by (auto simp: bindC_Inr_iff)
      have s3: "steps w2 w3" by (rule framedD [OF framed_dict steps_good [OF s2] f])
      have s4: "steps w3 w'" by (rule framedD [OF framed_store steps_good [OF s3] st])
      have kept: "stored w' key ts \<noteq> None" if "stored w2 key ts \<noteq> None" for ts
        using steps_trans [OF s3 s4] that by (auto simp: steps_def dest: grows_stored)
      have filled: "stored w' key ts \<noteq> None"
        if "ts \<in> set (bar_starts ?st ?new p)" "bar_at fetched ts \<noteq> None \<or> ts \<notin> set gaps" for ts
        using that kept [of ts] gaps store_bars_stores [OF steps_good [OF s3] st, of ts] by auto
      have new_ok: "bar_at fetched ?new \<noteq> None \<or> ?new \<notin> set gaps"
        using reject_incomplete_newest [OF ok] by blast
      have new_st: "stored w' key ?new \<noteq> None" by (rule filled [OF new_in new_ok])
      have "stored w' key ts \<noteq> None"
        if ts: "ts \<in> set (bar_starts ?st ?new p)"
          and "ts < hd gaps \<or> ts = ?new \<or> (\<exists>b \<in> set fetched. bar_timestamp b \<le> ts)" for ts
      proof (rule filled [OF ts])
        show "bar_at fetched ts \<noteq> None \<or> ts \<notin> set gaps"
          using that(2) new_ok reject_incomplete_ok [OF ok, of ts] hd_gaps_least gaps by force
      qed
      moreover have "hd gaps \<in> set gaps" using False by simp
      then have "hd gaps \<in> set (bar_starts ?st ?new p) \<and> stored w key (hd gaps) = None"
        using gaps steps_trans [OF s1 s2] by (auto simp: steps_def dest: grows_stored)
      ultimately have "window_filled w n w' key p ?st ?new"
        unfolding window_filled_def using cov g f st by blast
      with new_st show ?thesis by auto
    qed
  qed
qed

lemma backfill_fills:
  assumes good: "good w" and run: "backfill svc key start_ts end_ts now w = (Inr r, w')"
    and p: "interval_period svc (key_interval key) = Inr p"
  shows "steps w w' \<and> bf_start r \<le> bf_end r
    \<and> set (unfilled r) \<subseteq> set (bar_starts (bf_start r) (bf_end r) p)
    \<and> (\<forall>ts \<in> set (bar_starts (bf_start r) (bf_end r) p). ts \<notin> set (unfilled r) \<longrightarrow> stored w' key ts \<noteq> None)
    \<and> expected r = length (bar_starts (bf_start r) (bf_end r) p)
    \<and> span_of (bf_start r) (bf_end r) p \<le> max_backfill_bars
    \<and> (unfilled r = [] \<or> (\<exists>w1 gaps w2 bars w3 n. end_or_closed svc end_ts now p w = (Inr (bf_end r), w1)
         \<and> find_gaps svc key (bf_start r) (bf_end r) w1 = (Inr gaps, w2)
         \<and> fetch_dict svc key p (hd gaps) (bf_end r) w2 = (Inr bars, w3)
         \<and> store_bars svc key bars gaps 0 w3 = (Inr n, w')
         \<and> (\<forall>ts \<in> set (unfilled r). hd gaps \<le> ts \<and> stored w key ts = None \<and> ts \<notin> bar_timestamp ` set bars)))"
proof -
  have s0: "steps w w'" by (rule framedD [OF framed_backfill good run])
  obtain e w1 where e: "end_or_closed svc end_ts now p w = (Inr e, w1)"
    and rest: "(let start = as_utc start_ts in
       if e < start then raiseC (MktPy (ValueError ''start is after end''))
       else if max_backfill_bars < span_of start e p then
         raiseC (BackfillTooLargeError start e (span_of start e p) (start + p * (max_backfill_bars - 1)))
       else bindC (find_gaps svc key start e) (\<lambda>gaps.
           let n = length (bar_starts start e p) in
           if gaps = [] then returnC \<lparr>bf_start = start, bf_end = e, expected = n, missing = 0,
                      bf_inserted = 0, unfilled = []\<rparr>
           else bindC (fetch_dict svc key p (hd gaps) e) (\<lambda>fetched.
             bindC (store_bars svc key fetched gaps 0) (\<lambda>ins.
               returnC \<lparr>bf_start = start, bf_end = e, expected = n, missing = length gaps,
                        bf_inserted = ins, unfilled = unfilled_of gaps fetched\<rparr>)))) w1 = (Inr r, w')"
    using run p by (auto simp: backfill_def bindC_Inr_iff)
  have fe: "framed (end_or_closed svc end_ts now p)"
    unfolding end_or_closed_def by (intro framed_intros)
  have s1: "steps w w1" by (rule framedD [OF fe good e])
  let ?s = "as_utc start_ts"
  have ord: "?s \<le> e" and span: "span_of ?s e p \<le> max_backfill_bars"
    using rest by (auto simp: Let_def split: if_splits)
  from rest ord span obtain gaps w2 where g: "find_gaps svc key ?s e w1 = (Inr gaps, w2)"
    and rest: "(if gaps = [] then returnC \<lparr>bf_start = ?s, bf_end = e, expected = length (bar_starts ?s e p),
         missing = 0, bf_inserted = 0, unfilled = []\<rparr>
       else bindC (fetch_dict svc key p (hd gaps) e) (\<lambda>fetched.
         bindC (store_bars svc key fetched gaps 0) (\<lambda>ins.
           returnC \<lparr>bf_start = ?s, bf_end = e, expected = length (bar_starts ?s e p), missing = length gaps,
                    bf_inserted = ins, unfilled = unfilled_of gaps fetched\<rparr>))) w2 = (Inr r, w')"
    by (auto simp: Let_def bindC_Inr_iff)
  have s2: "steps w1 w2" by (rule framedD [OF framed_gaps steps_good [OF s1] g])
  have gaps: "gaps = filter (\<lambda>ts. stored w2 key ts = None) (bar_starts ?s e p)"
    using find_gaps_result [OF steps_good [OF s1] g] p by auto
  show ?thesis
  proof (cases "gaps = []")
    case True
    then have "\<forall>ts \<in> set (bar_starts ?s e p). stored w2 key ts \<noteq> None"
      using gaps by (auto simp: filter_empty_conv)
    with True rest ord span s0 show ?thesis by auto
  next
    case False
    with rest obtain fetched w3 ins where f: "fetch_dict svc key p (hd gaps) e w2 = (Inr fetched, w3)"
      and st: "store_bars svc key fetched gaps 0 w3 = (Inr ins, w')"
      and r: "r = \<lparr>bf_start = ?s, bf_end = e, expected = length (bar_starts ?s e p), missing = length gaps,
                    bf_inserted = ins, unfilled = unfilled_of gaps fetched\<rparr>"
      by (auto simp: bindC_Inr_iff)
    have s3: "steps w2 w3" by (rule framedD [OF framed_dict steps_good [OF s2] f])
    have s4: "steps w3 w'" by (rule framedD [OF framed_store steps_good [OF s3] st])
    have "stored w' key ts \<noteq> None" if "ts \<in> set (bar_starts ?s e p)" "ts \<notin> set (unfilled_of gaps fetched)" for ts
    proof (cases "ts \<in> set gaps")
      case True
      with that(2) have "bar_at fetched ts \<noteq> None" by (simp add: unfilled_of_def)
      with True show ?thesis by (rule store_bars_stores [OF steps_good [OF s3] st])
    next
      case False
      with that gaps have "stored w2 key ts \<noteq> None" by auto
      with steps_trans [OF s3 s4] show ?thesis by (auto simp: steps_def dest: grows_stored)
    qed
    moreover have "set (unfilled_of gaps fetched) \<subseteq> set (bar_starts ?s e p)"
      using gaps by (auto simp: unfilled_of_def)
    moreover have "hd gaps \<le> ts \<and> stored w key ts = None \<and> ts \<notin> bar_timestamp ` set fetched"
      if "ts \<in> set (unfilled_of gaps fetched)" for ts
    proof -
      have ts: "ts \<in> set gaps" "bar_at fetched ts = None" using that by (auto simp: unfilled_of_def)
      have "hd gaps \<le> ts" using ts(1) unfolding gaps by (rule hd_gaps_least)
      moreover have "stored w key ts = None"
        using ts(1) gaps steps_trans [OF s1 s2] by (auto simp: steps_def dest: grows_stored)
      moreover have "ts \<notin> bar_timestamp ` set fetched"
        using ts(2) by (auto simp: bar_at_def find_None_iff)
      ultimately show ?thesis by blast
    qed
    ultimately show ?thesis using r ord span s0 e g f st by auto
  qed
qed

end

section \<open>Planned passes\<close>

lemma span_of_aligned:
  assumes "0 < p" and "p dvd e - s" and "s \<le> e" and "e - s < 2 ^ 53 * p"
  shows "span_of s e p = (e - s) div p + 1"
proof -
  have q: "(e - s) div p * p = e - s" using assms(2) by simp
  have "0 \<le> (e - s) div p" using assms(1,3) by (simp add: pos_imp_zdiv_nonneg_iff)
  moreover have "(e - s) div p < 2 ^ 53"
    using assms(1,4) q by (metis mult_less_cancel_right_pos)
  ultimately show ?thesis
    using int_truediv_exact [OF assms(1), of "(e - s) div p"] q by (simp add: span_of_def)
qed

lemma ceil_div_minus: "- (- (n - m) div m) = - (- n div m) - 1" if "0 < m" for n m :: int
proof -
  have "- (n - m) div m = (- n + 1 * m) div m" by simp
  also have "\<dots> = - n div m + 1" using that by (subst div_mult_self1) auto
  finally show ?thesis by simp
qed

text \<open>One pass with an aligned target: what it spans and what is left after it.\<close>

lemma plan_pass_spec:
  fixes p target e :: int
  defines "s \<equiv> max target (e - p * (max_backfill_bars - 1))"
  assumes "0 < p" and "p dvd target" and "p dvd e" and "target \<le> e" and "e - target < 2 ^ 53 * p"
  shows "plan_start (plan_pass p target e) = Some s" and "plan_end (plan_pass p target e) = Some e"
    and "target \<le> s" and "s \<le> e" and "p dvd s"
    and "plan_bars (plan_pass p target e) = (e - s) div p + 1"
    and "plan_bars (plan_pass p target e) \<le> max_backfill_bars"
    and "s = target \<Longrightarrow> passes_remaining (plan_pass p target e) = 1"
    and "s \<noteq> target \<Longrightarrow>
      passes_remaining (plan_pass p target (s - p)) = passes_remaining (plan_pass p target e) - 1"
proof -
  have mono: "0 \<le> p * (max_backfill_bars - 1)" using assms(2) by (simp add: max_backfill_bars_def)
  show "plan_start (plan_pass p target e) = Some s" "plan_end (plan_pass p target e) = Some e"
    by (simp_all add: plan_pass_def s_def Let_def)
  show ts: "target \<le> s" and se: "s \<le> e" using mono assms(5) by (auto simp: s_def)
  show ps: "p dvd s" using assms(3,4) by (simp add: s_def max_def)
  have es: "e - s \<le> p * (max_backfill_bars - 1)" by (simp add: s_def)
  have small: "p * (max_backfill_bars - 1) < 2 ^ 53 * p" using assms(2) by (simp add: max_backfill_bars_def)
  have bars: "span_of s e p = (e - s) div p + 1"
    using assms(2,4) ps se le_less_trans [OF es small] by (intro span_of_aligned) auto
  then show "plan_bars (plan_pass p target e) = (e - s) div p + 1"
    by (simp add: plan_pass_def s_def Let_def)
  have "(e - s) div p \<le> p * (max_backfill_bars - 1) div p"
    using es assms(2) by (rule zdiv_mono1)
  then show "plan_bars (plan_pass p target e) \<le> max_backfill_bars"
    using bars assms(2) by (simp add: plan_pass_def s_def Let_def)
  have out: "span_of target e p = (e - target) div p + 1"
    using assms by (intro span_of_aligned) auto
  have rem: "passes_remaining (plan_pass p target x) = - (- span_of target x p div max_backfill_bars)" for x
    by (simp add: plan_pass_def Let_def)
  show "passes_remaining (plan_pass p target e) = 1" if "s = target"
  proof -
    have "0 \<le> (e - target) div p" and "(e - target) div p \<le> max_backfill_bars - 1"
      using \<open>(e - s) div p \<le> p * (max_backfill_bars - 1) div p\<close> that assms(2,5)
      by (simp_all add: pos_imp_zdiv_nonneg_iff)
    then show ?thesis unfolding rem out by (simp add: max_backfill_bars_def)
  qed
  show "passes_remaining (plan_pass p target (s - p)) = passes_remaining (plan_pass p target e) - 1"
    if "s \<noteq> target"
  proof -
    have s: "s = e - p * (max_backfill_bars - 1)" and "target < s" using that ts by (auto simp: s_def)
    have le: "target + p \<le> s" by (rule aligned_gap [OF assms(2,3) ps \<open>target < s\<close>])
    have "span_of target (s - p) p = (s - p - target) div p + 1"
      using assms ps le se by (intro span_of_aligned) auto
    also have "s - p - target = (e - target) + (- max_backfill_bars) * p"
      by (simp add: s algebra_simps)
    also have "\<dots> div p + 1 = span_of target e p - max_backfill_bars"
      unfolding out using assms(2) by (subst div_mult_self1) auto
    finally have "span_of target (s - p) p = span_of target e p - max_backfill_bars" .
    then show ?thesis
      unfolding rem using ceil_div_minus [of max_backfill_bars "span_of target e p"]
      by (simp add: max_backfill_bars_def)
  qed
qed

section \<open>Properties\<close>

text \<open>A capture plan makes progress: for a target and stored bars on bar boundaries, the pass
  \<open>plan_backfill\<close> proposes is a non-empty range at or after the target that \<open>backfill\<close> will not
  refuse for its size, and once the bars from its start on are stored the next plan, asked at
  any later time, has exactly one pass fewer left.\<close>

theorem plan_backfill_progress:
  fixes svc :: "'w bar_service"
  assumes "interval_period svc (key_interval key) = Inr p" and "0 < p" and "p dvd as_utc target"
    and "\<And>mn mx v. get_coverage svc key w = (Inr (Some (mn, mx)), v) \<Longrightarrow> p dvd mn"
    and "plan_backfill svc key target (Some now) w = (Inr plan, w1)"
    and "plan_start plan = Some s" and "plan_end plan = Some e" and "e - as_utc target < 2 ^ 53 * p"
    and "get_coverage svc key w2 = (Inr (Some (s, mx)), w3)" and "now \<le> now'"
  shows "as_utc target \<le> s \<and> s \<le> e \<and> span_of s e p \<le> max_backfill_bars
    \<and> (\<exists>plan'. plan_backfill svc key target (Some now') w2 = (Inr plan', w3)
        \<and> passes_remaining plan' = passes_remaining plan - 1)"
proof -
  let ?t = "as_utc target"
  let ?next = "\<lambda>bounds. case bounds of None \<Rightarrow> plan_pass p ?t (last_closed_bar now p)
       | Some (first_bar, _) \<Rightarrow> if first_bar \<le> ?t then nothing_to_do ?t else plan_pass p ?t (first_bar - p)"
  have lc: "?t \<le> last_closed_bar now p"
    using assms(1,5,6) by (auto simp: plan_backfill_def now_or_def bindC_Inr_iff Let_def nothing_to_do_def
        split: if_splits)
  let ?k = "(\<lambda>bounds. case bounds of None \<Rightarrow> returnC (plan_pass p ?t (last_closed_bar now p))
       | Some (first_bar, _) \<Rightarrow> (if first_bar \<le> ?t then returnC (nothing_to_do ?t)
           else returnC (plan_pass p ?t (first_bar - p))))
     :: (int \<times> int) option \<Rightarrow> ('w, mkt_exn, backfill_plan) call"
  have "bindC (get_coverage svc key) ?k w = (Inr plan, w1)"
    using assms(1,5) lc by (simp add: plan_backfill_def now_or_def stored_bounds_def Let_def)
  then obtain bounds v where cov: "get_coverage svc key w = (Inr bounds, v)"
    and rest: "?k bounds v = (Inr plan, w1)"
    unfolding bindC_Inr_iff by blast
  from rest have "v = w1 \<and> plan = ?next bounds"
    by (cases bounds) (auto split: prod.splits if_splits)
  with lc cov have run: "?t \<le> last_closed_bar now p" "get_coverage svc key w = (Inr bounds, w1)"
    "plan = ?next bounds" by simp_all
  have "\<exists>x. plan = plan_pass p ?t x \<and> p dvd x \<and> ?t \<le> x"
  proof (cases bounds)
    case None
    with run show ?thesis by auto
  next
    case (Some b)
    obtain mn mx' where b: "b = (mn, mx')" by fastforce
    have mn: "p dvd mn" using assms(4) run(2) Some b by blast
    have lt: "?t < mn" and plan: "plan = plan_pass p ?t (mn - p)"
      using run(3) Some b assms(6) by (auto simp: nothing_to_do_def split: if_splits)
    from aligned_gap [OF assms(2,3) mn lt] mn plan show ?thesis by auto
  qed
  then obtain x where plan: "plan = plan_pass p ?t x" and x: "p dvd x" "?t \<le> x" by blast
  then have xe: "x = e" using assms(7) by (simp add: plan_pass_def Let_def)
  note spec = plan_pass_spec [OF assms(2,3) x [unfolded xe] assms(8)]
  have s: "s = max ?t (e - p * (max_backfill_bars - 1))"
    using spec(1) assms(6) plan xe by simp
  have first: "?t \<le> s" "s \<le> e" "span_of s e p \<le> max_backfill_bars"
    using spec(3,4,7) s by (simp_all add: plan_pass_def Let_def)
  have later: "?t \<le> last_closed_bar now' p"
    using run(1) floor_us_mono [OF assms(2,10)] by (simp add: last_closed_bar_def)
  have "plan_backfill svc key target (Some now') w2
      = (Inr (if s \<le> ?t then nothing_to_do ?t else plan_pass p ?t (s - p)), w3)"
    using assms(1,9) later by (simp add: plan_backfill_def now_or_def stored_bounds_def bindC_def Let_def)
  moreover have "passes_remaining (if s \<le> ?t then nothing_to_do ?t else plan_pass p ?t (s - p))
      = passes_remaining plan - 1"
    using spec(8,9) first(1) s plan xe by (auto simp: nothing_to_do_def)
  ultimately show ?thesis using first by blast
qed

end
