(* ===== verification/PriceBarDb.thy ===== *)
theory PriceBarDb
  imports PriceBars
begin

text \<open>
  The table \<open>MARKET_DATA.PRICE_BAR\<close> behind the bar service: its stored procedures as functions
  on the rows, the repository calls on them, and the service those calls make up. The table
  provides the laws of \<open>bar_store\<close>; the properties of the gate and of the backfill follow.

  Before each call the head of \<open>arrivals\<close>, bars other workers commit, enters the table; then
  the head of \<open>bar_faults\<close> says whether the database fails, with which SQLSTATE and text.
\<close>

record bar_db =
  price_bars :: "(series_key \<times> ohlcv) list"
  arrivals :: "(series_key \<times> ohlcv) list list"
  bar_faults :: "(string \<times> string) option list"

definition has_bar :: "series_key \<Rightarrow> int \<Rightarrow> (series_key \<times> ohlcv) list \<Rightarrow> bool" where
  "has_bar key ts rows = list_ex (\<lambda>(k, b). k = key \<and> bar_timestamp b = ts) rows"

section \<open>Stored procedures\<close>

text \<open>The primary key is the series and the open time.\<close>

definition sp_ins_price_bar ::
  "series_key \<Rightarrow> ohlcv \<Rightarrow> (series_key \<times> ohlcv) list \<Rightarrow> mkt_exn + (series_key \<times> ohlcv) list" where
  "sp_ins_price_bar key bar rows =
     (if has_bar key (bar_timestamp bar) rows then
        Inl (ProcedureError unique_violation ''duplicate key value violates unique constraint'')
      else Inr ((key, bar) # rows))"

definition series_bars :: "series_key \<Rightarrow> (series_key \<times> ohlcv) list \<Rightarrow> ohlcv list" where
  "series_bars key rows = map snd (filter (\<lambda>(k, b). k = key) rows)"

definition sp_get_price_bar ::
  "series_key \<Rightarrow> int \<Rightarrow> int \<Rightarrow> (series_key \<times> ohlcv) list \<Rightarrow> ohlcv list" where
  "sp_get_price_bar key range_start range_end rows =
     sort_key bar_timestamp
       (filter (\<lambda>b. range_start \<le> bar_timestamp b \<and> bar_timestamp b \<le> range_end) (series_bars key rows))"

definition sp_get_price_bar_coverage ::
  "series_key \<Rightarrow> (series_key \<times> ohlcv) list \<Rightarrow> (int \<times> int) option" where
  "sp_get_price_bar_coverage key rows =
     (let tss = map bar_timestamp (series_bars key rows)
      in if tss = [] then None else Some (Min (set tss), Max (set tss)))"

section \<open>Repository calls\<close>

fun arrive :: "(series_key \<times> ohlcv) list \<Rightarrow> (series_key \<times> ohlcv) list \<Rightarrow> (series_key \<times> ohlcv) list" where
  "arrive [] rows = rows"
| "arrive ((key, b) # news) rows =
     arrive news (case sp_ins_price_bar key b rows of Inr rows' \<Rightarrow> rows' | Inl e \<Rightarrow> rows)"

definition on_bars ::
  "((series_key \<times> ohlcv) list \<Rightarrow> mkt_exn + 'a \<times> (series_key \<times> ohlcv) list)
   \<Rightarrow> (bar_db \<times> 'v, mkt_exn, 'a) call" where
  "on_bars f = (\<lambda>(db, v).
     let rows = (case arrivals db of [] \<Rightarrow> price_bars db | news # _ \<Rightarrow> arrive news (price_bars db));
         db' = db\<lparr>price_bars := rows, arrivals := tl (arrivals db), bar_faults := tl (bar_faults db)\<rparr>
     in case bar_faults db of
          Some (sqlstate, m) # _ \<Rightarrow> (Inl (ProcedureError sqlstate m), (db', v))
        | _ \<Rightarrow> (case f rows of
                 Inl e \<Rightarrow> (Inl e, (db', v))
               | Inr (x, rows') \<Rightarrow> (Inr x, (db'\<lparr>price_bars := rows'\<rparr>, v))))"

definition repo_get_coverage :: "series_key \<Rightarrow> (bar_db \<times> 'v, mkt_exn, (int \<times> int) option) call" where
  "repo_get_coverage key = on_bars (\<lambda>rows. Inr (sp_get_price_bar_coverage key rows, rows))"

definition repo_get_bars :: "series_key \<Rightarrow> int \<Rightarrow> int \<Rightarrow> (bar_db \<times> 'v, mkt_exn, ohlcv list) call" where
  "repo_get_bars key s e = on_bars (\<lambda>rows. Inr (sp_get_price_bar key s e rows, rows))"

definition repo_ins_bar :: "series_key \<Rightarrow> ohlcv \<Rightarrow> (bar_db \<times> 'v, mkt_exn, unit) call" where
  "repo_ins_bar key bar = on_bars (\<lambda>rows. bindR (sp_ins_price_bar key bar rows) (\<lambda>rows'. Inr ((), rows')))"

text \<open>\<open>REFDATA.TM_INTERVAL\<close> as the reader serves it: \<open>PERIOD_LENGTH\<close> by id, parsed on each call.\<close>

definition get_interval_period :: "(int \<times> period_value) list \<Rightarrow> int \<Rightarrow> mkt_exn + int" where
  "get_interval_period tm_interval iv =
     (case map_of tm_interval iv of
        None \<Rightarrow> Inl (MktPy (RuntimeError (''REFDATA.TM_INTERVAL missing TM_INTERVAL_ID='' @ int_str iv)))
      | Some v \<Rightarrow> (case parse_period v of Inl e \<Rightarrow> Inl (MktPy e) | Inr p \<Rightarrow> Inr p))"

text \<open>
  What the service is built from besides the table: the interval rows, the instrument cache,
  the venue and the clock. The venue and the clock act on their own part \<open>'v\<close> of the world.
\<close>

record 'v bar_env =
  tm_intervals :: "(int \<times> period_value) list"
  xref :: "string \<Rightarrow> int \<Rightarrow> string option"
  issue_default_type :: "string \<Rightarrow> mkt_exn + string option"
  venue_fetch :: "string \<Rightarrow> int \<Rightarrow> int \<Rightarrow> int \<Rightarrow> string option \<Rightarrow> ('v, mkt_exn, ohlcv list) call"
  venue_earliest :: "string \<Rightarrow> int \<Rightarrow> string option \<Rightarrow> ('v, mkt_exn, int option) call"
  clock_now :: "'v \<Rightarrow> int \<times> 'v"

definition on_venue :: "('v \<Rightarrow> 'a \<times> 'v) \<Rightarrow> bar_db \<times> 'v \<Rightarrow> 'a \<times> (bar_db \<times> 'v)" where
  "on_venue f = (\<lambda>(db, v). case f v of (x, v') \<Rightarrow> (x, (db, v')))"

definition price_bar_service :: "'v bar_env \<Rightarrow> (bar_db \<times> 'v) bar_service" where
  "price_bar_service env =
     \<lparr>get_coverage = repo_get_coverage, get_bars = repo_get_bars, ins_bar = repo_ins_bar,
      interval_period = get_interval_period (tm_intervals env),
      resolve_internal_cusip = xref env, default_type_for = issue_default_type env,
      fetch = (\<lambda>symb p s u dt. on_venue (venue_fetch env symb p s u dt)),
      fetch_earliest = (\<lambda>symb p dt. on_venue (venue_earliest env symb p dt)),
      utc_now = on_venue (clock_now env)\<rparr>"

lemma price_bar_service_simps [simp]:
  "get_coverage (price_bar_service env) = repo_get_coverage"
  "get_bars (price_bar_service env) = repo_get_bars"
  "ins_bar (price_bar_service env) = repo_ins_bar"
  "interval_period (price_bar_service env) = get_interval_period (tm_intervals env)"
  "resolve_internal_cusip (price_bar_service env) = xref env"
  "default_type_for (price_bar_service env) = issue_default_type env"
  "fetch (price_bar_service env) = (\<lambda>symb p s u dt. on_venue (venue_fetch env symb p s u dt))"
  "fetch_earliest (price_bar_service env) = (\<lambda>symb p dt. on_venue (venue_earliest env symb p dt))"
  "utc_now (price_bar_service env) = on_venue (clock_now env)"
  by (simp_all add: price_bar_service_def)

section \<open>The table as a map\<close>

definition bars_of :: "(series_key \<times> ohlcv) list \<Rightarrow> series_key \<Rightarrow> int \<Rightarrow> ohlcv option" where
  "bars_of rows key ts = map_option snd (find (\<lambda>(k, b). k = key \<and> bar_timestamp b = ts) rows)"

definition keys_distinct :: "(series_key \<times> ohlcv) list \<Rightarrow> bool" where
  "keys_distinct rows = distinct (map (\<lambda>(k, b). (k, bar_timestamp b)) rows)"

text \<open>The primary key holds, and the unique violation only comes from it.\<close>

definition bars_wf :: "bar_db \<Rightarrow> bool" where
  "bars_wf db \<longleftrightarrow>
     keys_distinct (price_bars db) \<and> (\<forall>m. Some (unique_violation, m) \<notin> set (bar_faults db))"

lemma bars_of_Cons:
  "bars_of ((k, b) # rows) key ts = (if k = key \<and> bar_timestamp b = ts then Some b else bars_of rows key ts)"
  by (simp add: bars_of_def)

lemma has_bar_iff: "has_bar key ts rows \<longleftrightarrow> bars_of rows key ts \<noteq> None"
  by (induction rows) (auto simp: has_bar_def bars_of_def)

lemma bars_of_stamp: "bars_of rows key ts = Some b \<Longrightarrow> bar_timestamp b = ts"
  by (auto simp: bars_of_def find_Some_iff)

lemma bars_of_iff:
  "keys_distinct rows \<Longrightarrow> bars_of rows key ts = Some b \<longleftrightarrow> (key, b) \<in> set rows \<and> bar_timestamp b = ts"
proof (induction rows)
  case Nil
  show ?case by (simp add: bars_of_def)
next
  case (Cons r rows)
  obtain k b' where r: "r = (k, b')" by fastforce
  with Cons show ?case
    by (force simp: bars_of_Cons keys_distinct_def)
qed

lemma sp_ins_price_bar_Inr:
  assumes "sp_ins_price_bar key b rows = Inr rows'" and "keys_distinct rows"
  shows "keys_distinct rows' \<and> bars_of rows key (bar_timestamp b) = None
    \<and> bars_of rows' k ts = (if k = key \<and> ts = bar_timestamp b then Some b else bars_of rows k ts)"
proof -
  have none: "\<not> has_bar key (bar_timestamp b) rows" and rows': "rows' = (key, b) # rows"
    using assms(1) by (auto simp: sp_ins_price_bar_def split: if_splits)
  have "(key, bar_timestamp b) \<notin> (\<lambda>(k, b). (k, bar_timestamp b)) ` set rows"
    using none by (force simp: has_bar_def list_ex_iff)
  with assms(2) rows' none show ?thesis
    by (auto simp: keys_distinct_def bars_of_Cons has_bar_iff)
qed

lemma arrive_grows:
  "keys_distinct rows \<Longrightarrow> keys_distinct (arrive news rows)
   \<and> (\<forall>key ts b. bars_of rows key ts = Some b \<longrightarrow> bars_of (arrive news rows) key ts = Some b)"
proof (induction news rows rule: arrive.induct)
  case (1 rows)
  then show ?case by simp
next
  case (2 key b news rows)
  show ?case
  proof (cases "sp_ins_price_bar key b rows")
    case (Inl e)
    with 2 show ?thesis by simp
  next
    case (Inr rows')
    note ins = sp_ins_price_bar_Inr [OF Inr "2.prems"]
    then have "bars_of rows' k ts = Some c" if "bars_of rows k ts = Some c" for k ts c
      using that by auto
    with Inr ins "2.IH" show ?thesis by auto
  qed
qed

text \<open>One repository call: what came in, then the procedure or the failure.\<close>

definition bar_map :: "bar_db \<times> 'v \<Rightarrow> series_key \<Rightarrow> int \<Rightarrow> ohlcv option" where
  "bar_map w = bars_of (price_bars (fst w))"

lemma on_bars_cases:
  assumes "bars_wf (fst w)" and "on_bars f w = (x, w')"
  obtains (fault) st m rows where "x = Inl (ProcedureError st m)" "st \<noteq> unique_violation"
      "price_bars (fst w') = rows" "keys_distinct rows" "grows bar_map w w'" "bars_wf (fst w')"
  | (ran) rows where "keys_distinct rows"
      "\<And>key. bar_map w key \<subseteq>\<^sub>m bars_of rows key"
      "\<And>e. x = Inl e \<Longrightarrow> f rows = Inl e \<and> price_bars (fst w') = rows"
      "\<And>y. x = Inr y \<Longrightarrow> f rows = Inr (y, price_bars (fst w'))"
      "keys_distinct (price_bars (fst w')) \<Longrightarrow> bars_wf (fst w')"
proof -
  obtain db v where w: "w = (db, v)" by (meson surj_pair)
  define rows where "rows = (case arrivals db of [] \<Rightarrow> price_bars db | news # _ \<Rightarrow> arrive news (price_bars db))"
  define db' where "db' = db\<lparr>price_bars := rows, arrivals := tl (arrivals db), bar_faults := tl (bar_faults db)\<rparr>"
  have kd: "keys_distinct (price_bars db)" using assms(1) w by (simp add: bars_wf_def)
  have rows: "keys_distinct rows"
    "\<And>key ts b. bars_of (price_bars db) key ts = Some b \<Longrightarrow> bars_of rows key ts = Some b"
    using arrive_grows [OF kd] kd by (auto simp: rows_def split: list.splits)
  have sub: "bar_map w key \<subseteq>\<^sub>m bars_of rows key" for key
    unfolding map_le_def bar_map_def w fst_conv by (metis domD rows(2))
  have nof: "Some (unique_violation, m) \<notin> set (tl (bar_faults db))" for m
    using assms(1) w by (cases "bar_faults db") (auto simp: bars_wf_def)
  have wf: "bars_wf db'" using rows nof by (simp add: bars_wf_def db'_def)
  have run: "(case bar_faults db of
          Some (sqlstate, m) # _ \<Rightarrow> (Inl (ProcedureError sqlstate m), (db', v))
        | _ \<Rightarrow> (case f rows of
                 Inl e \<Rightarrow> (Inl e, (db', v))
               | Inr (x, rows') \<Rightarrow> (Inr x, (db'\<lparr>price_bars := rows'\<rparr>, v)))) = (x, w')"
    using assms(2) unfolding on_bars_def w rows_def db'_def Let_def prod.case .
  show ?thesis
  proof (cases "\<exists>st m fs. bar_faults db = Some (st, m) # fs")
    case True
    then obtain st m fs where f: "bar_faults db = Some (st, m) # fs" by blast
    with assms(1) w have "st \<noteq> unique_violation" by (auto simp: bars_wf_def)
    with run f sub rows wf show ?thesis
      by (intro fault [of st m rows]) (auto simp: grows_def bar_map_def db'_def)
  next
    case False
    then have run: "(case f rows of Inl e \<Rightarrow> (Inl e, (db', v))
               | Inr (x, rows') \<Rightarrow> (Inr x, (db'\<lparr>price_bars := rows'\<rparr>, v))) = (x, w')"
      using run by (auto split: list.splits option.splits)
    show ?thesis
      using run nof
      by (intro ran [OF rows(1) sub])
        (auto simp: db'_def bars_wf_def split: sum.splits prod.splits)
  qed
qed

lemma on_bars_frame:
  assumes "bars_wf (fst w)" and "on_bars f w = (x, w')"
    and "\<And>rows y rows'. keys_distinct rows \<Longrightarrow> f rows = Inr (y, rows') \<Longrightarrow>
      keys_distinct rows' \<and> (\<forall>key. bars_of rows key \<subseteq>\<^sub>m bars_of rows' key)"
  shows "bars_wf (fst w') \<and> grows bar_map w w'"
  using assms(1,2)
proof (cases rule: on_bars_cases)
  case (fault st m rows)
  then show ?thesis by simp
next
  case (ran rows)
  show ?thesis
  proof (cases x)
    case (Inl e)
    with ran show ?thesis by (simp add: grows_def bar_map_def)
  next
    case (Inr y)
    with ran assms(3) [of rows y "price_bars (fst w')"] show ?thesis
      by (auto simp: grows_def bar_map_def intro: map_le_trans)
  qed
qed

lemma on_bars_read:
  assumes "bars_wf (fst w)" and "on_bars (\<lambda>rows. Inr (g rows, rows)) w = (x, w')"
  shows "bars_wf (fst w') \<and> grows bar_map w w'"
    and "x = Inr y \<Longrightarrow> keys_distinct (price_bars (fst w')) \<and> y = g (price_bars (fst w'))"
proof -
  show "bars_wf (fst w') \<and> grows bar_map w w'"
    using assms by (rule on_bars_frame) auto
  show "x = Inr y \<Longrightarrow> keys_distinct (price_bars (fst w')) \<and> y = g (price_bars (fst w'))"
    using assms by (cases rule: on_bars_cases) auto
qed

lemma series_bars_set:
  "keys_distinct rows \<Longrightarrow> b \<in> set (series_bars key rows) \<longleftrightarrow> bars_of rows key (bar_timestamp b) = Some b"
  by (auto simp: series_bars_def bars_of_iff image_iff)

lemma distinct_series_stamps: "keys_distinct rows \<Longrightarrow> distinct (map bar_timestamp (series_bars key rows))"
  by (induction rows) (auto simp: keys_distinct_def series_bars_def image_iff split: prod.splits)

lemma sp_get_price_bar_rows:
  assumes "keys_distinct rows"
  shows "(\<forall>b. b \<in> set (sp_get_price_bar key s e rows)
      \<longleftrightarrow> bars_of rows key (bar_timestamp b) = Some b \<and> s \<le> bar_timestamp b \<and> bar_timestamp b \<le> e)
    \<and> distinct (map bar_timestamp (sp_get_price_bar key s e rows))"
  using series_bars_set [OF assms] distinct_series_stamps [OF assms, of key]
  by (auto simp: sp_get_price_bar_def distinct_map intro: inj_on_subset)

lemma coverage_set:
  assumes "keys_distinct rows"
  shows "set (map bar_timestamp (series_bars key rows)) = dom (bars_of rows key)"
proof (intro set_eqI iffI)
  fix ts assume "ts \<in> set (map bar_timestamp (series_bars key rows))"
  then obtain b where "b \<in> set (series_bars key rows)" "ts = bar_timestamp b" by auto
  then show "ts \<in> dom (bars_of rows key)"
    using series_bars_set [OF assms] by auto
next
  fix ts assume "ts \<in> dom (bars_of rows key)"
  then obtain b where b: "bars_of rows key ts = Some b" by auto
  then have "bar_timestamp b = ts" by (rule bars_of_stamp)
  with b show "ts \<in> set (map bar_timestamp (series_bars key rows))"
    using series_bars_set [OF assms, of b key] by force
qed

lemma sp_coverage_some:
  assumes "keys_distinct rows" and "sp_get_price_bar_coverage key rows = Some (mn, mx)"
  shows "mn \<in> dom (bars_of rows key) \<and> mx \<in> dom (bars_of rows key)
    \<and> (\<forall>ts \<in> dom (bars_of rows key). mn \<le> ts \<and> ts \<le> mx)"
proof -
  let ?T = "set (map bar_timestamp (series_bars key rows))"
  have ne: "?T \<noteq> {}" and eq: "mn = Min ?T" "mx = Max ?T"
    using assms(2) by (auto simp: sp_get_price_bar_coverage_def Let_def split: if_splits)
  have fin: "finite ?T" by simp
  have "mn \<in> ?T" and "mx \<in> ?T"
    unfolding eq using Min_in [OF fin ne] Max_in [OF fin ne] by simp_all
  moreover have "\<forall>ts \<in> ?T. mn \<le> ts \<and> ts \<le> mx"
    unfolding eq using Min_le [OF fin] Max_ge [OF fin] by blast
  ultimately show ?thesis
    unfolding coverage_set [OF assms(1), symmetric] by blast
qed

lemma sp_coverage_none:
  "keys_distinct rows \<Longrightarrow> sp_get_price_bar_coverage key rows = None \<Longrightarrow> bars_of rows key = Map.empty"
  using coverage_set [of rows key]
  by (auto simp: sp_get_price_bar_coverage_def Let_def split: if_splits)

lemma repo_ins_bar_cases:
  assumes "bars_wf (fst w)" and "repo_ins_bar key b w = (x, w')"
  shows "bars_wf (fst w') \<and> grows bar_map w w'"
    and "x = Inr u \<Longrightarrow> bar_map w key (bar_timestamp b) = None \<and> bar_map w' key (bar_timestamp b) = Some b"
    and "x = Inl (ProcedureError unique_violation m) \<Longrightarrow> bar_map w' key (bar_timestamp b) \<noteq> None"
proof -
  let ?f = "\<lambda>rows. bindR (sp_ins_price_bar key b rows) (\<lambda>rows'. Inr ((), rows'))"
  have run: "on_bars ?f w = (x, w')" using assms(2) by (simp add: repo_ins_bar_def)
  show "bars_wf (fst w') \<and> grows bar_map w w'"
    using assms(1) run
  proof (rule on_bars_frame)
    fix rows y rows'
    assume "keys_distinct rows" and "?f rows = Inr (y, rows')"
    then have ins: "sp_ins_price_bar key b rows = Inr rows'" "keys_distinct rows"
      by (auto simp: bindR_Inr_iff)
    show "keys_distinct rows' \<and> (\<forall>key. bars_of rows key \<subseteq>\<^sub>m bars_of rows' key)"
      using sp_ins_price_bar_Inr [OF ins] by (auto simp: map_le_def)
  qed
  show "x = Inr u \<Longrightarrow> bar_map w key (bar_timestamp b) = None \<and> bar_map w' key (bar_timestamp b) = Some b"
    using assms(1) run
  proof (cases rule: on_bars_cases)
    case (ran rows)
    assume "x = Inr u"
    with ran(4) [of u] obtain "sp_ins_price_bar key b rows = Inr (price_bars (fst w'))"
      by (auto simp: bindR_Inr_iff)
    note ins = sp_ins_price_bar_Inr [OF this ran(1)]
    have "bar_map w key (bar_timestamp b) = None"
      using ins ran(2) [of key] unfolding map_le_def by (metis domIff)
    with ins show ?thesis by (simp add: bar_map_def)
  qed simp
  show "x = Inl (ProcedureError unique_violation m) \<Longrightarrow> bar_map w' key (bar_timestamp b) \<noteq> None"
    using assms(1) run
  proof (cases rule: on_bars_cases)
    case (ran rows)
    assume "x = Inl (ProcedureError unique_violation m)"
    with ran(3) have "\<exists>e. sp_ins_price_bar key b rows = Inl e" "price_bars (fst w') = rows"
      by (auto simp: bindR_def split: sum.splits)
    then show ?thesis
      by (auto simp: sp_ins_price_bar_def has_bar_iff bar_map_def split: if_splits)
  qed simp
qed

lemma on_venue_frame: "on_venue f w = (x, w') \<Longrightarrow> fst w' = fst w"
  by (cases w) (auto simp: on_venue_def split: prod.splits)

interpretation bar_db: bar_store "price_bar_service env" "bars_wf \<circ> fst" bar_map
  for env :: "'v bar_env"
proof unfold_locales
  fix iv p
  assume "interval_period (price_bar_service env) iv = Inr p"
  then show "0 < p"
    by (auto simp: get_interval_period_def dest: parse_period_positive split: option.splits sum.splits)
next
  fix w w' :: "bar_db \<times> 'v" and key c
  assume "(bars_wf \<circ> fst) w" and "get_coverage (price_bar_service env) key w = (c, w')"
  then show "(bars_wf \<circ> fst) w' \<and> grows bar_map w w'"
    using on_bars_read(1) by (fastforce simp: repo_get_coverage_def)
next
  fix w w' :: "bar_db \<times> 'v" and key mn mx
  assume "(bars_wf \<circ> fst) w" and "get_coverage (price_bar_service env) key w = (Inr (Some (mn, mx)), w')"
  then have "keys_distinct (price_bars (fst w'))"
    and "sp_get_price_bar_coverage key (price_bars (fst w')) = Some (mn, mx)"
    using on_bars_read(2) [of w "sp_get_price_bar_coverage key" _ w' "Some (mn, mx)"]
    by (auto simp: repo_get_coverage_def)
  from sp_coverage_some [OF this]
  show "bar_map w' key mn \<noteq> None \<and> bar_map w' key mx \<noteq> None
      \<and> (\<forall>ts. bar_map w' key ts \<noteq> None \<longrightarrow> mn \<le> ts \<and> ts \<le> mx)"
    by (auto simp: bar_map_def dom_def)
next
  fix w w' :: "bar_db \<times> 'v" and key
  assume "(bars_wf \<circ> fst) w" and "get_coverage (price_bar_service env) key w = (Inr None, w')"
  then show "bar_map w' key = Map.empty"
    using on_bars_read(2) [of w "sp_get_price_bar_coverage key" _ w' None] sp_coverage_none
    by (auto simp: repo_get_coverage_def bar_map_def)
next
  fix w w' :: "bar_db \<times> 'v" and key s e x
  assume "(bars_wf \<circ> fst) w" and "get_bars (price_bar_service env) key s e w = (x, w')"
  then show "(bars_wf \<circ> fst) w' \<and> grows bar_map w w'"
    using on_bars_read(1) by (fastforce simp: repo_get_bars_def)
next
  fix w w' :: "bar_db \<times> 'v" and key s e rows
  assume "(bars_wf \<circ> fst) w" and "get_bars (price_bar_service env) key s e w = (Inr rows, w')"
  then have "keys_distinct (price_bars (fst w'))" and "rows = sp_get_price_bar key s e (price_bars (fst w'))"
    using on_bars_read(2) [of w "sp_get_price_bar key s e" _ w' rows] by (auto simp: repo_get_bars_def)
  then show "(\<forall>b. b \<in> set rows \<longleftrightarrow> bar_map w' key (bar_timestamp b) = Some b \<and> s \<le> bar_timestamp b \<and> bar_timestamp b \<le> e)
      \<and> distinct (map bar_timestamp rows)"
    using sp_get_price_bar_rows by (simp add: bar_map_def)
next
  fix w :: "bar_db \<times> 'v" and key ts b
  assume "bar_map w key ts = Some b"
  then show "bar_timestamp b = ts" unfolding bar_map_def by (rule bars_of_stamp)
next
  fix w w' :: "bar_db \<times> 'v" and key b i
  assume "(bars_wf \<circ> fst) w" and "ins_bar (price_bar_service env) key b w = (i, w')"
  then show "(bars_wf \<circ> fst) w' \<and> grows bar_map w w'"
    using repo_ins_bar_cases(1) [of w key b i w'] by simp
next
  fix w w' :: "bar_db \<times> 'v" and key b u
  assume "(bars_wf \<circ> fst) w" and "ins_bar (price_bar_service env) key b w = (Inr u, w')"
  then show "bar_map w key (bar_timestamp b) = None \<and> bar_map w' key (bar_timestamp b) = Some b"
    using repo_ins_bar_cases(2) [of w key b "Inr u" w' u] by simp
next
  fix w w' :: "bar_db \<times> 'v" and key b m
  assume "(bars_wf \<circ> fst) w"
    and "ins_bar (price_bar_service env) key b w = (Inl (ProcedureError unique_violation m), w')"
  then show "bar_map w' key (bar_timestamp b) \<noteq> None"
    using repo_ins_bar_cases(3) [of w key b _ w' m] by simp
next
  fix w w' :: "bar_db \<times> 'v" and symb p s e dt x
  assume "(bars_wf \<circ> fst) w" and "fetch (price_bar_service env) symb p s e dt w = (x, w')"
  then show "(bars_wf \<circ> fst) w' \<and> grows bar_map w w'"
    using on_venue_frame [of _ w x w'] by (auto simp: grows_def bar_map_def)
next
  fix w w' :: "bar_db \<times> 'v" and t
  assume "(bars_wf \<circ> fst) w" and "utc_now (price_bar_service env) w = (t, w')"
  then show "(bars_wf \<circ> fst) w' \<and> grows bar_map w w'"
    using on_venue_frame [of _ w t w'] by (auto simp: grows_def bar_map_def)
qed

section \<open>A small table\<close>

definition demo_bar :: "int \<Rightarrow> ohlcv" where
  "demo_bar ts = \<lparr>bar_timestamp = ts, open_px = Fin 1, high_px = Fin 2, low_px = Fin 1,
     close_px = Fin 2, volume = Fin 3\<rparr>"

definition demo_env :: "int list \<Rightarrow> unit bar_env" where
  "demo_env served =
     \<lparr>tm_intervals = [(1, PTimedelta 10)], xref = (\<lambda>c a. Some ''BTCUSDT''),
      issue_default_type = (\<lambda>c. Inr None),
      venue_fetch = (\<lambda>symb p s u dt v.
        (Inr (map demo_bar (filter (\<lambda>ts. s \<le> ts \<and> ts \<le> u) served)), v)),
      venue_earliest = (\<lambda>symb p dt v. (Inr (Some 10), v)), clock_now = (\<lambda>v. (115, v))\<rparr>"

definition demo_key :: series_key where
  "demo_key = Series ''BTC'' 1 7"

definition demo_bars :: "int list \<Rightarrow> bar_db \<times> unit" where
  "demo_bars tss = (\<lparr>price_bars = map (\<lambda>ts. (demo_key, demo_bar ts)) tss, arrivals = [], bar_faults = []\<rparr>, ())"

lemma demo_period [simp]: "get_interval_period (tm_intervals (demo_env X)) 1 = Inr 10"
  by (simp add: get_interval_period_def demo_env_def parse_period_def)

lemma demo_key_simps [simp]: "key_interval demo_key = 1" "key_cusip demo_key = ''BTC''" "key_app demo_key = 7"
  by (simp_all add: demo_key_def)

lemma demo_bars_wf: "distinct tss \<Longrightarrow> bars_wf (fst (demo_bars tss))"
  by (simp add: demo_bars_def bars_wf_def keys_distinct_def demo_bar_def o_def distinct_map inj_on_def)

lemma demo_fetch [simp]:
  "fetch_dict (price_bar_service (demo_env served)) demo_key p s u w
   = (Inr (map demo_bar (filter (\<lambda>ts. s \<le> ts \<and> ts \<le> u) served)), w)"
  by (cases w) (simp add: fetch_dict_def vendor_symbol_def bindC_def demo_env_def on_venue_def)

lemma demo_bar_stamp [simp]: "bar_timestamp (demo_bar ts) = ts"
  by (simp add: demo_bar_def)

lemma demo_insert [simp]:
  "ts \<notin> set tss \<Longrightarrow> insert_bar (price_bar_service env) demo_key (demo_bar ts) (demo_bars tss)
   = (Inr True, demo_bars (ts # tss))"
  by (simp add: insert_bar_def repo_ins_bar_def on_bars_def demo_bars_def sp_ins_price_bar_def has_bar_def
      list_ex_iff Let_def bindR_def)

lemma demo_coverage:
  "repo_get_coverage demo_key (demo_bars [10,20,30,40,60,70,80,90,100])
   = (Inr (Some (10, 100)), demo_bars [10,20,30,40,60,70,80,90,100])"
  "repo_get_coverage demo_key (demo_bars [10,20,30,40]) = (Inr (Some (10, 40)), demo_bars [10,20,30,40])"
  "repo_get_coverage demo_key (demo_bars [10,20,30]) = (Inr (Some (10, 30)), demo_bars [10,20,30])"
  "repo_get_coverage demo_key (demo_bars [20,30]) = (Inr (Some (20, 30)), demo_bars [20,30])"
  by code_simp+

lemma demo_rows:
  "repo_get_bars demo_key 10 100 (demo_bars [10,20,30,40,60,70,80,90,100])
   = (Inr (map demo_bar [10,20,30,40,60,70,80,90,100]), demo_bars [10,20,30,40,60,70,80,90,100])"
  "repo_get_bars demo_key 10 100 (demo_bars [10,20,30,40])
   = (Inr (map demo_bar [10,20,30,40]), demo_bars [10,20,30,40])"
  "repo_get_bars demo_key 10 100 (demo_bars [100,90,80,70,60,10,20,30,40])
   = (Inr (map demo_bar [10,20,30,40,60,70,80,90,100]), demo_bars [100,90,80,70,60,10,20,30,40])"
  by code_simp+

lemma demo_values: "last_closed_bar 115 10 = 100" "required_bars 10 = 8"
  "bar_starts 10 100 10 = [10,20,30,40,50,60,70,80,90,100]"
  by code_simp+

lemmas demo_run = now_or_def Let_def bindC_def demo_coverage demo_rows demo_values

lemma demo_fresh:
  "ensure_fresh (price_bar_service (demo_env X)) demo_key 10 (Some 115)
     (demo_bars [10,20,30,40,60,70,80,90,100])
   = (Inr 0, demo_bars [10,20,30,40,60,70,80,90,100])"
  by (simp add: ensure_fresh_def demo_run del: bindC_Inr bindC_Inl)

lemma demo_gaps:
  "find_gaps (price_bar_service (demo_env X)) demo_key 10 100 (demo_bars [10,20,30,40])
   = (Inr [50,60,70,80,90,100], demo_bars [10,20,30,40])"
  by (simp add: find_gaps_def demo_run del: bindC_Inr bindC_Inl)

lemma demo_fill:
  "ensure_fresh (price_bar_service (demo_env [60,70,80,90,100])) demo_key 10 (Some 115) (demo_bars [10,20,30,40])
   = (Inr 5, demo_bars [100,90,80,70,60,10,20,30,40])"
  by (simp add: ensure_fresh_def demo_run demo_gaps reject_incomplete_def unfilled_of_def bar_at_def earliest_of_def
     del: bindC_Inr bindC_Inl)

lemma demo_backfill:
  "backfill (price_bar_service (demo_env [60,70,80,90,100])) demo_key (Aware 10) (Some (Aware 100)) None
     (demo_bars [10,20,30,40])
   = (Inr \<lparr>bf_start = 10, bf_end = 100, expected = 10, missing = 6, bf_inserted = 5, unfilled = [50]\<rparr>,
      demo_bars [100,90,80,70,60,10,20,30,40])"
proof -
  have "int_truediv 90 10 = 9" by code_simp
  then show ?thesis
    by (simp add: backfill_def end_or_closed_def as_utc_def span_of_def max_backfill_bars_def demo_run demo_gaps
        unfilled_of_def bar_at_def del: bindC_Inr bindC_Inl)
qed

text \<open>The gate looks only at the newest bar: a hole behind it is never found.\<close>

theorem fresh_gate_skips_hole:
  "\<exists>rows. fst (load_window (price_bar_service (demo_env [10,20,30,40,50,60,70,80,90,100])) ''BTC'' 10 1 7
       (Some 115) False (demo_bars [10,20,30,40,60,70,80,90,100])) = Inr rows
     \<and> 40 \<in> idx ` set rows \<and> 60 \<in> idx ` set rows \<and> 50 \<notin> idx ` set rows"
  by (simp add: load_window_def demo_fresh read_bars_def ohlcv_frame_def demo_run frame_row_of_def flip: demo_key_def
      del: bindC_Inr bindC_Inl)

text \<open>The earliest fetched bar is taken for the listing date, even with older bars stored.\<close>

theorem gate_takes_hole_for_listing:
  "\<exists>rows. fst (load_window (price_bar_service (demo_env [60,70,80,90,100])) ''BTC'' 10 1 7
       (Some 115) False (demo_bars [10,20,30,40])) = Inr rows
     \<and> 40 \<in> idx ` set rows \<and> 60 \<in> idx ` set rows \<and> 50 \<notin> idx ` set rows"
  by (simp add: load_window_def demo_fill read_bars_def ohlcv_frame_def demo_run frame_row_of_def flip: demo_key_def
      del: bindC_Inr bindC_Inl)

text \<open>A target off the boundaries: one pass always remains, and it cannot be run.\<close>

theorem unaligned_plan_stalls:
  "fst (plan_backfill (price_bar_service (demo_env [])) demo_key (Aware 15) (Some 115) (demo_bars [20,30]))
     = Inr \<lparr>plan_start = Some 15, plan_end = Some 10, plan_bars = 1, passes_remaining = 1, plan_target = 15\<rparr>
   \<and> fst (backfill (price_bar_service (demo_env [])) demo_key (Aware 15) (Some (Aware 10)) None (demo_bars [20,30]))
     = Inl (MktPy (ValueError ''start is after end''))"
proof -
  have "int_truediv (- 5) 10 = 0" by code_simp
  then show ?thesis
    by (simp add: plan_backfill_def stored_bounds_def plan_pass_def backfill_def end_or_closed_def as_utc_def
        span_of_def max_backfill_bars_def demo_run del: bindC_Inr bindC_Inl)
qed

section \<open>Properties\<close>

text \<open>Repository calls leave the venue's part of the world alone; only the one fetch moves it.\<close>

lemma on_bars_venue: "on_bars f w = (x, w') \<Longrightarrow> snd w' = snd w"
  by (cases w) (auto simp: on_bars_def Let_def split: list.splits option.splits sum.splits prod.splits)

lemma store_bars_venue:
  "store_bars (price_bar_service env) key fetched tss n w = (x, w') \<Longrightarrow> snd w' = snd w"
proof (induction tss arbitrary: n w)
  case (Cons ts tss)
  have ins: "snd v' = snd v" if "insert_bar (price_bar_service env) key b v = (y, v')" for b v y v'
    using that
    by (auto simp: insert_bar_def repo_ins_bar_def dest: on_bars_venue split: prod.splits sum.splits if_splits)
  show ?case
  proof (cases "bar_at fetched ts")
    case None
    then show ?thesis using Cons by simp
  next
    case (Some b)
    obtain y v where i: "insert_bar (price_bar_service env) key b w = (y, v)" by (metis surj_pair)
    with ins have v: "snd v = snd w" by blast
    show ?thesis
      using Cons.prems Some i v Cons.IH [of _ v] by (cases y) (auto simp: bindC_def split: if_splits)
  qed
qed simp

lemma find_gaps_venue: "find_gaps (price_bar_service env) key s e w = (x, w') \<Longrightarrow> snd w' = snd w"
  by (auto simp: find_gaps_def repo_get_bars_def liftR_def bindC_def dest: on_bars_venue
      split: prod.splits sum.splits)

lemma fetch_dict_venue:
  assumes "fetch_dict (price_bar_service env) key p s u w = (Inr bars, w')"
  shows "\<exists>symb dt. xref env (key_cusip key) (key_app key) = Some symb
    \<and> issue_default_type env (key_cusip key) = Inr dt
    \<and> venue_fetch env symb p s u dt (snd w) = (Inr bars, snd w') \<and> fst w' = fst w"
proof -
  obtain db v where w: "w = (db, v)" by (cases w)
  obtain symb dt where x: "xref env (key_cusip key) (key_app key) = Some symb"
    "issue_default_type env (key_cusip key) = Inr dt" "on_venue (venue_fetch env symb p s u dt) (db, v) = (Inr bars, w')"
    using assms by (auto simp: fetch_dict_def vendor_symbol_def bindC_Inr_iff w split: option.splits)
  obtain r v' where "venue_fetch env symb p s u dt v = (r, v')" by (metis surj_pair)
  with x w show ?thesis by (auto simp: on_venue_def)
qed

text \<open>The rows a call on the table sees: the stored ones after the first batch of arrivals.\<close>

definition seen_rows :: "bar_db \<Rightarrow> (series_key \<times> ohlcv) list" where
  "seen_rows db = (case arrivals db of [] \<Rightarrow> price_bars db | news # _ \<Rightarrow> arrive news (price_bars db))"

lemma coverage_sees:
  "repo_get_coverage key w = (Inr c, w') \<Longrightarrow> price_bars (fst w') = seen_rows (fst w)"
  by (cases w) (auto simp: repo_get_coverage_def on_bars_def seen_rows_def Let_def split: list.splits option.splits)

lemma not_fresh_coverage:
  assumes "bars_wf (fst w)" and "\<forall>ts \<ge> newest. bars_of (seen_rows (fst w)) key ts = None"
  shows "\<not> (\<exists>mn mx v. repo_get_coverage key w = (Inr (Some (mn, mx)), v) \<and> newest \<le> mx)"
proof
  assume "\<exists>mn mx v. repo_get_coverage key w = (Inr (Some (mn, mx)), v) \<and> newest \<le> mx"
  then obtain mn mx v where cov: "repo_get_coverage key w = (Inr (Some (mn, mx)), v)" "newest \<le> mx" by blast
  have "bar_map v key mx \<noteq> None"
    using bar_db.coverage_some [of w undefined key mn mx v] cov assms(1) by simp
  with coverage_sees [OF cov(1)] assms(2) cov(2) show False
    by (simp add: bar_map_def)
qed



section \<open>A backfill returns\<close>

text \<open>No call on the table fails.\<close>

definition no_faults :: "bar_db \<times> 'v \<Rightarrow> bool" where
  "no_faults w \<longleftrightarrow> (\<forall>f \<in> set (bar_faults (fst w)). f = None)"

lemma on_bars_answers:
  assumes "no_faults w" and "on_bars f w = (x, w')"
  shows "no_faults w'" and "\<exists>rows. x = map_sum id fst (f rows)"
proof -
  obtain db v where w: "w = (db, v)" by (cases w)
  have tl: "\<forall>f \<in> set (tl (bar_faults db)). f = None" and hd: "\<not> (\<exists>st m fs. bar_faults db = Some (st, m) # fs)"
    using assms(1) by (cases "bar_faults db"; auto simp: no_faults_def w)+
  let ?rows = "case arrivals db of [] \<Rightarrow> price_bars db | news # _ \<Rightarrow> arrive news (price_bars db)"
  have run: "on_bars f w = (case f ?rows of Inl e \<Rightarrow> (Inl e, (db\<lparr>price_bars := ?rows, arrivals := tl (arrivals db), bar_faults := tl (bar_faults db)\<rparr>, v))
      | Inr (y, rows') \<Rightarrow> (Inr y, (db\<lparr>price_bars := rows', arrivals := tl (arrivals db), bar_faults := tl (bar_faults db)\<rparr>, v)))"
    using hd by (auto simp: w on_bars_def Let_def split: list.split option.split sum.split prod.split)
  then show "no_faults w'"
    using assms(2) tl by (auto simp: no_faults_def split: sum.splits prod.splits)
  have "x = map_sum id fst (f ?rows)"
    using run assms(2) by (auto split: sum.splits prod.splits)
  then show "\<exists>rows. x = map_sum id fst (f rows)" by blast
qed

lemma insert_bar_answers:
  assumes "no_faults w"
  shows "\<exists>b w'. insert_bar (price_bar_service env) key bar w = (Inr b, w') \<and> no_faults w'"
proof -
  obtain x w' where i: "repo_ins_bar key bar w = (x, w')" by (metis surj_pair)
  note a = on_bars_answers [OF assms i [unfolded repo_ins_bar_def]]
  then obtain rows where "x = map_sum id fst (bindR (sp_ins_price_bar key bar rows) (\<lambda>rows'. Inr ((), rows')))"
    by blast
  then have "case x of Inl e \<Rightarrow> is_unique_violation e | Inr u \<Rightarrow> True"
    by (auto simp: sp_ins_price_bar_def is_unique_violation_def)
  with a(1) i have "\<exists>b. insert_bar (price_bar_service env) key bar w = (Inr b, w')"
    by (auto simp: insert_bar_def split: sum.splits)
  with a(1) show ?thesis by blast
qed

lemma store_bars_answers:
  "no_faults w \<Longrightarrow> \<exists>m w'. store_bars (price_bar_service env) key fetched tss n w = (Inr m, w')"
proof (induction tss arbitrary: n w)
  case (Cons ts tss)
  show ?case
  proof (cases "bar_at fetched ts")
    case (Some b)
    obtain ok v where i: "insert_bar (price_bar_service env) key b w = (Inr ok, v)" "no_faults v"
      using insert_bar_answers [OF Cons.prems] by blast
    from Cons.IH [OF i(2), of "if ok then Suc n else n"] show ?thesis
      using Some i(1) by (simp add: bindC_Inr_iff del: bindC_Inr)
  qed (use Cons in simp)
qed simp

lemma find_gaps_answers:
  assumes "no_faults w" and "get_interval_period (tm_intervals env) (key_interval key) = Inr p"
  shows "\<exists>gaps w'. find_gaps (price_bar_service env) key s e w = (Inr gaps, w') \<and> no_faults w'"
proof -
  obtain x w' where i: "repo_get_bars key s e w = (x, w')" by (metis surj_pair)
  note a = on_bars_answers [OF assms(1) i [unfolded repo_get_bars_def]]
  then obtain rows where "x = Inr rows" by auto
  with a(1) i assms(2) show ?thesis by (simp add: find_gaps_def bindC_def)
qed

lemma backfill_end:
  "end_or_closed (price_bar_service env) end_ts now p w
   = (Inr (case end_ts of Some t \<Rightarrow> as_utc t
           | None \<Rightarrow> last_closed_bar (case now of Some t \<Rightarrow> t | None \<Rightarrow> fst (clock_now env (snd w))) p),
      (fst w, if end_ts = None \<and> now = None then snd (clock_now env (snd w)) else snd w))"
  by (cases w) (auto simp: end_or_closed_def now_or_def bindC_def on_venue_def split: option.splits prod.splits)

lemma backfill_returns:
  assumes "no_faults w" and p: "get_interval_period (tm_intervals env) (key_interval key) = Inr p" and "0 < p"
    and "xref env (key_cusip key) (key_app key) = Some symb" and "issue_default_type env (key_cusip key) = Inr dt"
    and e: "end_or_closed (price_bar_service env) end_ts now p w = (Inr e, w1)" "fst w1 = fst w"
    and "\<forall>s v. \<exists>bars v'. venue_fetch env symb p s e dt v = (Inr bars, v')"
    and "as_utc start_ts \<le> e" and "e - as_utc start_ts \<le> 9999 * p"
  shows "\<exists>r w'. backfill (price_bar_service env) key start_ts end_ts now w = (Inr r, w')
    \<and> bf_start r = as_utc start_ts \<and> bf_end r = e"
proof -
  let ?svc = "price_bar_service env" and ?s = "as_utc start_ts"
  have "9999 * p < 2 ^ 53 * p" using assms(3) by simp
  then have "int_truediv (e - ?s) p \<le> 9999"
    using assms(3,9,10) by (intro int_truediv_bounds(2)) linarith+
  then have span: "\<not> max_backfill_bars < span_of ?s e p"
    by (simp add: span_of_def max_backfill_bars_def)
  have "no_faults w1" using assms(1) e(2) by (simp add: no_faults_def)
  from find_gaps_answers [OF this p] obtain gaps w2
    where g: "find_gaps ?svc key ?s e w1 = (Inr gaps, w2)" "no_faults w2" by blast
  show ?thesis
  proof (cases "gaps = []")
    case True
    then show ?thesis
      using e(1) g p assms(9) span by (simp add: backfill_def bindC_def Let_def)
  next
    case False
    obtain db v where w2: "w2 = (db, v)" by (cases w2)
    obtain bars v' where "venue_fetch env symb p (hd gaps) e dt v = (Inr bars, v')" using assms(8) by blast
    then have f: "fetch_dict ?svc key p (hd gaps) e w2 = (Inr bars, (db, v'))"
      using assms(4,5) by (simp add: fetch_dict_def vendor_symbol_def bindC_def on_venue_def w2)
    have "no_faults (db, v')" using g(2) by (simp add: no_faults_def w2)
    from store_bars_answers [OF this] obtain m w3 where st: "store_bars ?svc key bars gaps 0 (db, v') = (Inr m, w3)"
      by blast
    show ?thesis
      using e(1) g f st p assms(9) span False by (simp add: backfill_def bindC_def Let_def)
  qed
qed

text \<open>C37: A backfill stores what can be recovered and reports what cannot. On a database that
  answers, for an instrument the venue maps and a venue that answers, a range of at most ten
  thousand bars (its length at most 9999 periods) returns, however little of it the venue serves
  and whatever other workers insert meanwhile. Every boundary of the range it does not list as
  unfilled is stored when it returns, so an empty list means the range is continuous. An unfilled
  boundary was not stored before and is not among the bars the venue returned when it was asked
  for the range from a boundary no later than it. No stored bar was changed.\<close>

theorem backfill_reports:
  assumes "bars_wf (fst w)" and "no_faults w"
    and "get_interval_period (tm_intervals env) (key_interval key) = Inr p"
    and "xref env (key_cusip key) (key_app key) = Some symb" and "issue_default_type env (key_cusip key) = Inr dt"
    and "e = (case end_ts of Some t \<Rightarrow> as_utc t
           | None \<Rightarrow> last_closed_bar (case now of Some t \<Rightarrow> t | None \<Rightarrow> fst (clock_now env (snd w))) p)"
    and "v = (if end_ts = None \<and> now = None then snd (clock_now env (snd w)) else snd w)"
    and "\<forall>s u. \<exists>bars u'. venue_fetch env symb p s e dt u = (Inr bars, u')"
    and "as_utc start_ts \<le> e" and "e - as_utc start_ts \<le> 9999 * p"
  shows "\<exists>r w'. backfill (price_bar_service env) key start_ts end_ts now w = (Inr r, w')
    \<and> bf_start r = as_utc start_ts \<and> bf_end r = e
    \<and> expected r = length (bar_starts (as_utc start_ts) e p)
    \<and> set (unfilled r) \<subseteq> set (bar_starts (as_utc start_ts) e p)
    \<and> (\<forall>ts \<in> set (bar_starts (as_utc start_ts) e p). ts \<notin> set (unfilled r) \<longrightarrow> bar_map w' key ts \<noteq> None)
    \<and> (unfilled r \<noteq> [] \<longrightarrow> (\<exists>s bars. venue_fetch env symb p s e dt v = (Inr bars, snd w')
         \<and> (\<forall>ts \<in> set (unfilled r). s \<le> ts \<and> bar_map w key ts = None \<and> ts \<notin> bar_timestamp ` set bars)))
    \<and> (\<forall>k ts b. bar_map w k ts = Some b \<longrightarrow> bar_map w' k ts = Some b)"
proof -
  let ?svc = "price_bar_service env"
  have p: "interval_period ?svc (key_interval key) = Inr p" using assms(3) by simp
  have pos: "0 < p" by (rule bar_db.period_pos [OF p])
  have e: "end_or_closed ?svc end_ts now p w = (Inr e, (fst w, v))"
    unfolding assms(6,7) by (rule backfill_end)
  obtain r w' where run: "backfill ?svc key start_ts end_ts now w = (Inr r, w')"
    and r: "bf_start r = as_utc start_ts" "bf_end r = e"
    using backfill_returns [OF assms(2,3) pos assms(4,5) e _ assms(8-10)] by auto
  have good: "(bars_wf \<circ> fst) w" using assms(1) by simp
  note fills = bar_db.backfill_fills [OF good run p, unfolded r]
  then have grown: "grows bar_map w w'" unfolding bar_db.steps_def by blast
  have kept: "\<forall>k ts b. bar_map w k ts = Some b \<longrightarrow> bar_map w' k ts = Some b"
    using grows_keeps [OF grown] by blast
  have f: "expected r = length (bar_starts (as_utc start_ts) e p)"
    "set (unfilled r) \<subseteq> set (bar_starts (as_utc start_ts) e p)"
    "\<forall>ts \<in> set (bar_starts (as_utc start_ts) e p). ts \<notin> set (unfilled r) \<longrightarrow> bar_map w' key ts \<noteq> None"
    using fills by blast+
  have served: "\<exists>s bars. venue_fetch env symb p s e dt v = (Inr bars, snd w')
         \<and> (\<forall>ts \<in> set (unfilled r). s \<le> ts \<and> bar_map w key ts = None \<and> ts \<notin> bar_timestamp ` set bars)"
    if ne: "unfilled r \<noteq> []"
  proof -
    obtain w1 gaps w2 bars w3 n where w1: "end_or_closed ?svc end_ts now p w = (Inr e, w1)"
      and g: "find_gaps ?svc key (as_utc start_ts) e w1 = (Inr gaps, w2)"
      and f: "fetch_dict ?svc key p (hd gaps) e w2 = (Inr bars, w3)"
      and st: "store_bars ?svc key bars gaps 0 w3 = (Inr n, w')"
      and un: "\<forall>ts \<in> set (unfilled r). hd gaps \<le> ts \<and> bar_map w key ts = None \<and> ts \<notin> bar_timestamp ` set bars"
      using fills ne by (elim conjE disjE exE) (simp, (rule that; assumption))
    have "snd w2 = v" "snd w' = snd w3"
      using w1 e find_gaps_venue [OF g] store_bars_venue [OF st] by auto
    then have "venue_fetch env symb p (hd gaps) e dt v = (Inr bars, snd w')"
      using fetch_dict_venue [OF f] assms(4,5) by auto
    with un show ?thesis by blast
  qed
  show ?thesis
    by (rule exI [of _ r], rule exI [of _ w'], intro conjI impI)
      (fact run, fact r(1), fact r(2), fact f(1), fact f(2), fact f(3), rule served, assumption, fact kept)
qed

theorem backfill_reports_witness:
  "\<exists>r w'. backfill (price_bar_service (demo_env [60,70,80,90,100])) demo_key (Aware 10) (Some (Aware 100)) None
     (demo_bars [10,20,30,40]) = (Inr r, w') \<and> (90 \<in> set (unfilled r) \<or> bar_map w' demo_key 90 \<noteq> None)"
proof -
  have wf: "bars_wf (fst (demo_bars [10,20,30,40]))" by (rule demo_bars_wf) simp
  have quiet: "no_faults (demo_bars [10,20,30,40])" by (simp add: no_faults_def demo_bars_def)
  have env: "xref (demo_env [60,70,80,90,100]) (key_cusip demo_key) (key_app demo_key) = Some ''BTCUSDT''"
    "issue_default_type (demo_env [60,70,80,90,100]) (key_cusip demo_key) = Inr None"
    "get_interval_period (tm_intervals (demo_env [60,70,80,90,100])) (key_interval demo_key) = Inr 10"
    "\<forall>s u. \<exists>bars u'. venue_fetch (demo_env [60,70,80,90,100]) ''BTCUSDT'' 10 s 100 None u = (Inr bars, u')"
    by (simp_all add: demo_env_def get_interval_period_def parse_period_def)
  have e: "100 = (case Some (Aware 100) of Some t \<Rightarrow> as_utc t
      | None \<Rightarrow> last_closed_bar (case None of Some t \<Rightarrow> t
          | None \<Rightarrow> fst (clock_now (demo_env [60,70,80,90,100]) (snd (demo_bars [10,20,30,40])))) 10)"
    by (simp add: as_utc_def)
  have rng: "as_utc (Aware 10) \<le> 100" "100 - as_utc (Aware 10) \<le> 9999 * 10" by (simp_all add: as_utc_def)
  have mem: "90 \<in> set (bar_starts (as_utc (Aware 10)) 100 10)" by (simp add: as_utc_def demo_values)
  note T = backfill_reports [OF wf quiet env(3,1,2) e refl env(4) rng]
  then obtain r w' where "backfill (price_bar_service (demo_env [60,70,80,90,100])) demo_key (Aware 10)
      (Some (Aware 100)) None (demo_bars [10,20,30,40]) = (Inr r, w')"
    "\<forall>ts \<in> set (bar_starts (as_utc (Aware 10)) 100 10). ts \<notin> set (unfilled r) \<longrightarrow> bar_map w' demo_key ts \<noteq> None"
    by (elim exE conjE) (rule that; assumption)
  with mem show ?thesis by blast
qed

theorem plan_backfill_progress_witness:
  "\<exists>plan. plan_backfill (price_bar_service (demo_env [])) demo_key (Aware 10) (Some 200) (demo_bars [10,20,30])
      = (Inr plan, demo_bars [10,20,30]) \<and> passes_remaining plan = 0"
proof -
  let ?svc = "price_bar_service (demo_env [])"
  let ?plan = "\<lparr>plan_start = Some 10, plan_end = Some 10, plan_bars = 1, passes_remaining = 1, plan_target = 10\<rparr>"
  have z: "int_truediv 0 10 = 0" by code_simp
  have p: "interval_period ?svc (key_interval demo_key) = Inr 10" by simp
  have al: "10 dvd mn" if "get_coverage ?svc demo_key (demo_bars [20,30]) = (Inr (Some (mn, mx)), v)" for mn mx v
    using that by (simp add: demo_coverage)
  have plan: "plan_backfill ?svc demo_key (Aware 10) (Some 115) (demo_bars [20,30]) = (Inr ?plan, demo_bars [20,30])"
    using z by (simp add: plan_backfill_def stored_bounds_def plan_pass_def as_utc_def
        span_of_def max_backfill_bars_def demo_run del: bindC_Inr bindC_Inl)
  have cov: "get_coverage ?svc demo_key (demo_bars [10,20,30]) = (Inr (Some (10, 30)), demo_bars [10,20,30])"
    by (simp add: demo_coverage)
  from plan_backfill_progress [OF p _ _ al plan _ _ _ cov, where now' = 200 and e = 10] show ?thesis
    by (simp add: as_utc_def)
qed

end
