(* ===== verification/BarWarm.thy ===== *)
theory BarWarm
  imports PriceBarDb "HOL-Library.Product_Lexorder"
begin

text \<open>
  \<^verbatim>\<open>quant/market_data/warm.py\<close>: one pass that brings every series some source names up to
  date, grouped by interval and venue. A source is a call that lists \<open>(interval, venue,
  instrument)\<close> rows; the factory maps a venue to its bar service or raises. The settle delay is
  left out: \<open>now\<close> is the instant read after it.
\<close>

type_synonym series_row = "int \<times> int \<times> string"

record warm_result =
  wr_tm_interval_id :: int
  wr_app_id :: int
  wr_instruments :: nat
  wr_inserted :: nat
  wr_failures :: "(string \<times> mkt_exn) list"

definition report_instruments :: "warm_result list \<Rightarrow> nat" where
  "report_instruments rs = sum_list (map wr_instruments rs)"

definition report_inserted :: "warm_result list \<Rightarrow> nat" where
  "report_inserted rs = sum_list (map wr_inserted rs)"

definition report_failed :: "warm_result list \<Rightarrow> nat" where
  "report_failed rs = sum_list (map (\<lambda>r. length (wr_failures r)) rs)"

definition warm_group ::
  "(int \<Rightarrow> mkt_exn + 'w bar_service) \<Rightarrow> int \<Rightarrow> int \<Rightarrow> int \<Rightarrow> int \<Rightarrow> string list \<Rightarrow> 'w \<Rightarrow> warm_result \<times> 'w"
  where
  "warm_group for_app lookback now iv app cusips w =
     (case for_app app of
        Inl e \<Rightarrow>
          (\<lparr>wr_tm_interval_id = iv, wr_app_id = app, wr_instruments = card (set cusips),
            wr_inserted = 0, wr_failures = map (\<lambda>c. (c, e)) (dedup [] cusips)\<rparr>, w)
      | Inr svc \<Rightarrow>
          (case sync svc (map (\<lambda>c. (c, app)) cusips) iv lookback (Some now) w of
             (out, w') \<Rightarrow>
               (\<lparr>wr_tm_interval_id = iv, wr_app_id = app, wr_instruments = instruments out,
                 wr_inserted = inserted out, wr_failures = failures out\<rparr>, w')))"

definition group_keys :: "series_row list \<Rightarrow> (int \<times> int) list" where
  "group_keys rows = sorted_list_of_set (set (map (\<lambda>(iv, app, c). (iv, app)) rows))"

definition group_cusips :: "series_row list \<Rightarrow> int \<times> int \<Rightarrow> string list" where
  "group_cusips rows key =
     List.map_filter (\<lambda>(iv, app, c). if (iv, app) = key then Some c else None) rows"

fun warm_groups ::
  "(int \<Rightarrow> mkt_exn + 'w bar_service) \<Rightarrow> int \<Rightarrow> int \<Rightarrow> series_row list \<Rightarrow> (int \<times> int) list
   \<Rightarrow> 'w \<Rightarrow> warm_result list \<times> 'w" where
  "warm_groups for_app lookback now rows [] w = ([], w)"
| "warm_groups for_app lookback now rows (key # keys) w =
     (case warm_group for_app lookback now (fst key) (snd key) (group_cusips rows key) w of
        (r, w') \<Rightarrow>
          (case warm_groups for_app lookback now rows keys w' of (rs, w'') \<Rightarrow> (r # rs, w'')))"

fun all_rows :: "('w, mkt_exn, series_row list) call list \<Rightarrow> ('w, mkt_exn, series_row list) call" where
  "all_rows [] = returnC []"
| "all_rows (src # srcs) = bindC src (\<lambda>xs. bindC (all_rows srcs) (\<lambda>ys. returnC (xs @ ys)))"

definition warm_run ::
  "('w, mkt_exn, series_row list) call list \<Rightarrow> (int \<Rightarrow> mkt_exn + 'w bar_service) \<Rightarrow> int \<Rightarrow> int
   \<Rightarrow> ('w, mkt_exn, warm_result list) call" where
  "warm_run sources for_app lookback now =
     bindC (all_rows sources) (\<lambda>rows w.
       case warm_groups for_app lookback now rows (group_keys rows) w of (rs, w') \<Rightarrow> (Inr rs, w'))"

section \<open>Counting\<close>

lemma sync_loop_instruments:
  "distinct seen \<Longrightarrow>
   instruments (fst (sync_loop svc iv lb now pairs seen n fails w)) = card (set pairs \<union> set seen)"
proof (induction svc iv lb now pairs seen n fails w rule: sync_loop.induct)
  case (1 svc iv lookback now seen n fails w)
  then show ?case by (simp add: distinct_card)
next
  case (2 svc iv lookback now cusip app rest seen n fails w)
  show ?case
  proof (cases "(cusip, app) \<in> set seen")
    case True
    with 2 show ?thesis by (simp add: insert_absorb)
  next
    case False
    with 2 show ?thesis by (auto split: prod.splits sum.splits)
  qed
qed

lemma sync_loop_failures:
  "fst ` set fails \<subseteq> C \<Longrightarrow> fst ` set pairs \<subseteq> C \<Longrightarrow>
   fst ` set (failures (fst (sync_loop svc iv lb now pairs seen n fails w))) \<subseteq> C"
proof (induction svc iv lb now pairs seen n fails w rule: sync_loop.induct)
  case (1 svc iv lookback now seen n fails w)
  then show ?case by simp
next
  case (2 svc iv lookback now cusip app rest seen n fails w)
  have upd: "fst ` set (AList.update cusip e fails) \<subseteq> C" for e
    using 2 by (simp add: AList.dom_update)
  with 2 show ?case by (auto split: prod.splits sum.splits)
qed

lemma warm_group_spec:
  assumes "warm_group for_app lb now iv app cusips w = (r, w')"
  shows "wr_tm_interval_id r = iv \<and> wr_app_id r = app \<and> wr_instruments r = card (set cusips)
    \<and> fst ` set (wr_failures r) \<subseteq> set cusips"
proof (cases "for_app app")
  case (Inl e)
  with assms show ?thesis by (auto simp: warm_group_def set_dedup)
next
  case (Inr svc)
  have "card (set (map (\<lambda>c. (c, app)) cusips)) = card (set cusips)"
    by (simp add: card_image inj_on_def)
  moreover have sub: "fst ` set (map (\<lambda>c. (c, app)) cusips) \<subseteq> set cusips"
    by auto
  ultimately show ?thesis
    using Inr assms sync_loop_instruments [of "[]" svc iv lb "Some now" "map (\<lambda>c. (c, app)) cusips" 0 "[]" w]
      sync_loop_failures [OF _ sub, of "[]" svc iv lb "Some now" "[]" 0 w]
    by (auto simp: warm_group_def sync_def image_subset_iff split: prod.splits)
qed

lemma group_cusips_set: "set (group_cusips rows k) = {c. (fst k, snd k, c) \<in> set rows}"
  by (induction rows) (auto simp: group_cusips_def List.map_filter_simps split: if_splits)

definition asked_failures :: "series_row list \<Rightarrow> warm_result \<Rightarrow> bool" where
  "asked_failures rows r \<longleftrightarrow>
     (\<forall>c \<in> fst ` set (wr_failures r). (wr_tm_interval_id r, wr_app_id r, c) \<in> set rows)"

lemma warm_groups_spec:
  assumes "warm_groups for_app lb now rows keys w = (rs, w')"
  shows "map (\<lambda>r. (wr_tm_interval_id r, wr_app_id r)) rs = keys
    \<and> map wr_instruments rs = map (\<lambda>k. card (set (group_cusips rows k))) keys
    \<and> list_all (asked_failures rows) rs"
  using assms
proof (induction keys arbitrary: w rs w')
  case Nil
  then show ?case by simp
next
  case (Cons k keys)
  obtain r w1 where one: "warm_group for_app lb now (fst k) (snd k) (group_cusips rows k) w = (r, w1)"
    by (meson surj_pair)
  obtain rs' w2 where rest: "warm_groups for_app lb now rows keys w1 = (rs', w2)"
    by (meson surj_pair)
  from Cons.prems one rest have rs: "rs = r # rs'" by simp
  have "asked_failures rows r"
    using warm_group_spec [OF one] group_cusips_set [of rows k] by (auto simp: asked_failures_def)
  with Cons.IH [OF rest] rs warm_group_spec [OF one] show ?case by simp
qed

lemma sum_groups:
  "sum_list (map (\<lambda>k. card (set (group_cusips rows k))) (group_keys rows)) = card (set rows)"
proof -
  let ?K = "set (map (\<lambda>(iv, app, c). (iv, app)) rows)"
  let ?P = "\<lambda>k. (\<lambda>c. (fst k, snd k, c)) ` set (group_cusips rows k)"
  have "sum_list (map (\<lambda>k. card (set (group_cusips rows k))) (group_keys rows))
      = (\<Sum>k \<in> ?K. card (set (group_cusips rows k)))"
    by (subst sum_list_distinct_conv_sum_set) (simp_all add: group_keys_def)
  also have "\<dots> = (\<Sum>k \<in> ?K. card (?P k))"
    by (intro sum.cong refl card_image [symmetric]) (auto simp: inj_on_def)
  also have "\<dots> = card (\<Union>k \<in> ?K. ?P k)"
    by (rule card_UN_disjoint [symmetric]) auto
  also have "(\<Union>k \<in> ?K. ?P k) = set rows"
    by (force simp: group_cusips_set)
  finally show ?thesis .
qed

section \<open>Properties\<close>

text \<open>A warm pass whose sources answer always returns, whatever the venues do: it visits each
  interval and venue pair the sources name exactly once, in ascending order, counts each named
  series once however many sources named it, and only reports failures of series it was asked
  for.\<close>

theorem warm_run_covers:
  assumes "all_rows sources w = (Inr rows, w1)"
  shows "\<exists>rs w'. warm_run sources for_app lookback now w = (Inr rs, w')
    \<and> map (\<lambda>r. (wr_tm_interval_id r, wr_app_id r)) rs
        = sorted_list_of_set (set (map (\<lambda>(iv, app, c). (iv, app)) rows))
    \<and> report_instruments rs = card (set rows) \<and> list_all (asked_failures rows) rs"
proof -
  obtain rs w' where run: "warm_groups for_app lookback now rows (group_keys rows) w1 = (rs, w')"
    by (meson surj_pair)
  have "warm_run sources for_app lookback now w = (Inr rs, w')"
    using assms run by (simp add: warm_run_def)
  with warm_groups_spec [OF run] sum_groups [of rows] show ?thesis
    by (auto simp: report_instruments_def group_keys_def)
qed

theorem warm_run_covers_witness:
  "\<exists>rs w'. warm_run [returnC [(1, 7, ''BTC''), (1, 7, ''BTC'')], returnC [(2, 7, ''ETH'')]]
      (\<lambda>app. Inr (price_bar_service (demo_env []))) 10 115 (demo_bars []) = (Inr rs, w')
    \<and> report_instruments rs = 2"
proof -
  have "all_rows [returnC [(1, 7, ''BTC''), (1, 7, ''BTC'')], returnC [(2, 7, ''ETH'')]] (demo_bars [])
      = (Inr [(1, 7, ''BTC''), (1, 7, ''BTC''), (2, 7, ''ETH'')], demo_bars [])"
    by simp
  from warm_run_covers [OF this, of "\<lambda>app. Inr (price_bar_service (demo_env []))" 10 115]
  show ?thesis by auto
qed

end
