(* ===== verification/Instruments.thy ===== *)
theory Instruments
  imports PyFloat
begin

text \<open>
  Products and the symbols venues give them (\<^verbatim>\<open>quant/data/instruments.py\<close>) on the tables
  \<open>INST.PRODUCT\<close> and \<open>INST.PRODUCT_XREF\<close> with their stored procedures.

  A call acts on the tables and on the cache of the process. Tables are lists of rows, newest
  first; user, log and created-at columns are left out, the version window that is still open is a
  flag. A call of the database fails with the head of \<open>inst_faults\<close>, if there is one; a call that
  fails writes nothing.
\<close>

section \<open>Tables\<close>

record inst_product =
  pd_id :: int
  pd_vid :: int
  pd_current :: bool
  pd_cusip :: string
  pd_display_nm :: string
  pd_asset_type :: "int option"
  pd_exchange :: "string option"
  pd_ccy :: "string option"
  pd_description :: "string option"
  pd_issue_type :: "string option"

record product_xref =
  xr_id :: int
  xr_vid :: int
  xr_open :: bool
  xr_product :: int
  xr_app :: int
  xr_symbol :: string

datatype inst_exn = InstProc string string | InstDriver string | InstPy py_exn

record inst_db =
  products :: "inst_product list"
  xrefs :: "product_xref list"
  inst_faults :: "inst_exn option list"

definition duplicate_key :: "string \<Rightarrow> inst_exn" where
  "duplicate_key index = InstProc ''23505'' (''duplicate key value violates unique constraint '' @ index)"

section \<open>Stored procedures\<close>

definition sp_get_product :: "inst_db \<Rightarrow> inst_product list" where
  "sp_get_product db = filter pd_current (products db)"

definition sp_get_product_xref :: "inst_db \<Rightarrow> product_xref list" where
  "sp_get_product_xref db =
     sort_key xr_id
       (concat (map (\<lambda>x. map (\<lambda>p. x) (filter (\<lambda>p. pd_current p \<and> pd_id p = xr_product x) (products db)))
          (filter xr_open (xrefs db))))"

text \<open>\<open>COALESCE(MAX(...), 0) + 1\<close>.\<close>

definition next_of :: "int list \<Rightarrow> int" where
  "next_of xs = (case xs of [] \<Rightarrow> 1 | y # ys \<Rightarrow> foldl max y ys + 1)"

text \<open>\<open>pid\<close> is \<open>None\<close> for a new product; the other fields are those of \<open>p\<close>.\<close>

definition sp_ins_product :: "int option \<Rightarrow> inst_product \<Rightarrow> inst_db \<Rightarrow> inst_exn + (int \<times> int) \<times> inst_db" where
  "sp_ins_product pid p db =
     (let i = (case pid of Some i \<Rightarrow> i | None \<Rightarrow> next_of (map pd_id (products db)));
          vid = next_of (map pd_vid (filter (\<lambda>r. pd_id r = i) (products db)));
          flipped = map (\<lambda>r. if pd_id r = i then r\<lparr>pd_current := False\<rparr> else r) (products db)
      in if list_ex (\<lambda>r. pd_current r \<and> pd_cusip r = pd_cusip p) flipped
         then Inl (duplicate_key ''UQ_PRODUCT_CUSIP_CURRENT'')
         else Inr ((i, vid), db\<lparr>products := p\<lparr>pd_id := i, pd_vid := vid, pd_current := True\<rparr> # flipped\<rparr>))"

definition sp_ins_product_xref ::
  "int option \<Rightarrow> int \<Rightarrow> int \<Rightarrow> string \<Rightarrow> inst_db \<Rightarrow> inst_exn + (int \<times> int) \<times> inst_db" where
  "sp_ins_product_xref xid product app symbol db =
     (let i = (case xid of Some i \<Rightarrow> i | None \<Rightarrow> next_of (map xr_id (xrefs db)));
          vid = next_of (map xr_vid (filter (\<lambda>r. xr_id r = i) (xrefs db)));
          closed = map (\<lambda>r. if xr_id r = i then r\<lparr>xr_open := False\<rparr> else r) (xrefs db)
      in if list_ex (\<lambda>r. xr_open r \<and> xr_product r = product \<and> xr_app r = app) closed
         then Inl (duplicate_key ''UQ_PRODUCT_XREF_CURRENT'')
         else Inr ((i, vid), db\<lparr>xrefs := \<lparr>xr_id = i, xr_vid = vid, xr_open = True, xr_product = product,
                                        xr_app = app, xr_symbol = symbol\<rparr> # closed\<rparr>))"

section \<open>The cache\<close>

record inst_cache =
  ic_products :: "inst_product list"
  ic_xrefs :: "product_xref list"
  ic_by_cusip :: "string \<Rightarrow> inst_product option"
  ic_by_product_id :: "int \<Rightarrow> inst_product option"
  ic_xref_index :: "int \<times> int \<Rightarrow> string option"

definition new_inst_cache :: inst_cache where
  "new_inst_cache = \<lparr>ic_products = [], ic_xrefs = [], ic_by_cusip = Map.empty, ic_by_product_id = Map.empty,
     ic_xref_index = Map.empty\<rparr>"

type_synonym inst_world = "inst_db \<times> inst_cache"

definition on_inst :: "(inst_db \<Rightarrow> inst_exn + 'a \<times> inst_db) \<Rightarrow> (inst_world, inst_exn, 'a) call" where
  "on_inst f = (\<lambda>(db, c).
     let db' = db\<lparr>inst_faults := tl (inst_faults db)\<rparr>
     in case inst_faults db of
          Some e # _ \<Rightarrow> (Inl e, (db', c))
        | _ \<Rightarrow> (case f db' of Inl e \<Rightarrow> (Inl e, (db', c)) | Inr (x, db'') \<Rightarrow> (Inr x, (db'', c))))"

text \<open>A dict built from a list: the last entry of a key wins.\<close>

definition dict_of :: "('a \<Rightarrow> 'k) \<Rightarrow> ('a \<Rightarrow> 'b) \<Rightarrow> 'a list \<Rightarrow> 'k \<Rightarrow> 'b option" where
  "dict_of key val xs = map_of (rev (map (\<lambda>x. (key x, val x)) xs))"

definition cache_products :: "inst_product list \<Rightarrow> inst_cache \<Rightarrow> inst_cache" where
  "cache_products ps c = c\<lparr>ic_products := ps\<rparr>"

definition cache_all :: "inst_product list \<Rightarrow> product_xref list \<Rightarrow> inst_cache" where
  "cache_all ps xs =
     \<lparr>ic_products = ps, ic_xrefs = xs, ic_by_cusip = dict_of pd_cusip id ps,
      ic_by_product_id = dict_of pd_id id ps,
      ic_xref_index = dict_of (\<lambda>x. (xr_product x, xr_app x)) xr_symbol xs\<rparr>"

text \<open>The products are assigned before the second call, which may raise.\<close>

definition load_all :: "(inst_world, inst_exn, unit) call" where
  "load_all =
     bindC (on_inst (\<lambda>db. Inr (sp_get_product db, db))) (\<lambda>ps.
     bindC (\<lambda>(db, c). (Inr (), (db, cache_products ps c))) (\<lambda>_.
     bindC (on_inst (\<lambda>db. Inr (sp_get_product_xref db, db))) (\<lambda>xs.
       (\<lambda>(db, c). (Inr (), (db, cache_all ps xs))))))"

definition get_product_by_id :: "inst_cache \<Rightarrow> int \<Rightarrow> inst_product option" where
  "get_product_by_id c = ic_by_product_id c"

definition get_product_by_cusip :: "inst_cache \<Rightarrow> string \<Rightarrow> inst_product option" where
  "get_product_by_cusip c = ic_by_cusip c"

definition get_xrefs :: "inst_cache \<Rightarrow> int option \<Rightarrow> int option \<Rightarrow> product_xref list" where
  "get_xrefs c product app =
     filter (\<lambda>x. (product = None \<or> product = Some (xr_product x)) \<and> (app = None \<or> app = Some (xr_app x)))
       (ic_xrefs c)"

definition resolve_vendor_symbol :: "inst_cache \<Rightarrow> int \<Rightarrow> int \<Rightarrow> string option" where
  "resolve_vendor_symbol c product app = ic_xref_index c (product, app)"

definition cached_symbol :: "inst_cache \<Rightarrow> string \<Rightarrow> int \<Rightarrow> string option" where
  "cached_symbol c cusip app =
     (case get_product_by_cusip c cusip of None \<Rightarrow> None
      | Some p \<Rightarrow> resolve_vendor_symbol c (pd_id p) app)"

section \<open>Creating an instrument\<close>

record created_instrument =
  cr_product :: inst_product
  cr_app :: int
  cr_symbol :: string
  cr_xref_id :: int
  cr_xref_vid :: int

definition not_returned :: "int \<Rightarrow> int \<Rightarrow> inst_exn" where
  "not_returned i v = InstPy (RuntimeError (''SP_INS_PRODUCT reported PRODUCT_ID '' @ int_str i @ '' v'' @ int_str v
     @ '' but SP_GET_PRODUCT does not return it''))"

text \<open>Two writes, each its own transaction, then a reload.\<close>

definition create_instrument ::
  "inst_product \<Rightarrow> int \<Rightarrow> string \<Rightarrow> (inst_world, inst_exn, created_instrument) call" where
  "create_instrument p app symbol =
     bindC (on_inst (sp_ins_product None p)) (\<lambda>(i, v).
     bindC (on_inst (sp_ins_product_xref None i app symbol)) (\<lambda>(xi, xv).
     bindC load_all (\<lambda>_ (db, c).
       case get_product_by_id c i of
         None \<Rightarrow> (Inl (not_returned i v), (db, c))
       | Some q \<Rightarrow> (Inr \<lparr>cr_product = q, cr_app = app, cr_symbol = symbol, cr_xref_id = xi, cr_xref_vid = xv\<rparr>,
                   (db, c)))))"

section \<open>The tables as a directory of symbols\<close>

definition inst_wf :: "inst_db \<Rightarrow> bool" where
  "inst_wf db \<longleftrightarrow>
     distinct (map pd_cusip (filter pd_current (products db)))
     \<and> distinct (map pd_id (filter pd_current (products db)))
     \<and> distinct (map (\<lambda>x. (xr_product x, xr_app x)) (filter xr_open (xrefs db)))
     \<and> xr_product ` set (xrefs db) \<subseteq> pd_id ` set (products db)"

text \<open>What a venue calls an instrument, as the tables say.\<close>

definition listed_as :: "inst_db \<Rightarrow> string \<Rightarrow> int \<Rightarrow> string \<Rightarrow> bool" where
  "listed_as db cusip app symbol \<longleftrightarrow>
     (\<exists>p \<in> set (products db). \<exists>x \<in> set (xrefs db). pd_current p \<and> pd_cusip p = cusip \<and> xr_open x
        \<and> xr_product x = pd_id p \<and> xr_app x = app \<and> xr_symbol x = symbol)"

lemma foldl_max_upper: "x = a \<or> x \<in> set xs \<Longrightarrow> (x :: int) \<le> foldl max a xs"
proof (induction xs arbitrary: a x)
  case (Cons y ys)
  show ?case using Cons.IH [of "max a y" "max a y"] Cons.IH [of x "max a y"] Cons.prems by auto
qed simp

lemma next_of_fresh: "next_of xs \<notin> set xs"
proof -
  have "x < next_of xs" if "x \<in> set xs" for x
    using that foldl_max_upper [of x "hd xs" "tl xs"] by (cases xs) (auto simp: next_of_def)
  then show ?thesis by blast
qed

lemma distinct_map_unique:
  "distinct (map f (filter P xs)) \<Longrightarrow> x \<in> set xs \<Longrightarrow> y \<in> set xs \<Longrightarrow> P x \<Longrightarrow> P y \<Longrightarrow> f x = f y \<Longrightarrow> x = y"
  by (auto simp: distinct_map inj_on_def)

lemma dict_of_iff:
  assumes "distinct (map key xs)"
  shows "dict_of key val xs k = Some v \<longleftrightarrow> (\<exists>x \<in> set xs. key x = k \<and> val x = v)"
proof -
  have "distinct (map fst (rev (map (\<lambda>x. (key x, val x)) xs)))"
    using assms by (simp add: rev_map [symmetric] comp_def del: rev_map)
  then show ?thesis by (auto simp: dict_of_def)
qed

lemma sp_get_product_xref_set:
  "x \<in> set (sp_get_product_xref db) \<longleftrightarrow>
     x \<in> set (xrefs db) \<and> xr_open x \<and> (\<exists>p \<in> set (products db). pd_current p \<and> pd_id p = xr_product x)"
  by (auto simp: sp_get_product_xref_def)

lemma sp_get_product_xref_distinct:
  assumes "inst_wf db"
  shows "distinct (map (\<lambda>x. (xr_product x, xr_app x)) (sp_get_product_xref db))"
proof -
  let ?key = "\<lambda>x. (xr_product x, xr_app x)" and ?cur = "\<lambda>x. filter (\<lambda>p. pd_current p \<and> pd_id p = xr_product x) (products db)"
  have one: "length (?cur x) \<le> 1" for x
  proof -
    have "distinct (map pd_id (filter (\<lambda>p. pd_id p = xr_product x) (filter pd_current (products db))))"
      by (rule distinct_map_filter) (use assms in \<open>simp add: inst_wf_def\<close>)
    then have "distinct (map pd_id (?cur x))" by (simp only: filter_filter)
    moreover have "set (map pd_id (?cur x)) \<subseteq> {xr_product x}" by auto
    then have "card (set (map pd_id (?cur x))) \<le> 1"
      using card_mono [of "{xr_product x}" "set (map pd_id (?cur x))"] by simp
    ultimately show ?thesis using distinct_card by fastforce
  qed
  have "distinct (map ?key (concat (map (\<lambda>x. map (\<lambda>p. x) (?cur x)) xs)))" if "distinct (map ?key xs)" for xs
    using that
  proof (induction xs)
    case (Cons x xs)
    have "length (?cur x) = 0 \<or> length (?cur x) = 1" using one [of x] by linarith
    then have "map (\<lambda>p. x) (?cur x) = [] \<or> map (\<lambda>p. x) (?cur x) = [x]"
      by (auto simp: length_Suc_conv)
    with Cons show ?case by auto
  qed simp
  from this [of "filter xr_open (xrefs db)"] assms show ?thesis
    by (simp add: sp_get_product_xref_def inst_wf_def distinct_map)
qed

text \<open>The cache built from the tables answers as the tables do.\<close>

lemma cache_all_listed:
  assumes "inst_wf db"
  shows "cached_symbol (cache_all (sp_get_product db) (sp_get_product_xref db)) cusip app = Some symbol
    \<longleftrightarrow> listed_as db cusip app symbol"
proof -
  have p: "dict_of pd_cusip id (sp_get_product db) cusip = Some p \<longleftrightarrow>
      p \<in> set (products db) \<and> pd_current p \<and> pd_cusip p = cusip" for p
    using assms by (subst dict_of_iff) (auto simp: sp_get_product_def inst_wf_def)
  have x: "dict_of (\<lambda>x. (xr_product x, xr_app x)) xr_symbol (sp_get_product_xref db) (i, app) = Some symbol \<longleftrightarrow>
      (\<exists>x \<in> set (sp_get_product_xref db). xr_product x = i \<and> xr_app x = app \<and> xr_symbol x = symbol)" for i
    using sp_get_product_xref_distinct [OF assms] by (subst dict_of_iff) auto
  show ?thesis
  proof (cases "dict_of pd_cusip id (sp_get_product db) cusip")
    case None
    then have "\<not> (p \<in> set (products db) \<and> pd_current p \<and> pd_cusip p = cusip)" for p
      using p [of p] by simp
    with None show ?thesis
      by (auto simp: cached_symbol_def cache_all_def get_product_by_cusip_def listed_as_def)
  next
    case (Some q)
    then have q: "q \<in> set (products db)" "pd_current q" "pd_cusip q = cusip" using p by blast+
    have "p = q" if "p \<in> set (products db)" "pd_current p" "pd_cusip p = cusip" for p
      using that q distinct_map_unique [of pd_cusip pd_current "products db" p q] assms by (simp add: inst_wf_def)
    with q have "listed_as db cusip app symbol \<longleftrightarrow>
        (\<exists>x \<in> set (xrefs db). xr_open x \<and> xr_product x = pd_id q \<and> xr_app x = app \<and> xr_symbol x = symbol)"
      unfolding listed_as_def by blast
    moreover have "x \<in> set (sp_get_product_xref db) \<longleftrightarrow> x \<in> set (xrefs db) \<and> xr_open x"
      if "xr_product x = pd_id q" for x
      using q that by (auto simp: sp_get_product_xref_set)
    ultimately have "listed_as db cusip app symbol \<longleftrightarrow>
        (\<exists>x \<in> set (sp_get_product_xref db). xr_product x = pd_id q \<and> xr_app x = app \<and> xr_symbol x = symbol)"
      by blast
    with Some x show ?thesis
      by (simp add: cached_symbol_def cache_all_def get_product_by_cusip_def resolve_vendor_symbol_def)
  qed
qed

section \<open>What the calls do\<close>

lemma sp_ins_product_new:
  assumes "inst_wf db" and "sp_ins_product None p db = Inr ((i, v), db')"
  shows "inst_wf db' \<and> i \<notin> pd_id ` set (products db) \<and> v = 1 \<and> xrefs db' = xrefs db
    \<and> products db' = p\<lparr>pd_id := i, pd_vid := 1, pd_current := True\<rparr> # products db
    \<and> inst_faults db' = inst_faults db"
proof -
  have i: "i = next_of (map pd_id (products db))"
    using assms(2) by (auto simp: sp_ins_product_def Let_def split: if_splits)
  then have new: "i \<notin> pd_id ` set (products db)"
    using next_of_fresh [of "map pd_id (products db)"] by simp
  then have "map (\<lambda>r. if pd_id r = i then r\<lparr>pd_current := False\<rparr> else r) (products db) = products db"
    and "filter (\<lambda>r. pd_id r = i) (products db) = []"
    by (auto intro!: map_idI simp: filter_empty_conv image_iff)
  with assms(2) i have "v = 1" "db' = db\<lparr>products := p\<lparr>pd_id := i, pd_vid := 1, pd_current := True\<rparr> # products db\<rparr>"
    and "\<not> list_ex (\<lambda>r. pd_current r \<and> pd_cusip r = pd_cusip p) (products db)"
    by (auto simp: sp_ins_product_def Let_def next_of_def split: if_splits)
  with new assms(1) show ?thesis
    by (auto simp: inst_wf_def list_ex_iff)
qed

lemma sp_ins_product_xref_new:
  assumes "inst_wf db" and "product \<in> pd_id ` set (products db)"
    and "sp_ins_product_xref None product app symbol db = Inr ((i, v), db')"
  shows "inst_wf db' \<and> products db' = products db \<and> inst_faults db' = inst_faults db
    \<and> xrefs db' = \<lparr>xr_id = i, xr_vid = v, xr_open = True, xr_product = product, xr_app = app, xr_symbol = symbol\<rparr> # xrefs db"
proof -
  have i: "i = next_of (map xr_id (xrefs db))"
    using assms(3) by (auto simp: sp_ins_product_xref_def Let_def split: if_splits)
  then have "i \<notin> xr_id ` set (xrefs db)"
    using next_of_fresh [of "map xr_id (xrefs db)"] by simp
  then have "map (\<lambda>r. if xr_id r = i then r\<lparr>xr_open := False\<rparr> else r) (xrefs db) = xrefs db"
    by (auto intro!: map_idI simp: image_iff)
  with assms(3) i have "db' = db\<lparr>xrefs := \<lparr>xr_id = i, xr_vid = v, xr_open = True, xr_product = product,
        xr_app = app, xr_symbol = symbol\<rparr> # xrefs db\<rparr>"
    and "\<not> list_ex (\<lambda>r. xr_open r \<and> xr_product r = product \<and> xr_app r = app) (xrefs db)"
    by (auto simp: sp_ins_product_xref_def Let_def split: if_splits)
  with assms(1,2) show ?thesis
    by (auto simp: inst_wf_def list_ex_iff)
qed

definition same_inst_tables :: "inst_db \<Rightarrow> inst_db \<Rightarrow> bool" where
  "same_inst_tables db db' \<longleftrightarrow> products db' = products db \<and> xrefs db' = xrefs db"

lemma same_inst_tables_wf: "same_inst_tables db db' \<Longrightarrow> inst_wf db' = inst_wf db"
  by (simp add: same_inst_tables_def inst_wf_def)

lemma same_inst_tables_listed: "same_inst_tables db db' \<Longrightarrow> listed_as db' = listed_as db"
  by (simp add: same_inst_tables_def listed_as_def fun_eq_iff)

lemma on_inst_cases:
  assumes "on_inst f (db, c) = (r, w')"
  obtains (raised) e db' where "r = Inl e" "w' = (db', c)" "same_inst_tables db db'"
  | (ran) x db0 db' where "same_inst_tables db db0" "f db0 = Inr (x, db')" "r = Inr x" "w' = (db', c)"
proof -
  have s: "same_inst_tables db (db\<lparr>inst_faults := tl (inst_faults db)\<rparr>)" by (simp add: same_inst_tables_def)
  show thesis
    using assms s raised ran
    by (fastforce simp: on_inst_def Let_def split: list.splits option.splits sum.splits prod.splits)
qed

lemma load_all_tables:
  assumes "load_all (db, c) = (r, (db', c'))"
  shows "same_inst_tables db db'"
  using assms unfolding load_all_def
  by (auto elim!: bindC_E on_inst_cases simp: same_inst_tables_def)

lemma load_all_coherent:
  assumes "inst_wf db" and "load_all (db, c) = (Inr (), (db', c'))"
  shows "cached_symbol c' cusip app = Some symbol \<longleftrightarrow> listed_as db cusip app symbol"
proof -
  obtain db1 db2 where s: "same_inst_tables db db1" "same_inst_tables db db2"
    and c': "c' = cache_all (sp_get_product db1) (sp_get_product_xref db2)"
    using assms(2) unfolding load_all_def
    by (auto simp: bindC_Inr_iff same_inst_tables_def elim!: on_inst_cases)
  have "sp_get_product db1 = sp_get_product db" "sp_get_product_xref db2 = sp_get_product_xref db"
    using s by (simp_all add: same_inst_tables_def sp_get_product_def sp_get_product_xref_def)
  with cache_all_listed [OF assms(1)] c' show ?thesis by simp
qed

text \<open>A product of one row more is listed nowhere; one mapping more lists it once.\<close>

lemma listed_as_new_product:
  assumes "inst_wf db" and "products db' = p # products db" and "xrefs db' = xrefs db"
    and "pd_id p \<notin> pd_id ` set (products db)"
  shows "listed_as db' = listed_as db"
proof -
  have "xr_product x \<noteq> pd_id p" if "x \<in> set (xrefs db)" for x
  proof -
    have "xr_product x \<in> pd_id ` set (products db)"
      using assms(1) that unfolding inst_wf_def by blast
    with assms(4) show ?thesis by metis
  qed
  with assms(2,3) show ?thesis by (auto simp: listed_as_def fun_eq_iff)
qed

lemma listed_as_new_xref:
  assumes "inst_wf db" and "products db' = products db" and "xrefs db' = x # xrefs db"
    and "xr_open x" and "p \<in> set (products db)" and "pd_current p" and "pd_id p = xr_product x"
  shows "listed_as db' cusip a s \<longleftrightarrow>
    listed_as db cusip a s \<or> cusip = pd_cusip p \<and> a = xr_app x \<and> s = xr_symbol x"
proof -
  have only: "q = p" if "q \<in> set (products db)" "pd_current q" "pd_id q = xr_product x" for q
    using that assms(5-7) distinct_map_unique [of pd_id pd_current "products db" q p] assms(1)
    by (simp add: inst_wf_def)
  show ?thesis
  proof
    assume "listed_as db' cusip a s"
    then obtain q y where q: "q \<in> set (products db)" "pd_current q" "pd_cusip q = cusip"
      and y: "y \<in> set (x # xrefs db)" "xr_open y" "xr_product y = pd_id q" "xr_app y = a" "xr_symbol y = s"
      unfolding listed_as_def assms(2,3) by blast
    show "listed_as db cusip a s \<or> cusip = pd_cusip p \<and> a = xr_app x \<and> s = xr_symbol x"
    proof (cases "y = x")
      case True
      with q y only [of q] show ?thesis by metis
    next
      case False
      with q y show ?thesis unfolding listed_as_def by (metis set_ConsD)
    qed
  next
    assume "listed_as db cusip a s \<or> cusip = pd_cusip p \<and> a = xr_app x \<and> s = xr_symbol x"
    then show "listed_as db' cusip a s"
      unfolding listed_as_def assms(2,3) using assms(4-7) by (metis list.set_intros)
  qed
qed

definition with_listing ::
  "(string \<Rightarrow> int \<Rightarrow> string \<Rightarrow> bool) \<Rightarrow> string \<Rightarrow> int \<Rightarrow> string \<Rightarrow> string \<Rightarrow> int \<Rightarrow> string \<Rightarrow> bool" where
  "with_listing L cusip app symbol = (\<lambda>c a s. L c a s \<or> c = cusip \<and> a = app \<and> s = symbol)"

lemma reload_created:
  assumes wf: "inst_wf db" and p: "p \<in> set (products db)" "pd_current p"
    and run: "bindC load_all (\<lambda>_ (db, c).
        case get_product_by_id c (pd_id p) of
          None \<Rightarrow> (Inl e, (db, c))
        | Some q \<Rightarrow> (Inr \<lparr>cr_product = q, cr_app = app, cr_symbol = symbol, cr_xref_id = xi, cr_xref_vid = xv\<rparr>,
                    (db, c)))  (db, c) = (r, w')"
  shows "inst_wf (fst w') \<and> listed_as (fst w') = listed_as db
    \<and> (\<forall>cr. r = Inr cr \<longrightarrow> cr_product cr = p
          \<and> (\<forall>k a s. cached_symbol (snd w') k a = Some s \<longleftrightarrow> listed_as db k a s))"
proof -
  obtain r3 db3 c3 where load: "load_all (db, c) = (r3, (db3, c3))" by (metis surj_pair)
  have "same_inst_tables db db3" by (rule load_all_tables [OF load])
  then have db3: "inst_wf db3" "listed_as db3 = listed_as db"
    using same_inst_tables_wf same_inst_tables_listed wf by blast+
  show ?thesis
  proof (cases "r3 = Inr () \<and> get_product_by_id c3 (pd_id p) \<noteq> None")
    case False
    with run load db3 show ?thesis by (cases r3) (auto simp: bindC_def)
  next
    case True
    then have loaded: "load_all (db, c) = (Inr (), (db3, c3))" using load by simp
    from True obtain q where q: "get_product_by_id c3 (pd_id p) = Some q" by blast
    obtain db4 where "same_inst_tables db db4" "ic_by_product_id c3 = dict_of pd_id id (sp_get_product db4)"
      using loaded unfolding load_all_def
      by (auto simp: bindC_Inr_iff same_inst_tables_def cache_all_def elim!: on_inst_cases)
    then have "dict_of pd_id id (filter pd_current (products db)) (pd_id p) = Some q"
      using q by (simp add: get_product_by_id_def sp_get_product_def same_inst_tables_def)
    moreover have ids: "distinct (map pd_id (filter pd_current (products db)))"
      using wf unfolding inst_wf_def by metis
    ultimately have "q \<in> set (products db)" "pd_current q" "pd_id q = pd_id p"
      by (auto simp: dict_of_iff)
    then have "q = p" using distinct_map_unique [OF ids, of q p] p by simp
    with run loaded q db3 load_all_coherent [OF wf loaded] show ?thesis by (auto simp: bindC_def)
  qed
qed

text \<open>C27: Creating an instrument makes it usable at once, and nothing else changes. From tables in order,
  the tables stay in order whatever fails. If the call returns, the returned row is a current
  product with a new id and the requested cusip, and the cache of the process, reloaded, gives
  every instrument on every venue the symbol the tables gave it before, and the new instrument
  the requested symbol on the requested venue. If it raises, then either no venue lists anything
  new and the cache is as it was, or both rows are written and only the reload failed.\<close>

theorem create_instrument_listed:
  assumes "inst_wf (fst w)" and "create_instrument p app symbol w = (r, w')"
  shows "inst_wf (fst w')
    \<and> (case r of
         Inr cr \<Rightarrow> pd_current (cr_product cr) \<and> pd_cusip (cr_product cr) = pd_cusip p
           \<and> pd_id (cr_product cr) \<notin> pd_id ` set (products (fst w))
           \<and> (\<forall>c a s. cached_symbol (snd w') c a = Some s \<longleftrightarrow>
                with_listing (listed_as (fst w)) (pd_cusip p) app symbol c a s)
       | Inl e \<Rightarrow> listed_as (fst w') = listed_as (fst w) \<and> snd w' = snd w
           \<or> listed_as (fst w') = with_listing (listed_as (fst w)) (pd_cusip p) app symbol)"
proof -
  obtain db c where w: "w = (db, c)" by (cases w)
  have wf: "inst_wf db" using assms(1) w by simp
  have failed: ?thesis
    if call: "on_inst f (db', c) = (Inl e, w')" and rest: "r = Inl e" "inst_wf db'" "listed_as db' = listed_as db"
    for f :: "inst_db \<Rightarrow> inst_exn + (int \<times> int) \<times> inst_db" and e db'
  proof -
    obtain db'' where "w' = (db'', c)" "same_inst_tables db' db''"
      by (rule on_inst_cases [OF call]) simp_all
    with rest same_inst_tables_wf [of db' db''] same_inst_tables_listed [of db' db''] show ?thesis
      by (simp add: w)
  qed
  from assms(2) [unfolded w create_instrument_def] show ?thesis
  proof (cases rule: bindC_E)
    case (raised e)
    from failed [OF raised wf refl] show ?thesis .
  next
    case (went_on iv w1)
    obtain i v where iv: "iv = (i, v)" by (cases iv)
    obtain db0 db1 where s0: "same_inst_tables db db0" and ins: "sp_ins_product None p db0 = Inr ((i, v), db1)"
      and w1: "w1 = (db1, c)"
      using went_on(1) iv by (auto elim!: on_inst_cases)
    let ?p = "p\<lparr>pd_id := i, pd_vid := 1, pd_current := True\<rparr>"
    have wf0: "inst_wf db0" using same_inst_tables_wf [OF s0] wf by simp
    note new = sp_ins_product_new [OF wf0 ins]
    have fresh: "i \<notin> pd_id ` set (products db)" using new s0 by (simp add: same_inst_tables_def)
    have l1: "listed_as db1 = listed_as db"
      using listed_as_new_product [OF wf0, of db1 ?p] new same_inst_tables_listed [OF s0] by simp
    from went_on(2) have "bindC (on_inst (sp_ins_product_xref None i app symbol)) (\<lambda>(xi, xv).
      bindC load_all (\<lambda>_ (db, c).
        case get_product_by_id c i of
          None \<Rightarrow> (Inl (not_returned i v), (db, c))
        | Some q \<Rightarrow> (Inr \<lparr>cr_product = q, cr_app = app, cr_symbol = symbol, cr_xref_id = xi, cr_xref_vid = xv\<rparr>,
                    (db, c)))) (db1, c) = (r, w')"
      by (simp add: iv w1)
    then show ?thesis
    proof (cases rule: bindC_E)
      case (raised e)
      from failed [OF raised _ l1] new show ?thesis by blast
    next
      case (went_on xv w2)
      obtain xi vx where xv: "xv = (xi, vx)" by (cases xv)
      obtain db1' db2 where s1: "same_inst_tables db1 db1'"
        and xins: "sp_ins_product_xref None i app symbol db1' = Inr ((xi, vx), db2)" and w2: "w2 = (db2, c)"
        using went_on(1) xv by (auto elim!: on_inst_cases)
      have wf1: "inst_wf db1'" using same_inst_tables_wf [OF s1] new by simp
      have prod: "?p \<in> set (products db1')" "i \<in> pd_id ` set (products db1')"
        using new s1 by (auto simp: same_inst_tables_def)
      note xnew = sp_ins_product_xref_new [OF wf1 prod(2) xins]
      let ?x = "\<lparr>xr_id = xi, xr_vid = vx, xr_open = True, xr_product = i, xr_app = app, xr_symbol = symbol\<rparr>"
      have "listed_as db2 k a s \<longleftrightarrow> listed_as db1' k a s \<or> k = pd_cusip p \<and> a = app \<and> s = symbol" for k a s
        using listed_as_new_xref [OF wf1, of db2 ?x ?p k a s] xnew prod(1) by simp
      then have l2: "listed_as db2 = with_listing (listed_as db) (pd_cusip p) app symbol"
        using l1 same_inst_tables_listed [OF s1] by (simp add: with_listing_def fun_eq_iff)
      have made: "?p \<in> set (products db2)" "pd_current ?p" using prod(1) xnew by simp_all
      have "bindC load_all (\<lambda>_ (db, c).
          case get_product_by_id c (pd_id ?p) of
            None \<Rightarrow> (Inl (not_returned i v), (db, c))
          | Some q \<Rightarrow> (Inr \<lparr>cr_product = q, cr_app = app, cr_symbol = symbol, cr_xref_id = xi, cr_xref_vid = vx\<rparr>,
                      (db, c))) (db2, c) = (r, w')"
        using went_on(2) by (simp add: xv w2)
      from reload_created [OF _ made this] xnew l2 fresh show ?thesis by (cases r) (auto simp: w)
    qed
  qed
qed

definition demo_product :: "string \<Rightarrow> inst_product" where
  "demo_product cusip = \<lparr>pd_id = 0, pd_vid = 0, pd_current = True, pd_cusip = cusip, pd_display_nm = cusip,
     pd_asset_type = Some 1, pd_exchange = None, pd_ccy = Some ''USDT'', pd_description = None, pd_issue_type = None\<rparr>"

definition demo_inst :: inst_world where
  "demo_inst = (\<lparr>products = [(demo_product ''eth'')\<lparr>pd_id := 1, pd_vid := 1\<rparr>],
     xrefs = [\<lparr>xr_id = 1, xr_vid = 1, xr_open = True, xr_product = 1, xr_app = 4, xr_symbol = ''ETHUSDT''\<rparr>],
     inst_faults = []\<rparr>, new_inst_cache)"

theorem create_instrument_listed_witness:
  "\<exists>cr w'. create_instrument (demo_product ''btc'') 4 ''BTCUSDT'' demo_inst = (Inr cr, w')
     \<and> cached_symbol (snd w') ''btc'' 4 = Some ''BTCUSDT'' \<and> cached_symbol (snd w') ''eth'' 4 = Some ''ETHUSDT''"
proof -
  let ?run = "create_instrument (demo_product ''btc'') 4 ''BTCUSDT'' demo_inst"
  have "case fst ?run of Inr cr \<Rightarrow> True | Inl e \<Rightarrow> False"
    by code_simp
  then obtain cr w' where run: "?run = (Inr cr, w')"
    by (cases ?run; cases "fst ?run") auto
  have "inst_wf (fst demo_inst)" and "listed_as (fst demo_inst) ''eth'' 4 ''ETHUSDT''"
    by (simp_all add: inst_wf_def demo_inst_def demo_product_def listed_as_def)
  with create_instrument_listed [OF _ run] run show ?thesis
    by (auto simp: with_listing_def demo_product_def)
qed

end
