(* ===== verification/Subscriptions.thy ===== *)
theory Subscriptions
  imports BarWarm Instruments
begin

text \<open>
  Standing requests to keep a series (\<^verbatim>\<open>quant/market_data/series_subscr.py\<close>,
  \<^verbatim>\<open>subscriptions.py\<close>) on the table \<open>MARKET_DATA.SERIES_SUBSCR\<close> with its stored procedures: the
  list of series the warmer reads beside the deployed ones.

  A row is a version of a subscription, newest first; the version window that is still open is a
  flag, a UUID is a number. A venue's bars have no metric, a provider's series has one. The world
  is the table with the rest \<open>'v\<close>, on which the bar services act. A call of the database fails
  with the head of \<open>sub_faults\<close>, if there is one. The window of a provider's series, which the read
  joins from \<open>API_REQUEST\<close> by a column no procedure writes, is always null and left out. Text is
  ordered bytewise.
\<close>

section \<open>Table\<close>

record series_subscr =
  sv_id :: nat
  sv_vid :: int
  sv_cusip :: string
  sv_app :: int
  sv_metric :: "int option"
  sv_interval :: int
  sv_enabled :: string
  sv_backfill :: "int option"
  sv_from :: int
  sv_open :: bool

text \<open>\<open>sub_now\<close> is the transaction time of the coming write, \<open>sub_uuid\<close> the supply of \<open>uuid4()\<close>.\<close>

record subscr_db =
  subscrs :: "series_subscr list"
  sub_now :: int
  sub_uuid :: nat
  sub_faults :: "mkt_exn option list"

text \<open>The version, the open flag and the start of the window of \<open>s\<close> are the procedure's.\<close>

definition sp_ins_series_subscr :: "series_subscr \<Rightarrow> subscr_db \<Rightarrow> subscr_db" where
  "sp_ins_series_subscr s db =
     (let vid = next_of (map sv_vid (filter (\<lambda>r. sv_id r = sv_id s) (subscrs db)));
          closed = map (\<lambda>r. if sv_id r = sv_id s then r\<lparr>sv_open := False\<rparr> else r) (subscrs db)
      in db\<lparr>subscrs := s\<lparr>sv_vid := vid, sv_from := sub_now db, sv_open := True\<rparr> # closed\<rparr>)"

text \<open>SQL sorts a null after every value.\<close>

definition nulls_last :: "int option \<Rightarrow> bool \<times> int" where
  "nulls_last m = (case m of None \<Rightarrow> (True, 0) | Some i \<Rightarrow> (False, i))"

definition sp_get_series_subscr :: "subscr_db \<Rightarrow> series_subscr list" where
  "sp_get_series_subscr db =
     sort_key (\<lambda>r. (sv_cusip r, sv_app r, nulls_last (sv_metric r))) (filter sv_open (subscrs db))"

text \<open>\<open>tm_ids\<close> are the ids in \<open>REFDATA.TM_INTERVAL\<close>, each once.\<close>

definition sp_get_active_bar_subscriptions :: "int list \<Rightarrow> subscr_db \<Rightarrow> series_row list" where
  "sp_get_active_bar_subscriptions tm_ids db =
     map (\<lambda>r. (sv_interval r, sv_app r, sv_cusip r))
       (sort_key (\<lambda>r. (sv_interval r, sv_cusip r, sv_app r))
          (filter (\<lambda>r. sv_enabled r = ''Y'' \<and> sv_metric r = None \<and> sv_open r \<and> sv_interval r \<in> set tm_ids)
             (subscrs db)))"

section \<open>Repository\<close>

definition on_subscr :: "(subscr_db \<Rightarrow> 'a \<times> subscr_db) \<Rightarrow> (subscr_db \<times> 'v, mkt_exn, 'a) call" where
  "on_subscr f = (\<lambda>(db, v).
     let db' = db\<lparr>sub_faults := tl (sub_faults db)\<rparr>
     in case sub_faults db of
          Some e # _ \<Rightarrow> (Inl e, (db', v))
        | _ \<Rightarrow> (case f db' of (x, db'') \<Rightarrow> (Inr x, (db'', v))))"

definition get_series_subscr :: "(subscr_db \<times> 'v, mkt_exn, series_subscr list) call" where
  "get_series_subscr = on_subscr (\<lambda>db. (sp_get_series_subscr db, db))"

text \<open>\<open>require_arg\<close> of a text argument.\<close>

definition require_text :: "string \<Rightarrow> string \<Rightarrow> mkt_exn + unit" where
  "require_text v nm = (if strip v = [] then Inl (MktPy (ValueError (nm @ '' is required''))) else Inr ())"

definition asked_for :: "nat \<Rightarrow> string \<Rightarrow> int \<Rightarrow> int option \<Rightarrow> int \<Rightarrow> string \<Rightarrow> int option \<Rightarrow> series_subscr" where
  "asked_for i cusip app metric iv enabled since_ts =
     \<lparr>sv_id = i, sv_vid = 0, sv_cusip = cusip, sv_app = app, sv_metric = metric, sv_interval = iv,
      sv_enabled = enabled, sv_backfill = since_ts, sv_from = 0, sv_open = True\<rparr>"

definition ins_series_subscr ::
  "nat \<Rightarrow> string \<Rightarrow> int \<Rightarrow> int option \<Rightarrow> int \<Rightarrow> string \<Rightarrow> int option
   \<Rightarrow> (subscr_db \<times> 'v, mkt_exn, series_subscr) call" where
  "ins_series_subscr i cusip app metric iv enabled since_ts =
     bindC (liftR (require_text cusip ''internal_cusip'')) (\<lambda>_.
       if enabled \<notin> {''Y'', ''N''} then
         raiseC (MktPy (ValueError (''is_enabled_ind must be Y or N, got '' @ py_repr enabled)))
       else
         bindC (on_subscr (\<lambda>db. ((), sp_ins_series_subscr (asked_for i cusip app metric iv enabled since_ts) db)))
           (\<lambda>_. bindC get_series_subscr (\<lambda>rows.
              case filter (\<lambda>r. sv_id r = i) rows of
                [] \<Rightarrow> raiseC (MktPy (RuntimeError
                       (''SP_INS_SERIES_SUBSCR succeeded but SP_GET returned no row for '' @ nat_str i)))
              | row # _ \<Rightarrow> returnC row)))"

definition same_provider_series :: "string \<Rightarrow> int \<Rightarrow> int \<Rightarrow> int \<Rightarrow> series_subscr \<Rightarrow> bool" where
  "same_provider_series cusip app metric iv r \<longleftrightarrow>
     sv_metric r = Some metric \<and> sv_cusip r = cusip \<and> sv_app r = app \<and> sv_interval r = iv"

definition open_provider_id ::
  "string \<Rightarrow> int \<Rightarrow> int \<Rightarrow> int \<Rightarrow> (subscr_db \<times> 'v, mkt_exn, nat option) call" where
  "open_provider_id cusip app metric iv =
     bindC get_series_subscr (\<lambda>rows.
       returnC (map_option sv_id (find (same_provider_series cusip app metric iv) rows)))"

definition fresh_uuid :: "(subscr_db \<times> 'v, 'e, nat) call" where
  "fresh_uuid = (\<lambda>(db, v). (Inr (sub_uuid db), (db\<lparr>sub_uuid := Suc (sub_uuid db)\<rparr>, v)))"

definition id_or_fresh :: "nat option \<Rightarrow> (subscr_db \<times> 'v, 'e, nat) call" where
  "id_or_fresh sid = (case sid of Some i \<Rightarrow> returnC i | None \<Rightarrow> fresh_uuid)"

definition subscribe_provider ::
  "string \<Rightarrow> int \<Rightarrow> int \<Rightarrow> int \<Rightarrow> string \<Rightarrow> int option \<Rightarrow> nat option
   \<Rightarrow> (subscr_db \<times> 'v, mkt_exn, series_subscr) call" where
  "subscribe_provider cusip app metric iv enabled since_ts sid =
     bindC (case sid of Some i \<Rightarrow> returnC (Some i) | None \<Rightarrow> open_provider_id cusip app metric iv) (\<lambda>chosen.
     bindC (id_or_fresh chosen) (\<lambda>i.
       ins_series_subscr i cusip app (Some metric) iv enabled since_ts))"

definition subscription_source :: "int list \<Rightarrow> (subscr_db \<times> 'v, mkt_exn, series_row list) call" where
  "subscription_source tm_ids = on_subscr (\<lambda>db. (sp_get_active_bar_subscriptions tm_ids db, db))"

section \<open>The venue rows\<close>

text \<open>An error text is kept as what it interpolates.\<close>

datatype sub_cause =
    AlreadyCaptured string int int
  | NotAnExchange int
  | NoVenueSymbol string int

datatype sub_exn = SubscriptionError sub_cause | OtherExn mkt_exn

record bar_subscr =
  bs_id :: nat
  bs_vid :: int
  bs_cusip :: string
  bs_interval :: int
  bs_app :: int
  bs_enabled :: string
  bs_backfill :: "int option"
  bs_from :: int

definition bar_row :: "series_subscr \<Rightarrow> bar_subscr" where
  "bar_row r =
     \<lparr>bs_id = sv_id r, bs_vid = sv_vid r, bs_cusip = sv_cusip r, bs_interval = sv_interval r,
      bs_app = sv_app r, bs_enabled = sv_enabled r, bs_backfill = sv_backfill r, bs_from = sv_from r\<rparr>"

type_synonym 'w service_factory = "int \<Rightarrow> mkt_exn + 'w bar_service"

definition readable_venue :: "'w service_factory \<Rightarrow> int \<Rightarrow> sub_exn + 'w bar_service" where
  "readable_venue for_app app =
     (case for_app app of Inl e \<Rightarrow> Inl (SubscriptionError (NotAnExchange app)) | Inr svc \<Rightarrow> Inr svc)"

definition reject_unwarmable :: "'w service_factory \<Rightarrow> inst_cache \<Rightarrow> string \<Rightarrow> int \<Rightarrow> sub_exn + unit" where
  "reject_unwarmable for_app ic cusip app =
     bindR (readable_venue for_app app) (\<lambda>_.
       case cached_symbol ic cusip app of
         None \<Rightarrow> Inl (SubscriptionError (NoVenueSymbol cusip app))
       | Some s \<Rightarrow> Inr ())"

definition as_other :: "('w, mkt_exn, 'a) call \<Rightarrow> ('w, sub_exn, 'a) call" where
  "as_other m = (\<lambda>w. case m w of (Inl e, w') \<Rightarrow> (Inl (OtherExn e), w') | (Inr x, w') \<Rightarrow> (Inr x, w'))"

definition subscribe ::
  "(subscr_db \<times> 'v) service_factory \<Rightarrow> inst_cache \<Rightarrow> string \<Rightarrow> int \<Rightarrow> int \<Rightarrow> string \<Rightarrow> int option \<Rightarrow> nat option
   \<Rightarrow> (subscr_db \<times> 'v, sub_exn, bar_subscr) call" where
  "subscribe for_app ic cusip iv app enabled since_ts sid =
     bindC (liftR (reject_unwarmable for_app ic cusip app)) (\<lambda>_.
     bindC (id_or_fresh sid) (\<lambda>i w.
       case ins_series_subscr i cusip app None iv enabled since_ts w of
         (Inl e, w') \<Rightarrow>
           (Inl (if is_unique_violation e then SubscriptionError (AlreadyCaptured cusip iv app) else OtherExn e), w')
       | (Inr row, w') \<Rightarrow> (Inr (bar_row row), w')))"

definition venue_rows :: "(subscr_db \<times> 'v, mkt_exn, bar_subscr list) call" where
  "venue_rows =
     bindC get_series_subscr (\<lambda>rows. returnC (map bar_row (filter (\<lambda>r. sv_metric r = None) rows)))"

section \<open>Coverage, depth and backfill\<close>

record bar_coverage =
  cov_first :: "int option"
  cov_last :: "int option"
  cov_gaps :: "nat option"
  cov_error :: "sub_exn option"

definition on_readable ::
  "'w service_factory \<Rightarrow> int \<Rightarrow> ('w bar_service \<Rightarrow> ('w, mkt_exn, 'a) call) \<Rightarrow> ('w, sub_exn, 'a) call" where
  "on_readable for_app app f = bindC (liftR (readable_venue for_app app)) (\<lambda>svc. as_other (f svc))"

definition coverage_of :: "'w service_factory \<Rightarrow> series_key \<Rightarrow> ('w, sub_exn, bar_coverage) call" where
  "coverage_of for_app key w =
     (case on_readable for_app (key_app key) (\<lambda>svc. stored_bounds svc key) w of
        (Inl e, w') \<Rightarrow> (Inr \<lparr>cov_first = None, cov_last = None, cov_gaps = None, cov_error = Some e\<rparr>, w')
      | (Inr None, w') \<Rightarrow> (Inr \<lparr>cov_first = None, cov_last = None, cov_gaps = None, cov_error = None\<rparr>, w')
      | (Inr (Some (first_bar, last_bar)), w') \<Rightarrow>
          bindC (on_readable for_app (key_app key) (\<lambda>svc. find_gaps svc key first_bar last_bar)) (\<lambda>gaps.
            returnC \<lparr>cov_first = Some first_bar, cov_last = Some last_bar, cov_gaps = Some (length gaps),
                     cov_error = None\<rparr>) w')"

fun listed_rows ::
  "'w service_factory \<Rightarrow> inst_cache \<Rightarrow> bar_subscr list
   \<Rightarrow> ('w, sub_exn, (bar_subscr \<times> bar_coverage \<times> string option) list) call" where
  "listed_rows for_app ic [] = returnC []"
| "listed_rows for_app ic (r # rs) =
     bindC (coverage_of for_app (Series (bs_cusip r) (bs_interval r) (bs_app r))) (\<lambda>cov.
     bindC (listed_rows for_app ic rs) (\<lambda>out.
       returnC ((r, cov, cached_symbol ic (bs_cusip r) (bs_app r)) # out)))"

definition list_subscriptions ::
  "(subscr_db \<times> 'v) service_factory \<Rightarrow> inst_cache
   \<Rightarrow> (subscr_db \<times> 'v, sub_exn, (bar_subscr \<times> bar_coverage \<times> string option) list) call" where
  "list_subscriptions for_app ic = bindC (as_other venue_rows) (listed_rows for_app ic)"

definition subscr_venue_depth ::
  "'w service_factory \<Rightarrow> series_key \<Rightarrow> ('w, sub_exn, int option \<times> int option \<times> int) call" where
  "subscr_venue_depth for_app key =
     on_readable for_app (key_app key) (\<lambda>svc.
       bindC (venue_depth svc key None) (\<lambda>(earliest, bars).
         returnC (earliest, bars, max_backfill_bars)))"

definition subscr_plan_backfill ::
  "'w service_factory \<Rightarrow> series_key \<Rightarrow> datetime \<Rightarrow> ('w, sub_exn, backfill_plan) call" where
  "subscr_plan_backfill for_app key target =
     on_readable for_app (key_app key) (\<lambda>svc. plan_backfill svc key target None)"

definition subscr_backfill ::
  "'w service_factory \<Rightarrow> series_key \<Rightarrow> datetime \<Rightarrow> datetime option \<Rightarrow> ('w, sub_exn, backfill_result) call" where
  "subscr_backfill for_app key start_ts end_ts =
     on_readable for_app (key_app key) (\<lambda>svc. backfill svc key start_ts end_ts None)"

section \<open>The open rows as a map\<close>

definition open_subs :: "subscr_db \<Rightarrow> series_subscr list" where
  "open_subs db = filter sv_open (subscrs db)"

definition current_sub :: "subscr_db \<Rightarrow> nat \<Rightarrow> series_subscr option" where
  "current_sub db i = find (\<lambda>r. sv_id r = i) (open_subs db)"

text \<open>One open row per id, which the index enforces, and \<open>uuid4()\<close> gives no id in use.\<close>

definition subscr_wf :: "subscr_db \<Rightarrow> bool" where
  "subscr_wf db \<longleftrightarrow> distinct (map sv_id (open_subs db)) \<and> (\<forall>r \<in> set (subscrs db). sv_id r < sub_uuid db)"

lemma current_sub_iff:
  assumes "subscr_wf db"
  shows "current_sub db i = Some r \<longleftrightarrow> r \<in> set (open_subs db) \<and> sv_id r = i"
proof
  assume "current_sub db i = Some r"
  then show "r \<in> set (open_subs db) \<and> sv_id r = i"
    unfolding current_sub_def by (auto dest: find_SomeD)
next
  assume r: "r \<in> set (open_subs db) \<and> sv_id r = i"
  then obtain q where q: "current_sub db i = Some q"
    unfolding current_sub_def by (metis (mono_tags) find_None_iff not_None_eq)
  then have "q \<in> set (open_subs db)" "sv_id q = i"
    unfolding current_sub_def by (auto dest: find_SomeD)
  moreover have "inj_on sv_id (set (open_subs db))"
    using assms by (simp add: subscr_wf_def distinct_map)
  ultimately have "q = r" using r by (auto dest: inj_onD)
  with q show "current_sub db i = Some r" by simp
qed

definition stored_sub :: "series_subscr \<Rightarrow> subscr_db \<Rightarrow> series_subscr" where
  "stored_sub s db = s\<lparr>sv_vid := next_of (map sv_vid (filter (\<lambda>r. sv_id r = sv_id s) (subscrs db))),
     sv_from := sub_now db, sv_open := True\<rparr>"

lemma open_subs_ins:
  "open_subs (sp_ins_series_subscr s db) = stored_sub s db # filter (\<lambda>r. sv_id r \<noteq> sv_id s) (open_subs db)"
proof -
  have "filter sv_open (map (\<lambda>r. if sv_id r = i then r\<lparr>sv_open := False\<rparr> else r) rs)
      = filter (\<lambda>r. sv_id r \<noteq> i) (filter sv_open rs)" for i rs
    by (induction rs) auto
  then show ?thesis
    by (simp add: open_subs_def sp_ins_series_subscr_def stored_sub_def Let_def)
qed

lemma stored_sub_sel [simp]:
  "sv_id (stored_sub s db) = sv_id s" "sv_cusip (stored_sub s db) = sv_cusip s"
  "sv_app (stored_sub s db) = sv_app s" "sv_metric (stored_sub s db) = sv_metric s"
  "sv_interval (stored_sub s db) = sv_interval s" "sv_enabled (stored_sub s db) = sv_enabled s"
  "sv_backfill (stored_sub s db) = sv_backfill s" "sv_open (stored_sub s db)"
  by (simp_all add: stored_sub_def)

lemma ins_current:
  assumes "subscr_wf db" and "sv_id s < sub_uuid db"
  shows "subscr_wf (sp_ins_series_subscr s db)
    \<and> current_sub (sp_ins_series_subscr s db) = (current_sub db)(sv_id s \<mapsto> stored_sub s db)"
proof -
  let ?db = "sp_ins_series_subscr s db"
  have "sub_uuid ?db = sub_uuid db" "sv_id ` set (subscrs ?db) \<subseteq> insert (sv_id s) (sv_id ` set (subscrs db))"
    by (auto simp: sp_ins_series_subscr_def Let_def)
  then have "\<forall>r \<in> set (subscrs ?db). sv_id r < sub_uuid ?db"
    using assms unfolding subscr_wf_def by fastforce
  then have wf: "subscr_wf ?db"
    using assms(1) by (auto simp: subscr_wf_def open_subs_ins distinct_map_filter)
  have other: "i \<noteq> j \<Longrightarrow> find (\<lambda>r. sv_id r = i) (filter (\<lambda>r. sv_id r \<noteq> j) rs) = find (\<lambda>r. sv_id r = i) rs" for i j rs
    by (induction rs) auto
  have "current_sub ?db i = ((current_sub db)(sv_id s \<mapsto> stored_sub s db)) i" for i
    by (simp add: current_sub_def open_subs_ins other)
  with wf show ?thesis by blast
qed

definition same_subs :: "subscr_db \<Rightarrow> subscr_db \<Rightarrow> bool" where
  "same_subs db db' \<longleftrightarrow> subscrs db' = subscrs db \<and> sub_uuid db \<le> sub_uuid db' \<and> sub_now db' = sub_now db"

lemma same_subs_refl [simp]: "same_subs db db"
  by (simp add: same_subs_def)

lemma same_subs_trans: "same_subs a b \<Longrightarrow> same_subs b c \<Longrightarrow> same_subs a c"
  by (simp add: same_subs_def)

lemma same_subs_views:
  assumes "same_subs db db'"
  shows "open_subs db' = open_subs db" "current_sub db' = current_sub db" "subscr_wf db \<Longrightarrow> subscr_wf db'"
    "sp_get_series_subscr db' = sp_get_series_subscr db"
    "stored_sub s db' = stored_sub s db"
  using assms by (auto simp: same_subs_def open_subs_def current_sub_def subscr_wf_def fun_eq_iff
      sp_get_series_subscr_def stored_sub_def)

lemma on_subscr_cases:
  assumes "on_subscr f (db, v) = (r, w')"
  obtains (failed) e db' where "r = Inl e" "w' = (db', v)" "same_subs db db'" "sub_uuid db' = sub_uuid db"
  | (answered) x db' db'' where "r = Inr x" "w' = (db'', v)" "same_subs db db'" "sub_uuid db' = sub_uuid db"
      "f db' = (x, db'')"
proof (cases "\<exists>e rest. sub_faults db = Some e # rest")
  case True
  then obtain e rest where "sub_faults db = Some e # rest" by blast
  with assms failed [of e "db\<lparr>sub_faults := rest\<rparr>"] show ?thesis
    by (simp add: on_subscr_def same_subs_def)
next
  case False
  let ?db = "db\<lparr>sub_faults := tl (sub_faults db)\<rparr>"
  obtain x db'' where call: "f ?db = (x, db'')" by (meson surj_pair)
  with False assms have "r = Inr x" "w' = (db'', v)"
    by (auto simp: on_subscr_def Let_def split: list.splits option.splits)
  with call answered [of x db'' ?db] show ?thesis by (simp add: same_subs_def)
qed

lemma get_series_cases:
  assumes "get_series_subscr (db, v) = (r, w')"
  obtains db' where "w' = (db', v)" "same_subs db db'" "sub_uuid db' = sub_uuid db"
    "\<And>rows. r = Inr rows \<Longrightarrow> rows = sp_get_series_subscr db"
proof -
  from assms [unfolded get_series_subscr_def] show ?thesis
    by (rule on_subscr_cases) (use that same_subs_views(4) in auto)
qed

section \<open>What a write does\<close>

lemma same_subs_ins:
  assumes "same_subs db db'"
  shows "same_subs (sp_ins_series_subscr s db) (sp_ins_series_subscr s db')"
  using assms by (simp add: same_subs_def sp_ins_series_subscr_def Let_def)

lemma asked_for_sel [simp]:
  "sv_id (asked_for i c a m iv en ts) = i" "sv_cusip (asked_for i c a m iv en ts) = c"
  "sv_app (asked_for i c a m iv en ts) = a" "sv_metric (asked_for i c a m iv en ts) = m"
  "sv_interval (asked_for i c a m iv en ts) = iv" "sv_enabled (asked_for i c a m iv en ts) = en"
  "sv_backfill (asked_for i c a m iv en ts) = ts"
  by (simp_all add: asked_for_def)

text \<open>The read after the write finds the row that was written, and only that.\<close>

lemma read_back:
  assumes "subscr_wf db" and "current_sub db i = Some s"
  obtains rest where "filter (\<lambda>r. sv_id r = i) (sp_get_series_subscr db) = s # rest"
proof -
  let ?rows = "filter (\<lambda>r. sv_id r = i) (sp_get_series_subscr db)"
  have mem: "x \<in> set ?rows \<longleftrightarrow> x = s" for x
    using current_sub_iff [OF assms(1), of i x] assms(2)
    by (auto simp: sp_get_series_subscr_def open_subs_def)
  then have rows: "set ?rows = {s}" by blast
  then obtain x rest where "?rows = x # rest" by (cases ?rows) auto
  moreover from this rows have "x = s" by auto
  ultimately show ?thesis using that by blast
qed

lemma ins_series_cases:
  assumes wf: "subscr_wf db" "i < sub_uuid db"
    and run: "ins_series_subscr i c a m iv en ts (db, v) = (r, w')"
  obtains (unchanged) e db' where "r = Inl e" "w' = (db', v)" "same_subs db db'"
  | (written) db' where "w' = (db', v)" "same_subs (sp_ins_series_subscr (asked_for i c a m iv en ts) db) db'"
      "\<And>row. r = Inr row \<Longrightarrow> row = stored_sub (asked_for i c a m iv en ts) db"
proof -
  let ?s = "asked_for i c a m iv en ts"
  let ?read = "\<lambda>_ :: unit. bindC get_series_subscr (\<lambda>rows.
      case filter (\<lambda>r. sv_id r = i) rows of
        [] \<Rightarrow> raiseC (MktPy (RuntimeError
               (''SP_INS_SERIES_SUBSCR succeeded but SP_GET returned no row for '' @ nat_str i)))
      | row # _ \<Rightarrow> returnC row)"
  show ?thesis
  proof (cases "require_text c ''internal_cusip'' = Inr () \<and> en \<in> {''Y'', ''N''}")
    case False
    with run unchanged [of _ db] show ?thesis
      by (cases "require_text c ''internal_cusip''") (auto simp: ins_series_subscr_def)
  next
    case True
    with run have "bindC (on_subscr (\<lambda>db. ((), sp_ins_series_subscr ?s db))) ?read (db, v) = (r, w')"
      by (auto simp: ins_series_subscr_def)
    then show ?thesis
    proof (cases rule: bindC_E)
      case (raised e)
      from raised(1) show ?thesis
        by (rule on_subscr_cases) (use raised(2) unchanged in auto)
    next
      case (went_on y w1)
      obtain db1 where w1: "w1 = (sp_ins_series_subscr ?s db1, v)" and db1: "same_subs db db1"
        using went_on(1) by (rule on_subscr_cases) auto
      let ?db1 = "sp_ins_series_subscr ?s db1"
      have same: "same_subs (sp_ins_series_subscr ?s db) ?db1" by (rule same_subs_ins [OF db1])
      have "subscr_wf ?db1 \<and> current_sub ?db1 i = Some (stored_sub ?s db)"
        using ins_current [OF wf(1), of ?s] wf(2) same_subs_views [OF same] by simp
      then obtain rest where rows:
        "filter (\<lambda>r. sv_id r = i) (sp_get_series_subscr ?db1) = stored_sub ?s db # rest"
        using read_back by blast
      from went_on(2) [unfolded w1] show ?thesis
      proof (cases rule: bindC_E)
        case (raised e)
        obtain db2 where "w' = (db2, v)" "same_subs ?db1 db2"
          using raised(1) by (rule get_series_cases)
        with written [of db2] raised(2) same_subs_trans [OF same] show ?thesis by simp
      next
        case (went_on out w2)
        obtain db2 where db2: "w2 = (db2, v)" "same_subs ?db1 db2" "out = sp_get_series_subscr ?db1"
          using went_on(1) by (rule get_series_cases) blast
        with went_on(2) rows have "r = Inr (stored_sub ?s db)" "w' = (db2, v)" by simp_all
        with written [of db2] db2(2) same_subs_trans [OF same] show ?thesis by simp
      qed
    qed
  qed
qed

section \<open>From a subscription to a warm pass\<close>

text \<open>The series the open rows ask the warmer for.\<close>

definition captured :: "int list \<Rightarrow> (nat \<Rightarrow> series_subscr option) \<Rightarrow> series_row set" where
  "captured tm_ids cur =
     {(sv_interval r, sv_app r, sv_cusip r) | r. r \<in> ran cur \<and> sv_enabled r = ''Y'' \<and> sv_metric r = None
        \<and> sv_interval r \<in> set tm_ids}"

lemma ran_current_sub: "subscr_wf db \<Longrightarrow> ran (current_sub db) = set (open_subs db)"
  by (auto simp: ran_def current_sub_iff)

lemma active_captured:
  "subscr_wf db \<Longrightarrow> set (sp_get_active_bar_subscriptions tm_ids db) = captured tm_ids (current_sub db)"
  by (auto simp: captured_def ran_current_sub sp_get_active_bar_subscriptions_def open_subs_def)

lemma source_answers:
  assumes "subscr_wf db" and "subscription_source tm_ids (db, v) = (Inr rows, w')"
  shows "set rows = captured tm_ids (current_sub db)"
proof -
  from assms(2) [unfolded subscription_source_def] have "rows = sp_get_active_bar_subscriptions tm_ids db"
    by (rule on_subscr_cases) (simp_all add: sp_get_active_bar_subscriptions_def same_subs_def)
  with active_captured [OF assms(1)] show ?thesis by simp
qed

lemma warm_groups_visit:
  "warm_groups for_app lb now rows keys w = (rs, w') \<Longrightarrow> k \<in> set keys \<Longrightarrow>
   \<exists>wa. fst (warm_group for_app lb now (fst k) (snd k) (group_cusips rows k) wa) \<in> set rs"
proof (induction keys arbitrary: w rs w')
  case (Cons key keys)
  obtain r w1 where one: "warm_group for_app lb now (fst key) (snd key) (group_cusips rows key) w = (r, w1)"
    by (meson surj_pair)
  obtain rs' w2 where rest: "warm_groups for_app lb now rows keys w1 = (rs', w2)"
    by (meson surj_pair)
  from Cons.prems one rest have rs: "rs = r # rs'" by simp
  show ?case
  proof (cases "k = key")
    case True
    with one rs show ?thesis by (metis fst_conv list.set_intros(1))
  next
    case False
    with Cons.prems(2) Cons.IH [OF rest] rs show ?thesis by auto
  qed
qed simp

text \<open>A pass that visits a series: its interval and venue have a result of the sync of a list of
  instruments with this one among them.\<close>

definition visited ::
  "'w service_factory \<Rightarrow> int \<Rightarrow> int \<Rightarrow> warm_result list \<Rightarrow> series_row \<Rightarrow> bool" where
  "visited for_app lb now rs = (\<lambda>(iv, app, c).
     \<exists>cusips wa. c \<in> set cusips \<and> fst (warm_group for_app lb now iv app cusips wa) \<in> set rs)"

lemma warm_run_visits:
  assumes "all_rows sources w = (Inr rows, w1)" and "series \<in> set rows"
    and "warm_run sources for_app lb now w = (Inr rs, w')"
  shows "visited for_app lb now rs series"
proof -
  obtain iv app c where series: "series = (iv, app, c)" by (cases series)
  have run: "warm_groups for_app lb now rows (group_keys rows) w1 = (rs, w')"
    using assms(1,3) by (auto simp: warm_run_def split: prod.splits)
  have "(iv, app) \<in> set (group_keys rows)"
    using assms(2) series by (force simp: group_keys_def)
  then obtain wa where "fst (warm_group for_app lb now iv app (group_cusips rows (iv, app)) wa) \<in> set rs"
    using warm_groups_visit [OF run] by fastforce
  moreover have "c \<in> set (group_cusips rows (iv, app))"
    using assms(2) series by (simp add: group_cusips_set)
  ultimately show ?thesis unfolding visited_def series by blast
qed

text \<open>An id \<open>uuid4()\<close> will not give.\<close>

definition known_id :: "nat option \<Rightarrow> subscr_db \<Rightarrow> bool" where
  "known_id sid db \<longleftrightarrow> (case sid of None \<Rightarrow> True | Some i \<Rightarrow> i < sub_uuid db)"

text \<open>The identifier a subscription gets: the given one, else one that is not in use.\<close>

lemma id_or_fresh_returns:
  assumes "subscr_wf db" and "known_id sid db"
  obtains i db' where "id_or_fresh sid (db, v) = (Inr i, (db', v))" "subscr_wf db'" "i < sub_uuid db'"
    "same_subs db db'" "sid = None \<and> current_sub db i = None \<or> sid = Some i"
proof (cases sid)
  case None
  have "current_sub db (sub_uuid db) = None"
    using assms(1) by (fastforce simp: current_sub_def subscr_wf_def open_subs_def find_None_iff)
  with None that [of "sub_uuid db" "db\<lparr>sub_uuid := Suc (sub_uuid db)\<rparr>"] assms(1) show ?thesis
    by (auto simp: id_or_fresh_def fresh_uuid_def subscr_wf_def open_subs_def same_subs_def less_Suc_eq)
next
  case (Some i)
  show ?thesis by (rule that [of i db]) (use Some assms in \<open>simp_all add: id_or_fresh_def known_id_def\<close>)
qed

lemma subscribe_cases:
  assumes wf: "subscr_wf db" "known_id sid db"
    and run: "subscribe for_app ic c iv app en ts sid (db, v) = (r, w')"
  obtains (unchanged) e db' where "r = Inl e" "w' = (db', v)" "same_subs db db'"
  | (written) i s db' where "w' = (db', v)" "subscr_wf db'"
      "current_sub db' = (current_sub db)(i \<mapsto> s)"
      "sid = None \<and> current_sub db i = None \<or> sid = Some i"
      "(sv_id s, sv_cusip s, sv_app s, sv_metric s, sv_interval s, sv_enabled s, sv_backfill s)
         = (i, c, app, None, iv, en, ts)"
      "\<And>row. r = Inr row \<Longrightarrow> row = bar_row s"
      "reject_unwarmable for_app ic c app = Inr ()"
proof (cases "reject_unwarmable for_app ic c app")
  case (Inl e)
  with run unchanged [of e db] show ?thesis by (simp add: subscribe_def)
next
  case (Inr u)
  obtain i db1 where i: "(id_or_fresh sid :: (_, sub_exn, _) call) (db, v) = (Inr i, (db1, v))" "subscr_wf db1" "i < sub_uuid db1"
    "same_subs db db1" "sid = None \<and> current_sub db i = None \<or> sid = Some i"
    by (rule id_or_fresh_returns [OF wf, where v = v]) assumption+
  let ?s = "asked_for i c app None iv en ts"
  obtain x w1 where ins: "ins_series_subscr i c app None iv en ts (db1, v) = (x, w1)" by (meson surj_pair)
  have "liftR (reject_unwarmable for_app ic c app) (db, v) = (Inr (), (db, v))" using Inr by simp
  with run i(1) ins have out: "(case x of
      Inl e \<Rightarrow> (Inl (if is_unique_violation e then SubscriptionError (AlreadyCaptured c iv app) else OtherExn e), w1)
    | Inr row \<Rightarrow> (Inr (bar_row row), w1)) = (r, w')"
    by (simp add: subscribe_def)
  have w': "w' = w1" using out by (cases x) simp_all
  have fails: "\<exists>e'. r = Inl e'" if "x = Inl e" for e using out that by auto
  have returns: "\<exists>y. x = Inr y \<and> row = bar_row y" if "r = Inr row" for row using out that by (cases x) simp_all
  from i(2,3) ins show ?thesis
  proof (cases rule: ins_series_cases)
    case (unchanged e db2)
    then obtain e' where "r = Inl e'" using fails by blast
    then show ?thesis
      by (rule that(1)) (use w' unchanged same_subs_trans [OF i(4)] in simp_all)
  next
    case (written db2)
    have cur: "subscr_wf db2 \<and> current_sub db2 = (current_sub db)(i \<mapsto> stored_sub ?s db1)"
      using ins_current [OF i(2), of ?s] i(3) same_subs_views [OF written(2)] same_subs_views(2) [OF i(4)]
      by simp
    show ?thesis
    proof (rule that(2) [of db2 i "stored_sub ?s db1"])
      show "row = bar_row (stored_sub ?s db1)" if "r = Inr row" for row
        using returns [OF that] written(3) by blast
    qed (use w' written(1) cur i Inr in auto)
  qed
qed

section \<open>Properties\<close>

text \<open>What was asked for is current under the id of \<open>s\<close>, every other id is as it was.\<close>

definition subscribed ::
  "string \<Rightarrow> int \<Rightarrow> int \<Rightarrow> string \<Rightarrow> int option \<Rightarrow> series_subscr \<Rightarrow> subscr_db \<Rightarrow> subscr_db \<Rightarrow> bool" where
  "subscribed c iv app en ts s db db' \<longleftrightarrow>
     current_sub db' = (current_sub db)(sv_id s \<mapsto> s) \<and> sv_metric s = None
     \<and> (sv_cusip s, sv_app s, sv_interval s, sv_enabled s, sv_backfill s) = (c, app, iv, en, ts)"

text \<open>C28: A subscription takes effect, and the next warm pass visits it. Subscribing to a venue's
  bars, under a new id or one in use, keeps one open row per id whatever fails. If it returns, the
  venue can be read and the instrument has a symbol there, the current row of the returned id is
  what was asked for, under a new id unless one was given, and no other subscription changed. If
  it raises, either nothing changed or the row was written. In both cases a warm pass that
  follows, whatever its other sources, returns when its sources answer, and syncs every series that
  an enabled current venue row names on an interval of the interval table. The proviso is the
  join of the procedure the pass reads; \<open>subscribe\<close> itself checks no interval.\<close>

theorem subscription_reaches_warmer:
  assumes "subscr_wf (fst w)" and "known_id sid (fst w)"
    and "subscribe for_app ic c iv app en ts sid w = (r, w')"
    and "all_rows (subscription_source tm_ids # rest) w' = (Inr rows, w1)"
  shows "subscr_wf (fst w')
    \<and> (case r of
         Inr row \<Rightarrow> (\<exists>svc symbol. for_app app = Inr svc \<and> cached_symbol ic c app = Some symbol)
           \<and> (\<exists>s. row = bar_row s \<and> subscribed c iv app en ts s (fst w) (fst w')
                \<and> (sid = None \<and> current_sub (fst w) (sv_id s) = None \<or> sid = Some (sv_id s)))
       | Inl e \<Rightarrow> current_sub (fst w') = current_sub (fst w)
           \<or> (\<exists>s. subscribed c iv app en ts s (fst w) (fst w')))
    \<and> (\<exists>rs w2. warm_run (subscription_source tm_ids # rest) for_app lookback now w' = (Inr rs, w2)
         \<and> (\<forall>series \<in> captured tm_ids (current_sub (fst w')). visited for_app lookback now rs series))"
proof -
  obtain db v where w: "w = (db, v)" by (cases w)
  have wf: "subscr_wf db" "known_id sid db" using assms(1,2) w by simp_all
  have warm: "\<exists>rs w2. warm_run (subscription_source tm_ids # rest) for_app lookback now w' = (Inr rs, w2)
      \<and> (\<forall>series \<in> captured tm_ids (current_sub (fst w')). visited for_app lookback now rs series)"
    if wf': "subscr_wf (fst w')"
  proof -
    obtain rs w2 where "warm_groups for_app lookback now rows (group_keys rows) w1 = (rs, w2)"
      by (meson surj_pair)
    then have run: "warm_run (subscription_source tm_ids # rest) for_app lookback now w' = (Inr rs, w2)"
      using assms(4) by (simp add: warm_run_def del: all_rows.simps)
    obtain xs ys w3 where "subscription_source tm_ids w' = (Inr xs, w3)" "rows = xs @ ys"
      using assms(4) by (auto simp: bindC_Inr_iff)
    then have "captured tm_ids (current_sub (fst w')) \<subseteq> set rows"
      using source_answers [OF wf', of tm_ids "snd w'"] by auto
    with run warm_run_visits [OF assms(4) _ run] show ?thesis by blast
  qed
  from wf assms(3) [unfolded w] show ?thesis
  proof (cases rule: subscribe_cases)
    case (unchanged e db')
    then have "subscr_wf (fst w')" "current_sub (fst w') = current_sub db"
      using same_subs_views [OF unchanged(3)] wf by simp_all
    with warm unchanged(1) w show ?thesis by simp
  next
    case (written i s db')
    then have wf': "subscr_wf (fst w')" and s: "subscribed c iv app en ts s db (fst w')" "sv_id s = i"
      by (simp_all add: subscribed_def)
    have "\<exists>svc symbol. for_app app = Inr svc \<and> cached_symbol ic c app = Some symbol"
      using written(7) by (auto simp: reject_unwarmable_def readable_venue_def split: sum.splits option.splits)
    with warm [OF wf'] wf' s written(4,6) w show ?thesis by (cases r) auto
  qed
qed

text \<open>No two open rows name the same series of a provider.\<close>

definition provider_unique :: "subscr_db \<Rightarrow> bool" where
  "provider_unique db \<longleftrightarrow>
     (\<forall>c app m iv. \<forall>r \<in> set (open_subs db). \<forall>q \<in> set (open_subs db).
        same_provider_series c app m iv r \<and> same_provider_series c app m iv q \<longrightarrow> sv_id r = sv_id q)"

text \<open>Subscribing to a provider's series by its name keeps one open row per series: it versions
  the row that series already has, if any.\<close>

lemma provider_series_one_row:
  assumes wf: "subscr_wf db" and uniq: "provider_unique db"
    and run: "subscribe_provider c app m iv en ts None (db, v) = (r, w')"
  shows "subscr_wf (fst w') \<and> provider_unique (fst w')
    \<and> (\<forall>row. r = Inr row \<longrightarrow> current_sub (fst w') = (current_sub db)(sv_id row \<mapsto> row)
         \<and> same_provider_series c app m iv row
         \<and> (\<forall>q \<in> set (open_subs db). same_provider_series c app m iv q \<longrightarrow> sv_id q = sv_id row))"
proof -
  let ?P = "same_provider_series c app m iv"
  have keep: "subscr_wf db' \<and> provider_unique db'" if "same_subs db db'" for db'
    using same_subs_views [OF that] wf uniq by (simp add: provider_unique_def)
  from run [unfolded subscribe_provider_def, simplified] show ?thesis
  proof (cases rule: bindC_E)
    case (raised e)
    from raised(1) [unfolded open_provider_id_def] show ?thesis
    proof (cases rule: bindC_E)
      case (raised e')
      obtain db' where "w' = (db', v)" "same_subs db db'" using raised(1) by (rule get_series_cases)
      with keep \<open>r = Inl e\<close> show ?thesis by simp
    qed simp
  next
    case (went_on chosen w1)
    from went_on(1) obtain rows w0 where "get_series_subscr (db, v) = (Inr rows, w0)" "w1 = w0"
      and chosen: "chosen = map_option sv_id (find ?P rows)"
      by (auto simp: open_provider_id_def bindC_Inr_iff)
    then obtain db1 where w1: "w1 = (db1, v)" "same_subs db db1" and rows: "rows = sp_get_series_subscr db"
      by (auto elim!: get_series_cases)
    have set_rows: "set rows = set (open_subs db)" by (simp add: rows sp_get_series_subscr_def open_subs_def)
    have wf1: "subscr_wf db1" using keep [OF w1(2)] by blast
    have found: "chosen = Some i \<Longrightarrow> \<exists>q \<in> set (open_subs db). ?P q \<and> sv_id q = i" for i
      using chosen set_rows by (auto dest!: find_SomeD)
    have known: "known_id chosen db1"
      using found wf w1(2) by (fastforce simp: known_id_def subscr_wf_def open_subs_def same_subs_def split: option.splits)
    obtain i db2 where i: "(id_or_fresh chosen :: (_, mkt_exn, _) call) (db1, v) = (Inr i, (db2, v))"
      "subscr_wf db2" "i < sub_uuid db2" "same_subs db1 db2"
      "chosen = None \<and> current_sub db1 i = None \<or> chosen = Some i"
      by (rule id_or_fresh_returns [OF wf1 known, where v = v]) assumption+
    have same: "same_subs db db2" by (rule same_subs_trans [OF w1(2) i(4)])
    have only: "sv_id q = i" if "q \<in> set (open_subs db)" "?P q" for q
    proof -
      have "find ?P rows \<noteq> None" using that set_rows by (auto simp: find_None_iff)
      then obtain j where "chosen = Some j" using chosen by auto
      with found [of j] i(5) obtain q' where "q' \<in> set (open_subs db)" "?P q'" "sv_id q' = i" by auto
      with that uniq show ?thesis unfolding provider_unique_def by blast
    qed
    let ?s = "stored_sub (asked_for i c app (Some m) iv en ts) db2"
    from went_on(2) w1(1) i(1) have "ins_series_subscr i c app (Some m) iv en ts (db2, v) = (r, w')" by simp
    from i(2,3) this show ?thesis
    proof (cases rule: ins_series_cases)
      case (unchanged e db')
      with keep [OF same_subs_trans [OF same]] show ?thesis by simp
    next
      case (written db')
      have cur: "subscr_wf db'" "current_sub db' = (current_sub db)(i \<mapsto> ?s)"
        "open_subs db' = ?s # filter (\<lambda>q. sv_id q \<noteq> i) (open_subs db)"
        using ins_current [OF i(2), of "asked_for i c app (Some m) iv en ts"] i(3)
          same_subs_views [OF written(2)] same_subs_views [OF same]
          open_subs_ins [of "asked_for i c app (Some m) iv en ts" db2]
        by simp_all
      have new: "?P ?s" "same_provider_series c' a' m' iv' ?s \<Longrightarrow> c' = c \<and> a' = app \<and> m' = m \<and> iv' = iv"
        for c' a' m' iv' by (simp_all add: same_provider_series_def)
      have "provider_unique db'"
        unfolding provider_unique_def
      proof (intro allI ballI impI; elim conjE)
        fix c' a' m' iv' p q
        assume mem: "p \<in> set (open_subs db')" "q \<in> set (open_subs db')"
          and P: "same_provider_series c' a' m' iv' p" "same_provider_series c' a' m' iv' q"
        show "sv_id p = sv_id q"
        proof (cases "p = ?s \<or> q = ?s")
          case True
          then have "?P p" "?P q" using P new(2) by blast+
          with True mem only show ?thesis unfolding cur(3) by auto
        next
          case False
          with mem P uniq show ?thesis unfolding cur(3) provider_unique_def by auto
        qed
      qed
      with cur(1,2) written(1,3) only new(1) show ?thesis by auto
    qed
  qed
qed

section \<open>A small run\<close>

text \<open>A bar service in a world that also holds the subscriptions.\<close>

definition beside_subscrs :: "'v bar_service \<Rightarrow> (subscr_db \<times> 'v) bar_service" where
  "beside_subscrs svc =
     \<lparr>get_coverage = (\<lambda>k. \<lambda>(db, v). case get_coverage svc k v of (r, v') \<Rightarrow> (r, (db, v'))),
       get_bars = (\<lambda>k s e. \<lambda>(db, v). case get_bars svc k s e v of (r, v') \<Rightarrow> (r, (db, v'))),
       ins_bar = (\<lambda>k b. \<lambda>(db, v). case ins_bar svc k b v of (r, v') \<Rightarrow> (r, (db, v'))),
       interval_period = interval_period svc, resolve_internal_cusip = resolve_internal_cusip svc,
       default_type_for = default_type_for svc,
       fetch = (\<lambda>symb p s u dt. \<lambda>(db, v). case fetch svc symb p s u dt v of (r, v') \<Rightarrow> (r, (db, v'))),
       fetch_earliest = (\<lambda>symb p dt. \<lambda>(db, v). case fetch_earliest svc symb p dt v of (r, v') \<Rightarrow> (r, (db, v'))),
       utc_now = (\<lambda>(db, v). case utc_now svc v of (t, v') \<Rightarrow> (t, (db, v')))\<rparr>"

definition demo_factory :: "(subscr_db \<times> (bar_db \<times> unit)) service_factory" where
  "demo_factory app =
     (if app = 7 then Inr (beside_subscrs (price_bar_service (demo_env [])))
      else Inl (MktPy (ValueError ''not a ccxt venue'')))"

definition demo_cache :: inst_cache where
  "demo_cache = cache_all [(demo_product ''BTC'')\<lparr>pd_id := 1\<rparr>]
     [\<lparr>xr_id = 1, xr_vid = 1, xr_open = True, xr_product = 1, xr_app = 7, xr_symbol = ''BTCUSDT''\<rparr>]"

definition demo_subs :: "subscr_db \<times> (bar_db \<times> unit)" where
  "demo_subs = (\<lparr>subscrs = [], sub_now = 5, sub_uuid = 0, sub_faults = []\<rparr>, demo_bars [])"

lemma demo_symbol: "cached_symbol demo_cache ''BTC'' 7 = Some ''BTCUSDT''"
  by (simp add: cached_symbol_def demo_cache_def cache_all_def get_product_by_cusip_def resolve_vendor_symbol_def
      dict_of_def demo_product_def)

lemmas subscribe_run = subscribe_def reject_unwarmable_def readable_venue_def demo_factory_def demo_symbol
  id_or_fresh_def fresh_uuid_def ins_series_subscr_def require_text_def strip_def Prelude.is_space_def on_subscr_def
  sp_ins_series_subscr_def asked_for_def next_of_def get_series_subscr_def sp_get_series_subscr_def bar_row_def
  subscription_source_def sp_get_active_bar_subscriptions_def

lemma demo_subscribe:
  "subscribe demo_factory demo_cache ''BTC'' 1 7 ''Y'' None None demo_subs
     = (Inr \<lparr>bs_id = 0, bs_vid = 1, bs_cusip = ''BTC'', bs_interval = 1, bs_app = 7, bs_enabled = ''Y'',
             bs_backfill = None, bs_from = 5\<rparr>,
        (\<lparr>subscrs = [\<lparr>sv_id = 0, sv_vid = 1, sv_cusip = ''BTC'', sv_app = 7, sv_metric = None, sv_interval = 1,
                     sv_enabled = ''Y'', sv_backfill = None, sv_from = 5, sv_open = True\<rparr>],
          sub_now = 5, sub_uuid = 1, sub_faults = []\<rparr>, demo_bars []))"
  by (simp add: subscribe_run demo_subs_def)

theorem subscription_reaches_warmer_witness:
  "\<exists>row w' rs w2. subscribe demo_factory demo_cache ''BTC'' 1 7 ''Y'' None None demo_subs = (Inr row, w')
    \<and> warm_run [subscription_source [1]] demo_factory 10 115 w' = (Inr rs, w2)
    \<and> visited demo_factory 10 115 rs (1, 7, ''BTC'')"
proof -
  obtain row w' where run: "subscribe demo_factory demo_cache ''BTC'' 1 7 ''Y'' None None demo_subs = (Inr row, w')"
    using demo_subscribe by blast
  obtain rows w1 where rows: "all_rows [subscription_source [1]] w' = (Inr rows, w1)"
    using run demo_subscribe by (simp add: subscribe_run returnC_def)
  have wf: "subscr_wf (fst demo_subs)" and known: "known_id None (fst demo_subs)"
    by (simp_all add: demo_subs_def subscr_wf_def open_subs_def known_id_def)
  note out = subscription_reaches_warmer [OF wf known run rows, of 10 115]
  then obtain s where s: "subscribed ''BTC'' 1 7 ''Y'' None s (fst demo_subs) (fst w')" by auto
  then have "s \<in> ran (current_sub (fst w'))"
    by (auto simp: subscribed_def intro: ranI [of _ "sv_id s"])
  with s have "(1, 7, ''BTC'') \<in> captured [1] (current_sub (fst w'))"
    by (auto simp: subscribed_def captured_def)
  with out run show ?thesis by blast
qed

text \<open>An interval the table does not have: the subscription is accepted, and no pass ever sees it.\<close>

lemma unknown_interval_never_warmed:
  "\<exists>row w1. subscribe demo_factory demo_cache ''BTC'' 99 7 ''Y'' None None demo_subs = (Inr row, w1)
     \<and> bs_interval row = 99 \<and> subscription_source [1] w1 = (Inr [], w1)"
  by (simp add: subscribe_run demo_subs_def returnC_def)

text \<open>Two subscriptions to one venue series: the second call is not refused, and disabling the
  first of the rows leaves the series captured.\<close>

lemma second_row_keeps_capturing:
  "\<exists>first second off w1 w2 w3 rows w4.
     subscribe demo_factory demo_cache ''BTC'' 1 7 ''Y'' None None demo_subs = (Inr first, w1)
     \<and> subscribe demo_factory demo_cache ''BTC'' 1 7 ''Y'' None None w1 = (Inr second, w2)
     \<and> subscribe demo_factory demo_cache ''BTC'' 1 7 ''N'' None (Some (bs_id first)) w2 = (Inr off, w3)
     \<and> subscription_source [1] w3 = (Inr rows, w4) \<and> rows = [(1, 7, ''BTC'')]"
  unfolding demo_subscribe by (simp add: subscribe_run demo_bars_def)

end
