(* ===== verification/Venue.thy ===== *)
theory Venue
  imports CcxtApi Orders "HOL-Library.Multiset"
begin

text \<open>
  \<^verbatim>\<open>quant/trade/brokers/ccxt/config.py\<close> and \<^verbatim>\<open>egress.py\<close>: the static wiring of each
  exchange, what a venue does differently from ccxt's defaults, and the ways out to a venue. A
  venue subclass is a constructor of \<open>venue\<close>, its overrides are equations of the operations. The
  process environment is a parameter.
\<close>

section \<open>Venues\<close>

datatype venue = CcxtVenue | BybitVenue

record connect_params =
  paper :: bool
  demo :: bool

text \<open>Which of the exchange's environments the client talks to after \<open>wire\<close>.\<close>

datatype endpoint = Mainnet | Sandbox | DemoTrading

fun wire :: "venue \<Rightarrow> connect_params \<Rightarrow> endpoint" where
  "wire CcxtVenue p = (if paper p then Sandbox else Mainnet)"
| "wire BybitVenue p = (if demo p then DemoTrading else if paper p then Sandbox else Mainnet)"

fun auth_hint :: "venue \<Rightarrow> connect_params \<Rightarrow> string" where
  "auth_hint CcxtVenue p = []"
| "auth_hint BybitVenue p =
     (if demo p then
        '' Demo mode uses Bybit Demo Trading (api-demo.bybit.com) '' @ em_dash @ '' create keys on ''
        @ ''www.bybit.com under Demo Trading, not testnet.bybit.com.''
      else if paper p then
        '' Paper/testnet mode uses https://testnet.bybit.com/ '' @ em_dash @ '' mainnet and ''
        @ ''Demo Trading keys will not work. Run: scripts/bybit_local_testnet.py --diagnose''
      else [])"

text \<open>\<open>_RET_CODE.search\<close>: the digits after the first \<open>"retCode" :\<close>.\<close>

definition ret_code_key :: string where
  "ret_code_key = [CHR 0x22] @ ''retCode'' @ [CHR 0x22]"

definition ret_code_at :: "string \<Rightarrow> string option" where
  "ret_code_at s =
     (if \<not> starts_with ret_code_key s then None
      else (let r1 = dropWhile is_space (drop (length ret_code_key) s)
            in if r1 = [] \<or> hd r1 \<noteq> CHR '':'' then None
               else (let ds = takeWhile is_digit (dropWhile is_space (tl r1))
                     in if ds = [] then None else Some ds)))"

fun ret_code :: "string \<Rightarrow> string option" where
  "ret_code [] = None"
| "ret_code (c # cs) =
     (case ret_code_at (c # cs) of Some ds \<Rightarrow> Some ds | None \<Rightarrow> ret_code cs)"

fun classify_denial :: "venue \<Rightarrow> string \<Rightarrow> reject_reason option" where
  "classify_denial CcxtVenue m = None"
| "classify_denial BybitVenue m =
     (case ret_code m of
        None \<Rightarrow> None
      | Some ds \<Rightarrow>
          map_of [(''10010'', IP_NOT_ALLOWED), (''10024'', REGION_RESTRICTED)] ds)"

text \<open>
  The \<open>result\<close> object of \<^verbatim>\<open>GET /v5/user/query-api\<close>, its \<open>readOnly\<close> already as text, and how
  Bybit's description of a key is read from it.
\<close>

record query_api =
  q_ips :: "string list option"
  q_kyc_region :: "string option"
  q_read_only :: string
  q_expired_at :: "string option"

definition or_none :: "string option \<Rightarrow> string option" where
  "or_none s = (if truthy s then s else None)"

definition bybit_key_info :: "query_api option \<Rightarrow> api_key_info" where
  "bybit_key_info res =
     (case res of
        None \<Rightarrow> \<lparr>ips = [], kyc_region = None, read_only = Some False, expires_at = None\<rparr>
      | Some q \<Rightarrow>
          \<lparr>ips = (case q_ips q of None \<Rightarrow> [] | Some xs \<Rightarrow> xs),
           kyc_region = or_none (q_kyc_region q),
           read_only = Some (q_read_only q = ''1''),
           expires_at = or_none (q_expired_at q)\<rparr>)"

section \<open>Presets\<close>

record preset =
  exchange_id :: string
  exchange_label :: string
  preset_default_type :: "string option"
  default_type_by_issue :: "(string \<times> string) list"
  fetch_order_params :: "(string \<times> json) list option"
  preset_venue :: venue

definition market_type :: "preset \<Rightarrow> string" where
  "market_type p = str_or (preset_default_type p) ''default''"

definition default_type_for :: "preset \<Rightarrow> string option \<Rightarrow> py_exn + string option" where
  "default_type_for p issue_type =
     (if default_type_by_issue p = [] then Inr (preset_default_type p)
      else if \<not> truthy issue_type \<or> map_of (default_type_by_issue p) (the issue_type) = None then
        Inl (ValueError (exchange_label p @ '' has no default type for ISSUE_TYPE '' @ repr_opt issue_type))
      else Inr (map_of (default_type_by_issue p) (the issue_type)))"

definition bybit_preset :: preset where
  "bybit_preset =
     \<lparr>exchange_id = ''bybit'', exchange_label = ''Bybit'', preset_default_type = None,
      default_type_by_issue = [(''spot'', ''spot''), (''future'', ''linear'')],
      fetch_order_params = Some [(''acknowledged'', JBool True)], preset_venue = BybitVenue\<rparr>"

definition binance_preset :: preset where
  "binance_preset =
     \<lparr>exchange_id = ''binanceusdm'', exchange_label = ''Binance'', preset_default_type = None,
      default_type_by_issue = [], fetch_order_params = None, preset_venue = CcxtVenue\<rparr>"

definition ccxt_presets :: "(string \<times> preset) list" where
  "ccxt_presets = [(''bybit'', bybit_preset), (''binance'', binance_preset)]"

section \<open>Egress routes\<close>

record egress_route =
  route_name :: string
  proxy_url :: "string option"

definition direct :: egress_route where
  "direct = \<lparr>route_name = ''direct'', proxy_url = None\<rparr>"

definition env_var :: "string \<Rightarrow> string" where
  "env_var ex = ''CCXT_EGRESS_'' @ py_upper ex"

text \<open>One \<open>name=url\<close> entry; \<open>None\<close> is a malformed one, which is ignored.\<close>

definition route_entry :: "string \<Rightarrow> egress_route option" where
  "route_entry entry =
     (case partition_at CHR ''='' entry of
        (name, sep, url) \<Rightarrow>
          (let name = strip name; url = strip url
           in if \<not> sep \<or> name = [] \<or> url = [] \<or> name = route_name direct then None
              else Some \<lparr>route_name = name, proxy_url = Some url\<rparr>))"

definition from_env :: "(string \<Rightarrow> string option) \<Rightarrow> string \<Rightarrow> egress_route list" where
  "from_env env ex =
     (let raw = (case env (env_var ex) of None \<Rightarrow> [] | Some s \<Rightarrow> s);
          entries = filter (\<lambda>e. e \<noteq> []) (map strip (py_split CHR '','' raw))
      in direct # List.map_filter route_entry entries)"

definition preferring :: "egress_route list \<Rightarrow> string option \<Rightarrow> egress_route list" where
  "preferring routes name = sort_key (\<lambda>r. Some (route_name r) \<noteq> name) routes"

lemma from_env_Cons: "\<exists>rs. from_env env ex = direct # rs"
  by (simp add: from_env_def Let_def)

text \<open>What a variable that lists its entries as documented says.\<close>

definition route_listing :: "(string \<times> string) list \<Rightarrow> string" where
  "route_listing entries = join_with '','' (map (\<lambda>(nm, url). nm @ ''='' @ url) entries)"

definition plain_entry :: "string \<times> string \<Rightarrow> bool" where
  "plain_entry e = (case e of (nm, url) \<Rightarrow> nm \<noteq> [] \<and> url \<noteq> [] \<and> nm \<noteq> ''direct'' \<and> CHR ''='' \<notin> set nm
     \<and> (\<forall>c \<in> set nm \<union> set url. c \<noteq> CHR '','' \<and> \<not> is_space c))"

lemma strip_plain: "\<forall>c \<in> set s. \<not> is_space c \<Longrightarrow> strip s = s"
proof -
  assume a: "\<forall>c \<in> set s. \<not> is_space c"
  have keep: "dropWhile is_space t = t" if "\<forall>c \<in> set t. \<not> is_space c" for t
    using that by (cases t) auto
  show ?thesis using keep [of s] keep [of "rev s"] a by (simp add: strip_def)
qed

lemma py_split_plain: "c \<notin> set p \<Longrightarrow> py_split c p = [p]"
  by (induction p) auto

lemma py_split_append: "c \<notin> set p \<Longrightarrow> py_split c (p @ c # q) = p # py_split c q"
  by (induction p) auto

lemma py_split_join:
  "ps \<noteq> [] \<Longrightarrow> \<forall>p \<in> set ps. c \<notin> set p \<Longrightarrow> py_split c (join_with [c] ps) = ps"
proof (induction "[c]" ps rule: join_with.induct)
  case (3 p q ps)
  then show ?case by (simp add: py_split_append)
qed (simp_all add: py_split_plain)

lemma route_entry_plain:
  assumes "plain_entry (nm, url)"
  shows "route_entry (nm @ ''='' @ url) = Some \<lparr>route_name = nm, proxy_url = Some url\<rparr>"
proof -
  have "\<And>d. d \<in> set nm \<Longrightarrow> d \<noteq> CHR ''=''" using assms by (auto simp: plain_entry_def)
  then have "partition_at CHR ''='' (nm @ ''='' @ url) = (nm, True, url)"
    by (simp add: partition_at_def)
  then show ?thesis
    using assms by (simp add: route_entry_def plain_entry_def strip_plain direct_def)
qed

lemma from_env_listed:
  assumes "\<forall>e \<in> set entries. plain_entry e"
    and "(case env (env_var ex) of None \<Rightarrow> [] | Some s \<Rightarrow> s) = route_listing entries"
  shows "from_env env ex = direct # map (\<lambda>(nm, url). \<lparr>route_name = nm, proxy_url = Some url\<rparr>) entries"
proof (cases "entries = []")
  case True
  then show ?thesis using assms(2) by (simp add: from_env_def route_listing_def strip_def List.map_filter_def)
next
  case False
  let ?ps = "map (\<lambda>(nm, url). nm @ ''='' @ url) entries"
  have part: "CHR '','' \<notin> set p \<and> strip p = p \<and> p \<noteq> []" if "p \<in> set ?ps" for p
  proof -
    obtain nm url where p: "p = nm @ ''='' @ url" "plain_entry (nm, url)" using \<open>p \<in> set ?ps\<close> assms(1) by auto
    then have "\<forall>c \<in> set p. c \<noteq> CHR '','' \<and> \<not> is_space c" by (auto simp: plain_entry_def is_space_def)
    then show ?thesis using strip_plain [of p] p(1) by auto
  qed
  have "py_split CHR '','' (route_listing entries) = ?ps"
    unfolding route_listing_def using False part by (intro py_split_join) auto
  moreover have "map strip ?ps = ?ps" using part by (intro map_idI) blast
  moreover have "filter (\<lambda>e. e \<noteq> []) ?ps = ?ps" using part by (simp add: filter_id_conv del: set_map)
  moreover have "List.map_filter route_entry ?ps = map (\<lambda>(nm, url). \<lparr>route_name = nm, proxy_url = Some url\<rparr>) entries"
    using assms(1) by (induction entries) (auto simp: List.map_filter_simps route_entry_plain simp del: append.simps)
  ultimately show ?thesis using assms(2) by (simp add: from_env_def del: map_map)
qed

lemma route_entry_proxied: "route_entry e = Some r \<Longrightarrow> route_name r \<noteq> route_name direct \<and> truthy (proxy_url r)"
  by (auto simp: route_entry_def truthy_def Let_def split: prod.splits if_splits)

text \<open>Only the first route is direct: every other goes through a named proxy.\<close>

lemma from_env_proxied:
  "\<forall>r \<in> set (tl (from_env env ex)). route_name r \<noteq> ''direct'' \<and> truthy (proxy_url r)"
  using route_entry_proxied
  by (auto simp: from_env_def Let_def List.map_filter_def direct_def)

lemma set_preferring [simp]: "set (preferring rs name) = set rs"
  by (simp add: preferring_def)

lemma length_preferring [simp]: "length (preferring rs name) = length rs"
  by (simp add: preferring_def)

text \<open>The preferred routes come first and both parts keep their order.\<close>

lemma sort_key_bool:
  "sort_key P xs = filter (\<lambda>x. \<not> P x) xs @ filter (P :: 'a \<Rightarrow> bool) xs"
proof (rule properties_for_sort_key)
  show "mset (filter (\<lambda>x. \<not> P x) xs @ filter P xs) = mset xs"
    by (induction xs) auto
  show "filter (\<lambda>x. P k = P x) (filter (\<lambda>x. \<not> P x) xs @ filter P xs) = filter (\<lambda>x. P k = P x) xs" for k
    by (cases "P k") (simp_all add: filter_empty_conv)
  show "sorted (map P (filter (\<lambda>x. \<not> P x) xs @ filter P xs))"
  proof -
    have "map P (filter (\<lambda>x. \<not> P x) xs) = replicate (length (filter (\<lambda>x. \<not> P x) xs)) False"
      by (induction xs) auto
    moreover have "map P (filter P xs) = replicate (length (filter P xs)) True"
      by (induction xs) auto
    ultimately show ?thesis
      by (simp add: sorted_append)
  qed
qed

lemma preferring_eq:
  "preferring rs name =
     filter (\<lambda>r. Some (route_name r) = name) rs @ filter (\<lambda>r. Some (route_name r) \<noteq> name) rs"
  by (simp add: preferring_def sort_key_bool)

lemma preferring_not_Nil [simp]: "preferring (from_env env ex) name \<noteq> []"
  using from_env_Cons [of env ex] by (metis length_preferring length_0_conv list.distinct(1))

end
