(* ===== verification/Gateway.thy ===== *)
theory Gateway
  imports Venue
begin

text \<open>
  \<^verbatim>\<open>quant/trade/brokers/ccxt/gateway.py\<close>: the session with one exchange. The ccxt client is a
  \<open>ccxt_api\<close> record of the calls made on it, each given the connection it was built with and
  acting on a world \<open>'w\<close>; the gateway object's own fields are \<open>gateway_state\<close>, threaded beside the
  world. Every ccxt structure is the record of the fields that are read.
\<close>

section \<open>The exchange client\<close>

record market =
  mk_id :: "string option"
  mk_symbol :: "string option"
  mk_base :: "string option"
  mk_flags :: "string list"
  mk_min_amount :: raw_num
  mk_min_cost :: raw_num

record conn =
  conn_route :: egress_route
  conn_default_type :: "string option"
  conn_endpoint :: endpoint
  conn_markets :: "market list"

record order_dict =
  od_id :: "string option"
  od_status :: "string option"
  od_filled :: raw_num
  od_average :: raw_num
  od_fee :: "(raw_num \<times> string option) option"

record ticker =
  tk_last :: raw_num
  tk_close :: raw_num
  tk_bid :: raw_num
  tk_ask :: raw_num

record balance =
  bal_total :: "(string \<times> raw_num) list"
  bal_free :: "(string \<times> raw_num) list"
  bal_used :: "(string \<times> raw_num) list"

record position_dict =
  pos_symbol :: "string option"
  pos_side :: "string option"
  pos_contracts :: raw_num
  pos_entry_price :: raw_num
  pos_mark_price :: raw_num
  pos_notional :: raw_num
  pos_unrealized_pnl :: raw_num
  pos_leverage :: raw_num
  pos_liquidation_price :: raw_num
  pos_info_symbol :: "string option"
  pos_info_size :: raw_num

record 'w ccxt_api =
  has_exchange :: "string \<Rightarrow> bool"
  api_load_markets :: "conn \<Rightarrow> ('w, ccxt_exn, market list) call"
  api_close :: "conn \<Rightarrow> 'w \<Rightarrow> 'w"
  api_query_key :: "conn \<Rightarrow> ('w, ccxt_exn, query_api option) call"
  api_market :: "conn \<Rightarrow> string \<Rightarrow> ccxt_exn + market"
  api_fetch_balance :: "conn \<Rightarrow> ('w, ccxt_exn, balance) call"
  api_create_order :: "conn \<Rightarrow> string \<Rightarrow> string \<Rightarrow> flt \<Rightarrow> ('w, ccxt_exn, order_dict) call"
  api_cancel_order :: "conn \<Rightarrow> string \<Rightarrow> string option \<Rightarrow> ('w, ccxt_exn, order_dict) call"
  api_fetch_open_orders :: "conn \<Rightarrow> string option \<Rightarrow> ('w, ccxt_exn, order_dict list) call"
  api_fetch_order ::
    "conn \<Rightarrow> string \<Rightarrow> string \<Rightarrow> (string \<times> json) list option \<Rightarrow> ('w, ccxt_exn, order_dict) call"
  api_fetch_ticker :: "conn \<Rightarrow> string \<Rightarrow> ('w, ccxt_exn, ticker) call"
  api_fetch_positions :: "conn \<Rightarrow> string list option \<Rightarrow> ('w, ccxt_exn, position_dict list) call"

definition as_float :: "raw_num \<Rightarrow> flt option" where
  "as_float v =
     (if v = RawNone \<or> v = RawText [] then None
      else case float_of v of Inr x \<Rightarrow> Some x | Inl e \<Rightarrow> None)"

text \<open>\<open>d.get(key)\<close> on a dict of numeric fields.\<close>

definition num_get :: "string \<Rightarrow> (string \<times> raw_num) list \<Rightarrow> raw_num" where
  "num_get k d = (case map_of d k of None \<Rightarrow> RawNone | Some v \<Rightarrow> v)"

section \<open>Session state\<close>

record session_config =
  api_key :: string
  cfg_preset :: preset
  cfg_params :: connect_params

definition public_session :: "preset \<Rightarrow> session_config" where
  "public_session p =
     \<lparr>api_key = [], cfg_preset = p, cfg_params = \<lparr>paper = False, demo = False\<rparr>\<rparr>"

record gateway_state =
  exchange :: "conn option"
  gw_route :: egress_route
  gw_default_type :: "string option"

definition new_gateway :: gateway_state where
  "new_gateway = \<lparr>exchange = None, gw_route = direct, gw_default_type = None\<rparr>"

type_synonym ('s, 'w, 'a) gw_call = "('s gateway_state_scheme \<times> 'w, trade_exn, 'a) call"

definition connected :: "'s gateway_state_scheme \<Rightarrow> bool" where
  "connected s = (exchange s \<noteq> None)"

definition not_connected :: trade_exn where
  "not_connected = BrokerConnectionError ''exchange not connected'' 503 None"

text \<open>
  An exception of ccxt the gateway does not catch. Nothing above tells it apart by class, so it
  is kept as its text.
\<close>

definition escaped :: "ccxt_exn \<Rightarrow> trade_exn" where
  "escaped e = (case e of CcxtOther p \<Rightarrow> PyExn p | _ \<Rightarrow> PyExn (RuntimeError (ccxt_message e)))"

definition auth_error :: "session_config \<Rightarrow> string \<Rightarrow> string \<Rightarrow> trade_exn" where
  "auth_error cfg msg phase =
     (let v = preset_venue (cfg_preset cfg)
      in BrokerAuthError
           (''authentication failed during '' @ phase @ '': '' @ msg @ ''.'' @ auth_hint v (cfg_params cfg))
           (Some (case classify_denial v msg of Some r \<Rightarrow> r | None \<Rightarrow> KEY_REFUSED)))"

text \<open>The handlers most calls share: an authentication error, then any other error of ccxt.\<close>

definition ccxt_failure :: "session_config \<Rightarrow> string \<Rightarrow> string \<Rightarrow> ccxt_exn \<Rightarrow> trade_exn" where
  "ccxt_failure cfg phase prefix e =
     (case e of
        AuthenticationError m \<Rightarrow> auth_error cfg m phase
      | CcxtOther p \<Rightarrow> PyExn p
      | _ \<Rightarrow> BrokerConnectionError (prefix @ '': '' @ ccxt_message e) 503 None)"

text \<open>A call on the open exchange, its failures translated by \<open>fail\<close>.\<close>

definition on_exchange ::
  "(conn \<Rightarrow> ('w, ccxt_exn, 'a) call) \<Rightarrow> (ccxt_exn \<Rightarrow> trade_exn) \<Rightarrow> ('s, 'w, 'a) gw_call" where
  "on_exchange f fail = (\<lambda>(s, w).
     case exchange s of
       None \<Rightarrow> (Inl not_connected, (s, w))
     | Some c \<Rightarrow>
         (case f c w of
            (Inr x, w') \<Rightarrow> (Inr x, (s, w'))
          | (Inl e, w') \<Rightarrow> (Inl (fail e), (s, w'))))"

lemma on_exchange_state: "fst (snd (on_exchange f fail (s, w))) = s"
  by (simp add: on_exchange_def split: option.splits prod.splits sum.splits)

lemma on_exchange_open:
  "exchange s = Some c \<Longrightarrow>
   on_exchange f fail (s, w) =
     (case f c w of (Inr x, w') \<Rightarrow> (Inr x, (s, w')) | (Inl e, w') \<Rightarrow> (Inl (fail e), (s, w')))"
  by (simp add: on_exchange_def)

section \<open>Connecting\<close>

definition disconnect :: "'w ccxt_api \<Rightarrow> 's gateway_state_scheme \<times> 'w \<Rightarrow> 's gateway_state_scheme \<times> 'w" where
  "disconnect api sw =
     (case sw of (s, w) \<Rightarrow>
        (case exchange s of
           None \<Rightarrow> (s, w)
         | Some c \<Rightarrow> (s\<lparr>exchange := None\<rparr>, api_close api c w)))"

definition build_exchange ::
  "'w ccxt_api \<Rightarrow> session_config \<Rightarrow> 's gateway_state_scheme \<Rightarrow> egress_route \<Rightarrow> trade_exn + conn" where
  "build_exchange api cfg s r =
     (let p = cfg_preset cfg
      in if \<not> has_exchange api (exchange_id p) then
           Inl (BrokerConnectionError (''ccxt has no exchange class '' @ py_repr (exchange_id p)) 503 None)
         else
           Inr \<lparr>conn_route = r,
                conn_default_type =
                  (if truthy (gw_default_type s) then gw_default_type s
                   else or_none (preset_default_type p)),
                conn_endpoint = wire (preset_venue p) (cfg_params cfg), conn_markets = []\<rparr>)"

definition gateway_connect ::
  "'w ccxt_api \<Rightarrow> session_config \<Rightarrow> egress_route \<Rightarrow> ('s, 'w, unit) gw_call" where
  "gateway_connect api cfg r = (\<lambda>(s, w).
     let s1 = s\<lparr>gw_route := r\<rparr> in
     case build_exchange api cfg s1 r of
       Inl e \<Rightarrow> (Inl e, (s1, w))
     | Inr c \<Rightarrow>
         (let s2 = s1\<lparr>exchange := Some c\<rparr> in
          case api_load_markets api c w of
            (Inr ms, w') \<Rightarrow> (Inr (), (s2\<lparr>exchange := Some (c\<lparr>conn_markets := ms\<rparr>)\<rparr>, w'))
          | (Inl (CcxtOther p), w') \<Rightarrow> (Inl (PyExn p), (s2, w'))
          | (Inl e, w') \<Rightarrow>
              (Inl (ccxt_failure cfg ''load_markets'' ''broker unreachable during load_markets'' e),
               disconnect api (s2, w'))))"

definition fetch_api_key_info ::
  "'w ccxt_api \<Rightarrow> session_config \<Rightarrow> ('s, 'w, api_key_info option) gw_call" where
  "fetch_api_key_info api cfg =
     on_exchange
       (\<lambda>c. case preset_venue (cfg_preset cfg) of
              CcxtVenue \<Rightarrow> returnC None
            | BybitVenue \<Rightarrow> bindC (api_query_key api c) (\<lambda>q. returnC (Some (bybit_key_info q))))
       (ccxt_failure cfg ''fetch_api_key_info'' ''fetch_api_key_info failed'')"

definition validate_credentials :: "'w ccxt_api \<Rightarrow> session_config \<Rightarrow> ('s, 'w, unit) gw_call" where
  "validate_credentials api cfg =
     bindC (on_exchange (api_fetch_balance api) (ccxt_failure cfg ''fetch_balance'' ''broker unreachable''))
       (\<lambda>_. returnC ())"

definition pin_default_type :: "string option \<Rightarrow> 's gateway_state_scheme \<Rightarrow> 's gateway_state_scheme" where
  "pin_default_type t s =
     (let s1 = s\<lparr>gw_default_type := t\<rparr>
      in case exchange s of
           None \<Rightarrow> s1
         | Some c \<Rightarrow> (if truthy t then s1\<lparr>exchange := Some (c\<lparr>conn_default_type := t\<rparr>)\<rparr> else s1))"

section \<open>Markets\<close>

definition market_exists :: "'w ccxt_api \<Rightarrow> string \<Rightarrow> ('s, 'w, bool) gw_call" where
  "market_exists api symb =
     on_exchange
       (\<lambda>c. if Some symb \<in> mk_symbol ` set (conn_markets c) then returnC True
            else case api_market api c symb of
                   Inr m \<Rightarrow> returnC True
                 | Inl (BadSymbol m) \<Rightarrow> returnC False
                 | Inl e \<Rightarrow> raiseC e)
       escaped"

definition limits_of :: "market \<Rightarrow> string \<Rightarrow> market_limits" where
  "limits_of m symb =
     \<lparr>lim_symbol = symb, min_qty = as_float (mk_min_amount m), min_notional = as_float (mk_min_cost m)\<rparr>"

definition fetch_market_limits ::
  "'w ccxt_api \<Rightarrow> string \<Rightarrow> 's gateway_state_scheme \<Rightarrow> trade_exn + market_limits" where
  "fetch_market_limits api symb s =
     (case exchange s of
        None \<Rightarrow> Inr (no_limits symb)
      | Some c \<Rightarrow>
          (case api_market api c symb of
             Inr m \<Rightarrow> Inr (limits_of m symb)
           | Inl (CcxtOther p) \<Rightarrow> Inl (PyExn p)
           | Inl e \<Rightarrow> Inr (no_limits symb)))"

text \<open>\<open>out[key] = ...\<close> over the markets of the default type, the later one winning.\<close>

definition limit_entries :: "market \<Rightarrow> (string \<times> market_limits) list" where
  "limit_entries m =
     List.map_filter
       (\<lambda>k. if truthy k then Some (the k, limits_of m (the k)) else None) [mk_id m, mk_symbol m]"

definition fetch_all_market_limits ::
  "session_config \<Rightarrow> 's gateway_state_scheme \<Rightarrow> trade_exn + (string \<times> market_limits) list" where
  "fetch_all_market_limits cfg s =
     (case exchange s of
        None \<Rightarrow> Inl not_connected
      | Some c \<Rightarrow>
          (let t = (if truthy (gw_default_type s) then gw_default_type s
                    else preset_default_type (cfg_preset cfg));
               ms = filter (\<lambda>m. truthy t \<longrightarrow> the t \<in> set (mk_flags m)) (conn_markets c)
           in Inr (foldl (\<lambda>out (k, l). AList.update k l out) [] (concat (map limit_entries ms)))))"

section \<open>Orders\<close>

definition create_failure :: "session_config \<Rightarrow> ccxt_exn \<Rightarrow> trade_exn" where
  "create_failure cfg e =
     (case e of
        InsufficientFunds m \<Rightarrow>
          BrokerConnectionError (''insufficient funds: '' @ m) 503 (Some INSUFFICIENT_FUNDS)
      | InvalidOrder m \<Rightarrow> BrokerConnectionError (''invalid order: '' @ m) 503 (Some INVALID_ORDER)
      | OrderNotFound m \<Rightarrow> BrokerConnectionError (''invalid order: '' @ m) 503 (Some INVALID_ORDER)
      | _ \<Rightarrow> ccxt_failure cfg ''create_order'' ''create_order failed'' e)"

definition create_market_order ::
  "'w ccxt_api \<Rightarrow> session_config \<Rightarrow> string \<Rightarrow> string \<Rightarrow> flt \<Rightarrow> ('s, 'w, order_dict) gw_call" where
  "create_market_order api cfg symb side qty =
     on_exchange (\<lambda>c. api_create_order api c symb side qty) (create_failure cfg)"

definition gateway_cancel_order ::
  "'w ccxt_api \<Rightarrow> session_config \<Rightarrow> string \<Rightarrow> string option \<Rightarrow> ('s, 'w, order_dict) gw_call" where
  "gateway_cancel_order api cfg oid symb =
     on_exchange (\<lambda>c. api_cancel_order api c oid symb)
       (ccxt_failure cfg ''cancel_order'' ''cancel_order failed'')"

definition fetch_open_orders ::
  "'w ccxt_api \<Rightarrow> session_config \<Rightarrow> string option \<Rightarrow> ('s, 'w, order_dict list) gw_call" where
  "fetch_open_orders api cfg symb =
     on_exchange (\<lambda>c. api_fetch_open_orders api c symb)
       (ccxt_failure cfg ''fetch_open_orders'' ''fetch_open_orders failed'')"

definition fetch_order_failure :: "session_config \<Rightarrow> ccxt_exn \<Rightarrow> trade_exn" where
  "fetch_order_failure cfg e =
     (case e of
        OrderNotFound m \<Rightarrow> OrderNotFoundError (''order not found: '' @ m)
      | _ \<Rightarrow> ccxt_failure cfg ''fetch_order'' ''fetch_order failed'' e)"

definition fetch_order ::
  "'w ccxt_api \<Rightarrow> session_config \<Rightarrow> string \<Rightarrow> string \<Rightarrow> ('s, 'w, order_dict) gw_call" where
  "fetch_order api cfg oid symb =
     (let params = (case fetch_order_params (cfg_preset cfg) of
                      None \<Rightarrow> None | Some ps \<Rightarrow> if ps = [] then None else Some ps)
      in on_exchange (\<lambda>c. api_fetch_order api c oid symb params) (fetch_order_failure cfg))"

section \<open>Account reads\<close>

definition first_price :: "ticker \<Rightarrow> py_exn + flt option" where
  "first_price t =
     (case filter (\<lambda>v. v \<noteq> RawNone) [tk_last t, tk_close t, tk_bid t, tk_ask t] of
        [] \<Rightarrow> Inr None
      | v # _ \<Rightarrow> bindR (float_of v) (\<lambda>x. Inr (Some x)))"

definition lift_py :: "py_exn + 'a \<Rightarrow> ('w, trade_exn, 'a) call" where
  "lift_py r = (case r of Inl e \<Rightarrow> raiseC (PyExn e) | Inr x \<Rightarrow> returnC x)"

definition fetch_last_price ::
  "'w ccxt_api \<Rightarrow> session_config \<Rightarrow> string \<Rightarrow> ('s, 'w, flt option) gw_call" where
  "fetch_last_price api cfg symb =
     bindC (on_exchange (\<lambda>c. api_fetch_ticker api c symb)
              (ccxt_failure cfg ''fetch_ticker'' ''fetch_ticker failed''))
       (\<lambda>t. lift_py (first_price t))"

record balance_row =
  br_code :: string
  br_free :: "flt option"
  br_used :: "flt option"
  br_total :: "flt option"

definition holds :: "flt option \<Rightarrow> bool" where
  "holds x = (case x of None \<Rightarrow> False | Some v \<Rightarrow> flt_truthy v)"

definition balance_row_of :: "balance \<Rightarrow> string \<Rightarrow> balance_row" where
  "balance_row_of b code =
     \<lparr>br_code = code, br_free = as_float (num_get code (bal_free b)),
      br_used = as_float (num_get code (bal_used b)), br_total = as_float (num_get code (bal_total b))\<rparr>"

definition balance_rows :: "balance \<Rightarrow> balance_row list" where
  "balance_rows b =
     filter (\<lambda>r. holds (br_total r) \<or> holds (br_free r) \<or> holds (br_used r))
       (map (balance_row_of b) (sort (remdups (map fst (bal_total b)))))"

definition fetch_balances :: "'w ccxt_api \<Rightarrow> session_config \<Rightarrow> ('s, 'w, balance_row list) gw_call" where
  "fetch_balances api cfg =
     bindC (on_exchange (api_fetch_balance api) (ccxt_failure cfg ''fetch_balance'' ''fetch_balance failed''))
       (\<lambda>b. returnC (balance_rows b))"

record position_row =
  pr_symbol :: string
  pr_unified_symbol :: "string option"
  pr_qty :: flt
  pr_side :: "string option"
  pr_entry_price :: "flt option"
  pr_mark_price :: "flt option"
  pr_notional :: "flt option"
  pr_unrealized_pnl :: "flt option"
  pr_leverage :: "flt option"
  pr_liquidation_price :: "flt option"

definition open_qty :: "position_dict \<Rightarrow> flt" where
  "open_qty pos =
     (case as_float (pos_contracts pos) of
        Some q \<Rightarrow> q
      | None \<Rightarrow> (case as_float (pos_info_size pos) of
                   Some q \<Rightarrow> (if flt_truthy q then q else Fin 0)
                 | None \<Rightarrow> Fin 0))"

definition position_row_of :: "position_dict \<Rightarrow> position_row option" where
  "position_row_of pos =
     (let qty = open_qty pos
      in if \<not> flt_truthy qty then None
         else Some
           \<lparr>pr_symbol = (if truthy (pos_info_symbol pos) then the (pos_info_symbol pos)
                         else str_or (pos_symbol pos) []),
            pr_unified_symbol = pos_symbol pos,
            pr_qty = (if pos_side pos = Some ''short'' then flt_neg (flt_abs qty) else flt_abs qty),
            pr_side = pos_side pos, pr_entry_price = as_float (pos_entry_price pos),
            pr_mark_price = as_float (pos_mark_price pos), pr_notional = as_float (pos_notional pos),
            pr_unrealized_pnl = as_float (pos_unrealized_pnl pos),
            pr_leverage = as_float (pos_leverage pos),
            pr_liquidation_price = as_float (pos_liquidation_price pos)\<rparr>)"

definition fetch_open_positions :: "'w ccxt_api \<Rightarrow> session_config \<Rightarrow> ('s, 'w, position_row list) gw_call" where
  "fetch_open_positions api cfg =
     bindC (on_exchange (\<lambda>c. api_fetch_positions api c None)
              (ccxt_failure cfg ''fetch_positions'' ''fetch_positions failed''))
       (\<lambda>ps. returnC (List.map_filter position_row_of ps))"

definition base_balance :: "'w ccxt_api \<Rightarrow> session_config \<Rightarrow> string \<Rightarrow> ('s, 'w, flt) gw_call" where
  "base_balance api cfg symb =
     bindC (on_exchange
              (\<lambda>c. case api_market api c symb of
                     Inl e \<Rightarrow> raiseC e
                   | Inr m \<Rightarrow> bindC (api_fetch_balance api c) (\<lambda>b. returnC (m, b)))
              (ccxt_failure cfg ''fetch_balance'' ''fetch_balance failed''))
       (\<lambda>(m, b).
          if \<not> truthy (mk_base m)
          then raiseC (BrokerConnectionError (''no base currency for '' @ symb) 503 None)
          else (case as_float (num_get (the (mk_base m)) (bal_total b)) of
                  Some q \<Rightarrow> returnC (if flt_truthy q then q else Fin 0)
                | None \<Rightarrow> returnC (Fin 0)))"

definition position_qty :: "position_dict \<Rightarrow> py_exn + flt" where
  "position_qty pos =
     bindR (if pos_contracts pos \<noteq> RawNone then float_of (pos_contracts pos)
            else if pos_info_size pos \<noteq> RawNone then float_of (pos_info_size pos)
            else Inr (Fin 0))
       (\<lambda>q. Inr (if pos_side pos = Some ''short'' then flt_neg (flt_abs q) else q))"

text \<open>\<open>vendor_symbol in (pos symbol, unified symbol, info symbol)\<close>.\<close>

definition names_position :: "string \<Rightarrow> string option \<Rightarrow> position_dict \<Rightarrow> bool" where
  "names_position symb unified pos =
     (Some symb \<in> {pos_symbol pos, unified, pos_info_symbol pos})"

definition first_position :: "string \<Rightarrow> string option \<Rightarrow> position_dict list \<Rightarrow> py_exn + flt" where
  "first_position symb unified ps =
     (case filter (names_position symb unified) ps of [] \<Rightarrow> Inr (Fin 0) | pos # _ \<Rightarrow> position_qty pos)"

definition positions_failure :: "ccxt_exn \<Rightarrow> trade_exn" where
  "positions_failure e =
     (case e of
        CcxtOther p \<Rightarrow> PyExn p
      | _ \<Rightarrow> BrokerConnectionError (''fetch_positions failed: '' @ ccxt_message e) 503 None)"

definition fetch_position_qty ::
  "'w ccxt_api \<Rightarrow> session_config \<Rightarrow> string \<Rightarrow> ('s, 'w, flt) gw_call" where
  "fetch_position_qty api cfg symb = (\<lambda>(s, w).
     if gw_default_type s = Some ''spot'' then base_balance api cfg symb (s, w)
     else bindC (on_exchange (\<lambda>c. api_fetch_positions api c (Some [symb])) positions_failure) (\<lambda>ps.
          bindC (on_exchange
                   (\<lambda>c. case api_market api c symb of
                          Inr m \<Rightarrow> returnC (mk_symbol m)
                        | Inl (BadSymbol m) \<Rightarrow> returnC (Some symb)
                        | Inl e \<Rightarrow> raiseC e) escaped) (\<lambda>unified.
          lift_py (first_position symb unified ps))) (s, w))"

section \<open>Positions\<close>

text \<open>An open position as the venue reports one: a positive size, the direction in \<open>side\<close>.\<close>

definition reported :: "position_dict \<Rightarrow> bool" where
  "reported pos = (case pos_contracts pos of RawNum (Fin q) \<Rightarrow> 0 < q | _ \<Rightarrow> False)"

lemma position_qty_row:
  assumes "reported pos"
  shows "\<exists>row. position_row_of pos = Some row \<and> position_qty pos = Inr (pr_qty row)"
proof -
  obtain q where q: "pos_contracts pos = RawNum (Fin q)" "0 < q"
    using assms by (auto simp: reported_def split: raw_num.splits flt.splits)
  then have "open_qty pos = Fin q" "flt_truthy (Fin q)"
    by (auto simp: open_qty_def as_float_def flt_truthy_def flt_eq_def)
  then show ?thesis
    using q by (auto simp: position_row_of_def position_qty_def Let_def)
qed

definition own_position :: "string \<Rightarrow> position_dict \<Rightarrow> bool" where
  "own_position symb pos \<longleftrightarrow> pos_symbol pos = Some symb \<or> pos_info_symbol pos = Some symb"

lemma fetch_position_qty_eq:
  assumes "exchange s = Some c" and "gw_default_type s \<noteq> Some ''spot''"
    and "api_fetch_positions api c (Some [symb]) w = (Inr ps, w')" and "api_market api c symb = Inr m"
  shows "fetch_position_qty api cfg symb (s, w) = lift_py (first_position symb (mk_symbol m) ps) (s, w')"
  using assms by (simp add: fetch_position_qty_def on_exchange_def bindC_def)

lemma first_position_find:
  "unified \<noteq> Some symb \<Longrightarrow>
   first_position symb unified ps =
     (case find (own_position symb) ps of None \<Rightarrow> Inr (Fin 0) | Some pos \<Rightarrow> position_qty pos)"
  by (induction ps) (auto simp: first_position_def names_position_def own_position_def)

section \<open>Properties\<close>

text \<open>For a contract named by the exchange's own id, the position a trade decision is based on
  is the one the account page shows: the signed size of the first listed position of that symbol,
  negative when short, and zero when the symbol has none.\<close>

theorem position_read_matches_snapshot:
  assumes "exchange s = Some c" and "gw_default_type s \<noteq> Some ''spot''"
    and "api_fetch_positions api c (Some [symb]) w = (Inr ps, w')" and "api_market api c symb = Inr m"
    and "mk_symbol m \<noteq> Some symb" and "\<forall>pos \<in> set ps. reported pos"
  shows "fetch_position_qty api cfg symb (s, w) =
    (Inr (case find (own_position symb) ps of
            None \<Rightarrow> Fin 0 | Some pos \<Rightarrow> pr_qty (the (position_row_of pos))), (s, w'))"
proof (cases "find (own_position symb) ps")
  case None
  with fetch_position_qty_eq [OF assms(1-4), of cfg] first_position_find [OF assms(5)] show ?thesis
    by (simp add: lift_py_def)
next
  case (Some pos)
  then have "reported pos"
    using assms(6) by (auto simp: find_Some_iff)
  from position_qty_row [OF this] Some fetch_position_qty_eq [OF assms(1-4), of cfg]
    first_position_find [OF assms(5)] show ?thesis
    by (auto simp: lift_py_def)
qed

text \<open>For an instrument whose stored symbol is ccxt's unified one, the symbol filter of the
  position read passes every position: the first position the exchange lists is returned, whatever
  symbol it is of.\<close>

theorem unified_symbol_reads_any_position:
  assumes "exchange s = Some c" and "gw_default_type s \<noteq> Some ''spot''"
    and "api_fetch_positions api c (Some [symb]) w = (Inr (pos # ps), w')"
    and "api_market api c symb = Inr m" and "mk_symbol m = Some symb" and "reported pos"
  shows "fetch_position_qty api cfg symb (s, w) = (Inr (pr_qty (the (position_row_of pos))), (s, w'))"
  using fetch_position_qty_eq [OF assms(1-4), of cfg] position_qty_row [OF assms(6)] assms(5)
  by (auto simp: first_position_def names_position_def lift_py_def)

text \<open>A session with a short perpetual of another symbol listed.\<close>

definition demo_conn :: conn where
  "demo_conn =
     \<lparr>conn_route = direct, conn_default_type = Some ''linear'', conn_endpoint = Mainnet, conn_markets = []\<rparr>"

definition demo_gateway :: gateway_state where
  "demo_gateway = \<lparr>exchange = Some demo_conn, gw_route = direct, gw_default_type = Some ''linear''\<rparr>"

definition demo_position :: "string \<Rightarrow> string \<Rightarrow> position_dict" where
  "demo_position unified raw =
     \<lparr>pos_symbol = Some unified, pos_side = Some ''short'', pos_contracts = RawNum (Fin 3),
      pos_entry_price = RawNone, pos_mark_price = RawNone, pos_notional = RawNone,
      pos_unrealized_pnl = RawNone, pos_leverage = RawNone, pos_liquidation_price = RawNone,
      pos_info_symbol = Some raw, pos_info_size = RawNone\<rparr>"

definition demo_market :: "string \<Rightarrow> market" where
  "demo_market unified =
     \<lparr>mk_id = None, mk_symbol = Some unified, mk_base = None, mk_flags = [], mk_min_amount = RawNone,
      mk_min_cost = RawNone\<rparr>"

definition demo_exchange :: "unit ccxt_api" where
  "demo_exchange =
     \<lparr>has_exchange = (\<lambda>i. True), api_load_markets = (\<lambda>c w. (Inr [], w)), api_close = (\<lambda>c w. w),
      api_query_key = (\<lambda>c w. (Inr None, w)),
      api_market = (\<lambda>c symb. Inr (demo_market ''BTC/USDT:USDT'')),
      api_fetch_balance = (\<lambda>c w. (Inl (BaseError []), w)),
      api_create_order = (\<lambda>c symb side qty w. (Inl (BaseError []), w)),
      api_cancel_order = (\<lambda>c oid symb w. (Inl (BaseError []), w)),
      api_fetch_open_orders = (\<lambda>c symb w. (Inr [], w)),
      api_fetch_order = (\<lambda>c oid symb params w. (Inl (BaseError []), w)),
      api_fetch_ticker = (\<lambda>c symb w. (Inl (BaseError []), w)),
      api_fetch_positions = (\<lambda>c symbs w. (Inr [demo_position ''ETH/USDT:USDT'' ''ETHUSDT''], w))\<rparr>"

lemma demo_gateway_simps [simp]:
  "exchange demo_gateway = Some demo_conn" "gw_default_type demo_gateway \<noteq> Some ''spot''"
  "api_fetch_positions demo_exchange c symbs w = (Inr [demo_position ''ETH/USDT:USDT'' ''ETHUSDT''], w)"
  "api_market demo_exchange c symb = Inr (demo_market ''BTC/USDT:USDT'')"
  "mk_symbol (demo_market u) = Some u" "reported (demo_position u r)"
  "\<not> own_position ''BTCUSDT'' (demo_position ''ETH/USDT:USDT'' ''ETHUSDT'')"
  by (simp_all add: demo_gateway_def demo_exchange_def demo_market_def demo_position_def reported_def
      own_position_def)

lemma demo_position_row: "pr_qty (the (position_row_of (demo_position u r))) = Fin (- 3)"
  by (simp add: position_row_of_def demo_position_def open_qty_def as_float_def flt_truthy_def
      flt_eq_def Let_def)

theorem position_read_matches_snapshot_witness:
  "fetch_position_qty demo_exchange (public_session bybit_preset) ''BTCUSDT'' (demo_gateway, ())
   = (Inr (Fin 0), (demo_gateway, ()))"
  using position_read_matches_snapshot [of demo_gateway demo_conn demo_exchange "''BTCUSDT''" "()"]
  by simp

theorem unified_symbol_reads_any_position_witness:
  "fetch_position_qty demo_exchange (public_session bybit_preset) ''BTC/USDT:USDT'' (demo_gateway, ())
   = (Inr (Fin (- 3)), (demo_gateway, ()))"
  using unified_symbol_reads_any_position [of demo_gateway demo_conn demo_exchange "''BTC/USDT:USDT''" "()"]
  by (simp add: demo_position_row)

end
