(* ===== verification/KeyRouting.thy ===== *)
theory KeyRouting
  imports Gateway
begin

text \<open>
  \<^verbatim>\<open>quant/trade/key_profiles.py\<close> and \<^verbatim>\<open>quant/trade/brokers/ccxt/routing.py\<close>: the Redis cache of
  key profiles, and the router that connects a key on the first egress route the venue accepts
  it from. Redis is a record of its two calls; an entry is the JSON document that was stored, or
  text that does not parse. The SHA-256 fingerprint and the environment are parameters.
\<close>

section \<open>Cache\<close>

datatype cache_entry = Unreadable | Doc "(string \<times> json) list"

text \<open>\<open>Inl ()\<close> is a \<open>RedisError\<close>; \<open>None\<close> a missing key.\<close>

record 'w redis =
  redis_get :: "string \<Rightarrow> ('w, unit, cache_entry option) call"
  redis_set :: "string \<Rightarrow> (string \<times> json) list \<Rightarrow> int \<Rightarrow> ('w, unit, unit) call"

definition key_profile_ttl_s :: int where
  "key_profile_ttl_s = 86400"

definition profiles_get :: "'w redis \<Rightarrow> string \<Rightarrow> 'w \<Rightarrow> key_profile option \<times> 'w" where
  "profiles_get rd key w =
     (case redis_get rd key w of
        (Inr (Some (Doc d)), w') \<Rightarrow>
          (case key_profile_from_json d of Inr p \<Rightarrow> (Some p, w') | Inl e \<Rightarrow> (None, w'))
      | (_, w') \<Rightarrow> (None, w'))"

definition profiles_put :: "'w redis \<Rightarrow> string \<Rightarrow> key_profile \<Rightarrow> 'w \<Rightarrow> 'w" where
  "profiles_put rd key p w =
     snd (redis_set rd key (key_profile_to_json p) key_profile_ttl_s w)"

section \<open>Router\<close>

definition environment :: "connect_params \<Rightarrow> string" where
  "environment p = (if demo p then ''demo'' else if paper p then ''paper'' else ''live'')"

definition profile_key :: "(string \<Rightarrow> string) \<Rightarrow> session_config \<Rightarrow> string" where
  "profile_key sha256 cfg =
     ''key_profile:'' @ exchange_id (cfg_preset cfg) @ '':'' @ environment (cfg_params cfg) @ '':''
     @ take 16 (sha256 (api_key cfg))"

record 'w router =
  rt_store :: "'w redis option"
  rt_sha256 :: "string \<Rightarrow> string"
  rt_env :: "string \<Rightarrow> string option"

definition store_get :: "'w router \<Rightarrow> string \<Rightarrow> 'w \<Rightarrow> key_profile option \<times> 'w" where
  "store_get rt key w =
     (case rt_store rt of None \<Rightarrow> (None, w) | Some rd \<Rightarrow> profiles_get rd key w)"

definition store_put :: "'w router \<Rightarrow> string \<Rightarrow> key_profile \<Rightarrow> 'w \<Rightarrow> 'w" where
  "store_put rt key p w =
     (case rt_store rt of None \<Rightarrow> w | Some rd \<Rightarrow> profiles_put rd key p w)"

definition all_refused :: "session_config \<Rightarrow> string list \<Rightarrow> trade_exn" where
  "all_refused cfg refused =
     BrokerAuthError
       (exchange_label (cfg_preset cfg) @ '' refused this key'' @ [CHR 0x27]
        @ ''s source IP on every egress route ('' @ join_with '', '' refused
        @ ''). Add one of the platform'' @ [CHR 0x27] @ ''s egress IPs to the key'' @ [CHR 0x27]
        @ ''s allowlist at the venue.'')
       (Some IP_NOT_ALLOWED)"

definition is_auth :: "trade_exn \<Rightarrow> bool" where
  "is_auth e = (case e of BrokerAuthError m r \<Rightarrow> True | _ \<Rightarrow> False)"

text \<open>
  One pass of the loop over the routes: the key information the venue gave, or the failure of
  the connect, or the failure of the key-information call after closing the session.
\<close>

datatype route_answer = ConnectFailed trade_exn | KeyFailed trade_exn | KeyInfo "api_key_info option"

definition try_route ::
  "'w ccxt_api \<Rightarrow> session_config \<Rightarrow> egress_route \<Rightarrow> 's gateway_state_scheme \<times> 'w
   \<Rightarrow> route_answer \<times> ('s gateway_state_scheme \<times> 'w)" where
  "try_route api cfg r sw =
     (case gateway_connect api cfg r sw of
        (Inl e, sw') \<Rightarrow> (ConnectFailed e, sw')
      | (Inr _, sw') \<Rightarrow>
          (case fetch_api_key_info api cfg sw' of
             (Inl e, sw'') \<Rightarrow> (KeyFailed e, disconnect api sw'')
           | (Inr i, sw'') \<Rightarrow> (KeyInfo i, sw'')))"

fun try_routes ::
  "'w ccxt_api \<Rightarrow> session_config \<Rightarrow> egress_route list \<Rightarrow> string list
   \<Rightarrow> ('s, 'w, egress_route \<times> api_key_info option) gw_call" where
  "try_routes api cfg [] refused sw = (Inl (all_refused cfg refused), sw)"
| "try_routes api cfg (r # rs) refused sw =
     (case try_route api cfg r sw of
        (ConnectFailed e, sw') \<Rightarrow> (Inl e, sw')
      | (KeyFailed e, sw') \<Rightarrow>
          (if is_auth e \<and> exn_reason e = Some IP_NOT_ALLOWED
           then try_routes api cfg rs (refused @ [route_name r]) sw'
           else (Inl e, sw'))
      | (KeyInfo i, sw') \<Rightarrow> (Inr (r, i), sw'))"

definition candidates :: "'w router \<Rightarrow> session_config \<Rightarrow> key_profile option \<Rightarrow> egress_route list" where
  "candidates rt cfg cached =
     preferring (from_env (rt_env rt) (exchange_id (cfg_preset cfg))) (map_option route cached)"

definition router_connect ::
  "'w router \<Rightarrow> 'w ccxt_api \<Rightarrow> session_config \<Rightarrow> ('s, 'w, key_profile) gw_call" where
  "router_connect rt api cfg = (\<lambda>(s, w).
     let key = profile_key (rt_sha256 rt) cfg in
     case store_get rt key w of
       (cached, w1) \<Rightarrow>
         (case try_routes api cfg (candidates rt cfg cached) [] (s, w1) of
            (Inl e, sw) \<Rightarrow> (Inl e, sw)
          | (Inr (r, i), (s2, w2)) \<Rightarrow>
              (let p = accepted (route_name r) i cached
               in (Inr p, (s2, store_put rt key p w2)))))"

definition record_restriction ::
  "'w router \<Rightarrow> session_config \<Rightarrow> key_profile \<Rightarrow> string \<Rightarrow> 'w \<Rightarrow> key_profile \<times> 'w" where
  "record_restriction rt cfg p mtype w =
     (let restricted = restricting p mtype
      in (restricted, store_put rt (profile_key (rt_sha256 rt) cfg) restricted w))"

section \<open>Where a session ends up\<close>

lemma exchange_disconnect [simp]: "exchange (fst (disconnect api sw)) = None"
  by (cases sw) (simp add: disconnect_def split: option.split)

text \<open>
  A client that never raises anything but ccxt's own exceptions while loading the markets: then
  a failing connect always leaves the gateway closed.
\<close>

definition raises_ccxt_only :: "'w ccxt_api \<Rightarrow> bool" where
  "raises_ccxt_only api \<longleftrightarrow> (\<forall>c w p w'. api_load_markets api c w \<noteq> (Inl (CcxtOther p), w'))"

lemma gateway_connect_cases:
  assumes "raises_ccxt_only api" and "exchange s = None"
  obtains (failed) e s' w' where "gateway_connect api cfg r (s, w) = (Inl e, (s', w'))" "exchange s' = None"
  | (opened) c s' w' where "gateway_connect api cfg r (s, w) = (Inr (), (s', w'))"
      "exchange s' = Some c" "conn_route c = r" "conn_endpoint c = wire (preset_venue (cfg_preset cfg)) (cfg_params cfg)"
proof (cases "build_exchange api cfg (s\<lparr>gw_route := r\<rparr>) r")
  case (Inl e)
  then show ?thesis
    using failed [of e "s\<lparr>gw_route := r\<rparr>" w] assms by (simp add: gateway_connect_def)
next
  case (Inr c)
  then have c: "conn_route c = r" "conn_endpoint c = wire (preset_venue (cfg_preset cfg)) (cfg_params cfg)"
    by (auto simp: build_exchange_def Let_def split: if_splits)
  define s2 where "s2 = s\<lparr>gw_route := r, exchange := Some c\<rparr>"
  obtain x w' where load: "api_load_markets api c w = (x, w')"
    by (meson surj_pair)
  show ?thesis
  proof (cases x)
    case (Inr ms)
    with load \<open>build_exchange api cfg _ r = Inr c\<close> c show ?thesis
      using opened [of "s2\<lparr>exchange := Some (c\<lparr>conn_markets := ms\<rparr>)\<rparr>" w' "c\<lparr>conn_markets := ms\<rparr>"]
      by (simp add: gateway_connect_def s2_def Let_def)
  next
    case (Inl e)
    have "\<nexists>p. e = CcxtOther p"
      using assms(1) load Inl unfolding raises_ccxt_only_def by blast
    then have "gateway_connect api cfg r (s, w) =
        (Inl (ccxt_failure cfg ''load_markets'' ''broker unreachable during load_markets'' e),
         disconnect api (s2, w'))"
      using load Inl \<open>build_exchange api cfg _ r = Inr c\<close>
      by (cases e) (simp_all add: gateway_connect_def s2_def Let_def)
    then show ?thesis
      using failed [of _ "fst (disconnect api (s2, w'))" "snd (disconnect api (s2, w'))"] by simp
  qed
qed

lemma fetch_api_key_info_state: "fst (snd (fetch_api_key_info api cfg (s, w))) = s"
  by (simp add: fetch_api_key_info_def on_exchange_state)

definition settled :: "session_config \<Rightarrow> egress_route \<Rightarrow> route_answer \<Rightarrow> 's gateway_state_scheme \<Rightarrow> bool" where
  "settled cfg r ans s =
     (case ans of
        KeyInfo i \<Rightarrow> (\<exists>c. exchange s = Some c \<and> conn_route c = r
                        \<and> conn_endpoint c = wire (preset_venue (cfg_preset cfg)) (cfg_params cfg))
      | _ \<Rightarrow> exchange s = None)"

lemma try_route_settled:
  assumes "raises_ccxt_only api" and "exchange s = None"
    and "try_route api cfg r (s, w) = (ans, (s', w'))"
  shows "settled cfg r ans s'"
proof (cases rule: gateway_connect_cases [OF assms(1,2), where cfg = cfg and r = r and w = w, case_names failed opened])
  case (failed e s1 w1)
  with assms(3) show ?thesis by (auto simp: try_route_def settled_def)
next
  case (opened c s1 w1)
  obtain x s2 w2 where fetch: "fetch_api_key_info api cfg (s1, w1) = (x, (s2, w2))"
    by (metis surj_pair)
  then have "s2 = s1"
    using fetch_api_key_info_state [of api cfg s1 w1] by simp
  with opened fetch assms(3) exchange_disconnect [of api "(s1, w2)"] show ?thesis
    by (cases x) (auto simp: try_route_def settled_def)
qed

definition ip_refusal :: "route_answer \<Rightarrow> bool" where
  "ip_refusal ans =
     (case ans of KeyFailed e \<Rightarrow> is_auth e \<and> exn_reason e = Some IP_NOT_ALLOWED | _ \<Rightarrow> False)"

text \<open>\<open>skipped rs sw sw'\<close>: every route of \<open>rs\<close>, tried in turn from \<open>sw\<close>, was an IP refusal.\<close>

inductive skipped ::
  "'w ccxt_api \<Rightarrow> session_config \<Rightarrow> egress_route list
   \<Rightarrow> 's gateway_state_scheme \<times> 'w \<Rightarrow> 's gateway_state_scheme \<times> 'w \<Rightarrow> bool"
  for api cfg where
  none: "skipped api cfg [] sw sw"
| one: "try_route api cfg r sw = (ans, sw') \<Longrightarrow> ip_refusal ans \<Longrightarrow> skipped api cfg rs sw' sw''
        \<Longrightarrow> skipped api cfg (r # rs) sw sw''"

text \<open>How a run over the routes ends: on the route that decides, or past the last one.\<close>

definition decided ::
  "'w ccxt_api \<Rightarrow> session_config \<Rightarrow> egress_route list \<Rightarrow> string list \<Rightarrow> 's gateway_state_scheme \<times> 'w
   \<Rightarrow> trade_exn + egress_route \<times> api_key_info option \<Rightarrow> 's gateway_state_scheme \<times> 'w \<Rightarrow> bool" where
  "decided api cfg rs refused sw res sw' \<longleftrightarrow>
     (skipped api cfg rs sw sw' \<and> res = Inl (all_refused cfg (refused @ map route_name rs)))
     \<or> (\<exists>pre r post ans mid. rs = pre @ r # post \<and> skipped api cfg pre sw mid
          \<and> try_route api cfg r mid = (ans, sw') \<and> \<not> ip_refusal ans
          \<and> (case ans of ConnectFailed e \<Rightarrow> res = Inl e | KeyFailed e \<Rightarrow> res = Inl e
             | KeyInfo i \<Rightarrow> res = Inr (r, i)))"

lemma try_routes_decided:
  "try_routes api cfg rs refused sw = (res, sw') \<Longrightarrow> decided api cfg rs refused sw res sw'"
proof (induction rs arbitrary: refused sw)
  case Nil
  then show ?case by (auto simp: decided_def intro: skipped.none)
next
  case (Cons r rs)
  obtain ans mid where tried: "try_route api cfg r sw = (ans, mid)"
    by (meson surj_pair)
  show ?case
  proof (cases "ip_refusal ans")
    case False
    then have "(case ans of ConnectFailed e \<Rightarrow> res = Inl e | KeyFailed e \<Rightarrow> res = Inl e
                | KeyInfo i \<Rightarrow> res = Inr (r, i)) \<and> mid = sw'"
      using Cons.prems tried by (auto simp: ip_refusal_def split: route_answer.splits if_splits)
    with tried False show ?thesis
      unfolding decided_def using skipped.none [of api cfg sw] by (intro disjI2) blast
  next
    case True
    then have "try_routes api cfg rs (refused @ [route_name r]) mid = (res, sw')"
      using Cons.prems tried by (auto simp: ip_refusal_def split: route_answer.splits if_splits)
    from Cons.IH [OF this] show ?thesis
      unfolding decided_def
    proof (elim disjE exE conjE, goal_cases)
      case 1
      with skipped.one [OF tried True] show ?case by simp
    next
      case (2 pre x post a w1)
      then have "skipped api cfg (r # pre) sw w1" and "r # rs = (r # pre) @ x # post"
        using skipped.one [OF tried True, of pre w1] by auto
      with 2 show ?case by blast
    qed
  qed
qed

lemma ip_refusal_closed:
  "raises_ccxt_only api \<Longrightarrow> exchange s = None \<Longrightarrow> try_route api cfg r (s, w) = (ans, sw') \<Longrightarrow>
   ip_refusal ans \<Longrightarrow> exchange (fst sw') = None"
  using try_route_settled [of api s cfg r w ans "fst sw'" "snd sw'"]
  by (auto simp: ip_refusal_def settled_def split: route_answer.splits)

lemma skipped_closed:
  assumes "skipped api cfg rs sw sw'" and "raises_ccxt_only api" and "exchange (fst sw) = None"
  shows "exchange (fst sw') = None"
  using assms
proof induction
  case (one r sw ans sw' rs sw'')
  then show ?case
    using ip_refusal_closed [of api "fst sw" cfg r "snd sw" ans sw'] by simp
qed

definition session_ends :: "session_config \<Rightarrow> trade_exn + key_profile \<Rightarrow> 's gateway_state_scheme \<Rightarrow> bool" where
  "session_ends cfg res s =
     (case res of
        Inl e \<Rightarrow> exchange s = None
      | Inr p \<Rightarrow> (\<exists>c. exchange s = Some c \<and> route_name (conn_route c) = route p
                    \<and> conn_endpoint c = wire (preset_venue (cfg_preset cfg)) (cfg_params cfg)))"

lemma decided_session:
  assumes "decided api cfg rs refused (s, w) res (s', w')" and "raises_ccxt_only api"
    and "exchange s = None"
  shows "case res of Inl e \<Rightarrow> exchange s' = None
    | Inr (r, i) \<Rightarrow> r \<in> set rs \<and> (\<exists>c. exchange s' = Some c \<and> conn_route c = r
         \<and> conn_endpoint c = wire (preset_venue (cfg_preset cfg)) (cfg_params cfg))"
  using assms(1)
  unfolding decided_def
proof (elim disjE exE conjE, goal_cases)
  case 1
  then show ?case
    using skipped_closed [OF 1(1) assms(2)] assms(3) by simp
next
  case (2 pre r post ans mid)
  have "exchange (fst mid) = None"
    using skipped_closed [OF 2(2) assms(2)] assms(3) by simp
  then have "settled cfg r ans s'"
    using try_route_settled [OF assms(2), of "fst mid" cfg r "snd mid" ans s' w'] 2(3) by simp
  with 2 show ?case
    by (auto simp: settled_def split: route_answer.splits)
qed

section \<open>A venue that enforces an allowlist\<close>

text \<open>
  Bybit answering the key-information call from the allowlisted routes and refusing it with its
  IP code from any other, markets being public.
\<close>

definition allowlisting :: "'w ccxt_api \<Rightarrow> session_config \<Rightarrow> string set \<Rightarrow> query_api option \<Rightarrow> bool" where
  "allowlisting api cfg A q \<longleftrightarrow>
     preset_venue (cfg_preset cfg) = BybitVenue \<and> has_exchange api (exchange_id (cfg_preset cfg))
     \<and> (\<forall>c w. \<exists>ms. api_load_markets api c w = (Inr ms, w))
     \<and> (\<forall>c w. api_close api c w = w)
     \<and> (\<forall>c w. if route_name (conn_route c) \<in> A then api_query_key api c w = (Inr q, w)
              else \<exists>m. api_query_key api c w = (Inl (AuthenticationError m), w)
                     \<and> classify_denial BybitVenue m = Some IP_NOT_ALLOWED)"

lemma allowlisting_try_route:
  assumes "allowlisting api cfg A q"
  shows "\<exists>ans s'. try_route api cfg r (s, w) = (ans, (s', w))
    \<and> (if route_name r \<in> A then ans = KeyInfo (Some (bybit_key_info q))
          \<and> (\<exists>c. exchange s' = Some c \<and> conn_route c = r)
       else ip_refusal ans \<and> exchange s' = None)"
proof -
  have v: "preset_venue (cfg_preset cfg) = BybitVenue" "has_exchange api (exchange_id (cfg_preset cfg))"
    and close: "\<And>c w. api_close api c w = w"
    using assms by (auto simp: allowlisting_def)
  obtain c where c: "build_exchange api cfg (s\<lparr>gw_route := r\<rparr>) r = Inr c" "conn_route c = r"
    using v by (auto simp: build_exchange_def Let_def)
  obtain ms where ms: "api_load_markets api c w = (Inr ms, w)"
    using assms unfolding allowlisting_def by blast
  define s' where "s' = s\<lparr>gw_route := r, exchange := Some (c\<lparr>conn_markets := ms\<rparr>)\<rparr>"
  have conn: "gateway_connect api cfg r (s, w) = (Inr (), (s', w))"
    using c ms by (simp add: gateway_connect_def s'_def Let_def)
  have ex: "exchange s' = Some (c\<lparr>conn_markets := ms\<rparr>)" "conn_route (c\<lparr>conn_markets := ms\<rparr>) = r"
    using c by (simp_all add: s'_def)
  have query: "if route_name r \<in> A then api_query_key api (c\<lparr>conn_markets := ms\<rparr>) w = (Inr q, w)
      else \<exists>m. api_query_key api (c\<lparr>conn_markets := ms\<rparr>) w = (Inl (AuthenticationError m), w)
             \<and> classify_denial BybitVenue m = Some IP_NOT_ALLOWED"
    using assms c(2) unfolding allowlisting_def
    by (metis (no_types, lifting) ex(2))
  show ?thesis
  proof (cases "route_name r \<in> A")
    case True
    then have "fetch_api_key_info api cfg (s', w) = (Inr (Some (bybit_key_info q)), (s', w))"
      using query ex v by (simp add: fetch_api_key_info_def on_exchange_def bindC_def)
    with conn True ex show ?thesis by (simp add: try_route_def)
  next
    case False
    then obtain m where m: "api_query_key api (c\<lparr>conn_markets := ms\<rparr>) w = (Inl (AuthenticationError m), w)"
      "classify_denial BybitVenue m = Some IP_NOT_ALLOWED"
      using query by auto
    then have "fetch_api_key_info api cfg (s', w) = (Inl (auth_error cfg m ''fetch_api_key_info''), (s', w))"
      using ex v by (simp add: fetch_api_key_info_def on_exchange_def bindC_def ccxt_failure_def)
    moreover have "ip_refusal (KeyFailed (auth_error cfg m ''fetch_api_key_info''))"
      using m v by (simp add: ip_refusal_def auth_error_def is_auth_def exn_reason_def Let_def)
    moreover have "disconnect api (s', w) = (s'\<lparr>exchange := None\<rparr>, w)"
      using ex close by (simp add: disconnect_def)
    ultimately show ?thesis
      using conn False by (simp add: try_route_def)
  qed
qed

definition first_allowed :: "string set \<Rightarrow> egress_route list \<Rightarrow> egress_route option" where
  "first_allowed A rs = find (\<lambda>r. route_name r \<in> A) rs"

lemma allowlisting_try_routes:
  assumes "allowlisting api cfg A q" and "exchange s = None"
  shows "\<exists>s'. try_routes api cfg rs refused (s, w) =
      (case first_allowed A rs of
         Some r \<Rightarrow> (Inr (r, Some (bybit_key_info q)), (s', w))
       | None \<Rightarrow> (Inl (all_refused cfg (refused @ map route_name rs)), (s', w)))
    \<and> (case first_allowed A rs of
         Some r \<Rightarrow> \<exists>c. exchange s' = Some c \<and> conn_route c = r
       | None \<Rightarrow> exchange s' = None)"
  using assms(2)
proof (induction rs arbitrary: refused s)
  case Nil
  then show ?case by (auto simp: first_allowed_def)
next
  case (Cons r rs)
  obtain ans s1 where tried: "try_route api cfg r (s, w) = (ans, (s1, w))"
    and ans: "if route_name r \<in> A then ans = KeyInfo (Some (bybit_key_info q))
          \<and> (\<exists>c. exchange s1 = Some c \<and> conn_route c = r)
       else ip_refusal ans \<and> exchange s1 = None"
    using allowlisting_try_route [OF assms(1), of r s w] by blast
  show ?case
  proof (cases "route_name r \<in> A")
    case True
    with tried ans show ?thesis by (auto simp: first_allowed_def)
  next
    case False
    then have step: "try_routes api cfg (r # rs) refused (s, w) =
        try_routes api cfg rs (refused @ [route_name r]) (s1, w)"
      using tried ans by (auto simp: ip_refusal_def split: route_answer.splits)
    have "first_allowed A (r # rs) = first_allowed A rs"
      using False by (simp add: first_allowed_def)
    with Cons.IH [of s1 "refused @ [route_name r]"] ans False show ?thesis
      unfolding step by (cases "first_allowed A rs") auto
  qed
qed

text \<open>Trying the remembered route first: it is the one found whenever it is still allowed.\<close>

lemma first_allowed_preferring:
  assumes "name \<in> A" and "\<exists>r \<in> set rs. route_name r = name"
  shows "\<exists>r. first_allowed A (preferring rs (Some name)) = Some r \<and> route_name r = name"
proof -
  let ?front = "filter (\<lambda>r. Some (route_name r) = Some name) rs"
  obtain r where r: "find (\<lambda>r. route_name r \<in> A) ?front = Some r"
    using assms by (cases "find (\<lambda>r. route_name r \<in> A) ?front") (auto simp: find_None_iff)
  then have "route_name r = name"
    by (auto simp: find_Some_iff) (metis (mono_tags, lifting) mem_Collect_eq nth_mem set_filter)
  moreover have "find P (xs @ ys) = Some r" if "find P xs = Some r" for P xs and ys :: "egress_route list"
    using that by (induction xs) auto
  ultimately show ?thesis
    using r unfolding first_allowed_def preferring_eq by blast
qed

section \<open>Properties\<close>

text \<open>Connecting a key leaves the session open exactly when it reports a profile: on the
  egress route and the environment (mainnet, sandbox or demo) of that profile. Whatever else the
  exchange answers, the routes are tried in the order given by the remembered route, only a
  refusal of the source IP moves on to the next one, and every failure leaves the session closed.\<close>

theorem router_connect_session:
  assumes "raises_ccxt_only api" and "exchange s = None"
    and "router_connect rt api cfg (s, w) = (res, (s', w'))"
  shows "session_ends cfg res s'
    \<and> (\<exists>cached w1 out w2. store_get rt (profile_key (rt_sha256 rt) cfg) w = (cached, w1)
         \<and> decided api cfg (candidates rt cfg cached) [] (s, w1) out (s', w2)
         \<and> (case out of Inl e \<Rightarrow> res = Inl e
            | Inr (r, i) \<Rightarrow> res = Inr (accepted (route_name r) i cached)))"
proof -
  obtain cached w1 where got: "store_get rt (profile_key (rt_sha256 rt) cfg) w = (cached, w1)"
    by (meson surj_pair)
  obtain out s2 w2 where run: "try_routes api cfg (candidates rt cfg cached) [] (s, w1) = (out, (s2, w2))"
    by (metis surj_pair)
  have res: "s2 = s' \<and> (case out of Inl e \<Rightarrow> res = Inl e
      | Inr (r, i) \<Rightarrow> res = Inr (accepted (route_name r) i cached))"
    using assms(3) got run by (auto simp: router_connect_def Let_def split: sum.splits prod.splits)
  note decided = try_routes_decided [OF run]
  have "session_ends cfg res s'"
    using decided_session [OF decided assms(1,2)] res
    by (cases out) (auto simp: session_ends_def accepted_def)
  with got decided res show ?thesis by blast
qed

lemma find_among: "(\<And>x. P x \<Longrightarrow> Q x) \<Longrightarrow> find P (filter Q xs) = find P xs"
  by (induction xs) auto

text \<open>A remembered route that is not allowed changes nothing but the order of the refusals.\<close>

lemma first_allowed_forgotten:
  assumes "\<And>nm. name = Some nm \<Longrightarrow> nm \<notin> A \<or> nm \<notin> route_name ` set rs"
  shows "first_allowed A (preferring rs name) = first_allowed A rs"
proof -
  let ?P = "\<lambda>r. route_name r \<in> A"
  have "find ?P (filter (\<lambda>r. Some (route_name r) = name) rs) = None"
    using assms by (auto simp: find_None_iff)
  moreover have "find P (xs @ ys) = find P ys" if "find P xs = None" for P and xs ys :: "egress_route list"
    using that by (induction xs) (auto split: if_splits)
  moreover have "find ?P (filter (\<lambda>r. Some (route_name r) \<noteq> name) rs) = find ?P rs"
  proof (cases "\<exists>r \<in> set rs. Some (route_name r) = name")
    case True
    then show ?thesis using assms by (intro find_among) auto
  next
    case False
    then have "filter (\<lambda>r. Some (route_name r) \<noteq> name) rs = rs" by (simp add: filter_id_conv)
    then show ?thesis by simp
  qed
  ultimately show ?thesis by (simp add: first_allowed_def preferring_eq)
qed

lemma first_allowed_name: "map_option route_name (first_allowed A rs) = find (\<lambda>nm. nm \<in> A) (map route_name rs)"
  by (induction rs) (simp_all add: first_allowed_def)

text \<open>C40: Against a venue that enforces an IP allowlist, connecting succeeds exactly when some
  configured route is on it. The configured routes are the direct one and those the venue's
  environment variable lists as comma-separated \<open>name=url\<close> entries (names other than \<open>direct\<close>, and
  neither part empty or with a blank or a comma in it). The session is then open on the route the
  profile names, which is configured and allowed: the remembered one if that is configured and
  allowed, else the first allowed one in the configured order. Restrictions learned earlier are
  carried over. A failure says that no route's address is allowed and leaves no session.\<close>

theorem router_finds_allowed_route:
  assumes "allowlisting api cfg A q" and "exchange s = None"
    and "store_get rt (profile_key (rt_sha256 rt) cfg) w = (cached, w)"
    and "(case rt_env rt (''CCXT_EGRESS_'' @ py_upper (exchange_id (cfg_preset cfg))) of None \<Rightarrow> [] | Some v \<Rightarrow> v)
      = join_with '','' (map (\<lambda>(nm, url). nm @ ''='' @ url) entries)"
    and "\<forall>e \<in> set entries. plain_entry e"
    and "configured = ''direct'' # map fst entries"
  shows "case router_connect rt api cfg (s, w) of
      (Inr p, (s', w')) \<Rightarrow> route p \<in> A \<inter> set configured
        \<and> (\<exists>x. exchange s' = Some x \<and> route_name (conn_route x) = route p)
        \<and> (if \<exists>c. cached = Some c \<and> route c \<in> A \<inter> set configured then route p = route (the cached)
           else find (\<lambda>nm. nm \<in> A) configured = Some (route p))
        \<and> restricted_market_types p = (case cached of Some c \<Rightarrow> restricted_market_types c | None \<Rightarrow> {})
    | (Inl e, (s', w')) \<Rightarrow> exn_reason e = Some IP_NOT_ALLOWED \<and> \<not> connected s' \<and> A \<inter> set configured = {}"
proof -
  let ?rs = "candidates rt cfg cached" and ?env = "from_env (rt_env rt) (exchange_id (cfg_preset cfg))"
  have env: "?env = direct # map (\<lambda>(nm, url). \<lparr>route_name = nm, proxy_url = Some url\<rparr>) entries"
    using assms(4,5) by (intro from_env_listed) (simp_all add: env_var_def route_listing_def)
  have names: "map route_name ?env = configured"
    unfolding env assms(6) by (auto simp: direct_def)
  then have set_names: "route_name ` set ?rs = set configured" "route_name ` set ?env = set configured"
    by (simp_all add: candidates_def flip: names)
  obtain s' where run: "try_routes api cfg ?rs [] (s, w) =
      (case first_allowed A ?rs of
         Some r \<Rightarrow> (Inr (r, Some (bybit_key_info q)), (s', w))
       | None \<Rightarrow> (Inl (all_refused cfg ([] @ map route_name ?rs)), (s', w)))"
    and ends: "case first_allowed A ?rs of
         Some r \<Rightarrow> \<exists>c. exchange s' = Some c \<and> conn_route c = r
       | None \<Rightarrow> exchange s' = None"
    using allowlisting_try_routes [OF assms(1,2)] by blast
  show ?thesis
  proof (cases "first_allowed A ?rs")
    case None
    then have "A \<inter> route_name ` set ?rs = {}"
      by (auto simp: first_allowed_def find_None_iff)
    with None run ends assms(3) show ?thesis
      by (simp add: router_connect_def all_refused_def exn_reason_def connected_def Let_def set_names)
  next
    case (Some r)
    then have r: "route_name r \<in> A" "r \<in> set ?rs"
      by (auto simp: first_allowed_def find_Some_iff)
    have remembered: "route_name r = route c"
      if "cached = Some c" "route c \<in> A" "route c \<in> set configured" for c
    proof -
      have "\<exists>x \<in> set ?env. route_name x = route c"
        using that(3) set_names(2) by (metis imageE)
      from first_allowed_preferring [OF that(2) this] Some that(1) show ?thesis
        by (simp add: candidates_def)
    qed
    have forgotten: "find (\<lambda>nm. nm \<in> A) configured = Some (route_name r)"
      if "\<not> (\<exists>c. cached = Some c \<and> route c \<in> A \<inter> set configured)"
    proof -
      have "first_allowed A ?rs = first_allowed A ?env"
        unfolding candidates_def using that by (intro first_allowed_forgotten) (auto simp: set_names)
      with Some have "first_allowed A ?env = Some r" by simp
      then show ?thesis using first_allowed_name [of A ?env] by (simp add: names)
    qed
    have "route_name r \<in> A \<inter> set configured" using r set_names(1) by blast
    then show ?thesis
      using Some run ends assms(3) remembered forgotten
      by (auto simp: router_connect_def accepted_def Let_def)
  qed
qed

text \<open>Bybit from two routes, the key being allowed from the proxy only.\<close>

definition demo_denial :: string where
  "demo_denial = ''bybit {'' @ [CHR 0x22] @ ''retCode'' @ [CHR 0x22] @ '': 10010}''"

definition demo_api :: "unit ccxt_api" where
  "demo_api =
     demo_exchange
       \<lparr>api_query_key := (\<lambda>c w. (if route_name (conn_route c) \<in> {''sg''} then Inr None
                                 else Inl (AuthenticationError demo_denial), w)),
        api_market := (\<lambda>c symb. Inl (BadSymbol symb))\<rparr>"

definition demo_router :: "unit router" where
  "demo_router =
     \<lparr>rt_store = None, rt_sha256 = (\<lambda>k. k), rt_env = (\<lambda>v. Some ''sg=http://10.0.0.2:3128'')\<rparr>"

definition demo_session :: session_config where
  "demo_session =
     \<lparr>api_key = ''k'', cfg_preset = bybit_preset, cfg_params = \<lparr>paper = False, demo = False\<rparr>\<rparr>"

lemma demo_candidates:
  "candidates demo_router demo_session None =
     [direct, \<lparr>route_name = ''sg'', proxy_url = Some ''http://10.0.0.2:3128''\<rparr>]"
  by code_simp

lemma demo_allowlisting: "allowlisting demo_api demo_session {''sg''} None"
proof -
  have "classify_denial BybitVenue demo_denial = Some IP_NOT_ALLOWED"
    by code_simp
  then show ?thesis
    by (simp add: allowlisting_def demo_api_def demo_exchange_def demo_session_def bybit_preset_def)
qed

lemma demo_raises: "raises_ccxt_only demo_api"
  by (simp add: raises_ccxt_only_def demo_api_def demo_exchange_def)

lemma new_gateway_closed [simp]: "exchange new_gateway = None"
  by (simp add: new_gateway_def)

lemma demo_store: "store_get demo_router key w = (None, w)"
  by (simp add: store_get_def demo_router_def)

theorem router_finds_allowed_route_witness:
  "\<exists>p s'. router_connect demo_router demo_api demo_session (new_gateway, ()) = (Inr p, (s', ()))
     \<and> route p = ''sg'' \<and> connected s'"
proof -
  have "(case rt_env demo_router (''CCXT_EGRESS_'' @ py_upper (exchange_id (cfg_preset demo_session))) of None \<Rightarrow> [] | Some v \<Rightarrow> v)
      = join_with '','' (map (\<lambda>(nm, url). nm @ ''='' @ url) [(''sg'', ''http://10.0.0.2:3128'')])"
    by (simp add: demo_router_def)
  moreover have "\<forall>e \<in> set [(''sg'', ''http://10.0.0.2:3128'')]. plain_entry e"
    by (simp add: plain_entry_def is_space_def)
  ultimately show ?thesis
    using router_finds_allowed_route [OF demo_allowlisting new_gateway_closed demo_store _ _ refl, where w = "()"
        and entries = "[(''sg'', ''http://10.0.0.2:3128'')]"]
    by (auto simp: connected_def split: prod.splits sum.splits)
qed

theorem router_connect_session_witness:
  "\<exists>p s'. router_connect demo_router demo_api demo_session (new_gateway, ()) = (Inr p, (s', ()))
     \<and> session_ends demo_session (Inr p) s'"
proof -
  obtain res s' where run: "router_connect demo_router demo_api demo_session (new_gateway, ()) = (res, (s', ()))"
    by (metis (full_types) old.unit.exhaust surj_pair)
  have "session_ends demo_session res s'"
    using router_connect_session [OF demo_raises new_gateway_closed run] by simp
  moreover have "\<exists>p. res = Inr p"
    using run allowlisting_try_routes [OF demo_allowlisting new_gateway_closed,
        of "candidates demo_router demo_session None" "[]" "()"]
    by (auto simp: router_connect_def demo_store demo_candidates first_allowed_def direct_def Let_def)
  ultimately show ?thesis
    using run by auto
qed

end
