(* ===== verification/CcxtAdapter.thy ===== *)
theory CcxtAdapter
  imports KeyRouting OrderPolicy
begin

text \<open>
  \<^verbatim>\<open>quant/trade/brokers/ccxt/confirm.py\<close>, \<^verbatim>\<open>adapter.py\<close> and the preset lookup of
  \<^verbatim>\<open>quant/trade/registry.py\<close>: placing a market order and polling it to an outcome, on top of the
  gateway and the key router. The adapter object's fields extend the gateway's state. Sleeping is
  left out; the message of an unconfirmed fill sums the delays slept, added left to right.
\<close>

section \<open>Confirming a fill\<close>

record fill_status =
  fs_success :: bool
  fs_vendor_order_id :: "string option"
  fs_message :: string
  fs_raw_status :: "string option"
  fs_reason :: "reject_reason option"
  fs_filled_qty :: "flt option"
  fs_avg_price :: "flt option"
  fs_fee :: "flt option"
  fs_fee_ccy :: "string option"

definition fee_ccy_of :: "string option \<Rightarrow> string option" where
  "fee_ccy_of v = (case v of None \<Rightarrow> None | Some s \<Rightarrow> or_none (Some (strip s)))"

definition float_opt :: "raw_num \<Rightarrow> py_exn + flt option" where
  "float_opt v = (if v = RawNone then Inr None else bindR (float_of v) (\<lambda>x. Inr (Some x)))"

definition extract_fee :: "order_dict \<Rightarrow> py_exn + flt option \<times> string option" where
  "extract_fee od =
     (case od_fee od of
        None \<Rightarrow> Inr (None, None)
      | Some (cost, ccy) \<Rightarrow> bindR (float_opt cost) (\<lambda>amount. Inr (amount, fee_ccy_of ccy)))"

definition over :: "string \<Rightarrow> bool" where
  "over status = (status \<in> {''canceled'', ''cancelled'', ''expired''})"

definition parse_terminal :: "order_dict \<Rightarrow> string \<Rightarrow> py_exn + fill_status option" where
  "parse_terminal od vendor_id =
     bindR (if raw_truthy (od_filled od) then float_of (od_filled od) else Inr (Fin 0)) (\<lambda>filled.
     bindR (float_opt (od_average od)) (\<lambda>avg.
     bindR (extract_fee od) (\<lambda>(cost, ccy).
       let status = py_lower (str_or (od_status od) []);
           oid = (case od_id od of Some i \<Rightarrow> Some i | None \<Rightarrow> Some vendor_id)
       in if status = ''closed'' \<or> (flt_lt (Fin 0) filled \<and> over status) then
            Inr (Some \<lparr>fs_success = True, fs_vendor_order_id = oid, fs_message = ''order filled'',
                       fs_raw_status = Some (str_or (Some status) ''closed''), fs_reason = None,
                       fs_filled_qty = Some filled, fs_avg_price = avg, fs_fee = cost, fs_fee_ccy = ccy\<rparr>)
          else if status = ''rejected'' \<or> (flt_eq filled (Fin 0) \<and> over status) then
            Inr (Some \<lparr>fs_success = False, fs_vendor_order_id = oid,
                       fs_message = ''order rejected status='' @ str_or (Some status) ''unknown'',
                       fs_raw_status = Some status, fs_reason = Some VENUE_REJECTED,
                       fs_filled_qty = None, fs_avg_price = None, fs_fee = None, fs_fee_ccy = None\<rparr>)
          else Inr None)))"

definition for_request :: "order_request \<Rightarrow> order_result \<Rightarrow> order_result" where
  "for_request req r = r\<lparr>res_side := Some (req_side req), requested_qty := Some (req_qty req)\<rparr>"

definition unconfirmed :: "order_request \<Rightarrow> string \<Rightarrow> string option \<Rightarrow> flt list \<Rightarrow> order_result" where
  "unconfirmed req oid last_status slept =
     for_request req
       ((mk_result False (Some oid)
           (''fill unconfirmed after '' @ fmt_fixed 1 (foldl flt_add (Fin 0) slept) @ ''s '' @ em_dash
            @ '' vendor_order_id='' @ oid @ '' requires manual reconciliation''
            @ (if truthy last_status then '' (last status='' @ py_repr (the last_status) @ '')'' else [])))
        \<lparr>raw_status := last_status\<rparr>)"

definition filled_result :: "order_request \<Rightarrow> fill_status \<Rightarrow> order_result" where
  "filled_result req f =
     for_request req
       ((mk_result (fs_success f) (fs_vendor_order_id f) (fs_message f))
        \<lparr>reason := fs_reason f, raw_status := fs_raw_status f, filled_qty := fs_filled_qty f,
         avg_price := fs_avg_price f, fee := fs_fee f, fee_ccy := fs_fee_ccy f\<rparr>)"

fun confirm_loop ::
  "'w ccxt_api \<Rightarrow> session_config \<Rightarrow> order_request \<Rightarrow> string \<Rightarrow> flt list \<Rightarrow> flt list \<Rightarrow> string option
   \<Rightarrow> ('s, 'w, order_result) gw_call" where
  "confirm_loop api cfg req oid [] slept seen sw = (Inr (unconfirmed req oid seen slept), sw)"
| "confirm_loop api cfg req oid (d # ds) slept seen sw =
     (let slept' = slept @ [d] in
      case fetch_order api cfg oid (req_symbol req) sw of
        (Inl (OrderNotFoundError m), sw') \<Rightarrow> confirm_loop api cfg req oid ds slept' seen sw'
      | (Inl e, sw') \<Rightarrow>
          (if \<not> is_broker_connection e then (Inl e, sw')
           else if exn_reason e \<noteq> None then
             (Inr (for_request req ((mk_result False (Some oid) (exn_message e))\<lparr>reason := exn_reason e\<rparr>)), sw')
           else (Inr (unconfirmed req oid seen slept'), sw'))
      | (Inr od, sw') \<Rightarrow>
          (case parse_terminal od oid of
             Inl e \<Rightarrow> (Inl (PyExn e), sw')
           | Inr (Some f) \<Rightarrow> (Inr (filled_result req f), sw')
           | Inr None \<Rightarrow> confirm_loop api cfg req oid ds slept' (od_status od) sw'))"

definition confirm_market_order ::
  "'w ccxt_api \<Rightarrow> session_config \<Rightarrow> order_request \<Rightarrow> string \<Rightarrow> flt list \<Rightarrow> ('s, 'w, order_result) gw_call" where
  "confirm_market_order api cfg req oid delays = confirm_loop api cfg req oid delays [] None"

section \<open>Instruments\<close>

text \<open>The instrument cache: the vendor symbol of an instrument, and its issue type if it is known.\<close>

record inst_cache =
  resolve_cusip :: "string \<Rightarrow> int \<Rightarrow> string option"
  product_issue_type :: "string \<Rightarrow> string option option"

definition instrument_default_type :: "preset \<Rightarrow> inst_cache \<Rightarrow> string \<Rightarrow> trade_exn + string option" where
  "instrument_default_type p inst cusip =
     (if default_type_by_issue p = [] then Inr None
      else case default_type_for p (Option.bind (product_issue_type inst cusip) id) of
             Inl e \<Rightarrow> Inl (TradeValidationError (py_message e) 400)
           | Inr t \<Rightarrow> Inr t)"

definition ccxt_apps :: "(string \<Rightarrow> int option) \<Rightarrow> (int \<times> preset) list" where
  "ccxt_apps resolve_app_id =
     List.map_filter (\<lambda>(name, p). map_option (\<lambda>i. (i, p)) (resolve_app_id name)) ccxt_presets"

definition preset_for_app :: "(string \<Rightarrow> int option) \<Rightarrow> int \<Rightarrow> preset option" where
  "preset_for_app resolve_app_id app_id = map_of (ccxt_apps resolve_app_id) app_id"

definition exchange_id_for_app :: "(string \<Rightarrow> int option) \<Rightarrow> int \<Rightarrow> string option" where
  "exchange_id_for_app resolve_app_id app_id = map_option exchange_id (preset_for_app resolve_app_id app_id)"

section \<open>Adapter\<close>

record adapter_state = gateway_state +
  ad_key_profile :: "key_profile option"
  ad_default_type :: "string option"

record 'w ccxt_adapter =
  ad_api :: "'w ccxt_api"
  ad_cfg :: session_config
  ad_router :: "'w router"
  ad_delays :: "flt list"
  ad_inst :: inst_cache

type_synonym ('w, 'a) ad_call = "(adapter_state \<times> 'w, trade_exn, 'a) call"

definition new_adapter :: adapter_state where
  "new_adapter =
     \<lparr>exchange = None, gw_route = direct, gw_default_type = None, ad_key_profile = None,
      ad_default_type = None\<rparr>"

definition ad_preset :: "'w ccxt_adapter \<Rightarrow> preset" where
  "ad_preset a = cfg_preset (ad_cfg a)"

definition adapter_connect :: "'w ccxt_adapter \<Rightarrow> ('w, unit) ad_call" where
  "adapter_connect a =
     bindC (router_connect (ad_router a) (ad_api a) (ad_cfg a))
       (\<lambda>p (s, w). (Inr (), (s\<lparr>ad_key_profile := Some p\<rparr>, w)))"

definition require_vendor_symbol :: "'w ccxt_adapter \<Rightarrow> string \<Rightarrow> int \<Rightarrow> trade_exn + string" where
  "require_vendor_symbol a cusip app_id =
     (case resolve_cusip (ad_inst a) cusip app_id of
        Some v \<Rightarrow> Inr v
      | None \<Rightarrow>
          (if product_issue_type (ad_inst a) cusip = None
           then Inl (SymbolMappingError (''unknown product internal_cusip='' @ py_repr cusip))
           else Inl (SymbolMappingError
                  (''no INST.PRODUCT_XREF for '' @ py_repr cusip @ '' app_id='' @ int_str app_id))))"

definition pin_instrument :: "'w ccxt_adapter \<Rightarrow> string \<Rightarrow> ('w, unit) ad_call" where
  "pin_instrument a cusip = (\<lambda>(s, w).
     case instrument_default_type (ad_preset a) (ad_inst a) cusip of
       Inl e \<Rightarrow> (Inl e, (s, w))
     | Inr None \<Rightarrow> (Inr (), (s, w))
     | Inr (Some t) \<Rightarrow> (Inr (), (pin_default_type (Some t) (s\<lparr>ad_default_type := Some t\<rparr>), w)))"

definition ad_market_type :: "'w ccxt_adapter \<Rightarrow> adapter_state \<Rightarrow> string" where
  "ad_market_type a s = str_or (ad_default_type s) (market_type (ad_preset a))"

definition lift_tr :: "trade_exn + 'a \<Rightarrow> ('w, 'a) ad_call" where
  "lift_tr r = (case r of Inl e \<Rightarrow> raiseC e | Inr x \<Rightarrow> returnC x)"

definition validate_for_dry_run :: "'w ccxt_adapter \<Rightarrow> string \<Rightarrow> int \<Rightarrow> ('w, string) ad_call" where
  "validate_for_dry_run a cusip app_id =
     bindC (lift_tr (require_vendor_symbol a cusip app_id)) (\<lambda>symb.
     bindC (pin_instrument a cusip) (\<lambda>_.
     bindC (validate_credentials (ad_api a) (ad_cfg a)) (\<lambda>_.
     bindC (market_exists (ad_api a) symb) (\<lambda>listed.
       if listed then returnC symb
       else raiseC (SymbolMappingError
              (''vendor symbol '' @ py_repr symb @ '' not listed on '' @ exchange_label (ad_preset a)))))))"

definition get_last_price :: "'w ccxt_adapter \<Rightarrow> string \<Rightarrow> ('w, flt option) ad_call" where
  "get_last_price a symb = (\<lambda>sw.
     case fetch_last_price (ad_api a) (ad_cfg a) symb sw of
       (Inr x, sw') \<Rightarrow> (Inr x, sw')
     | (Inl e, sw') \<Rightarrow> (if is_broker_connection e then (Inr None, sw') else (Inl e, sw')))"

definition undersized_order :: "'w ccxt_adapter \<Rightarrow> order_request \<Rightarrow> ('w, string option) ad_call" where
  "undersized_order a req = (\<lambda>(s, w).
     bindC (lift_tr (fetch_market_limits (ad_api a) (req_symbol req) s)) (\<lambda>lims.
     bindC (if min_notional lims \<noteq> None then get_last_price a (req_symbol req) else returnC None) (\<lambda>px.
       returnC (undersized lims (req_qty req) px))) (s, w))"

definition key_refusal :: "'w ccxt_adapter \<Rightarrow> adapter_state \<Rightarrow> (reject_reason \<times> string) option" where
  "key_refusal a s =
     (case ad_key_profile s of None \<Rightarrow> None | Some p \<Rightarrow> refusal p (ad_market_type a s))"

definition rejected :: "order_request \<Rightarrow> string \<Rightarrow> reject_reason option \<Rightarrow> order_result" where
  "rejected req msg r = for_request req ((mk_result False None msg)\<lparr>reason := r\<rparr>)"

text \<open>What the adapter does with a refused \<open>create_order\<close>: a region refusal is remembered.\<close>

definition create_refused ::
  "'w ccxt_adapter \<Rightarrow> order_request \<Rightarrow> trade_exn \<Rightarrow> adapter_state \<times> 'w
   \<Rightarrow> (trade_exn + order_result) \<times> (adapter_state \<times> 'w)" where
  "create_refused a req e = (\<lambda>(s, w).
     let res = Inr (rejected req (exn_message e) (exn_reason e)) in
     case ad_key_profile s of
       Some p \<Rightarrow>
         (if exn_reason e = Some REGION_RESTRICTED then
            (case record_restriction (ad_router a) (ad_cfg a) p (ad_market_type a s) w of
               (p', w') \<Rightarrow> (res, (s\<lparr>ad_key_profile := Some p'\<rparr>, w')))
          else (res, (s, w)))
     | None \<Rightarrow> (res, (s, w)))"

definition type_value :: "order_type \<Rightarrow> string" where
  "type_value t = (case t of MARKET \<Rightarrow> ''MARKET'' | LIMIT \<Rightarrow> ''LIMIT'')"

definition ccxt_side :: "order_side \<Rightarrow> string" where
  "ccxt_side s = (case s of Side_BUY \<Rightarrow> ''buy'' | Side_SELL \<Rightarrow> ''sell'')"

text \<open>The part of \<open>place_order\<close> that submits, once no guard has refused.\<close>

definition submit_order :: "'w ccxt_adapter \<Rightarrow> order_request \<Rightarrow> ('w, order_result) ad_call" where
  "submit_order a req = (\<lambda>sw.
     case create_market_order (ad_api a) (ad_cfg a) (req_symbol req) (ccxt_side (req_side req)) (req_qty req) sw of
       (Inl e, sw') \<Rightarrow> (if is_broker_connection e then create_refused a req e sw' else (Inl e, sw'))
     | (Inr od, sw') \<Rightarrow>
         (case od_id od of
            None \<Rightarrow>
              (Inr (for_request req ((mk_result False None ''create_order returned no order id'')
                      \<lparr>reason := Some NOT_ACKNOWLEDGED, raw_status := od_status od\<rparr>)), sw')
          | Some oid \<Rightarrow> confirm_market_order (ad_api a) (ad_cfg a) req oid (ad_delays a) sw'))"

definition adapter_place_order :: "'w ccxt_adapter \<Rightarrow> order_request \<Rightarrow> ('w, order_result) ad_call" where
  "adapter_place_order a req = (\<lambda>(s, w).
     if req_type req \<noteq> MARKET then
       (Inl (TradeValidationError
          (type_value (req_type req) @ '' orders not supported by the ccxt adapter '' @ em_dash
           @ '' market only'') 400), (s, w))
     else if default_type_by_issue (ad_preset a) \<noteq> [] \<and> ad_default_type s = None then
       (Inl (TradeValidationError
          (exchange_label (ad_preset a) @ '' order needs the instrument ISSUE_TYPE'') 400), (s, w))
     else
       case key_refusal a s of
         Some (r, m) \<Rightarrow> (Inr (rejected req m (Some r)), (s, w))
       | None \<Rightarrow>
           bindC (undersized_order a req) (\<lambda>small.
             case small of
               Some m \<Rightarrow> returnC (rejected req m (Some SIZE_BELOW_MINIMUM))
             | None \<Rightarrow> submit_order a req) (s, w))"

definition adapter_cancel_order :: "'w ccxt_adapter \<Rightarrow> string \<Rightarrow> string option \<Rightarrow> ('w, order_result) ad_call" where
  "adapter_cancel_order a oid symb = (\<lambda>sw.
     case gateway_cancel_order (ad_api a) (ad_cfg a) oid symb sw of
       (Inr od, sw') \<Rightarrow>
         (Inr ((mk_result True (Some oid) ''order canceled'')\<lparr>raw_status := od_status od\<rparr>), sw')
     | (Inl e, sw') \<Rightarrow>
         (if is_broker_connection e then (Inr (mk_result False (Some oid) (exn_message e)), sw')
          else (Inl e, sw')))"

text \<open>The adapter as the order executor sees it.\<close>

definition ccxt_trade_adapter :: "'w ccxt_adapter \<Rightarrow> (adapter_state \<times> 'w) trade_adapter" where
  "ccxt_trade_adapter a =
     \<lparr>get_position_qty = fetch_position_qty (ad_api a) (ad_cfg a),
      place_order = (\<lambda>req. bindC (adapter_place_order a req) (\<lambda>r. returnC (Some r))),
      cancel_order = (\<lambda>oid symb. adapter_cancel_order a oid (Some symb))\<rparr>"

section \<open>What a placed order can return\<close>

lemma for_request_simps [simp]:
  "success (for_request req r) = success r"
  "vendor_order_id (for_request req r) = vendor_order_id r"
  "message (for_request req r) = message r"
  "reason (for_request req r) = reason r"
  "filled_qty (for_request req r) = filled_qty r"
  "res_side (for_request req r) = Some (req_side req)"
  "requested_qty (for_request req r) = Some (req_qty req)"
  by (simp_all add: for_request_def)

lemma is_unconfirmed_message: "message r = ''fill unconfirmed'' @ m \<Longrightarrow> is_unconfirmed r"
proof -
  assume m: "message r = ''fill unconfirmed'' @ m"
  have "py_lower ''fill unconfirmed'' = ''fill unconfirmed''"
    by code_simp
  then have "contains ''fill unconfirmed'' (py_lower (message r))"
    using contains_self_append [of "''fill unconfirmed''"] by (simp only: m py_lower_append)
  then show "is_unconfirmed r"
    by (simp only: is_unconfirmed_def Let_def simp_thms)
qed

lemma unconfirmed_is_unconfirmed: "is_unconfirmed (unconfirmed req oid seen slept)"
  by (rule is_unconfirmed_message [of _
        "'' after '' @ fmt_fixed 1 (foldl flt_add (Fin 0) slept) @ ''s '' @ em_dash
         @ '' vendor_order_id='' @ oid @ '' requires manual reconciliation''
         @ (if truthy seen then '' (last status='' @ py_repr (the seen) @ '')'' else [])"])
    (simp add: unconfirmed_def)

lemma unconfirmed_simps [simp]:
  "success (unconfirmed req oid seen slept) = False"
  "vendor_order_id (unconfirmed req oid seen slept) = Some oid"
  "reason (unconfirmed req oid seen slept) = None"
  "res_side (unconfirmed req oid seen slept) = Some (req_side req)"
  "requested_qty (unconfirmed req oid seen slept) = Some (req_qty req)"
  "filled_qty (unconfirmed req oid seen slept) = None"
  by (simp_all add: unconfirmed_def)

text \<open>
  The outcomes of an order: filled, refused before the book or with a typed reason, or open with
  a message the executor reads as unconfirmed.
\<close>

definition classified :: "order_request \<Rightarrow> order_result \<Rightarrow> bool" where
  "classified req r \<longleftrightarrow>
     res_side r = Some (req_side req) \<and> requested_qty r = Some (req_qty req)
     \<and> (if success r then reason r = None \<and> vendor_order_id r \<noteq> None \<and> filled_qty r \<noteq> None
        else filled_qty r = None \<and> (reason r \<noteq> None \<or> vendor_order_id r = None \<or> is_unconfirmed r))"

lemma classified_unconfirmed [simp]: "classified req (unconfirmed req oid seen slept)"
  by (simp add: classified_def unconfirmed_is_unconfirmed)

lemma parse_terminal_status:
  "parse_terminal od oid = Inr (Some f) \<Longrightarrow>
   fs_vendor_order_id f \<noteq> None \<and> (if fs_success f then fs_reason f = None \<and> fs_filled_qty f \<noteq> None
     else fs_reason f = Some VENUE_REJECTED \<and> fs_filled_qty f = None)"
  by (auto simp: parse_terminal_def bindR_Inr_iff Let_def split: prod.splits if_splits option.splits)

lemma classified_filled: "parse_terminal od oid = Inr (Some f) \<Longrightarrow> classified req (filled_result req f)"
  by (drule parse_terminal_status) (auto simp: classified_def filled_result_def split: if_splits)

lemma classified_typed:
  "reason r \<noteq> None \<Longrightarrow> \<not> success r \<Longrightarrow> filled_qty r = None \<Longrightarrow> classified req (for_request req r)"
  by (simp add: classified_def)

lemma confirm_loop_classified:
  "confirm_loop api cfg req oid ds slept seen sw = (Inr r, sw') \<Longrightarrow> classified req r"
proof (induction ds arbitrary: slept seen sw)
  case Nil
  then show ?case by auto
next
  case (Cons d ds)
  obtain x sw1 where fetch: "fetch_order api cfg oid (req_symbol req) sw = (x, sw1)"
    by (meson surj_pair)
  show ?case
  proof (cases x)
    case (Inr od)
    with Cons fetch classified_filled show ?thesis
      by (auto split: sum.splits option.splits)
  next
    case (Inl e)
    show ?thesis
    proof (cases "\<exists>m. e = OrderNotFoundError m")
      case True
      with Inl Cons.prems fetch show ?thesis by (auto intro: Cons.IH)
    next
      case False
      with Inl Cons.prems fetch show ?thesis
        by (cases e) (auto simp: is_broker_connection_def exn_reason_def classified_typed split: if_splits)
    qed
  qed
qed

text \<open>A confirmed order keeps an id, the venue's or the one it was created with.\<close>

lemma confirm_loop_id:
  "confirm_loop api cfg req oid ds slept seen sw = (Inr r, sw') \<Longrightarrow> vendor_order_id r \<noteq> None"
proof (induction ds arbitrary: slept seen sw)
  case Nil
  then show ?case by auto
next
  case (Cons d ds)
  obtain x sw1 where fetch: "fetch_order api cfg oid (req_symbol req) sw = (x, sw1)"
    by (meson surj_pair)
  show ?case
  proof (cases x)
    case (Inr od)
    with Cons.prems fetch parse_terminal_status [of od oid] show ?thesis
      by (auto simp: filled_result_def split: sum.splits option.splits dest: Cons.IH)
  next
    case (Inl e)
    with Cons.prems fetch show ?thesis
      by (cases e) (auto split: if_splits dest: Cons.IH)
  qed
qed

lemma classified_rejected [simp]: "classified req (rejected req m r)"
  by (simp add: classified_def rejected_def)

lemma submit_order_classified:
  "submit_order a req sw = (Inr r, sw') \<Longrightarrow> classified req r"
  by (auto simp: submit_order_def create_refused_def confirm_market_order_def classified_typed Let_def
      dest: confirm_loop_classified
      split: prod.splits sum.splits option.splits if_splits)

lemma place_order_classified:
  "adapter_place_order a req sw = (Inr r, sw') \<Longrightarrow> classified req r"
  by (auto simp: adapter_place_order_def bindC_Inr_iff dest: submit_order_classified
      split: prod.splits option.splits if_splits)

interpretation ccxt_broker: acknowledging_broker "ccxt_trade_adapter a"
  for a :: "'w ccxt_adapter"
proof
  fix req :: order_request and r :: order_result and w w' :: "adapter_state \<times> 'w"
  assume "place_order (ccxt_trade_adapter a) req w = (Inr (Some r), w')"
  then have "classified req r"
    by (auto simp: ccxt_trade_adapter_def bindC_Inr_iff dest: place_order_classified)
  then show "\<not> success r \<Longrightarrow> reason r = None \<Longrightarrow> truthy (vendor_order_id r) \<Longrightarrow> is_unconfirmed r"
    by (auto simp: classified_def truthy_def)
qed

section \<open>Remembered refusals\<close>

definition orders_ready :: "'w ccxt_adapter \<Rightarrow> order_request \<Rightarrow> adapter_state \<Rightarrow> bool" where
  "orders_ready a req s \<longleftrightarrow>
     req_type req = MARKET \<and> (default_type_by_issue (ad_preset a) = [] \<or> ad_default_type s \<noteq> None)"

lemma place_order_key_refused:
  "orders_ready a req s \<Longrightarrow> key_refusal a s = Some (r, m) \<Longrightarrow>
   adapter_place_order a req (s, w) = (Inr (rejected req m (Some r)), (s, w))"
  by (auto simp: adapter_place_order_def orders_ready_def)

lemma on_exchange_same: "on_exchange f fail (s, w) = (x, (s', w')) \<Longrightarrow> s' = s"
  using on_exchange_state [of f fail s w] by simp

lemma get_last_price_same: "get_last_price a symb (s, w) = (x, (s', w')) \<Longrightarrow> s' = s"
  by (auto simp: get_last_price_def fetch_last_price_def bindC_def lift_py_def
      dest: on_exchange_same split: prod.splits sum.splits if_splits)

lemma undersized_order_same:
  assumes "undersized_order a req (s, w) = (x, (s', w'))"
  shows "s' = s"
proof (cases "fetch_market_limits (ad_api a) (req_symbol req) s")
  case (Inl e)
  with assms show ?thesis by (simp add: undersized_order_def lift_tr_def bindC_def)
next
  case (Inr lims)
  obtain y s1 w1 where price: "get_last_price a (req_symbol req) (s, w) = (y, (s1, w1))"
    by (metis surj_pair)
  with get_last_price_same [OF price] Inr assms show ?thesis
    by (cases y) (auto simp: undersized_order_def lift_tr_def bindC_def split: if_splits)
qed

text \<open>The state after a region refusal: the profile names the product that was refused.\<close>

lemma submit_order_region:
  assumes "submit_order a req (s, w) = (Inr r, (s', w'))" and "reason r = Some REGION_RESTRICTED"
    and "vendor_order_id r = None" and "ad_key_profile s = Some p"
  shows "s' = s\<lparr>ad_key_profile := Some (restricting p (ad_market_type a s))\<rparr>"
proof -
  obtain x s1 w1 where create: "create_market_order (ad_api a) (ad_cfg a) (req_symbol req)
      (ccxt_side (req_side req)) (req_qty req) (s, w) = (x, (s1, w1))"
    by (metis surj_pair)
  then have "s1 = s"
    by (auto simp: create_market_order_def dest: on_exchange_same)
  note create = create [unfolded this]
  show ?thesis
  proof (cases x)
    case (Inl e)
    with create assms show ?thesis
      by (auto simp: submit_order_def create_refused_def record_restriction_def rejected_def Let_def
          split: if_splits)
  next
    case (Inr od)
    have "od_id od = Some oid \<Longrightarrow> False" for oid
      using create Inr assms(1-3)
      by (auto simp: submit_order_def confirm_market_order_def dest: confirm_loop_id)
    then have "od_id od = None" by fastforce
    with create Inr assms(1) have "reason r = Some NOT_ACKNOWLEDGED"
      by (auto simp: submit_order_def)
    with assms(2) show ?thesis by simp
  qed
qed

lemma place_order_region:
  assumes "adapter_place_order a req (s, w) = (Inr r, (s', w'))" and "reason r = Some REGION_RESTRICTED"
    and "vendor_order_id r = None" and "ad_key_profile s = Some p"
  shows "ad_default_type s' = ad_default_type s \<and> key_refusal a s' \<noteq> None"
proof (cases "key_refusal a s")
  case (Some x)
  with assms(1) show ?thesis
    by (cases x) (auto simp: adapter_place_order_def split: if_splits)
next
  case None
  obtain y s1 w1 where small: "undersized_order a req (s, w) = (y, (s1, w1))"
    by (metis surj_pair)
  note small = small [unfolded undersized_order_same [OF small]]
  have "submit_order a req (s, w1) = (Inr r, (s', w'))"
    using assms(1,2) None small
    by (cases y) (auto simp: adapter_place_order_def bindC_def rejected_def split: if_splits option.splits)
  from submit_order_region [OF this assms(2-4)] show ?thesis
    using refusal_restricting [of p "ad_market_type a s"]
    by (simp add: key_refusal_def ad_market_type_def)
qed

section \<open>Properties\<close>

text \<open>On the ccxt adapter the executor never stacks orders: whatever the exchange answers, no
  order is sent while an earlier one of the same \<open>execute\<close> has an id and an unknown state, that
  is, it neither succeeded nor got a typed refusal nor was cancelled.\<close>

theorem ccxt_never_stacks:
  "no_stacking {} (broker_log pol (ccxt_trade_adapter a) symb signal qty sw)"
  by (rule ccxt_broker.execute_never_stacks)

text \<open>C39: Every result of \<open>place_order\<close> says what became of the order. A success names the order
  id and the filled size. A failure reports no fill and is either typed, or never got an id, or
  carries the message that makes the executor cancel before retrying. Side and size are the
  request's.\<close>

theorem place_order_outcome:
  assumes "adapter_place_order a req sw = (Inr r, sw')"
  shows "classified req r"
  by (rule place_order_classified [OF assms])

text \<open>A region refusal is learned. Once the exchange has refused an order because the account
  may not trade that product, every later market order of the session is refused by the adapter
  itself with a reason that needs the operator, without touching the exchange.\<close>

theorem region_refusal_learned:
  assumes "adapter_place_order a req (s, w) = (Inr r, (s', w'))" and "reason r = Some REGION_RESTRICTED"
    and "vendor_order_id r = None" and "ad_key_profile s \<noteq> None" and "orders_ready a req' s"
  shows "\<exists>res why. adapter_place_order a req' (s', w2) = (Inr res, (s', w2))
    \<and> \<not> success res \<and> reason res = Some why \<and> requires_operator_fix why"
proof -
  obtain p where p: "ad_key_profile s = Some p"
    using assms(4) by blast
  have keep: "ad_default_type s' = ad_default_type s" and "key_refusal a s' \<noteq> None"
    using place_order_region [OF assms(1-3) p] by auto
  then obtain why m where ref: "key_refusal a s' = Some (why, m)"
    by auto
  then have "requires_operator_fix why"
    by (auto simp: key_refusal_def split: option.splits dest: refusal_requires_operator_fix)
  moreover have "orders_ready a req' s'"
    using assms(5) keep by (simp add: orders_ready_def)
  ultimately show ?thesis
    using place_order_key_refused [OF _ ref, of req' w2] by (simp add: rejected_def)
qed

text \<open>A session on the perpetuals of an account the venue does not let trade them.\<close>

definition region_denial :: string where
  "region_denial = ''bybit {'' @ [CHR 0x22] @ ''retCode'' @ [CHR 0x22] @ '':10024}''"

definition demo_adapter :: "unit ccxt_adapter" where
  "demo_adapter =
     \<lparr>ad_api = demo_api\<lparr>api_create_order := (\<lambda>c symb side qty w. (Inl (AuthenticationError region_denial), w))\<rparr>,
      ad_cfg = demo_session, ad_router = demo_router, ad_delays = [Fin 1, Fin 2],
      ad_inst = \<lparr>resolve_cusip = (\<lambda>c i. Some c), product_issue_type = (\<lambda>c. Some (Some ''future''))\<rparr>\<rparr>"

definition demo_state :: adapter_state where
  "demo_state =
     \<lparr>exchange = Some \<lparr>conn_route = direct, conn_default_type = Some ''linear'', conn_endpoint = Mainnet,
                      conn_markets = []\<rparr>,
      gw_route = direct, gw_default_type = Some ''linear'',
      ad_key_profile = Some \<lparr>route = ''direct'', info = None, restricted_market_types = {}\<rparr>,
      ad_default_type = Some ''linear''\<rparr>"

definition demo_order :: order_request where
  "demo_order = market_order ''BTCUSDT'' (Fin 1) Side_BUY"

lemma region_denial_classified: "classify_denial BybitVenue region_denial = Some REGION_RESTRICTED"
  by code_simp

lemma demo_preset [simp]:
  "preset_venue (cfg_preset demo_session) = BybitVenue"
  "default_type_by_issue (ad_preset demo_adapter) \<noteq> []"
  by (simp_all add: demo_session_def bybit_preset_def ad_preset_def demo_adapter_def)

lemma demo_place_region:
  "\<exists>r s'. adapter_place_order demo_adapter demo_order (demo_state, ()) = (Inr r, (s', ()))
     \<and> reason r = Some REGION_RESTRICTED \<and> vendor_order_id r = None"
proof -
  have create: "create_market_order (ad_api demo_adapter) (ad_cfg demo_adapter) (req_symbol demo_order)
      (ccxt_side (req_side demo_order)) (req_qty demo_order) (demo_state, ())
      = (Inl (auth_error demo_session region_denial ''create_order''), (demo_state, ()))"
    by (simp add: create_market_order_def on_exchange_def demo_adapter_def demo_state_def
        create_failure_def ccxt_failure_def)
  have "undersized_order demo_adapter demo_order (demo_state, ()) = (Inr None, (demo_state, ()))"
    by (simp add: undersized_order_def fetch_market_limits_def demo_adapter_def demo_api_def
        demo_state_def lift_tr_def bindC_def no_limits_def undersized_def below_def)
  moreover have "key_refusal demo_adapter demo_state = None"
    by (simp add: key_refusal_def demo_state_def refusal_def)
  moreover have "req_type demo_order = MARKET" "ad_default_type demo_state = Some ''linear''"
    by (simp_all add: demo_order_def demo_state_def)
  ultimately have "adapter_place_order demo_adapter demo_order (demo_state, ())
      = submit_order demo_adapter demo_order (demo_state, ())"
    by (simp add: adapter_place_order_def bindC_def)
  moreover have "exn_reason (auth_error demo_session region_denial ''create_order'') = Some REGION_RESTRICTED"
    "is_broker_connection (auth_error demo_session region_denial ''create_order'')"
    using region_denial_classified
    by (simp_all add: auth_error_def exn_reason_def is_broker_connection_def Let_def
        del: classify_denial.simps)
  ultimately show ?thesis
    using create
    by (auto simp: submit_order_def create_refused_def rejected_def Let_def
        split: option.splits prod.splits)
qed

theorem place_order_outcome_witness:
  "\<exists>r. adapter_place_order demo_adapter demo_order (demo_state, ()) \<in> {Inr r} \<times> UNIV
     \<and> classified demo_order r"
proof -
  obtain r s' where run: "adapter_place_order demo_adapter demo_order (demo_state, ()) = (Inr r, (s', ()))"
    using demo_place_region by blast
  from place_order_outcome [OF run] run show ?thesis by auto
qed

theorem region_refusal_learned_witness:
  "\<exists>s' res why. adapter_place_order demo_adapter demo_order (s', ()) = (Inr res, (s', ()))
     \<and> \<not> success res \<and> reason res = Some why \<and> requires_operator_fix why"
proof -
  obtain r s' where run: "adapter_place_order demo_adapter demo_order (demo_state, ()) = (Inr r, (s', ()))"
    and r: "reason r = Some REGION_RESTRICTED" "vendor_order_id r = None"
    using demo_place_region by blast
  have "orders_ready demo_adapter demo_order demo_state" "ad_key_profile demo_state \<noteq> None"
    by (simp_all add: orders_ready_def demo_order_def demo_state_def)
  from region_refusal_learned [OF run r this(2,1), of "()"] show ?thesis by blast
qed

end
