(* ===== verification/LiveApply.thy ===== *)
theory LiveApply
  imports Tick CcxtAdapter
begin

text \<open>
  \<^verbatim>\<open>quant/trade/live_apply.py\<close>: one apply cycle of a deployment, from the signal to the order
  and its diary rows, with the diary writes of \<^verbatim>\<open>quant/trade/db_repo.py\<close>, the choice of the
  price series in \<^verbatim>\<open>quant/trade/bar_source.py\<close> and \<^verbatim>\<open>schedule_policy.py\<close>.

  The cycle acts on the trade tables and on the rest of the world \<open>'v\<close>. What it calls there is the
  record \<open>apply_env\<close>: the clock, the credential store, the strategy store, the evaluation of the
  strategy on its bars, the broker session and the alert sink. Fresh UUIDs, logging and the alert's
  wording are left out; alerts never raise.
\<close>

section \<open>Diary rows\<close>

text \<open>The gate every diary write shares: the version exists and belongs to the user.\<close>

definition owned_deployment_version :: "uuid \<Rightarrow> int \<Rightarrow> uuid \<Rightarrow> ('v, unit) db_call" where
  "owned_deployment_version did vid uid =
     bindC (on_db (\<lambda>db. Inr (deployment_version did vid db, db))) (\<lambda>dep.
       case dep of
         None \<Rightarrow> raiseC (TradeValidationError ''deployment not found'' 404)
       | Some d \<Rightarrow>
           (if app_user_id d \<noteq> uid
            then raiseC (TradeValidationError ''deployment does not belong to user'' 403)
            else returnC ()))"

definition sp_ins_intent :: "uuid \<Rightarrow> intent \<Rightarrow> ('v, unit) db_call" where
  "sp_ins_intent uid i =
     bindC (owned_deployment_version (int_deployment_id i) (int_deployment_vid i) uid) (\<lambda>_.
       on_db (\<lambda>db. Inr ((), db\<lparr>intents := i # intents db\<rparr>)))"

definition sp_ins_execution_event :: "uuid \<Rightarrow> execution_event \<Rightarrow> ('v, unit) db_call" where
  "sp_ins_execution_event uid e =
     bindC (owned_deployment_version (ev_deployment_id e) (ev_deployment_vid e) uid) (\<lambda>_.
       on_db (\<lambda>db. Inr ((), db\<lparr>execution_events := e # execution_events db\<rparr>)))"

definition sp_ins_transaction :: "uuid \<Rightarrow> transaction \<Rightarrow> ('v, unit) db_call" where
  "sp_ins_transaction uid t =
     bindC (on_db (\<lambda>db. Inr (open_deployment (tr_deployment_id t) db, db))) (\<lambda>dep.
       case dep of
         None \<Rightarrow> raiseC (TradeValidationError ''deployment not found or not current'' 404)
       | Some d \<Rightarrow>
           (if app_user_id d \<noteq> uid
            then raiseC (TradeValidationError ''deployment does not belong to user'' 403)
            else if app_id d \<noteq> tr_app_id t
            then raiseC (TradeValidationError ''app_id does not match deployment'' 400)
            else on_db (\<lambda>db. Inr ((), db\<lparr>transactions := t # transactions db\<rparr>))))"

section \<open>The target quantity\<close>

text \<open>
  \<open>Decimal(str(signal)) * Decimal(str(qty))\<close>: the shortest decimal that reads back as the double,
  times the exact quantity, to 28 significant digits.
\<close>

definition round_sig :: "nat \<Rightarrow> rat \<Rightarrow> rat" where
  "round_sig k q =
     (if q = 0 then 0
      else (let u = pow10 (decade 700 \<bar>q\<bar> - int k + 1) in of_int (round_half_even (q / u)) * u))"

definition shortest_decimal :: "rat \<Rightarrow> rat" where
  "shortest_decimal q =
     (case find (\<lambda>k. fl (round_sig k q) = Fin q) [1..<18] of Some k \<Rightarrow> round_sig k q | None \<Rightarrow> q)"

definition target_quantity :: "flt \<Rightarrow> rat \<Rightarrow> flt" where
  "target_quantity signal amount =
     (case signal of Fin s \<Rightarrow> Fin (round_sig 28 (shortest_decimal s * amount)) | _ \<Rightarrow> flt_mul signal (Fin amount))"

section \<open>Which bars the signal is computed from\<close>

definition fitted_interval_id :: "(string \<times> json) list \<Rightarrow> trade_exn + int" where
  "fitted_interval_id config =
     (case jget ''tm_interval_id'' config of
        JNull \<Rightarrow> Inl (TradeValidationError
          (''strategy config has no tm_interval_id '' @ em_dash @ '' it must name the interval ''
           @ ''its parameters were fitted on'') 400)
      | JInt i \<Rightarrow> Inr i
      | _ \<Rightarrow> Inl (PyExn (TypeError ''int() argument must be a string or a real number'')))"

text \<open>The provider's series, or the bars of the venue on an interval, with the forming bar.\<close>

datatype bar_loader = ProviderBars | VenueBars int

record signal_source =
  src_loader :: bar_loader
  src_label :: string
  src_interval :: int

text \<open>\<open>bars_configured\<close>: a price bar source was given; \<open>for_app\<close> refuses apps without a venue.\<close>

definition resolve_signal_source ::
  "(string \<Rightarrow> int option) \<Rightarrow> bool \<Rightarrow> int \<Rightarrow> int option \<Rightarrow> int \<Rightarrow> string \<Rightarrow> trade_exn + signal_source" where
  "resolve_signal_source resolve_app bars_configured app schedule fitted what =
     (let venue = exchange_id_for_app resolve_app app;
          iv = (case schedule of Some i \<Rightarrow> i | None \<Rightarrow> fitted)
      in if schedule = None \<and> venue = None then
           Inr \<lparr>src_loader = ProviderBars, src_label = ''provider'', src_interval = fitted\<rparr>
         else if \<not> bars_configured then
           Inl (TradeValidationError (what @ '' needs exchange bars on interval '' @ int_str iv
                @ '' but no price bar source is configured'') 400)
         else case venue of
                None \<Rightarrow> Inl (TradeValidationError
                  (''no market data venue for app_id='' @ int_str app @ '' '' @ em_dash
                   @ '' cannot price a scheduled deployment without bars from the exchange it trades on'') 400)
              | Some ex \<Rightarrow> Inr \<lparr>src_loader = VenueBars iv, src_label = ''price_bar:'' @ ex, src_interval = iv\<rparr>)"

section \<open>The world around a cycle\<close>

text \<open>A broker session: \<open>with adapter\<close> opens and closes it around the body.\<close>

record 'v live_broker =
  open_session :: "('v, trade_exn, unit) call"
  close_session :: "'v \<Rightarrow> 'v"
  validate_symbol :: "string \<Rightarrow> int \<Rightarrow> ('v, trade_exn, string) call"
  trading :: "'v trade_adapter"

datatype live_exn = LiveEvaluationError string | LiveOther trade_exn

record 'v apply_env =
  clock :: "'v \<Rightarrow> int \<times> 'v"
  row_limits :: "deployment \<Rightarrow> ('v, trade_exn, flt option) call"
  app_registered :: "int \<Rightarrow> bool"
  decrypt_credential :: "uuid \<Rightarrow> int \<Rightarrow> ('v, trade_exn, (string \<times> string) option) call"
  strategy_config :: "uuid \<Rightarrow> int \<Rightarrow> ('v, trade_exn, (string \<times> json) list option) call"
  result_payload :: "uuid \<Rightarrow> int \<Rightarrow> ('v, trade_exn, json) call"
  app_ids :: "string \<Rightarrow> int option"
  has_price_bars :: bool
  latest_position :: "(string \<times> json) list \<Rightarrow> json \<Rightarrow> bar_loader \<Rightarrow> ('v, live_exn, flt \<times> int) call"
  create_adapter :: "int \<Rightarrow> string \<times> string \<Rightarrow> bool \<Rightarrow> 'v live_broker"
  product_ccy :: "string \<Rightarrow> string option"
  fallback_ccy :: string
  order_policy :: retry_policy
  send_alert :: "deployment \<Rightarrow> retry_result \<Rightarrow> string \<Rightarrow> flt \<Rightarrow> flt \<Rightarrow> 'v \<Rightarrow> 'v"

text \<open>A call outside the trade tables.\<close>

definition outside :: "('v, 'e, 'a) call \<Rightarrow> (trade_db \<times> 'v, 'e, 'a) call" where
  "outside f = (\<lambda>(db, v). case f v of (x, v') \<Rightarrow> (x, (db, v')))"

lemma outside_apply: "outside f (db, v) = (fst (f v), (db, snd (f v)))"
  by (simp add: outside_def split: prod.split)

lemma outside_Inr_iff: "outside f (db, v) = (Inr x, w) \<longleftrightarrow> (\<exists>v'. f v = (Inr x, v') \<and> w = (db, v'))"
  by (auto simp: outside_def split: prod.splits)

definition returning :: "('v \<Rightarrow> 'a \<times> 'v) \<Rightarrow> ('v, 'e, 'a) call" where
  "returning f = (\<lambda>v. case f v of (x, v') \<Rightarrow> (Inr x, v'))"

section \<open>The cycle\<close>

record signal_read =
  sr_signal :: flt
  sr_bar_source :: string
  sr_bar_timestamp :: int
  sr_interval :: int

definition raise_or :: "trade_exn + 'a \<Rightarrow> ('w, trade_exn, 'a) call" where
  "raise_or r = (case r of Inl e \<Rightarrow> raiseC e | Inr x \<Rightarrow> returnC x)"

definition evaluated :: "live_exn + 'a \<Rightarrow> trade_exn + 'a" where
  "evaluated r =
     (case r of
        Inl (LiveEvaluationError m) \<Rightarrow> Inl (TradeValidationError m 400)
      | Inl (LiveOther e) \<Rightarrow> Inl e
      | Inr x \<Rightarrow> Inr x)"

definition compute_signal :: "'v apply_env \<Rightarrow> deployment \<Rightarrow> ('v, trade_exn, signal_read) call" where
  "compute_signal env dep =
     bindC (strategy_config env (strategy_id dep) (strategy_vid dep)) (\<lambda>row.
       case row of
         None \<Rightarrow> raiseC (TradeValidationError
                   (''strategy '' @ nat_str (strategy_id dep) @ '' v'' @ int_str (strategy_vid dep) @ '' not found'') 404)
       | Some config \<Rightarrow>
           bindC (result_payload env (strategy_id dep) (strategy_vid dep)) (\<lambda>payload.
           bindC (raise_or (bindR (fitted_interval_id config) (\<lambda>fitted.
                    resolve_signal_source (app_ids env) (has_price_bars env) (app_id dep)
                      (schedule_tm_interval_id dep) fitted (''deployment '' @ nat_str (deployment_id dep))))) (\<lambda>src.
             (\<lambda>v. case latest_position env config payload (src_loader src) v of
                    (x, v') \<Rightarrow>
                      (bindR (evaluated x) (\<lambda>(signal, as_of).
                         Inr \<lparr>sr_signal = signal, sr_bar_source = src_label src,
                              sr_bar_timestamp = as_of, sr_interval = src_interval src\<rparr>), v')))))"

definition event_of :: "deployment \<Rightarrow> flt \<Rightarrow> flt \<Rightarrow> int \<Rightarrow> apply_attempt \<Rightarrow> execution_event" where
  "event_of dep signal lot tick_at att =
     \<lparr>ev_deployment_id = deployment_id dep, ev_deployment_vid = deployment_vid dep,
      ev_buy_sell_cd = buy_sell_cd att, ev_is_success_ind = is_success_ind att,
      ev_signal_value = signal, ev_quantity = quantity att lot,
      ev_vendor_order_id = att_vendor_order_id att, ev_transact_at = tick_at,
      ev_position_qty = att_position att\<rparr>"

text \<open>One row per attempt; a failing write is logged and the cycle goes on.\<close>

definition best_effort :: "('v, unit) db_call \<Rightarrow> trade_db \<times> 'v \<Rightarrow> trade_db \<times> 'v" where
  "best_effort f w = snd (f w)"

definition audit_attempts ::
  "uuid \<Rightarrow> deployment \<Rightarrow> flt \<Rightarrow> flt \<Rightarrow> int \<Rightarrow> apply_attempt list \<Rightarrow> trade_db \<times> 'v \<Rightarrow> trade_db \<times> 'v" where
  "audit_attempts uid dep signal lot tick_at atts =
     fold (\<lambda>att. best_effort (sp_ins_execution_event uid (event_of dep signal lot tick_at att))) atts"

definition settlement_ccy :: "'v apply_env \<Rightarrow> string \<Rightarrow> string" where
  "settlement_ccy env cusip = str_or (product_ccy env cusip) (fallback_ccy env)"

definition transaction_of :: "'v apply_env \<Rightarrow> deployment \<Rightarrow> order_side \<Rightarrow> string \<Rightarrow> order_result \<Rightarrow> transaction" where
  "transaction_of env dep side symb res =
     \<lparr>tr_deployment_id = deployment_id dep, tr_app_id = app_id dep,
      tr_internal_cusip = internal_cusip dep, tr_buy_sell_cd = side_value side,
      tr_trans_ccy_cd = settlement_ccy env (internal_cusip dep), tr_vendor_symbol = symb,
      tr_quantity = filled_qty res, tr_price = avg_price res,
      tr_notional = (case avg_price res of None \<Rightarrow> None
                     | Some p \<Rightarrow> Some (flt_mul (the (filled_qty res)) p)),
      tr_fee = fee res, tr_fee_ccy = fee_ccy res, tr_vendor_order_id = vendor_order_id res\<rparr>"

definition write_transaction ::
  "'v apply_env \<Rightarrow> uuid \<Rightarrow> deployment \<Rightarrow> intended \<Rightarrow> string \<Rightarrow> order_result
   \<Rightarrow> trade_db \<times> 'v \<Rightarrow> trade_db \<times> 'v" where
  "write_transaction env uid dep action symb res =
     (case order_side action of
        None \<Rightarrow> id
      | Some side \<Rightarrow>
          (if filled_qty res = None then id
           else best_effort (sp_ins_transaction uid (transaction_of env dep side symb res))))"

definition report_of :: "deployment \<Rightarrow> retry_result \<Rightarrow> string \<Rightarrow> flt \<Rightarrow> string \<Rightarrow> apply_report" where
  "report_of dep out symb signal source =
     (let get = (\<lambda>f. case ret_result out of None \<Rightarrow> None | Some r \<Rightarrow> f r)
      in \<lparr>rep_deployment_id = deployment_id dep, rep_deployment_vid = deployment_vid dep,
          rep_action = ret_action out, rep_vendor_symbol = symb, rep_signal = signal,
          rep_position_qty = ret_position out,
          rep_order_success = (case ret_result out of None \<Rightarrow> None | Some r \<Rightarrow> Some (success r)),
          rep_vendor_order_id = get vendor_order_id, rep_filled_qty = (case ret_result out of None \<Rightarrow> None | Some r \<Rightarrow> filled_qty r),
          rep_avg_price = (case ret_result out of None \<Rightarrow> None | Some r \<Rightarrow> avg_price r),
          rep_fee = (case ret_result out of None \<Rightarrow> None | Some r \<Rightarrow> fee r), rep_fee_ccy = get fee_ccy,
          rep_message = (case ret_result out of None \<Rightarrow> no_order_message out | Some r \<Rightarrow> message r),
          rep_reject_reason = (case ret_result out of None \<Rightarrow> None | Some r \<Rightarrow> reason r),
          rep_bar_source = Some source\<rparr>)"

text \<open>What follows the executor inside the session: the diary, then the fill or the alert.\<close>

definition record_outcome ::
  "'v apply_env \<Rightarrow> uuid \<Rightarrow> deployment \<Rightarrow> flt \<Rightarrow> flt \<Rightarrow> int \<Rightarrow> string \<Rightarrow> retry_result
   \<Rightarrow> trade_db \<times> 'v \<Rightarrow> trade_db \<times> 'v" where
  "record_outcome env uid dep signal lot tick_at symb out w =
     (let w1 = audit_attempts uid dep signal lot tick_at (attempts out) w
      in case ret_result out of
           None \<Rightarrow> w1
         | Some r \<Rightarrow>
             (if success r then write_transaction env uid dep (ret_action out) symb r w1
              else (case w1 of (db, v) \<Rightarrow> (db, send_alert env dep out symb signal lot v))))"

definition session_body ::
  "'v apply_env \<Rightarrow> 'v live_broker \<Rightarrow> uuid \<Rightarrow> deployment \<Rightarrow> signal_read \<Rightarrow> int
   \<Rightarrow> ('v, apply_report) db_call" where
  "session_body env br uid dep dec tick_at =
     bindC (outside (validate_symbol br (internal_cusip dep) (app_id dep))) (\<lambda>symb.
     bindC (outside (execute (order_policy env) (trading br) symb (sr_signal dec) (fl (qty dep)))) (\<lambda>out w.
       (Inr (report_of dep out symb (sr_signal dec) (sr_bar_source dec)),
        record_outcome env uid dep (sr_signal dec) (fl (qty dep)) tick_at symb out w)))"

text \<open>\<open>with adapter\<close>: the session is closed after the body however it ends.\<close>

definition with_session :: "'v live_broker \<Rightarrow> ('v, 'a) db_call \<Rightarrow> ('v, 'a) db_call" where
  "with_session br body =
     bindC (outside (open_session br)) (\<lambda>_ w.
       case body w of (x, (db, v)) \<Rightarrow> (x, (db, close_session br v)))"

definition intent_of :: "deployment \<Rightarrow> signal_read \<Rightarrow> int \<Rightarrow> intent" where
  "intent_of dep dec tick_at =
     \<lparr>int_deployment_id = deployment_id dep, int_deployment_vid = deployment_vid dep,
      int_tm_interval_id = sr_interval dec, bar_timestamp = sr_bar_timestamp dec,
      int_bar_source = sr_bar_source dec, signal_value = sr_signal dec,
      target_qty = target_quantity (sr_signal dec) (qty dep), int_transact_at = tick_at\<rparr>"

definition live_run :: "'v apply_env \<Rightarrow> uuid \<Rightarrow> deployment \<Rightarrow> ('v, apply_report) db_call" where
  "live_run env uid dep =
     bindC (outside (returning (clock env))) (\<lambda>tick_at.
       if \<not> app_registered env (app_id dep) then
         raiseC (AdapterNotFoundError (''no broker adapter registered for app_id='' @ int_str (app_id dep)))
       else
         bindC (outside (decrypt_credential env uid (api_credential_id dep))) (\<lambda>keys.
           case keys of
             None \<Rightarrow> raiseC (TradeValidationError ''API credential not found or cannot decrypt'' 404)
           | Some ks \<Rightarrow>
               bindC (outside (compute_signal env dep)) (\<lambda>dec.
               bindC (sp_ins_intent uid (intent_of dep dec tick_at)) (\<lambda>_.
                 let br = create_adapter env (app_id dep) ks (is_paper_ind dep = Y)
                 in with_session br (session_body env br uid dep dec tick_at)))))"

text \<open>\<open>TradeService.apply_deployment\<close>: the open version of the user, if its kill switch is off.\<close>

definition open_row :: "uuid \<Rightarrow> uuid \<Rightarrow> ('v, deployment) db_call" where
  "open_row uid did =
     bindC (on_db (\<lambda>db. Inr (sp_get_deployment_rows uid (Some did) db, db))) (\<lambda>rows.
       case rows of [] \<Rightarrow> raiseC (DeploymentNotFound (nat_str did)) | d # _ \<Rightarrow> returnC d)"

text \<open>The row comes with the venue's lot size (\<open>_row\<close>), whose lookup may raise.\<close>

definition get_deployment :: "'v apply_env \<Rightarrow> uuid \<Rightarrow> uuid \<Rightarrow> ('v, deployment) db_call" where
  "get_deployment env uid did =
     bindC (open_row uid did) (\<lambda>d. bindC (outside (row_limits env d)) (\<lambda>_. returnC d))"

definition apply_deployment :: "'v apply_env \<Rightarrow> (trade_db \<times> 'v) apply_fn" where
  "apply_deployment env uid did =
     bindC (get_deployment env uid did) (\<lambda>dep.
       if is_enabled_ind dep \<noteq> Y
       then raiseC (TradeValidationError ''deployment is disabled (kill switch)'' 400)
       else live_run env uid dep)"

section \<open>The cycle leaves the schedule alone\<close>

definition same_schedule_tables :: "trade_db \<Rightarrow> trade_db \<Rightarrow> bool" where
  "same_schedule_tables db db' \<longleftrightarrow>
     deployments db' = deployments db \<and> schedules db' = schedules db \<and> db_now db' = db_now db"

definition diary_only :: "('v, 'a) db_call \<Rightarrow> bool" where
  "diary_only f \<longleftrightarrow> (\<forall>w x w'. f w = (x, w') \<longrightarrow> same_schedule_tables (fst w) (fst w'))"

lemma raise_or_Inr: "raise_or x w = (Inr y, w') \<longleftrightarrow> x = Inr y \<and> w' = w"
  by (cases x) (auto simp: raise_or_def)

lemma same_schedule_tables_refl [simp]: "same_schedule_tables db db"
  by (simp add: same_schedule_tables_def)

lemma same_schedule_tables_trans:
  "same_schedule_tables db1 db2 \<Longrightarrow> same_schedule_tables db2 db3 \<Longrightarrow> same_schedule_tables db1 db3"
  by (simp add: same_schedule_tables_def)

lemma diary_onlyD: "diary_only f \<Longrightarrow> f w = (x, w') \<Longrightarrow> same_schedule_tables (fst w) (fst w')"
  unfolding diary_only_def by blast

lemma diary_only_bindC:
  assumes "diary_only m" and "\<And>y. diary_only (f y)"
  shows "diary_only (bindC m f)"
  unfolding diary_only_def
proof (intro allI impI)
  fix w x w'
  assume "bindC m f w = (x, w')"
  then show "same_schedule_tables (fst w) (fst w')"
  proof (cases rule: bindC_E)
    case (raised e)
    with assms(1) show ?thesis by (auto dest: diary_onlyD)
  next
    case (went_on y w1)
    with assms show ?thesis by (blast intro: same_schedule_tables_trans dest: diary_onlyD)
  qed
qed

lemma diary_only_outside: "diary_only (outside f)"
  by (auto simp: diary_only_def outside_def split: prod.splits)

lemma diary_only_pure: "diary_only (raiseC e)" "diary_only (returnC x)"
  by (simp_all add: diary_only_def)

lemma diary_only_on_db:
  assumes "\<And>db x db'. f db = Inr (x, db') \<Longrightarrow> same_schedule_tables db db'"
  shows "diary_only (on_db f)"
  using assms
  by (auto simp: diary_only_def on_db_def same_schedule_tables_def Let_def
      split: list.splits option.splits sum.splits prod.splits)

lemmas diary_only_intros =
  diary_only_bindC diary_only_outside diary_only_pure diary_only_on_db

lemma diary_only_owned: "diary_only (owned_deployment_version did vid uid)"
  unfolding owned_deployment_version_def
  by (auto intro!: diary_only_intros split: option.splits)

lemma diary_only_rows:
  "diary_only (sp_ins_intent uid i)"
  "diary_only (sp_ins_execution_event uid e)"
  "diary_only (sp_ins_transaction uid t)"
  unfolding sp_ins_intent_def sp_ins_execution_event_def sp_ins_transaction_def
  by (auto intro!: diary_only_intros diary_only_owned simp: same_schedule_tables_def split: option.splits)

lemma best_effort_diary:
  "diary_only f \<Longrightarrow> same_schedule_tables (fst w) (fst (best_effort f w))"
  unfolding best_effort_def by (metis diary_onlyD prod.collapse)

lemma audit_attempts_diary:
  "same_schedule_tables (fst w) (fst (audit_attempts uid dep signal lot tick_at atts w))"
proof (induction atts arbitrary: w)
  case Nil
  show ?case by (simp add: audit_attempts_def)
next
  case (Cons att atts)
  have "same_schedule_tables (fst w)
      (fst (best_effort (sp_ins_execution_event uid (event_of dep signal lot tick_at att)) w))"
    by (rule best_effort_diary [OF diary_only_rows(2)])
  from same_schedule_tables_trans [OF this Cons.IH] show ?case
    by (simp add: audit_attempts_def)
qed

lemma write_transaction_diary:
  "same_schedule_tables (fst w) (fst (write_transaction env uid dep action symb res w))"
  by (auto simp: write_transaction_def intro!: best_effort_diary diary_only_rows split: option.splits)

lemma record_outcome_diary:
  "same_schedule_tables (fst w) (fst (record_outcome env uid dep signal lot tick_at symb out w))"
  using audit_attempts_diary [of w uid dep signal lot tick_at "attempts out"]
    write_transaction_diary [of "audit_attempts uid dep signal lot tick_at (attempts out) w" env uid dep
      "ret_action out" symb]
  by (auto simp: record_outcome_def Let_def intro: same_schedule_tables_trans
      split: option.splits prod.splits)

lemma diary_only_session_body: "diary_only (session_body env br uid dep dec tick_at)"
proof -
  have "diary_only (\<lambda>w. (Inr (report_of dep out symb (sr_signal dec) (sr_bar_source dec)),
        record_outcome env uid dep (sr_signal dec) (fl (qty dep)) tick_at symb out w))" for symb out
    unfolding diary_only_def using record_outcome_diary by blast
  then show ?thesis
    unfolding session_body_def by (intro diary_only_intros)
qed

lemma diary_only_with_session: "diary_only body \<Longrightarrow> diary_only (with_session br body)"
  unfolding with_session_def
  by (intro diary_only_bindC diary_only_outside)
    (auto simp: diary_only_def split: prod.splits)

lemma diary_only_live_run: "diary_only (live_run env uid dep)"
  unfolding live_run_def Let_def
  by (auto intro!: diary_only_bindC diary_only_outside diary_only_pure diary_only_rows
      diary_only_with_session diary_only_session_body split: option.splits)

lemma apply_deployment_keeps_schedule: "keeps_schedule (apply_deployment env)"
proof -
  have "diary_only (apply_deployment env uid did)" for uid did
    unfolding apply_deployment_def get_deployment_def open_row_def
    by (auto intro!: diary_only_intros diary_only_live_run split: list.splits)
  then show ?thesis
    unfolding keeps_schedule_def diary_only_def same_schedule_tables_def by blast
qed

section \<open>What the broker sees of a cycle\<close>

text \<open>The environment with the broker's call log carried along: only the trading calls append.\<close>

definition keep_log :: "('v, 'e, 'a) call \<Rightarrow> ('v \<times> broker_event list, 'e, 'a) call" where
  "keep_log f = (\<lambda>(v, l). case f v of (x, v') \<Rightarrow> (x, (v', l)))"

definition logged_broker :: "'v live_broker \<Rightarrow> ('v \<times> broker_event list) live_broker" where
  "logged_broker br =
     \<lparr>open_session = keep_log (open_session br),
      close_session = (\<lambda>(v, l). (close_session br v, l)),
      validate_symbol = (\<lambda>cusip app. keep_log (validate_symbol br cusip app)),
      trading = logged (trading br)\<rparr>"

definition logged_env :: "'v apply_env \<Rightarrow> ('v \<times> broker_event list) apply_env" where
  "logged_env env =
     \<lparr>clock = (\<lambda>(v, l). case clock env v of (t, v') \<Rightarrow> (t, (v', l))),
      row_limits = (\<lambda>d. keep_log (row_limits env d)),
      app_registered = app_registered env,
      decrypt_credential = (\<lambda>u i. keep_log (decrypt_credential env u i)),
      strategy_config = (\<lambda>i n. keep_log (strategy_config env i n)),
      result_payload = (\<lambda>i n. keep_log (result_payload env i n)),
      app_ids = app_ids env, has_price_bars = has_price_bars env,
      latest_position = (\<lambda>c p b. keep_log (latest_position env c p b)),
      create_adapter = (\<lambda>i ks paper. logged_broker (create_adapter env i ks paper)),
      product_ccy = product_ccy env, fallback_ccy = fallback_ccy env, order_policy = order_policy env,
      send_alert = (\<lambda>dep out symb signal lot (v, l). (send_alert env dep out symb signal lot v, l))\<rparr>"

lemma logged_env_simps [simp]:
  "latest_position (logged_env env) = (\<lambda>c p b. keep_log (latest_position env c p b))"
  "create_adapter (logged_env env) = (\<lambda>i ks paper. logged_broker (create_adapter env i ks paper))"
  "order_policy (logged_env env) = order_policy env"
  "app_registered (logged_env env) = app_registered env"
  "decrypt_credential (logged_env env) = (\<lambda>u i. keep_log (decrypt_credential env u i))"
  "send_alert (logged_env env) = (\<lambda>dep out symb signal lot (v, l). (send_alert env dep out symb signal lot v, l))"
  by (simp_all add: logged_env_def)

definition silent :: "('v \<times> broker_event list, 'e, 'a) call \<Rightarrow> bool" where
  "silent f \<longleftrightarrow> (\<forall>w x w'. f w = (x, w') \<longrightarrow> snd w' = snd w)"

lemma silentD: "silent f \<Longrightarrow> f w = (x, w') \<Longrightarrow> snd w' = snd w"
  unfolding silent_def by blast

lemma silent_keep_log: "silent (keep_log f)"
  by (auto simp: silent_def keep_log_def split: prod.splits)

lemma silent_pure: "silent (raiseC e)" "silent (returnC x)"
  by (simp_all add: silent_def)

lemma silent_bindC:
  assumes "silent m" and "\<And>y. silent (f y)"
  shows "silent (bindC m f)"
  unfolding silent_def
proof (intro allI impI)
  fix w x w'
  assume "bindC m f w = (x, w')"
  then show "snd w' = snd w"
    by (cases rule: bindC_E) (metis assms silentD)+
qed

lemma silent_compute_signal: "silent (compute_signal (logged_env env) dep)"
proof -
  have last: "silent (\<lambda>v. case keep_log h v of (x, v') \<Rightarrow> (g x, v'))"
    for g and h :: "('a, live_exn, flt \<times> int) call"
    by (auto simp: silent_def keep_log_def split: prod.splits)
  show ?thesis
    unfolding compute_signal_def raise_or_def
    by (auto intro!: silent_bindC last silent_pure split: option.splits sum.splits)
      (simp_all add: logged_env_def silent_keep_log)
qed

lemma outside_silent:
  assumes "silent f" and "outside f (db, w) = (x, (db', w'))"
  shows "db' = db \<and> snd w' = snd w"
  using assms by (auto simp: outside_def split: prod.splits dest: silentD)

text \<open>The diary and the alerts are off the broker's log, and leave the intents alone.\<close>

lemma on_db_frame: "on_db f (db, v) = (x, (db', v')) \<Longrightarrow> v' = v"
  by (auto simp: on_db_def Let_def split: list.splits option.splits sum.splits prod.splits)

lemma owned_frame:
  "owned_deployment_version did vid uid (db, v) = (x, (db', v')) \<Longrightarrow> v' = v \<and> intents db' = intents db
     \<and> execution_events db' = execution_events db \<and> transactions db' = transactions db"
  unfolding owned_deployment_version_def
  by (erule bindC_E) (auto simp: on_db_def Let_def split: list.splits option.splits if_splits)

lemma sp_ins_intent_row:
  assumes "sp_ins_intent uid i (db, v) = (x, (db', v'))"
  shows "v' = v \<and> (case x of Inl e \<Rightarrow> intents db' = intents db | Inr _ \<Rightarrow> intents db' = i # intents db)
     \<and> execution_events db' = execution_events db \<and> transactions db' = transactions db"
  using assms unfolding sp_ins_intent_def
proof (cases rule: bindC_E)
  case (raised e)
  with owned_frame [of _ _ uid db v "Inl e" db' v'] show ?thesis by auto
next
  case (went_on y w1)
  obtain db1 v1 where w1: "w1 = (db1, v1)" by fastforce
  with went_on owned_frame [of _ _ uid db v "Inr y" db1 v1] show ?thesis
    by (auto simp: on_db_def Let_def split: list.splits option.splits)
qed

lemma event_row_frame:
  assumes "sp_ins_execution_event uid e (db, v) = (x, (db', v'))"
  shows "v' = v \<and> intents db' = intents db \<and> transactions db' = transactions db"
  using assms unfolding sp_ins_execution_event_def
proof (cases rule: bindC_E)
  case (raised e)
  with owned_frame [of _ _ uid db v "Inl e" db' v'] show ?thesis by auto
next
  case (went_on y w1)
  obtain db1 v1 where w1: "w1 = (db1, v1)" by fastforce
  with went_on owned_frame [of _ _ uid db v "Inr y" db1 v1] show ?thesis
    by (auto simp: on_db_def Let_def split: list.splits option.splits)
qed

lemma transaction_row_frame:
  assumes "sp_ins_transaction uid t (db, v) = (x, (db', v'))"
  shows "v' = v \<and> intents db' = intents db \<and> execution_events db' = execution_events db"
  using assms unfolding sp_ins_transaction_def
  by (cases rule: bindC_E)
    (auto simp: on_db_def Let_def split: list.splits option.splits if_splits)

lemma audit_frame:
  "snd (audit_attempts uid dep signal lot tick_at atts (db, v)) = v
   \<and> intents (fst (audit_attempts uid dep signal lot tick_at atts (db, v))) = intents db
   \<and> transactions (fst (audit_attempts uid dep signal lot tick_at atts (db, v))) = transactions db"
proof (induction atts arbitrary: db)
  case Nil
  show ?case by (simp add: audit_attempts_def)
next
  case (Cons att atts)
  obtain x db1 v1 where row: "sp_ins_execution_event uid (event_of dep signal lot tick_at att) (db, v)
      = (x, (db1, v1))"
    by (metis surj_pair)
  from event_row_frame [OF row] Cons.IH [of db1] row show ?case
    by (simp add: audit_attempts_def best_effort_def)
qed

lemma write_transaction_frame:
  "snd (write_transaction env uid dep ac symb r (db, v)) = v
   \<and> intents (fst (write_transaction env uid dep ac symb r (db, v))) = intents db
   \<and> execution_events (fst (write_transaction env uid dep ac symb r (db, v))) = execution_events db"
proof (cases "order_side ac")
  case None
  then show ?thesis by (simp add: write_transaction_def)
next
  case (Some side)
  obtain x db1 v1 where row: "sp_ins_transaction uid (transaction_of env dep side symb r) (db, v) = (x, (db1, v1))"
    by (metis surj_pair)
  from transaction_row_frame [OF row] Some row show ?thesis
    by (simp add: write_transaction_def best_effort_def)
qed

lemma record_outcome_frame:
  "snd (snd (record_outcome (logged_env env) uid dep signal lot tick_at symb out (db, (v, l)))) = l
   \<and> intents (fst (record_outcome (logged_env env) uid dep signal lot tick_at symb out (db, (v, l)))) = intents db"
proof -
  obtain db1 v1 where audit: "audit_attempts uid dep signal lot tick_at (attempts out) (db, (v, l)) = (db1, v1)"
    by (metis surj_pair)
  then have a: "v1 = (v, l)" "intents db1 = intents db"
    using audit_frame [of uid dep signal lot tick_at "attempts out" db "(v, l)"] by auto
  with audit write_transaction_frame [of "logged_env env" uid dep "ret_action out" symb _ db1 v1] show ?thesis
    by (auto simp: record_outcome_def Let_def split: option.splits)
qed

lemma execute_logged:
  "\<exists>x v'. execute pol (logged ad) symb s q (v, l) = (x, (v', l @ broker_log pol ad symb s q v))"
  by (simp add: execute_log_blind [of pol ad symb s q v l] prepended_def broker_log_def)

text \<open>What a session adds to the log: nothing, or the calls of one run of the executor.\<close>

definition traded ::
  "'v apply_env \<Rightarrow> deployment \<Rightarrow> flt \<Rightarrow> broker_event list \<Rightarrow> bool" where
  "traded env dep signal es \<longleftrightarrow>
     (\<exists>ks symb v. es = broker_log (order_policy env)
        (trading (create_adapter env (app_id dep) ks (is_paper_ind dep = Y))) symb signal (fl (qty dep)) v)"

lemma with_session_log:
  assumes "with_session (logged_broker (create_adapter env (app_id dep) ks (is_paper_ind dep = Y)))
      (session_body (logged_env env)
         (logged_broker (create_adapter env (app_id dep) ks (is_paper_ind dep = Y))) uid dep dec tick_at)
      (db, (v, l)) = (x, (db', (v', l')))"
  shows "intents db' = intents db \<and> (\<exists>es. l' = l @ es \<and> (es = [] \<or> traded env dep (sr_signal dec) es))"
proof -
  let ?br = "create_adapter env (app_id dep) ks (is_paper_ind dep = Y)"
  have open_silent: "silent (open_session (logged_broker ?br))"
    and validate_silent: "\<And>c i. silent (validate_symbol (logged_broker ?br) c i)"
    by (simp_all add: logged_broker_def silent_keep_log)
  from assms show ?thesis
    unfolding with_session_def
  proof (cases rule: bindC_E)
    case (raised e)
    with outside_silent [OF open_silent, of db "(v, l)" "Inl e" db' "(v', l')"] show ?thesis by auto
  next
    case (went_on y w1)
    obtain db1 v1 l1 where w1: "w1 = (db1, (v1, l1))"
      by (metis surj_pair)
    have 1: "db1 = db" "l1 = l"
      using outside_silent [OF open_silent, of db "(v, l)" "Inr y" db1 "(v1, l1)"] went_on(1) w1 by auto
    obtain r db2 v2 l2 where body: "session_body (logged_env env) (logged_broker ?br) uid dep dec tick_at
        (db, (v1, l)) = (r, (db2, (v2, l2)))"
      by (metis surj_pair)
    have ends: "db' = db2" "l' = l2"
      using went_on(2) w1 1 body by (auto simp: logged_broker_def)
    from body have "intents db2 = intents db
        \<and> (\<exists>es. l2 = l @ es \<and> (es = [] \<or> traded env dep (sr_signal dec) es))"
      unfolding session_body_def
    proof (cases rule: bindC_E)
      case (raised e)
      with outside_silent [OF validate_silent [of "internal_cusip dep" "app_id dep"], of db "(v1, l)" "Inl e" db2 "(v2, l2)"] show ?thesis
        by auto
    next
      case (went_on symb w3)
      obtain db3 v3 l3 where w3: "w3 = (db3, (v3, l3))"
        by (metis surj_pair)
      have 3: "db3 = db" "l3 = l"
        using outside_silent [OF validate_silent [of "internal_cusip dep" "app_id dep"], of db "(v1, l)" "Inr symb" db3 "(v3, l3)"] went_on(1) w3
        by auto
      let ?es = "broker_log (order_policy env) (trading ?br) symb (sr_signal dec) (fl (qty dep)) v3"
      obtain z v4 where run: "execute (order_policy env) (logged (trading ?br)) symb (sr_signal dec)
          (fl (qty dep)) (v3, l) = (z, (v4, l @ ?es))"
        using execute_logged [of "order_policy env" "trading ?br" symb "sr_signal dec" "fl (qty dep)" v3 l]
        by blast
      have "traded env dep (sr_signal dec) ?es"
        unfolding traded_def by blast
      moreover have "intents db2 = intents db \<and> l2 = l @ ?es"
      proof (cases z)
        case (Inl e)
        with went_on(2) w3 3 run show ?thesis
          by (simp add: bindC_def outside_def logged_broker_def logged_env_def)
      next
        case (Inr out)
        then have "(db2, (v2, l2)) = record_outcome (logged_env env) uid dep (sr_signal dec) (fl (qty dep))
            tick_at symb out (db, (v4, l @ ?es))"
          using went_on(2) w3 3 run
          by (simp add: bindC_def outside_def logged_broker_def logged_env_def)
        with record_outcome_frame [of env uid dep "sr_signal dec" "fl (qty dep)" tick_at symb out db v4 "l @ ?es"]
        show ?thesis by (metis fst_conv snd_conv)
      qed
      ultimately show ?thesis by blast
    qed
    with ends show ?thesis by simp
  qed
qed

lemma silent_clock: "silent (returning (clock (logged_env env)))"
  by (auto simp: silent_def returning_def logged_env_def split: prod.splits)

text \<open>A cycle's intent and log: no intent and no call, or one intent and at most one executor run.\<close>

definition cycle_ok :: "'v apply_env \<Rightarrow> deployment \<Rightarrow> trade_db \<Rightarrow> trade_db \<Rightarrow> broker_event list \<Rightarrow> bool" where
  "cycle_ok env dep db db' es \<longleftrightarrow>
     (intents db' = intents db \<and> es = [])
     \<or> (\<exists>i. intents db' = i # intents db \<and> int_deployment_id i = deployment_id dep
          \<and> int_deployment_vid i = deployment_vid dep
          \<and> target_qty i = target_quantity (signal_value i) (qty dep)
          \<and> (es = [] \<or> traded env dep (signal_value i) es))"

lemma signalled_log:
  assumes "bindC (outside (compute_signal (logged_env env) dep)) (\<lambda>dec.
      bindC (sp_ins_intent uid (intent_of dep dec tick_at)) (\<lambda>_.
        let br = create_adapter (logged_env env) (app_id dep) ks (is_paper_ind dep = Y)
        in with_session br (session_body (logged_env env) br uid dep dec tick_at)))
      (db, (v, l)) = (x, (db', (v', l')))"
  shows "\<exists>es. l' = l @ es \<and> cycle_ok env dep db db' es"
  using assms
proof (cases rule: bindC_E)
  case (raised e)
  with outside_silent [OF silent_compute_signal, of env dep db "(v, l)" "Inl e" db' "(v', l')"] show ?thesis
    by (auto simp: cycle_ok_def)
next
  case (went_on dec w1)
  obtain db1 v1 l1 where w1: "w1 = (db1, (v1, l1))" by (metis surj_pair)
  have 1: "db1 = db" "l1 = l"
    using outside_silent [OF silent_compute_signal, of env dep db "(v, l)" "Inr dec" db1 "(v1, l1)"] went_on(1) w1
    by auto
  from went_on(2) [unfolded w1 1] show ?thesis
  proof (cases rule: bindC_E)
    case (raised e)
    with sp_ins_intent_row [of uid _ db "(v1, l)" "Inl e" db' "(v', l')"] show ?thesis
      by (auto simp: cycle_ok_def)
  next
    case (went_on y w2)
    obtain db2 v2 l2 where w2: "w2 = (db2, (v2, l2))" by (metis surj_pair)
    have 2: "l2 = l" "intents db2 = intent_of dep dec tick_at # intents db"
      using sp_ins_intent_row [of uid _ db "(v1, l)" "Inr y" db2 "(v2, l2)"] went_on(1) w2 by auto
    obtain es where "l' = l @ es" "intents db' = intents db2" "es = [] \<or> traded env dep (sr_signal dec) es"
      using with_session_log [of env dep ks uid dec tick_at db2 v2 l2 x db' v' l'] went_on(2) w2 2(1)
      by (auto simp: Let_def)
    with 2 show ?thesis
      by (intro exI [of _ es]) (simp add: cycle_ok_def intent_of_def)
  qed
qed

lemma decrypted_log:
  assumes "bindC (outside (decrypt_credential (logged_env env) uid cred)) (\<lambda>keys.
      case keys of
        None \<Rightarrow> raiseC e0
      | Some ks \<Rightarrow>
          bindC (outside (compute_signal (logged_env env) dep)) (\<lambda>dec.
          bindC (sp_ins_intent uid (intent_of dep dec tick_at)) (\<lambda>_.
            let br = create_adapter (logged_env env) (app_id dep) ks (is_paper_ind dep = Y)
            in with_session br (session_body (logged_env env) br uid dep dec tick_at))))
      (db, (v, l)) = (x, (db', (v', l')))"
  shows "\<exists>es. l' = l @ es \<and> cycle_ok env dep db db' es"
  using assms
proof (cases rule: bindC_E)
  case (raised e)
  with outside_silent [OF silent_keep_log, of "decrypt_credential env uid cred" db "(v, l)" "Inl e" db' "(v', l')"]
  show ?thesis by (auto simp: cycle_ok_def)
next
  case (went_on keys w1)
  obtain db1 v1 l1 where w1: "w1 = (db1, (v1, l1))" by (metis surj_pair)
  have 1: "db1 = db" "l1 = l"
    using outside_silent [OF silent_keep_log, of "decrypt_credential env uid cred" db "(v, l)" "Inr keys" db1 "(v1, l1)"]
      went_on(1) w1 by auto
  show ?thesis
  proof (cases keys)
    case None
    with went_on(2) w1 1 show ?thesis by (auto simp: cycle_ok_def)
  next
    case (Some ks)
    with went_on(2) w1 1 show ?thesis
      by (intro signalled_log [of env dep uid tick_at ks db v1 l x db' v' l']) simp
  qed
qed

lemma live_run_log:
  assumes "live_run (logged_env env) uid dep (db, (v, l)) = (x, (db', (v', l')))"
  shows "\<exists>es. l' = l @ es \<and> cycle_ok env dep db db' es"
  using assms unfolding live_run_def
proof (cases rule: bindC_E)
  case (raised e)
  with outside_silent [OF silent_clock, of env db "(v, l)" "Inl e" db' "(v', l')"] show ?thesis
    by (auto simp: cycle_ok_def)
next
  case (went_on tick_at w1)
  obtain db1 v1 l1 where w1: "w1 = (db1, (v1, l1))" by (metis surj_pair)
  have 1: "db1 = db" "l1 = l"
    using outside_silent [OF silent_clock, of env db "(v, l)" "Inr tick_at" db1 "(v1, l1)"] went_on(1) w1 by auto
  show ?thesis
  proof (cases "app_registered (logged_env env) (app_id dep)")
    case False
    with went_on(2) w1 1 show ?thesis by (auto simp: cycle_ok_def)
  next
    case True
    show ?thesis
      by (rule decrypted_log) (rule went_on(2) [unfolded w1 1, simplified True not_True_eq_False if_False])
  qed
qed

section \<open>The diary of a cycle\<close>

text \<open>A database that answers, with the deployment's version on file for its owner.\<close>

definition on_file :: "uuid \<Rightarrow> deployment \<Rightarrow> trade_db \<Rightarrow> bool" where
  "on_file uid dep db \<longleftrightarrow>
     faults db = []
     \<and> (\<exists>d. deployment_version (deployment_id dep) (deployment_vid dep) db = Some d \<and> app_user_id d = uid)
     \<and> (\<exists>d. open_deployment (deployment_id dep) db = Some d \<and> app_user_id d = uid \<and> app_id d = app_id dep)"

lemma on_file_diary [simp]:
  "on_file uid dep (db\<lparr>intents := is\<rparr>) = on_file uid dep db"
  "on_file uid dep (db\<lparr>execution_events := es\<rparr>) = on_file uid dep db"
  "on_file uid dep (db\<lparr>transactions := ts\<rparr>) = on_file uid dep db"
  by (simp_all add: on_file_def deployment_version_def open_deployment_def)

lemma on_db_answers:
  "faults db = [] \<Longrightarrow>
   on_db f (db, v) = (case f db of Inl e \<Rightarrow> (Inl e, (db, v)) | Inr (x, db') \<Rightarrow> (Inr x, (db', v)))"
  by (cases db) (auto simp: on_db_def Let_def)

lemma owned_on_file:
  "on_file uid dep db \<Longrightarrow>
   owned_deployment_version (deployment_id dep) (deployment_vid dep) uid (db, v) = (Inr (), (db, v))"
  by (auto simp: on_file_def owned_deployment_version_def bindC_def on_db_answers)

lemma diary_rows_on_file:
  assumes "on_file uid dep db"
  shows "int_deployment_id i = deployment_id dep \<Longrightarrow> int_deployment_vid i = deployment_vid dep \<Longrightarrow>
      sp_ins_intent uid i (db, v) = (Inr (), (db\<lparr>intents := i # intents db\<rparr>, v))"
    and "ev_deployment_id e = deployment_id dep \<Longrightarrow> ev_deployment_vid e = deployment_vid dep \<Longrightarrow>
      sp_ins_execution_event uid e (db, v)
      = (Inr (), (db\<lparr>execution_events := e # execution_events db\<rparr>, v))"
    and "tr_deployment_id t = deployment_id dep \<Longrightarrow> tr_app_id t = app_id dep \<Longrightarrow>
      sp_ins_transaction uid t (db, v) = (Inr (), (db\<lparr>transactions := t # transactions db\<rparr>, v))"
proof -
  have answers: "faults db = []"
    using assms by (simp add: on_file_def)
  note owned = owned_on_file [OF assms, of v]
  show "sp_ins_intent uid i (db, v) = (Inr (), (db\<lparr>intents := i # intents db\<rparr>, v))"
    if "int_deployment_id i = deployment_id dep" "int_deployment_vid i = deployment_vid dep"
    using that owned answers by (simp add: sp_ins_intent_def bindC_def on_db_answers)
  show "sp_ins_execution_event uid e (db, v) = (Inr (), (db\<lparr>execution_events := e # execution_events db\<rparr>, v))"
    if "ev_deployment_id e = deployment_id dep" "ev_deployment_vid e = deployment_vid dep"
    using that owned answers by (simp add: sp_ins_execution_event_def bindC_def on_db_answers)
  show "sp_ins_transaction uid t (db, v) = (Inr (), (db\<lparr>transactions := t # transactions db\<rparr>, v))"
    if "tr_deployment_id t = deployment_id dep" "tr_app_id t = app_id dep"
    using that assms by (auto simp: sp_ins_transaction_def bindC_def on_db_answers on_file_def)
qed

lemma audit_on_file:
  "on_file uid dep db \<Longrightarrow>
   audit_attempts uid dep signal lot tick_at atts (db, v) =
     (db\<lparr>execution_events := rev (map (event_of dep signal lot tick_at) atts) @ execution_events db\<rparr>, v)"
proof (induction atts arbitrary: db)
  case Nil
  show ?case by (simp add: audit_attempts_def)
next
  case (Cons att atts)
  define e where "e = event_of dep signal lot tick_at att"
  have "sp_ins_execution_event uid e (db, v) = (Inr (), (db\<lparr>execution_events := e # execution_events db\<rparr>, v))"
    by (rule diary_rows_on_file(2) [OF Cons.prems]) (simp_all add: e_def event_of_def)
  with Cons.IH [of "db\<lparr>execution_events := e # execution_events db\<rparr>"] Cons.prems show ?case
    by (simp add: audit_attempts_def best_effort_def e_def)
qed

definition fills_of :: "'v apply_env \<Rightarrow> deployment \<Rightarrow> string \<Rightarrow> retry_result \<Rightarrow> transaction list" where
  "fills_of env dep symb out =
     (case (ret_result out, order_side (ret_action out)) of
        (Some r, Some side) \<Rightarrow>
          (if success r \<and> filled_qty r \<noteq> None then [transaction_of env dep side symb r] else [])
      | _ \<Rightarrow> [])"

lemma record_outcome_on_file:
  assumes "on_file uid dep db" and "record_outcome env uid dep signal lot tick_at symb out (db, v) = (db', v')"
  shows "intents db' = intents db
    \<and> execution_events db' = rev (map (event_of dep signal lot tick_at) (attempts out)) @ execution_events db
    \<and> transactions db' = fills_of env dep symb out @ transactions db"
proof -
  define db1 where
    "db1 = db\<lparr>execution_events := rev (map (event_of dep signal lot tick_at) (attempts out)) @ execution_events db\<rparr>"
  have audit: "audit_attempts uid dep signal lot tick_at (attempts out) (db, v) = (db1, v)"
    using audit_on_file [OF assms(1)] by (simp add: db1_def)
  have known: "on_file uid dep db1"
    using assms(1) by (simp add: db1_def)
  have tr: "sp_ins_transaction uid (transaction_of env dep side symb r) (db1, v)
      = (Inr (), (db1\<lparr>transactions := transaction_of env dep side symb r # transactions db1\<rparr>, v))" for side r
    by (rule diary_rows_on_file(3) [OF known]) (simp_all add: transaction_of_def)
  have eq: "intents db1 = intents db" "transactions db1 = transactions db" "execution_events db1
      = rev (map (event_of dep signal lot tick_at) (attempts out)) @ execution_events db"
    by (simp_all add: db1_def)
  from assms(2) audit show ?thesis
    unfolding eq [symmetric]
    by (auto simp: record_outcome_def write_transaction_def best_effort_def tr fills_of_def Let_def
        split: option.splits if_splits)
qed

lemma with_session_returns:
  assumes "with_session br body w = (Inr rep, (db', v'))"
  shows "\<exists>w1 v2. outside (open_session br) w = (Inr (), w1) \<and> body w1 = (Inr rep, (db', v2))"
  using assms unfolding with_session_def
  by (cases rule: bindC_E) (auto split: prod.splits)

lemma live_run_returns:
  assumes "live_run env uid dep (db, v) = (Inr rep, (db', v'))"
  shows "\<exists>tick_at v1 ks v2 dec v3 db4 v4. clock env v = (tick_at, v1)
    \<and> decrypt_credential env uid (api_credential_id dep) v1 = (Inr (Some ks), v2)
    \<and> compute_signal env dep v2 = (Inr dec, v3)
    \<and> sp_ins_intent uid (intent_of dep dec tick_at) (db, v3) = (Inr (), (db4, v4))
    \<and> with_session (create_adapter env (app_id dep) ks (is_paper_ind dep = Y))
        (session_body env (create_adapter env (app_id dep) ks (is_paper_ind dep = Y)) uid dep dec tick_at)
        (db4, v4) = (Inr rep, (db', v'))"
  using assms
  by (auto simp: live_run_def bindC_Inr_iff outside_Inr_iff returning_def Let_def
      split: if_splits option.splits prod.splits)

text \<open>What one cycle of a deployment read and did before it answered: the tick time, the keys, the
  signal, the venue's symbol, and the run of the executor, each in the state the one before left.\<close>

definition cycle_run ::
  "'v apply_env \<Rightarrow> uuid \<Rightarrow> deployment \<Rightarrow> 'v \<Rightarrow> int \<Rightarrow> signal_read \<Rightarrow> string \<Rightarrow> retry_result \<Rightarrow> bool" where
  "cycle_run env uid dep v tick_at dec symb out \<longleftrightarrow>
     (\<exists>ks v1 v2 v3 v4 v5 v6 br. clock env v = (tick_at, v1)
      \<and> decrypt_credential env uid (api_credential_id dep) v1 = (Inr (Some ks), v2)
      \<and> compute_signal env dep v2 = (Inr dec, v3)
      \<and> br = create_adapter env (app_id dep) ks (is_paper_ind dep = Y)
      \<and> open_session br v3 = (Inr (), v4)
      \<and> validate_symbol br (internal_cusip dep) (app_id dep) v4 = (Inr symb, v5)
      \<and> execute (order_policy env) (trading br) symb (sr_signal dec) (fl (qty dep)) v5 = (Inr out, v6))"

lemma live_run_diary:
  assumes "on_file uid dep db" and "live_run env uid dep (db, v) = (Inr rep, (db', v'))"
  shows "\<exists>tick_at dec out symb. cycle_run env uid dep v tick_at dec symb out
    \<and> intents db' = intent_of dep dec tick_at # intents db
    \<and> execution_events db'
        = rev (map (event_of dep (sr_signal dec) (fl (qty dep)) tick_at) (attempts out)) @ execution_events db
    \<and> transactions db' = fills_of env dep symb out @ transactions db
    \<and> attempts out \<noteq> [] \<and> rep = report_of dep out symb (sr_signal dec) (sr_bar_source dec)"
proof -
  obtain tick_at v1 ks v2 dec v3 db4 v4 where
    clock: "clock env v = (tick_at, v1)" and
    keys: "decrypt_credential env uid (api_credential_id dep) v1 = (Inr (Some ks), v2)" and
    sig: "compute_signal env dep v2 = (Inr dec, v3)" and
    ins: "sp_ins_intent uid (intent_of dep dec tick_at) (db, v3) = (Inr (), (db4, v4))" and
    sess: "with_session (create_adapter env (app_id dep) ks (is_paper_ind dep = Y))
        (session_body env (create_adapter env (app_id dep) ks (is_paper_ind dep = Y)) uid dep dec tick_at)
        (db4, v4) = (Inr rep, (db', v'))"
    using live_run_returns [OF assms(2)] by blast
  let ?br = "create_adapter env (app_id dep) ks (is_paper_ind dep = Y)"
  have db4: "db4 = db\<lparr>intents := intent_of dep dec tick_at # intents db\<rparr>" and v4: "v4 = v3"
    using ins diary_rows_on_file(1) [OF assms(1), of "intent_of dep dec tick_at" v3] by (simp_all add: intent_of_def)
  obtain w5 v8 where op: "outside (open_session ?br) (db4, v4) = (Inr (), w5)"
    and body: "session_body env ?br uid dep dec tick_at w5 = (Inr rep, (db', v8))"
    using with_session_returns [OF sess] by blast
  obtain v5 where w5: "w5 = (db4, v5)" and opened: "open_session ?br v3 = (Inr (), v5)"
    using op v4 by (auto simp: outside_Inr_iff)
  from body [unfolded w5] obtain symb out v6 v7 where
    symb: "validate_symbol ?br (internal_cusip dep) (app_id dep) v5 = (Inr symb, v6)" and
    run: "execute (order_policy env) (trading ?br) symb (sr_signal dec) (fl (qty dep)) v6 = (Inr out, v7)"
    and rep: "rep = report_of dep out symb (sr_signal dec) (sr_bar_source dec)"
    and rec: "record_outcome env uid dep (sr_signal dec) (fl (qty dep)) tick_at symb out (db4, v7) = (db', v8)"
    by (auto simp: session_body_def bindC_Inr_iff outside_Inr_iff)
  have cyc: "cycle_run env uid dep v tick_at dec symb out"
    unfolding cycle_run_def using clock keys sig opened symb run by blast
  have "attempts out \<noteq> []"
    using attempt_loop_result [OF run [unfolded execute_def]] by (auto simp: well_formed_outcome_def)
  with record_outcome_on_file [OF _ rec] assms(1) rep db4 cyc show ?thesis
    by (intro exI [of _ tick_at] exI [of _ dec] exI [of _ out] exI [of _ symb]) simp
qed

section \<open>Properties\<close>

text \<open>C26: No order without a recorded intent. Whatever the database, the exchange and the other
  services do, and however the cycle ends, either it records no intent and makes no trading call at
  all, or it appends exactly one intent, for this deployment version and with the target quantity
  of the signal it records, and the trading calls it makes are none or those of a single run of the
  executor on that signal, sized by the deployment, at the deployment's broker and environment.\<close>

theorem no_order_without_intent:
  assumes "live_run (logged_env env) uid dep (db, (v, [])) = (x, (db', (v', es)))"
  shows "(intents db' = intents db \<and> es = [])
    \<or> (\<exists>i. intents db' = i # intents db \<and> int_deployment_id i = deployment_id dep
        \<and> int_deployment_vid i = deployment_vid dep
        \<and> target_qty i = target_quantity (signal_value i) (qty dep)
        \<and> (es = [] \<or> (\<exists>ks symb u. es = broker_log (order_policy env)
             (trading (create_adapter env (app_id dep) ks (is_paper_ind dep = Y))) symb (signal_value i) (fl (qty dep)) u)))"
  using live_run_log [OF assms] by (simp add: cycle_ok_def traded_def)

text \<open>C6: The diary is complete. On a database that answers, a cycle that returns a report took
  the clock's time, the user's decrypted keys, the deployment's signal and the symbol the venue
  confirmed, and ran the executor once on that signal and the deployment's size with the broker
  those keys open, each step in the state the one before left. It leaves one intent and one
  execution event per attempt of that run, in order, with the position the attempt read and both
  stamped with that clock time, and one transaction exactly when that run's order succeeded with a
  filled quantity on a side; the report is that run's outcome.\<close>

theorem live_apply_diary:
  assumes "on_file uid dep db" and "live_run env uid dep (db, v) = (Inr rep, (db', v'))"
  shows "\<exists>tick_at v1 ks v2 dec v3 br v4 symb v5 out v6.
      clock env v = (tick_at, v1)
    \<and> decrypt_credential env uid (api_credential_id dep) v1 = (Inr (Some ks), v2)
    \<and> compute_signal env dep v2 = (Inr dec, v3)
    \<and> br = create_adapter env (app_id dep) ks (is_paper_ind dep = Y)
    \<and> open_session br v3 = (Inr (), v4)
    \<and> validate_symbol br (internal_cusip dep) (app_id dep) v4 = (Inr symb, v5)
    \<and> execute (order_policy env) (trading br) symb (sr_signal dec) (fl (qty dep)) v5 = (Inr out, v6)
    \<and> intents db' = intent_of dep dec tick_at # intents db
    \<and> execution_events db'
        = rev (map (event_of dep (sr_signal dec) (fl (qty dep)) tick_at) (attempts out)) @ execution_events db
    \<and> transactions db' = fills_of env dep symb out @ transactions db
    \<and> attempts out \<noteq> [] \<and> rep = report_of dep out symb (sr_signal dec) (sr_bar_source dec)"
  using live_run_diary [OF assms] unfolding cycle_run_def by (elim exE conjE) (intro exI conjI; assumption)

text \<open>A long signal on a flat book, at a venue that fills at once.\<close>

definition demo_fill :: order_result where
  "demo_fill = (mk_result True (Some ''o1'') ''order filled'')\<lparr>filled_qty := Some (Fin 1)\<rparr>"

definition demo_broker :: "unit live_broker" where
  "demo_broker =
     \<lparr>open_session = returnC (), close_session = id, validate_symbol = (\<lambda>cusip app. returnC cusip),
      trading = \<lparr>get_position_qty = (\<lambda>symb. returnC (Fin 0)), place_order = (\<lambda>req. returnC (Some demo_fill)),
                 cancel_order = (\<lambda>oid symb. returnC (mk_result True (Some oid) ''order canceled''))\<rparr>\<rparr>"

definition demo_env :: "unit apply_env" where
  "demo_env =
     \<lparr>clock = (\<lambda>v. (120, v)), row_limits = (\<lambda>d. returnC None), app_registered = (\<lambda>i. True),
      decrypt_credential = (\<lambda>u i. returnC (Some (''key'', ''secret''))),
      strategy_config = (\<lambda>i n. returnC (Some [(''tm_interval_id'', JInt 5)])),
      result_payload = (\<lambda>i n. returnC JNull),
      app_ids = (\<lambda>name. if name = ''bybit'' then Some 4 else None), has_price_bars = True,
      latest_position = (\<lambda>c p b. returnC (Fin 1, 60)),
      create_adapter = (\<lambda>i ks paper. demo_broker),
      product_ccy = (\<lambda>c. None), fallback_ccy = ''USDT'',
      order_policy = \<lparr>max_attempts = 2, backoff_s = Fin 1\<rparr>,
      send_alert = (\<lambda>dep out symb signal lot v. v)\<rparr>"

lemma demo_signal:
  "compute_signal demo_env demo_deployment v =
     (Inr \<lparr>sr_signal = Fin 1, sr_bar_source = ''price_bar:bybit'', sr_bar_timestamp = 60, sr_interval = 5\<rparr>, v)"
proof -
  have "resolve_signal_source (app_ids demo_env) True 4 (Some 5) 5 what =
      Inr \<lparr>src_loader = VenueBars 5, src_label = ''price_bar:bybit'', src_interval = 5\<rparr>" for what
    by (simp add: resolve_signal_source_def exchange_id_for_app_def preset_for_app_def ccxt_apps_def
        ccxt_presets_def demo_env_def bybit_preset_def List.map_filter_def)
  then show ?thesis
    by (simp add: compute_signal_def demo_env_def demo_deployment_def raise_or_def fitted_interval_id_def
        evaluated_def bindC_def)
qed

lemma demo_execute:
  "execute (order_policy demo_env) (trading demo_broker) symb (Fin 1) (fl 1) v =
     (Inr (outcome_of (order_policy demo_env) BUY (Fin 0) (Some demo_fill)
             [mk_attempt BUY (Fin 0) (Some demo_fill)]), v)"
proof -
  have "intended_action (Fin 1) (Fin 0) = Inr BUY" "fl 1 = Fin 1"
    by code_simp+
  then show ?thesis
    by (simp add: execute_def demo_env_def demo_broker_def numeral_2_eq_2 attempt_once_def bindC_def
        order_for_def demo_fill_def Let_def)
qed

lemma demo_on_file: "on_file 1 demo_deployment demo_db"
  by (simp add: on_file_def demo_db_def demo_deployment_def deployment_version_def open_deployment_def)

lemma demo_live_run: "\<exists>rep db'. live_run demo_env 1 demo_deployment (demo_db, ()) = (Inr rep, (db', ()))"
proof -
  let ?dec = "\<lparr>sr_signal = Fin 1, sr_bar_source = ''price_bar:bybit'', sr_bar_timestamp = 60, sr_interval = 5\<rparr>"
  have ins: "sp_ins_intent 1 (intent_of demo_deployment ?dec 120) (demo_db, ())
      = (Inr (), (demo_db\<lparr>intents := intent_of demo_deployment ?dec 120 # intents demo_db\<rparr>, ()))"
    by (rule diary_rows_on_file(1) [OF demo_on_file]) (simp_all add: intent_of_def)
  have env: "clock demo_env v = (120, v)" "app_registered demo_env i"
    "decrypt_credential demo_env u i = returnC (Some (''key'', ''secret''))"
    "create_adapter demo_env i ks paper = demo_broker" for v i u ks paper
    by (simp_all add: demo_env_def)
  have br: "open_session demo_broker = returnC ()" "validate_symbol demo_broker c i = returnC c" for c i
    by (simp_all add: demo_broker_def)
  have q: "qty demo_deployment = 1"
    by (simp add: demo_deployment_def)
  show ?thesis
    by (simp add: live_run_def with_session_def session_body_def bindC_def outside_def returning_def
        env br ins demo_signal demo_execute q Let_def del: bindC_Inl bindC_Inr One_nat_def split: prod.splits)
qed

theorem live_apply_diary_witness:
  "\<exists>rep db' i es ts. live_run demo_env 1 demo_deployment (demo_db, ()) = (Inr rep, (db', ()))
     \<and> intents db' = [i] \<and> execution_events db' = es \<and> es \<noteq> [] \<and> transactions db' = ts"
proof -
  obtain rep db' where run: "live_run demo_env 1 demo_deployment (demo_db, ()) = (Inr rep, (db', ()))"
    using demo_live_run by blast
  from live_apply_diary [OF demo_on_file run] run show ?thesis
    by (auto simp: demo_db_def)
qed

theorem no_order_without_intent_witness:
  "\<exists>x db' es. live_run (logged_env demo_env) 1 demo_deployment (demo_db, ((), [])) = (x, (db', ((), es)))
     \<and> length (intents db') \<le> 1 \<and> (intents db' = [] \<longrightarrow> es = [])"
proof -
  obtain x db' v' es where "live_run (logged_env demo_env) 1 demo_deployment (demo_db, ((), [])) = (x, (db', (v', es)))"
    by (metis surj_pair)
  with no_order_without_intent [of demo_env 1 demo_deployment demo_db "()" x db' v' es] show ?thesis
    by (auto simp: demo_db_def)
qed

end
