(* ===== verification/Signals.thy ===== *)
theory Signals
  imports PyFloat
begin

text \<open>
  The trading signals and their combination (\<open>quant/strategy/signals.py\<close>): indicator series to
  position series, and the AND, OR and FILTER combination of the positions of several factors.

  A numpy array of one dimension is a list of doubles, one of two dimensions the list of its
  rows. The array operations the code uses are elementwise, so they are maps over the lists; the
  two that can refuse their arguments (stacking columns of different lengths, a boolean index of
  the wrong length) return the exception numpy raises.
\<close>

section \<open>Arrays\<close>

type_synonym series = "flt list"

text \<open>\<open>np.sign\<close>, and \<open>x != 0\<close>, which holds of a NaN.\<close>

fun np_sign :: "flt \<Rightarrow> flt" where
  "np_sign (Fin q) = Fin (sgn q)"
| "np_sign PosInf = Fin 1"
| "np_sign NegInf = Fin (- 1)"
| "np_sign NaN = NaN"

definition np_nonzero :: "flt \<Rightarrow> bool" where
  "np_nonzero x = (x \<noteq> Fin 0)"

definition any_nan :: "series \<Rightarrow> bool" where
  "any_nan xs = (NaN \<in> set xs)"

text \<open>\<open>position[np.isnan(data)] = np.nan\<close>.\<close>

definition mask_nan :: "series \<Rightarrow> series \<Rightarrow> series" where
  "mask_nan data position = map2 (\<lambda>x p. if x = NaN then NaN else p) data position"

text \<open>\<open>np.column_stack\<close> of arrays of one dimension: the rows of the matrix.\<close>

definition aligned :: "nat \<Rightarrow> 'a list list \<Rightarrow> bool" where
  "aligned n xss = list_all (\<lambda>xs. length xs = n) xss"

definition rows_of :: "nat \<Rightarrow> 'a list list \<Rightarrow> 'a list list" where
  "rows_of n xss = map (\<lambda>i. map (\<lambda>xs. xs ! i) xss) [0..<n]"

definition column_stack :: "series list \<Rightarrow> py_exn + series list" where
  "column_stack xss =
     (case xss of
        [] \<Rightarrow> Inl (ValueError ''need at least one array to concatenate'')
      | xs # rest \<Rightarrow>
          (case find (\<lambda>(i, ys). length ys \<noteq> length xs) (enumerate 1 rest) of
             None \<Rightarrow> Inr (rows_of (length xs) xss)
           | Some (i, ys) \<Rightarrow>
               Inl (ValueError (''all the input array dimensions except for the concatenation axis must match exactly, but along dimension 0, the array at index 0 has size ''
                 @ nat_str (length xs) @ '' and the array at index '' @ nat_str i @ '' has size ''
                 @ nat_str (length ys)))))"

lemma column_stack_aligned:
  assumes "xss \<noteq> []" and "aligned n xss"
  shows "column_stack xss = Inr (rows_of n xss)"
proof -
  obtain xs rest where xss: "xss = xs # rest" using assms(1) by (cases xss) auto
  have "find (\<lambda>(i, ys). length ys \<noteq> length xs) (enumerate 1 rest) = None"
    using assms(2) by (auto simp: xss aligned_def find_None_iff list_all_iff in_set_enumerate_eq)
  then show ?thesis using assms(2) by (simp add: column_stack_def xss aligned_def)
qed

lemma column_stack_Inr:
  assumes "column_stack xss = Inr rows"
  obtains n where "xss \<noteq> []" "aligned n xss" "rows = rows_of n xss"
proof -
  obtain xs rest where xss: "xss = xs # rest" using assms by (cases xss) (auto simp: column_stack_def)
  have none: "find (\<lambda>(i, ys). length ys \<noteq> length xs) (enumerate 1 rest) = None"
    using assms by (auto simp: column_stack_def xss split: option.splits)
  have same: "length ys = length xs" if "ys \<in> set rest" for ys
  proof -
    obtain k where "k < length rest" "rest ! k = ys" using \<open>ys \<in> set rest\<close> by (meson in_set_conv_nth)
    then have "(1 + k, ys) \<in> set (enumerate 1 rest)" by (auto simp: in_set_enumerate_eq)
    with none show ?thesis by (fastforce simp: find_None_iff)
  qed
  have "aligned (length xs) xss" using same by (auto simp: xss aligned_def list_all_iff)
  moreover have "rows = rows_of (length xs) xss"
    using assms none by (simp add: column_stack_def xss)
  ultimately show thesis using that xss by blast
qed

text \<open>\<open>np.argmax\<close> of a row: the first largest value, or the first NaN; rows here are not empty.\<close>

fun argmax_from :: "nat \<Rightarrow> nat \<Rightarrow> flt \<Rightarrow> series \<Rightarrow> nat" where
  "argmax_from i b bx [] = b"
| "argmax_from i b bx (x # xs) =
     (if bx \<noteq> NaN \<and> (x = NaN \<or> flt_lt bx x) then argmax_from (Suc i) i x xs
      else argmax_from (Suc i) b bx xs)"

definition np_argmax :: "series \<Rightarrow> nat" where
  "np_argmax xs = (case xs of [] \<Rightarrow> 0 | x # rest \<Rightarrow> argmax_from 1 0 x rest)"

text \<open>\<open>base[mask] = values\<close>.\<close>

fun mask_assign :: "bool list \<Rightarrow> 'a list \<Rightarrow> 'a list \<Rightarrow> 'a list" where
  "mask_assign (True # ms) (v # vs) (x # xs) = v # mask_assign ms vs xs"
| "mask_assign (False # ms) vs (x # xs) = x # mask_assign ms vs xs"
| "mask_assign ms vs xs = xs"

definition select :: "bool list \<Rightarrow> 'a list \<Rightarrow> 'a list" where
  "select rows xs = map fst (filter snd (zip xs rows))"

section \<open>Conviction\<close>

text \<open>\<open>bisect.bisect_right\<close> and \<open>bisect.insort\<close>.\<close>

function bisect_loop :: "series \<Rightarrow> flt \<Rightarrow> nat \<Rightarrow> nat \<Rightarrow> nat" where
  "bisect_loop a x lo hi =
     (if lo < hi then
        (let mid = (lo + hi) div 2
         in if flt_lt x (a ! mid) then bisect_loop a x lo mid else bisect_loop a x (Suc mid) hi)
      else lo)"
  by pat_completeness auto
termination by (relation "measure (\<lambda>(a, x, lo, hi). hi - lo)") auto

declare bisect_loop.simps [simp del]

definition bisect_right :: "series \<Rightarrow> flt \<Rightarrow> nat" where
  "bisect_right a x = bisect_loop a x 0 (length a)"

definition insort :: "series \<Rightarrow> flt \<Rightarrow> series" where
  "insort a x = (let i = bisect_right a x in take i a @ x # drop i a)"

text \<open>The percentile rank of each reading among the readings so far, and its distance from the median.\<close>

fun rank_column :: "series \<Rightarrow> series \<Rightarrow> series" where
  "rank_column seen [] = []"
| "rank_column seen (v # col) =
     (if v = NaN then Fin (1 / 2) # rank_column seen col
      else let seen' = insort seen v
           in (if length seen' \<le> 1 then Fin (1 / 2)
               else fl (of_nat (bisect_right seen' v) / of_nat (length seen')))
              # rank_column seen' col)"

definition from_median :: "flt \<Rightarrow> flt" where
  "from_median p = flt_abs (flt_sub p (Fin (1 / 2)))"

definition conviction :: "series list \<Rightarrow> py_exn + series list" where
  "conviction strengths =
     bindR (column_stack strengths) (\<lambda>raw.
       column_stack (map (\<lambda>col. map from_median (rank_column [] col)) strengths))"

section \<open>Combining factors\<close>

definition strongest_sign :: "series list \<Rightarrow> series list \<Rightarrow> bool list \<Rightarrow> py_exn + series" where
  "strongest_sign signs cv rows =
     (if length cv \<noteq> length rows
      then Inl (IndexError (''boolean index did not match indexed array along axis 0; size of axis is ''
             @ nat_str (length cv) @ '' but size of corresponding boolean axis is '' @ nat_str (length rows)))
      else
        (let ss = select rows signs; cs = select rows cv
         in case find (\<lambda>(s, c). length c \<noteq> length s \<and> length c \<noteq> 1) (zip ss cs) of
              Some (s, c) \<Rightarrow>
                Inl (ValueError (''operands could not be broadcast together with shapes (''
                  @ nat_str (length ss) @ '','' @ nat_str (length s) @ '') (''
                  @ nat_str (length cs) @ '','' @ nat_str (length c) @ '') () ''))
            | None \<Rightarrow>
                Inr (map2 (\<lambda>s c.
                  let c' = (if length c = length s then c else replicate (length s) (hd c));
                      masked = map2 (\<lambda>x y. if np_nonzero x then y else NegInf) s c'
                  in s ! np_argmax masked) ss cs)))"

definition all_eq :: "flt \<Rightarrow> series \<Rightarrow> bool" where
  "all_eq v row = list_all (\<lambda>x. flt_eq x v) row"

definition any_eq :: "flt \<Rightarrow> series \<Rightarrow> bool" where
  "any_eq v row = list_ex (\<lambda>x. flt_eq x v) row"

definition combine_and :: "series list \<Rightarrow> bool list \<Rightarrow> series list option \<Rightarrow> py_exn + series" where
  "combine_and signs nan_mask cv =
     (let combined = map (\<lambda>r. if all_eq (Fin 1) r then Fin 1
                              else if all_eq (Fin (- 1)) r then Fin (- 1) else Fin 0) signs
      in case cv of
           None \<Rightarrow> Inr combined
         | Some c \<Rightarrow>
             (let disagree = map2 (\<lambda>r n. any_eq (Fin 1) r \<and> any_eq (Fin (- 1)) r
                                        \<and> \<not> any_eq (Fin 0) r \<and> \<not> n) signs nan_mask
              in if list_ex id disagree
                 then bindR (strongest_sign signs c disagree) (\<lambda>vs. Inr (mask_assign disagree vs combined))
                 else Inr combined))"

definition combine_or :: "series list \<Rightarrow> series list option \<Rightarrow> py_exn + series" where
  "combine_or signs cv =
     (let pos = map (any_eq (Fin 1)) signs; negs = map (any_eq (Fin (- 1))) signs;
          conflict = map2 (\<and>) pos negs;
          combined = map2 (\<lambda>(p, c) n. if p \<and> \<not> c then Fin 1 else if n \<and> \<not> c then Fin (- 1) else Fin 0)
                       (zip pos conflict) negs
      in case cv of
           Some c \<Rightarrow>
             if list_ex id conflict
             then bindR (strongest_sign signs c conflict) (\<lambda>vs. Inr (mask_assign conflict vs combined))
             else Inr (map2 (\<lambda>k x. if k then Fin 1 else x) conflict combined)
         | None \<Rightarrow> Inr (map2 (\<lambda>k x. if k then Fin 1 else x) conflict combined))"

definition combine_filter ::
  "nat \<Rightarrow> series list \<Rightarrow> series list \<Rightarrow> bool list \<Rightarrow> series list option \<Rightarrow> py_exn + series" where
  "combine_filter factors stacked signs nan_mask strengths =
     (let gate = map (\<lambda>r. np_nonzero (hd r)) signs
      in if factors = 2 then Inr (map2 (\<lambda>g r. if g then r ! 1 else Fin 0) gate stacked)
         else
           bindR (case strengths of None \<Rightarrow> Inr None
                  | Some ss \<Rightarrow> bindR (conviction (tl ss)) (\<lambda>c. Inr (Some c))) (\<lambda>cv.
           bindR (combine_and (map tl signs) nan_mask cv) (\<lambda>direction.
             Inr (map2 (\<lambda>g d. if g then d else Fin 0) gate direction))))"

definition combine_positions ::
  "series list \<Rightarrow> string \<Rightarrow> series list option \<Rightarrow> py_exn + series" where
  "combine_positions positions conjunction strengths =
     (case positions of
        [] \<Rightarrow> Inl (ValueError ''positions list must not be empty'')
      | [p] \<Rightarrow> Inr p
      | _ \<Rightarrow>
          (let conj = py_upper conjunction
           in if conj \<notin> {''AND'', ''OR'', ''FILTER''}
              then Inl (ValueError (''conjunction must be 'AND', 'OR', or 'FILTER', got ''
                     @ [CHR 0x27] @ conjunction @ [CHR 0x27]))
              else
                bindR (column_stack positions) (\<lambda>stacked.
                  let nan_mask = map any_nan stacked; signs = map (map np_sign) stacked
                  in bindR
                       (if conj = ''FILTER''
                        then combine_filter (length positions) stacked signs nan_mask strengths
                        else
                          bindR (case strengths of None \<Rightarrow> Inr None
                                 | Some ss \<Rightarrow> bindR (conviction ss) (\<lambda>c. Inr (Some c))) (\<lambda>cv.
                            if conj = ''AND'' then combine_and signs nan_mask cv
                            else combine_or signs cv))
                       (\<lambda>combined. Inr (map2 (\<lambda>n x. if n then NaN else x) nan_mask combined)))))"

section \<open>The rank of a reading among those so far\<close>

definition ordered :: "series \<Rightarrow> bool" where
  "ordered a \<longleftrightarrow> sorted_wrt (\<lambda>x y. \<not> flt_lt y x) a \<and> NaN \<notin> set a"

definition count_le :: "flt \<Rightarrow> series \<Rightarrow> nat" where
  "count_le x a = length (filter (\<lambda>s. \<not> flt_lt x s) a)"

text \<open>Sorted as \<open>bisect\<close> keeps it; how many of the readings are at most a given one.\<close>

lemma flt_lt_le_trans: "flt_lt x a \<Longrightarrow> \<not> flt_lt b a \<Longrightarrow> b \<noteq> NaN \<Longrightarrow> flt_lt x b"
  by (cases x; cases a; cases b) auto

lemma ordered_nth:
  assumes "ordered a" and "i \<le> j" and "j < length a"
  shows "\<not> flt_lt (a ! j) (a ! i)"
  using assms by (cases "i = j") (auto simp: ordered_def sorted_wrt_iff_nth_less)

lemma ordered_not_NaN: "ordered a \<Longrightarrow> k < length a \<Longrightarrow> a ! k \<noteq> NaN"
  by (metis nth_mem ordered_def)

lemma bisect_loop_splits:
  assumes "ordered a" and "lo \<le> hi" and "hi \<le> length a"
    and "\<forall>k < lo. \<not> flt_lt x (a ! k)" and "\<forall>k. hi \<le> k \<and> k < length a \<longrightarrow> flt_lt x (a ! k)"
  shows "bisect_loop a x lo hi \<le> length a
    \<and> (\<forall>k < bisect_loop a x lo hi. \<not> flt_lt x (a ! k))
    \<and> (\<forall>k. bisect_loop a x lo hi \<le> k \<and> k < length a \<longrightarrow> flt_lt x (a ! k))"
  using assms
proof (induction a x lo hi rule: bisect_loop.induct)
  case (1 a x lo hi)
  show ?case
  proof (cases "lo < hi")
    case False
    with "1.prems" show ?thesis by (subst (1 2 3) bisect_loop.simps) auto
  next
    case True
    define mid where "mid = (lo + hi) div 2"
    have mid: "lo \<le> mid" "mid < hi" using True by (auto simp: mid_def)
    have here: "bisect_loop a x lo hi =
        (if flt_lt x (a ! mid) then bisect_loop a x lo mid else bisect_loop a x (Suc mid) hi)"
      using True by (subst bisect_loop.simps) (simp add: mid_def)
    show ?thesis
    proof (cases "flt_lt x (a ! mid)")
      case below: True
      have "flt_lt x (a ! k)" if "mid \<le> k" "k < length a" for k
        using flt_lt_le_trans [OF below ordered_nth [OF "1.prems"(1) that]
            ordered_not_NaN [OF "1.prems"(1) that(2)]] .
      moreover from mid "1.prems"(3) have "lo \<le> mid" "mid \<le> length a" by simp_all
      ultimately show ?thesis
        unfolding here if_P [OF below]
        using "1.IH"(1) [OF True mid_def below "1.prems"(1)] "1.prems"(4) by blast
    next
      case above: False
      have "\<not> flt_lt x (a ! k)" if "k < Suc mid" for k
        using flt_lt_le_trans [of x "a ! k" "a ! mid"] ordered_nth [OF "1.prems"(1), of k mid]
          ordered_not_NaN [OF "1.prems"(1), of mid] that above mid "1.prems"(3) by auto
      moreover from mid have "Suc mid \<le> hi" by simp
      ultimately show ?thesis
        unfolding here if_not_P [OF above]
        using "1.IH"(2) [OF True mid_def above "1.prems"(1)] "1.prems"(3,5) by blast
    qed
  qed
qed

lemma bisect_right_splits:
  assumes "ordered a"
  shows "bisect_right a x \<le> length a"
    and "\<And>s. s \<in> set (take (bisect_right a x) a) \<Longrightarrow> \<not> flt_lt x s"
    and "\<And>s. s \<in> set (drop (bisect_right a x) a) \<Longrightarrow> flt_lt x s"
proof -
  let ?n = "bisect_right a x"
  have "\<forall>k < 0. \<not> flt_lt x (a ! k)" and "\<forall>k. length a \<le> k \<and> k < length a \<longrightarrow> flt_lt x (a ! k)"
    by simp (meson leD)
  note main = bisect_loop_splits [OF assms le0 order.refl this, folded bisect_right_def]
  have n: "?n \<le> length a" and lo: "\<And>k. k < ?n \<Longrightarrow> \<not> flt_lt x (a ! k)"
    and hi: "\<And>k. ?n \<le> k \<Longrightarrow> k < length a \<Longrightarrow> flt_lt x (a ! k)"
    using main by blast+
  show "?n \<le> length a" by (rule n)
  show "\<not> flt_lt x s" if "s \<in> set (take ?n a)" for s
    using that lo by (auto simp: in_set_conv_nth)
  show "flt_lt x s" if "s \<in> set (drop ?n a)" for s
    using that hi by (auto simp: in_set_conv_nth)
qed

lemma bisect_right_count:
  assumes "ordered a"
  shows "bisect_right a x = count_le x a"
proof -
  let ?n = "bisect_right a x"
  have "count_le x a = count_le x (take ?n a) + count_le x (drop ?n a)"
    unfolding count_le_def by (metis append_take_drop_id filter_append length_append)
  moreover have "filter (\<lambda>s. \<not> flt_lt x s) (take ?n a) = take ?n a"
    using bisect_right_splits(2) [OF assms] by (simp add: filter_id_conv)
  moreover have "filter (\<lambda>s. \<not> flt_lt x s) (drop ?n a) = []"
    using bisect_right_splits(3) [OF assms] by (simp add: filter_empty_conv)
  ultimately show ?thesis
    using bisect_right_splits(1) [OF assms] by (simp add: count_le_def)
qed

lemma length_insort [simp]: "length (insort a x) = Suc (length a)" if "ordered a"
  using bisect_right_splits(1) [OF that, of x] by (simp add: insort_def Let_def)

lemma count_le_insort: "count_le y (insort a x) = count_le y [x] + count_le y a"
proof -
  have "count_le y a = count_le y (take i a) + count_le y (drop i a)" for i
    unfolding count_le_def by (metis append_take_drop_id filter_append length_append)
  from this [of "bisect_right a x"] show ?thesis by (simp add: insort_def count_le_def Let_def)
qed

lemma ordered_insort:
  assumes "ordered a" and "x \<noteq> NaN"
  shows "ordered (insort a x)"
proof -
  let ?n = "bisect_right a x"
  have srt: "sorted_wrt (\<lambda>x y. \<not> flt_lt y x) (take ?n a @ drop ?n a)" and "NaN \<notin> set a"
    using assms(1) by (simp_all add: ordered_def)
  then have "\<forall>s \<in> set (take ?n a). \<forall>t \<in> set (drop ?n a). \<not> flt_lt t s"
    unfolding sorted_wrt_append by blast
  with srt \<open>NaN \<notin> set a\<close> bisect_right_splits(2,3) [OF assms(1), of _ x] assms(2) show ?thesis
    unfolding insort_def ordered_def Let_def sorted_wrt_append
    by (auto simp: sorted_wrt_take sorted_wrt_drop dest: in_set_takeD in_set_dropD flt_lt_asym)
qed

definition seen_upto :: "series \<Rightarrow> nat \<Rightarrow> series" where
  "seen_upto col i = filter (\<lambda>v. v \<noteq> NaN) (take (Suc i) col)"

definition percentile_rank :: "series \<Rightarrow> nat \<Rightarrow> flt" where
  "percentile_rank col i =
     (let seen = seen_upto col i
      in if col ! i = NaN \<or> length seen \<le> 1 then Fin (1 / 2)
         else fl (of_nat (count_le (col ! i) seen) / of_nat (length seen)))"

lemma length_rank_column [simp]: "length (rank_column seen col) = length col"
  by (induction seen col rule: rank_column.induct) (auto simp: Let_def)

lemma rank_column_nth:
  assumes "ordered seen" and "i < length col"
  shows "rank_column seen col ! i =
     (let past = seen @ seen_upto col i
      in if col ! i = NaN \<or> length past \<le> 1 then Fin (1 / 2)
         else fl (of_nat (count_le (col ! i) past) / of_nat (length past)))"
  using assms
proof (induction seen col arbitrary: i rule: rank_column.induct)
  case (2 seen v col)
  show ?case
  proof (cases "v = NaN")
    case True
    with "2.prems" "2.IH"(1) [OF True] show ?thesis
      by (cases i) (simp_all add: seen_upto_def Let_def)
  next
    case False
    have ord: "ordered (insort seen v)" using "2.prems"(1) False by (rule ordered_insort)
    show ?thesis
    proof (cases i)
      case 0
      with False "2.prems"(1) show ?thesis
        by (simp add: seen_upto_def bisect_right_count [OF ord] count_le_insort Let_def)
          (simp add: count_le_def)
    next
      case (Suc j)
      have "rank_column (insort seen v) col ! j =
         (let past = insort seen v @ seen_upto col j
          in if col ! j = NaN \<or> length past \<le> 1 then Fin (1 / 2)
             else fl (of_nat (count_le (col ! j) past) / of_nat (length past)))"
        using "2.IH"(2) [OF False refl ord] "2.prems"(2) Suc by simp
      moreover have "count_le x (insort seen v @ seen_upto col j) = count_le x (seen @ seen_upto (v # col) i)" for x
        using count_le_insort [of x seen v] False Suc by (simp add: count_le_def seen_upto_def)
      ultimately show ?thesis
        using False Suc "2.prems"(1) by (simp add: Let_def seen_upto_def)
    qed
  qed
qed simp

lemma rank_column_percentile: "i < length col \<Longrightarrow> rank_column [] col ! i = percentile_rank col i"
  using rank_column_nth [of "[]" i col] by (simp add: ordered_def percentile_rank_def Let_def)

lemma percentile_rank_take: "i < k \<Longrightarrow> percentile_rank (take k col) i = percentile_rank col i"
  by (simp add: percentile_rank_def seen_upto_def min_def Let_def)

text \<open>The conviction of every factor at one bar.\<close>

definition conviction_at :: "series list \<Rightarrow> nat \<Rightarrow> series" where
  "conviction_at strengths i = map (\<lambda>col. from_median (percentile_rank col i)) strengths"

lemma conviction_rows:
  assumes "strengths \<noteq> []" and "aligned n strengths"
  shows "conviction strengths = Inr (map (conviction_at strengths) [0..<n])"
proof -
  have al: "aligned n (map (\<lambda>col. map from_median (rank_column [] col)) strengths)"
    using assms(2) by (simp add: aligned_def list_all_iff)
  have "rows_of n (map (\<lambda>col. map from_median (rank_column [] col)) strengths)
      = map (conviction_at strengths) [0..<n]"
    using assms(2)
    by (auto simp: rows_of_def conviction_at_def aligned_def list_all_iff rank_column_percentile)
  with column_stack_aligned [OF _ al] column_stack_aligned [OF assms] assms(1) show ?thesis
    by (simp add: conviction_def)
qed

section \<open>What the combination of one bar is\<close>

text \<open>The sign of the most convicted factor that is not flat, the first one on a tie.\<close>

definition strongest :: "series \<Rightarrow> series \<Rightarrow> flt" where
  "strongest s c = s ! np_argmax (map2 (\<lambda>x y. if np_nonzero x then y else NegInf) s c)"

definition and_row :: "series \<Rightarrow> series option \<Rightarrow> flt" where
  "and_row s c =
     (if all_eq (Fin 1) s then Fin 1 else if all_eq (Fin (- 1)) s then Fin (- 1)
      else case c of
             Some cs \<Rightarrow> if any_eq (Fin 1) s \<and> any_eq (Fin (- 1)) s \<and> \<not> any_eq (Fin 0) s
                        then strongest s cs else Fin 0
           | None \<Rightarrow> Fin 0)"

definition or_row :: "series \<Rightarrow> series option \<Rightarrow> flt" where
  "or_row s c =
     (if any_eq (Fin 1) s \<and> any_eq (Fin (- 1)) s
      then (case c of Some cs \<Rightarrow> strongest s cs | None \<Rightarrow> Fin 1)
      else if any_eq (Fin 1) s then Fin 1 else if any_eq (Fin (- 1)) s then Fin (- 1) else Fin 0)"

definition combine_row :: "string \<Rightarrow> series \<Rightarrow> series option \<Rightarrow> flt" where
  "combine_row cj row c =
     (let s = map np_sign row
      in if any_nan row then NaN
         else if cj = ''FILTER'' then
           (if \<not> np_nonzero (hd s) then Fin 0
            else if length row = 2 then row ! 1 else and_row (tl s) c)
         else if cj = ''AND'' then and_row s c else or_row s c)"

lemma length_select: "length rows = length xs \<Longrightarrow> length (select rows xs) = length (filter id rows)"
  by (induction rows xs rule: list_induct2) (auto simp: select_def)

lemma zip_select:
  assumes "length rows = length xs" and "length rows = length ys"
  shows "zip (select rows xs) (select rows ys) = select rows (zip xs ys)"
  using assms by (induction rows xs arbitrary: ys rule: list_induct2) (auto simp: select_def Suc_length_conv)

lemma set_select: "set (select rows xs) \<subseteq> set xs"
  by (auto simp: select_def dest: set_zip_leftD)

lemma mask_assign_select:
  assumes "length rows = length xs" and "length rows = length base"
  shows "mask_assign rows (map f (select rows xs)) base
       = map2 (\<lambda>r (x, b). if r then f x else b) rows (zip xs base)"
  using assms
  by (induction rows xs arbitrary: base rule: list_induct2) (auto simp: select_def Suc_length_conv)

lemma mask_assign_none: "\<not> list_ex id rows \<Longrightarrow> length rows = length base \<Longrightarrow> length rows = length xs \<Longrightarrow>
    map2 (\<lambda>r (x, b). if r then f x else b) rows (zip xs base) = base"
  by (auto intro!: nth_equalityI simp: list_ex_iff in_set_conv_nth)

lemma unmarked: "\<not> list_ex id rs \<Longrightarrow> j < length rs \<Longrightarrow> \<not> rs ! j"
  by (metis id_apply list_ex_iff nth_mem)

lemma strongest_sign_rows:
  assumes "length cv = length signs" and "length rows = length signs"
    and "\<forall>(s, c) \<in> set (zip signs cv). length c = length s"
  shows "strongest_sign signs cv rows = Inr (map (\<lambda>(s, c). strongest s c) (select rows (zip signs cv)))"
proof -
  have z: "zip (select rows signs) (select rows cv) = select rows (zip signs cv)"
    using assms by (simp add: zip_select)
  have good: "length c = length s" if "(s, c) \<in> set (select rows (zip signs cv))" for s c
    using that set_select assms(3) by fastforce
  then have "find (\<lambda>(s, c). length c \<noteq> length s \<and> length c \<noteq> 1) (select rows (zip signs cv)) = None"
    by (auto simp: find_None_iff)
  moreover have "map (\<lambda>(s, c).
      let c' = (if length c = length s then c else replicate (length s) (hd c));
          masked = map2 (\<lambda>x y. if np_nonzero x then y else NegInf) s c'
      in s ! np_argmax masked) (select rows (zip signs cv))
    = map (\<lambda>(s, c). strongest s c) (select rows (zip signs cv))"
    using good by (auto simp: strongest_def Let_def)
  ultimately show ?thesis
    using assms(1,2) by (simp add: strongest_sign_def z Let_def)
qed

text \<open>A masked assignment of the strongest signs, or none when no row is selected.\<close>

lemma assign_strongest:
  assumes "length cv = length signs" and "length rows = length signs" and "length base = length signs"
    and "\<forall>(s, c) \<in> set (zip signs cv). length c = length s"
  obtains out where
    "(if list_ex id rows
      then bindR (strongest_sign signs cv rows) (\<lambda>vs. Inr (mask_assign rows vs base)) else Inr base) = Inr out"
    "length out = length signs"
    "\<And>i. i < length signs \<Longrightarrow> out ! i = (if rows ! i then strongest (signs ! i) (cv ! i) else base ! i)"
proof -
  define out where "out = map2 (\<lambda>r (x, b). if r then (\<lambda>(s, c). strongest s c) x else b) rows
      (zip (zip signs cv) base)"
  have "out = base" if "\<not> list_ex id rows"
    using mask_assign_none [OF that, of base "zip signs cv"] assms by (simp add: out_def)
  moreover have "mask_assign rows (map (\<lambda>(s, c). strongest s c) (select rows (zip signs cv))) base = out"
    unfolding out_def using assms by (intro mask_assign_select) simp_all
  ultimately have "(if list_ex id rows
      then bindR (strongest_sign signs cv rows) (\<lambda>vs. Inr (mask_assign rows vs base)) else Inr base) = Inr out"
    using strongest_sign_rows [OF assms(1,2,4)] by simp
  moreover have "length out = length signs" using assms by (simp add: out_def)
  moreover have "out ! i = (if rows ! i then strongest (signs ! i) (cv ! i) else base ! i)"
    if "i < length signs" for i
    using that assms(1-3) by (simp add: out_def)
  ultimately show thesis by (rule that)
qed

lemma combine_and_rows:
  assumes "length nan_mask = length signs"
    and "\<And>c. cv = Some c \<Longrightarrow> length c = length signs \<and> (\<forall>(s, r) \<in> set (zip signs c). length r = length s)"
  obtains out where "combine_and signs nan_mask cv = Inr out" "length out = length signs"
    "\<And>i. i < length signs \<Longrightarrow> \<not> nan_mask ! i \<Longrightarrow>
       out ! i = and_row (signs ! i) (map_option (\<lambda>c. c ! i) cv)"
proof (cases cv)
  case None
  show thesis
    by (rule that [of "map (\<lambda>r. if all_eq (Fin 1) r then Fin 1
                  else if all_eq (Fin (- 1)) r then Fin (- 1) else Fin 0) signs"])
      (simp_all add: None combine_and_def and_row_def)
next
  case (Some c)
  let ?rows = "map2 (\<lambda>r n. any_eq (Fin 1) r \<and> any_eq (Fin (- 1)) r \<and> \<not> any_eq (Fin 0) r \<and> \<not> n)
      signs nan_mask"
  let ?base = "map (\<lambda>r. if all_eq (Fin 1) r then Fin 1
                  else if all_eq (Fin (- 1)) r then Fin (- 1) else Fin 0) signs"
  have "length c = length signs" and "\<forall>(s, r) \<in> set (zip signs c). length r = length s"
    using assms(2) [OF Some] by simp_all
  then obtain out where out: "(if list_ex id ?rows
      then bindR (strongest_sign signs c ?rows) (\<lambda>vs. Inr (mask_assign ?rows vs ?base)) else Inr ?base) = Inr out"
    "length out = length signs"
    "\<And>i. i < length signs \<Longrightarrow> out ! i = (if ?rows ! i then strongest (signs ! i) (c ! i) else ?base ! i)"
    using assms(1) by (elim assign_strongest [of c signs ?rows ?base]) simp_all
  have "\<not> (all_eq (Fin v) s \<and> any_eq (Fin w) s)" if "v \<noteq> w" for v w s
    using that by (auto simp: all_eq_def any_eq_def list_all_iff list_ex_iff flt_eq_def)
  from this [of 1 "- 1"] this [of "- 1" 1] show thesis
    by (intro that [of out]) (auto simp: combine_and_def Some out and_row_def assms(1))
qed

lemma combine_or_rows:
  assumes "\<And>c. cv = Some c \<Longrightarrow> length c = length signs \<and> (\<forall>(s, r) \<in> set (zip signs c). length r = length s)"
  obtains out where "combine_or signs cv = Inr out" "length out = length signs"
    "\<And>i. i < length signs \<Longrightarrow> out ! i = or_row (signs ! i) (map_option (\<lambda>c. c ! i) cv)"
proof -
  let ?pos = "map (any_eq (Fin 1)) signs" and ?neg = "map (any_eq (Fin (- 1))) signs"
  let ?rows = "map2 (\<and>) ?pos ?neg"
  let ?base = "map2 (\<lambda>(p, c) n. if p \<and> \<not> c then Fin 1 else if n \<and> \<not> c then Fin (- 1) else Fin 0)
      (zip ?pos ?rows) ?neg"
  define long where "long = map2 (\<lambda>k x. if k then Fin 1 else x) ?rows ?base"
  have long: "length long = length signs"
    "\<And>i. i < length signs \<Longrightarrow> long ! i = (if any_eq (Fin 1) (signs ! i) then Fin 1
        else if any_eq (Fin (- 1)) (signs ! i) then Fin (- 1) else Fin 0)"
    by (simp_all add: long_def)
  show thesis
  proof (cases cv)
    case None
    then show thesis
      by (intro that [of long]) (auto simp: combine_or_def long_def [symmetric] long or_row_def Let_def)
  next
    case (Some c)
    have "length c = length signs" and "\<forall>(s, r) \<in> set (zip signs c). length r = length s"
      using assms [OF Some] by simp_all
    then obtain out where out: "(if list_ex id ?rows
        then bindR (strongest_sign signs c ?rows) (\<lambda>vs. Inr (mask_assign ?rows vs ?base)) else Inr ?base) = Inr out"
      "length out = length signs"
      "\<And>i. i < length signs \<Longrightarrow> out ! i = (if ?rows ! i then strongest (signs ! i) (c ! i) else ?base ! i)"
      by (elim assign_strongest [of c signs ?rows ?base]) simp_all
    have none: "long = out" if "\<not> list_ex id ?rows"
    proof (rule nth_equalityI)
      fix i assume i: "i < length long"
      have "\<not> (any_eq (Fin 1) (signs ! i) \<and> any_eq (Fin (- 1)) (signs ! i))"
        using unmarked [OF that, of i] i long(1) by simp
      then show "long ! i = out ! i" using i long out(3) [of i] by auto
    qed (simp add: long out)
    have "combine_or signs cv = Inr out"
    proof (cases "list_ex id ?rows")
      case True
      with out(1) show ?thesis by (simp add: combine_or_def Some Let_def)
    next
      case False
      then show ?thesis using none
        by (simp add: combine_or_def Some Let_def long_def [symmetric])
    qed
    then show thesis
      by (rule that) (auto simp: out or_row_def Some)
  qed
qed

section \<open>Positions\<close>

text \<open>What the combination needs from its callers: one array per factor, all of one length.\<close>

definition factor_arrays :: "nat \<Rightarrow> series list \<Rightarrow> series list option \<Rightarrow> bool" where
  "factor_arrays n positions strengths \<longleftrightarrow>
     2 \<le> length positions \<and> aligned n positions \<and>
     (case strengths of None \<Rightarrow> True | Some ss \<Rightarrow> length ss = length positions \<and> aligned n ss)"

definition known_conjunction :: "string \<Rightarrow> bool" where
  "known_conjunction c \<longleftrightarrow> py_upper c \<in> {''AND'', ''OR'', ''FILTER''}"

text \<open>The readings the conviction of a conjunction ranks: FILTER leaves out its gate.\<close>

definition ranked :: "string \<Rightarrow> series list \<Rightarrow> series list" where
  "ranked conjunction ss = (if py_upper conjunction = ''FILTER'' then tl ss else ss)"

definition combined_at :: "series list \<Rightarrow> string \<Rightarrow> series list option \<Rightarrow> nat \<Rightarrow> flt" where
  "combined_at positions conjunction strengths i =
     combine_row (py_upper conjunction) (map (\<lambda>p. p ! i) positions)
       (map_option (\<lambda>ss. conviction_at (ranked conjunction ss) i) strengths)"

lemma length_rows_of [simp]: "length (rows_of n xss) = n"
  by (simp add: rows_of_def)

lemma rows_of_nth [simp]: "i < n \<Longrightarrow> rows_of n xss ! i = map (\<lambda>xs. xs ! i) xss"
  by (simp add: rows_of_def)

lemma conviction_of:
  assumes "aligned n ss" and "ss \<noteq> []" and "\<forall>s \<in> set signs. length s = length ss" and "length signs = n"
  shows "conviction ss = Inr (map (conviction_at ss) [0..<n])"
    and "length (map (conviction_at ss) [0..<n]) = length signs"
    and "\<forall>(s, r) \<in> set (zip signs (map (conviction_at ss) [0..<n])). length r = length s"
  using assms by (auto simp: conviction_rows conviction_at_def in_set_zip)

lemma combine_filter_rows:
  assumes "factor_arrays n positions strengths"
  obtains out where
    "combine_filter (length positions) (rows_of n positions) (map (map np_sign) (rows_of n positions))
       (map any_nan (rows_of n positions)) strengths = Inr out"
    "length out = n"
    "\<And>i. i < n \<Longrightarrow> \<not> any_nan (rows_of n positions ! i) \<Longrightarrow>
       out ! i = combine_row ''FILTER'' (rows_of n positions ! i)
         (map_option (\<lambda>ss. conviction_at (tl ss) i) strengths)"
proof (cases "length positions = 2")
  case True
  have gate: "hd (map np_sign (map (\<lambda>p. p ! i) positions)) = np_sign (hd positions ! i)" for i
    using True by (cases positions) auto
  show thesis
    by (rule that [of "map2 (\<lambda>g r. if g then r ! 1 else Fin 0)
          (map (\<lambda>r. np_nonzero (hd r)) (map (map np_sign) (rows_of n positions))) (rows_of n positions)"])
      (simp_all add: True combine_filter_def combine_row_def Let_def del: One_nat_def)
next
  case False
  define signs where "signs = map (map np_sign) (rows_of n positions)"
  have two: "2 \<le> length positions" using assms by (simp add: factor_arrays_def)
  have wide: "\<forall>s \<in> set (map tl signs). length s = length positions - 1"
    by (auto simp: signs_def rows_of_def)
  obtain cv where cv: "(case strengths of None \<Rightarrow> Inr None
        | Some ss \<Rightarrow> bindR (conviction (tl ss)) (\<lambda>c. Inr (Some c))) = Inr cv"
      "cv = map_option (\<lambda>ss. map (conviction_at (tl ss)) [0..<n]) strengths"
    and fits: "\<And>c. cv = Some c \<Longrightarrow> length c = length (map tl signs)
        \<and> (\<forall>(s, r) \<in> set (zip (map tl signs) c). length r = length s)"
  proof (cases strengths)
    case None
    then show thesis using that [of None] by simp
  next
    case (Some ss)
    have ss: "aligned n (tl ss)" "tl ss \<noteq> []" "length (tl ss) = length positions - 1"
      using assms two False Some
      by (cases ss; cases "tl ss"; auto simp: factor_arrays_def aligned_def)+
    have wide': "\<forall>s \<in> set (map tl signs). length s = length (tl ss)"
      using wide ss(3) by simp
    have n: "length (map tl signs) = n" by (simp add: signs_def)
    note conv = conviction_of [OF ss(1,2) wide' n]
    show thesis
      by (rule that [of "Some (map (conviction_at (tl ss)) [0..<n])"])
        (use conv in \<open>simp_all add: Some del: length_map map_eq_conv\<close>)
  qed
  have len: "length (map any_nan (rows_of n positions)) = length (map tl signs)"
    by (simp add: signs_def)
  obtain out where out: "combine_and (map tl signs) (map any_nan (rows_of n positions)) cv = Inr out"
    "length out = n"
    "\<And>i. i < n \<Longrightarrow> \<not> any_nan (rows_of n positions ! i) \<Longrightarrow>
       out ! i = and_row (tl (signs ! i)) (map_option (\<lambda>c. c ! i) cv)"
    by (rule combine_and_rows [OF len fits]) (auto simp: signs_def)
  show thesis
  proof (rule that [of "map2 (\<lambda>g d. if g then d else Fin 0) (map (\<lambda>r. np_nonzero (hd r)) signs) out"])
    show "combine_filter (length positions) (rows_of n positions) (map (map np_sign) (rows_of n positions))
       (map any_nan (rows_of n positions)) strengths
      = Inr (map2 (\<lambda>g d. if g then d else Fin 0) (map (\<lambda>r. np_nonzero (hd r)) signs) out)"
      using False by (simp add: combine_filter_def signs_def [symmetric] cv(1) out(1) Let_def)
  next
    fix i assume "i < n" "\<not> any_nan (rows_of n positions ! i)"
    then show "map2 (\<lambda>g d. if g then d else Fin 0) (map (\<lambda>r. np_nonzero (hd r)) signs) out ! i
      = combine_row ''FILTER'' (rows_of n positions ! i) (map_option (\<lambda>ss. conviction_at (tl ss) i) strengths)"
      using False out(2) out(3) [of i]
      by (simp add: combine_row_def signs_def cv(2) map_tl option.map_comp comp_def Let_def)
  qed (simp add: signs_def out(2))
qed

lemma combine_positions_rows:
  assumes "factor_arrays n positions strengths" and "known_conjunction conjunction"
  shows "combine_positions positions conjunction strengths
       = Inr (map (combined_at positions conjunction strengths) [0..<n])"
proof -
  let ?rows = "rows_of n positions" and ?cj = "py_upper conjunction"
  let ?signs = "map (map np_sign) ?rows"
  have two: "2 \<le> length positions" and al: "aligned n positions"
    using assms(1) by (simp_all add: factor_arrays_def)
  obtain p q ps where ps: "positions = p # q # ps"
    using two by (cases positions; cases "tl positions") auto
  have stack: "column_stack positions = Inr ?rows"
    using al by (intro column_stack_aligned) (simp_all add: ps)
  define cv where "cv = map_option (\<lambda>ss. map (conviction_at ss) [0..<n]) strengths"
  have cv: "(case strengths of None \<Rightarrow> Inr None | Some ss \<Rightarrow> bindR (conviction ss) (\<lambda>c. Inr (Some c))) = Inr cv"
    and fits: "\<And>c. cv = Some c \<Longrightarrow> length c = length ?signs
        \<and> (\<forall>(s, r) \<in> set (zip ?signs c). length r = length s)"
  proof -
    have "aligned n ss \<and> ss \<noteq> [] \<and> length ss = length positions" if "strengths = Some ss" for ss
      using assms(1) that two by (auto simp: factor_arrays_def)
    then show "(case strengths of None \<Rightarrow> Inr None | Some ss \<Rightarrow> bindR (conviction ss) (\<lambda>c. Inr (Some c))) = Inr cv"
      by (cases strengths) (simp_all add: cv_def conviction_rows [of _ n])
    show "length c = length ?signs \<and> (\<forall>(s, r) \<in> set (zip ?signs c). length r = length s)" if "cv = Some c" for c
    proof -
      from that obtain ss where ss: "strengths = Some ss" "c = map (conviction_at ss) [0..<n]"
        by (auto simp: cv_def)
      have "aligned n ss" "ss \<noteq> []" "\<forall>s \<in> set ?signs. length s = length ss" "length ?signs = n"
        using assms(1) two ss(1) by (auto simp: factor_arrays_def rows_of_def)
      from conviction_of [OF this] show ?thesis by (simp add: ss(2))
    qed
  qed
  obtain out where out: "(if ?cj = ''FILTER''
      then combine_filter (length positions) ?rows ?signs (map any_nan ?rows) strengths
      else bindR (case strengths of None \<Rightarrow> Inr None | Some ss \<Rightarrow> bindR (conviction ss) (\<lambda>c. Inr (Some c))) (\<lambda>cv.
             if ?cj = ''AND'' then combine_and ?signs (map any_nan ?rows) cv else combine_or ?signs cv)) = Inr out"
    "length out = n"
    "\<And>i. i < n \<Longrightarrow> \<not> any_nan (?rows ! i) \<Longrightarrow> out ! i = combine_row ?cj (?rows ! i)
       (map_option (\<lambda>ss. conviction_at (ranked conjunction ss) i) strengths)"
  proof (cases "?cj = ''FILTER''")
    case True
    show thesis
      by (rule combine_filter_rows [OF assms(1)]) (rule that, simp_all add: True ranked_def)
  next
    case notfilter: False
    have opt: "i < n \<Longrightarrow> map_option (\<lambda>c. c ! i) cv = map_option (\<lambda>ss. conviction_at ss i) strengths" for i
      by (cases strengths) (simp_all add: cv_def)
    show thesis
    proof (cases "?cj = ''AND''")
      case True
      show thesis
        by (rule combine_and_rows [of "map any_nan ?rows" ?signs cv])
          (use fits in \<open>auto intro!: that simp: True cv combine_row_def opt ranked_def Let_def\<close>)
    next
      case False
      show thesis
        by (rule combine_or_rows [of cv ?signs])
          (use fits in \<open>auto intro!: that simp: notfilter False cv combine_row_def opt ranked_def Let_def\<close>)
    qed
  qed
  have "map2 (\<lambda>k x. if k then NaN else x) (map any_nan ?rows) out
      = map (combined_at positions conjunction strengths) [0..<n]"
    using out(2,3)
    by (auto intro!: nth_equalityI simp: combined_at_def) (auto simp: combine_row_def Let_def)
  with out(1) stack assms(2) show ?thesis
    unfolding combine_positions_def ps list.case known_conjunction_def
    by (simp add: Let_def)
qed

section \<open>Signal functions\<close>

text \<open>The methods of \<open>SignalDirection\<close>: a position for every bar of an indicator.\<close>

definition long_only :: "series \<Rightarrow> series" where
  "long_only position = map (\<lambda>p. if flt_lt p (Fin 0) then Fin 0 else p) position"

definition momentum_band_signal :: "series \<Rightarrow> flt \<Rightarrow> series" where
  "momentum_band_signal data signal =
     mask_nan data (map (\<lambda>x. if flt_lt signal x then Fin 1
                             else if flt_lt x (flt_neg signal) then Fin (- 1) else Fin 0) data)"

definition reversion_band_signal :: "series \<Rightarrow> flt \<Rightarrow> series" where
  "reversion_band_signal data signal =
     mask_nan data (map (\<lambda>x. if flt_lt x (flt_neg signal) then Fin 1
                             else if flt_lt signal x then Fin (- 1) else Fin 0) data)"

definition momentum_bounded_signal :: "series \<Rightarrow> flt \<Rightarrow> series" where
  "momentum_bounded_signal data signal =
     (let lower = flt_sub (Fin 100) signal
      in mask_nan data (map (\<lambda>x. if flt_lt signal x then Fin 1
                                 else if flt_lt x lower then Fin (- 1) else Fin 0) data))"

definition reversion_bounded_signal :: "series \<Rightarrow> flt \<Rightarrow> series" where
  "reversion_bounded_signal data signal =
     (let lower = flt_sub (Fin 100) signal
      in mask_nan data (map (\<lambda>x. if flt_lt x lower then Fin 1
                                 else if flt_lt signal x then Fin (- 1) else Fin 0) data))"

definition momentum_band_signal_long_only :: "series \<Rightarrow> flt \<Rightarrow> series" where
  "momentum_band_signal_long_only data signal = long_only (momentum_band_signal data signal)"

definition reversion_band_signal_long_only :: "series \<Rightarrow> flt \<Rightarrow> series" where
  "reversion_band_signal_long_only data signal = long_only (reversion_band_signal data signal)"

definition momentum_bounded_signal_long_only :: "series \<Rightarrow> flt \<Rightarrow> series" where
  "momentum_bounded_signal_long_only data signal = long_only (momentum_bounded_signal data signal)"

definition reversion_bounded_signal_long_only :: "series \<Rightarrow> flt \<Rightarrow> series" where
  "reversion_bounded_signal_long_only data signal = long_only (reversion_bounded_signal data signal)"

datatype signal_func =
    Momentum_band
  | Reversion_band
  | Momentum_bounded
  | Reversion_bounded
  | Momentum_band_long_only
  | Reversion_band_long_only
  | Momentum_bounded_long_only
  | Reversion_bounded_long_only

fun apply_signal :: "signal_func \<Rightarrow> series \<Rightarrow> flt \<Rightarrow> series" where
  "apply_signal Momentum_band = momentum_band_signal"
| "apply_signal Reversion_band = reversion_band_signal"
| "apply_signal Momentum_bounded = momentum_bounded_signal"
| "apply_signal Reversion_bounded = reversion_bounded_signal"
| "apply_signal Momentum_band_long_only = momentum_band_signal_long_only"
| "apply_signal Reversion_band_long_only = reversion_band_signal_long_only"
| "apply_signal Momentum_bounded_long_only = momentum_bounded_signal_long_only"
| "apply_signal Reversion_bounded_long_only = reversion_bounded_signal_long_only"

text \<open>\<open>func.__name__\<close> and \<open>getattr(SignalDirection, name)\<close>, for the names of its signal functions.\<close>

fun func_name :: "signal_func \<Rightarrow> string" where
  "func_name Momentum_band = ''momentum_band_signal''"
| "func_name Reversion_band = ''reversion_band_signal''"
| "func_name Momentum_bounded = ''momentum_bounded_signal''"
| "func_name Reversion_bounded = ''reversion_bounded_signal''"
| "func_name Momentum_band_long_only = ''momentum_band_signal_long_only''"
| "func_name Reversion_band_long_only = ''reversion_band_signal_long_only''"
| "func_name Momentum_bounded_long_only = ''momentum_bounded_signal_long_only''"
| "func_name Reversion_bounded_long_only = ''reversion_bounded_signal_long_only''"

definition signal_funcs :: "signal_func list" where
  "signal_funcs = [Momentum_band, Reversion_band, Momentum_bounded, Reversion_bounded,
     Momentum_band_long_only, Reversion_band_long_only, Momentum_bounded_long_only,
     Reversion_bounded_long_only]"

definition signal_func_of :: "string \<Rightarrow> signal_func option" where
  "signal_func_of name = find (\<lambda>f. func_name f = name) signal_funcs"

definition get_signal_func :: "string \<Rightarrow> py_exn + signal_func" where
  "get_signal_func name =
     (case signal_func_of name of
        Some f \<Rightarrow> Inr f
      | None \<Rightarrow> Inl (AttributeError (''type object 'SignalDirection' has no attribute ''
                  @ [CHR 0x27] @ name @ [CHR 0x27])))"

lemma signal_func_of_name [simp]: "signal_func_of (func_name f) = Some f"
  by (cases f) (simp_all add: signal_func_of_def signal_funcs_def)

lemma get_signal_func_name [simp]: "get_signal_func (func_name f) = Inr f"
  by (simp add: get_signal_func_def)

text \<open>A position is long, flat, short or unknown; a long-only one is never short.\<close>

definition is_position :: "flt \<Rightarrow> bool" where
  "is_position p \<longleftrightarrow> p \<in> {Fin 1, Fin 0, Fin (- 1), NaN}"

lemmas signal_func_defs =
  momentum_band_signal_def reversion_band_signal_def momentum_bounded_signal_def
  reversion_bounded_signal_def momentum_band_signal_long_only_def reversion_band_signal_long_only_def
  momentum_bounded_signal_long_only_def reversion_bounded_signal_long_only_def
  long_only_def mask_nan_def Let_def

lemma length_apply_signal [simp]: "length (apply_signal f data signal) = length data"
  by (cases f) (simp_all add: signal_func_defs)

text \<open>A signal function looks at one reading at a time.\<close>

definition signal_at :: "signal_func \<Rightarrow> flt \<Rightarrow> flt \<Rightarrow> flt" where
  "signal_at f signal x = hd (apply_signal f [x] signal)"

lemma apply_signal_map: "apply_signal f data signal = map (signal_at f signal) data"
  by (cases f) (auto intro!: nth_equalityI simp: signal_func_defs signal_at_def)

lemma signal_at_position: "is_position (signal_at f signal x)"
  by (cases f) (simp_all add: signal_func_defs signal_at_def is_position_def)

lemma signal_at_NaN: "signal_at f signal x = NaN \<longleftrightarrow> x = NaN"
  by (cases f) (simp_all add: signal_func_defs signal_at_def)

text \<open>With a non-negative threshold, reversion is the opposite of momentum.\<close>

lemma reversion_opposes_momentum:
  assumes "flt_le (Fin 0) signal"
  shows "signal_at Reversion_band signal x = flt_neg (signal_at Momentum_band signal x)"
  using assms by (cases signal; cases x) (auto simp: signal_func_defs signal_at_def flt_le_def flt_eq_def)

section \<open>The conflict rule picks a convinced factor\<close>

lemma argmax_from_max:
  assumes "b < i" and "NaN \<notin> set (x # xs)"
  shows "argmax_from i b x xs < i + length xs
    \<and> (argmax_from i b x xs = b \<and> (\<forall>y \<in> set xs. \<not> flt_lt x y)
       \<or> i \<le> argmax_from i b x xs \<and> \<not> flt_lt (xs ! (argmax_from i b x xs - i)) x
         \<and> (\<forall>y \<in> set xs. \<not> flt_lt (xs ! (argmax_from i b x xs - i)) y))"
  using assms
proof (induction xs arbitrary: i b x)
  case (Cons y xs)
  show ?case
  proof (cases "flt_lt x y")
    case True
    have nan: "NaN \<notin> set (y # xs)" and x: "x \<noteq> NaN" using Cons.prems(2) by auto
    have step: "argmax_from i b x (y # xs) = argmax_from (Suc i) i y xs" using True x by simp
    have "flt_lt z x \<Longrightarrow> flt_lt z y" for z using True by (rule flt_lt_trans [rotated])
    with Cons.IH [of i "Suc i" y] nan True show ?thesis
      unfolding step by (auto simp: flt_lt_asym Suc_diff_Suc nth_Cons' dest: flt_lt_asym)
  next
    case False
    then have step: "argmax_from i b x (y # xs) = argmax_from (Suc i) b x xs"
      using Cons.prems(2) by auto
    have "flt_lt z y \<Longrightarrow> flt_lt z x" for z
      using flt_lt_le_trans [of z y x] False Cons.prems(2) by auto
    with Cons.IH [of b "Suc i" x] Cons.prems False show ?thesis
      unfolding step by (auto simp: nth_Cons' dest: flt_lt_asym)
  qed
qed simp

lemma np_argmax_max:
  assumes "xs \<noteq> []" and "NaN \<notin> set xs"
  shows "np_argmax xs < length xs" and "y \<in> set xs \<Longrightarrow> \<not> flt_lt (xs ! np_argmax xs) y"
proof -
  obtain x rest where xs: "xs = x # rest" using assms(1) by (cases xs) auto
  note m = argmax_from_max [of 0 1 x rest]
  show "np_argmax xs < length xs" using m assms(2) by (auto simp: np_argmax_def xs)
  show "\<not> flt_lt (xs ! np_argmax xs) y" if "y \<in> set xs"
    using m assms(2) that by (auto simp: np_argmax_def xs nth_Cons')
qed

text \<open>A conviction is a number between 0 and 1.\<close>

lemma fl_unit: "0 \<le> q \<Longrightarrow> q \<le> 1 \<Longrightarrow> \<exists>r. fl q = Fin r \<and> 0 \<le> r \<and> r \<le> 1"
  using fl_between [of q] by (force dest: spec [of _ 0] spec [of _ 1])

lemma from_median_Fin: "\<exists>r. from_median (Fin p) = Fin r" if "0 \<le> p" "p \<le> 1"
proof -
  have "\<bar>p + - (1 / 2)\<bar> < 2 ^ 53" using that by (simp add: abs_if)
  from fl_between [OF this] show ?thesis
    by (auto simp: from_median_def flt_sub_def)
qed

lemma percentile_rank_unit: "\<exists>p. percentile_rank col i = Fin p \<and> 0 \<le> p \<and> p \<le> 1"
proof -
  have "count_le x a \<le> length a" for x a by (simp add: count_le_def)
  then have "(of_nat (count_le x a) / of_nat (length a) :: rat) \<le> 1" for x a
    by (cases "length a = 0") (simp_all add: divide_le_eq_1)
  then show ?thesis
    using fl_unit [of "of_nat (count_le (col ! i) (seen_upto col i)) / of_nat (length (seen_upto col i))"]
    by (cases "col ! i = NaN \<or> length (seen_upto col i) \<le> 1")
      (simp_all add: percentile_rank_def Let_def exI [of _ "1 / 2"])
qed

lemma conviction_at_Fin: "c \<in> set (conviction_at ss i) \<Longrightarrow> \<exists>r. c = Fin r"
  unfolding conviction_at_def by (metis (no_types, lifting) ex_map_conv from_median_Fin percentile_rank_unit)

lemma strongest_nonflat:
  assumes "length c = length s" and "\<forall>x \<in> set c. \<exists>r. x = Fin r" and "j < length s" and "np_nonzero (s ! j)"
  shows "\<exists>k < length s. strongest s c = s ! k \<and> np_nonzero (s ! k) \<and> \<not> flt_lt (c ! k) (c ! j)"
proof -
  let ?m = "map2 (\<lambda>x y. if np_nonzero x then y else NegInf) s c"
  have nth: "?m ! i = (if np_nonzero (s ! i) then c ! i else NegInf)" if "i < length s" for i
    using that assms(1) by simp
  have len: "length ?m = length s" using assms(1) by simp
  have fin: "\<exists>r. c ! i = Fin r" if "i < length s" for i using assms(1,2) that by simp
  have nan: "NaN \<notin> set ?m"
  proof
    assume "NaN \<in> set ?m"
    then obtain i where i: "i < length s" "?m ! i = NaN" by (metis in_set_conv_nth len)
    with nth [OF i(1)] fin [OF i(1)] show False by (auto split: if_splits)
  qed
  have ne: "?m \<noteq> []" using assms(3) len by (metis length_0_conv less_nat_zero_code)
  define k where "k = np_argmax ?m"
  have k: "k < length s" using np_argmax_max(1) [OF ne nan] len by (simp add: k_def)
  have "?m ! j \<in> set ?m" using assms(3) len by (metis nth_mem)
  then have below: "\<not> flt_lt (?m ! k) (?m ! j)" unfolding k_def by (rule np_argmax_max(2) [OF ne nan])
  then have "np_nonzero (s ! k) \<and> \<not> flt_lt (c ! k) (c ! j)"
    using nth [OF k] nth [OF assms(3)] assms(4) fin [OF assms(3)] by (auto split: if_splits)
  with k show ?thesis by (auto simp: strongest_def k_def)
qed

section \<open>Properties of the combination\<close>

lemma np_sign_position [simp]: "is_position p \<Longrightarrow> np_sign p = p"
  by (auto simp: is_position_def)

lemma map_sign_positions: "\<forall>p \<in> set row. is_position p \<Longrightarrow> map np_sign row = row"
  by (simp add: map_idI)

lemma any_eq_iff: "any_eq v row \<longleftrightarrow> v \<noteq> NaN \<and> v \<in> set row"
  by (auto simp: any_eq_def list_ex_iff flt_eq_def)

lemma all_eq_iff: "all_eq v row \<longleftrightarrow> (\<forall>x \<in> set row. v \<noteq> NaN \<and> x = v)"
  by (auto simp: all_eq_def list_all_iff flt_eq_def)

text \<open>The conflict rule answers with the vote of a factor that is not flat.\<close>

lemma strongest_vote:
  assumes "\<And>cs. c = Some cs \<Longrightarrow> length cs = length s \<and> (\<forall>x \<in> set cs. \<exists>r. x = Fin r)"
    and "c = Some cs" and "Fin 1 \<in> set s"
  shows "strongest s cs \<in> set s \<and> strongest s cs \<noteq> Fin 0"
proof -
  obtain j where "j < length s" "s ! j = Fin 1" using assms(3) by (auto simp: in_set_conv_nth)
  then show ?thesis
    using strongest_nonflat [of cs s j] assms(1) [OF assms(2)] by (auto simp: np_nonzero_def)
qed

lemma and_row_vote:
  assumes "\<And>cs. c = Some cs \<Longrightarrow> length cs = length s \<and> (\<forall>x \<in> set cs. \<exists>r. x = Fin r)" and "s \<noteq> []"
  shows "and_row s c \<in> insert (Fin 0) (set s)"
  using assms(2) strongest_vote [OF assms(1)]
  by (cases s) (auto simp: and_row_def any_eq_iff all_eq_iff split: option.splits)

lemma or_row_vote:
  assumes "\<And>cs. c = Some cs \<Longrightarrow> length cs = length s \<and> (\<forall>x \<in> set cs. \<exists>r. x = Fin r)"
  shows "or_row s c \<in> insert (Fin 0) (set s)"
  using strongest_vote [OF assms]
  by (auto simp: or_row_def any_eq_iff split: option.splits)

lemma combined_at_vote:
  assumes "factor_arrays n positions strengths" and "i < n"
    and "\<forall>p \<in> set positions. is_position (p ! i)"
  shows "combined_at positions c strengths i \<in> insert (Fin 0) ((\<lambda>p. p ! i) ` set positions)
    \<and> (combined_at positions c strengths i = NaN \<longleftrightarrow> (\<exists>p \<in> set positions. p ! i = NaN))"
proof -
  define row where "row = map (\<lambda>p. p ! i) positions"
  have two: "2 \<le> length row" using assms(1) by (simp add: row_def factor_arrays_def)
  then obtain a b rest where row: "row = a # b # rest" by (cases row; cases "tl row") auto
  have sgn: "map np_sign row = row"
    using assms(3) by (intro map_sign_positions) (auto simp: row_def)
  define cv where "cv = map_option (\<lambda>ss. conviction_at (ranked c ss) i) strengths"
  have fin: "\<exists>r. x = Fin r" if "cv = Some cs" "x \<in> set cs" for cs x
    using that conviction_at_Fin by (auto simp: cv_def)
  have len: "length cs = (if py_upper c = ''FILTER'' then length (tl row) else length row)"
    if "cv = Some cs" for cs
    using that assms(1) by (auto simp: cv_def conviction_at_def ranked_def row_def factor_arrays_def)
  have eq: "combined_at positions c strengths i = combine_row (py_upper c) row cv"
    by (simp add: combined_at_def row_def cv_def)
  have "combine_row (py_upper c) row cv \<in> insert (Fin 0) (set row)
    \<and> (combine_row (py_upper c) row cv = NaN \<longleftrightarrow> NaN \<in> set row)"
  proof (cases "any_nan row")
    case True
    then show ?thesis by (simp add: combine_row_def any_nan_def)
  next
    case False
    then have nan: "NaN \<notin> set row" by (simp add: any_nan_def)
    have "combine_row (py_upper c) row cv \<in> insert (Fin 0) (set row)"
    proof (cases "py_upper c = ''FILTER''")
      case True
      have "and_row (tl row) cv \<in> insert (Fin 0) (set (tl row))"
        using fin len True by (intro and_row_vote) (auto simp: row)
      moreover have "set (tl row) \<subseteq> set row" and "hd row \<in> set row" by (auto simp: row)
      moreover have "row ! 1 \<in> set row" by (simp add: row)
      ultimately show ?thesis using False True by (auto simp: combine_row_def sgn Let_def)
    next
      case nf: False
      have "and_row row cv \<in> insert (Fin 0) (set row)"
        using fin len nf by (intro and_row_vote) (auto simp: row)
      moreover have "or_row row cv \<in> insert (Fin 0) (set row)"
        using fin len nf by (intro or_row_vote) auto
      ultimately show ?thesis using False nf by (simp add: combine_row_def sgn Let_def)
    qed
    with nan show ?thesis by auto
  qed
  moreover have "set row = (\<lambda>p. p ! i) ` set positions" by (simp add: row_def)
  moreover have "NaN \<in> set row \<longleftrightarrow> (\<exists>p \<in> set positions. p ! i = NaN)" by (force simp: row_def)
  ultimately show ?thesis by (simp add: eq)
qed

text \<open>C31: Combining positions is well typed and invents nothing. For two or more factors of one
  length whose positions are long, flat, short or unknown, and a conjunction the code knows, the
  combination returns one position per bar; it is unknown exactly where some factor is, and where
  it is not flat it is the position some factor takes at that bar.\<close>

theorem combine_positions_typed:
  assumes "factor_arrays n positions strengths" and "known_conjunction conjunction"
    and "\<forall>p \<in> set positions. \<forall>x \<in> set p. is_position x"
  shows "\<exists>out. combine_positions positions conjunction strengths = Inr out \<and> length out = n
    \<and> (\<forall>i < n. is_position (out ! i)
         \<and> (out ! i = NaN \<longleftrightarrow> (\<exists>p \<in> set positions. p ! i = NaN))
         \<and> (out ! i = Fin 0 \<or> (\<exists>p \<in> set positions. out ! i = p ! i)))"
proof -
  have in_range: "\<forall>p \<in> set positions. is_position (p ! i)" if "i < n" for i
    using assms(1,3) that by (auto simp: factor_arrays_def aligned_def list_all_iff)
  have "is_position (combined_at positions conjunction strengths i)
      \<and> (combined_at positions conjunction strengths i = NaN \<longleftrightarrow> (\<exists>p \<in> set positions. p ! i = NaN))
      \<and> (combined_at positions conjunction strengths i = Fin 0
         \<or> (\<exists>p \<in> set positions. combined_at positions conjunction strengths i = p ! i))" if "i < n" for i
    using combined_at_vote [OF assms(1) that in_range [OF that], of conjunction] in_range [OF that]
    by (auto simp: is_position_def [of "Fin 0"])
  then show ?thesis
    unfolding combine_positions_rows [OF assms(1,2)]
    by (intro exI [of _ "map (combined_at positions conjunction strengths) [0..<n]"] conjI)
      (simp_all del: bex_simps ball_simps)
qed

theorem combine_positions_typed_witness:
  "\<exists>out. combine_positions [[Fin 1, Fin (- 1)], [Fin (- 1), NaN]] ''or'' None = Inr out
     \<and> length out = 2 \<and> is_position (out ! 0)"
proof -
  have "known_conjunction ''or''" by code_simp
  moreover have "factor_arrays 2 [[Fin 1, Fin (- 1)], [Fin (- 1), NaN]] None"
    by (simp add: factor_arrays_def aligned_def)
  ultimately show ?thesis
    using combine_positions_typed [of 2 "[[Fin 1, Fin (- 1)], [Fin (- 1), NaN]]" None "''or''"]
    by (force simp: is_position_def)
qed

text \<open>The first bars of the combination are the combination of the first bars.\<close>

lemma factor_arrays_take:
  "factor_arrays n positions strengths \<Longrightarrow> k \<le> n \<Longrightarrow>
   factor_arrays k (map (take k) positions) (map_option (map (take k)) strengths)"
  by (auto simp: factor_arrays_def aligned_def list_all_iff split: option.splits)

lemma ranked_take: "ranked c (map (take k) ss) = map (take k) (ranked c ss)"
  by (simp add: ranked_def map_tl)

lemma combined_at_take:
  assumes "i < k" shows
  "combined_at (map (take k) positions) c (map_option (map (take k)) strengths) i
   = combined_at positions c strengths i"
  using assms
  by (simp add: combined_at_def comp_def option.map_comp conviction_at_def percentile_rank_take ranked_take)

lemma combine_positions_take:
  assumes "factor_arrays n positions strengths" and "known_conjunction conjunction" and "k \<le> n"
  shows "combine_positions (map (take k) positions) conjunction (map_option (map (take k)) strengths)
       = map_sum id (take k) (combine_positions positions conjunction strengths)"
  using assms
  by (simp add: combine_positions_rows [OF factor_arrays_take] combine_positions_rows take_map take_upt
      combined_at_take)

text \<open>C32: The combination votes by percentile rank. For two or more factors of one length and a
  conjunction the code knows, the array program (masks, boolean assignment, the incremental
  bisection ranks) computes, at every bar, the row decision \<open>combine_row\<close> of that bar's positions:
  AND, OR or gate and AND, where the conviction of a factor is the distance from the median of the
  share of its known readings up to that bar that are at most the current one.\<close>

theorem combine_positions_votes:
  assumes "factor_arrays n positions strengths" and "known_conjunction conjunction"
  shows "combine_positions positions conjunction strengths
       = Inr (map (\<lambda>i. combine_row (py_upper conjunction) (map (\<lambda>p. p ! i) positions)
           (map_option (\<lambda>ss. map (\<lambda>col. from_median (percentile_rank col i)) (ranked conjunction ss))
              strengths)) [0..<n])"
  by (simp add: combine_positions_rows [OF assms] combined_at_def conviction_at_def)

theorem combine_positions_votes_witness:
  "combine_positions [[Fin 1, Fin 1], [Fin 0, Fin (- 1)]] ''AND'' (Some [[Fin 3, Fin 5], [Fin 2, Fin 1]])
     = Inr [Fin 0, Fin 1]"
proof -
  have "known_conjunction ''AND''" by code_simp
  moreover have "factor_arrays 2 [[Fin 1, Fin 1], [Fin 0, Fin (- 1)]] (Some [[Fin 3, Fin 5], [Fin 2, Fin 1]])"
    by (simp add: factor_arrays_def aligned_def)
  ultimately have "combine_positions [[Fin 1, Fin 1], [Fin 0, Fin (- 1)]] ''AND''
      (Some [[Fin 3, Fin 5], [Fin 2, Fin 1]])
    = Inr (map (\<lambda>i. combine_row (py_upper ''AND'') (map (\<lambda>p. p ! i) [[Fin 1, Fin 1], [Fin 0, Fin (- 1)]])
           (map_option (\<lambda>ss. map (\<lambda>col. from_median (percentile_rank col i)) (ranked ''AND'' ss))
              (Some [[Fin 3, Fin 5], [Fin 2, Fin 1]]))) [0..<2])"
    by (rule combine_positions_votes [rotated])
  also have "\<dots> = Inr [Fin 0, Fin 1]" by code_simp
  finally show ?thesis .
qed

end
