(* ===== verification/RefData.thy ===== *)
theory RefData
  imports Intervals
begin

text \<open>
  The catalog and policy snapshots: \<^verbatim>\<open>quant/refdata/publisher.py\<close> writes the tables of
  the schemas \<open>refdata\<close> and \<open>config\<close> to Redis, \<^verbatim>\<open>quant/refdata/reader.py\<close> reads them
  through a cache in the process that a version stamp invalidates.

  Redis is a map from keys to values; a value is the counter of a version stamp or the rows a
  table's JSON text decodes to. A row is a JSON object. What a GET answers is an input of the
  reader, so that a call's two GETs may see different states of Redis: this is where the
  publisher interleaves. A reader serves one thread. The methods that look a row up are
  functions of the two table reads, the record \<open>refdata\<close>.
\<close>

section \<open>Reading rows\<close>

type_synonym row = "(string \<times> json) list"

text \<open>\<open>r[k]\<close>, \<open>r.get(k)\<close> (which is \<open>jget\<close>), \<open>int(v)\<close>, \<open>float(v)\<close>, the truth of \<open>v\<close>.\<close>

definition jitem :: "string \<Rightarrow> row \<Rightarrow> py_exn + json" where
  "jitem k r = (case map_of r k of None \<Rightarrow> Inl (KeyError k) | Some v \<Rightarrow> Inr v)"

definition parse_int :: "string \<Rightarrow> int option" where
  "parse_int text =
     (let s = strip text;
          (neg, ds) = (case s of [] \<Rightarrow> (False, [])
                       | c # r \<Rightarrow> if c = CHR ''-'' then (True, r)
                                  else if c = CHR ''+'' then (False, r) else (False, s))
      in if ds \<noteq> [] \<and> list_all is_digit ds
         then Some (if neg then - int (digits_val ds) else int (digits_val ds)) else None)"

definition int_arg_message :: string where
  "int_arg_message = ''int() argument must be a string, a bytes-like object or a real number''"

fun py_int :: "json \<Rightarrow> py_exn + int" where
  "py_int (JInt i) = Inr i"
| "py_int (JBool b) = Inr (if b then 1 else 0)"
| "py_int (JNum x) =
     (case x of Fin q \<Rightarrow> Inr (py_trunc x)
      | NaN \<Rightarrow> Inl (ValueError ''cannot convert float NaN to integer'')
      | _ \<Rightarrow> Inl (OverflowError ''cannot convert float infinity to integer''))"
| "py_int (JStr s) =
     (case parse_int s of Some i \<Rightarrow> Inr i
      | None \<Rightarrow> Inl (ValueError (''invalid literal for int() with base 10: '' @ py_repr s)))"
| "py_int _ = Inl (TypeError int_arg_message)"

definition float_arg_message :: string where
  "float_arg_message = ''float() argument must be a string or a real number''"

fun py_float_json :: "json \<Rightarrow> py_exn + flt" where
  "py_float_json (JInt i) =
     (case fl (of_int i) of Fin q \<Rightarrow> Inr (Fin q)
      | _ \<Rightarrow> Inl (OverflowError ''int too large to convert to float''))"
| "py_float_json (JBool b) = Inr (Fin (if b then 1 else 0))"
| "py_float_json (JNum x) = Inr x"
| "py_float_json (JStr s) =
     (case parse_float s of Some x \<Rightarrow> Inr x
      | None \<Rightarrow> Inl (ValueError (''could not convert string to float: '' @ py_repr s)))"
| "py_float_json _ = Inl (TypeError float_arg_message)"

fun jtruthy :: "json \<Rightarrow> bool" where
  "jtruthy JNull = False"
| "jtruthy (JBool b) = b"
| "jtruthy (JInt i) = (i \<noteq> 0)"
| "jtruthy (JNum x) = flt_truthy x"
| "jtruthy (JStr s) = (s \<noteq> [])"
| "jtruthy (JArr xs) = (xs \<noteq> [])"
| "jtruthy (JObj d) = (d \<noteq> [])"

text \<open>\<open>str(v)\<close> of a column of type TEXT or INTEGER; no other shape reaches it.\<close>

fun py_str :: "json \<Rightarrow> string" where
  "py_str (JStr s) = s"
| "py_str (JInt i) = int_str i"
| "py_str (JBool b) = (if b then ''True'' else ''False'')"
| "py_str _ = ''None''"

text \<open>The first row a test that may raise accepts: the lookup loop of every method below.\<close>

fun first_row :: "('r \<Rightarrow> py_exn + bool) \<Rightarrow> 'r list \<Rightarrow> py_exn + 'r option" where
  "first_row P [] = Inr None"
| "first_row P (r # rs) = bindR (P r) (\<lambda>hit. if hit then Inr (Some r) else first_row P rs)"

definition has_name :: "string \<Rightarrow> string \<Rightarrow> row \<Rightarrow> py_exn + bool" where
  "has_name k v r = bindR (jitem k r) (\<lambda>x. Inr (x = JStr v))"

definition has_int :: "string \<Rightarrow> int \<Rightarrow> row \<Rightarrow> py_exn + bool" where
  "has_int k i r = bindR (bindR (jitem k r) py_int) (\<lambda>x. Inr (x = i))"

definition int_item :: "string \<Rightarrow> row \<Rightarrow> py_exn + int" where
  "int_item k r = bindR (jitem k r) py_int"

section \<open>Redis and the publisher\<close>

datatype redis_value = RCounter int | RRows "row list"

type_synonym redis = "string \<Rightarrow> redis_value option"

definition cache_key :: "string \<Rightarrow> string \<Rightarrow> string" where
  "cache_key schema table = schema @ '':'' @ table"

definition version_key :: "string \<Rightarrow> string" where
  "version_key schema = schema @ '':version''"

text \<open>
  \<open>publish\<close>: a table that could not be loaded is published empty; keys of tables that are gone
  are deleted; the stamp is incremented; all in one MULTI/EXEC. \<open>INCR\<close> of a missing key is 1.
\<close>

definition snapshot_rows :: "(string \<times> (py_exn + row list)) list \<Rightarrow> (string \<times> row list) list" where
  "snapshot_rows loaded =
     map (\<lambda>(t, r). (t, case r of Inl e \<Rightarrow> [] | Inr rows \<Rightarrow> rows)) loaded"

definition next_stamp :: "redis_value option \<Rightarrow> redis_value" where
  "next_stamp v = (case v of Some (RCounter n) \<Rightarrow> RCounter (n + 1) | _ \<Rightarrow> RCounter 1)"

definition gone :: "string \<Rightarrow> string list \<Rightarrow> string \<Rightarrow> bool" where
  "gone schema owned k \<longleftrightarrow>
     starts_with (schema @ '':'') k
     \<and> (let table = drop (length schema + 1) k
        in table \<notin> set owned \<and> table \<noteq> ''version'' \<and> table \<noteq> ''invalidate'')"

definition publish_exec ::
  "string \<Rightarrow> (string \<times> (py_exn + row list)) list \<Rightarrow> redis \<Rightarrow> redis" where
  "publish_exec schema loaded kv =
     (let snap = snapshot_rows loaded;
          written = foldl (\<lambda>m (t, rows). m(cache_key schema t \<mapsto> RRows rows)) kv snap;
          kept = (\<lambda>k. if gone schema (map fst snap) k then None else written k)
      in kept(version_key schema \<mapsto> next_stamp (kept (version_key schema))))"

definition publish ::
  "string \<Rightarrow> (string \<times> (py_exn + row list)) list \<Rightarrow> redis \<Rightarrow> (py_exn + int) \<times> redis" where
  "publish schema loaded kv =
     (if schema \<noteq> ''refdata'' \<and> schema \<noteq> ''config''
      then (Inl (ValueError (''unknown snapshot schema '' @ py_repr schema)), kv)
      else (Inr (int (length loaded)), publish_exec schema loaded kv))"

section \<open>The reader's cache\<close>

record reader =
  store :: "(string \<times> string) \<Rightarrow> row list option"
  versions :: "string \<Rightarrow> redis_value option"

definition new_reader :: reader where
  "new_reader = \<lparr>store = (\<lambda>_. None), versions = (\<lambda>_. None)\<rparr>"

text \<open>A GET either fails with a \<open>RedisError\<close> (its text) or answers.\<close>

type_synonym redis_answer = "string + redis_value option"

definition unavailable :: "string \<Rightarrow> py_exn" where
  "unavailable m = RuntimeError (''Redis unavailable: '' @ m)"

definition check_version :: "string \<Rightarrow> redis_answer \<Rightarrow> reader \<Rightarrow> (py_exn + unit) \<times> reader" where
  "check_version schema ans rd =
     (case ans of
        Inl m \<Rightarrow> (Inl (unavailable m), rd)
      | Inr current \<Rightarrow>
          (if current \<noteq> versions rd schema
           then (Inr (), rd\<lparr>store := (\<lambda>k. if fst k = schema then None else store rd k),
                            versions := (versions rd)(schema := current)\<rparr>)
           else (Inr (), rd)))"

definition load_table ::
  "string \<Rightarrow> string \<Rightarrow> redis_answer \<Rightarrow> reader \<Rightarrow> (py_exn + row list) \<times> reader" where
  "load_table schema table ans rd =
     (case ans of
        Inl m \<Rightarrow> (Inl (unavailable m), rd)
      | Inr (Some (RRows rows)) \<Rightarrow> (Inr rows, rd\<lparr>store := (store rd)((schema, table) \<mapsto> rows)\<rparr>)
      | Inr _ \<Rightarrow>
          (Inl (ValueError (schema @ ''.'' @ table @ '' not in Redis '' @ em_dash
                            @ '' publisher may not have run yet'')), rd))"

definition get_rows ::
  "string \<Rightarrow> string \<Rightarrow> redis_answer \<Rightarrow> redis_answer \<Rightarrow> reader \<Rightarrow> (py_exn + row list) \<times> reader" where
  "get_rows schema table ver_ans tab_ans rd =
     (case check_version schema ver_ans rd of
        (Inl e, rd1) \<Rightarrow> (Inl e, rd1)
      | (Inr _, rd1) \<Rightarrow>
          (let (r, rd2) = (case store rd1 (schema, table) of
                             Some (row # rows) \<Rightarrow> (Inr (row # rows), rd1)
                           | _ \<Rightarrow> load_table schema table tab_ans rd1)
           in case r of
                Inl e \<Rightarrow> (Inl e, rd2)
              | Inr [] \<Rightarrow> (Inl (ValueError (schema @ ''.'' @ table @ '' is empty'')), rd2)
              | Inr rows \<Rightarrow> (Inr rows, rd2)))"

section \<open>Lookups\<close>

record refdata =
  catalog :: "string \<Rightarrow> py_exn + row list"
  config :: "string \<Rightarrow> py_exn + row list"

definition missing_name :: "string \<Rightarrow> string \<Rightarrow> py_exn" where
  "missing_name table nm = RuntimeError (''REFDATA.'' @ table @ '' missing NAME='' @ py_repr nm)"

text \<open>The row of a table with the given text in a column, read in one more column.\<close>

definition lookup_name ::
  "(py_exn + row list) \<Rightarrow> string \<Rightarrow> string \<Rightarrow> (row \<Rightarrow> py_exn + 'a) \<Rightarrow> py_exn \<Rightarrow> py_exn + 'a" where
  "lookup_name rows col nm read missing_exn =
     bindR rows (\<lambda>rs. bindR (first_row (has_name col nm) rs) (\<lambda>r.
       case r of None \<Rightarrow> Inl missing_exn | Some x \<Rightarrow> read x))"

definition resolve_queue_status_id :: "refdata \<Rightarrow> string \<Rightarrow> py_exn + int" where
  "resolve_queue_status_id rd nm =
     lookup_name (catalog rd ''queue_status'') ''name'' nm (int_item ''queue_status_id'')
       (missing_name ''QUEUE_STATUS'' nm)"

definition resolve_queue_priority :: "refdata \<Rightarrow> string \<Rightarrow> py_exn + int" where
  "resolve_queue_priority rd nm =
     lookup_name (catalog rd ''queue_priority'') ''name'' nm (int_item ''priority'')
       (missing_name ''QUEUE_PRIORITY'' nm)"

definition setting :: "refdata \<Rightarrow> string \<Rightarrow> py_exn + string" where
  "setting rd nm =
     lookup_name (config rd ''setting'') ''setting_nm'' nm
       (\<lambda>r. bindR (jitem ''setting_value'' r) (\<lambda>v. Inr (py_str v)))
       (RuntimeError (''CONFIG.SETTING missing SETTING_NM='' @ py_repr nm))"

definition setting_int :: "refdata \<Rightarrow> string \<Rightarrow> py_exn + int" where
  "setting_int rd nm = bindR (setting rd nm) (\<lambda>s. py_int (JStr s))"

definition setting_float :: "refdata \<Rightarrow> string \<Rightarrow> py_exn + flt" where
  "setting_float rd nm = bindR (setting rd nm) (\<lambda>s. py_float_json (JStr s))"

fun mapR :: "('a \<Rightarrow> 'e + 'b) \<Rightarrow> 'a list \<Rightarrow> 'e + 'b list" where
  "mapR f [] = Inr []"
| "mapR f (x # xs) = bindR (f x) (\<lambda>y. bindR (mapR f xs) (\<lambda>ys. Inr (y # ys)))"

lemma mapR_Inr: "(\<And>x. x \<in> set xs \<Longrightarrow> f x = Inr (g x)) \<Longrightarrow> mapR f xs = Inr (map g xs)"
  by (induction xs) auto

lemma mapR_all2: "mapR f xs = Inr ys \<Longrightarrow> list_all2 (\<lambda>x y. f x = Inr y) xs ys"
  by (induction xs arbitrary: ys) (auto simp: bindR_Inr_iff)

lemma mapR_nth: "mapR f xs = Inr ys \<Longrightarrow> i < length xs \<Longrightarrow> length ys = length xs \<and> f (xs ! i) = Inr (ys ! i)"
  by (drule mapR_all2) (simp add: list_all2_conv_all_nth)

lemma mapR_length: "mapR f xs = Inr ys \<Longrightarrow> length ys = length xs"
  by (drule mapR_all2) (simp add: list_all2_lengthD)

lemma mapR_Inr_eq: "mapR f xs = Inr ys \<longleftrightarrow> list_all2 (\<lambda>x y. f x = Inr y) xs ys"
  by (induction xs arbitrary: ys) (auto simp: bindR_Inr_iff list_all2_Cons1)

definition setting_floats :: "refdata \<Rightarrow> string \<Rightarrow> py_exn + flt list" where
  "setting_floats rd nm =
     bindR (setting rd nm) (\<lambda>s.
       mapR (\<lambda>p. py_float_json (JStr p)) (filter (\<lambda>p. strip p \<noteq> []) (py_split CHR '','' s)))"

definition names_of :: "row list \<Rightarrow> py_exn + json list" where
  "names_of rows = mapR (jitem ''name'') rows"

definition get_promotion_states :: "refdata \<Rightarrow> py_exn + json list" where
  "get_promotion_states rd = bindR (catalog rd ''promotion_state'') names_of"

text \<open>The list of valid names that ends the message of the two validators is left out.\<close>

definition validate_promotion_state :: "refdata \<Rightarrow> string \<Rightarrow> py_exn + string" where
  "validate_promotion_state rd nm =
     bindR (get_promotion_states rd) (\<lambda>valid.
       if JStr nm \<in> set valid then Inr nm else Inl (missing_name ''PROMOTION_STATE'' nm))"

definition validate_schedule_status :: "refdata \<Rightarrow> string \<Rightarrow> py_exn + string" where
  "validate_schedule_status rd nm =
     bindR (bindR (catalog rd ''schedule_status'') names_of) (\<lambda>valid.
       if JStr nm \<in> set valid then Inr nm else Inl (missing_name ''SCHEDULE_STATUS'' nm))"

definition resolve_app_id :: "refdata \<Rightarrow> string \<Rightarrow> py_exn + int option" where
  "resolve_app_id rd nm =
     bindR (catalog rd ''app'') (\<lambda>rs. bindR (first_row (has_name ''name'' nm) rs) (\<lambda>r.
       case r of None \<Rightarrow> Inr None | Some x \<Rightarrow> bindR (int_item ''app_id'' x) (Inr \<circ> Some)))"

text \<open>A missing or empty catalog (a \<open>ValueError\<close>) has no metric; Redis down still raises.\<close>

definition app_metric_row :: "refdata \<Rightarrow> int \<Rightarrow> string \<Rightarrow> py_exn + row option" where
  "app_metric_row rd app nm =
     (case catalog rd ''app_metric'' of
        Inl (ValueError m) \<Rightarrow> Inr None
      | Inl e \<Rightarrow> Inl e
      | Inr rs \<Rightarrow>
          first_row (\<lambda>r. bindR (has_int ''app_id'' app r) (\<lambda>b.
            if b then has_name ''metric_nm'' nm r else Inr False)) rs)"

definition resolve_app_metric_id :: "refdata \<Rightarrow> int \<Rightarrow> string \<Rightarrow> py_exn + int option" where
  "resolve_app_metric_id rd app nm =
     bindR (app_metric_row rd app nm) (\<lambda>r.
       case r of None \<Rightarrow> Inr None | Some x \<Rightarrow> bindR (int_item ''app_metric_id'' x) (Inr \<circ> Some))"

definition resolve_metric_path :: "refdata \<Rightarrow> int \<Rightarrow> string \<Rightarrow> py_exn + string option" where
  "resolve_metric_path rd app nm =
     bindR (app_metric_row rd app nm) (\<lambda>r.
       case r of None \<Rightarrow> Inr None
       | Some x \<Rightarrow> (let path = jget ''metric_path'' x
                    in Inr (if jtruthy path then Some (py_str path) else None)))"

definition sort_rows_by :: "(row \<Rightarrow> py_exn + int) \<Rightarrow> row list \<Rightarrow> py_exn + row list" where
  "sort_rows_by key rs =
     bindR (mapR (\<lambda>r. bindR (key r) (\<lambda>p. Inr (p, r))) rs) (\<lambda>prs. Inr (map snd (sort_key fst prs)))"

definition metric_priority :: "row \<Rightarrow> py_exn + int" where
  "metric_priority r = (case map_of r ''priority'' of None \<Rightarrow> Inr 999 | Some v \<Rightarrow> py_int v)"

definition get_promotion_metrics :: "refdata \<Rightarrow> py_exn + row list" where
  "get_promotion_metrics rd = bindR (config rd ''promotion_metric'') (sort_rows_by metric_priority)"

record indicator_default =
  win_min :: json
  win_max :: json
  win_step :: json
  sig_min :: "flt option"
  sig_max :: "flt option"
  sig_step :: "flt option"
  is_bounded_ind :: json

definition opt_float :: "json \<Rightarrow> py_exn + flt option" where
  "opt_float v = (if v = JNull then Inr None else bindR (py_float_json v) (\<lambda>x. Inr (Some x)))"

definition indicator_default_of :: "row \<Rightarrow> py_exn + json \<times> indicator_default" where
  "indicator_default_of r =
     bindR (jitem ''method_name'' r) (\<lambda>nm.
     bindR (opt_float (jget ''sig_min'' r)) (\<lambda>lo.
     bindR (opt_float (jget ''sig_max'' r)) (\<lambda>hi.
     bindR (opt_float (jget ''sig_step'' r)) (\<lambda>st.
       Inr (nm, \<lparr>win_min = jget ''win_min'' r, win_max = jget ''win_max'' r,
                 win_step = jget ''win_step'' r, sig_min = lo, sig_max = hi, sig_step = st,
                 is_bounded_ind = jget ''is_bounded_ind'' r\<rparr>)))))"

text \<open>The result dict: a later row of the same method replaces the earlier one.\<close>

definition get_indicator_defaults :: "refdata \<Rightarrow> py_exn + (json \<rightharpoonup> indicator_default)" where
  "get_indicator_defaults rd =
     bindR (catalog rd ''indicator'') (\<lambda>rs. bindR (mapR indicator_default_of rs) (\<lambda>ds.
       Inr (foldl (\<lambda>m (nm, d). m(nm \<mapsto> d)) Map.empty ds)))"

subsection \<open>Intervals\<close>

definition period_of_json :: "json \<Rightarrow> period_value" where
  "period_of_json v = (case v of JStr s \<Rightarrow> PText s | _ \<Rightarrow> POther ''json'')"

definition row_period :: "string \<Rightarrow> row \<Rightarrow> py_exn + int" where
  "row_period col r = bindR (jitem col r) (parse_period \<circ> period_of_json)"

definition missing_interval :: "int \<Rightarrow> py_exn" where
  "missing_interval iv = RuntimeError (''REFDATA.TM_INTERVAL missing TM_INTERVAL_ID='' @ int_str iv)"

definition interval_row :: "refdata \<Rightarrow> int \<Rightarrow> py_exn + row option" where
  "interval_row rd iv =
     bindR (catalog rd ''tm_interval'') (first_row (has_int ''tm_interval_id'' iv))"

definition rd_interval_period :: "refdata \<Rightarrow> int \<Rightarrow> py_exn + int" where
  "rd_interval_period rd iv =
     bindR (interval_row rd iv) (\<lambda>r.
       case r of None \<Rightarrow> Inl (missing_interval iv) | Some x \<Rightarrow> row_period ''period_length'' x)"

definition resolve_interval_id :: "refdata \<Rightarrow> int \<Rightarrow> py_exn + int" where
  "resolve_interval_id rd period =
     bindR (catalog rd ''tm_interval'') (\<lambda>rs.
     bindR (first_row (\<lambda>r. bindR (row_period ''period_length'' r) (\<lambda>p. Inr (p = period))) rs) (\<lambda>r.
       case r of
         None \<Rightarrow> Inl (RuntimeError (''REFDATA.TM_INTERVAL has no row with PERIOD_LENGTH='' @ str_timedelta period))
       | Some x \<Rightarrow> int_item ''tm_interval_id'' x))"

definition interval_name :: "refdata \<Rightarrow> int \<Rightarrow> py_exn + string" where
  "interval_name rd iv =
     bindR (interval_row rd iv) (\<lambda>r.
       case r of None \<Rightarrow> Inl (missing_interval iv)
       | Some x \<Rightarrow> bindR (jitem ''name'' x) (\<lambda>v. Inr (py_str v)))"

definition interval_label :: "refdata \<Rightarrow> int \<Rightarrow> py_exn + string" where
  "interval_label rd iv =
     bindR (interval_row rd iv) (\<lambda>r.
       case r of None \<Rightarrow> Inr (int_str iv)
       | Some x \<Rightarrow>
           Inr (if jtruthy (jget ''display_name'' x) then py_str (jget ''display_name'' x)
                else if jtruthy (jget ''name'' x) then py_str (jget ''name'' x)
                else int_str iv))"

definition interval_ids :: "refdata \<Rightarrow> py_exn + int list" where
  "interval_ids rd =
     bindR (catalog rd ''tm_interval'') (\<lambda>rs.
     bindR (sort_rows_by (row_period ''period_length'') rs) (mapR (int_item ''tm_interval_id'')))"

subsection \<open>Calendars\<close>

definition listing_exchange_key :: "string option \<Rightarrow> string" where
  "listing_exchange_key le = (case le of None \<Rightarrow> [] | Some s \<Rightarrow> strip s)"

text \<open>\<open>time(h, m, s)\<close> as seconds of the day.\<close>

definition mk_time :: "int \<Rightarrow> int \<Rightarrow> int \<Rightarrow> py_exn + int" where
  "mk_time h m s =
     (if h < 0 \<or> 23 < h then Inl (ValueError ''hour must be in 0..23'')
      else if m < 0 \<or> 59 < m then Inl (ValueError ''minute must be in 0..59'')
      else if s < 0 \<or> 59 < s then Inl (ValueError ''second must be in 0..59'')
      else Inr (h * 3600 + m * 60 + s))"

definition parse_clock :: "json \<Rightarrow> py_exn + int option" where
  "parse_clock v =
     (if v = JNull \<or> v = JStr [] then Inr None
      else
        (let parts = py_split CHR '':'' (py_str v)
         in if length parts < 2 then Inl (ValueError (''unrecognised MARKET time: '' @ py_repr (py_str v)))
            else
              bindR (if 2 < length parts
                     then bindR (py_float_json (JStr (parts ! 2))) (\<lambda>x. py_int (JNum x)) else Inr 0) (\<lambda>s.
              bindR (py_int (JStr (parts ! 0))) (\<lambda>h.
              bindR (py_int (JStr (parts ! 1))) (\<lambda>m.
              bindR (mk_time h m s) (\<lambda>t. Inr (Some t)))))))"

record market_calendar =
  cal_listing_exchange :: string
  bar_timezone :: string
  market_open_time :: "int option"
  market_close_time :: "int option"

definition or_empty :: "json \<Rightarrow> string" where
  "or_empty v = (if jtruthy v then py_str v else [])"

definition format_market_calendar :: "row \<Rightarrow> py_exn + market_calendar" where
  "format_market_calendar r =
     bindR (jitem ''bar_timezone'' r) (\<lambda>tz.
     bindR (parse_clock (jget ''market_open_time'' r)) (\<lambda>op.
     bindR (parse_clock (jget ''market_close_time'' r)) (\<lambda>cl.
       Inr \<lparr>cal_listing_exchange = or_empty (jget ''listing_exchange'' r), bar_timezone = py_str tz,
            market_open_time = op, market_close_time = cl\<rparr>)))"

definition get_market_calendar :: "refdata \<Rightarrow> string option \<Rightarrow> py_exn + market_calendar" where
  "get_market_calendar rd le =
     (let key = listing_exchange_key le
      in bindR (catalog rd ''market_calendar'') (\<lambda>rs.
           case find (\<lambda>r. or_empty (jget ''listing_exchange'' r) = key) rs of
             None \<Rightarrow> Inl (RuntimeError (''REFDATA.MARKET_CALENDAR missing LISTING_EXCHANGE='' @ py_repr key))
           | Some r \<Rightarrow> format_market_calendar r))"

definition get_execute_offset :: "refdata \<Rightarrow> int \<Rightarrow> int \<Rightarrow> py_exn + int" where
  "get_execute_offset rd app iv =
     bindR (config rd ''app_apply_timing'') (\<lambda>rs.
     bindR (first_row (\<lambda>r. bindR (has_int ''app_id'' app r) (\<lambda>b.
              if b then has_int ''tm_interval_id'' iv r else Inr False)) rs) (\<lambda>r.
       case r of
         None \<Rightarrow> Inl (RuntimeError (''CONFIG.APP_APPLY_TIMING missing APP_ID='' @ int_str app
                       @ '' TM_INTERVAL_ID='' @ int_str iv))
       | Some x \<Rightarrow> row_period ''execute_offset'' x))"

definition get_apply_timing ::
  "refdata \<Rightarrow> int \<Rightarrow> int \<Rightarrow> string option \<Rightarrow> py_exn + market_calendar \<times> int" where
  "get_apply_timing rd app iv le =
     bindR (get_market_calendar rd le) (\<lambda>cal.
     bindR (get_execute_offset rd app iv) (\<lambda>off. Inr (cal, off)))"

section \<open>The snapshots over time\<close>

text \<open>
  A history of Redis: at every moment nothing happens or one schema is published (no table is
  named like the stamp). A reader starts empty at some moment; each of its calls reads the
  stamp at \<open>i\<close> and, when it has to, the table at \<open>j\<close>, and any number of publishes may fall
  before, between and after; a GET may also fail.
\<close>

definition snapshot_schemas :: "string list" where
  "snapshot_schemas = [''refdata'', ''config'']"

definition stamped :: "redis \<Rightarrow> bool" where
  "stamped kv \<longleftrightarrow>
     (\<forall>s \<in> set snapshot_schemas. kv (version_key s) = None \<or> (\<exists>n \<ge> 1. kv (version_key s) = Some (RCounter n)))"

definition stamp :: "redis \<Rightarrow> string \<Rightarrow> int" where
  "stamp kv s = (case kv (version_key s) of Some (RCounter n) \<Rightarrow> n | _ \<Rightarrow> 0)"

definition published :: "(nat \<Rightarrow> redis) \<Rightarrow> bool" where
  "published h \<longleftrightarrow>
     stamped (h 0)
     \<and> (\<forall>n. h (Suc n) = h n
          \<or> (\<exists>schema loaded. ''version'' \<notin> fst ` set loaded \<and> h (Suc n) = snd (publish schema loaded (h n))))"

definition answers :: "redis_answer \<Rightarrow> redis \<Rightarrow> string \<Rightarrow> bool" where
  "answers a kv k \<longleftrightarrow> (case a of Inl m \<Rightarrow> True | Inr v \<Rightarrow> v = kv k)"

inductive reader_at :: "(nat \<Rightarrow> redis) \<Rightarrow> nat \<Rightarrow> reader \<Rightarrow> bool" for h where
  started: "reader_at h t new_reader"
| called: "reader_at h j rd'"
  if "reader_at h t rd" "t \<le> i" "i \<le> j" "s \<in> set snapshot_schemas"
    "answers ver_ans (h i) (version_key s)" "answers tab_ans (h j) (cache_key s tb)"
    "get_rows s tb ver_ans tab_ans rd = (r, rd')"

lemma version_key_eq: "version_key s = cache_key s ''version''"
  by (simp add: version_key_def cache_key_def)

lemma cache_key_inj [simp]: "cache_key s t = cache_key s t' \<longleftrightarrow> t = t'"
  by (simp add: cache_key_def)

lemma cache_key_schemas:
  assumes "s \<in> set snapshot_schemas" "s' \<in> set snapshot_schemas" "s \<noteq> s'"
  shows "cache_key s t \<noteq> cache_key s' t'"
  using assms by (auto simp: snapshot_schemas_def cache_key_def)

lemma gone_cache_key:
  assumes "s \<in> set snapshot_schemas" "s' \<in> set snapshot_schemas"
  shows "gone s owned (cache_key s' t)
    \<longleftrightarrow> s = s' \<and> t \<notin> set owned \<and> t \<noteq> ''version'' \<and> t \<noteq> ''invalidate''"
  using assms by (auto simp: snapshot_schemas_def cache_key_def gone_def)

lemma written_other:
  assumes "\<And>t. t \<in> fst ` set snap \<Longrightarrow> k \<noteq> cache_key s t"
  shows "foldl (\<lambda>m (t, rows). m(cache_key s t \<mapsto> RRows rows)) kv snap k = kv k"
  using assms by (induction snap arbitrary: kv) (auto simp: split_beta)

lemma snapshot_rows_tables: "fst ` set (snapshot_rows loaded) = fst ` set loaded"
  by (force simp: snapshot_rows_def)

lemma publish_exec_other:
  assumes "s \<in> set snapshot_schemas" "s' \<in> set snapshot_schemas" "s \<noteq> s'"
  shows "publish_exec s loaded kv (cache_key s' t) = kv (cache_key s' t)"
proof -
  note ne = cache_key_schemas [OF assms(2,1) not_sym [OF assms(3)]]
  have "foldl (\<lambda>m (t, rows). m(cache_key s t \<mapsto> RRows rows)) kv (snapshot_rows loaded) (cache_key s' t)
      = kv (cache_key s' t)"
    using ne by (intro written_other)
  then show ?thesis
    using ne assms by (simp add: publish_exec_def Let_def gone_cache_key version_key_eq)
qed

lemma publish_exec_stamp:
  assumes "s \<in> set snapshot_schemas" "''version'' \<notin> fst ` set loaded"
  shows "publish_exec s loaded kv (version_key s) = Some (next_stamp (kv (version_key s)))"
proof -
  have "foldl (\<lambda>m (t, rows). m(cache_key s t \<mapsto> RRows rows)) kv (snapshot_rows loaded) (version_key s)
      = kv (version_key s)"
    using assms(2) by (intro written_other) (auto simp: version_key_eq snapshot_rows_tables)
  then show ?thesis
    using assms(1) by (simp add: publish_exec_def Let_def version_key_eq gone_cache_key)
qed

lemma publish_cases:
  "s \<in> set snapshot_schemas \<Longrightarrow> snd (publish s loaded kv) = publish_exec s loaded kv"
  "s \<notin> set snapshot_schemas \<Longrightarrow> snd (publish s loaded kv) = kv"
  by (auto simp: publish_def snapshot_schemas_def)

text \<open>One moment: the stamp of a schema is unchanged together with its tables, or it grows.\<close>

lemma history_step:
  assumes "published h" "stamped (h n)" "s \<in> set snapshot_schemas"
  shows "(\<forall>t. h (Suc n) (cache_key s t) = h n (cache_key s t)) \<or> stamp (h n) s < stamp (h (Suc n)) s"
proof -
  consider "h (Suc n) = h n"
    | s' loaded where "s' \<in> set snapshot_schemas" "''version'' \<notin> fst ` set loaded"
        "h (Suc n) = publish_exec s' loaded (h n)"
    using assms(1) publish_cases by (metis published_def)
  then show ?thesis
  proof cases
    case 2
    show ?thesis
    proof (cases "s' = s")
      case True
      have "h n (version_key s) = None \<or> (\<exists>m \<ge> 1. h n (version_key s) = Some (RCounter m))"
        using assms(2,3) by (auto simp: stamped_def)
      then show ?thesis
        using publish_exec_stamp [OF 2(1,2), of "h n"] 2(3) True
        by (auto simp: stamp_def next_stamp_def)
    qed (use 2 publish_exec_other assms(3) in auto)
  qed auto
qed

lemma published_stamped: "published h \<Longrightarrow> stamped (h n)"
proof (induction n)
  case (Suc n)
  have "h (Suc n) (version_key s) = None \<or> (\<exists>m \<ge> 1. h (Suc n) (version_key s) = Some (RCounter m))"
    if s: "s \<in> set snapshot_schemas" for s
  proof -
    have old: "h n (version_key s) = None \<or> (\<exists>m \<ge> 1. h n (version_key s) = Some (RCounter m))"
      using Suc s by (auto simp: stamped_def)
    consider "h (Suc n) = h n"
      | s' loaded where "s' \<in> set snapshot_schemas" "''version'' \<notin> fst ` set loaded"
          "h (Suc n) = publish_exec s' loaded (h n)"
      using Suc.prems publish_cases by (metis published_def)
    then show ?thesis
    proof cases
      case 2
      then show ?thesis
        using old publish_exec_stamp [OF 2(1,2), of "h n"] publish_exec_other [OF 2(1) s]
        by (cases "s' = s") (auto simp: next_stamp_def version_key_eq)
    qed (use old in auto)
  qed
  then show ?case by (simp add: stamped_def)
qed (simp add: published_def)

lemma stamp_mono:
  assumes "published h" "s \<in> set snapshot_schemas" "u \<le> i"
  shows "stamp (h u) s \<le> stamp (h i) s"
  using assms(3)
proof (induction i rule: dec_induct)
  case (step n)
  have "stamp (h n) s \<le> stamp (h (Suc n)) s"
    using history_step [OF assms(1) published_stamped [OF assms(1)] assms(2), of n]
    by (auto simp: stamp_def version_key_eq)
  with step show ?case by linarith
qed simp

lemma same_stamp_same_rows:
  assumes "published h" "s \<in> set snapshot_schemas" "u \<le> i" "stamp (h u) s = stamp (h i) s"
  shows "h i (cache_key s t) = h u (cache_key s t)"
  using assms(3,4)
proof (induction i rule: dec_induct)
  case (step n)
  have "stamp (h u) s \<le> stamp (h n) s" "stamp (h n) s \<le> stamp (h (Suc n)) s"
    using stamp_mono [OF assms(1,2)] step(1) by auto
  with step history_step [OF assms(1) published_stamped [OF assms(1)] assms(2), of n]
  show ?case by auto
qed simp

text \<open>
  The cache invariant: cached rows are the table at some moment \<open>u\<close>, and the stamp they are
  kept under was read no later.
\<close>

definition coherent :: "(nat \<Rightarrow> redis) \<Rightarrow> nat \<Rightarrow> reader \<Rightarrow> bool" where
  "coherent h t rd \<longleftrightarrow>
     (\<forall>s tb rows. store rd (s, tb) = Some rows \<longrightarrow>
        (\<exists>v u. v \<le> u \<and> u \<le> t \<and> versions rd s = h v (version_key s)
               \<and> h u (cache_key s tb) = Some (RRows rows)))"

lemma coherentD:
  assumes "coherent h t rd" "store rd (s, tb) = Some rows"
  obtains v u where "v \<le> u" "u \<le> t" "versions rd s = h v (version_key s)"
    "h u (cache_key s tb) = Some (RRows rows)"
  using assms unfolding coherent_def by blast

lemma coherent_mono: "coherent h t rd \<Longrightarrow> t \<le> t' \<Longrightarrow> coherent h t' rd"
  unfolding coherent_def by (meson le_trans)

lemma cached_rows_current:
  assumes "published h" "s \<in> set snapshot_schemas" "coherent h t rd" "t \<le> i"
    "store rd (s, tb) = Some rows" "versions rd s = h i (version_key s)"
  shows "h i (cache_key s tb) = Some (RRows rows)"
proof -
  obtain v u where vu: "v \<le> u" "u \<le> t" "versions rd s = h v (version_key s)"
    "h u (cache_key s tb) = Some (RRows rows)"
    using coherentD [OF assms(3,5)] .
  then have "stamp (h v) s = stamp (h i) s"
    using assms(6) by (simp add: stamp_def)
  then have "stamp (h u) s = stamp (h i) s"
    using stamp_mono [OF assms(1,2), of v u] stamp_mono [OF assms(1,2), of u i] vu assms(4) by simp
  then show ?thesis
    using same_stamp_same_rows [OF assms(1,2), of u i] vu assms(4) by simp
qed

lemma check_version_cases:
  assumes "check_version s ans rd = (r, rd1)"
  obtains (down) m where "ans = Inl m" "r = Inl (unavailable m)" "rd1 = rd"
  | (current) "ans = Inr (versions rd s)" "r = Inr ()" "rd1 = rd"
  | (moved) v where "ans = Inr v" "r = Inr ()"
      "store rd1 = (\<lambda>k. if fst k = s then None else store rd k)"
      "versions rd1 = (versions rd)(s := v)"
  using assms by (auto simp: check_version_def split: sum.splits if_splits)

lemma check_version_coherent:
  assumes "published h" "s \<in> set snapshot_schemas" "coherent h t rd" "t \<le> i"
    "answers ans (h i) (version_key s)" "check_version s ans rd = (r, rd1)"
  shows "coherent h i rd1" "r = Inr () \<Longrightarrow> versions rd1 s = h i (version_key s)"
  using assms(6)
  by (cases rule: check_version_cases;
      use assms(3-5) coherent_mono [OF assms(3,4)] in \<open>auto simp: answers_def coherent_def\<close>)+

lemma load_table_cases:
  assumes "load_table s tb ans rd = (r, rd1)"
  obtains (failed) e where "r = Inl e" "rd1 = rd"
  | (loaded) rows where "ans = Inr (Some (RRows rows))" "r = Inr rows"
      "rd1 = rd\<lparr>store := (store rd)((s, tb) \<mapsto> rows)\<rparr>"
  using assms
  by (auto simp: load_table_def split: sum.splits option.splits redis_value.splits)

lemma load_table_coherent:
  assumes "coherent h i rd" "i \<le> j" "versions rd s = h i (version_key s)"
    "answers ans (h j) (cache_key s tb)" "load_table s tb ans rd = (r, rd1)"
  shows "coherent h j rd1"
  using assms(5)
proof (cases rule: load_table_cases)
  case (loaded rows)
  have "h j (cache_key s tb) = Some (RRows rows)"
    using assms(4) loaded(1) by (simp add: answers_def)
  then show ?thesis
    using coherent_mono [OF assms(1,2)] assms(2,3) loaded(3) by (auto simp: coherent_def)
qed (use coherent_mono [OF assms(1,2)] in simp)

lemma get_rows_cases:
  assumes "get_rows s tb va ta rd = (r, rd')"
  obtains (down) e where "check_version s va rd = (Inl e, rd')" "r = Inl e"
  | (hit) rd1 row rows where "check_version s va rd = (Inr (), rd1)"
      "store rd1 (s, tb) = Some (row # rows)" "r = Inr (row # rows)" "rd' = rd1"
  | (load) rd1 x where "check_version s va rd = (Inr (), rd1)" "load_table s tb ta rd1 = (x, rd')"
      "\<And>rows. r = Inr rows \<Longrightarrow> x = Inr rows"
  using assms
  by (auto simp: get_rows_def Let_def split: prod.splits sum.splits option.splits list.splits)

lemma get_rows_coherent:
  assumes "published h" "s \<in> set snapshot_schemas" "coherent h t rd" "t \<le> i" "i \<le> j"
    "answers va (h i) (version_key s)" "answers ta (h j) (cache_key s tb)"
    "get_rows s tb va ta rd = (r, rd')"
  shows "coherent h j rd'"
  using assms(8)
proof (cases rule: get_rows_cases)
  case (load rd1 x)
  note v = check_version_coherent [OF assms(1-4,6) load(1)]
  show ?thesis
    using load_table_coherent [OF v(1) assms(5) v(2) assms(7) load(2)] by simp
qed (use check_version_coherent(1) [OF assms(1-4,6)] coherent_mono [OF _ assms(5)] in blast)+

lemma reader_coherent:
  assumes "published h"
  shows "reader_at h t rd \<Longrightarrow> coherent h t rd"
proof (induction rule: reader_at.induct)
  case (started t)
  then show ?case by (simp add: coherent_def new_reader_def)
next
  case (called t rd i j s va ta tb r rd')
  then show ?case using get_rows_coherent [OF assms called(4) called.IH] by blast
qed


text \<open>C16: A catalog read is never stale. In any history of publishes and of this reader's own
  calls (failed Redis reads included), the rows a call returns are what Redis held for that
  table at some moment between the call's two reads of Redis: a cached table is served only
  while the stamp says nothing was published since it was loaded.\<close>

theorem get_rows_current:
  assumes "published h" and "reader_at h t rd" and "t \<le> i" and "i \<le> j"
    and "s \<in> set snapshot_schemas"
    and "answers ver_ans (h i) (version_key s)" and "answers tab_ans (h j) (cache_key s tb)"
    and "get_rows s tb ver_ans tab_ans rd = (Inr rows, rd')"
  shows "\<exists>k. i \<le> k \<and> k \<le> j \<and> h k (cache_key s tb) = Some (RRows rows)"
  using assms(8)
proof (cases rule: get_rows_cases)
  case (hit rd1 row rest)
  note v = check_version_coherent [OF assms(1,5) reader_coherent [OF assms(1,2)] assms(3,6) hit(1)]
  have "h i (cache_key s tb) = Some (RRows rows)"
    using cached_rows_current [OF assms(1,5) v(1) order_refl hit(2)] v(2) hit(3) by simp
  then show ?thesis using assms(4) by blast
next
  case (load rd1 x)
  from load(2) show ?thesis
  proof (cases rule: load_table_cases)
    case (loaded rs)
    then show ?thesis
      using load(3) assms(4,7) by (auto simp: answers_def)
  qed (use load(3) in auto)
qed auto

text \<open>Two publishes of one table, and a reader that loads it once and calls again after the second.\<close>

definition demo_rows :: "int \<Rightarrow> row list" where
  "demo_rows n = [[(''name'', JStr ''QUEUED''), (''queue_status_id'', JInt n)]]"

definition demo_redis :: "nat \<Rightarrow> redis" where
  "demo_redis n =
     (let kv1 = publish_exec ''refdata'' [(''queue_status'', Inr (demo_rows 1))] (\<lambda>_. None)
      in if n = 0 then kv1
         else publish_exec ''refdata'' [(''queue_status'', Inr (demo_rows 2))] kv1)"

definition demo_get :: "nat \<Rightarrow> reader \<Rightarrow> (py_exn + row list) \<times> reader" where
  "demo_get n rd =
     get_rows ''refdata'' ''queue_status''
       (Inr (demo_redis n (version_key ''refdata'')))
       (Inr (demo_redis n (cache_key ''refdata'' ''queue_status''))) rd"

lemma demo_published: "published demo_redis"
proof -
  have "demo_redis (Suc n) = demo_redis n
      \<or> demo_redis (Suc n) = snd (publish ''refdata'' [(''queue_status'', Inr (demo_rows 2))] (demo_redis n))" for n
    by (cases n) (simp_all add: demo_redis_def publish_def Let_def)
  moreover have "stamped (demo_redis 0)"
    by (auto simp: stamped_def snapshot_schemas_def demo_redis_def Let_def publish_exec_def
        version_key_def cache_key_def gone_def next_stamp_def snapshot_rows_def)
  moreover have "''version'' \<notin> fst ` set [(''queue_status'', Inr (demo_rows 2) :: py_exn + row list)]"
    by simp
  ultimately show ?thesis
    unfolding published_def by blast
qed

lemma demo_keys:
  "demo_redis n (version_key ''refdata'') = Some (RCounter (if n = 0 then 1 else 2))"
  "demo_redis n (cache_key ''refdata'' ''queue_status'') = Some (RRows (demo_rows (if n = 0 then 1 else 2)))"
  by (auto simp: demo_redis_def Let_def publish_exec_def version_key_def cache_key_def gone_def
      next_stamp_def snapshot_rows_def)

lemma demo_get_1: "fst (demo_get 1 (snd (demo_get 0 new_reader))) = Inr (demo_rows 2)"
  by (simp add: demo_get_def demo_keys get_rows_def check_version_def load_table_def new_reader_def
      demo_rows_def)

theorem get_rows_current_witness:
  "\<exists>k. 1 \<le> k \<and> k \<le> 1 \<and> demo_redis k (cache_key ''refdata'' ''queue_status'') = Some (RRows (demo_rows 2))"
proof -
  have "reader_at demo_redis 0 (snd (demo_get 0 new_reader))"
    by (rule reader_at.called [OF reader_at.started order_refl order_refl, where s = "''refdata''"
          and tb = "''queue_status''" and ver_ans = "Inr (demo_redis 0 (version_key ''refdata''))"
          and tab_ans = "Inr (demo_redis 0 (cache_key ''refdata'' ''queue_status''))"])
      (auto simp: snapshot_schemas_def answers_def demo_get_def prod_eq_iff)
  then show ?thesis
    using demo_get_1
    by (intro get_rows_current [OF demo_published, where i = 1 and t = 0 and s = "''refdata''"
          and ver_ans = "Inr (demo_redis 1 (version_key ''refdata''))"
          and tab_ans = "Inr (demo_redis 1 (cache_key ''refdata'' ''queue_status''))"])
      (auto simp: snapshot_schemas_def answers_def demo_get_def prod_eq_iff)
qed

end
