(* ===== verification/StrategyConfig.thy ===== *)
theory StrategyConfig
  imports Signals RefData
begin

text \<open>
  The identity of a strategy (\<open>StrategyConfig\<close>, \<open>SubStrategy\<close> in \<open>quant/strategy/signals.py\<close>):
  its construction, the choice of its signal functions from the reference data, and its JSON
  document. The document is read field by field with Python's conversions; a text field that holds
  something else than a string is outside the model and reported as a \<open>TypeError\<close>.
\<close>

section \<open>Data\<close>

record sub_strategy =
  ss_indicator :: string
  ss_signal_func :: string
  ss_window :: int
  ss_signal :: flt
  ss_column :: string
  ss_cusip :: "string option"

record strategy_cfg =
  cf_cusip :: string
  cf_indicator :: string
  cf_signal_func :: signal_func
  cf_period :: int
  cf_id :: string
  cf_name :: string
  cf_conjunction :: string
  cf_subs :: "sub_strategy list"

definition resolve_sub :: "sub_strategy \<Rightarrow> py_exn + signal_func" where
  "resolve_sub sub = get_signal_func (ss_signal_func sub)"

definition single_config ::
  "string \<Rightarrow> string \<Rightarrow> string \<Rightarrow> signal_func \<Rightarrow> int \<Rightarrow> int \<Rightarrow> flt \<Rightarrow> string \<Rightarrow> strategy_cfg" where
  "single_config sid cusip indicator func period window signal column =
     \<lparr>cf_cusip = cusip, cf_indicator = indicator, cf_signal_func = func, cf_period = period,
      cf_id = sid, cf_name = [], cf_conjunction = ''AND'',
      cf_subs = [\<lparr>ss_indicator = indicator, ss_signal_func = func_name func, ss_window = window,
                  ss_signal = signal, ss_column = column, ss_cusip = None\<rparr>]\<rparr>"

definition get_internal_cusips :: "strategy_cfg \<Rightarrow> string set" where
  "get_internal_cusips c = insert (cf_cusip c) (set (concat (map (\<lambda>s. case ss_cusip s of Some x \<Rightarrow> [x] | None \<Rightarrow> []) (cf_subs c))))"

definition get_substrategies :: "strategy_cfg \<Rightarrow> sub_strategy list" where
  "get_substrategies c =
     (if cf_subs c \<noteq> [] then cf_subs c
      else [\<lparr>ss_indicator = cf_indicator c, ss_signal_func = func_name (cf_signal_func c),
             ss_window = 0, ss_signal = Fin 0, ss_column = ''factor'', ss_cusip = None\<rparr>])"

lemma get_substrategies_not_Nil [simp]: "get_substrategies c \<noteq> []"
  by (simp add: get_substrategies_def)

section \<open>Signal functions from the reference data\<close>

definition text_item :: "string \<Rightarrow> row \<Rightarrow> py_exn + string" where
  "text_item k r =
     bindR (jitem k r) (\<lambda>v. case v of JStr s \<Rightarrow> Inr s
       | _ \<Rightarrow> Inl (TypeError ''attribute name must be string''))"

definition resolve_signal_func ::
  "string \<Rightarrow> string \<Rightarrow> row list \<Rightarrow> row list \<Rightarrow> py_exn + signal_func" where
  "resolve_signal_func signal_name indicator_name indicators signal_types =
     bindR (first_row (has_name ''method_name'' indicator_name) indicators) (\<lambda>ind.
       case ind of
         None \<Rightarrow> Inl (ValueError (''Unknown indicator: '' @ indicator_name))
       | Some i \<Rightarrow>
           bindR (first_row (has_name ''name'' signal_name) signal_types) (\<lambda>sig.
             case sig of
               None \<Rightarrow> Inl (ValueError (''Unknown signal type: '' @ signal_name))
             | Some s \<Rightarrow>
                 bindR (text_item (if jget ''is_bounded_ind'' i = JStr ''Y'' then ''func_name_bounded''
                                   else ''func_name_band'') s) (\<lambda>fn.
                   case signal_func_of fn of
                     Some f \<Rightarrow> Inr f
                   | None \<Rightarrow> Inl (ValueError (''SignalDirection has no method ''
                               @ [CHR 0x27] @ fn @ [CHR 0x27])))))"

section \<open>The JSON document\<close>

definition auto_name :: "strategy_cfg \<Rightarrow> string" where
  "auto_name c = cf_cusip c @ ''_strategy_'' @ take 8 (cf_id c)"

definition sub_to_json :: "nat \<Rightarrow> sub_strategy \<Rightarrow> json" where
  "sub_to_json i s =
     JObj ([(''id'', JInt (int i + 1)), (''indicator'', JStr (ss_indicator s)),
            (''signal_func'', JStr (ss_signal_func s)), (''window'', JInt (ss_window s)),
            (''signal'', JNum (ss_signal s)), (''data_column'', JStr (ss_column s))]
           @ (if truthy (ss_cusip s) then [(''internal_cusip'', JStr (the (ss_cusip s)))] else []))"

definition strategy_to_json ::
  "string \<Rightarrow> strategy_cfg \<Rightarrow> int option \<Rightarrow> flt option \<Rightarrow> py_exn + row" where
  "strategy_to_json now c window signal =
     bindR
       (if cf_subs c \<noteq> [] then Inr (get_substrategies c)
        else case (window, signal) of
               (Some w, Some s) \<Rightarrow>
                 Inr [\<lparr>ss_indicator = cf_indicator c, ss_signal_func = func_name (cf_signal_func c),
                       ss_window = w, ss_signal = s, ss_column = ''v'', ss_cusip = None\<rparr>]
             | _ \<Rightarrow> Inl (ValueError ''window and signal required for legacy StrategyConfig without substrategies''))
       (\<lambda>subs. Inr
         [(''strategy_id'', JStr (cf_id c)),
          (''name'', JStr (if cf_name c \<noteq> [] then cf_name c else auto_name c)),
          (''version'', JInt 1), (''created_at'', JStr now),
          (''internal_cusip'', JStr (cf_cusip c)), (''conjunction'', JStr (cf_conjunction c)),
          (''trading_period'', JInt (cf_period c)),
          (''substrategies'', JArr (map (\<lambda>(i, s). sub_to_json i s) (enumerate 0 subs)))])"

text \<open>Fields of a document: \<open>d[k]\<close> and \<open>d.get(k, default)\<close>.\<close>

definition as_text :: "json \<Rightarrow> py_exn + string" where
  "as_text v = (case v of JStr s \<Rightarrow> Inr s | _ \<Rightarrow> Inl (TypeError ''expected a string''))"

definition jget_or :: "string \<Rightarrow> json \<Rightarrow> row \<Rightarrow> json" where
  "jget_or k d r = (case map_of r k of Some v \<Rightarrow> v | None \<Rightarrow> d)"

definition as_dict :: "json \<Rightarrow> py_exn + row" where
  "as_dict v = (case v of JObj d \<Rightarrow> Inr d | _ \<Rightarrow> Inl (TypeError ''expected a mapping''))"

definition as_list :: "json \<Rightarrow> py_exn + json list" where
  "as_list v = (case v of JArr xs \<Rightarrow> Inr xs | _ \<Rightarrow> Inl (TypeError ''expected a list''))"

definition sub_from_json :: "json \<Rightarrow> py_exn + sub_strategy" where
  "sub_from_json v =
     bindR (as_dict v) (\<lambda>s.
     bindR (bindR (jitem ''indicator'' s) as_text) (\<lambda>ind.
     bindR (bindR (jitem ''signal_func'' s) as_text) (\<lambda>fn.
     bindR (bindR (jitem ''window'' s) py_int) (\<lambda>w.
     bindR (bindR (jitem ''signal'' s) py_float_json) (\<lambda>sig.
     bindR (as_text (jget_or ''data_column'' (JStr ''v'') s)) (\<lambda>col.
     bindR (case jget ''internal_cusip'' s of JNull \<Rightarrow> Inr None
            | x \<Rightarrow> bindR (as_text x) (\<lambda>t. Inr (Some t))) (\<lambda>cusip.
       Inr \<lparr>ss_indicator = ind, ss_signal_func = fn, ss_window = w, ss_signal = sig,
            ss_column = col, ss_cusip = cusip\<rparr>)))))))"

definition config_from_json :: "row \<Rightarrow> py_exn + strategy_cfg" where
  "config_from_json doc =
     (let internal = (if jtruthy (jget ''internal_cusip'' doc) then jget ''internal_cusip'' doc
                      else jget ''ticker'' doc);
          subs_raw = jget ''substrategies'' doc
      in if \<not> jtruthy internal then Inl (ValueError ''CONFIG_JSON missing internal_cusip'')
         else if \<not> jtruthy subs_raw then Inl (ValueError ''CONFIG_JSON has no substrategies'')
         else
           bindR (bindR (as_list subs_raw) (mapR sub_from_json)) (\<lambda>subs.
           bindR (resolve_sub (hd subs)) (\<lambda>func.
           bindR (as_text internal) (\<lambda>cusip.
           bindR (py_int (jget_or ''trading_period'' (JInt 365) doc)) (\<lambda>period.
           bindR (as_text (jget_or ''name'' (JStr []) doc)) (\<lambda>nm.
           bindR (as_text (jget_or ''conjunction'' (JStr ''AND'') doc)) (\<lambda>cj.
             Inr \<lparr>cf_cusip = cusip, cf_indicator = ss_indicator (hd subs), cf_signal_func = func,
                  cf_period = period, cf_id = py_str (jget_or ''strategy_id'' (JStr []) doc),
                  cf_name = nm, cf_conjunction = cj, cf_subs = subs\<rparr>)))))))"

text \<open>The parameters of a strategy: a value, or one per factor.\<close>

datatype 'a param = Scalar 'a | PerFactor "'a list"

definition window_signal :: "json \<Rightarrow> py_exn + int \<times> flt" where
  "window_signal v =
     bindR (as_dict v) (\<lambda>s.
     bindR (bindR (jitem ''window'' s) py_int) (\<lambda>w.
     bindR (bindR (jitem ''signal'' s) py_float_json) (\<lambda>x. Inr (w, x))))"

definition params_from_strategy_json :: "row \<Rightarrow> py_exn + int param \<times> flt param" where
  "params_from_strategy_json doc =
     bindR (bindR (jitem ''substrategies'' doc) as_list) (\<lambda>subs.
       case subs of
         [s] \<Rightarrow> bindR (window_signal s) (\<lambda>(w, x). Inr (Scalar w, Scalar x))
       | _ \<Rightarrow>
           bindR (mapR (\<lambda>v. bindR (as_dict v) (\<lambda>s. bindR (jitem ''window'' s) py_int)) subs) (\<lambda>ws.
           bindR (mapR (\<lambda>v. bindR (as_dict v) (\<lambda>s. bindR (jitem ''signal'' s) py_float_json)) subs) (\<lambda>xs.
             Inr (PerFactor ws, PerFactor xs))))"

section \<open>The document is faithful\<close>

text \<open>What reading a document back gives: an empty factor product counts as none.\<close>

definition normal_sub :: "sub_strategy \<Rightarrow> sub_strategy" where
  "normal_sub s = s\<lparr>ss_cusip := if truthy (ss_cusip s) then ss_cusip s else None\<rparr>"

lemma sub_from_json_to_json: "sub_from_json (sub_to_json i s) = Inr (normal_sub s)"
  by (cases "ss_cusip s")
    (simp_all add: sub_from_json_def sub_to_json_def as_dict_def as_text_def jitem_def jget_or_def
      normal_sub_def truthy_iff)

lemma mapR_sub_from_json:
  "mapR sub_from_json (map (\<lambda>(i, s). sub_to_json i s) (enumerate n subs)) = Inr (map normal_sub subs)"
  by (induction subs arbitrary: n) (simp_all add: sub_from_json_to_json)

lemma mapR_window:
  "mapR (\<lambda>v. bindR (as_dict v) (\<lambda>s. bindR (jitem ''window'' s) py_int))
     (map (\<lambda>(i, s). sub_to_json i s) (enumerate n subs)) = Inr (map ss_window subs)"
  by (induction subs arbitrary: n) (simp_all add: sub_to_json_def as_dict_def jitem_def)

lemma mapR_signal:
  "mapR (\<lambda>v. bindR (as_dict v) (\<lambda>s. bindR (jitem ''signal'' s) py_float_json))
     (map (\<lambda>(i, s). sub_to_json i s) (enumerate n subs)) = Inr (map ss_signal subs)"
  by (induction subs arbitrary: n) (simp_all add: sub_to_json_def as_dict_def jitem_def)

definition params_of :: "sub_strategy list \<Rightarrow> int param \<times> flt param" where
  "params_of subs =
     (case subs of [s] \<Rightarrow> (Scalar (ss_window s), Scalar (ss_signal s))
      | _ \<Rightarrow> (PerFactor (map ss_window subs), PerFactor (map ss_signal subs)))"

text \<open>C34: A stored strategy survives its JSON document. For a configuration with substrategies and
  a traded product whose first signal function exists, \<open>strategy_to_json\<close> returns a document from
  which \<open>config_from_json\<close> rebuilds the product, period, conjunction, identifier and every
  substrategy (an empty factor product read as none); an empty name becomes the generated one and
  the headline indicator and signal function those of the first substrategy. The document's
  parameters are the windows and signals of the substrategies.\<close>

theorem strategy_json_roundtrip:
  assumes "cf_subs c \<noteq> []" and "cf_cusip c \<noteq> []" and "resolve_sub (hd (cf_subs c)) = Inr f"
  shows "\<exists>doc. strategy_to_json now c window signal = Inr doc
    \<and> config_from_json doc = Inr (c\<lparr>cf_indicator := ss_indicator (hd (cf_subs c)), cf_signal_func := f,
        cf_name := (if cf_name c \<noteq> [] then cf_name c else auto_name c),
        cf_subs := map normal_sub (cf_subs c)\<rparr>)
    \<and> params_from_strategy_json doc = Inr (params_of (cf_subs c))"
proof -
  let ?js = "map (\<lambda>(i, s). sub_to_json i s) (enumerate 0 (cf_subs c))"
  have "?js \<noteq> []" using assms(1) by (cases "cf_subs c") simp_all
  have first: "resolve_sub (hd (map normal_sub (cf_subs c))) = Inr f"
    using assms by (simp add: hd_map resolve_sub_def normal_sub_def)
  have "params_from_strategy_json [(''substrategies'', JArr ?js)] = Inr (params_of (cf_subs c))"
  proof (cases "cf_subs c")
    case Nil
    with assms(1) show ?thesis by simp
  next
    case (Cons s rest)
    show ?thesis
    proof (cases rest)
      case Nil
      then show ?thesis
        by (simp add: Cons params_from_strategy_json_def jitem_def as_list_def params_of_def
            window_signal_def sub_to_json_def as_dict_def)
    next
      case (Cons t ts)
      then have js: "?js = sub_to_json 0 s # sub_to_json 1 t # map (\<lambda>(i, s). sub_to_json i s) (enumerate 2 ts)"
        using \<open>cf_subs c = s # rest\<close> by (simp add: numeral_2_eq_2)
      show ?thesis
        using mapR_window [of 0 "cf_subs c"] mapR_signal [of 0 "cf_subs c"] \<open>cf_subs c = s # rest\<close> Cons
        unfolding js
        by (simp add: params_from_strategy_json_def jitem_def as_list_def params_of_def)
    qed
  qed
  then have "params_from_strategy_json doc = Inr (params_of (cf_subs c))"
    if "map_of doc ''substrategies'' = Some (JArr ?js)" for doc
    using that by (simp add: params_from_strategy_json_def jitem_def)
  with assms first \<open>?js \<noteq> []\<close> show ?thesis
    by (simp add: strategy_to_json_def get_substrategies_def config_from_json_def jget_def jget_or_def
        as_text_def as_list_def mapR_sub_from_json hd_map normal_sub_def Let_def)
qed

definition demo_strategy :: strategy_cfg where
  "demo_strategy = single_config ''0a1b2c3d4e'' ''btcusdt.crypto'' ''get_sma'' Momentum_band 365 20 (Fin 1) ''v''"

theorem strategy_json_roundtrip_witness:
  "\<exists>doc. strategy_to_json ''now'' demo_strategy None None = Inr doc
     \<and> params_from_strategy_json doc = Inr (Scalar 20, Scalar (Fin 1))"
  using strategy_json_roundtrip [of demo_strategy Momentum_band "''now''" None None]
  by (auto simp: demo_strategy_def single_config_def resolve_sub_def params_of_def
      simp del: func_name.simps)

end
