(* ===== verification/Performance.thy ===== *)
theory Performance
  imports StrategyConfig
begin

text \<open>
  Indicators (\<open>quant/strategy/indicators.py\<close>), the series a strategy reads, its positions, profit
  and metrics (\<open>quant/strategy/performance.py\<close>), and the scalar objective of the parameter search
  (\<open>quant/strategy/objective.py\<close>).

  A data frame is an index and named columns. What pandas and numpy compute over a window or a
  whole series in an order of their own (rolling means, deviations and extremes, the exponential
  mean, \<open>pct_change\<close>, mean, deviation, product, power, root) is a parameter, the record
  \<open>kernels\<close>; the elementwise arithmetic, the masks, the lookups by label and the running products
  and maxima are written out, with the rounding of a double at every step.
\<close>

section \<open>Frames and kernels\<close>

record 'i frame =
  f_index :: "'i list"
  f_cols :: "(string \<times> series) list"

type_synonym 'i data_dict = "string \<Rightarrow> 'i frame option"

record kernels =
  rolling_mean :: "int \<Rightarrow> series \<Rightarrow> py_exn + series"
  rolling_std :: "int \<Rightarrow> series \<Rightarrow> py_exn + series"
  rolling_max :: "int \<Rightarrow> series \<Rightarrow> py_exn + series"
  rolling_min :: "int \<Rightarrow> series \<Rightarrow> py_exn + series"
  ewm_mean :: "int \<Rightarrow> series \<Rightarrow> py_exn + series"
  pct_change :: "series \<Rightarrow> series"
  mean_of :: "series \<Rightarrow> flt"
  std_of :: "series \<Rightarrow> flt"
  prod_of :: "series \<Rightarrow> flt"
  sqrt_of :: "flt \<Rightarrow> flt"
  pow_of :: "flt \<Rightarrow> flt \<Rightarrow> py_exn + flt"

definition column :: "string \<Rightarrow> 'i frame \<Rightarrow> py_exn + series" where
  "column k fr = (case map_of (f_cols fr) k of Some xs \<Rightarrow> Inr xs | None \<Rightarrow> Inl (KeyError k))"

definition has_column :: "string \<Rightarrow> 'i frame \<Rightarrow> bool" where
  "has_column k fr = (k \<in> fst ` set (f_cols fr))"

definition set_column :: "string \<Rightarrow> series \<Rightarrow> 'i frame \<Rightarrow> 'i frame" where
  "set_column k xs fr = fr\<lparr>f_cols := AList.update k xs (f_cols fr)\<rparr>"

text \<open>\<open>series.reindex(target)\<close>.\<close>

definition at_label :: "'i list \<Rightarrow> series \<Rightarrow> 'i \<Rightarrow> flt" where
  "at_label src vals t = (case map_of (zip src vals) t of Some v \<Rightarrow> v | None \<Rightarrow> NaN)"

definition reindex :: "'i list \<Rightarrow> 'i list \<Rightarrow> series \<Rightarrow> py_exn + series" where
  "reindex target src vals =
     (if src = target then Inr vals
      else if distinct src then Inr (map (at_label src vals) target)
      else Inl (ValueError ''cannot reindex on an axis with duplicate labels''))"

section \<open>Indicators\<close>

definition diff1 :: "series \<Rightarrow> series" where
  "diff1 xs = map (\<lambda>i. if i = 0 then NaN else flt_sub (xs ! i) (xs ! (i - 1))) [0..<length xs]"

definition get_sma :: "kernels \<Rightarrow> 'i frame \<Rightarrow> int \<Rightarrow> py_exn + 'i list \<times> series" where
  "get_sma K fr period =
     bindR (column ''factor'' fr) (\<lambda>xs.
     bindR (rolling_mean K period xs) (\<lambda>sma. Inr (f_index fr, sma)))"

definition get_ema :: "kernels \<Rightarrow> 'i frame \<Rightarrow> int \<Rightarrow> py_exn + 'i list \<times> series" where
  "get_ema K fr period =
     bindR (column ''factor'' fr) (\<lambda>xs.
     bindR (ewm_mean K period xs) (\<lambda>ema. Inr (f_index fr, ema)))"

definition get_rsi :: "kernels \<Rightarrow> 'i frame \<Rightarrow> int \<Rightarrow> py_exn + 'i list \<times> series" where
  "get_rsi K fr period =
     bindR (column ''factor'' fr) (\<lambda>xs.
       let rows = filter (\<lambda>(i, d). d \<noteq> NaN) (zip (f_index fr) (diff1 xs));
           delta = map snd rows;
           up = map (\<lambda>d. if flt_lt d (Fin 0) then Fin 0 else d) delta;
           down = map (\<lambda>d. if flt_lt (Fin 0) d then Fin 0 else d) delta
       in bindR (rolling_mean K period up) (\<lambda>roll_up.
          bindR (rolling_mean K period (map flt_abs down)) (\<lambda>roll_down.
            Inr (map fst rows,
                 map2 (\<lambda>u d. flt_sub (Fin 100) (flt_div (Fin 100) (flt_add (Fin 1) (flt_div u d))))
                   roll_up roll_down))))"

definition get_bollinger_band :: "kernels \<Rightarrow> 'i frame \<Rightarrow> int \<Rightarrow> py_exn + 'i list \<times> series" where
  "get_bollinger_band K fr period =
     bindR (column ''factor'' fr) (\<lambda>xs.
     bindR (rolling_mean K period xs) (\<lambda>sma.
     bindR (rolling_std K period xs) (\<lambda>rstd.
       Inr (f_index fr, map2 flt_div (map2 flt_sub xs sma) rstd))))"

definition get_stochastic_oscillator :: "kernels \<Rightarrow> 'i frame \<Rightarrow> int \<Rightarrow> py_exn + 'i list \<times> series" where
  "get_stochastic_oscillator K fr period =
     bindR (column ''High'' fr) (\<lambda>hi.
     bindR (rolling_max K period hi) (\<lambda>high.
     bindR (column ''Low'' fr) (\<lambda>lo.
     bindR (rolling_min K period lo) (\<lambda>low.
     bindR (column ''Close'' fr) (\<lambda>cl.
     bindR (rolling_mean K period
              (map2 flt_div (map (flt_mul (Fin 100)) (map2 flt_sub cl low)) (map2 flt_sub high low))) (\<lambda>d.
       Inr (f_index fr, d)))))))"

text \<open>\<open>TechnicalAnalysis(data)\<close>, and its lookup of an indicator by name.\<close>

definition technical_analysis :: "'i frame \<Rightarrow> py_exn + 'i frame" where
  "technical_analysis fr =
     (if has_column ''factor'' fr then Inr fr
      else Inl (ValueError ''DataFrame must contain a 'factor' column''))"

definition raw_indicator :: "kernels \<Rightarrow> string \<Rightarrow> 'i frame \<Rightarrow> int \<Rightarrow> py_exn + 'i list \<times> series" where
  "raw_indicator K name fr period =
     (if name = ''get_sma'' then get_sma K fr period
      else if name = ''get_ema'' then get_ema K fr period
      else if name = ''get_rsi'' then get_rsi K fr period
      else if name = ''get_bollinger_band'' then get_bollinger_band K fr period
      else if name = ''get_stochastic_oscillator'' then get_stochastic_oscillator K fr period
      else Inl (AttributeError ([CHR 0x27] @ ''TechnicalAnalysis' object has no attribute ''
             @ [CHR 0x27] @ name @ [CHR 0x27])))"

definition indicator :: "kernels \<Rightarrow> string \<Rightarrow> 'i frame \<Rightarrow> int \<Rightarrow> py_exn + series" where
  "indicator K name fr period =
     bindR (raw_indicator K name fr period) (\<lambda>(src, vals). reindex (f_index fr) src vals)"

section \<open>The series a strategy reads\<close>

definition lookup_frame :: "'i data_dict \<Rightarrow> string \<Rightarrow> py_exn + 'i frame" where
  "lookup_frame data k = (case data k of Some fr \<Rightarrow> Inr fr | None \<Rightarrow> Inl (KeyError k))"

definition sub_cusip :: "strategy_cfg \<Rightarrow> sub_strategy \<Rightarrow> string" where
  "sub_cusip c sub = (if truthy (ss_cusip sub) then the (ss_cusip sub) else cf_cusip c)"

definition min_coverage :: flt where
  "min_coverage = fl (8 / 10)"

definition coverage :: "'i list \<Rightarrow> 'i list \<Rightarrow> flt" where
  "coverage main factor =
     (let missing = set main - set factor
      in if main = [] then Fin 1
         else flt_sub (Fin 1) (fl (of_nat (card missing) / of_nat (card (set main)))))"

definition require_coverage :: "strategy_cfg \<Rightarrow> 'i frame \<Rightarrow> 'i frame \<Rightarrow> string \<Rightarrow> py_exn + unit" where
  "require_coverage c main factor factor_cusip =
     (let cov = coverage (f_index main) (f_index factor)
      in if flt_lt cov min_coverage
         then Inl (ValueError (''Factor '' @ [CHR 0x27] @ factor_cusip @ [CHR 0x27] @ '' covers only ''
                @ fmt_fixed 0 (flt_mul cov (Fin 100)) @ ''% of main product '' @ [CHR 0x27] @ cf_cusip c
                @ [CHR 0x27] @ '' dates ('' @ nat_str (card (set (f_index factor))) @ '' vs ''
                @ nat_str (card (set (f_index main))) @ '' trading days). Cannot use a product with fewer trading days as a factor for a product with more trading days.''))
         else Inr ())"

text \<open>\<open>FactorFrames.factor\<close> and \<open>single_factor_frame\<close>.\<close>

definition factor_series :: "strategy_cfg \<Rightarrow> 'i data_dict \<Rightarrow> sub_strategy \<Rightarrow> py_exn + series" where
  "factor_series c data sub =
     bindR (lookup_frame data (cf_cusip c)) (\<lambda>main.
     bindR (lookup_frame data (sub_cusip c sub)) (\<lambda>sub_df.
     bindR (if sub_cusip c sub \<noteq> cf_cusip c then require_coverage c main sub_df (sub_cusip c sub)
            else Inr ()) (\<lambda>_.
     bindR (column (ss_column sub) sub_df) (\<lambda>xs.
       reindex (f_index main) (f_index sub_df) xs))))"

definition single_factor_frame :: "strategy_cfg \<Rightarrow> 'i data_dict \<Rightarrow> py_exn + 'i frame" where
  "single_factor_frame c data =
     (let sub = hd (get_substrategies c)
      in bindR (lookup_frame data (cf_cusip c)) (\<lambda>main.
         if sub_cusip c sub \<noteq> cf_cusip c
         then bindR (factor_series c data sub) (\<lambda>xs. Inr (set_column ''factor'' xs main))
         else bindR (lookup_frame data (sub_cusip c sub)) (\<lambda>sub_df.
                if has_column (ss_column sub) sub_df
                then bindR (factor_series c data sub) (\<lambda>xs. Inr (set_column ''factor'' xs main))
                else Inr main)))"

section \<open>Profit\<close>

text \<open>\<open>strategy_pnl\<close>: the position held entering a bar, the turnover, and the profit of the bar.\<close>

definition strategy_pnl :: "series \<Rightarrow> series \<Rightarrow> flt \<Rightarrow> py_exn + series \<times> series \<times> series" where
  "strategy_pnl position chg transaction_cost =
     (if position = [] then Inl (IndexError ''index 0 is out of bounds for axis 0 with size 0'')
      else
        (let prior = NaN # butlast position;
             turnover = map2 (\<lambda>p q. if p = NaN then NaN
                                    else if p \<noteq> NaN \<and> q \<noteq> NaN then flt_abs (flt_sub p q) else Fin 0)
                          position prior;
             pnl = map2 flt_sub (map2 flt_mul prior chg) (map (\<lambda>t. flt_mul t transaction_cost) turnover)
         in Inr (prior, turnover, pnl)))"

text \<open>\<open>clip\<close>, \<open>cumprod\<close> and \<open>cummax\<close>: a missing value stays missing and is skipped.\<close>

definition clip_lower :: "flt \<Rightarrow> flt \<Rightarrow> flt" where
  "clip_lower lo x = (if flt_lt x lo then lo else x)"

fun running :: "(flt \<Rightarrow> flt \<Rightarrow> flt) \<Rightarrow> flt option \<Rightarrow> series \<Rightarrow> series" where
  "running f acc [] = []"
| "running f acc (x # xs) =
     (if x = NaN then NaN # running f acc xs
      else let y = (case acc of None \<Rightarrow> x | Some a \<Rightarrow> f a x) in y # running f (Some y) xs)"

definition flt_max :: "flt \<Rightarrow> flt \<Rightarrow> flt" where
  "flt_max a x = (if a = NaN \<or> x = NaN then NaN else if flt_lt a x then x else a)"

definition equity_curve :: "series \<Rightarrow> series" where
  "equity_curve pnl = running flt_mul None (map (\<lambda>x. clip_lower (Fin 0) (flt_add (Fin 1) x)) pnl)"

definition compound :: "series \<Rightarrow> series \<times> series" where
  "compound pnl =
     (let equity = equity_curve pnl;
          peak = map (clip_lower (Fin 1)) (running flt_max None equity)
      in (map (\<lambda>e. flt_sub e (Fin 1)) equity,
          map2 (\<lambda>e p. flt_sub (Fin 1) (flt_div e p)) equity peak))"

definition n_known :: "series \<Rightarrow> nat" where
  "n_known xs = length (filter (\<lambda>x. x \<noteq> NaN) xs)"

definition cagr :: "kernels \<Rightarrow> series \<Rightarrow> int \<Rightarrow> py_exn + flt" where
  "cagr K pnl trading_period =
     (if n_known pnl = 0 then Inr NaN
      else
        (let equity = prod_of K (map (\<lambda>x. clip_lower (Fin 0) (flt_add (Fin 1) x)) pnl)
         in bindR (pow_of K equity (fl (of_int trading_period / of_nat (n_known pnl)))) (\<lambda>r.
              Inr (flt_sub r (Fin 1)))))"

definition sharpe_ratio :: "kernels \<Rightarrow> series \<Rightarrow> int \<Rightarrow> int \<Rightarrow> flt" where
  "sharpe_ratio K pnl trading_period min_obs =
     (let finite = filter (\<lambda>x. x \<noteq> NaN) pnl
      in if int (length finite) < min_obs then NaN
         else
           (let std = std_of K finite
            in if flt_eq std (Fin 0) \<or> std = NaN then NaN
               else flt_mul (flt_div (mean_of K finite) std) (sqrt_of K (fl (of_int trading_period)))))"

section \<open>Performance\<close>

record 'i performance =
  pf_config :: strategy_cfg
  pf_data :: "'i data_dict"
  pf_main :: "'i frame"
  pf_windows :: "int list"
  pf_signals :: "flt list"
  pf_metric_window :: int
  pf_cost :: flt
  pf_min_obs :: int

definition is_multi :: "strategy_cfg \<Rightarrow> bool" where
  "is_multi c = (1 < length (get_substrategies c))"

definition default_fee_bps :: flt where
  "default_fee_bps = Fin 10"

definition transaction_cost :: "flt option \<Rightarrow> flt" where
  "transaction_cost fee_bps = flt_div (case fee_bps of Some f \<Rightarrow> f | None \<Rightarrow> default_fee_bps) (Fin 10000)"

text \<open>
  The parameters of each factor. A tuple of parameters on a strategy of one factor is refused: what
  pandas raises for it is not modelled further.
\<close>

definition per_factor :: "strategy_cfg \<Rightarrow> 'a param \<Rightarrow> py_exn + 'a list" where
  "per_factor c p =
     (case p of
        Scalar x \<Rightarrow> Inr (replicate (length (get_substrategies c)) x)
      | PerFactor xs \<Rightarrow>
          if is_multi c then Inr xs else Inl (TypeError ''one parameter expected for one factor''))"

definition max_list :: "int list \<Rightarrow> py_exn + int" where
  "max_list xs =
     (case xs of [] \<Rightarrow> Inl (ValueError ''max() iterable argument is empty'')
      | x # rest \<Rightarrow> Inr (foldl max x rest))"

definition new_performance ::
  "strategy_cfg \<Rightarrow> 'i data_dict \<Rightarrow> int param option \<Rightarrow> flt param option \<Rightarrow> flt option \<Rightarrow> int
   \<Rightarrow> py_exn + 'i performance" where
  "new_performance c data window signal fee_bps min_metric_obs =
     bindR (lookup_frame data (cf_cusip c)) (\<lambda>main.
     bindR (case (window, signal) of
              (Some w, Some s) \<Rightarrow>
                bindR (per_factor c w) (\<lambda>ws. bindR (per_factor c s) (\<lambda>ss. Inr (ws, ss)))
            | _ \<Rightarrow> Inr (map ss_window (get_substrategies c), map ss_signal (get_substrategies c)))
       (\<lambda>(ws, ss).
     bindR (max_list ws) (\<lambda>mw.
       Inr \<lparr>pf_config = c, pf_data = data, pf_main = main, pf_windows = ws, pf_signals = ss,
            pf_metric_window = mw, pf_cost = transaction_cost fee_bps, pf_min_obs = min_metric_obs\<rparr>)))"

definition item :: "'a list \<Rightarrow> nat \<Rightarrow> py_exn + 'a" where
  "item xs i = (if i < length xs then Inr (xs ! i) else Inl (IndexError ''tuple index out of range''))"

definition single_factor_outputs :: "kernels \<Rightarrow> 'i performance \<Rightarrow> py_exn + 'i frame \<times> series \<times> series" where
  "single_factor_outputs K p =
     bindR (single_factor_frame (pf_config p) (pf_data p)) (\<lambda>data.
     bindR (technical_analysis data) (\<lambda>ta.
     bindR (item (pf_windows p) 0) (\<lambda>w.
     bindR (indicator K (cf_indicator (pf_config p)) ta w) (\<lambda>ind.
     bindR (item (pf_signals p) 0) (\<lambda>s.
       Inr (data, ind, apply_signal (cf_signal_func (pf_config p)) ind s))))))"

text \<open>The frame an indicator of one of several factors sees holds only that factor.\<close>

definition factor_frame :: "'i frame \<Rightarrow> series \<Rightarrow> 'i frame" where
  "factor_frame main xs = \<lparr>f_index = f_index main, f_cols = [(''factor'', xs)]\<rparr>"

definition indicator_and_position ::
  "kernels \<Rightarrow> 'i frame \<Rightarrow> sub_strategy \<Rightarrow> series \<Rightarrow> int \<Rightarrow> flt \<Rightarrow> py_exn + series \<times> series" where
  "indicator_and_position K main sub factor_vals window signal =
     bindR (technical_analysis (factor_frame main factor_vals)) (\<lambda>ta.
     bindR (indicator K (ss_indicator sub) ta window) (\<lambda>ind.
     bindR (resolve_sub sub) (\<lambda>f.
       Inr (ind, apply_signal f ind signal))))"

definition multi_factor_outputs :: "kernels \<Rightarrow> 'i performance \<Rightarrow> py_exn + (series \<times> series \<times> series) list \<times> series" where
  "multi_factor_outputs K p =
     (let c = pf_config p
      in bindR (technical_analysis (pf_main p)) (\<lambda>_.
         bindR (mapR (\<lambda>(i, sub).
                  bindR (factor_series c (pf_data p) sub) (\<lambda>factor_vals.
                  bindR (item (pf_windows p) i) (\<lambda>w.
                  bindR (item (pf_signals p) i) (\<lambda>s.
                  bindR (indicator_and_position K (pf_main p) sub factor_vals w s) (\<lambda>(ind, pos).
                    Inr (factor_vals, ind, pos))))))
                (enumerate 0 (get_substrategies c))) (\<lambda>outs.
         bindR (combine_positions (map (\<lambda>(f, ind, pos). pos) outs) (cf_conjunction c)
                  (Some (map (\<lambda>(f, ind, pos). ind) outs))) (\<lambda>combined.
           Inr (outs, combined)))))"

definition final_position :: "kernels \<Rightarrow> 'i performance \<Rightarrow> py_exn + series" where
  "final_position K p =
     (if is_multi (pf_config p) then bindR (multi_factor_outputs K p) (\<lambda>(outs, fp). Inr fp)
      else bindR (single_factor_outputs K p) (\<lambda>(data, ind, pos). Inr pos))"

definition latest_final_position :: "'i list \<Rightarrow> series \<Rightarrow> py_exn + flt \<times> 'i" where
  "latest_final_position index fp =
     (let known = filter (\<lambda>(i, p). p \<noteq> NaN) (zip index fp)
      in if known = [] then Inl (ValueError ''insufficient data to compute signal'')
         else Inr (snd (last known), fst (last known)))"

definition compute_latest_position :: "kernels \<Rightarrow> 'i performance \<Rightarrow> py_exn + flt \<times> 'i" where
  "compute_latest_position K p =
     bindR (final_position K p) (\<lambda>fp. latest_final_position (f_index (pf_main p)) fp)"

record 'i enriched =
  en_index :: "'i list"
  en_position :: series
  en_chg :: series
  en_prior :: series
  en_trade :: series
  en_pnl :: series
  en_cumu :: series
  en_dd :: series
  en_buy_hold :: series
  en_bh_cumu :: series
  en_bh_dd :: series

definition enrich_performance :: "kernels \<Rightarrow> 'i performance \<Rightarrow> py_exn + 'i enriched" where
  "enrich_performance K p =
     bindR (final_position K p) (\<lambda>fp.
     bindR (column ''price'' (pf_main p)) (\<lambda>price.
       let chg = pct_change K price
       in bindR (strategy_pnl fp chg (pf_cost p)) (\<lambda>(prior, turnover, pnl).
            let buy_hold = map2 (\<lambda>q c. if q = NaN then NaN else c) prior chg
            in Inr \<lparr>en_index = f_index (pf_main p), en_position = fp, en_chg = chg, en_prior = prior,
                    en_trade = turnover, en_pnl = pnl, en_cumu = fst (compound pnl),
                    en_dd = snd (compound pnl), en_buy_hold = buy_hold,
                    en_bh_cumu = fst (compound buy_hold), en_bh_dd = snd (compound buy_hold)\<rparr>)))"

text \<open>\<open>iloc[w:]\<close>.\<close>

definition slice_from :: "int \<Rightarrow> 'a list \<Rightarrow> 'a list" where
  "slice_from w xs = drop (nat (if 0 \<le> w then w else int (length xs) + w)) xs"

definition metric_n_obs :: "'i performance \<Rightarrow> 'i enriched \<Rightarrow> int" where
  "metric_n_obs p e = int (n_known (slice_from (pf_metric_window p) (en_pnl e)))"

record metrics =
  total_return :: flt
  annualized_return :: flt
  sharpe :: flt
  max_drawdown :: flt
  calmar :: flt

definition series_max :: "series \<Rightarrow> flt" where
  "series_max xs = (case filter (\<lambda>x. x \<noteq> NaN) xs of [] \<Rightarrow> NaN | x # rest \<Rightarrow> foldl flt_max x rest)"

definition annualized :: "kernels \<Rightarrow> 'i performance \<Rightarrow> 'i enriched \<Rightarrow> series \<Rightarrow> py_exn + flt" where
  "annualized K p e col =
     (if metric_n_obs p e < pf_min_obs p then Inr NaN
      else cagr K (slice_from (pf_metric_window p) col) (cf_period (pf_config p)))"

definition calmar_ratio :: "flt \<Rightarrow> py_exn + flt \<Rightarrow> py_exn + flt" where
  "calmar_ratio max_dd ann =
     (if flt_eq max_dd (Fin 0) \<or> max_dd = NaN then Inr NaN
      else bindR ann (\<lambda>a. Inr (flt_div a max_dd)))"

definition metrics_of ::
  "kernels \<Rightarrow> 'i performance \<Rightarrow> 'i enriched \<Rightarrow> series \<Rightarrow> series \<Rightarrow> series \<Rightarrow> py_exn + metrics" where
  "metrics_of K p e pnl cumu dd =
     bindR (if cumu = [] then Inl (IndexError ''single positional indexer is out-of-bounds'')
            else Inr (last cumu)) (\<lambda>tot.
     bindR (annualized K p e pnl) (\<lambda>ann.
     bindR (calmar_ratio (series_max dd) (annualized K p e pnl)) (\<lambda>cal.
       Inr \<lparr>total_return = tot, annualized_return = ann,
            sharpe = sharpe_ratio K (slice_from (pf_metric_window p) pnl) (cf_period (pf_config p)) (pf_min_obs p),
            max_drawdown = series_max dd, calmar = cal\<rparr>)))"

definition strategy_performance :: "kernels \<Rightarrow> 'i performance \<Rightarrow> 'i enriched \<Rightarrow> py_exn + metrics" where
  "strategy_performance K p e = metrics_of K p e (en_pnl e) (en_cumu e) (en_dd e)"

definition buy_hold_performance :: "kernels \<Rightarrow> 'i performance \<Rightarrow> 'i enriched \<Rightarrow> py_exn + metrics" where
  "buy_hold_performance K p e = metrics_of K p e (en_buy_hold e) (en_bh_cumu e) (en_bh_dd e)"

definition get_sharpe_ratio :: "kernels \<Rightarrow> 'i performance \<Rightarrow> 'i enriched \<Rightarrow> flt" where
  "get_sharpe_ratio K p e =
     sharpe_ratio K (slice_from (pf_metric_window p) (en_pnl e)) (cf_period (pf_config p)) (pf_min_obs p)"

text \<open>How far back a live evaluation reads.\<close>

definition max_window :: "int param \<Rightarrow> py_exn + int" where
  "max_window w = (case w of Scalar x \<Rightarrow> Inr x | PerFactor xs \<Rightarrow> max_list xs)"

definition live_lookback_days :: "int \<Rightarrow> int \<Rightarrow> int" where
  "live_lookback_days w trading_period = max (w * 3 + 60) (min trading_period 400)"

definition live_lookback_bars :: "int param \<Rightarrow> py_exn + int" where
  "live_lookback_bars window = bindR (max_window window) (\<lambda>w. Inr (w * 3 + 60))"

end
