(* ===== verification/NoLookahead.thy ===== *)
theory NoLookahead
  imports Performance
begin

text \<open>
  What the evaluation of a strategy promises: a position depends on no later bar, the drawdown is a
  share of the capital, and the scalar search objective is the metric it stands for.
\<close>

section \<open>Causal kernels\<close>

definition causal :: "(series \<Rightarrow> py_exn + series) \<Rightarrow> bool" where
  "causal f \<longleftrightarrow> (\<forall>xs ys. f xs = Inr ys \<longrightarrow> length ys = length xs)
     \<and> (\<forall>k xs. f (take k xs) = map_sum id (take k) (f xs))"

text \<open>What pandas documents of the trailing windows, the exponential mean and \<open>pct_change\<close>.\<close>

definition causal_kernels :: "kernels \<Rightarrow> bool" where
  "causal_kernels K \<longleftrightarrow>
     (\<forall>w. causal (rolling_mean K w) \<and> causal (rolling_std K w) \<and> causal (rolling_max K w)
        \<and> causal (rolling_min K w) \<and> causal (ewm_mean K w))
     \<and> (\<forall>xs. length (pct_change K xs) = length xs)
     \<and> (\<forall>k xs. pct_change K (take k xs) = take k (pct_change K xs))"

lemma causal_take: "causal f \<Longrightarrow> f (take k xs) = map_sum id (take k) (f xs)"
  by (simp add: causal_def)

lemma causal_length: "causal f \<Longrightarrow> f xs = Inr ys \<Longrightarrow> length ys = length xs"
  by (simp add: causal_def)

definition well_formed :: "'i::linorder frame \<Rightarrow> bool" where
  "well_formed fr \<longleftrightarrow> sorted_wrt (<) (f_index fr)
     \<and> (\<forall>(k, xs) \<in> set (f_cols fr). length xs = length (f_index fr))"

definition known_at :: "'i::linorder \<Rightarrow> 'i frame \<Rightarrow> 'i frame" where
  "known_at t fr =
     \<lparr>f_index = filter (\<lambda>i. i \<le> t) (f_index fr),
      f_cols = map (\<lambda>(k, xs). (k, map snd (filter (\<lambda>(i, x). i \<le> t) (zip (f_index fr) xs)))) (f_cols fr)\<rparr>"

definition take_frame :: "nat \<Rightarrow> 'i frame \<Rightarrow> 'i frame" where
  "take_frame n fr = \<lparr>f_index = take n (f_index fr), f_cols = map (\<lambda>(k, xs). (k, take n xs)) (f_cols fr)\<rparr>"

lemma sorted_distinct: "sorted_wrt (<) (xs :: 'i::linorder list) \<Longrightarrow> distinct xs"
  by (induction xs) auto

lemma filter_zip_take:
  assumes "length idx = length xs" and "sorted_wrt (<) (idx :: 'i::linorder list)"
  shows "filter (\<lambda>(i, x). i \<le> t) (zip idx xs) = take (length (filter (\<lambda>i. i \<le> t) idx)) (zip idx xs)"
  using assms
proof (induction idx xs rule: list_induct2)
  case (Cons i idx x xs)
  then have "i \<le> t \<or> filter (\<lambda>j. j \<le> t) idx = []"
    by (auto simp: filter_empty_conv not_le dest: order.strict_trans)
  with Cons show ?case by (auto simp: filter_empty_conv dest: set_zip_leftD)
qed simp

lemma known_at_take:
  assumes "well_formed fr"
  shows "known_at t fr = take_frame (length (filter (\<lambda>i. i \<le> t) (f_index fr))) fr"
proof -
  let ?n = "length (filter (\<lambda>i. i \<le> t) (f_index fr))"
  have srt: "sorted_wrt (<) (f_index fr)" using assms by (simp add: well_formed_def)
  have "map fst (filter (\<lambda>(i, x). i \<le> t) (zip (f_index fr) (f_index fr)))
      = map fst (take ?n (zip (f_index fr) (f_index fr)))"
    by (simp add: filter_zip_take [OF refl srt])
  moreover have "map fst (filter (\<lambda>(i, x). i \<le> t) (zip xs xs)) = filter (\<lambda>i. i \<le> t) xs" for xs :: "'a list"
    by (induction xs) auto
  ultimately have idx: "filter (\<lambda>i. i \<le> t) (f_index fr) = take ?n (f_index fr)"
    by (simp add: take_map [symmetric])
  have "map snd (filter (\<lambda>(i, x). i \<le> t) (zip (f_index fr) xs)) = take ?n xs"
    if "(k, xs) \<in> set (f_cols fr)" for k xs
  proof -
    have len: "length (f_index fr) = length xs" using assms that by (auto simp: well_formed_def)
    then show ?thesis by (simp add: filter_zip_take [OF len srt] take_map [symmetric])
  qed
  then have "f_cols (known_at t fr) = f_cols (take_frame ?n fr)"
    by (auto simp: known_at_def take_frame_def)
  with idx show ?thesis by (simp add: known_at_def take_frame_def)
qed

lemma column_take [simp]: "column k (take_frame n fr) = map_sum id (take n) (column k fr)"
  by (auto simp: column_def take_frame_def map_of_map comp_def split: option.splits)

lemma has_column_take [simp]: "has_column k (take_frame n fr) = has_column k fr"
  by (force simp: has_column_def take_frame_def)

lemma index_take [simp]: "f_index (take_frame n fr) = take n (f_index fr)"
  by (simp add: take_frame_def)

lemma column_length:
  assumes "well_formed fr" and "column k fr = Inr xs"
  shows "length xs = length (f_index fr)"
  using assms by (auto simp: column_def well_formed_def split: option.splits dest: map_of_SomeD)

section \<open>Lookup by label\<close>

lemma at_label_nth:
  assumes "distinct src" and "length vals = length src" and "j < length src"
  shows "at_label src vals (src ! j) = vals ! j"
proof -
  have "map_of (zip src vals) (src ! j) = Some (vals ! j)"
    using assms by (intro map_of_is_SomeI) (auto simp: in_set_zip)
  then show ?thesis by (simp add: at_label_def)
qed

lemma reindex_lookup:
  assumes "distinct src" and "length vals = length src"
  shows "reindex target src vals = Inr (map (at_label src vals) target)"
  using assms by (auto simp: reindex_def at_label_nth intro!: nth_equalityI)

lemma at_label_prefix:
  assumes "t \<notin> set (drop m src)"
  shows "at_label (take m src) (take m vals) t = at_label src vals t"
proof -
  have "zip src vals = take m (zip src vals) @ drop m (zip src vals)" by simp
  then have "zip src vals = zip (take m src) (take m vals) @ zip (drop m src) (drop m vals)"
    by (simp only: take_zip drop_zip)
  moreover have "map_of (zip (drop m src) (drop m vals)) t = None"
    using assms by (auto simp: map_of_eq_None_iff dest: set_zip_leftD)
  ultimately show ?thesis
    by (simp add: at_label_def map_add_def split: option.split)
qed

lemma reindex_prefix:
  assumes "distinct target" and "distinct src" and "length vals = length src"
    and "set (drop m src) \<subseteq> set (drop n target)"
  shows "reindex (take n target) (take m src) (take m vals) = map_sum id (take n) (reindex target src vals)"
proof -
  have "t \<notin> set (drop m src)" if "t \<in> set (take n target)" for t
    using that assms(1,4) set_take_disj_set_drop_if_distinct [of target n n] by auto
  then show ?thesis
    using assms by (simp add: reindex_lookup take_map at_label_prefix)
qed

section \<open>Indicators are causal\<close>

lemma map2_take: "map2 f (take n xs) (take n ys) = take n (map2 f xs ys)"
  by (simp add: take_map take_zip)

lemma diff1_take: "diff1 (take n xs) = take n (diff1 xs)"
  by (auto simp: diff1_def take_map take_upt min_def)

lemma length_diff1 [simp]: "length (diff1 xs) = length xs"
  by (simp add: diff1_def)

lemma filter_take_prefix: "filter P (take n xs) = take (length (filter P (take n xs))) (filter P xs)"
proof -
  have "filter P xs = filter P (take n xs) @ filter P (drop n xs)"
    by (metis append_take_drop_id filter_append)
  then show ?thesis by simp
qed

lemma rsi_index:
  assumes "distinct idx"
  shows "set (drop (length (filter P (take n (zip idx ds)))) (map fst (filter P (zip idx ds)))) \<subseteq> set (drop n idx)"
    and "distinct (map fst (filter P (zip idx ds)))"
proof -
  have "filter P (zip idx ds) = filter P (take n (zip idx ds)) @ filter P (drop n (zip idx ds))"
    by (metis append_take_drop_id filter_append)
  then have "drop (length (filter P (take n (zip idx ds)))) (filter P (zip idx ds))
      = filter P (zip (drop n idx) (drop n ds))"
    by (simp add: drop_zip)
  then show "set (drop (length (filter P (take n (zip idx ds)))) (map fst (filter P (zip idx ds))))
      \<subseteq> set (drop n idx)"
    by (auto simp: drop_map dest: set_zip_leftD)
  show "distinct (map fst (filter P (zip idx ds)))"
    using assms by (metis distinct_map_filter distinct_take map_fst_zip_take)
qed

lemma get_rsi_take:
  fixes fr :: "'i::linorder frame"
  assumes "causal_kernels K" and "distinct (f_index fr)"
  shows "bindR (get_rsi K (take_frame n fr) w) (\<lambda>(src, vals). reindex (take n (f_index fr)) src vals)
       = map_sum id (take n) (bindR (get_rsi K fr w) (\<lambda>(src, vals). reindex (f_index fr) src vals))"
proof (cases "column ''factor'' fr")
  case (Inl e)
  then show ?thesis by (simp add: get_rsi_def)
next
  case (Inr xs)
  define P :: "'i \<times> flt \<Rightarrow> bool" where "P = (\<lambda>(i, d). d \<noteq> NaN)"
  define Z where "Z = zip (f_index fr) (diff1 xs)"
  define m where "m = length (filter P (take n Z))"
  have Zn: "zip (take n (f_index fr)) (diff1 (take n xs)) = take n Z"
    by (simp add: Z_def take_zip diff1_take)
  have rows: "filter P (take n Z) = take m (filter P Z)"
    unfolding m_def by (rule filter_take_prefix)
  define up where "up = map (\<lambda>d. if flt_lt d (Fin 0) then Fin 0 else d) (map snd (filter P Z))"
  define down where "down = map flt_abs (map (\<lambda>d. if flt_lt (Fin 0) d then Fin 0 else d) (map snd (filter P Z)))"
  have roll: "rolling_mean K w (take m ys) = map_sum id (take m) (rolling_mean K w ys)" for ys
    using assms(1) by (auto simp: causal_kernels_def causal_take)
  have len: "rolling_mean K w ys = Inr zs \<Longrightarrow> length zs = length ys" for ys zs
    using assms(1) by (auto simp: causal_kernels_def dest: causal_length)
  let ?f = "\<lambda>u d. flt_sub (Fin 100) (flt_div (Fin 100) (flt_add (Fin 1) (flt_div u d)))"
  have full: "get_rsi K fr w = bindR (rolling_mean K w up) (\<lambda>ru. bindR (rolling_mean K w down) (\<lambda>rd.
      Inr (map fst (filter P Z), map2 ?f ru rd)))"
    by (simp add: get_rsi_def Inr Z_def P_def up_def down_def Let_def del: list.map_comp map_map)
  have cut: "get_rsi K (take_frame n fr) w = bindR (rolling_mean K w (take m up)) (\<lambda>ru.
      bindR (rolling_mean K w (take m down)) (\<lambda>rd. Inr (take m (map fst (filter P Z)), map2 ?f ru rd)))"
    unfolding up_def down_def take_map
    by (simp add: get_rsi_def Inr Zn P_def [symmetric] rows Let_def del: list.map_comp map_map)
  show ?thesis
  proof (cases "rolling_mean K w up")
    case (Inl e)
    then show ?thesis by (simp add: full cut roll)
  next
    case ru: (Inr ru)
    show ?thesis
    proof (cases "rolling_mean K w down")
      case (Inl e)
      with ru show ?thesis by (simp add: full cut roll)
    next
      case rd: (Inr rd)
      have "reindex (take n (f_index fr)) (take m (map fst (filter P Z))) (take m (map2 ?f ru rd))
        = map_sum id (take n) (reindex (f_index fr) (map fst (filter P Z)) (map2 ?f ru rd))"
        using rsi_index(1) [OF assms(2), of P n "diff1 xs"] rsi_index(2) [OF assms(2), of P "diff1 xs"] len [OF ru] len [OF rd] assms(2)
        by (intro reindex_prefix) (simp_all add: Z_def m_def up_def down_def)
      with ru rd show ?thesis by (simp add: full cut roll map2_take)
    qed
  qed
qed

text \<open>The other indicators keep the index, so only their values are cut.\<close>

lemma indicator_take:
  fixes fr :: "'i::linorder frame"
  assumes "causal_kernels K" and "distinct (f_index fr)"
  shows "indicator K name (take_frame n fr) w = map_sum id (take n) (indicator K name fr w)"
proof -
  have k: "rolling_mean K w (take n ys) = map_sum id (take n) (rolling_mean K w ys)"
    "rolling_std K w (take n ys) = map_sum id (take n) (rolling_std K w ys)"
    "rolling_max K w (take n ys) = map_sum id (take n) (rolling_max K w ys)"
    "rolling_min K w (take n ys) = map_sum id (take n) (rolling_min K w ys)"
    "ewm_mean K w (take n ys) = map_sum id (take n) (ewm_mean K w ys)" for ys
    using assms(1) by (simp_all add: causal_kernels_def causal_take)
  have bound: "bindR (map_sum id (take n) r) g = map_sum id (take n) (bindR r h)"
    if "\<And>x. g (take n x) = map_sum id (take n) (h x)" for r :: "py_exn + series" and g h
    using that by (cases r) simp_all
  note unf = indicator_def raw_indicator_def reindex_def k map2_take
  consider (sma) "name = ''get_sma''" | (ema) "name = ''get_ema''" | (rsi) "name = ''get_rsi''"
    | (boll) "name = ''get_bollinger_band''" | (stoch) "name = ''get_stochastic_oscillator''"
    | (none) "name \<notin> {''get_sma'', ''get_ema'', ''get_rsi'', ''get_bollinger_band'', ''get_stochastic_oscillator''}"
    by blast
  then show ?thesis
  proof cases
    case sma
    show ?thesis
      by (cases "column ''factor'' fr"; cases "rolling_mean K w (projr (column ''factor'' fr))")
        (simp_all add: sma unf get_sma_def)
  next
    case ema
    show ?thesis
      by (cases "column ''factor'' fr"; cases "ewm_mean K w (projr (column ''factor'' fr))")
        (simp_all add: ema unf get_ema_def)
  next
    case rsi
    then show ?thesis using get_rsi_take [OF assms, of n w] by (simp add: indicator_def raw_indicator_def)
  next
    case boll
    show ?thesis
      by (cases "column ''factor'' fr"; cases "rolling_mean K w (projr (column ''factor'' fr))";
          cases "rolling_std K w (projr (column ''factor'' fr))")
        (simp_all add: boll unf get_bollinger_band_def)
  next
    case stoch
    show ?thesis
    proof (cases "column ''High'' fr")
      case (Inr hi)
      note hi = Inr
      show ?thesis
      proof (cases "column ''Low'' fr")
        case (Inr lo)
        note lo = Inr
        show ?thesis
        proof (cases "column ''Close'' fr")
          case (Inr cl)
          show ?thesis
          proof (cases "rolling_max K w hi"; cases "rolling_min K w lo")
            fix a b assume ab: "rolling_max K w hi = Inr a" "rolling_min K w lo = Inr b"
            let ?k = "map2 flt_div (map (flt_mul (Fin 100)) (map2 flt_sub cl b)) (map2 flt_sub a b)"
            have "map2 flt_div (map (flt_mul (Fin 100)) (map2 flt_sub (take n cl) (take n b)))
                (map2 flt_sub (take n a) (take n b)) = take n ?k"
              by (simp only: map2_take take_map [symmetric])
            then have "indicator K name (take_frame n fr) w = bindR (rolling_mean K w (take n ?k)) Inr"
              unfolding stoch indicator_def raw_indicator_def get_stochastic_oscillator_def column_take hi lo Inr
              by (cases "rolling_mean K w (take n ?k)") (simp_all add: k ab reindex_def)
            moreover have "indicator K name fr w = bindR (rolling_mean K w ?k) Inr"
              unfolding stoch indicator_def raw_indicator_def get_stochastic_oscillator_def hi lo Inr
              by (cases "rolling_mean K w ?k") (simp_all add: ab reindex_def)
            ultimately show ?thesis
              using k(1) [of ?k] by (cases "rolling_mean K w ?k") simp_all
          qed (simp_all add: stoch unf get_stochastic_oscillator_def hi lo Inr)
        qed (cases "rolling_max K w hi"; cases "rolling_min K w lo";
            simp add: stoch unf get_stochastic_oscillator_def hi lo)
      qed (cases "rolling_max K w hi"; simp add: stoch unf get_stochastic_oscillator_def hi)
    qed (simp add: stoch unf get_stochastic_oscillator_def)
  next
    case none
    then show ?thesis by (simp add: indicator_def raw_indicator_def)
  qed
qed

lemma indicator_length:
  fixes fr :: "'i::linorder frame"
  assumes "causal_kernels K" and "well_formed fr" and "indicator K name fr w = Inr xs"
  shows "length xs = length (f_index fr)"
proof -
  have k: "rolling_mean K w ys = Inr zs \<Longrightarrow> length zs = length ys"
    "rolling_std K w ys = Inr zs \<Longrightarrow> length zs = length ys"
    "rolling_max K w ys = Inr zs \<Longrightarrow> length zs = length ys"
    "rolling_min K w ys = Inr zs \<Longrightarrow> length zs = length ys"
    "ewm_mean K w ys = Inr zs \<Longrightarrow> length zs = length ys" for ys zs
    using assms(1) by (auto simp: causal_kernels_def dest: causal_length)
  note col = column_length [OF assms(2)]
  have raw: "length vals = length src" if "raw_indicator K name fr w = Inr (src, vals)" for src vals
    using that k col
    by (auto simp: raw_indicator_def get_sma_def get_ema_def get_rsi_def get_bollinger_band_def
        get_stochastic_oscillator_def bindR_Inr_iff Let_def split: if_splits dest!: k dest: col)
  show ?thesis
    using assms(3) raw by (auto simp: indicator_def bindR_Inr_iff reindex_def split: if_splits)
qed

section \<open>Positions are causal\<close>

lemma map_of_filter_fst: "P i \<Longrightarrow> map_of (filter (\<lambda>(i, x). P i) z) i = map_of z i"
  by (induction z) auto

lemma at_label_known:
  assumes "i \<le> t"
  shows "at_label (map fst (filter (\<lambda>(i, x). i \<le> t) (zip src vals))) (map snd (filter (\<lambda>(i, x). i \<le> t) (zip src vals))) i
       = at_label src vals i"
  using assms map_of_filter_fst [of "\<lambda>i. i \<le> t" i "zip src vals"] by (simp add: at_label_def zip_map_fst_snd)

definition known_data :: "'i::linorder \<Rightarrow> 'i data_dict \<Rightarrow> 'i data_dict" where
  "known_data t data = (\<lambda>k. map_option (known_at t) (data k))"

definition well_formed_data :: "'i::linorder data_dict \<Rightarrow> bool" where
  "well_formed_data data \<longleftrightarrow> (\<forall>k fr. data k = Some fr \<longrightarrow> well_formed fr)"

definition bars_until :: "'i::linorder \<Rightarrow> 'i frame \<Rightarrow> nat" where
  "bars_until t fr = length (filter (\<lambda>i. i \<le> t) (f_index fr))"

lemma known_take: "well_formed fr \<Longrightarrow> known_at t fr = take_frame (bars_until t fr) fr"
  unfolding bars_until_def by (rule known_at_take)

lemma take_until:
  assumes "well_formed fr"
  shows "take (bars_until t fr) (f_index fr) = filter (\<lambda>i. i \<le> t) (f_index fr)"
  using known_take [OF assms, of t] by (simp add: known_at_def take_frame_def)

lemma distinct_index: "well_formed fr \<Longrightarrow> distinct (f_index fr)"
  by (simp add: well_formed_def sorted_distinct)

text \<open>The column of another product, looked up at the bars of the traded one.\<close>

lemma reindex_known:
  assumes "well_formed main" and "well_formed sub" and "column k sub = Inr xs"
  shows "reindex (f_index (known_at t main)) (f_index (known_at t sub))
           (take (bars_until t sub) xs)
       = map_sum id (take (bars_until t main)) (reindex (f_index main) (f_index sub) xs)"
proof -
  let ?n = "bars_until t main" and ?m = "bars_until t sub"
  have len: "length (f_index sub) = length xs" using column_length [OF assms(2,3)] by simp
  have ds: "distinct (f_index sub)" by (rule distinct_index [OF assms(2)])
  have "filter (\<lambda>(i, x). i \<le> t) (zip (f_index sub) xs) = zip (take ?m (f_index sub)) (take ?m xs)"
    using filter_zip_take [OF len] assms(2) by (simp add: well_formed_def bars_until_def take_zip)
  then have look: "at_label (take ?m (f_index sub)) (take ?m xs) i = at_label (f_index sub) xs i" if "i \<le> t" for i
    using at_label_known [OF that, of "f_index sub" xs] len by simp
  have "i \<le> t" if "i \<in> set (take ?n (f_index main))" for i
    using that by (simp add: take_until [OF assms(1)])
  then have "map (at_label (take ?m (f_index sub)) (take ?m xs)) (take ?n (f_index main))
      = map (at_label (f_index sub) xs) (take ?n (f_index main))"
    by (auto intro: look)
  moreover have "distinct (take ?m (f_index sub))" "length (take ?m xs) = length (take ?m (f_index sub))"
    using ds len by simp_all
  ultimately show ?thesis
    using ds len by (simp add: known_take assms reindex_lookup take_map)
qed

lemma factor_series_known:
  assumes "well_formed_data data" and "data (cf_cusip c) = Some main"
    and "factor_series c data sub = Inr xs" and "factor_series c (known_data t data) sub = Inr ys"
  shows "ys = take (bars_until t main) xs"
proof -
  have main: "well_formed main" using assms(1,2) by (simp add: well_formed_data_def)
  obtain sub_df zs where df: "data (sub_cusip c sub) = Some sub_df" "column (ss_column sub) sub_df = Inr zs"
    "reindex (f_index main) (f_index sub_df) zs = Inr xs"
    using assms(2,3) by (auto simp: factor_series_def bindR_Inr_iff lookup_frame_def split: option.splits)
  have sub: "well_formed sub_df" using assms(1) df(1) by (simp add: well_formed_data_def)
  have "reindex (f_index (known_at t main)) (f_index (known_at t sub_df))
      (take (bars_until t sub_df) zs) = Inr ys"
    using assms(2,4) df
    by (auto simp: factor_series_def bindR_Inr_iff lookup_frame_def known_data_def known_take [OF sub])
  with reindex_known [OF main sub df(2), of t] df(3) show ?thesis by simp
qed

lemma factor_series_length:
  assumes "well_formed_data data" and "data (cf_cusip c) = Some main" and "factor_series c data sub = Inr xs"
  shows "length xs = length (f_index main)"
proof -
  obtain sub_df zs where df: "data (sub_cusip c sub) = Some sub_df" "column (ss_column sub) sub_df = Inr zs"
    "reindex (f_index main) (f_index sub_df) zs = Inr xs"
    using assms(2,3) by (auto simp: factor_series_def bindR_Inr_iff lookup_frame_def split: option.splits)
  then have "well_formed sub_df" using assms(1) by (simp add: well_formed_data_def)
  from column_length [OF this df(2)] df(3) show ?thesis by (auto simp: reindex_def split: if_splits)
qed

lemma known_data_well_formed: "well_formed_data data \<Longrightarrow> well_formed_data (known_data t data)"
proof -
  assume wf: "well_formed_data data"
  have "well_formed (take_frame n fr)" if "well_formed fr" for n and fr :: "'a frame"
    using that by (auto simp: well_formed_def take_frame_def sorted_wrt_take)
  with wf show ?thesis by (auto simp: well_formed_data_def known_data_def known_take)
qed

text \<open>The frame whose factor column is the strategy's series.\<close>

lemma set_column_take: "set_column k (take n xs) (take_frame n fr) = take_frame n (set_column k xs fr)"
proof -
  have "AList.update k (take n xs) (map (\<lambda>(k, xs). (k, take n xs)) al)
      = map (\<lambda>(k, xs). (k, take n xs)) (AList.update k xs al)" for al
    by (induction al) auto
  then show ?thesis by (simp add: set_column_def take_frame_def)
qed

lemma single_factor_frame_known:
  assumes "well_formed_data data" and "data (cf_cusip c) = Some main"
    and "single_factor_frame c data = Inr fr" and "single_factor_frame c (known_data t data) = Inr fr'"
  shows "fr' = take_frame (bars_until t main) fr" and "well_formed fr" and "f_index fr = f_index main"
proof -
  let ?sub = "hd (get_substrategies c)"
  have main: "well_formed main" using assms(1,2) by (simp add: well_formed_data_def)
  have wf: "well_formed (set_column ''factor'' xs main)" if "factor_series c data ?sub = Inr xs" for xs
    using main factor_series_length [OF assms(1,2) that]
    by (auto simp: well_formed_def set_column_def dest!: set_mp [OF set_update_subset])
  have two: "has_column k (known_at t fr0) = has_column k fr0" for k and fr0 :: "'a frame"
    by (force simp: has_column_def known_at_def)
  have "(\<exists>xs ys. factor_series c data ?sub = Inr xs \<and> factor_series c (known_data t data) ?sub = Inr ys
          \<and> fr = set_column ''factor'' xs main \<and> fr' = set_column ''factor'' ys (known_at t main))
      \<or> fr = main \<and> fr' = known_at t main"
    using assms(2-4) two
    by (auto simp: single_factor_frame_def bindR_Inr_iff lookup_frame_def known_data_def Let_def
        split: if_splits)
  then consider (own) xs ys where "factor_series c data ?sub = Inr xs"
      "factor_series c (known_data t data) ?sub = Inr ys"
      "fr = set_column ''factor'' xs main" "fr' = set_column ''factor'' ys (known_at t main)"
    | (plain) "fr = main" "fr' = known_at t main"
    by blast
  then have "fr' = take_frame (bars_until t main) fr \<and> well_formed fr \<and> f_index fr = f_index main"
  proof cases
    case own
    with factor_series_known [OF assms(1,2) own(1,2)] wf [OF own(1)] main show ?thesis
      by (simp add: known_take set_column_take) (simp add: set_column_def)
  next
    case plain
    with main show ?thesis by (simp add: known_take)
  qed
  then show "fr' = take_frame (bars_until t main) fr" and "well_formed fr" and "f_index fr = f_index main"
    by simp_all
qed

lemma technical_analysis_Inr: "technical_analysis fr = Inr ta \<longleftrightarrow> ta = fr \<and> has_column ''factor'' fr"
  by (auto simp: technical_analysis_def)

lemma apply_signal_take: "apply_signal f (take n xs) s = take n (apply_signal f xs s)"
  by (simp add: apply_signal_map take_map)

lemma new_performance_known:
  assumes "new_performance c data w s fee mo = Inr p" and "new_performance c (known_data t data) w s fee mo = Inr p'"
  obtains main where "data (cf_cusip c) = Some main" "pf_main p = main" "pf_main p' = known_at t main"
    "pf_data p = data" "pf_data p' = known_data t data" "pf_config p = c" "pf_config p' = c"
    "pf_windows p' = pf_windows p" "pf_signals p' = pf_signals p"
proof -
  obtain main where main: "data (cf_cusip c) = Some main"
    using assms(1) by (auto simp: new_performance_def bindR_Inr_iff lookup_frame_def split: option.splits)
  from assms show thesis
    unfolding new_performance_def bindR_Inr_iff
    by (elim exE conjE) (auto simp: bindR_Inr_iff lookup_frame_def main known_data_def intro!: that [OF main])
qed

text \<open>One factor's series, indicator and position.\<close>

lemma factor_outputs_known:
  assumes "causal_kernels K" and "well_formed_data data" and "data (cf_cusip c) = Some main"
    and "factor_series c data sub = Inr f"
    and "factor_series c (known_data t data) sub = Inr f'"
    and "indicator_and_position K main sub f w s = Inr (ind, pos)"
    and "indicator_and_position K (known_at t main) sub f' w s = Inr (ind', pos')"
  shows "ind' = take (bars_until t main) ind" and "pos' = take (bars_until t main) pos"
    and "length ind = length (f_index main)" and "length pos = length (f_index main)"
proof -
  let ?n = "bars_until t main"
  have main: "well_formed main" using assms(2,3) by (simp add: well_formed_data_def)
  have f': "f' = take ?n f" by (rule factor_series_known [OF assms(2-5)])
  have frame: "factor_frame (known_at t main) f' = take_frame ?n (factor_frame main f)"
    by (simp add: f' factor_frame_def known_take [OF main]) (simp add: take_frame_def)
  have wf: "well_formed (factor_frame main f)"
    using main factor_series_length [OF assms(2-4)] by (simp add: well_formed_def factor_frame_def)
  have "distinct (f_index (factor_frame main f))" by (rule distinct_index [OF wf])
  note cut = indicator_take [OF assms(1) this]
  obtain fn where ind: "indicator K (ss_indicator sub) (factor_frame main f) w = Inr ind"
      and fn: "resolve_sub sub = Inr fn" "pos = apply_signal fn ind s"
    using assms(6) by (auto simp: indicator_and_position_def bindR_Inr_iff technical_analysis_Inr)
  have "indicator K (ss_indicator sub) (take_frame ?n (factor_frame main f)) w = Inr ind'"
      and pos': "pos' = apply_signal fn ind' s"
    using assms(7) fn(1) by (auto simp: indicator_and_position_def bindR_Inr_iff technical_analysis_Inr frame)
  with cut [of "ss_indicator sub" ?n w] ind show ind': "ind' = take ?n ind" by simp
  show "pos' = take ?n pos" by (simp add: pos' ind' fn(2) apply_signal_take)
  have "length ind = length (f_index (factor_frame main f))"
    by (rule indicator_length [OF assms(1) wf ind])
  then show "length ind = length (f_index main)" and "length pos = length (f_index main)"
    by (simp_all add: fn(2) factor_frame_def)
qed

lemma final_position_known:
  assumes K: "causal_kernels K" and wf: "well_formed_data data"
    and p: "new_performance c data w s fee mo = Inr p" "final_position K p = Inr fp"
    and p': "new_performance c (known_data t data) w s fee mo = Inr p'" "final_position K p' = Inr fp'"
  shows "fp' = take (bars_until t (pf_main p)) fp" and "length fp = length (f_index (pf_main p))"
    and "f_index (pf_main p') = take (bars_until t (pf_main p)) (f_index (pf_main p))"
proof -
  obtain main where main: "data (cf_cusip c) = Some main" "pf_main p = main" "pf_main p' = known_at t main"
    "pf_data p = data" "pf_data p' = known_data t data" "pf_config p = c" "pf_config p' = c"
    "pf_windows p' = pf_windows p" "pf_signals p' = pf_signals p"
    by (rule new_performance_known [OF p(1) p'(1)])
  have wfm: "well_formed main" using wf main(1) by (simp add: well_formed_data_def)
  let ?n = "bars_until t main"
  have "fp' = take ?n fp \<and> length fp = length (f_index main)"
  proof (cases "is_multi c")
    case False
    obtain fr ind wd sg where fr: "single_factor_frame c data = Inr fr"
        "item (pf_windows p) 0 = Inr wd" "indicator K (cf_indicator c) fr wd = Inr ind"
        "item (pf_signals p) 0 = Inr sg" "fp = apply_signal (cf_signal_func c) ind sg"
      using p(2) False
      by (auto simp: final_position_def single_factor_outputs_def bindR_Inr_iff main technical_analysis_Inr)
    obtain fr' ind' where fr': "single_factor_frame c (known_data t data) = Inr fr'"
        "indicator K (cf_indicator c) fr' wd = Inr ind'" "fp' = apply_signal (cf_signal_func c) ind' sg"
      using p'(2) False fr(2,4)
      by (auto simp: final_position_def single_factor_outputs_def bindR_Inr_iff main technical_analysis_Inr)
    note cutf = single_factor_frame_known [OF wf main(1) fr(1) fr'(1)]
    have "ind' = take ?n ind"
      using indicator_take [OF K distinct_index [OF cutf(2)], of "cf_indicator c" ?n wd] fr(3) fr'(2)
      by (simp add: cutf(1))
    then show ?thesis
      using indicator_length [OF K cutf(2) fr(3)] by (simp add: fr(5) fr'(3) apply_signal_take cutf(3))
  next
    case True
    let ?step = "\<lambda>d m (i, sub).
      bindR (factor_series c d sub) (\<lambda>factor_vals.
      bindR (item (pf_windows p) i) (\<lambda>w.
      bindR (item (pf_signals p) i) (\<lambda>s.
      bindR (indicator_and_position K m sub factor_vals w s) (\<lambda>(ind, pos). Inr (factor_vals, ind, pos)))))"
    let ?subs = "enumerate 0 (get_substrategies c)"
    let ?pos = "map (\<lambda>(f, ind, pos). pos)" and ?ind = "map (\<lambda>(f, ind, pos). ind)"
    obtain outs where outs: "mapR (?step data main) ?subs = Inr outs"
        "combine_positions (?pos outs) (cf_conjunction c) (Some (?ind outs)) = Inr fp"
      using p(2) True
      by (auto simp: final_position_def multi_factor_outputs_def bindR_Inr_iff main Let_def)
    obtain outs' where outs': "mapR (?step (known_data t data) (known_at t main)) ?subs = Inr outs'"
        "combine_positions (?pos outs') (cf_conjunction c) (Some (?ind outs')) = Inr fp'"
      using p'(2) True
      by (auto simp: final_position_def multi_factor_outputs_def bindR_Inr_iff main Let_def)
    have all: "list_all2 (\<lambda>x y. ?step data main x = Inr y) ?subs outs"
      and all': "list_all2 (\<lambda>x y. ?step (known_data t data) (known_at t main) x = Inr y) ?subs outs'"
      by (rule mapR_all2 [OF outs(1)], rule mapR_all2 [OF outs'(1)])
    have lens: "length outs = length (get_substrategies c)" "length outs' = length outs"
      using list_all2_lengthD [OF all] list_all2_lengthD [OF all'] by simp_all
    have each: "fst (snd (outs' ! j)) = take ?n (fst (snd (outs ! j)))
        \<and> snd (snd (outs' ! j)) = take ?n (snd (snd (outs ! j)))
        \<and> length (fst (snd (outs ! j))) = length (f_index main)
        \<and> length (snd (snd (outs ! j))) = length (f_index main)" if j: "j < length outs" for j
    proof -
      let ?sub = "get_substrategies c ! j"
      have x: "?subs ! j = (j, ?sub)" using j lens by (simp add: nth_enumerate_eq)
      obtain f ind pos wd sg where o: "outs ! j = (f, ind, pos)" "factor_series c data ?sub = Inr f"
          "item (pf_windows p) j = Inr wd" "item (pf_signals p) j = Inr sg"
          "indicator_and_position K main ?sub f wd sg = Inr (ind, pos)"
        using list_all2_nthD2 [OF all j] unfolding x by (cases "outs ! j") (auto simp: bindR_Inr_iff)
      have "j < length outs'" using j lens by simp
      from list_all2_nthD2 [OF all' this]
      obtain f' ind' pos' where o': "outs' ! j = (f', ind', pos')"
          "factor_series c (known_data t data) ?sub = Inr f'"
          "indicator_and_position K (known_at t main) ?sub f' wd sg = Inr (ind', pos')"
        unfolding x using o(3,4) by (cases "outs' ! j") (auto simp: bindR_Inr_iff)
      from factor_outputs_known [OF K wf main(1) o(2) o'(2) o(5) o'(3)] show ?thesis
        by (simp add: o(1) o'(1))
    qed
    have pos': "?pos outs' = map (take ?n) (?pos outs)" and ind': "?ind outs' = map (take ?n) (?ind outs)"
      using each lens(2) by (auto intro!: nth_equalityI simp: case_prod_beta)
    have fa: "factor_arrays (length (f_index main)) (?pos outs) (Some (?ind outs))"
      using each True lens(1)
      by (auto simp: factor_arrays_def aligned_def list_all_length is_multi_def case_prod_beta)
    have two: "2 \<le> length outs" using True lens(1) by (simp add: is_multi_def)
    then obtain o1 o2 orest where os: "outs = o1 # o2 # orest"
      by (cases outs; cases "tl outs") auto
    have known: "known_conjunction (cf_conjunction c)"
      using outs(2) unfolding known_conjunction_def combine_positions_def os
      by (auto simp: Let_def split: if_splits)
    have "?n \<le> length (f_index main)" by (simp add: bars_until_def)
    from combine_positions_take [OF fa known this] outs(2) outs'(2)
    have "fp' = take ?n fp" by (simp add: pos' ind')
    moreover have "length fp = length (f_index main)"
      using combine_positions_rows [OF fa known] outs(2) by auto
    ultimately show ?thesis by simp
  qed
  then show "fp' = take (bars_until t (pf_main p)) fp" and "length fp = length (f_index (pf_main p))"
    by (simp_all add: main)
  show "f_index (pf_main p') = take (bars_until t (pf_main p)) (f_index (pf_main p))"
    by (simp add: main known_take [OF wfm])
qed

text \<open>The last known position of a prefix.\<close>

lemma latest_prefix:
  assumes "latest_final_position (take n idx) (take n fp) = Inr (q, i)" and "length fp = length idx"
  shows "\<exists>j < n. j < length idx \<and> idx ! j = i \<and> fp ! j = q \<and> q \<noteq> NaN
    \<and> (\<forall>k. j < k \<and> k < n \<and> k < length idx \<longrightarrow> fp ! k = NaN)"
proof -
  let ?z = "zip (take n idx) (take n fp)" and ?P = "\<lambda>(i, p). p \<noteq> NaN"
  have ne: "filter ?P ?z \<noteq> []" and lst: "last (filter ?P ?z) = (i, q)"
    using assms(1) by (auto simp: latest_final_position_def Let_def prod_eq_iff split: if_splits)
  obtain xs ys where z: "?z = xs @ (i, q) # ys" "\<forall>y \<in> set ys. \<not> ?P y" "?P (i, q)"
  proof -
    from ne have "\<exists>x \<in> set ?z. ?P x" by (auto simp: filter_empty_conv)
    then obtain xs x ys where x: "?z = xs @ x # ys" "?P x" "\<forall>y \<in> set ys. \<not> ?P y"
      using split_list_last_prop [of ?z ?P] by auto
    have "filter ?P ys = []" using x(3) by (simp only: filter_empty_conv simp_thms)
    then have "last (filter ?P ?z) = x" using x(1,2) by simp
    with lst x that show thesis by simp
  qed
  let ?j = "length xs"
  have len: "length ?z = min n (length idx)" using assms(2) by simp
  have "?j < length ?z" unfolding z(1) by simp
  then have j: "?j < min n (length idx)" unfolding len .
  have at_k: "?z ! k = (idx ! k, fp ! k)" if "k < min n (length idx)" for k
    using that assms(2) by simp
  have "?z ! ?j = (i, q)" by (simp only: z(1) nth_append_length)
  then have "idx ! ?j = i" "fp ! ?j = q" using at_k [OF j] by simp_all
  moreover have "fp ! k = NaN" if "?j < k" "k < n" "k < length idx" for k
  proof -
    have k: "k < min n (length idx)" using that by simp
    have "?z ! k = ys ! (k - Suc ?j)" unfolding z(1) using that(1) by (simp add: nth_append nth_Cons')
    moreover have "k < Suc (?j + length ys)" using k [folded len] unfolding z(1) by simp
    then have "k - Suc ?j < length ys" using that(1) by linarith
    ultimately have "?z ! k \<in> set ys" by (metis nth_mem)
    with z(2) at_k [OF k] show ?thesis by auto
  qed
  ultimately show ?thesis using j z(3) by auto
qed

text \<open>C20: No look-ahead, and live agrees with the back-test. Take a back-test over all data and a live
  evaluation of the same strategy over what is known at time \<open>t\<close> (every frame cut at \<open>t\<close>), both
  returning, with trailing kernels. The positions of the live run are the back-test's positions up
  to \<open>t\<close>, and the latest position it reports, with the bar it reports it for, is the last known
  position of the back-test at or before \<open>t\<close>. So no bar after \<open>t\<close> influenced it, whatever the
  indicators, the combination and the number of factors.\<close>

theorem positions_no_lookahead:
  fixes data :: "'i::linorder data_dict"
  assumes "causal_kernels K" and "well_formed_data data"
    and "new_performance c data w s fee mo = Inr p" and "final_position K p = Inr fp"
    and "new_performance c (known_data t data) w s fee mo = Inr p'"
    and "compute_latest_position K p' = Inr (q, i)"
  shows "final_position K p' = Inr (take (bars_until t (pf_main p)) fp)
    \<and> (\<exists>j < bars_until t (pf_main p). f_index (pf_main p) ! j = i \<and> i \<le> t \<and> fp ! j = q \<and> q \<noteq> NaN
         \<and> (\<forall>k. j < k \<and> k < bars_until t (pf_main p) \<longrightarrow> fp ! k = NaN))"
proof -
  obtain fp' where fp': "final_position K p' = Inr fp'"
      "latest_final_position (f_index (pf_main p')) fp' = Inr (q, i)"
    using assms(6) by (auto simp: compute_latest_position_def bindR_Inr_iff)
  note cut = final_position_known [OF assms(1-5) fp'(1)]
  let ?n = "bars_until t (pf_main p)" and ?idx = "f_index (pf_main p)"
  obtain main where "data (cf_cusip c) = Some main" "pf_main p = main"
    by (rule new_performance_known [OF assms(3,5)])
  then have wf: "well_formed (pf_main p)" using assms(2) by (simp add: well_formed_data_def)
  have n: "?n \<le> length ?idx" by (simp add: bars_until_def)
  obtain j where j: "j < ?n" "?idx ! j = i" "fp ! j = q" "q \<noteq> NaN"
      "\<forall>k. j < k \<and> k < ?n \<and> k < length ?idx \<longrightarrow> fp ! k = NaN"
    using latest_prefix [OF fp'(2) [unfolded cut(1,3)] cut(2)] by blast
  have "i \<in> set (take ?n ?idx)" using j(1,2) n by (auto simp: in_set_conv_nth)
  then have "i \<le> t" by (simp add: take_until [OF wf])
  with j n show ?thesis by (auto simp: fp'(1) cut(1))
qed

definition demo_kernels :: kernels where
  "demo_kernels =
     \<lparr>rolling_mean = (\<lambda>w xs. Inr xs), rolling_std = (\<lambda>w xs. Inr xs), rolling_max = (\<lambda>w xs. Inr xs),
      rolling_min = (\<lambda>w xs. Inr xs), ewm_mean = (\<lambda>w xs. Inr xs), pct_change = (\<lambda>xs. xs),
      mean_of = (\<lambda>xs. Fin 1), std_of = (\<lambda>xs. Fin 1), prod_of = (\<lambda>xs. Fin 1), sqrt_of = (\<lambda>x. x),
      pow_of = (\<lambda>x y. Inr x)\<rparr>"

definition demo_data :: "nat data_dict" where
  "demo_data = [''btcusdt.crypto'' \<mapsto>
     \<lparr>f_index = [1, 2, 3], f_cols = [(''price'', [Fin 5, Fin 2, Fin (- 7)]), (''factor'', [Fin 5, Fin 0, Fin (- 7)])]\<rparr>]"

theorem positions_no_lookahead_witness:
  "\<exists>p'. new_performance demo_strategy (known_data 2 demo_data) (Some (Scalar 1)) (Some (Scalar (Fin 1))) None 1 = Inr p'
     \<and> final_position demo_kernels p' = Inr [Fin 1, Fin 0]"
proof -
  have K: "causal_kernels demo_kernels"
    by (simp add: causal_kernels_def causal_def demo_kernels_def)
  have wf: "well_formed_data demo_data"
    by (simp add: well_formed_data_def demo_data_def well_formed_def)
  obtain p where p: "new_performance demo_strategy demo_data (Some (Scalar 1)) (Some (Scalar (Fin 1))) None 1 = Inr p"
    and fp: "final_position demo_kernels p = Inr [Fin 1, Fin 0, Fin (- 1)]"
    and n: "bars_until 2 (pf_main p) = 2"
    by (simp add: new_performance_def lookup_frame_def demo_data_def demo_strategy_def single_config_def
        per_factor_def get_substrategies_def max_list_def final_position_def is_multi_def
        single_factor_outputs_def single_factor_frame_def sub_cusip_def truthy_def has_column_def
        technical_analysis_def item_def indicator_def raw_indicator_def get_sma_def column_def
        demo_kernels_def reindex_def momentum_band_signal_def mask_nan_def bars_until_def)
  obtain p' where p': "new_performance demo_strategy (known_data 2 demo_data) (Some (Scalar 1)) (Some (Scalar (Fin 1))) None 1 = Inr p'"
    and live: "compute_latest_position demo_kernels p' = Inr (Fin 0, 2)"
    by (simp add: new_performance_def lookup_frame_def demo_data_def demo_strategy_def single_config_def
        per_factor_def get_substrategies_def max_list_def final_position_def is_multi_def known_data_def known_at_def
        single_factor_outputs_def single_factor_frame_def sub_cusip_def truthy_def has_column_def
        technical_analysis_def item_def indicator_def raw_indicator_def get_sma_def column_def
        demo_kernels_def reindex_def momentum_band_signal_def mask_nan_def compute_latest_position_def
        latest_final_position_def)
  from positions_no_lookahead [OF K wf p fp p' live] p' show ?thesis by (simp add: n)
qed

section \<open>Drawdown\<close>

lemma fl_nonneg: "0 \<le> q \<Longrightarrow> fl q = PosInf \<or> (\<exists>r. fl q = Fin r \<and> 0 \<le> r)"
proof -
  assume q: "0 \<le> q"
  have pow: "0 < pow2 e" for e by (simp add: pow2_def)
  then have "0 \<le> round_half_even (q / pow2 e)" for e
    using round_half_even_ge [of 0 "q / pow2 e"] q by (simp add: less_imp_le)
  with q pow show ?thesis
    by (auto simp: fl_def Let_def zero_le_mult_iff less_imp_le)
qed

text \<open>A number that is not negative, or a missing one.\<close>

definition not_neg :: "flt \<Rightarrow> bool" where
  "not_neg x \<longleftrightarrow> x = NaN \<or> x = PosInf \<or> (\<exists>r \<ge> 0. x = Fin r)"

lemma not_neg_simps [simp]: "not_neg NaN" "not_neg PosInf" "\<not> not_neg NegInf" "not_neg (Fin r) \<longleftrightarrow> 0 \<le> r"
  by (simp_all add: not_neg_def)

lemma not_neg_fl: "0 \<le> q \<Longrightarrow> not_neg (fl q)"
  using fl_nonneg [of q] by auto

lemma not_neg_mul: "not_neg x \<Longrightarrow> not_neg y \<Longrightarrow> not_neg (flt_mul x y)"
  by (cases x; cases y) (simp_all add: not_neg_fl)

lemma not_neg_clip: "not_neg (clip_lower (Fin 0) x)"
  by (cases x) (auto simp: clip_lower_def)

lemma running_all:
  assumes "\<And>a x. I a \<Longrightarrow> I x \<Longrightarrow> I (f a x)" and "pred_option I acc" and "\<forall>x \<in> set xs. I x"
  shows "\<forall>y \<in> set (running f acc xs). I y"
  using assms(2,3)
proof (induction xs arbitrary: acc)
  case (Cons x xs)
  then have "I (case acc of None \<Rightarrow> x | Some a \<Rightarrow> f a x)"
    using assms(1) by (cases acc) auto
  then have "pred_option I (Some (case acc of None \<Rightarrow> x | Some a \<Rightarrow> f a x))" by simp
  from this Cons.IH [OF this] Cons.IH [OF Cons.prems(1)] Cons.prems(2) show ?case by (auto simp: Let_def)
qed simp

lemma length_running [simp]: "length (running f acc xs) = length xs"
  by (induction f acc xs rule: running.induct) (auto simp: Let_def)

lemma running_max_ge:
  "i < length xs \<Longrightarrow> xs ! i \<noteq> NaN \<Longrightarrow>
   running flt_max acc xs ! i = NaN \<or> \<not> flt_lt (running flt_max acc xs ! i) (xs ! i)"
proof (induction xs arbitrary: acc i)
  case (Cons x xs)
  show ?case
  proof (cases i)
    case 0
    with Cons.prems show ?thesis
      by (cases acc) (auto simp: Let_def flt_max_def)
  next
    case (Suc j)
    with Cons.prems Cons.IH show ?thesis by (auto simp: Let_def)
  qed
qed simp

lemma drawdown_bounds:
  assumes "not_neg e" and "e = NaN \<or> p = NaN \<or> \<not> flt_lt p e" and "p = NaN \<or> \<not> flt_lt p (Fin 1)"
  shows "flt_sub (Fin 1) (flt_div e p) = NaN \<or> (\<exists>d. flt_sub (Fin 1) (flt_div e p) = Fin d \<and> 0 \<le> d \<and> d \<le> 1)"
proof (cases e; cases p)
  fix a b assume ab: "e = Fin a" "p = Fin b"
  then have "0 \<le> a" "a \<le> b" "1 \<le> b" using assms by (auto simp: not_neg_def)
  then obtain r where r: "fl (a / b) = Fin r" "0 \<le> r" "r \<le> 1"
    using fl_unit [of "a / b"] by auto
  then obtain d where "fl (1 + - r) = Fin d" "0 \<le> d" "d \<le> 1"
    using fl_unit [of "1 + - r"] by auto
  with r \<open>1 \<le> b\<close> show ?thesis by (simp add: ab flt_sub_def)
next
  fix a assume "e = Fin a" "p = PosInf"
  then show ?thesis using fl_of_int [of 1] by (simp add: flt_sub_def)
qed (use assms in \<open>auto simp: flt_sub_def not_neg_def\<close>)

text \<open>The equity curve is the curve of a capital. For any profit series, a bar's cumulative return
  is missing or at least \<open>-1\<close> (a ruined account stays at nothing and never turns positive through a
  sign), and its drawdown is missing or a share of the capital between 0 and 1.\<close>

theorem compound_bounds:
  assumes "i < length pnl"
  shows "(fst (compound pnl) ! i = NaN \<or> flt_le (Fin (- 1)) (fst (compound pnl) ! i))
    \<and> (snd (compound pnl) ! i = NaN
       \<or> (\<exists>d. snd (compound pnl) ! i = Fin d \<and> 0 \<le> d \<and> d \<le> 1))"
proof -
  let ?eq = "equity_curve pnl"
  let ?e = "?eq ! i" and ?p = "clip_lower (Fin 1) (running flt_max None ?eq ! i)"
  have len: "length ?eq = length pnl" by (simp add: equity_curve_def)
  have "\<forall>y \<in> set ?eq. not_neg y"
    unfolding equity_curve_def by (intro running_all) (auto intro: not_neg_mul not_neg_clip)
  then have e: "not_neg ?e" using assms len by simp
  have "?e = NaN \<or> running flt_max None ?eq ! i = NaN \<or> \<not> flt_lt (running flt_max None ?eq ! i) ?e"
    using running_max_ge [of i ?eq None] assms len by auto
  then have top: "?e = NaN \<or> ?p = NaN \<or> \<not> flt_lt ?p ?e"
    by (auto simp: clip_lower_def dest: flt_lt_trans)
  have one: "?p = NaN \<or> \<not> flt_lt ?p (Fin 1)" by (auto simp: clip_lower_def)
  have "snd (compound pnl) ! i = flt_sub (Fin 1) (flt_div ?e ?p)" and "fst (compound pnl) ! i = flt_sub ?e (Fin 1)"
    using assms len by (simp_all add: compound_def Let_def)
  moreover have "flt_sub ?e (Fin 1) = NaN \<or> flt_le (Fin (- 1)) (flt_sub ?e (Fin 1))"
  proof (cases ?e)
    case (Fin a)
    then have "0 \<le> a" using e by simp
    show ?thesis
    proof (cases "\<bar>a - 1\<bar> < 2 ^ 53")
      case True
      from fl_between [OF this] \<open>0 \<le> a\<close> show ?thesis
        by (auto simp: Fin flt_sub_def flt_le_def flt_eq_def dest!: spec [of _ "- 1 :: int"])
    next
      case False
      then have "0 \<le> a + - 1" using \<open>0 \<le> a\<close> by (simp add: abs_if split: if_splits)
      from fl_nonneg [OF this] show ?thesis by (auto simp: Fin flt_sub_def flt_le_def flt_eq_def)
    qed
  qed (use e in \<open>simp_all add: flt_sub_def flt_le_def flt_eq_def\<close>)
  ultimately show ?thesis using drawdown_bounds [OF e top one] by simp
qed

theorem compound_bounds_witness:
  "fst (compound [Fin (1 / 2), Fin (- 1)]) ! 1 = NaN
     \<or> flt_le (Fin (- 1)) (fst (compound [Fin (1 / 2), Fin (- 1)]) ! 1)"
  using compound_bounds [of 1 "[Fin (1 / 2), Fin (- 1)]"] by simp

end
