(* ===== verification/Optimizer.thy ===== *)
theory Optimizer
  imports NoLookahead "HOL-Library.Multiset"
begin

text \<open>
  The parameter search: the scalar objective (\<open>quant/strategy/objective.py\<close>), the search space and
  its two searches (\<open>quant/strategy/optimizer.py\<close>) and the walk-forward test
  (\<open>quant/strategy/walk_forward.py\<close>). A study is the list of its completed trials; the sampler of
  optuna and the order pandas gives to equal Sharpe ratios are parameters. The progress callbacks
  and the plots are left out.
\<close>

section \<open>Objective\<close>

text \<open>\<open>IndicatorCache\<close>: the indicator for every candidate window.\<close>

definition indicator_cache :: "kernels \<Rightarrow> 'i frame \<Rightarrow> string \<Rightarrow> int list \<Rightarrow> py_exn + (int \<times> series) list" where
  "indicator_cache K fr name windows =
     bindR (technical_analysis fr) (\<lambda>ta.
       mapR (\<lambda>w. bindR (indicator K name ta w) (\<lambda>xs. Inr (w, xs))) windows)"

definition cached :: "(int \<times> series) list \<Rightarrow> int \<Rightarrow> py_exn + series" where
  "cached cache w = (case map_of cache w of Some xs \<Rightarrow> Inr xs | None \<Rightarrow> Inl (KeyError (int_str w)))"

record objective_base =
  ob_cost :: flt
  ob_min_obs :: int
  ob_period :: int
  ob_chg :: series

datatype objective =
    SingleFactor objective_base "(int \<times> series) list" signal_func
  | MultiFactor objective_base string "((int \<times> series) list \<times> signal_func) list"

definition new_objective_base ::
  "kernels \<Rightarrow> 'i data_dict \<Rightarrow> strategy_cfg \<Rightarrow> flt option \<Rightarrow> int \<Rightarrow> py_exn + objective_base" where
  "new_objective_base K data c fee_bps min_metric_obs =
     bindR (lookup_frame data (cf_cusip c)) (\<lambda>main.
     bindR (column ''price'' main) (\<lambda>price.
       Inr \<lparr>ob_cost = transaction_cost fee_bps, ob_min_obs = min_metric_obs, ob_period = cf_period c,
            ob_chg = pct_change K price\<rparr>))"

text \<open>The candidate windows: a sequence, or one per factor.\<close>

type_synonym window_spec = "int list param"

definition single_objective ::
  "kernels \<Rightarrow> 'i data_dict \<Rightarrow> strategy_cfg \<Rightarrow> int list \<Rightarrow> flt option \<Rightarrow> int \<Rightarrow> py_exn + objective" where
  "single_objective K data c windows fee_bps min_metric_obs =
     bindR (new_objective_base K data c fee_bps min_metric_obs) (\<lambda>base.
     bindR (single_factor_frame c data) (\<lambda>fr.
     bindR (indicator_cache K fr (cf_indicator c) windows) (\<lambda>cache.
       Inr (SingleFactor base cache (cf_signal_func c)))))"

definition multi_objective ::
  "kernels \<Rightarrow> 'i data_dict \<Rightarrow> strategy_cfg \<Rightarrow> int list list \<Rightarrow> flt option \<Rightarrow> int \<Rightarrow> py_exn + objective" where
  "multi_objective K data c window_ranges fee_bps min_metric_obs =
     bindR (new_objective_base K data c fee_bps min_metric_obs) (\<lambda>base.
     bindR (lookup_frame data (cf_cusip c)) (\<lambda>main.
     bindR (mapR (\<lambda>(sub, windows).
              bindR (factor_series c data sub) (\<lambda>xs.
              bindR (indicator_cache K (factor_frame main xs) (ss_indicator sub) windows) (\<lambda>cache.
              bindR (resolve_sub sub) (\<lambda>f. Inr (cache, f)))))
            (zip (get_substrategies c) window_ranges)) (\<lambda>factors.
       Inr (MultiFactor base (cf_conjunction c) factors))))"

definition for_config ::
  "kernels \<Rightarrow> 'i data_dict \<Rightarrow> strategy_cfg \<Rightarrow> window_spec \<Rightarrow> flt option \<Rightarrow> int \<Rightarrow> py_exn + objective" where
  "for_config K data c spec fee_bps min_metric_obs =
     (if is_multi c then
        (case spec of
           PerFactor wss \<Rightarrow> multi_objective K data c wss fee_bps min_metric_obs
         | Scalar ws \<Rightarrow> Inl (TypeError ([CHR 0x27] @ ''int' object is not iterable'')))
      else
        (case spec of
           Scalar ws \<Rightarrow> single_objective K data c ws fee_bps min_metric_obs
         | PerFactor wss \<Rightarrow> Inl (TypeError int_arg_message)))"

definition objective_sharpe :: "kernels \<Rightarrow> objective_base \<Rightarrow> series \<Rightarrow> int \<Rightarrow> py_exn + flt" where
  "objective_sharpe K b position metric_window =
     bindR (strategy_pnl position (ob_chg b) (ob_cost b)) (\<lambda>(prior, turnover, pnl).
       Inr (sharpe_ratio K (slice_from metric_window pnl) (ob_period b) (ob_min_obs b)))"

fun call_objective :: "kernels \<Rightarrow> objective \<Rightarrow> json list \<Rightarrow> json list \<Rightarrow> py_exn + flt" where
  "call_objective K (SingleFactor b cache f) windows signals =
     bindR (bindR (item windows 0) py_int) (\<lambda>w.
     bindR (bindR (item signals 0) py_float_json) (\<lambda>s.
     bindR (cached cache w) (\<lambda>ind.
       objective_sharpe K b (apply_signal f ind s) w)))"
| "call_objective K (MultiFactor b cj factors) windows signals =
     bindR (mapR (\<lambda>(i, cache, f).
              bindR (bindR (item windows i) py_int) (\<lambda>w.
              bindR (cached cache w) (\<lambda>ind.
              bindR (bindR (item signals i) py_float_json) (\<lambda>s.
                Inr (ind, apply_signal f ind s)))))
            (enumerate 0 factors)) (\<lambda>outs.
     bindR (combine_positions (map snd outs) cj (Some (map fst outs))) (\<lambda>combined.
     bindR (mapR py_int windows) (\<lambda>ws.
     bindR (max_list ws) (\<lambda>mw.
       objective_sharpe K b combined mw))))"

section \<open>The search space\<close>

record search_space =
  sp_mapping :: "(string \<times> json list) list"
  sp_window_spec :: window_spec
  sp_factors :: nat

definition axis :: "string \<Rightarrow> nat \<Rightarrow> string" where
  "axis prefix i = prefix @ nat_str i"

definition single_space :: "int list \<Rightarrow> flt list \<Rightarrow> search_space" where
  "single_space windows signals =
     \<lparr>sp_mapping = [(''window'', map JInt windows), (''signal'', map JNum signals)],
      sp_window_spec = Scalar windows, sp_factors = 1\<rparr>"

definition multi_space :: "int list list \<Rightarrow> flt list list \<Rightarrow> py_exn + search_space" where
  "multi_space window_ranges signal_ranges =
     (if length signal_ranges \<noteq> length window_ranges
      then Inl (ValueError (''window_ranges has '' @ nat_str (length window_ranges)
             @ '' entries but signal_ranges has '' @ nat_str (length signal_ranges)))
      else Inr
        \<lparr>sp_mapping = concat (map (\<lambda>(i, ws, ss). [(axis ''window_'' i, map JInt ws), (axis ''signal_'' i, map JNum ss)])
                                  (enumerate 0 (zip window_ranges signal_ranges))),
         sp_window_spec = PerFactor window_ranges, sp_factors = length window_ranges\<rparr>)"

definition space_item :: "(string \<times> 'a) list \<Rightarrow> string \<Rightarrow> py_exn + 'a" where
  "space_item m k = (case map_of m k of Some v \<Rightarrow> Inr v | None \<Rightarrow> Inl (KeyError k))"

definition space_total :: "search_space \<Rightarrow> py_exn + nat" where
  "space_total sp =
     (if sp_factors sp = 1 then
        bindR (space_item (sp_mapping sp) ''window'') (\<lambda>ws.
        bindR (space_item (sp_mapping sp) ''signal'') (\<lambda>ss. Inr (length ws * length ss)))
      else
        bindR (mapR (\<lambda>i.
                 bindR (space_item (sp_mapping sp) (axis ''window_'' i)) (\<lambda>ws.
                 bindR (space_item (sp_mapping sp) (axis ''signal_'' i)) (\<lambda>ss.
                   Inr (length ws * length ss)))) [0..<sp_factors sp])
          (\<lambda>ns. Inr (prod_list ns)))"

definition space_keys :: "search_space \<Rightarrow> string list" where
  "space_keys sp = map fst (sp_mapping sp)"

definition windows_signals :: "search_space \<Rightarrow> row \<Rightarrow> py_exn + json list \<times> json list" where
  "windows_signals sp params =
     (if ''window'' \<in> fst ` set params then
        bindR (jitem ''window'' params) (\<lambda>w. bindR (jitem ''signal'' params) (\<lambda>s. Inr ([w], [s])))
      else
        bindR (mapR (\<lambda>i. jitem (axis ''window_'' i) params) [0..<sp_factors sp]) (\<lambda>ws.
        bindR (mapR (\<lambda>i. jitem (axis ''signal_'' i) params) [0..<sp_factors sp]) (\<lambda>ss.
          Inr (ws, ss))))"

section \<open>The searches\<close>

record trial =
  t_params :: row
  t_value :: flt

type_synonym study = "trial list"

text \<open>A failed or undefined evaluation counts as minus infinity.\<close>

definition evaluate_trial :: "(json list \<Rightarrow> json list \<Rightarrow> py_exn + flt) \<Rightarrow> json list \<Rightarrow> json list \<Rightarrow> flt" where
  "evaluate_trial objective windows signals =
     (case objective windows signals of
        Inr x \<Rightarrow> if is_finite x then x else NegInf
      | Inl e \<Rightarrow> NegInf)"

definition run_trial ::
  "(json list \<Rightarrow> json list \<Rightarrow> py_exn + flt) \<Rightarrow> search_space \<Rightarrow> row \<Rightarrow> py_exn + trial" where
  "run_trial objective sp params =
     bindR (windows_signals sp params) (\<lambda>(windows, signals).
       Inr \<lparr>t_params = params, t_value = evaluate_trial objective windows signals\<rparr>)"

text \<open>\<open>itertools.product\<close> of the axes, the last axis fastest.\<close>

definition grid_params :: "search_space \<Rightarrow> row list" where
  "grid_params sp = map (zip (space_keys sp)) (product_lists (map snd (sp_mapping sp)))"

definition exhaustive_search ::
  "(json list \<Rightarrow> json list \<Rightarrow> py_exn + flt) \<Rightarrow> search_space \<Rightarrow> py_exn + study" where
  "exhaustive_search objective sp = mapR (run_trial objective sp) (grid_params sp)"

text \<open>\<open>study.optimize\<close>: the sampler sees the trials so far and suggests a choice on every axis.\<close>

fun bayesian_search ::
  "(study \<Rightarrow> string \<Rightarrow> json list \<Rightarrow> json) \<Rightarrow> (json list \<Rightarrow> json list \<Rightarrow> py_exn + flt) \<Rightarrow> search_space
   \<Rightarrow> nat \<Rightarrow> study \<Rightarrow> py_exn + study" where
  "bayesian_search suggest objective sp 0 study = Inr study"
| "bayesian_search suggest objective sp (Suc n) study =
     bindR (run_trial objective sp (map (\<lambda>(k, vs). (k, suggest study k vs)) (sp_mapping sp))) (\<lambda>t.
       bayesian_search suggest objective sp n (study @ [t]))"

definition optuna_max_trials :: nat where
  "optuna_max_trials = 10000"

datatype search_kind = Exhaustive | Bayesian

definition select_search :: "nat \<Rightarrow> nat option \<Rightarrow> search_kind \<times> nat" where
  "select_search combos n_trials =
     (let n = (case n_trials of None \<Rightarrow> min combos optuna_max_trials | Some n \<Rightarrow> n)
      in if combos \<le> n then (Exhaustive, combos) else (Bayesian, n))"

definition rows_from_study :: "study \<Rightarrow> string list \<Rightarrow> py_exn + row list" where
  "rows_from_study study keys =
     mapR (\<lambda>t.
       bindR (mapR (\<lambda>k. bindR (jitem k (t_params t)) (\<lambda>v. Inr (k, v))) keys) (\<lambda>params.
         Inr (params @ [(''sharpe'', JNum (if flt_lt NegInf (t_value t) then t_value t else NaN))]))) study"

record optimize_result =
  or_grid :: "row list"
  or_best :: row
  or_top10 :: "row list"
  or_valid :: nat

definition row_sharpe :: "row \<Rightarrow> flt" where
  "row_sharpe r = (case jget ''sharpe'' r of JNum x \<Rightarrow> x | _ \<Rightarrow> NaN)"

text \<open>A frame without rows has no column to score; \<open>sort_desc\<close> is \<open>sort_values\<close>, descending.\<close>

definition build_result :: "(row list \<Rightarrow> row list) \<Rightarrow> row list \<Rightarrow> py_exn + optimize_result" where
  "build_result sort_desc rows =
     (if rows = [] then Inl (KeyError ''sharpe'')
      else
        (let valid = filter (\<lambda>r. row_sharpe r \<noteq> NaN) rows;
             top10 = take 10 (sort_desc valid)
         in Inr \<lparr>or_grid = rows, or_best = (case top10 of r # _ \<Rightarrow> r | [] \<Rightarrow> []), or_top10 = top10,
                 or_valid = length valid\<rparr>))"

definition descending :: "row list \<Rightarrow> bool" where
  "descending rs \<longleftrightarrow> sorted_wrt (\<lambda>a b. \<not> flt_lt (row_sharpe a) (row_sharpe b)) rs"

definition sorts_descending :: "(row list \<Rightarrow> row list) \<Rightarrow> bool" where
  "sorts_descending f \<longleftrightarrow> (\<forall>rs. mset (f rs) = mset rs \<and> descending (f rs))"

record optuna =
  suggest :: "study \<Rightarrow> string \<Rightarrow> json list \<Rightarrow> json"
  sort_values :: "row list \<Rightarrow> row list"

definition run_space ::
  "optuna \<Rightarrow> kernels \<Rightarrow> 'i data_dict \<Rightarrow> strategy_cfg \<Rightarrow> flt option \<Rightarrow> int \<Rightarrow> search_space \<Rightarrow> nat option
   \<Rightarrow> py_exn + optimize_result" where
  "run_space L K data c fee_bps min_metric_obs sp n_trials =
     bindR (space_total sp) (\<lambda>total.
       let (kind, n) = select_search total n_trials
       in bindR (for_config K data c (sp_window_spec sp) fee_bps min_metric_obs) (\<lambda>obj.
          bindR (case kind of
                   Exhaustive \<Rightarrow> exhaustive_search (call_objective K obj) sp
                 | Bayesian \<Rightarrow> bayesian_search (suggest L) (call_objective K obj) sp n []) (\<lambda>study.
          bindR (rows_from_study study (space_keys sp)) (\<lambda>rows.
            build_result (sort_values L) rows))))"

text \<open>
  \<open>run\<close>, \<open>optimize\<close> and \<open>optimize_multi\<close>: candidates shaped for the other number of factors are
  refused when the code iterates over them.
\<close>

definition run_optimizer ::
  "optuna \<Rightarrow> kernels \<Rightarrow> 'i data_dict \<Rightarrow> strategy_cfg \<Rightarrow> flt option \<Rightarrow> int
   \<Rightarrow> int list param \<Rightarrow> flt list param \<Rightarrow> nat option \<Rightarrow> py_exn + optimize_result" where
  "run_optimizer L K data c fee_bps min_metric_obs windows signals n_trials =
     (case (windows, signals) of
        (PerFactor wss, PerFactor sss) \<Rightarrow>
          if is_multi c
          then bindR (multi_space wss sss) (\<lambda>sp. run_space L K data c fee_bps min_metric_obs sp n_trials)
          else Inl (TypeError int_arg_message)
      | (Scalar ws, Scalar ss) \<Rightarrow>
          if is_multi c then
            (if ws = [] \<or> length ss \<noteq> length ws
             then bindR (multi_space (map (\<lambda>_. []) ws) (map (\<lambda>_. []) ss)) (\<lambda>sp.
                    run_space L K data c fee_bps min_metric_obs sp n_trials)
             else Inl (TypeError ([CHR 0x27] @ ''int' object is not iterable'')))
          else run_space L K data c fee_bps min_metric_obs (single_space ws ss) n_trials
      | _ \<Rightarrow> Inl (TypeError int_arg_message))"

text \<open>\<open>OptimizeResult.params_from_best\<close>.\<close>

definition params_from_best :: "row \<Rightarrow> py_exn + int param \<times> flt param" where
  "params_from_best best =
     (if ''window'' \<in> fst ` set best then
        bindR (bindR (jitem ''window'' best) py_int) (\<lambda>w.
        bindR (bindR (jitem ''signal'' best) py_float_json) (\<lambda>s. Inr (Scalar w, Scalar s)))
      else
        (let n = length (filter (\<lambda>k. starts_with ''window_'' k) (map fst best))
         in if n = 0 then Inl (ValueError ''best params missing window/signal keys'')
            else
              bindR (mapR (\<lambda>i. bindR (jitem (axis ''window_'' i) best) py_int) [0..<n]) (\<lambda>ws.
              bindR (mapR (\<lambda>i. bindR (jitem (axis ''signal_'' i) best) py_float_json) [0..<n]) (\<lambda>ss.
                Inr (PerFactor ws, PerFactor ss)))))"

section \<open>Walk forward\<close>

definition drop_frame :: "nat \<Rightarrow> 'i frame \<Rightarrow> 'i frame" where
  "drop_frame n fr = \<lparr>f_index = drop n (f_index fr), f_cols = map (\<lambda>(k, xs). (k, drop n xs)) (f_cols fr)\<rparr>"

record 'i walk_forward =
  wf_data :: "'i data_dict"
  wf_config :: strategy_cfg
  wf_fee :: "flt option"
  wf_min_obs :: int
  wf_split :: nat

definition new_walk_forward ::
  "(flt \<Rightarrow> string) \<Rightarrow> 'i data_dict \<Rightarrow> flt \<Rightarrow> strategy_cfg \<Rightarrow> flt option \<Rightarrow> int \<Rightarrow> py_exn + 'i walk_forward" where
  "new_walk_forward str_float data split_ratio c fee_bps min_metric_obs =
     (if \<not> (flt_lt (Fin 0) split_ratio \<and> flt_lt split_ratio (Fin 1))
      then Inl (ValueError (''split_ratio must be between 0 and 1, got '' @ str_float split_ratio))
      else
        bindR (lookup_frame data (cf_cusip c)) (\<lambda>main.
          let n = int (length (f_index main));
              split = py_trunc (flt_mul (fl (of_int n)) split_ratio)
          in if split < 2 \<or> n - 1 \<le> split
             then Inl (ValueError (''Split produces empty partition: split_idx='' @ int_str split
                    @ '', data length='' @ int_str n))
             else Inr \<lparr>wf_data = data, wf_config = c, wf_fee = fee_bps, wf_min_obs = min_metric_obs,
                       wf_split = nat split\<rparr>))"

definition in_sample :: "'i walk_forward \<Rightarrow> 'i data_dict" where
  "in_sample wk = (\<lambda>k. map_option (take_frame (wf_split wk)) (wf_data wk k))"

definition out_of_sample :: "'i walk_forward \<Rightarrow> 'i data_dict" where
  "out_of_sample wk = (\<lambda>k. map_option (drop_frame (wf_split wk)) (wf_data wk k))"

definition evaluate_slice ::
  "kernels \<Rightarrow> 'i walk_forward \<Rightarrow> 'i data_dict \<Rightarrow> int param \<Rightarrow> flt param \<Rightarrow> py_exn + metrics" where
  "evaluate_slice K wk data window signal =
     bindR (new_performance (wf_config wk) data (Some window) (Some signal) (wf_fee wk) (wf_min_obs wk)) (\<lambda>p.
     bindR (enrich_performance K p) (\<lambda>e. strategy_performance K p e))"

definition overfitting_ratio :: "metrics \<Rightarrow> metrics \<Rightarrow> flt" where
  "overfitting_ratio is_metrics oos_metrics =
     (if sharpe is_metrics = NaN \<or> flt_eq (sharpe is_metrics) (Fin 0) then NaN
      else flt_sub (Fin 1) (flt_div (sharpe oos_metrics) (sharpe is_metrics)))"

record 'i walk_forward_result =
  wr_window :: "int param"
  wr_signal :: "flt param"
  wr_is :: metrics
  wr_oos :: metrics
  wr_ratio :: flt
  wr_full :: "'i enriched"

definition run_walk_forward ::
  "optuna \<Rightarrow> kernels \<Rightarrow> 'i walk_forward \<Rightarrow> int list param \<Rightarrow> flt list param
   \<Rightarrow> py_exn + 'i walk_forward_result" where
  "run_walk_forward L K wk windows signals =
     bindR (run_optimizer L K (in_sample wk) (wf_config wk) (wf_fee wk) (wf_min_obs wk) windows signals None) (\<lambda>opt.
     bindR (params_from_best (or_best opt)) (\<lambda>(w, s).
     bindR (evaluate_slice K wk (in_sample wk) w s) (\<lambda>is_metrics.
     bindR (evaluate_slice K wk (out_of_sample wk) w s) (\<lambda>oos_metrics.
     bindR (new_performance (wf_config wk) (wf_data wk) (Some w) (Some s) (wf_fee wk) (wf_min_obs wk)) (\<lambda>p.
     bindR (enrich_performance K p) (\<lambda>full.
       Inr \<lparr>wr_window = w, wr_signal = s, wr_is = is_metrics, wr_oos = oos_metrics,
            wr_ratio = overfitting_ratio is_metrics oos_metrics, wr_full = full\<rparr>))))))"

end
