(* ===== verification/SearchProps.thy ===== *)
theory SearchProps
  imports Optimizer "HOL-Library.Product_Lexorder"
begin

text \<open>
  What the parameter search promises: its objective is the back-test's Sharpe ratio, an exhaustive
  search returns the best of the grid, its size is bounded, and the walk-forward test chooses its
  parameters from the in-sample part alone.
\<close>

section \<open>The objective is the metric\<close>

text \<open>The Sharpe ratio a full back-test reports at given parameters.\<close>

definition backtest_sharpe ::
  "kernels \<Rightarrow> 'i data_dict \<Rightarrow> strategy_cfg \<Rightarrow> flt option \<Rightarrow> int \<Rightarrow> int param \<Rightarrow> flt param \<Rightarrow> py_exn + flt" where
  "backtest_sharpe K data c fee_bps min_metric_obs w s =
     bindR (new_performance c data (Some w) (Some s) fee_bps min_metric_obs) (\<lambda>p.
     bindR (enrich_performance K p) (\<lambda>e. Inr (get_sharpe_ratio K p e)))"

text \<open>Parameters taken from the candidates.\<close>

fun candidate :: "strategy_cfg \<Rightarrow> window_spec \<Rightarrow> int param \<Rightarrow> flt param \<Rightarrow> bool" where
  "candidate c (Scalar ws) (Scalar w) (Scalar s) = (\<not> is_multi c \<and> w \<in> set ws)"
| "candidate c (PerFactor wss) (PerFactor ws) (PerFactor ss) =
     (is_multi c \<and> length wss = length (get_substrategies c) \<and> length ss = length wss
      \<and> list_all2 (\<lambda>w cs. w \<in> set cs) ws wss)"
| "candidate c _ _ _ = False"

fun as_args :: "'a param \<Rightarrow> 'a list" where
  "as_args (Scalar x) = [x]"
| "as_args (PerFactor xs) = xs"

lemma indicator_cache_lookup:
  assumes "indicator_cache K fr name windows = Inr cache" and "w \<in> set windows"
  obtains xs where "has_column ''factor'' fr" "indicator K name fr w = Inr xs" "cached cache w = Inr xs"
proof -
  have f: "has_column ''factor'' fr"
      "mapR (\<lambda>w. bindR (indicator K name fr w) (\<lambda>xs. Inr (w, xs))) windows = Inr cache"
    using assms(1) by (auto simp: indicator_cache_def bindR_Inr_iff technical_analysis_Inr)
  have "\<exists>xs. indicator K name fr w = Inr xs \<and> map_of cache w = Some xs"
    using f(2) assms(2)
  proof (induction windows arbitrary: cache)
    case (Cons v vs)
    then obtain ys rest where c: "indicator K name fr v = Inr ys" "cache = (v, ys) # rest"
        "mapR (\<lambda>w. bindR (indicator K name fr w) (\<lambda>xs. Inr (w, xs))) vs = Inr rest"
      by (auto simp: bindR_Inr_iff)
    with Cons show ?case by (cases "v = w") auto
  qed simp
  with f(1) that show thesis by (auto simp: cached_def)
qed

lemma single_get_substrategies: "\<not> is_multi c \<Longrightarrow> \<exists>sub. get_substrategies c = [sub]"
  using get_substrategies_not_Nil [of c]
  by (cases "get_substrategies c"; cases "tl (get_substrategies c)") (auto simp: is_multi_def)

lemma max_list_params: "xs \<noteq> [] \<Longrightarrow> max_list xs = Inr (foldl max (hd xs) (tl xs))"
  by (cases xs) (simp_all add: max_list_def)

lemma single_objective_sharpe:
  assumes "\<not> is_multi c" and "single_objective K data c ws fee mo = Inr obj" and "w \<in> set ws"
  shows "call_objective K obj [JInt w] [JNum s]
       = backtest_sharpe K data c fee mo (Scalar w) (Scalar s)"
proof -
  obtain main price fr cache where o: "data (cf_cusip c) = Some main" "column ''price'' main = Inr price"
      "single_factor_frame c data = Inr fr" "indicator_cache K fr (cf_indicator c) ws = Inr cache"
      "obj = SingleFactor \<lparr>ob_cost = transaction_cost fee, ob_min_obs = mo, ob_period = cf_period c,
                ob_chg = pct_change K price\<rparr> cache (cf_signal_func c)"
    using assms(2)
    by (auto simp: single_objective_def new_objective_base_def bindR_Inr_iff lookup_frame_def split: option.splits)
  obtain xs where xs: "has_column ''factor'' fr" "indicator K (cf_indicator c) fr w = Inr xs" "cached cache w = Inr xs"
    by (rule indicator_cache_lookup [OF o(4) assms(3)])
  obtain sub where sub: "get_substrategies c = [sub]" using single_get_substrategies [OF assms(1)] by blast
  show ?thesis
    by (cases "strategy_pnl (apply_signal (cf_signal_func c) xs s) (pct_change K price) (transaction_cost fee)")
      (auto simp: backtest_sharpe_def new_performance_def lookup_frame_def o per_factor_def sub max_list_def
        enrich_performance_def final_position_def assms(1) single_factor_outputs_def technical_analysis_def
        xs item_def objective_sharpe_def get_sharpe_ratio_def Let_def)
qed

lemma mapR_cong: "(\<And>x. x \<in> set xs \<Longrightarrow> f x = g x) \<Longrightarrow> mapR f xs = mapR g xs"
  by (induction xs) auto

text \<open>One factor of the objective and of the back-test.\<close>

lemma multi_objective_sharpe:
  assumes multi: "is_multi c" and obj: "multi_objective K data c wss fee mo = Inr obj"
    and len: "length wss = length (get_substrategies c)" "length ss = length wss"
    and ws: "list_all2 (\<lambda>w cs. w \<in> set cs) ws wss"
    and main: "data (cf_cusip c) = Some main" "has_column ''factor'' main"
  shows "call_objective K obj (map JInt ws) (map JNum ss)
       = backtest_sharpe K data c fee mo (PerFactor ws) (PerFactor ss)"
proof -
  let ?subs = "get_substrategies c" and ?n = "length (get_substrategies c)"
  let ?build = "\<lambda>(sub, windows). bindR (factor_series c data sub) (\<lambda>xs.
      bindR (indicator_cache K (factor_frame main xs) (ss_indicator sub) windows) (\<lambda>cache.
      bindR (resolve_sub sub) (\<lambda>f. Inr (cache, f))))"
  obtain price factors where o: "column ''price'' main = Inr price" "mapR ?build (zip ?subs wss) = Inr factors"
      "obj = MultiFactor \<lparr>ob_cost = transaction_cost fee, ob_min_obs = mo, ob_period = cf_period c,
                ob_chg = pct_change K price\<rparr> (cf_conjunction c) factors"
    using obj main(1)
    by (auto simp: multi_objective_def new_objective_base_def bindR_Inr_iff lookup_frame_def)
  have lens: "length ws = ?n" "length factors = ?n" "length ss = ?n" "0 < ?n"
    using len ws mapR_length [OF o(2)] by (auto dest: list_all2_lengthD)
  have each: "\<exists>xs ind f. factor_series c data (?subs ! i) = Inr xs
      \<and> indicator_and_position K main (?subs ! i) xs (ws ! i) (ss ! i) = Inr (ind, apply_signal f ind (ss ! i))
      \<and> cached (fst (factors ! i)) (ws ! i) = Inr ind \<and> snd (factors ! i) = f" if i: "i < ?n" for i
  proof -
    have "?build (zip ?subs wss ! i) = Inr (factors ! i)"
      using mapR_nth [OF o(2), of i] i len by simp
    then obtain xs cache f where b: "factor_series c data (?subs ! i) = Inr xs"
        "indicator_cache K (factor_frame main xs) (ss_indicator (?subs ! i)) (wss ! i) = Inr cache"
        "resolve_sub (?subs ! i) = Inr f" "factors ! i = (cache, f)"
      using i len by (cases "factors ! i") (auto simp: bindR_Inr_iff)
    have "ws ! i \<in> set (wss ! i)" using ws i len by (simp add: list_all2_conv_all_nth)
    then obtain ind where "has_column ''factor'' (factor_frame main xs)"
        "indicator K (ss_indicator (?subs ! i)) (factor_frame main xs) (ws ! i) = Inr ind"
        "cached cache (ws ! i) = Inr ind"
      by (rule indicator_cache_lookup [OF b(2)])
    with b show ?thesis by (auto simp: indicator_and_position_def technical_analysis_def)
  qed
  define fx ix gx where "fx i = projr (factor_series c data (?subs ! i))"
    and "ix i = projr (cached (fst (factors ! i)) (ws ! i))" and "gx i = snd (factors ! i)" for i
  have at_i: "factor_series c data (?subs ! i) = Inr (fx i)
      \<and> indicator_and_position K main (?subs ! i) (fx i) (ws ! i) (ss ! i) = Inr (ix i, apply_signal (gx i) (ix i) (ss ! i))
      \<and> cached (fst (factors ! i)) (ws ! i) = Inr (ix i) \<and> snd (factors ! i) = gx i" if "i < ?n" for i
    using each [OF that] by (auto simp: fx_def ix_def gx_def)
  let ?outs = "map (\<lambda>i. (fx i, ix i, apply_signal (gx i) (ix i) (ss ! i))) [0..<?n]"
  have perf: "mapR (\<lambda>(i, sub). bindR (factor_series c data sub) (\<lambda>factor_vals.
      bindR (item ws i) (\<lambda>w. bindR (item ss i) (\<lambda>s.
      bindR (indicator_and_position K main sub factor_vals w s) (\<lambda>(ind, pos). Inr (factor_vals, ind, pos))))))
      (enumerate 0 ?subs) = Inr ?outs"
    unfolding mapR_Inr_eq by (auto simp: list_all2_conv_all_nth nth_enumerate_eq item_def lens at_i)
  have call: "mapR (\<lambda>(i, cache, f). bindR (bindR (item (map JInt ws) i) py_int) (\<lambda>w.
      bindR (cached cache w) (\<lambda>ind. bindR (bindR (item (map JNum ss) i) py_float_json) (\<lambda>s.
      Inr (ind, apply_signal f ind s))))) (enumerate 0 factors)
      = Inr (map (\<lambda>i. (ix i, apply_signal (gx i) (ix i) (ss ! i))) [0..<?n])"
    unfolding mapR_Inr_eq
    by (auto simp: list_all2_conv_all_nth nth_enumerate_eq item_def lens case_prod_beta at_i)
  have ints: "mapR py_int (map JInt ws) = Inr ws" by (induction ws) auto
  have mw: "max_list ws = Inr (foldl max (hd ws) (tl ws))"
    using lens by (intro max_list_params) auto
  let ?pos = "map (\<lambda>i. apply_signal (gx i) (ix i) (ss ! i)) [0..<?n]" and ?ind = "map ix [0..<?n]"
  have maps: "map (\<lambda>(f, ind, pos). pos) ?outs = ?pos" "map (\<lambda>(f, ind, pos). ind) ?outs = ?ind"
    by simp_all
  define cp where "cp = combine_positions ?pos (cf_conjunction c) (Some ?ind)"
  have left: "call_objective K obj (map JInt ws) (map JNum ss) = bindR cp (\<lambda>combined.
      objective_sharpe K \<lparr>ob_cost = transaction_cost fee, ob_min_obs = mo, ob_period = cf_period c,
                ob_chg = pct_change K price\<rparr> combined (foldl max (hd ws) (tl ws)))"
    unfolding o(3) call_objective.simps call ints cp_def by (simp add: comp_def mw)
  let ?p = "\<lparr>pf_config = c, pf_data = data, pf_main = main, pf_windows = ws, pf_signals = ss,
      pf_metric_window = foldl max (hd ws) (tl ws), pf_cost = transaction_cost fee, pf_min_obs = mo\<rparr>"
  have p: "new_performance c data (Some (PerFactor ws)) (Some (PerFactor ss)) fee mo = Inr ?p"
    by (simp add: new_performance_def lookup_frame_def main per_factor_def multi mw)
  have fp: "final_position K ?p = cp"
    using multi main(2)
    by (cases cp) (simp_all add: final_position_def multi_factor_outputs_def technical_analysis_def perf
        maps cp_def [symmetric] del: map_map)
  show ?thesis
  proof (cases cp)
    case (Inl e)
    then show ?thesis by (simp add: left backtest_sharpe_def p enrich_performance_def fp)
  next
    case (Inr fin)
    then show ?thesis
      by (cases "strategy_pnl fin (pct_change K price) (transaction_cost fee)")
        (auto simp: left backtest_sharpe_def p enrich_performance_def fp o(1) objective_sharpe_def
          get_sharpe_ratio_def Let_def)
  qed
qed

text \<open>C30: The search optimises the metric the back-test reports. For parameters among the candidates
  and a traded product with its price as factor, the objective built once for all candidates
  (indicators cached per window, one array program) gives exactly the Sharpe ratio, or the exception,
  of a full back-test at those parameters, for one factor and for several.\<close>

theorem objective_is_backtest_sharpe:
  assumes "for_config K data c spec fee mo = Inr obj" and "candidate c spec w s"
    and "data (cf_cusip c) = Some main" and "has_column ''factor'' main"
  shows "call_objective K obj (map JInt (as_args w)) (map JNum (as_args s))
       = backtest_sharpe K data c fee mo w s"
proof (cases "is_multi c")
  case False
  then obtain ws x y where "spec = Scalar ws" "w = Scalar x" "s = Scalar y" "x \<in> set ws"
    using assms(2) by (cases "(c, spec, w, s)" rule: candidate.cases) auto
  then show ?thesis
    using assms(1) False single_objective_sharpe [of c K data ws fee mo obj x y]
    by (simp add: for_config_def)
next
  case True
  then obtain wss xs ys where p: "spec = PerFactor wss" "w = PerFactor xs" "s = PerFactor ys"
      "length wss = length (get_substrategies c)" "length ys = length wss"
      "list_all2 (\<lambda>w cs. w \<in> set cs) xs wss"
    using assms(2) by (cases "(c, spec, w, s)" rule: candidate.cases) auto
  have "multi_objective K data c wss fee mo = Inr obj" using assms(1) True by (simp add: for_config_def p(1))
  from multi_objective_sharpe [OF True this p(4-6) assms(3,4)] show ?thesis by (simp add: p)
qed

definition demo_price_data :: "nat data_dict" where
  "demo_price_data = [''btcusdt.crypto'' \<mapsto>
     \<lparr>f_index = [1, 2], f_cols = [(''price'', [Fin 5, Fin 2]), (''factor'', [Fin 5, Fin 2])]\<rparr>]"

theorem objective_is_backtest_sharpe_witness:
  "\<exists>obj. for_config demo_kernels demo_price_data demo_strategy (Scalar [1, 2]) None 1 = Inr obj
     \<and> call_objective demo_kernels obj [JInt 1] [JNum (Fin 1)]
       = backtest_sharpe demo_kernels demo_price_data demo_strategy None 1 (Scalar 1) (Scalar (Fin 1))"
proof -
  obtain obj where obj: "for_config demo_kernels demo_price_data demo_strategy (Scalar [1, 2]) None 1 = Inr obj"
    by (simp add: for_config_def is_multi_def get_substrategies_def demo_strategy_def single_config_def
        single_objective_def new_objective_base_def lookup_frame_def demo_price_data_def column_def
        single_factor_frame_def sub_cusip_def truthy_def has_column_def indicator_cache_def
        technical_analysis_def indicator_def raw_indicator_def get_sma_def demo_kernels_def reindex_def)
  moreover have "candidate demo_strategy (Scalar [1, 2]) (Scalar 1) (Scalar (Fin 1))"
    by (simp add: is_multi_def get_substrategies_def demo_strategy_def single_config_def)
  ultimately show ?thesis
    using objective_is_backtest_sharpe [of demo_kernels demo_price_data demo_strategy "Scalar [1, 2]" None 1
        obj "Scalar 1" "Scalar (Fin 1)"]
    by (auto simp: demo_price_data_def has_column_def demo_strategy_def single_config_def)
qed

section \<open>The best of the grid\<close>

lemma length_product_lists_prod: "length (product_lists xss) = prod_list (map length xss)"
  by (induction xss) (simp_all add: length_concat sum_list_triv comp_def)

lemma flt_lt_NegInf_iff: "flt_lt NegInf x \<longleftrightarrow> x \<noteq> NegInf \<and> x \<noteq> NaN"
  by (cases x) auto

lemma evaluate_trial_finite: "flt_lt NegInf (evaluate_trial f w s) \<Longrightarrow>
    \<exists>q. f w s = Inr (Fin q) \<and> evaluate_trial f w s = Fin q"
  by (auto simp: evaluate_trial_def is_finite_def split: sum.splits flt.splits if_splits)

lemma build_result_best:
  assumes "build_result srt rows = Inr r" and "sorts_descending srt"
  shows "or_grid r = rows" and "or_best r = [] \<or> or_best r \<in> set rows"
    and "\<And>x. x \<in> set rows \<Longrightarrow> row_sharpe x \<noteq> NaN \<Longrightarrow> or_best r \<noteq> x \<Longrightarrow> or_best r \<in> set rows \<and> \<not> flt_lt (row_sharpe (or_best r)) (row_sharpe x)"
    and "or_best r \<in> set rows \<Longrightarrow> or_best r \<noteq> [] \<Longrightarrow> row_sharpe (or_best r) \<noteq> NaN"
proof -
  let ?valid = "filter (\<lambda>r. row_sharpe r \<noteq> NaN) rows"
  have "mset (srt ?valid) = mset ?valid" and desc: "descending (srt ?valid)"
    using assms(2) by (auto simp: sorts_descending_def)
  then have set_eq: "set (srt ?valid) = set ?valid" by (metis set_mset_mset)
  have r: "or_grid r = rows" "or_best r = (case take 10 (srt ?valid) of x # _ \<Rightarrow> x | [] \<Rightarrow> [])"
    using assms(1) by (auto simp: build_result_def Let_def split: if_splits)
  show "or_grid r = rows" by (rule r(1))
  show "or_best r = [] \<or> or_best r \<in> set rows"
    using set_eq by (cases "srt ?valid") (auto simp: r(2))
  show "row_sharpe (or_best r) \<noteq> NaN" if "or_best r \<in> set rows" "or_best r \<noteq> []"
    using set_eq that by (cases "srt ?valid") (auto simp: r(2))
  show "or_best r \<in> set rows \<and> \<not> flt_lt (row_sharpe (or_best r)) (row_sharpe x)"
    if "x \<in> set rows" "row_sharpe x \<noteq> NaN" "or_best r \<noteq> x" for x
  proof -
    have "x \<in> set (srt ?valid)" using set_eq that by simp
    then obtain y ys where y: "srt ?valid = y # ys" "x = y \<or> x \<in> set ys"
      by (cases "srt ?valid") auto
    then have "or_best r = y" by (simp add: r(2))
    moreover have "y \<in> set rows" using set_eq y(1) by auto
    ultimately show ?thesis using desc y that(3) by (auto simp: descending_def)
  qed
qed

text \<open>The grid of one factor, and the row a combination becomes.\<close>

definition single_params :: "int \<Rightarrow> flt \<Rightarrow> row" where
  "single_params w s = [(''window'', JInt w), (''signal'', JNum s)]"

definition scored :: "flt \<Rightarrow> flt" where
  "scored v = (if flt_lt NegInf v then v else NaN)"

definition single_row :: "(json list \<Rightarrow> json list \<Rightarrow> py_exn + flt) \<Rightarrow> int \<Rightarrow> flt \<Rightarrow> row" where
  "single_row f w s = single_params w s @ [(''sharpe'', JNum (scored (evaluate_trial f [JInt w] [JNum s])))]"

lemma grid_single: "grid_params (single_space ws ss) = concat (map (\<lambda>w. map (single_params w) ss) ws)"
  by (induction ws) (simp_all add: grid_params_def single_space_def space_keys_def single_params_def comp_def)

lemma exhaustive_single:
  "bindR (exhaustive_search f (single_space ws ss)) (\<lambda>study. rows_from_study study (space_keys (single_space ws ss)))
   = Inr (concat (map (\<lambda>w. map (single_row f w) ss) ws))"
proof -
  let ?sp = "single_space ws ss"
  let ?trial = "\<lambda>p. \<lparr>t_params = p, t_value =
      evaluate_trial f [jget ''window'' p] [jget ''signal'' p]\<rparr>"
  have run: "run_trial f ?sp (single_params w s) = Inr (?trial (single_params w s))" for w s
    by (simp add: run_trial_def windows_signals_def single_params_def jitem_def)
  have study: "exhaustive_search f ?sp = Inr (map ?trial (grid_params ?sp))"
    unfolding exhaustive_search_def by (rule mapR_Inr) (auto simp: grid_single run)
  have "rows_from_study (map ?trial (grid_params ?sp)) (space_keys ?sp)
      = Inr (map (\<lambda>t. t_params t @ [(''sharpe'', JNum (scored (t_value t)))]) (map ?trial (grid_params ?sp)))"
    unfolding rows_from_study_def grid_single
    by (rule mapR_Inr, clarsimp)
      (simp add: single_params_def single_space_def space_keys_def jitem_def scored_def)
  then show ?thesis
    by (simp add: study comp_def grid_single map_concat single_row_def [abs_def] single_params_def)
qed

lemma row_sharpe_single [simp]: "row_sharpe (single_row f w s) = scored (evaluate_trial f [JInt w] [JNum s])"
  by (simp add: row_sharpe_def single_row_def single_params_def)

lemma space_total_single [simp]: "space_total (single_space ws ss) = Inr (length ws * length ss)"
  by (simp add: space_total_def single_space_def space_item_def)

lemma run_optimizer_single:
  assumes "\<not> is_multi c" and "length ws * length ss \<le> optuna_max_trials"
    and "run_optimizer L K data c fee mo (Scalar ws) (Scalar ss) None = Inr r"
  obtains obj where "for_config K data c (Scalar ws) fee mo = Inr obj"
    "build_result (sort_values L) (concat (map (\<lambda>w. map (single_row (call_objective K obj) w) ss) ws)) = Inr r"
proof -
  have kind: "select_search (length ws * length ss) None = (Exhaustive, length ws * length ss)"
    using assms(2) by (simp add: select_search_def min_def)
  have "run_space L K data c fee mo (single_space ws ss) None = Inr r"
    using assms(1,3) by (simp add: run_optimizer_def)
  then obtain obj where obj: "for_config K data c (Scalar ws) fee mo = Inr obj"
    "bindR (bindR (exhaustive_search (call_objective K obj) (single_space ws ss)) (\<lambda>study.
       rows_from_study study (space_keys (single_space ws ss)))) (build_result (sort_values L)) = Inr r"
    by (auto simp: run_space_def kind bindR_Inr_iff) (auto simp: single_space_def bindR_Inr_iff)
  with that show thesis by (simp add: exhaustive_single)
qed

text \<open>C29: An exhaustive search finds the best back-test of the grid. For a strategy of one factor and
  a grid within the trial budget, when the search returns: every combination was evaluated once; if
  it names no best row, no combination back-tests to a finite Sharpe ratio; otherwise the best row
  holds a window and a signal of the grid, reads back as those parameters, reports the Sharpe ratio
  a full back-test has there, and no combination of the grid back-tests to a greater finite one.\<close>

theorem exhaustive_finds_best:
  assumes "\<not> is_multi c" and "length ws * length ss \<le> optuna_max_trials"
    and "sorts_descending (sort_values L)"
    and "run_optimizer L K data c fee mo (Scalar ws) (Scalar ss) None = Inr r"
  shows "length (or_grid r) = length ws * length ss
    \<and> (if or_best r = []
       then \<forall>w \<in> set ws. \<forall>s \<in> set ss. \<forall>q. backtest_sharpe K data c fee mo (Scalar w) (Scalar s) \<noteq> Inr (Fin q)
       else \<exists>w \<in> set ws. \<exists>s \<in> set ss. \<exists>q.
         params_from_best (or_best r) = Inr (Scalar w, Scalar s)
         \<and> jget ''sharpe'' (or_best r) = JNum (Fin q)
         \<and> backtest_sharpe K data c fee mo (Scalar w) (Scalar s) = Inr (Fin q)
         \<and> (\<forall>w' \<in> set ws. \<forall>s' \<in> set ss. \<forall>q'.
              backtest_sharpe K data c fee mo (Scalar w') (Scalar s') = Inr (Fin q') \<longrightarrow> q' \<le> q))"
proof -
  obtain obj where obj: "for_config K data c (Scalar ws) fee mo = Inr obj"
    and built: "build_result (sort_values L) (concat (map (\<lambda>w. map (single_row (call_objective K obj) w) ss) ws)) = Inr r"
    by (rule run_optimizer_single [OF assms(1,2,4)])
  let ?f = "call_objective K obj"
  let ?rows = "concat (map (\<lambda>w. map (single_row ?f w) ss) ws)"
  note best = build_result_best [OF built assms(3)]
  have val: "?f [JInt w] [JNum s] = backtest_sharpe K data c fee mo (Scalar w) (Scalar s)" if "w \<in> set ws" for w s
    using single_objective_sharpe [of c K data ws fee mo obj w s] obj assms(1) that by (simp add: for_config_def)
  have fin: "evaluate_trial ?f [JInt w] [JNum s] = Fin q"
    if "w \<in> set ws" "backtest_sharpe K data c fee mo (Scalar w) (Scalar s) = Inr (Fin q)" for w s q
    using that by (simp add: evaluate_trial_def val is_finite_def)
  have in_rows: "single_row ?f w s \<in> set ?rows" if "w \<in> set ws" "s \<in> set ss" for w s
    using that by auto
  have "length ?rows = length ws * length ss" by (simp add: length_concat sum_list_triv comp_def)
  then have count: "length (or_grid r) = length ws * length ss" by (simp add: best(1))
  show ?thesis
  proof (cases "or_best r = []")
    case True
    have "backtest_sharpe K data c fee mo (Scalar w) (Scalar s) \<noteq> Inr (Fin q)"
      if ws: "w \<in> set ws" "s \<in> set ss" for w s q
    proof
      assume "backtest_sharpe K data c fee mo (Scalar w) (Scalar s) = Inr (Fin q)"
      then have "row_sharpe (single_row ?f w s) \<noteq> NaN" by (simp add: fin ws scored_def)
      moreover have "or_best r \<noteq> single_row ?f w s" using True by (simp add: single_row_def)
      ultimately have "or_best r \<in> set ?rows" using best(3) [OF in_rows [OF ws]] by blast
      with True show False by (auto simp: single_row_def)
    qed
    with True count show ?thesis by simp
  next
    case False
    then have mem: "or_best r \<in> set ?rows" using best(2) by blast
    then obtain w s where ws: "w \<in> set ws" "s \<in> set ss" "or_best r = single_row ?f w s" by auto
    have "row_sharpe (or_best r) \<noteq> NaN" by (rule best(4) [OF mem False])
    then have "flt_lt NegInf (evaluate_trial ?f [JInt w] [JNum s])"
      by (simp add: ws(3) scored_def split: if_splits)
    then obtain q where q: "?f [JInt w] [JNum s] = Inr (Fin q)" "evaluate_trial ?f [JInt w] [JNum s] = Fin q"
      using evaluate_trial_finite by blast
    have "q' \<le> q" if w': "w' \<in> set ws" "s' \<in> set ss"
        and b: "backtest_sharpe K data c fee mo (Scalar w') (Scalar s') = Inr (Fin q')" for w' s' q'
    proof -
      have v: "row_sharpe (single_row ?f w' s') = Fin q'" by (simp add: fin [OF w'(1) b] scored_def)
      have o: "row_sharpe (or_best r) = Fin q" by (simp add: ws(3) q(2) scored_def)
      show ?thesis
      proof (cases "or_best r = single_row ?f w' s'")
        case True
        with v o show ?thesis by simp
      next
        case False
        from best(3) [OF in_rows [OF w'] _ False] v o show ?thesis by simp
      qed
    qed
    moreover have "params_from_best (or_best r) = Inr (Scalar w, Scalar s)"
      by (simp add: ws(3) single_row_def single_params_def params_from_best_def jitem_def)
    moreover have "jget ''sharpe'' (or_best r) = JNum (Fin q)"
      by (simp add: ws(3) single_row_def single_params_def q(2) scored_def)
    ultimately show ?thesis using False count ws(1,2) q(1) val [OF ws(1)] by auto
  qed
qed

fun sharpe_key :: "flt \<Rightarrow> nat \<times> rat" where
  "sharpe_key PosInf = (0, 0)"
| "sharpe_key (Fin q) = (1, - q)"
| "sharpe_key NegInf = (2, 0)"
| "sharpe_key NaN = (3, 0)"

definition demo_optuna :: optuna where
  "demo_optuna = \<lparr>suggest = (\<lambda>study k vs. hd vs), sort_values = sort_key (\<lambda>r. sharpe_key (row_sharpe r))\<rparr>"

lemma sharpe_key_less: "flt_lt x y \<Longrightarrow> sharpe_key y < sharpe_key x"
  by (cases x; cases y) auto

lemma demo_sorts: "sorts_descending (sort_values demo_optuna)"
proof -
  have "descending (sort_key (\<lambda>r. sharpe_key (row_sharpe r)) rs)" for rs
  proof -
    let ?s = "sort_key (\<lambda>r. sharpe_key (row_sharpe r)) rs"
    have "sorted_wrt (\<lambda>a b. sharpe_key (row_sharpe a) \<le> sharpe_key (row_sharpe b)) ?s"
      using sorted_sort_key [of "\<lambda>r. sharpe_key (row_sharpe r)" rs] by (simp add: sorted_wrt_map)
    then show ?thesis
      unfolding descending_def
      by (rule sorted_wrt_mono_rel [rotated]) (use sharpe_key_less in \<open>force simp: not_le [symmetric]\<close>)
  qed
  then show ?thesis by (simp add: sorts_descending_def demo_optuna_def)
qed

theorem exhaustive_finds_best_witness:
  "\<exists>r. run_optimizer demo_optuna demo_kernels demo_price_data demo_strategy None 1
        (Scalar [1, 2]) (Scalar [Fin 1]) None = Inr r \<and> length (or_grid r) = 2"
proof -
  have "case run_optimizer demo_optuna demo_kernels demo_price_data demo_strategy None 1
        (Scalar [1, 2]) (Scalar [Fin 1]) None of Inr r \<Rightarrow> True | Inl e \<Rightarrow> False"
    by code_simp
  then obtain r where r: "run_optimizer demo_optuna demo_kernels demo_price_data demo_strategy None 1
        (Scalar [1, 2]) (Scalar [Fin 1]) None = Inr r"
    by (auto split: sum.splits)
  have "\<not> is_multi demo_strategy"
    by (simp add: is_multi_def get_substrategies_def demo_strategy_def single_config_def)
  from exhaustive_finds_best [OF this _ demo_sorts r] r show ?thesis
    by (simp add: optuna_max_trials_def)
qed

section \<open>The budget of a search\<close>

lemma product_lists_grid: "length (grid_params sp) = prod_list (map (length \<circ> snd) (sp_mapping sp))"
  by (simp add: grid_params_def length_product_lists_prod)

lemma exhaustive_length: "exhaustive_search f sp = Inr study \<Longrightarrow> length study = length (grid_params sp)"
  by (auto simp: exhaustive_search_def dest: mapR_length)

lemma bayesian_length: "bayesian_search sg f sp n study = Inr study' \<Longrightarrow> length study' = length study + n"
  by (induction n arbitrary: study) (auto simp: bindR_Inr_iff)

lemma nat_str_inject: "nat_str i = nat_str j \<longleftrightarrow> i = j"
  by (metis digits_val_nat_str)

lemma axis_neq [simp]: "axis ''window_'' i \<noteq> axis ''signal_'' j"
  by (simp add: axis_def)

lemma multi_space_item:
  assumes "i \<in> {n..<n + length z}"
  shows "map_of (concat (map (\<lambda>(i, ws, ss). [(axis ''window_'' i, map JInt ws), (axis ''signal_'' i, map JNum ss)])
            (enumerate n z))) (axis ''window_'' i) = Some (map JInt (fst (z ! (i - n))))"
    and "map_of (concat (map (\<lambda>(i, ws, ss). [(axis ''window_'' i, map JInt ws), (axis ''signal_'' i, map JNum ss)])
            (enumerate n z))) (axis ''signal_'' i) = Some (map JNum (snd (z ! (i - n))))"
proof -
  have neq: "axis ''signal_'' i \<noteq> axis ''window_'' j" for i j by (metis axis_neq)
  show "map_of (concat (map (\<lambda>(i, ws, ss). [(axis ''window_'' i, map JInt ws), (axis ''signal_'' i, map JNum ss)])
            (enumerate n z))) (axis ''window_'' i) = Some (map JInt (fst (z ! (i - n))))"
    using assms by (induction z arbitrary: n) (auto simp: axis_def nat_str_inject nth_Cons' Suc_diff_Suc)
  show "map_of (concat (map (\<lambda>(i, ws, ss). [(axis ''window_'' i, map JInt ws), (axis ''signal_'' i, map JNum ss)])
            (enumerate n z))) (axis ''signal_'' i) = Some (map JNum (snd (z ! (i - n))))"
    using assms by (induction z arbitrary: n) (auto simp: axis_def nat_str_inject nth_Cons' Suc_diff_Suc)
qed

lemma multi_grid_length:
  "prod_list (map (length \<circ> snd) (concat (map (\<lambda>(i, ws, ss).
      [(axis ''window_'' i, map JInt ws), (axis ''signal_'' i, map JNum ss)]) (enumerate n z))))
   = prod_list (map (\<lambda>(ws, ss). length ws * length ss) z)"
  by (induction z arbitrary: n) auto

lemma multi_space_total:
  assumes "multi_space wss sss = Inr sp" and "length wss \<noteq> 1"
  shows "space_total sp = Inr (length (grid_params sp))"
proof -
  let ?z = "zip wss sss"
  have sp: "sp_factors sp = length wss" "length sss = length wss"
      "sp_mapping sp = concat (map (\<lambda>(i, ws, ss). [(axis ''window_'' i, map JInt ws), (axis ''signal_'' i, map JNum ss)])
            (enumerate 0 ?z))"
    using assms(1) by (auto simp: multi_space_def split: if_splits)
  have z: "i \<in> {0..<0 + length ?z}" if "i < length wss" for i using that sp(2) by simp
  have "mapR (\<lambda>i. bindR (space_item (sp_mapping sp) (axis ''window_'' i)) (\<lambda>ws.
          bindR (space_item (sp_mapping sp) (axis ''signal_'' i)) (\<lambda>ss. Inr (length ws * length ss)))) [0..<length wss]
      = Inr (map (\<lambda>i. length (wss ! i) * length (sss ! i)) [0..<length wss])"
    by (rule mapR_Inr)
      (simp add: space_item_def sp(3) multi_space_item(1) [OF z, simplified] multi_space_item(2) [OF z, simplified] sp(2))
  moreover have "map (\<lambda>i. length (wss ! i) * length (sss ! i)) [0..<length wss] = map (\<lambda>(ws, ss). length ws * length ss) ?z"
    using sp(2) by (auto intro!: nth_equalityI)
  ultimately show ?thesis
    using assms(2) by (simp add: space_total_def sp(1) product_lists_grid sp(3) multi_grid_length)
qed

lemma run_space_length:
  assumes "run_space L K data c fee mo sp n_trials = Inr r" and "space_total sp = Inr (length (grid_params sp))"
  shows "length (or_grid r) = min (length (grid_params sp)) (case n_trials of None \<Rightarrow> optuna_max_trials | Some n \<Rightarrow> n)"
proof -
  define combos where "combos = length (grid_params sp)"
  obtain kind n where k: "select_search combos n_trials = (kind, n)" by fastforce
  obtain obj study rows where r:
      "(case kind of Exhaustive \<Rightarrow> exhaustive_search (call_objective K obj) sp
        | Bayesian \<Rightarrow> bayesian_search (suggest L) (call_objective K obj) sp n []) = Inr study"
      "rows_from_study study (space_keys sp) = Inr rows" "build_result (sort_values L) rows = Inr r"
    using assms k by (auto simp: run_space_def bindR_Inr_iff combos_def [symmetric])
  have "length (or_grid r) = length study"
    using r(2,3) by (auto simp: build_result_def rows_from_study_def Let_def dest: mapR_length split: if_splits)
  moreover have "length study = (case kind of Exhaustive \<Rightarrow> combos | Bayesian \<Rightarrow> n)"
    using r(1) by (auto simp: combos_def split: search_kind.splits dest: exhaustive_length bayesian_length)
  ultimately show ?thesis
    using k by (auto simp: select_search_def Let_def combos_def [symmetric] split: if_splits option.splits)
qed

fun grid_size :: "int list param \<Rightarrow> flt list param \<Rightarrow> nat" where
  "grid_size (Scalar ws) (Scalar ss) = length ws * length ss"
| "grid_size (PerFactor wss) (PerFactor sss) = prod_list (map (\<lambda>(ws, ss). length ws * length ss) (zip wss sss))"
| "grid_size _ _ = 0"

text \<open>A search stays within its budget. When a search over one set of candidates per factor
  returns, it evaluated as many parameter sets as the smaller of the grid size (the product of the
  candidate counts) and the trial limit: the caller's, or 10,000.\<close>

theorem optimizer_budget:
  assumes "run_optimizer L K data c fee mo windows signals n_trials = Inr r"
    and "\<forall>ws. windows = Scalar ws \<longrightarrow> \<not> is_multi c"
  shows "length (or_grid r)
       = min (grid_size windows signals) (case n_trials of None \<Rightarrow> 10000 | Some n \<Rightarrow> n)"
proof (cases windows; cases signals)
  fix ws ss assume p: "windows = Scalar ws" "signals = Scalar ss"
  have "length (grid_params (single_space ws ss)) = length ws * length ss"
    by (simp add: product_lists_grid single_space_def)
  with run_space_length [of L K data c fee mo "single_space ws ss" n_trials r] assms show ?thesis
    by (simp add: p run_optimizer_def optuna_max_trials_def split: option.splits)
next
  fix wss sss assume p: "windows = PerFactor wss" "signals = PerFactor sss"
  then obtain sp where sp: "multi_space wss sss = Inr sp" "run_space L K data c fee mo sp n_trials = Inr r"
    using assms(1) by (auto simp: run_optimizer_def bindR_Inr_iff split: if_splits)
  have "length wss \<noteq> 1"
  proof
    assume one: "length wss = 1"
    then have "sp_factors sp = 1" "map_of (sp_mapping sp) ''window'' = None"
      using sp(1) by (auto simp: multi_space_def axis_def map_of_eq_None_iff split: if_splits)
    with sp(2) show False by (simp add: run_space_def space_total_def space_item_def)
  qed
  note t = multi_space_total [OF sp(1) this]
  have "length (grid_params sp) = grid_size windows signals"
    using sp(1) by (auto simp: product_lists_grid multi_space_def multi_grid_length p split: if_splits)
  with run_space_length [OF sp(2) t] show ?thesis
    by (simp add: optuna_max_trials_def split: option.splits)
qed (use assms in \<open>auto simp: run_optimizer_def\<close>)

theorem optimizer_budget_witness:
  "\<exists>r. run_optimizer demo_optuna demo_kernels demo_price_data demo_strategy None 1
        (Scalar [1, 2]) (Scalar [Fin 1]) (Some 1) = Inr r \<and> length (or_grid r) = 1"
proof -
  have "case run_optimizer demo_optuna demo_kernels demo_price_data demo_strategy None 1
        (Scalar [1, 2]) (Scalar [Fin 1]) (Some 1) of Inr r \<Rightarrow> True | Inl e \<Rightarrow> False"
    by code_simp
  then obtain r where r: "run_optimizer demo_optuna demo_kernels demo_price_data demo_strategy None 1
        (Scalar [1, 2]) (Scalar [Fin 1]) (Some 1) = Inr r"
    by (auto split: sum.splits)
  have "\<not> is_multi demo_strategy"
    by (simp add: is_multi_def get_substrategies_def demo_strategy_def single_config_def)
  with optimizer_budget [OF r] r show ?thesis by simp
qed

section \<open>The walk-forward test\<close>

text \<open>C33: Walk-forward parameters come from the in-sample part alone. Cut every frame after
  \<open>int(len * split_ratio)\<close> rows, the length being that of the traded frame. If two data sets with
  traded frames of one length agree on every frame before the cut and both tests return, they
  choose the same window and signal and report the same in-sample metrics, whatever follows the
  cut. Each test reports as out-of-sample metrics those of the engine with these parameters on
  the rows from the cut on, and the cut leaves at least two bars on each side.\<close>

theorem walk_forward_in_sample_only:
  assumes "new_walk_forward str_float data ratio c fee mo = Inr wk"
    and "new_walk_forward str_float data' ratio c fee mo = Inr wk'"
    and "data (cf_cusip c) = Some main" and "data' (cf_cusip c) = Some main'"
    and "length (f_index main') = length (f_index main)"
    and "n = nat (py_trunc (flt_mul (fl (of_nat (length (f_index main)))) ratio))"
    and "\<forall>k. map_option (\<lambda>fr. (take n (f_index fr), map (\<lambda>(nm, xs). (nm, take n xs)) (f_cols fr))) (data' k)
           = map_option (\<lambda>fr. (take n (f_index fr), map (\<lambda>(nm, xs). (nm, take n xs)) (f_cols fr))) (data k)"
    and "run_walk_forward L K wk windows signals = Inr r"
    and "run_walk_forward L K wk' windows signals = Inr r'"
  shows "wr_window r = wr_window r' \<and> wr_signal r = wr_signal r' \<and> wr_is r = wr_is r'
    \<and> 2 \<le> n \<and> n + 2 \<le> length (f_index main)
    \<and> (\<exists>p e. new_performance c (\<lambda>k. map_option (\<lambda>fr. \<lparr>f_index = drop n (f_index fr),
             f_cols = map (\<lambda>(nm, xs). (nm, drop n xs)) (f_cols fr)\<rparr>) (data k))
           (Some (wr_window r)) (Some (wr_signal r)) fee mo = Inr p
         \<and> enrich_performance K p = Inr e \<and> strategy_performance K p e = Inr (wr_oos r))"
proof -
  have wk: "wk = \<lparr>wf_data = data, wf_config = c, wf_fee = fee, wf_min_obs = mo, wf_split = n\<rparr>"
      "wk' = \<lparr>wf_data = data', wf_config = c, wf_fee = fee, wf_min_obs = mo, wf_split = n\<rparr>"
    and n: "2 \<le> n" "n + 2 \<le> length (f_index main)"
    using assms(1-6) by (auto simp: new_walk_forward_def bindR_Inr_iff Let_def lookup_frame_def split: if_splits)
  have "in_sample wk = in_sample wk'"
  proof
    fix k
    show "in_sample wk k = in_sample wk' k"
      using assms(7) [rule_format, of k]
      by (cases "data k"; cases "data' k") (auto simp: in_sample_def wk take_frame_def)
  qed
  then have "wr_window r = wr_window r' \<and> wr_signal r = wr_signal r' \<and> wr_is r = wr_is r'"
    using assms(8,9) by (auto simp: run_walk_forward_def bindR_Inr_iff wk evaluate_slice_def)
  moreover have "\<exists>p e. new_performance c (out_of_sample wk) (Some (wr_window r)) (Some (wr_signal r)) fee mo = Inr p
         \<and> enrich_performance K p = Inr e \<and> strategy_performance K p e = Inr (wr_oos r)"
    using assms(8) by (auto simp: run_walk_forward_def bindR_Inr_iff evaluate_slice_def) (auto simp: wk)
  moreover have "out_of_sample wk = (\<lambda>k. map_option (\<lambda>fr. \<lparr>f_index = drop n (f_index fr),
             f_cols = map (\<lambda>(nm, xs). (nm, drop n xs)) (f_cols fr)\<rparr>) (data k))"
    by (simp add: out_of_sample_def wk drop_frame_def [abs_def])
  ultimately show ?thesis using n by metis
qed

definition demo_bars :: "flt \<Rightarrow> nat data_dict" where
  "demo_bars x = [''btcusdt.crypto'' \<mapsto>
     \<lparr>f_index = [1, 2, 3, 4],
      f_cols = [(''price'', [Fin 5, Fin 2, Fin 3, x]), (''factor'', [Fin 5, Fin 2, Fin 3, x])]\<rparr>]"

definition demo_walk :: "flt \<Rightarrow> py_exn + nat walk_forward" where
  "demo_walk x = new_walk_forward (\<lambda>x. []) (demo_bars x) (Fin (1 / 2)) demo_strategy None 1"

definition still_kernels :: kernels where
  "still_kernels = demo_kernels\<lparr>pct_change := map (\<lambda>x. Fin 0), mean_of := (\<lambda>xs. Fin 0)\<rparr>"

definition demo_walk_result :: "flt \<Rightarrow> py_exn + nat walk_forward_result" where
  "demo_walk_result x =
     bindR (demo_walk x) (\<lambda>wk. run_walk_forward demo_optuna still_kernels wk (Scalar [1]) (Scalar [Fin 1]))"

theorem walk_forward_in_sample_only_witness:
  "\<exists>r r'. demo_walk_result (Fin 4) = Inr r \<and> demo_walk_result (Fin 9) = Inr r'
     \<and> wr_window r = wr_window r' \<and> wr_is r = wr_is r'"
proof -
  have "case demo_walk_result (Fin 4) of Inr r \<Rightarrow> True | Inl e \<Rightarrow> False"
    and "case demo_walk_result (Fin 9) of Inr r \<Rightarrow> True | Inl e \<Rightarrow> False"
    by code_simp+
  then obtain r r' wk wk' where res: "demo_walk_result (Fin 4) = Inr r" "demo_walk_result (Fin 9) = Inr r'"
    and wk: "new_walk_forward (\<lambda>x. []) (demo_bars (Fin 4)) (Fin (1 / 2)) demo_strategy None 1 = Inr wk"
      "new_walk_forward (\<lambda>x. []) (demo_bars (Fin 9)) (Fin (1 / 2)) demo_strategy None 1 = Inr wk'"
    and run: "run_walk_forward demo_optuna still_kernels wk (Scalar [1]) (Scalar [Fin 1]) = Inr r"
      "run_walk_forward demo_optuna still_kernels wk' (Scalar [1]) (Scalar [Fin 1]) = Inr r'"
    by (auto simp: demo_walk_result_def demo_walk_def bindR_Inr_iff split: sum.splits)
  obtain m m' where m: "demo_bars (Fin 4) (cf_cusip demo_strategy) = Some m"
      "demo_bars (Fin 9) (cf_cusip demo_strategy) = Some m'" "length (f_index m') = length (f_index m)"
      "length (f_index m) = 4"
    by (simp add: demo_bars_def demo_strategy_def single_config_def)
  have n: "2 = nat (py_trunc (flt_mul (fl (of_nat (length (f_index m)))) (Fin (1 / 2))))"
    using fl_of_int [of 4] fl_of_int [of 2] by (simp add: m(4) py_trunc_def)
  have "\<forall>k. map_option (\<lambda>fr. (take 2 (f_index fr), map (\<lambda>(nm, xs). (nm, take 2 xs)) (f_cols fr))) (demo_bars (Fin 9) k)
      = map_option (\<lambda>fr. (take 2 (f_index fr), map (\<lambda>(nm, xs). (nm, take 2 xs)) (f_cols fr))) (demo_bars (Fin 4) k)"
    by (simp add: demo_bars_def numeral_2_eq_2)
  from walk_forward_in_sample_only [OF wk m(1-3) n this run] res show ?thesis by blast
qed

end
