(* ===== verification/ApiCache.thy ===== *)
theory ApiCache
  imports Performance PriceBarDb "HOL-Library.Product_Lexorder" "HOL-Library.Multiset"
begin

text \<open>
  The cache of provider series (\<^verbatim>\<open>quant/data/backtest_cache.py\<close>) on the tables
  \<open>MARKET_DATA.API_REQUEST\<close> and \<open>API_REQUEST_PAYLOAD\<close> with their stored procedures.

  A request row is a version of a cached series, a payload row the series as a JSON array of
  records; a record is a time in whole seconds and the numbers of a bar. Tables are lists of rows,
  newest first; the version window that is still open is a flag; user and log columns are left out.
  Times are microseconds of UTC. How pandas reads a time from text is the parameter \<open>T\<close>. A call
  of the database fails when the head of \<open>api_faults\<close> says so: in the procedure, with its
  SQLSTATE, or in the driver. The index of every frame is called \<open>datetime\<close>.
\<close>

section \<open>Errors\<close>

text \<open>What a client reads in a \<open>BacktestError\<close>: a text, or the facts its text is made from.\<close>

datatype bt_cause =
    Detail string
  | Missed "string option" string string "(int \<times> int) option"
  | NotSpanned string string int int int int
  | NotAligned string string int int string string

datatype bt_exn =
    BacktestError bt_cause int
  | CacheMissError "string option" string string "(int \<times> int) option"
  | BtProc string string
  | BtDriver string
  | BtMkt mkt_exn
  | BtPy py_exn

definition of_py :: "py_exn + 'a \<Rightarrow> bt_exn + 'a" where
  "of_py = map_sum BtPy id"

lemma of_py_Inr_iff [simp]: "of_py r = Inr x \<longleftrightarrow> r = Inr x"
  by (cases r) (simp_all add: of_py_def)

section \<open>Tables\<close>

type_synonym series_records = "(int \<times> (string \<times> flt) list) list"

record api_request =
  ar_id :: nat
  ar_vid :: int
  ar_app :: int
  ar_metric :: int
  ar_interval :: int
  ar_cusip :: "string option"
  ar_group :: "int option"
  ar_start :: int
  ar_end :: int
  ar_open :: bool

record api_payload =
  pl_id :: nat
  pl_vid :: int
  pl_created :: int
  pl_records :: series_records

record api_limit =
  lim_app :: int
  lim_window :: "int option"
  lim_from :: "int option"
  lim_count :: "int option"

datatype db_fault = ProcFault string string | DriverFault string

record api_db =
  requests :: "api_request list"
  payloads :: "api_payload list"
  api_limits :: "api_limit list"
  api_now :: int
  api_faults :: "db_fault option list"

section \<open>Stored procedures\<close>

definition matches :: "int \<Rightarrow> int \<Rightarrow> int \<Rightarrow> string option \<Rightarrow> api_request \<Rightarrow> bool" where
  "matches app metric iv cusip r \<longleftrightarrow>
     ar_open r \<and> ar_app r = app \<and> ar_metric r = metric \<and> ar_interval r = iv
     \<and> (cusip = None \<or> ar_cusip r = cusip)"

definition payloads_of :: "api_db \<Rightarrow> api_request \<Rightarrow> series_records list" where
  "payloads_of db r =
     map pl_records (filter (\<lambda>p. pl_id p = ar_id r \<and> pl_vid p = ar_vid r) (payloads db))"

definition sp_get_api_request ::
  "int \<Rightarrow> int \<Rightarrow> int \<Rightarrow> string option \<Rightarrow> api_db \<Rightarrow> (api_request \<times> series_records) list" where
  "sp_get_api_request app metric iv cusip db =
     concat (map (\<lambda>r. map (Pair r) (payloads_of db r))
       (filter (matches app metric iv cusip) (requests db)))"

definition next_request_vid :: "nat \<Rightarrow> api_db \<Rightarrow> int" where
  "next_request_vid rid db = max_vid (map ar_vid (filter (\<lambda>r. ar_id r = rid) (requests db))) + 1"

definition sp_ins_api_request ::
  "nat \<Rightarrow> int \<Rightarrow> int \<Rightarrow> int \<Rightarrow> int option \<Rightarrow> int \<Rightarrow> int \<Rightarrow> series_records \<Rightarrow> string option
   \<Rightarrow> api_db \<Rightarrow> api_db" where
  "sp_ins_api_request rid app metric iv grp start end_ts recs cusip db =
     (let vid = next_request_vid rid db;
          closed = map (\<lambda>r. if ar_id r = rid then r\<lparr>ar_open := False\<rparr> else r) (requests db)
      in db\<lparr>requests := \<lparr>ar_id = rid, ar_vid = vid, ar_app = app, ar_metric = metric,
                         ar_interval = iv, ar_cusip = cusip, ar_group = grp, ar_start = start,
                         ar_end = end_ts, ar_open = True\<rparr> # closed,
            payloads := \<lparr>pl_id = rid, pl_vid = vid, pl_created = api_now db, pl_records = recs\<rparr>
                        # payloads db\<rparr>)"

text \<open>The purge drops whole partitions: \<open>part_end\<close> is the upper bound of a row's partition.\<close>

definition sp_detach_api_request_payload :: "(int \<Rightarrow> int) \<Rightarrow> int \<Rightarrow> api_db \<Rightarrow> api_db" where
  "sp_detach_api_request_payload part_end retention_days db =
     (let cutoff = api_now db - retention_days * 86400000000
      in if retention_days < 1 then db
         else db\<lparr>payloads := filter (\<lambda>p. cutoff < part_end (pl_created p)) (payloads db)\<rparr>)"

definition window_running :: "int \<Rightarrow> api_limit \<Rightarrow> bool" where
  "window_running t l = (case (lim_from l, lim_window l) of
     (Some f, Some s) \<Rightarrow> t < f + s * 1000000 | _ \<Rightarrow> False)"

definition sp_reserve_api_call :: "int \<Rightarrow> api_db \<Rightarrow> api_db" where
  "sp_reserve_api_call app db =
     db\<lparr>api_limits := map (\<lambda>l.
          if lim_app l = app \<and> lim_window l \<noteq> None
          then (if window_running (api_now db) l
                then l\<lparr>lim_count := Some ((case lim_count l of Some n \<Rightarrow> n | None \<Rightarrow> 0) + 1)\<rparr>
                else l\<lparr>lim_count := Some 1, lim_from := Some (api_now db)\<rparr>)
          else l) (api_limits db)\<rparr>"

definition on_api :: "(api_db \<Rightarrow> 'a \<times> api_db) \<Rightarrow> (api_db \<times> 'v, bt_exn, 'a) call" where
  "on_api f = (\<lambda>(db, v).
     let db' = db\<lparr>api_faults := tl (api_faults db)\<rparr>
     in case (case api_faults db of [] \<Rightarrow> None | x # _ \<Rightarrow> x) of
          Some (ProcFault st m) \<Rightarrow> (Inl (BtProc st m), (db', v))
        | Some (DriverFault m) \<Rightarrow> (Inl (BtDriver m), (db', v))
        | None \<Rightarrow> (case f db' of (x, db'') \<Rightarrow> (Inr x, (db'', v))))"

section \<open>Frames and their JSON\<close>

definition empty_frame :: "int frame" where
  "empty_frame = \<lparr>f_index = [], f_cols = []\<rparr>"

definition slice_frame :: "int \<Rightarrow> int \<Rightarrow> int frame \<Rightarrow> int frame" where
  "slice_frame a b fr =
     \<lparr>f_index = filter (\<lambda>t. a \<le> t \<and> t \<le> b) (f_index fr),
      f_cols = map (\<lambda>(k, xs). (k, map snd (filter (\<lambda>(t, x). a \<le> t \<and> t \<le> b) (zip (f_index fr) xs))))
                 (f_cols fr)\<rparr>"

text \<open>
  \<open>df.loc[a:b]\<close>. The index of an empty frame holds no times. An index out of order, which no
  modelled source produces, is sliced by exact labels; that is reported as a missing label.
\<close>

definition loc_slice :: "int \<Rightarrow> int \<Rightarrow> int frame \<Rightarrow> py_exn + int frame" where
  "loc_slice a b fr =
     (if f_index fr = [] then Inl (TypeError ''cannot do slice indexing on RangeIndex'')
      else if sorted (f_index fr) then Inr (slice_frame a b fr)
      else Inl (KeyError ''Timestamp''))"

text \<open>JSONB keeps the keys of an object by length, then by bytes; it has no NaN and no infinity.\<close>

definition jsonb_order :: "(string \<times> flt) list \<Rightarrow> (string \<times> flt) list" where
  "jsonb_order = sort_key (\<lambda>(k, x). (length k, k))"

definition to_records :: "int frame \<Rightarrow> series_records" where
  "to_records fr =
     map (\<lambda>i. (f_index fr ! i div 1000000, map (\<lambda>(k, xs). (k, xs ! i)) (f_cols fr)))
       [0..<length (f_index fr)]"

definition json_numbers :: "series_records \<Rightarrow> bool" where
  "json_numbers recs \<longleftrightarrow> list_all (\<lambda>(t, r). list_all (\<lambda>(k, x). is_finite x) r) recs"

definition as_jsonb :: "series_records \<Rightarrow> bt_exn + series_records" where
  "as_jsonb recs =
     (if json_numbers recs then Inr (map (\<lambda>(t, r). (t, jsonb_order r)) recs)
      else Inl (BtDriver ''invalid input syntax for type json''))"

definition payload_to_df :: "series_records \<Rightarrow> int frame" where
  "payload_to_df recs =
     (if recs = [] then empty_frame
      else
        (let rows = sort_key fst recs;
             keys = dedup [] (concat (map (map fst \<circ> snd) recs))
         in \<lparr>f_index = map (\<lambda>(t, r). t * 1000000) rows,
             f_cols = map (\<lambda>k. (k, map (\<lambda>(t, r). case map_of r k of Some x \<Rightarrow> x | None \<Rightarrow> NaN) rows)) keys\<rparr>))"

section \<open>The cache\<close>

definition to_utc :: "(string \<Rightarrow> py_exn + int) \<Rightarrow> string \<Rightarrow> bt_exn + int option" where
  "to_utc T s = (if s = [] then Inr None else bindR (of_py (T s)) (\<lambda>t. Inr (Some t)))"

definition interval_or_default :: "refdata \<Rightarrow> int option \<Rightarrow> bt_exn + int" where
  "interval_or_default rd iv =
     (case iv of Some i \<Rightarrow> Inr i | None \<Rightarrow> of_py (setting_int rd ''default_tm_interval_id''))"

definition lookup_current ::
  "int \<Rightarrow> int \<Rightarrow> int \<Rightarrow> string option
   \<Rightarrow> (api_db \<times> 'v, bt_exn, (nat \<times> int \<times> int \<times> int frame) option) call" where
  "lookup_current app metric iv cusip =
     bindC (on_api (\<lambda>db. (sp_get_api_request app metric iv cusip db, db))) (\<lambda>rows.
       case rows of
         [] \<Rightarrow> returnC None
       | (r, recs) # _ \<Rightarrow> returnC (Some (ar_id r, ar_start r, ar_end r, payload_to_df recs)))"

text \<open>\<open>except RuntimeError\<close>: a failing procedure is one, an error of the driver is not.\<close>

definition proc_error_is_miss :: "('w, bt_exn, 'a option) call \<Rightarrow> ('w, bt_exn, 'a option) call" where
  "proc_error_is_miss f = (\<lambda>w. case f w of (Inl (BtProc st m), w') \<Rightarrow> (Inr None, w') | r \<Rightarrow> r)"

definition not_after :: "int \<Rightarrow> int option \<Rightarrow> bt_exn + bool" where
  "not_after t x = (case x of Some a \<Rightarrow> Inr (t \<le> a)
     | None \<Rightarrow> Inl (BtPy (TypeError ''Cannot compare Timestamp with None'')))"

definition not_before :: "int \<Rightarrow> int option \<Rightarrow> bt_exn + bool" where
  "not_before t x = (case x of Some a \<Rightarrow> Inr (a \<le> t)
     | None \<Rightarrow> Inl (BtPy (TypeError ''Cannot compare Timestamp with None'')))"

definition covers :: "int \<Rightarrow> int \<Rightarrow> int option \<Rightarrow> int option \<Rightarrow> bt_exn + bool" where
  "covers c_start c_end req_start req_end =
     bindR (not_after c_start req_start) (\<lambda>b. if b then not_before c_end req_end else Inr False)"

definition read_payload ::
  "(string \<Rightarrow> py_exn + int) \<Rightarrow> refdata \<Rightarrow> int \<Rightarrow> int \<Rightarrow> string option \<Rightarrow> string \<Rightarrow> string \<Rightarrow> int option
   \<Rightarrow> (api_db \<times> 'v, bt_exn, int frame) call" where
  "read_payload T rd app metric cusip range_start range_end iv =
     bindC (liftR (interval_or_default rd iv)) (\<lambda>iv.
     bindC (liftR (to_utc T range_start)) (\<lambda>req_start.
     bindC (liftR (to_utc T range_end)) (\<lambda>req_end.
     bindC (proc_error_is_miss (lookup_current app metric iv cusip)) (\<lambda>cached.
       case cached of
         None \<Rightarrow> raiseC (CacheMissError cusip range_start range_end None)
       | Some (_, c_start, c_end, df) \<Rightarrow>
           bindC (liftR (covers c_start c_end req_start req_end)) (\<lambda>ok.
             if \<not> ok then raiseC (CacheMissError cusip range_start range_end (Some (c_start, c_end)))
             else liftR (of_py (loc_slice (the req_start) (the req_end) df)))))))"

text \<open>\<open>strftime\<close> to whole seconds.\<close>

definition whole_second :: "int option \<Rightarrow> bt_exn + int" where
  "whole_second x = (case x of Some t \<Rightarrow> Inr (t div 1000000 * 1000000)
     | None \<Rightarrow> Inl (BtPy (AttributeError ([CHR 0x27] @ ''NoneType'' @ [CHR 0x27] @ '' object has no attribute ''
                 @ [CHR 0x27] @ ''strftime'' @ [CHR 0x27]))))"

text \<open>What the provider sent becomes a new version, under the identifier found or a new one.\<close>

definition persist_fetched ::
  "int \<Rightarrow> int \<Rightarrow> string option \<Rightarrow> int option \<Rightarrow> int \<Rightarrow> int option \<Rightarrow> int option \<Rightarrow> nat \<Rightarrow> int frame
   \<Rightarrow> (api_db \<times> 'v, bt_exn, int frame) call" where
  "persist_fetched app metric cusip grp iv req_start req_end rid df =
     bindC (liftR (whole_second req_start)) (\<lambda>s.
     bindC (liftR (whole_second req_end)) (\<lambda>e.
     bindC (liftR (as_jsonb (to_records df))) (\<lambda>recs.
     bindC (on_api (\<lambda>db. ((), sp_ins_api_request rid app metric iv grp s e recs cusip db))) (\<lambda>_.
       liftR (of_py (loc_slice (the req_start) (the req_end) df))))))"

text \<open>\<open>uuid4\<close> is the identifier drawn when no version exists; \<open>fetcher\<close> asks the provider.\<close>

definition refresh_payload ::
  "(string \<Rightarrow> py_exn + int) \<Rightarrow> refdata \<Rightarrow> nat \<Rightarrow> int \<Rightarrow> int \<Rightarrow> string option \<Rightarrow> string \<Rightarrow> string
   \<Rightarrow> (string \<Rightarrow> string \<Rightarrow> (api_db \<times> 'v, bt_exn, int frame option) call) \<Rightarrow> int option \<Rightarrow> int option
   \<Rightarrow> (api_db \<times> 'v, bt_exn, int frame) call" where
  "refresh_payload T rd uuid4 app metric cusip range_start range_end fetcher grp iv =
     bindC (liftR (interval_or_default rd iv)) (\<lambda>iv.
     bindC (liftR (to_utc T range_start)) (\<lambda>req_start.
     bindC (liftR (to_utc T range_end)) (\<lambda>req_end.
     bindC (lookup_current app metric iv cusip) (\<lambda>cached.
     bindC (fetcher range_start range_end) (\<lambda>fetched.
       case fetched of
         None \<Rightarrow> returnC empty_frame
       | Some df \<Rightarrow>
           (if f_index df = [] then returnC empty_frame
            else persist_fetched app metric cusip grp iv req_start req_end
                   (case cached of Some (i, _) \<Rightarrow> i | None \<Rightarrow> uuid4) df))))))"

definition reserve_api_call :: "int \<Rightarrow> (api_db \<times> 'v, bt_exn, unit) call" where
  "reserve_api_call app = on_api (\<lambda>db. ((), sp_reserve_api_call app db))"

section \<open>The tables implement a map\<close>

type_synonym series_id = "int \<times> int \<times> int \<times> string option"

definition series_id :: "api_request \<Rightarrow> series_id" where
  "series_id r = (ar_app r, ar_metric r, ar_interval r, ar_cusip r)"

definition current_rows :: "series_id \<Rightarrow> api_db \<Rightarrow> (api_request \<times> series_records) list" where
  "current_rows k db = concat (map (\<lambda>r. map (Pair r) (payloads_of db r))
     (filter (\<lambda>r. ar_open r \<and> series_id r = k) (requests db)))"

text \<open>The abstract cache: the stored range and records of each series.\<close>

definition stored_series :: "api_db \<Rightarrow> series_id \<Rightarrow> (int \<times> int \<times> series_records) option" where
  "stored_series db k = (case current_rows k db of [] \<Rightarrow> None | (r, recs) # _ \<Rightarrow> Some (ar_start r, ar_end r, recs))"

definition same_tables :: "api_db \<Rightarrow> api_db \<Rightarrow> bool" where
  "same_tables db db' \<longleftrightarrow> requests db' = requests db \<and> payloads db' = payloads db"

definition cache_inv :: "api_db \<Rightarrow> bool" where
  "cache_inv db \<longleftrightarrow>
     (\<forall>p \<in> set (payloads db). \<exists>r \<in> set (requests db). ar_id r = pl_id p \<and> ar_vid r = pl_vid p)
     \<and> (\<forall>r \<in> set (requests db). \<forall>r' \<in> set (requests db). ar_id r = ar_id r' \<longrightarrow> series_id r = series_id r')
     \<and> (\<forall>k. length (current_rows k db) \<le> 1)"

text \<open>The identifier a refresh writes under: the one found, or one never used.\<close>

definition id_for :: "series_id \<Rightarrow> nat \<Rightarrow> api_db \<Rightarrow> nat" where
  "id_for k uuid4 db = (case current_rows k db of (r, _) # _ \<Rightarrow> ar_id r | [] \<Rightarrow> uuid4)"

lemma sp_get_current: "sp_get_api_request app metric iv (Some c) db = current_rows (app, metric, iv, Some c) db"
  unfolding sp_get_api_request_def current_rows_def matches_def series_id_def
  by (rule arg_cong [where f = "\<lambda>rs. concat (map (\<lambda>r. map (Pair r) (payloads_of db r)) rs)"], rule filter_cong) auto

lemma same_tables_refl [simp]: "same_tables db db"
  by (simp add: same_tables_def)

lemma same_tables_trans: "same_tables a b \<Longrightarrow> same_tables b c \<Longrightarrow> same_tables a c"
  by (simp add: same_tables_def)

lemma same_tables_current: "same_tables db db' \<Longrightarrow> current_rows k db' = current_rows k db"
  by (simp add: same_tables_def current_rows_def payloads_of_def)

lemma same_tables_cached: "same_tables db db' \<Longrightarrow> stored_series db' = stored_series db"
  by (simp add: stored_series_def same_tables_current fun_eq_iff)

lemma same_tables_inv: "same_tables db db' \<Longrightarrow> cache_inv db' = cache_inv db"
  by (simp add: cache_inv_def same_tables_current) (simp add: same_tables_def)

lemma in_current:
  "(r, recs) \<in> set (current_rows k db) \<longleftrightarrow>
     r \<in> set (requests db) \<and> ar_open r \<and> series_id r = k \<and> recs \<in> set (payloads_of db r)"
  by (auto simp: current_rows_def)

lemma vid_below_next: "r \<in> set (requests db) \<Longrightarrow> ar_vid r < next_request_vid (ar_id r) db"
  using max_vid_ge [of "ar_vid r" "map ar_vid (filter (\<lambda>x. ar_id x = ar_id r) (requests db))"]
  by (auto simp: next_request_vid_def)

lemma no_payload_of_next:
  assumes "cache_inv db" and "p \<in> set (payloads db)" and "pl_id p = rid"
  shows "pl_vid p \<noteq> next_request_vid rid db"
proof -
  from assms obtain r where "r \<in> set (requests db)" "ar_id r = pl_id p" "ar_vid r = pl_vid p"
    unfolding cache_inv_def by blast
  with vid_below_next [of r db] assms(3) show ?thesis by auto
qed

lemma cache_inv_current: "cache_inv db \<Longrightarrow> length (current_rows k db) \<le> 1"
  unfolding cache_inv_def by blast

text \<open>A row of the series under another identifier has no payload: it would be a second current one.\<close>

lemma current_only:
  assumes "cache_inv db" and "r \<in> set (requests db)" and "ar_open r" and "ar_id r \<noteq> id_for k u db"
    and "series_id r = k"
  shows "payloads_of db r = []"
proof (rule ccontr)
  assume "payloads_of db r \<noteq> []"
  then obtain recs where "recs \<in> set (payloads_of db r)" by (cases "payloads_of db r") auto
  with assms have "(r, recs) \<in> set (current_rows k db)" by (simp add: in_current)
  moreover have "length (current_rows k db) \<le> 1" by (rule cache_inv_current [OF assms(1)])
  ultimately have "current_rows k db = [(r, recs)]" by (cases "current_rows k db") auto
  with assms(4) show False by (simp add: id_for_def)
qed

lemma id_for_series:
  assumes "cache_inv db" and "u \<notin> ar_id ` set (requests db)" and "r \<in> set (requests db)"
    and "ar_id r = id_for k u db"
  shows "series_id r = k"
proof (cases "current_rows k db")
  case Nil
  with assms show ?thesis by (auto simp: id_for_def)
next
  case (Cons rp rest)
  obtain r' recs where rp: "rp = (r', recs)" by (cases rp)
  with Cons have "r' \<in> set (requests db)" "series_id r' = k"
    using in_current [of r' recs k db] by auto
  moreover have "ar_id r = ar_id r'" using assms(4) Cons rp by (simp add: id_for_def)
  ultimately show ?thesis using assms(1, 3) unfolding cache_inv_def by metis
qed

definition inserted ::
  "nat \<Rightarrow> series_id \<Rightarrow> int option \<Rightarrow> int \<Rightarrow> int \<Rightarrow> series_records \<Rightarrow> api_db \<Rightarrow> api_db" where
  "inserted u k grp s e recs db =
     (case k of (app, metric, iv, cusip) \<Rightarrow>
        sp_ins_api_request (id_for k u db) app metric iv grp s e recs cusip db)"

definition inserted_row :: "nat \<Rightarrow> series_id \<Rightarrow> int option \<Rightarrow> int \<Rightarrow> int \<Rightarrow> api_db \<Rightarrow> api_request" where
  "inserted_row u k grp s e db =
     (case k of (app, metric, iv, cusip) \<Rightarrow>
        \<lparr>ar_id = id_for k u db, ar_vid = next_request_vid (id_for k u db) db, ar_app = app,
         ar_metric = metric, ar_interval = iv, ar_cusip = cusip, ar_group = grp, ar_start = s,
         ar_end = e, ar_open = True\<rparr>)"

lemma inserted_row_sel [simp]:
  "ar_id (inserted_row u k grp s e db) = id_for k u db"
  "ar_vid (inserted_row u k grp s e db) = next_request_vid (id_for k u db) db"
  "series_id (inserted_row u k grp s e db) = k"
  "ar_start (inserted_row u k grp s e db) = s" "ar_end (inserted_row u k grp s e db) = e"
  "ar_open (inserted_row u k grp s e db)"
  by (simp_all add: inserted_row_def series_id_def split: prod.split)

lemma inserted_sel:
  "requests (inserted u k grp s e recs db) = inserted_row u k grp s e db #
     map (\<lambda>r. if ar_id r = id_for k u db then r\<lparr>ar_open := False\<rparr> else r) (requests db)"
  "payloads (inserted u k grp s e recs db) =
     \<lparr>pl_id = id_for k u db, pl_vid = next_request_vid (id_for k u db) db, pl_created = api_now db,
      pl_records = recs\<rparr> # payloads db"
  by (simp_all add: inserted_def inserted_row_def sp_ins_api_request_def Let_def split: prod.split)

lemma concat_closed:
  assumes "\<And>r. \<not> Q r \<Longrightarrow> g r = g' r" and "\<And>r. Q r \<Longrightarrow> \<not> P (upd r)"
  shows "concat (map g (filter P (map (\<lambda>r. if Q r then upd r else r) rs)))
    = concat (map g' (filter (\<lambda>r. \<not> Q r \<and> P r) rs))"
  using assms by (induction rs) auto

lemma current_inserted:
  assumes inv: "cache_inv db" and fresh: "u \<notin> ar_id ` set (requests db)"
  shows "current_rows k' (inserted u k grp s e recs db) =
    (if k' = k then [(inserted_row u k grp s e db, recs)] else current_rows k' db)"
proof -
  let ?i = "id_for k u db" and ?db = "inserted u k grp s e recs db" and ?new = "inserted_row u k grp s e db"
  have "filter (\<lambda>p. pl_id p = ?i \<and> pl_vid p = next_request_vid ?i db) (payloads db) = []"
    using no_payload_of_next [OF inv] by (auto simp: filter_empty_conv)
  then have new: "payloads_of ?db ?new = [recs]"
    by (simp add: payloads_of_def inserted_sel)
  have old: "payloads_of ?db r = payloads_of db r" if "ar_id r \<noteq> ?i" for r
    using that by (auto simp: payloads_of_def inserted_sel)
  have cur: "current_rows k' ?db = (if k' = k then [(?new, recs)] else []) @
      concat (map (\<lambda>r. map (Pair r) (payloads_of db r))
        (filter (\<lambda>r. ar_id r \<noteq> ?i \<and> ar_open r \<and> series_id r = k') (requests db)))"
    unfolding current_rows_def inserted_sel(1)
    by (simp add: new concat_closed [where g' = "\<lambda>r. map (Pair r) (payloads_of db r)"] old)
  show ?thesis
  proof (cases "k' = k")
    case True
    then show ?thesis using cur current_only [OF inv, of _ k u] by auto
  next
    case False
    have "filter (\<lambda>r. ar_id r \<noteq> ?i \<and> ar_open r \<and> series_id r = k') (requests db)
        = filter (\<lambda>r. ar_open r \<and> series_id r = k') (requests db)"
      using id_for_series [OF inv fresh, of _ k] False by (intro filter_cong) auto
    then show ?thesis using cur False by (simp add: current_rows_def)
  qed
qed

lemma inserted_cached:
  assumes "cache_inv db" and "u \<notin> ar_id ` set (requests db)"
  shows "stored_series (inserted u k grp s e recs db) = (stored_series db)(k \<mapsto> (s, e, recs))"
proof
  fix k' show "stored_series (inserted u k grp s e recs db) k' = ((stored_series db)(k \<mapsto> (s, e, recs))) k'"
    using current_inserted [OF assms, of k' k grp s e recs] by (cases "k' = k") (simp_all add: stored_series_def)
qed

lemma inserted_inv:
  assumes inv: "cache_inv db" and fresh: "u \<notin> ar_id ` set (requests db)"
  shows "cache_inv (inserted u k grp s e recs db)"
proof -
  let ?db = "inserted u k grp s e recs db"
  have "\<exists>r \<in> set (requests ?db). ar_id r = pl_id p \<and> ar_vid r = pl_vid p" if "p \<in> set (payloads ?db)" for p
  proof (cases "p \<in> set (payloads db)")
    case True
    with inv obtain r where "r \<in> set (requests db)" "ar_id r = pl_id p" "ar_vid r = pl_vid p"
      unfolding cache_inv_def by blast
    moreover from this have "(if ar_id r = id_for k u db then r\<lparr>ar_open := False\<rparr> else r) \<in> set (requests ?db)"
      by (simp add: inserted_sel)
    ultimately show ?thesis by (intro bexI) (auto split: if_splits)
  next
    case False
    with that show ?thesis by (auto simp: inserted_sel)
  qed
  moreover have "series_id r = series_id r'"
    if r: "r \<in> set (requests ?db)" and r': "r' \<in> set (requests ?db)" and same: "ar_id r = ar_id r'" for r r'
  proof -
    have "x = inserted_row u k grp s e db \<or> (\<exists>y \<in> set (requests db). ar_id x = ar_id y \<and> series_id x = series_id y)"
      if "x \<in> set (requests ?db)" for x
    proof (cases "x = inserted_row u k grp s e db")
      case False
      with that obtain y where "y \<in> set (requests db)"
        "x = (if ar_id y = id_for k u db then y\<lparr>ar_open := False\<rparr> else y)"
        by (auto simp: inserted_sel(1))
      then show ?thesis by (intro disjI2 bexI [of _ y]) (simp_all add: series_id_def)
    qed simp
    with r r' same show ?thesis
      using id_for_series [OF inv fresh] inv unfolding cache_inv_def by (metis inserted_row_sel(1, 3))
  qed
  moreover have "length (current_rows k' ?db) \<le> 1" for k'
    using cache_inv_current [OF inv, of k'] by (simp add: current_inserted [OF assms])
  ultimately show ?thesis unfolding cache_inv_def by blast
qed

text \<open>A purge forgets series and changes none.\<close>

lemma current_detached:
  assumes "cache_inv db"
  shows "current_rows k (sp_detach_api_request_payload pe days db) \<in> {current_rows k db, []}"
proof -
  let ?db = "sp_detach_api_request_payload pe days db"
  have reqs: "requests ?db = requests db"
    by (simp add: sp_detach_api_request_payload_def Let_def)
  have sub: "set (payloads_of ?db r) \<subseteq> set (payloads_of db r)"
    and len: "length (payloads_of ?db r) \<le> length (payloads_of db r)" for r
  proof -
    obtain P where "payloads ?db = filter P (payloads db)"
      by (cases "days < 1") (auto simp: sp_detach_api_request_payload_def Let_def intro: that [of "\<lambda>p. True"])
    then have "payloads_of ?db r =
        map pl_records (filter P (filter (\<lambda>p. pl_id p = ar_id r \<and> pl_vid p = ar_vid r) (payloads db)))"
      by (simp add: payloads_of_def conj_commute)
    then show "set (payloads_of ?db r) \<subseteq> set (payloads_of db r)"
      "length (payloads_of ?db r) \<le> length (payloads_of db r)"
      by (auto simp: payloads_of_def simp del: filter_filter intro: length_filter_le)
  qed
  have "length (current_rows k ?db) \<le> length (current_rows k db)"
    unfolding current_rows_def reqs length_concat map_map comp_def length_map by (rule sum_list_mono) (rule len)
  moreover have "set (current_rows k ?db) \<subseteq> set (current_rows k db)"
    using subsetD [OF sub] by (auto simp: in_current reqs)
  ultimately show ?thesis
    using cache_inv_current [OF assms, of k]
    by (cases "current_rows k ?db"; cases "current_rows k db") auto
qed

lemma detached_inv:
  assumes "cache_inv db"
  shows "cache_inv (sp_detach_api_request_payload pe days db)"
    and "stored_series (sp_detach_api_request_payload pe days db) \<subseteq>\<^sub>m stored_series db"
proof -
  let ?db = "sp_detach_api_request_payload pe days db"
  have rows: "requests ?db = requests db" "set (payloads ?db) \<subseteq> set (payloads db)"
    by (auto simp: sp_detach_api_request_payload_def Let_def)
  have cur: "current_rows k ?db = current_rows k db \<or> current_rows k ?db = []" for k
    using current_detached [OF assms, of k pe days] by simp
  then have "length (current_rows k ?db) \<le> 1" for k
    using cache_inv_current [OF assms, of k] by (metis le0 list.size(3))
  moreover have "\<forall>p \<in> set (payloads ?db). \<exists>r \<in> set (requests db). ar_id r = pl_id p \<and> ar_vid r = pl_vid p"
    using assms rows(2) unfolding cache_inv_def by blast
  ultimately show "cache_inv ?db" using assms unfolding cache_inv_def rows(1) by blast
  have "stored_series db k = Some v" if "stored_series ?db k = Some v" for k v
    using that cur [of k] by (auto simp: stored_series_def)
  then show "stored_series ?db \<subseteq>\<^sub>m stored_series db"
    unfolding map_le_def by fastforce
qed

section \<open>A series survives its JSON\<close>

definition frame_ok :: "int frame \<Rightarrow> bool" where
  "frame_ok fr \<longleftrightarrow> f_index fr \<noteq> [] \<and> sorted (f_index fr) \<and> (\<forall>t \<in> set (f_index fr). t mod 1000000 = 0)
     \<and> distinct (map fst (f_cols fr))
     \<and> (\<forall>(k, xs) \<in> set (f_cols fr). length xs = length (f_index fr) \<and> (\<forall>x \<in> set xs. is_finite x))"

definition same_data :: "int frame \<Rightarrow> int frame \<Rightarrow> bool" where
  "same_data fr fr' \<longleftrightarrow> f_index fr = f_index fr' \<and> map_of (f_cols fr) = map_of (f_cols fr')"

lemma same_data_slice: "same_data fr fr' \<Longrightarrow> same_data (slice_frame a b fr) (slice_frame a b fr')"
  by (simp add: same_data_def slice_frame_def map_of_map)

lemma map_of_jsonb_order: "distinct (map fst r) \<Longrightarrow> map_of (jsonb_order r) = map_of r"
proof -
  assume d: "distinct (map fst r)"
  then have "distinct (map fst (jsonb_order r))"
    using mset_sort [of "\<lambda>(k, x). (length k, k)" r]
    by (metis (no_types, lifting) jsonb_order_def mset_eq_imp_distinct_iff mset_map)
  with d show ?thesis by (simp add: map_of_inject_set jsonb_order_def)
qed

lemma json_numbers_records: "frame_ok fr \<Longrightarrow> json_numbers (to_records fr)"
  by (auto simp: frame_ok_def json_numbers_def to_records_def list_all_iff)

lemma payload_roundtrip:
  assumes ok: "frame_ok fr" and json: "as_jsonb (to_records fr) = Inr recs"
  shows "same_data (payload_to_df recs) fr"
proof -
  let ?n = "length (f_index fr)" and ?row = "\<lambda>i. map (\<lambda>(k, xs). (k, xs ! i)) (f_cols fr)"
  let ?keys = "dedup [] (concat (map (map fst \<circ> snd) recs))"
  have recs: "recs = map (\<lambda>i. (f_index fr ! i div 1000000, jsonb_order (?row i))) [0..<?n]"
    using json json_numbers_records [OF ok] by (simp add: as_jsonb_def to_records_def comp_def)
  have n: "0 < ?n" using ok by (simp add: frame_ok_def)
  have "sorted (map fst recs)"
    using ok by (auto simp: recs comp_def frame_ok_def sorted_iff_nth_mono intro!: zdiv_mono1)
  then have rows: "sort_key fst recs = recs" by (simp add: sort_key_id_if_sorted)
  have row: "map_of (jsonb_order (?row i)) k = map_option (\<lambda>xs. xs ! i) (map_of (f_cols fr) k)" for i k
  proof -
    have "distinct (map fst (?row i))" using ok by (simp add: frame_ok_def comp_def case_prod_unfold)
    then show ?thesis by (simp add: map_of_jsonb_order map_of_map)
  qed
  have keys: "set ?keys = fst ` set (f_cols fr)"
  proof -
    have "fst ` set (jsonb_order (?row i)) = fst ` set (f_cols fr)" for i
      by (force simp: jsonb_order_def)
    moreover have "set [0..<?n] \<noteq> {}" using n by simp
    ultimately show ?thesis by (simp add: set_dedup recs comp_def)
  qed
  have idx: "map (\<lambda>(t, r). t * 1000000) recs = f_index fr"
  proof (rule nth_equalityI)
    fix i assume "i < length (map (\<lambda>(t, r). t * 1000000) recs)"
    then show "map (\<lambda>(t, r). t * 1000000) recs ! i = f_index fr ! i"
      using ok by (simp add: recs frame_ok_def) (metis add.right_neutral div_mult_mod_eq nth_mem)
  qed (simp add: recs)
  have col: "map (\<lambda>(t, r). case map_of r k of Some x \<Rightarrow> x | None \<Rightarrow> NaN) recs = xs"
    if "map_of (f_cols fr) k = Some xs" for k xs
  proof (rule nth_equalityI)
    show "length (map (\<lambda>(t, r). case map_of r k of Some x \<Rightarrow> x | None \<Rightarrow> NaN) recs) = length xs"
      using map_of_SomeD [OF that] ok by (auto simp: recs frame_ok_def)
  next
    fix i assume "i < length (map (\<lambda>(t, r). case map_of r k of Some x \<Rightarrow> x | None \<Rightarrow> NaN) recs)"
    then show "map (\<lambda>(t, r). case map_of r k of Some x \<Rightarrow> x | None \<Rightarrow> NaN) recs ! i = xs ! i"
      by (simp add: recs row that)
  qed
  have "map_of (map (\<lambda>k. (k, map (\<lambda>(t, r). case map_of r k of Some x \<Rightarrow> x | None \<Rightarrow> NaN) recs)) ?keys) k
      = map_of (f_cols fr) k" for k
  proof (cases "map_of (f_cols fr) k")
    case None
    then have "k \<notin> fst ` set (f_cols fr)" by (simp add: map_of_eq_None_iff)
    with None show ?thesis by (simp add: map_of_map_restrict restrict_map_def keys)
  next
    case (Some xs)
    then have "k \<in> fst ` set (f_cols fr)" by (force dest: map_of_SomeD)
    with Some col show ?thesis by (simp add: map_of_map_restrict restrict_map_def keys)
  qed
  moreover have "recs \<noteq> []" using n by (simp add: recs)
  ultimately show ?thesis
    by (simp add: same_data_def payload_to_df_def rows idx Let_def fun_eq_iff)
qed

section \<open>What is refreshed is what is read\<close>

lemma faults_tl_same [simp]: "same_tables db (db\<lparr>api_faults := fs\<rparr>)"
  by (simp add: same_tables_def)

lemma no_faults_tl: "api_faults db = [] \<Longrightarrow> db\<lparr>api_faults := tl (api_faults db)\<rparr> = db"
  by (cases db) simp

lemma on_api_Inr:
  "on_api f (db, v) = (Inr x, w) \<Longrightarrow> \<exists>db'. f (db\<lparr>api_faults := tl (api_faults db)\<rparr>) = (x, db') \<and> w = (db', v)"
  by (auto simp: on_api_def Let_def split: option.splits db_fault.splits prod.splits)

lemma lookup_current_Inr:
  assumes "lookup_current app metric iv (Some c) (db, v) = (Inr cur, w)"
  shows "\<exists>db'. w = (db', v) \<and> same_tables db db'
    \<and> cur = (case current_rows (app, metric, iv, Some c) db of [] \<Rightarrow> None
             | (r, recs) # _ \<Rightarrow> Some (ar_id r, ar_start r, ar_end r, payload_to_df recs))"
proof -
  obtain rows w1 where got: "on_api (\<lambda>db. (sp_get_api_request app metric iv (Some c) db, db)) (db, v) = (Inr rows, w1)"
    and rest: "(case rows of [] \<Rightarrow> returnC None
       | (r, recs) # _ \<Rightarrow> returnC (Some (ar_id r, ar_start r, ar_end r, payload_to_df recs))) w1
         = (Inr cur :: bt_exn + _, w)"
    using assms unfolding lookup_current_def bindC_Inr_iff by (elim exE conjE) (rule that)
  from on_api_Inr [OF got] have "rows = current_rows (app, metric, iv, Some c) db"
    and "w1 = (db\<lparr>api_faults := tl (api_faults db)\<rparr>, v)"
    by (auto simp: sp_get_current same_tables_current [OF faults_tl_same])
  with rest show ?thesis
    by (cases "current_rows (app, metric, iv, Some c) db") (auto split: prod.splits)
qed

lemma read_payload_cached:
  assumes "api_faults db = []" and "stored_series db (app, metric, i, Some c) = Some (s, e, recs)"
    and "interval_or_default rd iv = Inr i" and "to_utc T as = Inr (Some a)" and "to_utc T bs = Inr (Some b)"
    and "s \<le> a" and "b \<le> e" and "loc_slice a b (payload_to_df recs) = Inr fr"
  shows "read_payload T rd app metric (Some c) as bs iv (db, v) = (Inr fr, (db, v))"
proof -
  obtain r rest where cur: "current_rows (app, metric, i, Some c) db = (r, recs) # rest"
    and "ar_start r = s" "ar_end r = e"
    using assms(2) by (auto simp: stored_series_def split: list.splits)
  have noop: "db\<lparr>api_faults := []\<rparr> = db" using assms(1) by (cases db) simp
  from cur \<open>ar_start r = s\<close> \<open>ar_end r = e\<close>
  have "lookup_current app metric i (Some c) (db, v) = (Inr (Some (ar_id r, s, e, payload_to_df recs)), (db, v))"
    by (simp add: noop lookup_current_def on_api_def assms(1) sp_get_current bindC_def Let_def)
  with assms(3-) show ?thesis
    by (simp add: read_payload_def bindC_def proc_error_is_miss_def covers_def not_after_def not_before_def
        of_py_def)
qed

text \<open>The provider's answer keeps the tables and is a frame that JSON can hold, or empty.\<close>

definition answers_frames ::
  "(string \<Rightarrow> string \<Rightarrow> (api_db \<times> 'v, bt_exn, int frame option) call) \<Rightarrow> bool" where
  "answers_frames fetcher \<longleftrightarrow>
     (\<forall>s e w r w'. fetcher s e w = (r, w') \<longrightarrow> same_tables (fst w) (fst w')
        \<and> (\<forall>fr. r = Inr (Some fr) \<longrightarrow> f_index fr = [] \<or> frame_ok fr))"

lemma whole_second_Some [simp]: "whole_second (Some t) = Inr (t div 1000000 * 1000000)"
  by (simp add: whole_second_def)

lemma refresh_payload_cases:
  assumes inv: "cache_inv (fst w)" and fetch: "answers_frames fetcher"
    and fresh: "u \<notin> ar_id ` set (requests (fst w))"
    and utc: "to_utc T rs = Inr (Some s)" "to_utc T re = Inr (Some e)"
    and run: "refresh_payload T rd u app metric (Some c) rs re fetcher grp iv w = (Inr out, w')"
  shows "(\<exists>db1 db2 got. same_tables (fst w) db1 \<and> fetcher rs re (db1, snd w) = (Inr got, (db2, snd w'))
    \<and> (case got of Some fr \<Rightarrow> f_index fr = [] | None \<Rightarrow> True) \<and> out = empty_frame \<and> same_tables (fst w) (fst w'))
    \<or> (\<exists>fr i recs db1 db2. interval_or_default rd iv = Inr i \<and> frame_ok fr \<and> as_jsonb (to_records fr) = Inr recs
         \<and> same_tables (fst w) db1 \<and> fetcher rs re (db1, snd w) = (Inr (Some fr), (db2, snd w'))
         \<and> f_index fr \<noteq> [] \<and> out = slice_frame s e fr
         \<and> cache_inv (fst w')
         \<and> stored_series (fst w') = (stored_series (fst w))((app, metric, i, Some c) \<mapsto>
              (s div 1000000 * 1000000, e div 1000000 * 1000000, recs)))"
proof -
  obtain db v where w: "w = (db, v)" by (cases w)
  obtain i cur w1 got w2 where i: "interval_or_default rd iv = Inr i"
    and look: "lookup_current app metric i (Some c) (db, v) = (Inr cur, w1)"
    and got: "fetcher rs re w1 = (Inr got, w2)"
    and rest: "(case got of None \<Rightarrow> returnC empty_frame
       | Some df \<Rightarrow>
           (if f_index df = [] then returnC empty_frame
            else persist_fetched app metric (Some c) grp i (Some s) (Some e)
                   (case cur of Some (i, _) \<Rightarrow> i | None \<Rightarrow> u) df))
       w2 = (Inr out, w')"
    using run utc unfolding refresh_payload_def w bindC_Inr_iff by auto
  let ?k = "(app, metric, i, Some c)"
  obtain db1 where w1: "w1 = (db1, v)" and s1: "same_tables db db1"
    and cur: "cur = (case current_rows ?k db of [] \<Rightarrow> None
             | (r, recs) # _ \<Rightarrow> Some (ar_id r, ar_start r, ar_end r, payload_to_df recs))"
    using lookup_current_Inr [OF look] by blast
  obtain db2 v2 where w2: "w2 = (db2, v2)" by (cases w2)
  have s2: "same_tables db db2" and ok: "got = Some fr \<Longrightarrow> f_index fr = [] \<or> frame_ok fr" for fr
    using fetch got s1 w1 w2 unfolding answers_frames_def by (fastforce dest: same_tables_trans)+
  show ?thesis
  proof (cases "\<exists>fr. got = Some fr \<and> f_index fr \<noteq> []")
    case False
    then have none: "case got of Some fr \<Rightarrow> f_index fr = [] | None \<Rightarrow> True" by (simp split: option.split)
    with rest have "out = empty_frame" "w' = w2" by (auto split: option.splits)
    with none got s1 s2 show ?thesis
      unfolding w w1 w2 by (intro disjI1 exI [of _ db1] exI [of _ db2] exI [of _ got]) simp
  next
    case True
    then obtain fr where fr: "got = Some fr" "f_index fr \<noteq> []" by blast
    with ok have good: "frame_ok fr" by blast
    obtain recs where json: "as_jsonb (to_records fr) = Inr recs"
      using json_numbers_records [OF good] by (simp add: as_jsonb_def)
    have id: "(case cur of Some (i, _) \<Rightarrow> i | None \<Rightarrow> u) = id_for ?k u db"
      by (simp add: cur id_for_def split: list.split prod.split)
    obtain db3 where w': "w' = (db3, v2)"
      and ins: "db3 = sp_ins_api_request (id_for ?k u db) app metric i grp (s div 1000000 * 1000000)
         (e div 1000000 * 1000000) recs (Some c) (db2\<lparr>api_faults := tl (api_faults db2)\<rparr>)"
      and out: "of_py (loc_slice s e fr) = Inr out"
      using rest fr json unfolding id w2 by (auto simp: persist_fetched_def bindC_Inr_iff dest!: on_api_Inr)
    let ?db = "db2\<lparr>api_faults := tl (api_faults db2)\<rparr>"
    have same: "same_tables db ?db" by (rule same_tables_trans [OF s2 faults_tl_same])
    then have "id_for ?k u db = id_for ?k u ?db" by (simp add: id_for_def same_tables_current)
    then have db3: "db3 = inserted u ?k grp (s div 1000000 * 1000000) (e div 1000000 * 1000000) recs ?db"
      by (simp add: ins inserted_def)
    have pre: "cache_inv ?db" "u \<notin> ar_id ` set (requests ?db)"
      using inv fresh same_tables_inv [OF same] same by (auto simp: w same_tables_def)
    have "out = slice_frame s e fr"
      using out good by (auto simp: loc_slice_def frame_ok_def of_py_def split: if_splits)
    moreover have "cache_inv db3" unfolding db3 by (rule inserted_inv [OF pre])
    moreover have "stored_series db3 = (stored_series db)(?k \<mapsto> (s div 1000000 * 1000000, e div 1000000 * 1000000, recs))"
      unfolding db3 inserted_cached [OF pre] same_tables_cached [OF same] ..
    ultimately show ?thesis
      using i good json got fr s1 unfolding w w' w1 w2 fst_conv snd_conv by blast
  qed
qed

text \<open>C24: The versioned request tables are a map from series to series, and a refresh updates it. Take
  tables in order and a provider whose answers, when not empty, are sorted frames of finite
  numbers at whole seconds, with no other writer of the tables while it answers. A refresh that
  returns asked the provider once, for the requested range. If the answer was nothing or an empty
  frame, it returns an empty frame and changes nothing. Otherwise it returns the requested part of
  the answer and the tables stay in order and hold, as a map, the old one updated at this source,
  metric, interval and product with the requested range and the answer; and every later read of
  part of that range, by any process, answers that part of the answer, without asking the provider
  again. So neither another series nor an older version of this one is ever served.\<close>

theorem refresh_then_read:
  fixes w w' :: "api_db \<times> 'v"
  assumes "cache_inv (fst w)" and "answers_frames fetcher" and "u \<notin> ar_id ` set (requests (fst w))"
    and "to_utc T rs = Inr (Some s)" and "to_utc T re = Inr (Some e)"
    and "refresh_payload T rd u app metric (Some c) rs re fetcher grp iv w = (Inr out, w')"
  shows "\<exists>db1 got db2. same_tables (fst w) db1 \<and> fetcher rs re (db1, snd w) = (Inr got, (db2, snd w'))
    \<and> cache_inv (fst w')
    \<and> (got = None \<or> (\<exists>fr. got = Some fr \<and> f_index fr = [])
         \<longrightarrow> out = empty_frame \<and> stored_series (fst w') = stored_series (fst w))
    \<and> (\<forall>fr. got = Some fr \<and> f_index fr \<noteq> [] \<longrightarrow>
         out = slice_frame s e fr
         \<and> (\<exists>i recs. interval_or_default rd iv = Inr i \<and> as_jsonb (to_records fr) = Inr recs
            \<and> stored_series (fst w') = (stored_series (fst w))((app, metric, i, Some c) \<mapsto>
                 (s div 1000000 * 1000000, e div 1000000 * 1000000, recs)))
         \<and> (\<forall>as bs a b db (v :: 'v). to_utc T as = Inr (Some a) \<and> to_utc T bs = Inr (Some b)
                 \<and> s div 1000000 * 1000000 \<le> a \<and> b \<le> e div 1000000 * 1000000
                 \<and> same_tables (fst w') db \<and> api_faults db = [] \<longrightarrow>
                 (\<exists>df. read_payload T rd app metric (Some c) as bs iv (db, v) = (Inr df, (db, v))
                    \<and> same_data df (slice_frame a b fr))))"
proof (rule disjE [OF refresh_payload_cases [OF assms]], elim exE conjE)
  fix db1 db2 got
  assume "same_tables (fst w) db1" "fetcher rs re (db1, snd w) = (Inr got, db2, snd w')" "out = empty_frame"
    and none: "case got of Some fr \<Rightarrow> f_index fr = [] | None \<Rightarrow> True" and same: "same_tables (fst w) (fst w')"
  moreover have "\<not> (got = Some fr \<and> f_index fr \<noteq> [])" for fr using none by auto
  ultimately show ?thesis
    using assms(1) same_tables_inv [OF same] same_tables_cached [OF same] by blast
next
  assume "\<exists>fr i recs db1 db2. interval_or_default rd iv = Inr i \<and> frame_ok fr \<and> as_jsonb (to_records fr) = Inr recs
         \<and> same_tables (fst w) db1 \<and> fetcher rs re (db1, snd w) = (Inr (Some fr), (db2, snd w'))
         \<and> f_index fr \<noteq> [] \<and> out = slice_frame s e fr
         \<and> cache_inv (fst w')
         \<and> stored_series (fst w') = (stored_series (fst w))((app, metric, i, Some c) \<mapsto>
              (s div 1000000 * 1000000, e div 1000000 * 1000000, recs))"
  then obtain fr i recs db1 db2 where i: "interval_or_default rd iv = Inr i" and fr: "frame_ok fr" "f_index fr \<noteq> []"
    and recs: "as_jsonb (to_records fr) = Inr recs"
    and got: "same_tables (fst w) db1" "fetcher rs re (db1, snd w) = (Inr (Some fr), (db2, snd w'))"
    and out: "out = slice_frame s e fr" and inv: "cache_inv (fst w')"
    and map: "stored_series (fst w') = (stored_series (fst w))((app, metric, i, Some c) \<mapsto>
              (s div 1000000 * 1000000, e div 1000000 * 1000000, recs))"
    by blast
  have same: "same_data (payload_to_df recs) fr" by (rule payload_roundtrip [OF fr(1) recs])
  then have loc: "loc_slice a b (payload_to_df recs) = Inr (slice_frame a b (payload_to_df recs))" for a b
    using fr(1) by (simp add: loc_slice_def frame_ok_def same_data_def)
  have read: "\<exists>df. read_payload T rd app metric (Some c) as bs iv (db, x) = (Inr df, (db, x))
        \<and> same_data df (slice_frame a b fr)"
    if "to_utc T as = Inr (Some a)" "to_utc T bs = Inr (Some b)" "s div 1000000 * 1000000 \<le> a"
      "b \<le> e div 1000000 * 1000000" "same_tables (fst w') db" "api_faults db = []" for as bs a b db and x :: 'v
    using read_payload_cached [where app = app and metric = metric and c = c, OF that(6) _ i that(1-4) loc] map same_tables_cached [OF that(5)]
      same_data_slice [OF same] by (intro exI conjI) simp_all
  show ?thesis
    by (rule exI [of _ db1], rule exI [of _ "Some fr"], rule exI [of _ db2])
      (use got inv out i recs map fr(2) read in blast)
qed

text \<open>Two days of one series on empty tables.\<close>

definition empty_api_db :: api_db where
  "empty_api_db = \<lparr>requests = [], payloads = [], api_limits = [], api_now = 0, api_faults = []\<rparr>"

definition demo_series :: "int frame" where
  "demo_series = \<lparr>f_index = [0, 86400000000], f_cols = [(''price'', [Fin 1, Fin 2]), (''Low'', [Fin 1, Fin 1])]\<rparr>"

definition demo_days :: "string \<Rightarrow> py_exn + int" where
  "demo_days s = (if s = ''1970-01-01'' then Inr 0 else if s = ''1970-01-02'' then Inr 86400000000
     else Inl (ValueError s))"

definition demo_refdata :: refdata where
  "demo_refdata = \<lparr>catalog = (\<lambda>t. Inr []), config = (\<lambda>t. Inr [])\<rparr>"

definition demo_fetch :: "string \<Rightarrow> string \<Rightarrow> (api_db \<times> unit, bt_exn, int frame option) call" where
  "demo_fetch s e = returnC (Some demo_series)"

definition demo_refresh :: "(api_db \<times> unit, bt_exn, int frame) call" where
  "demo_refresh = refresh_payload demo_days demo_refdata 7 1 2 (Some ''btc'') ''1970-01-01'' ''1970-01-02''
     demo_fetch None (Some 5)"

lemma demo_refresh_runs: "demo_refresh (empty_api_db, ()) = (Inr demo_series, snd (demo_refresh (empty_api_db, ())))"
  by code_simp

lemma demo_fetch_answers: "answers_frames demo_fetch"
  by (simp add: answers_frames_def demo_fetch_def demo_series_def frame_ok_def is_finite_def)

theorem refresh_then_read_witness:
  "cache_inv (fst (snd (demo_refresh (empty_api_db, ()))))
   \<and> stored_series (fst (snd (demo_refresh (empty_api_db, ())))) \<noteq> stored_series empty_api_db"
proof -
  let ?w = "(empty_api_db, ())"
  have inv: "cache_inv (fst ?w)" and fresh: "7 \<notin> ar_id ` set (requests (fst ?w))"
    by (simp_all add: cache_inv_def empty_api_db_def current_rows_def)
  have days: "to_utc demo_days ''1970-01-01'' = Inr (Some 0)" "to_utc demo_days ''1970-01-02'' = Inr (Some 86400000000)"
    by (simp_all add: to_utc_def demo_days_def of_py_def)
  have none: "stored_series empty_api_db k = None" for k
    by (simp add: stored_series_def current_rows_def empty_api_db_def)
  obtain db1 got w2 where got: "demo_fetch ''1970-01-01'' ''1970-01-02'' (db1, snd ?w) = (Inr got, w2)"
    and inv': "cache_inv (fst (snd (demo_refresh ?w)))"
    and stored: "\<forall>fr. got = Some fr \<and> f_index fr \<noteq> [] \<longrightarrow>
      (\<exists>i recs. stored_series (fst (snd (demo_refresh ?w))) = (stored_series (fst ?w))((1, 2, i, Some ''btc'') \<mapsto>
         (0 div 1000000 * 1000000, 86400000000 div 1000000 * 1000000, recs)))"
    using refresh_then_read [OF inv demo_fetch_answers fresh days demo_refresh_runs [unfolded demo_refresh_def],
        folded demo_refresh_def]
    by (elim exE conjE) (rule that, assumption, assumption, intro allI impI, drule spec, drule mp, assumption,
      elim conjE exE, intro exI, assumption)
  have "got = Some demo_series \<and> f_index demo_series \<noteq> []"
    using got by (simp add: demo_fetch_def demo_series_def)
  with stored obtain i recs where
    "stored_series (fst (snd (demo_refresh ?w))) = (stored_series empty_api_db)((1, 2, i, Some ''btc'') \<mapsto>
       (0 div 1000000 * 1000000, 86400000000 div 1000000 * 1000000, recs))"
    unfolding fst_conv by blast
  then have "stored_series (fst (snd (demo_refresh ?w))) (1, 2, i, Some ''btc'') \<noteq> stored_series empty_api_db (1, 2, i, Some ''btc'')"
    by (simp add: none)
  with inv' show ?thesis by (metis (no_types))
qed

text \<open>
  The tables have no constraint against a second open version of a series under another identifier,
  and a refresh looks before it fetches: two first refreshes at a time leave two current rows, of
  which a read takes whichever comes first.
\<close>

lemma racing_refreshes_fork:
  "map snd (current_rows (1, 2, 5, Some c)
     (sp_ins_api_request 2 1 2 5 None 0 9 recs2 (Some c)
       (sp_ins_api_request 1 1 2 5 None 0 9 recs1 (Some c) empty_api_db))) = [recs2, recs1]"
  by (simp add: current_rows_def sp_ins_api_request_def empty_api_db_def payloads_of_def series_id_def
      next_request_vid_def max_vid_def Let_def)

end
