(* ===== verification/DataLoad.thy ===== *)
theory DataLoad
  imports ApiCache Optimizer
begin

text \<open>
  Loading the series of a back-test (\<^verbatim>\<open>quant/strategy/backtest_service.py\<close>): the request
  (\<^verbatim>\<open>quant/schemas/backtest.py\<close>), the strategy it describes, the choice between the bars a
  venue printed and the cached series of a provider, and the guards on what was loaded.

  The world is the request cache with the rest \<open>'v\<close>: the stored bars, the providers, the source of
  UUIDs. What the loader is given is the record \<open>fetch_env\<close>; the vendor's classes, \<open>numpy.arange\<close>
  and how pandas reads a time are parameters. Log lines, and the advice and dates that end an error text, are left out.
\<close>

section \<open>Requests\<close>

record range_param =
  rp_min :: flt
  rp_max :: flt
  rp_step :: flt

record factor_config =
  fc_symbol :: "string option"
  fc_vendor :: "string option"
  fc_source :: "string option"
  fc_column :: string
  fc_indicator :: string
  fc_strategy :: string
  fc_window :: range_param
  fc_signal :: range_param

record bt_request =
  rq_symbol :: string
  rq_start :: string
  rq_end :: string
  rq_period :: int
  rq_fee :: flt
  rq_source :: string
  rq_interval :: int
  rq_refresh :: bool
  rq_factors :: "factor_config list"
  rq_conjunction :: "string option"

record optimize_request = bt_request +
  oq_walk_forward :: bool
  oq_split :: flt

record performance_request = bt_request +
  pq_windows :: "int list"
  pq_signals :: "flt list"

text \<open>\<open>int(x)\<close> of a float, \<open>range(a, b, c)\<close>.\<close>

definition int_of_float :: "flt \<Rightarrow> py_exn + int" where
  "int_of_float x = py_int (JNum x)"

definition py_range :: "int \<Rightarrow> int \<Rightarrow> int \<Rightarrow> py_exn + int list" where
  "py_range a b c =
     (if c = 0 then Inl (ValueError ''range() arg 3 must not be zero'')
      else
        (let n = (if 0 < c then (b - a + c - 1) div c else (a - b - c - 1) div (- c))
         in Inr (map (\<lambda>k. a + int k * c) [0..<nat n])))"

definition window_values :: "range_param \<Rightarrow> py_exn + int list" where
  "window_values r =
     bindR (int_of_float (rp_min r)) (\<lambda>lo.
     bindR (int_of_float (rp_max r)) (\<lambda>hi.
     bindR (int_of_float (rp_step r)) (\<lambda>st. py_range lo (hi + 1) st)))"

definition signal_values :: "(flt \<Rightarrow> flt \<Rightarrow> flt \<Rightarrow> py_exn + series) \<Rightarrow> range_param \<Rightarrow> py_exn + series" where
  "signal_values arange r = arange (rp_min r) (flt_add (rp_max r) (flt_div (rp_step r) (Fin 2))) (rp_step r)"

section \<open>The strategy of a request\<close>

definition opt_or :: "string option \<Rightarrow> string option \<Rightarrow> string option" where
  "opt_or a b = (if truthy a then a else b)"

text \<open>Where a factor reads from: \<open>(f.vendor_symbol or f.symbol) if (f.symbol or f.vendor_symbol) else None\<close>.\<close>

definition factor_cusip :: "factor_config \<Rightarrow> string option" where
  "factor_cusip f =
     (if truthy (fc_symbol f) \<or> truthy (fc_vendor f) then opt_or (fc_vendor f) (fc_symbol f) else None)"

definition factor_sub :: "row list \<Rightarrow> row list \<Rightarrow> factor_config \<Rightarrow> py_exn + sub_strategy" where
  "factor_sub indicators signal_types f =
     bindR (resolve_signal_func (fc_strategy f) (fc_indicator f) indicators signal_types) (\<lambda>fn.
       Inr \<lparr>ss_indicator = fc_indicator f, ss_signal_func = func_name fn, ss_window = 0,
            ss_signal = Fin 0, ss_column = fc_column f, ss_cusip = factor_cusip f\<rparr>)"

definition conjunction_missing :: bt_exn where
  "conjunction_missing =
     BacktestError (Detail ''`conjunction` is required when more than one factor is provided.'') 422"

text \<open>\<open>sid\<close> is the fresh identifier the configuration draws. A request has a factor.\<close>

definition build_config ::
  "(string \<Rightarrow> py_exn + row list) \<Rightarrow> string \<Rightarrow> 'a bt_request_scheme \<Rightarrow> bt_exn + strategy_cfg" where
  "build_config get sid req =
     bindR (of_py (get ''indicator'')) (\<lambda>indicators.
     bindR (of_py (get ''signal_type'')) (\<lambda>signal_types.
       if 2 \<le> length (rq_factors req) \<and> \<not> truthy (rq_conjunction req) then Inl conjunction_missing
       else
         bindR (of_py (mapR (factor_sub indicators signal_types) (rq_factors req))) (\<lambda>subs.
         let first = hd (rq_factors req)
         in bindR (of_py (resolve_signal_func (fc_strategy first) (fc_indicator first) indicators signal_types)) (\<lambda>fn.
              Inr \<lparr>cf_cusip = rq_symbol req, cf_indicator = fc_indicator first, cf_signal_func = fn,
                   cf_period = rq_period req, cf_id = sid, cf_name = [],
                   cf_conjunction = (if truthy (rq_conjunction req) then the (rq_conjunction req) else ''AND''),
                   cf_subs = subs\<rparr>))))"

definition build_param_ranges ::
  "(flt \<Rightarrow> flt \<Rightarrow> flt \<Rightarrow> py_exn + series) \<Rightarrow> 'a bt_request_scheme \<Rightarrow> py_exn + int list param \<times> series param" where
  "build_param_ranges arange req =
     (case rq_factors req of
        [f] \<Rightarrow> bindR (window_values (fc_window f)) (\<lambda>ws.
                bindR (signal_values arange (fc_signal f)) (\<lambda>ss. Inr (Scalar ws, Scalar ss)))
      | fs \<Rightarrow> bindR (mapR (window_values \<circ> fc_window) fs) (\<lambda>wss.
               bindR (mapR (signal_values arange \<circ> fc_signal) fs) (\<lambda>sss. Inr (PerFactor wss, PerFactor sss))))"

section \<open>What the loader is given\<close>

text \<open>A vendor's answer: its time and value columns, if there, and its other columns.\<close>

record price_table =
  pt_t :: "int list option"
  pt_v :: "series option"
  pt_cols :: "(string \<times> series) list"

text \<open>An object of a vendor's class: \<open>get_historical_price\<close>, and whether it takes a metric path.\<close>

record 'v data_source =
  ds_history ::
    "(string \<Rightarrow> string \<Rightarrow> string \<Rightarrow> string option \<Rightarrow> ('v, bt_exn, price_table) call) option"
  ds_takes_path :: bool

text \<open>
  \<open>fe_get\<close> is \<open>cache.get\<close>; \<open>fe_catalog\<close> is the reader behind it, \<open>None\<close> when \<open>cache\<close> is a plain dict;
  \<open>fe_reader\<close> is \<open>bt_cache.refdata\<close>. \<open>fe_bars\<close> is \<open>bar_services.for_app\<close>, which names its refusal.
\<close>

record 'v fetch_env =
  fe_get :: "string \<Rightarrow> py_exn + row list"
  fe_catalog :: "refdata option"
  fe_reader :: refdata
  fe_inst :: "(string \<Rightarrow> int \<Rightarrow> string option) option"
  fe_has_cache :: bool
  fe_bars :: "(int \<Rightarrow> string + 'v bar_service) option"
  fe_source :: "string \<Rightarrow> bt_exn + 'v data_source"
  fe_time :: "string \<Rightarrow> py_exn + int"
  fe_uuid4 :: "'v \<Rightarrow> nat \<times> 'v"

definition detail :: "string \<Rightarrow> bt_exn" where
  "detail m = BacktestError (Detail m) 400"

definition on_market :: "('v, mkt_exn, 'a) call \<Rightarrow> (api_db \<times> 'v, bt_exn, 'a) call" where
  "on_market f = (\<lambda>(db, v). case f v of (r, v') \<Rightarrow> (map_sum BtMkt id r, (db, v')))"

definition on_rest :: "('v, bt_exn, 'a) call \<Rightarrow> (api_db \<times> 'v, bt_exn, 'a) call" where
  "on_rest f = (\<lambda>(db, v). case f v of (r, v') \<Rightarrow> (r, (db, v')))"

definition one_day :: int where
  "one_day = 86400000000"

text \<open>\<open>_interval_period\<close>: any failure is reported as an unknown interval.\<close>

definition bt_interval_period :: "'v fetch_env \<Rightarrow> int \<Rightarrow> bt_exn + int" where
  "bt_interval_period env iv =
     (case fe_catalog env of
        Some rd \<Rightarrow> (case rd_interval_period rd iv of
            Inr p \<Rightarrow> Inr p | Inl e \<Rightarrow> Inl (detail (''REFDATA.TM_INTERVAL has no interval '' @ int_str iv)))
      | None \<Rightarrow> Inl (detail (''REFDATA.TM_INTERVAL has no interval '' @ int_str iv)))"

definition no_attribute :: "string \<Rightarrow> string \<Rightarrow> bt_exn" where
  "no_attribute cls nm = BtPy (AttributeError ([CHR 0x27] @ cls @ [CHR 0x27] @ '' object has no attribute ''
      @ [CHR 0x27] @ nm @ [CHR 0x27]))"

section \<open>Bars a venue printed\<close>

definition frame_of_rows :: "frame_row list \<Rightarrow> int frame" where
  "frame_of_rows rows =
     \<lparr>f_index = map idx rows,
      f_cols = [(''price'', map price rows), (''factor'', map factor rows), (''Open'', map Open rows),
                (''High'', map High rows), (''Low'', map Low rows), (''Close'', map Close rows),
                (''Volume'', map Volume rows)]\<rparr>"

definition app_text :: "row \<Rightarrow> string" where
  "app_text app = py_str (jget ''name'' app)"

definition app_id_of :: "row \<Rightarrow> bt_exn + int" where
  "app_id_of app = of_py (int_item ''app_id'' app)"

text \<open>The head of the range gets no slack, the tail that of one bar.\<close>

definition spans :: "int \<times> int \<Rightarrow> int \<Rightarrow> int \<Rightarrow> int \<Rightarrow> bool" where
  "spans bounds period range_start range_end \<longleftrightarrow>
     fst bounds \<le> range_start \<and> range_end \<le> snd bounds + period"

definition fetch_exchange_df ::
  "'v fetch_env \<Rightarrow> row \<Rightarrow> string \<Rightarrow> string option \<Rightarrow> string \<Rightarrow> string \<Rightarrow> int
   \<Rightarrow> (api_db \<times> 'v, bt_exn, int frame) call" where
  "fetch_exchange_df env app cusip vendor start end_s iv =
     (case (fe_bars env, vendor) of
        (None, _) \<Rightarrow> raiseC (detail (app_text app @ '' is an exchange, so its bars come from ''
          @ ''MARKET_DATA.PRICE_BAR, but no price bar source is configured''))
      | (Some _, None) \<Rightarrow> raiseC (detail (cusip @ '' is not listed on '' @ app_text app))
      | (Some for_app, Some _) \<Rightarrow>
          bindC (liftR (app_id_of app)) (\<lambda>app_id.
          bindC (liftR (bt_interval_period env iv)) (\<lambda>period.
          bindC (liftR (of_py (fe_time env start))) (\<lambda>range_start.
          bindC (liftR (of_py (fe_time env end_s))) (\<lambda>range_end.
            case for_app app_id of
              Inl m \<Rightarrow> raiseC (detail (app_text app @
                '' does not resolve to a venue this platform can read bars from: '' @ m))
            | Inr svc \<Rightarrow>
                bindC (on_market (stored_bounds svc (Series cusip iv app_id))) (\<lambda>bounds.
                  case bounds of
                    None \<Rightarrow> raiseC (detail (''no '' @ app_text app @ '' bars captured for '' @ cusip
                      @ '' at interval '' @ int_str iv))
                  | Some b \<Rightarrow>
                      (if \<not> spans b period range_start range_end
                       then raiseC (BacktestError
                              (NotSpanned (app_text app) cusip (fst b) (snd b) range_start range_end) 400)
                       else
                         bindC (on_market (read_bars svc (Series cusip iv app_id) range_start range_end)) (\<lambda>rows.
                           if rows = [] then raiseC (detail (''no '' @ app_text app @ '' bars for '' @ cusip))
                           else returnC (frame_of_rows rows)))))))))"

section \<open>Series of a provider\<close>

definition sort_index :: "int frame \<Rightarrow> int frame" where
  "sort_index fr =
     (let perm = map snd (sort_key fst (zip (f_index fr) [0..<length (f_index fr)]))
      in \<lparr>f_index = map ((!) (f_index fr)) perm, f_cols = map (\<lambda>(k, xs). (k, map ((!) xs) perm)) (f_cols fr)\<rparr>)"

definition ohlcv_names :: "string list" where
  "ohlcv_names = [''Open'', ''High'', ''Low'', ''Close'', ''Volume'']"

definition price_frame :: "price_table \<Rightarrow> py_exn + int frame" where
  "price_frame t =
     (case (pt_t t, pt_v t) of
        (None, _) \<Rightarrow> Inl (KeyError ''t'')
      | (Some _, None) \<Rightarrow> Inl (KeyError ''v'')
      | (Some ts, Some vs) \<Rightarrow>
          Inr (sort_index \<lparr>f_index = ts,
                 f_cols = [(''price'', vs), (''factor'', vs)]
                   @ concat (map (\<lambda>c. case map_of (pt_cols t) c of Some xs \<Rightarrow> [(c, xs)] | None \<Rightarrow> [])
                               ohlcv_names)\<rparr>))"

text \<open>\<open>cache.resolve_metric_path\<close>: a method of the reader.\<close>

definition metric_path_of :: "'v fetch_env \<Rightarrow> int \<Rightarrow> string \<Rightarrow> bt_exn + string option" where
  "metric_path_of env app metric_nm =
     (case fe_catalog env of
        Some rd \<Rightarrow> of_py (resolve_metric_path rd app metric_nm)
      | None \<Rightarrow> Inl (no_attribute ''dict'' ''resolve_metric_path''))"

definition provider_fetch ::
  "'v fetch_env \<Rightarrow> row \<Rightarrow> 'v data_source \<Rightarrow> string \<Rightarrow> string \<Rightarrow> string \<Rightarrow> string
   \<Rightarrow> (api_db \<times> 'v, bt_exn, int frame) call" where
  "provider_fetch env app src ticker metric_nm s e =
     (case ds_history src of
        None \<Rightarrow> raiseC (no_attribute (py_str (jget ''class_name'' app)) ''get_historical_price'')
      | Some fn \<Rightarrow>
          bindC (liftR (app_id_of app)) (\<lambda>app_id.
          bindC (liftR (metric_path_of env app_id metric_nm)) (\<lambda>path.
            if ds_takes_path src \<and> \<not> truthy path
            then raiseC (detail (app_text app @ '' has no METRIC_PATH for '' @ py_repr metric_nm))
            else
              bindC (if fe_has_cache env then reserve_api_call app_id else returnC ()) (\<lambda>_.
              bindC (on_rest (fn ticker s e (if ds_takes_path src then path else None))) (\<lambda>price.
                liftR (of_py (price_frame price)))))))"

section \<open>\<open>fetch_df\<close>\<close>

text \<open>\<open>{row["name"]: row}[data_source]\<close>: the last row of that name.\<close>

definition app_named :: "'v fetch_env \<Rightarrow> string \<Rightarrow> bt_exn + row" where
  "app_named env ds =
     bindR (of_py (fe_get env ''app'')) (\<lambda>rows.
     bindR (of_py (mapR (jitem ''name'') rows)) (\<lambda>names.
       case map_of (rev (zip names rows)) (JStr ds) of
         Some app \<Rightarrow> Inr app
       | None \<Rightarrow> Inl (BtPy (ValueError (''Unknown data source: '' @ py_repr ds @ ''. Check REFDATA.APP.'')))))"

definition vendor_of :: "'v fetch_env \<Rightarrow> row \<Rightarrow> string \<Rightarrow> bt_exn + string option" where
  "vendor_of env app cusip =
     (case fe_inst env of
        None \<Rightarrow> Inr None
      | Some resolve \<Rightarrow> bindR (app_id_of app) (\<lambda>app_id. Inr (resolve cusip app_id)))"

definition is_exchange :: "row \<Rightarrow> bool" where
  "is_exchange app \<longleftrightarrow> jget ''is_exchange_ind'' app = JStr ''Y''"

definition daily_only :: "'v fetch_env \<Rightarrow> row \<Rightarrow> int option \<Rightarrow> bt_exn + unit" where
  "daily_only env app iv =
     (case iv of
        None \<Rightarrow> Inr ()
      | Some i \<Rightarrow> bindR (bt_interval_period env i) (\<lambda>p.
          if p < one_day
          then Inl (detail (app_text app @ '' is a data provider and only serves daily bars, so it cannot run ''
                     @ ''a backtest on interval '' @ int_str i))
          else Inr ()))"

text \<open>The cached series of a provider, or a refresh of it, or the provider itself.\<close>

definition cached_or_fetched ::
  "'v fetch_env \<Rightarrow> row \<Rightarrow> 'v data_source \<Rightarrow> string \<Rightarrow> string \<Rightarrow> string \<Rightarrow> string \<Rightarrow> bool \<Rightarrow> string
   \<Rightarrow> (api_db \<times> 'v, bt_exn, int frame) call" where
  "cached_or_fetched env app src cusip ticker s e refresh metric_nm =
     (if fe_has_cache env then
        bindC (liftR (app_id_of app)) (\<lambda>app_id.
        bindC (liftR (of_py (resolve_app_metric_id (fe_reader env) app_id metric_nm))) (\<lambda>metric.
          case metric of
            None \<Rightarrow> provider_fetch env app src ticker metric_nm s e
          | Some m \<Rightarrow>
              (if refresh then
                 (\<lambda>(db, v). case fe_uuid4 env v of (u, v') \<Rightarrow>
                    refresh_payload (fe_time env) (fe_reader env) u app_id m (Some cusip) s e
                      (\<lambda>s e. bindC (provider_fetch env app src ticker metric_nm s e) (\<lambda>df. returnC (Some df)))
                      None None (db, v'))
               else read_payload (fe_time env) (fe_reader env) app_id m (Some cusip) s e None)))
      else provider_fetch env app src ticker metric_nm s e)"

definition fetch_df ::
  "'v fetch_env \<Rightarrow> string \<Rightarrow> string \<Rightarrow> string \<Rightarrow> string \<Rightarrow> bool \<Rightarrow> int option \<Rightarrow> string
   \<Rightarrow> (api_db \<times> 'v, bt_exn, int frame) call" where
  "fetch_df env cusip s e ds refresh iv metric_nm =
     bindC (liftR (app_named env ds)) (\<lambda>app.
     bindC (liftR (vendor_of env app cusip)) (\<lambda>vendor.
       if is_exchange app then
         (case iv of
            None \<Rightarrow> raiseC (detail (app_text app @ '' is an exchange, so a bar interval is required to say ''
                      @ ''which captured series to read''))
          | Some i \<Rightarrow> fetch_exchange_df env app cusip vendor s e i)
       else
         bindC (liftR (daily_only env app iv)) (\<lambda>_.
         bindC (liftR (of_py (text_item ''class_name'' app))) (\<lambda>cls.
         bindC (liftR (fe_source env cls)) (\<lambda>src.
           cached_or_fetched env app src cusip (if truthy vendor then the vendor else cusip) s e refresh metric_nm)))))"

end
