(* ===== verification/BacktestRun.thy ===== *)
theory BacktestRun
  imports DataLoad
begin

text \<open>
  The entry points of \<^verbatim>\<open>quant/strategy/backtest_service.py\<close>: load every series of a request, guard
  what was loaded, and run the search, a fixed strategy or the walk-forward test on it. The text of
  the CSV export and the plots are left out of the responses.
\<close>

section \<open>Every series of a request\<close>

definition miss_is_error :: "('w, bt_exn, 'a) call \<Rightarrow> ('w, bt_exn, 'a) call" where
  "miss_is_error f = (\<lambda>w. case f w of
     (Inl (CacheMissError c s e b), w') \<Rightarrow> (Inl (BacktestError (Missed c s e b) 400), w') | r \<Rightarrow> r)"

definition app_allows_refresh :: "'v fetch_env \<Rightarrow> string \<Rightarrow> bt_exn + bool" where
  "app_allows_refresh env ds =
     bindR (of_py (fe_get env ''app'')) (\<lambda>rows.
       Inr (case find (\<lambda>r. jget ''name'' r = JStr ds) rows of
              Some r \<Rightarrow> jget ''refresh_dataset_ind'' r = JStr ''Y'' | None \<Rightarrow> False))"

definition fetch_series ::
  "'v fetch_env \<Rightarrow> 'a bt_request_scheme \<Rightarrow> string \<Rightarrow> string \<Rightarrow> (api_db \<times> 'v, bt_exn, int frame) call" where
  "fetch_series env req cusip ds =
     bindC (if rq_refresh req then liftR (app_allows_refresh env ds) else returnC False) (\<lambda>refresh.
       miss_is_error (fetch_df env cusip (rq_start req) (rq_end req) ds refresh (Some (rq_interval req)) ''price''))"

text \<open>The source of each series: the factor's own, or the request's.\<close>

definition str_or_default :: "string option \<Rightarrow> string \<Rightarrow> string" where
  "str_or_default x d = (if truthy x then the x else d)"

fun load_factors ::
  "'v fetch_env \<Rightarrow> 'a bt_request_scheme \<Rightarrow> factor_config list \<Rightarrow> (string \<times> int frame) list
   \<Rightarrow> (api_db \<times> 'v, bt_exn, (string \<times> int frame) list) call" where
  "load_factors env req [] d = returnC d"
| "load_factors env req (f # fs) d =
     (case factor_cusip f of
        None \<Rightarrow> load_factors env req fs d
      | Some c \<Rightarrow>
          (if c \<in> fst ` set d then load_factors env req fs d
           else bindC (fetch_series env req c (str_or_default (fc_source f) (rq_source req))) (\<lambda>fr.
                  load_factors env req fs (d @ [(c, fr)]))))"

definition series_bounds :: "int frame \<Rightarrow> int \<times> int" where
  "series_bounds fr = (Min (set (f_index fr)), Max (set (f_index fr)))"

definition no_data :: "string \<Rightarrow> bt_exn" where
  "no_data nm = detail (''No data returned for '' @ py_repr nm @ ''.'')"

definition enforce_date_sync ::
  "(string \<Rightarrow> py_exn + int) \<Rightarrow> (string \<times> int frame) list \<Rightarrow> string \<Rightarrow> string \<Rightarrow> bt_exn + unit" where
  "enforce_date_sync T d req_start req_end =
     (if length d \<le> 1 then Inr ()
      else
        bindR (of_py (T req_start)) (\<lambda>req_s.
        bindR (of_py (T req_end)) (\<lambda>req_e.
          case find (\<lambda>(nm, fr). f_index fr = []) d of
            Some (nm, _) \<Rightarrow> Inl (no_data nm)
          | None \<Rightarrow>
              (let starts = map (\<lambda>(nm, fr). (nm, fst (series_bounds fr))) d;
                   ends = map (\<lambda>(nm, fr). (nm, snd (series_bounds fr))) d;
                   common_start = Max (snd ` set starts);
                   common_end = Min (snd ` set ends)
               in if req_s < common_start \<or> common_end < req_e
                  then Inl (BacktestError (NotAligned req_start req_end common_start common_end
                         (fst (hd (filter (\<lambda>(nm, t). t = common_start) starts)))
                         (fst (hd (filter (\<lambda>(nm, t). t = common_end) ends)))) 400)
                  else Inr ()))))"

definition build_data_dict ::
  "'v fetch_env \<Rightarrow> 'a bt_request_scheme \<Rightarrow> (api_db \<times> 'v, bt_exn, (string \<times> int frame) list) call" where
  "build_data_dict env req =
     bindC (fetch_series env req (rq_symbol req) (rq_source req)) (\<lambda>main_df.
     bindC (load_factors env req (rq_factors req) [(rq_symbol req, main_df)]) (\<lambda>d.
     bindC (liftR (enforce_date_sync (fe_time env) d (rq_start req) (rq_end req))) (\<lambda>_. returnC d)))"

section \<open>The guard on the search\<close>

definition catalog_of :: "'v fetch_env \<Rightarrow> string \<Rightarrow> bt_exn + refdata" where
  "catalog_of env attr = (case fe_catalog env of Some rd \<Rightarrow> Inr rd | None \<Rightarrow> Inl (no_attribute ''dict'' attr))"

definition min_metric_obs :: "'v fetch_env \<Rightarrow> bt_exn + int" where
  "min_metric_obs env =
     bindR (catalog_of env ''setting_int'') (\<lambda>rd. of_py (setting_int rd ''min_metric_obs''))"

definition require_scoreable_sample ::
  "'v fetch_env \<Rightarrow> (string \<times> int frame) list \<Rightarrow> 'a bt_request_scheme \<Rightarrow> bt_exn + unit" where
  "require_scoreable_sample env d req =
     bindR (of_py (lookup_frame (map_of d) (rq_symbol req))) (\<lambda>main.
     bindR (of_py (bindR (mapR (\<lambda>f. int_of_float (rp_max (fc_window f))) (rq_factors req)) max_list)) (\<lambda>w.
     bindR (min_metric_obs env) (\<lambda>mo.
       let n = int (length (f_index main)); need = w + mo
       in if need \<le> n then Inr ()
          else bindR (bindR (catalog_of env ''interval_name'') (\<lambda>rd. of_py (interval_name rd (rq_interval req))))
                 (\<lambda>nm. Inl (detail (''series has '' @ int_str n @ '' '' @ nm @ '' bars; the grid needs at least ''
                       @ int_str need @ '' (window '' @ int_str w @ '' + '' @ int_str mo @ '' finite pnl bars)''))))))"

section \<open>Responses\<close>

record perf_response =
  pr_strategy :: metrics
  pr_n_obs :: int
  pr_buy_hold :: metrics
  pr_curve :: "(int \<times> flt \<times> flt \<times> flt \<times> flt) list"

text \<open>The rows of the chart: those whose cumulative return is known.\<close>

definition equity_points :: "int enriched \<Rightarrow> (int \<times> flt \<times> flt \<times> flt \<times> flt) list" where
  "equity_points e =
     filter (\<lambda>(t, cumu, rest). cumu \<noteq> NaN)
       (zip (en_index e) (zip (en_cumu e) (zip (en_bh_cumu e) (zip (en_dd e) (en_bh_dd e)))))"

definition evaluate_performance ::
  "kernels \<Rightarrow> int data_dict \<Rightarrow> strategy_cfg \<Rightarrow> int param \<Rightarrow> flt param \<Rightarrow> flt option \<Rightarrow> int
   \<Rightarrow> py_exn + int performance \<times> int enriched" where
  "evaluate_performance K data c window signal fee_bps mo =
     bindR (new_performance c data (Some window) (Some signal) fee_bps mo) (\<lambda>p.
     bindR (enrich_performance K p) (\<lambda>e. Inr (p, e)))"

definition perf_response_of ::
  "kernels \<Rightarrow> int data_dict \<Rightarrow> strategy_cfg \<Rightarrow> int param \<Rightarrow> flt param \<Rightarrow> flt option \<Rightarrow> int
   \<Rightarrow> py_exn + perf_response" where
  "perf_response_of K data c window signal fee_bps mo =
     bindR (evaluate_performance K data c window signal fee_bps mo) (\<lambda>(p, e).
     bindR (strategy_performance K p e) (\<lambda>sm.
     bindR (buy_hold_performance K p e) (\<lambda>bm.
       Inr \<lparr>pr_strategy = sm, pr_n_obs = metric_n_obs p e, pr_buy_hold = bm, pr_curve = equity_points e\<rparr>)))"

text \<open>The parameters of a row of the search. Its values are the numbers the search tried.\<close>

definition row_params :: "strategy_cfg \<Rightarrow> row \<Rightarrow> py_exn + int param \<times> flt param" where
  "row_params c best =
     (if is_multi c then
        (let is = [0..<length (get_substrategies c)]
         in bindR (mapR (\<lambda>i. py_int (jget_or (axis ''window_'' i) (jget ''window'' best) best)) is) (\<lambda>ws.
            bindR (mapR (\<lambda>i. py_float_json (jget_or (axis ''signal_'' i) (jget ''signal'' best) best)) is) (\<lambda>ss.
              Inr (PerFactor ws, PerFactor ss))))
      else
        bindR (py_int (jget ''window'' best)) (\<lambda>w.
        bindR (py_float_json (jget ''signal'' best)) (\<lambda>s. Inr (Scalar w, Scalar s))))"

definition build_perf_response ::
  "kernels \<Rightarrow> int data_dict \<Rightarrow> strategy_cfg \<Rightarrow> row \<Rightarrow> flt option \<Rightarrow> int \<Rightarrow> py_exn + perf_response" where
  "build_perf_response K data c best fee_bps mo =
     bindR (row_params c best) (\<lambda>(w, s). perf_response_of K data c w s fee_bps mo)"

record wf_response =
  wfr_window :: "int param"
  wfr_signal :: "flt param"
  wfr_is :: metrics
  wfr_oos :: metrics
  wfr_ratio :: "flt option"
  wfr_curve :: "(int \<times> flt \<times> flt \<times> flt \<times> flt) list"
  wfr_split :: "int option"

definition build_wf_response ::
  "optuna \<Rightarrow> kernels \<Rightarrow> (flt \<Rightarrow> string) \<Rightarrow> int data_dict \<Rightarrow> strategy_cfg \<Rightarrow> int list param \<Rightarrow> series param
   \<Rightarrow> flt \<Rightarrow> flt option \<Rightarrow> int \<Rightarrow> py_exn + wf_response" where
  "build_wf_response L K str_float data c windows signals split_ratio fee_bps mo =
     bindR (new_walk_forward str_float data split_ratio c fee_bps mo) (\<lambda>wk.
     bindR (run_walk_forward L K wk windows signals) (\<lambda>r.
     bindR (lookup_frame data (cf_cusip c)) (\<lambda>main.
       Inr \<lparr>wfr_window = wr_window r, wfr_signal = wr_signal r, wfr_is = wr_is r, wfr_oos = wr_oos r,
            wfr_ratio = (if wr_ratio r = NaN then None else Some (wr_ratio r)),
            wfr_curve = equity_points (wr_full r),
            wfr_split = (if wf_split wk < length (f_index main) then Some (f_index main ! wf_split wk) else None)\<rparr>)))"

record optimize_response =
  ors_total :: nat
  ors_valid :: nat
  ors_best :: row
  ors_top10 :: "row list"
  ors_grid :: "row list"
  ors_performance :: "perf_response option"
  ors_walk_forward :: "wf_response option"
  ors_wf_error :: "py_exn option"

section \<open>Entry points\<close>

text \<open>What the service is given besides the loader: the libraries, and the identifier drawn.\<close>

record bt_libs =
  lib_optuna :: optuna
  lib_kernels :: kernels
  lib_arange :: "flt \<Rightarrow> flt \<Rightarrow> flt \<Rightarrow> py_exn + series"
  lib_str_float :: "flt \<Rightarrow> string"
  lib_sid :: string

definition inl_opt :: "'e + 'a \<Rightarrow> 'e option" where
  "inl_opt r = (case r of Inl e \<Rightarrow> Some e | Inr _ \<Rightarrow> None)"

definition inr_opt :: "'e + 'a \<Rightarrow> 'a option" where
  "inr_opt r = (case r of Inl _ \<Rightarrow> None | Inr x \<Rightarrow> Some x)"

text \<open>The search, then both inline runs: an exception in one of them does not lose the search.\<close>

definition search_response ::
  "bt_libs \<Rightarrow> int data_dict \<Rightarrow> strategy_cfg \<Rightarrow> int list param \<Rightarrow> series param \<Rightarrow> optimize_request \<Rightarrow> int
   \<Rightarrow> py_exn + optimize_response" where
  "search_response lib data c windows signals req mo =
     bindR (run_optimizer (lib_optuna lib) (lib_kernels lib) data c (Some (rq_fee req)) mo windows signals None) (\<lambda>r.
       let perf = (if 0 < or_valid r \<and> or_best r \<noteq> []
                   then inr_opt (build_perf_response (lib_kernels lib) data c (or_best r) (Some (rq_fee req)) mo)
                   else None);
           wf = (if oq_walk_forward req \<and> 0 < or_valid r
                 then Some (build_wf_response (lib_optuna lib) (lib_kernels lib) (lib_str_float lib) data c
                        windows signals (oq_split req) (Some (rq_fee req)) mo)
                 else None)
       in Inr \<lparr>ors_total = length (or_grid r), ors_valid = or_valid r, ors_best = or_best r,
               ors_top10 = or_top10 r, ors_grid = or_grid r, ors_performance = perf,
               ors_walk_forward = Option.bind wf inr_opt, ors_wf_error = Option.bind wf inl_opt\<rparr>)"

definition run_optimize ::
  "'v fetch_env \<Rightarrow> bt_libs \<Rightarrow> optimize_request \<Rightarrow> (api_db \<times> 'v, bt_exn, optimize_response) call" where
  "run_optimize env lib req =
     bindC (build_data_dict env req) (\<lambda>d.
     bindC (liftR (require_scoreable_sample env d req)) (\<lambda>_.
     bindC (liftR (build_config (fe_get env) (lib_sid lib) req)) (\<lambda>c.
     bindC (liftR (of_py (build_param_ranges (lib_arange lib) req))) (\<lambda>(windows, signals).
     bindC (liftR (min_metric_obs env)) (\<lambda>mo.
       liftR (of_py (search_response lib (map_of d) c windows signals req mo)))))))"

definition length_mismatch :: "performance_request \<Rightarrow> bt_exn" where
  "length_mismatch req =
     BacktestError (Detail (''factors / windows / signals length mismatch: '' @ nat_str (length (rq_factors req))
       @ '' factors, '' @ nat_str (length (pq_windows req)) @ '' windows, ''
       @ nat_str (length (pq_signals req)) @ '' signals.'')) 422"

definition request_params :: "performance_request \<Rightarrow> int param \<times> flt param" where
  "request_params req =
     (if length (rq_factors req) = 1 then (Scalar (hd (pq_windows req)), Scalar (hd (pq_signals req)))
      else (PerFactor (pq_windows req), PerFactor (pq_signals req)))"

definition run_performance ::
  "'v fetch_env \<Rightarrow> bt_libs \<Rightarrow> performance_request \<Rightarrow> (api_db \<times> 'v, bt_exn, perf_response) call" where
  "run_performance env lib req =
     bindC (build_data_dict env req) (\<lambda>d.
     bindC (liftR (build_config (fe_get env) (lib_sid lib) req)) (\<lambda>c.
       if length (rq_factors req) \<noteq> length (pq_windows req) \<or> length (rq_factors req) \<noteq> length (pq_signals req)
       then raiseC (length_mismatch req)
       else
         bindC (liftR (min_metric_obs env)) (\<lambda>mo.
           case request_params req of (w, s) \<Rightarrow>
             liftR (of_py (perf_response_of (lib_kernels lib) (map_of d) c w s (Some (rq_fee req)) mo)))))"

definition run_walk_forward_request ::
  "'v fetch_env \<Rightarrow> bt_libs \<Rightarrow> optimize_request \<Rightarrow> (api_db \<times> 'v, bt_exn, wf_response) call" where
  "run_walk_forward_request env lib req =
     bindC (build_data_dict env req) (\<lambda>d.
     bindC (liftR (build_config (fe_get env) (lib_sid lib) req)) (\<lambda>c.
     bindC (liftR (of_py (build_param_ranges (lib_arange lib) req))) (\<lambda>(windows, signals).
     bindC (liftR (min_metric_obs env)) (\<lambda>mo.
       liftR (of_py (build_wf_response (lib_optuna lib) (lib_kernels lib) (lib_str_float lib) (map_of d) c
         windows signals (oq_split req) (Some (rq_fee req)) mo))))))"

end
