(* ===== verification/LiveEval.thy ===== *)
theory LiveEval
  imports BacktestRun
begin

text \<open>
  The evaluation of a saved strategy on fresh series (\<^verbatim>\<open>quant/strategy/live_service.py\<close>), from the
  bars of a venue or from the provider the strategy names. A document arrives decoded; how pydantic
  reads a request from it is the parameter \<open>lv_validate\<close>. The service hands \<open>fetch_df\<close> a plain dict
  of three tables where a back-test hands it the reader.
\<close>

section \<open>Errors and parameters\<close>

datatype live_err = LiveErr bt_cause | LiveRaised bt_exn

record 'v live_env =
  lv_refdata :: refdata
  lv_inst :: "string \<Rightarrow> int \<Rightarrow> string option"
  lv_source :: "string \<Rightarrow> bt_exn + 'v data_source"
  lv_time :: "string \<Rightarrow> py_exn + int"
  lv_uuid4 :: "'v \<Rightarrow> nat \<times> 'v"
  lv_today :: "'v \<Rightarrow> int \<times> 'v"
  lv_validate :: "row \<Rightarrow> py_exn + optimize_request"
  lv_sid :: string
  lv_kernels :: kernels

definition raised :: "bt_exn + 'a \<Rightarrow> live_err + 'a" where
  "raised = map_sum LiveRaised id"

definition calling :: "('w, bt_exn, 'a) call \<Rightarrow> ('w, live_err, 'a) call" where
  "calling f = (\<lambda>w. case f w of (r, w') \<Rightarrow> (raised r, w'))"

text \<open>\<open>except ValueError as exc: raise LiveEvaluationError(str(exc))\<close>.\<close>

definition value_error_live :: "py_exn + 'a \<Rightarrow> live_err + 'a" where
  "value_error_live r =
     (case r of
        Inl (ValueError m) \<Rightarrow> Inl (LiveErr (Detail m))
      | Inl e \<Rightarrow> Inl (LiveRaised (BtPy e))
      | Inr x \<Rightarrow> Inr x)"

definition live_error :: "string \<Rightarrow> live_err" where
  "live_error m = LiveErr (Detail m)"

section \<open>The strategy and its parameters\<close>

definition best_of :: "json \<Rightarrow> live_err + row" where
  "best_of payload =
     (let best = (case payload of JObj d \<Rightarrow> jget ''best'' d | _ \<Rightarrow> JNull)
      in if \<not> jtruthy best
         then Inl (live_error (''no optimization result found for strategy '' @ em_dash @ '' run backtest first''))
         else raised (of_py (as_dict best)))"

text \<open>The parameters of the stored result; a \<open>ValueError\<close> gets a prefix.\<close>

definition params_of_result :: "row \<Rightarrow> live_err + int param \<times> flt param" where
  "params_of_result best =
     (case params_from_best best of
        Inl (ValueError m) \<Rightarrow> Inl (live_error (''result payload missing best params: '' @ m))
      | r \<Rightarrow> raised (of_py r))"

definition resolve_config_and_params ::
  "'v live_env \<Rightarrow> (string \<Rightarrow> py_exn + row list) \<Rightarrow> row \<Rightarrow> json
   \<Rightarrow> live_err + strategy_cfg \<times> int param \<times> flt param \<times> optimize_request option" where
  "resolve_config_and_params env get doc payload =
     (if ''factors'' \<in> fst ` set doc then
        bindR (raised (of_py (lv_validate env doc))) (\<lambda>req.
        bindR (raised (build_config get (lv_sid env) req)) (\<lambda>c.
        bindR (best_of payload) (\<lambda>best.
        bindR (params_of_result best) (\<lambda>(w, s). Inr (c, w, s, Some req)))))
      else
        bindR (raised (of_py (config_from_json doc))) (\<lambda>c.
        bindR (raised (of_py (params_from_strategy_json doc))) (\<lambda>(w, s). Inr (c, w, s, None))))"

section \<open>Where the series come from\<close>

definition source_key :: "strategy_cfg \<Rightarrow> factor_config \<Rightarrow> string" where
  "source_key c f = (case opt_or (fc_vendor f) (opt_or (fc_symbol f) (Some (cf_cusip c))) of
     Some k \<Rightarrow> k | None \<Rightarrow> cf_cusip c)"

text \<open>\<open>dict.setdefault\<close>.\<close>

definition setdefault :: "'k \<Rightarrow> 'a \<Rightarrow> ('k \<times> 'a) list \<Rightarrow> ('k \<times> 'a) list" where
  "setdefault k v d = (if k \<in> fst ` set d then d else d @ [(k, v)])"

definition no_source :: "string \<Rightarrow> live_err" where
  "no_source cusip = live_error (''strategy '' @ py_repr cusip @ '' names no data_source '' @ em_dash
     @ '' it was saved without one. Re-run the backtest from the form so the provider is recorded with the strategy'')"

definition data_sources ::
  "strategy_cfg \<Rightarrow> 'a bt_request_scheme option \<Rightarrow> live_err + (string \<times> string) list" where
  "data_sources c req =
     (case req of
        None \<Rightarrow> Inl (no_source (cf_cusip c))
      | Some r \<Rightarrow>
          Inr (foldl (\<lambda>d f. setdefault (source_key c f) (str_or_default (fc_source f) (rq_source r)) d)
                 [(cf_cusip c, rq_source r)] (rq_factors r)))"

text \<open>The tables handed to \<open>fetch_df\<close>, read before anything else.\<close>

definition live_tables :: "refdata \<Rightarrow> live_err + (string \<Rightarrow> py_exn + row list)" where
  "live_tables rd =
     bindR (raised (of_py (catalog rd ''app''))) (\<lambda>app.
     bindR (raised (of_py (catalog rd ''indicator''))) (\<lambda>ind.
     bindR (raised (of_py (catalog rd ''signal_type''))) (\<lambda>sig.
       Inr (\<lambda>k. if k = ''app'' then Inr app else if k = ''indicator'' then Inr ind
                else if k = ''signal_type'' then Inr sig
                else Inl (TypeError ([CHR 0x27] @ ''NoneType'' @ [CHR 0x27] @ '' object is not iterable''))))))"

definition live_fetch_env :: "'v live_env \<Rightarrow> (string \<Rightarrow> py_exn + row list) \<Rightarrow> 'v fetch_env" where
  "live_fetch_env env get =
     \<lparr>fe_get = get, fe_catalog = None, fe_reader = lv_refdata env, fe_inst = Some (lv_inst env),
      fe_has_cache = True, fe_bars = None, fe_source = lv_source env, fe_time = lv_time env,
      fe_uuid4 = lv_uuid4 env\<rparr>"

definition provider_load ::
  "'v fetch_env \<Rightarrow> (string \<times> string) list \<Rightarrow> string \<Rightarrow> string \<Rightarrow> string
   \<Rightarrow> (api_db \<times> 'v, live_err, int frame) call" where
  "provider_load fenv sources start end_s cusip =
     (case map_of sources cusip of
        None \<Rightarrow> raiseC (live_error (''strategy names no data_source for '' @ py_repr cusip))
      | Some ds \<Rightarrow>
          (\<lambda>w. case fetch_df fenv cusip start end_s ds False None ''price'' w of
                 (Inl (CacheMissError c s e b), w') \<Rightarrow>
                   calling (fetch_df fenv cusip start end_s ds True None ''price'') w'
               | (Inl (BacktestError cause st), w') \<Rightarrow> (Inl (LiveErr cause), w')
               | (r, w') \<Rightarrow> (raised r, w')))"

section \<open>One frame per series\<close>

definition signal_symbols :: "strategy_cfg \<Rightarrow> string list" where
  "signal_symbols c = cf_cusip c # sorted_list_of_set (get_internal_cusips c - {cf_cusip c})"

fun load_each :: "(string \<Rightarrow> ('w, 'e, int frame) call) \<Rightarrow> string list \<Rightarrow> ('w, 'e, (string \<times> int frame) list) call" where
  "load_each load [] = returnC []"
| "load_each load (k # ks) =
     bindC (load k) (\<lambda>fr. bindC (load_each load ks) (\<lambda>d. returnC ((k, fr) # d)))"

definition build_data_dict_for_signal ::
  "strategy_cfg \<Rightarrow> (string \<Rightarrow> ('w, live_err, int frame) call) \<Rightarrow> ('w, live_err, (string \<times> int frame) list) call" where
  "build_data_dict_for_signal c load =
     bindC (load_each load (signal_symbols c)) (\<lambda>d.
       case find (\<lambda>(k, fr). f_index fr = []) d of
         Some (k, _) \<Rightarrow> raiseC (live_error (''No data returned for '' @ py_repr k))
       | None \<Rightarrow> returnC d)"

section \<open>Dates\<close>

text \<open>\<open>date.isoformat\<close> of a day counted from 1970-01-01, in the proleptic Gregorian calendar.\<close>

definition civil :: "int \<Rightarrow> int \<times> int \<times> int" where
  "civil day =
     (let z = day + 719468;
          era = z div 146097;
          doe = z - era * 146097;
          yoe = (doe - doe div 1460 + doe div 36524 - doe div 146096) div 365;
          doy = doe - (365 * yoe + yoe div 4 - yoe div 100);
          mp = (5 * doy + 2) div 153;
          m = (if mp < 10 then mp + 3 else mp - 9)
      in (yoe + era * 400 + (if m \<le> 2 then 1 else 0), m, doy - (153 * mp + 2) div 5 + 1))"

definition date_iso :: "int \<Rightarrow> string" where
  "date_iso day =
     (case civil day of (y, m, d) \<Rightarrow>
        pad_left 4 (int_str y) @ ''-'' @ pad_left 2 (int_str m) @ ''-'' @ pad_left 2 (int_str d))"

definition live_date_range :: "int param \<Rightarrow> int \<Rightarrow> int \<Rightarrow> py_exn + string \<times> string" where
  "live_date_range window trading_period today =
     bindR (max_window window) (\<lambda>w.
       let start = today - live_lookback_days w trading_period
       in if start < - 719162 \<or> 2932896 < start then Inl (OverflowError ''date value out of range'')
          else Inr (date_iso start, date_iso today))"

section \<open>The latest position\<close>

definition live_min_obs :: "'v live_env \<Rightarrow> py_exn + int" where
  "live_min_obs env = setting_int (lv_refdata env) ''min_metric_obs''"

definition position_on ::
  "'v live_env \<Rightarrow> strategy_cfg \<Rightarrow> int param \<Rightarrow> flt param \<Rightarrow> (string \<times> int frame) list \<Rightarrow> live_err + flt \<times> int" where
  "position_on env c w s d =
     value_error_live
       (bindR (live_min_obs env) (\<lambda>mo.
        bindR (new_performance c (map_of d) (Some w) (Some s) None mo) (\<lambda>p.
          compute_latest_position (lv_kernels env) p)))"

text \<open>The loader of the series: bars of the venue by count, or the provider by dates.\<close>

type_synonym 'v bars_loader = "string \<Rightarrow> int \<Rightarrow> (api_db \<times> 'v, bt_exn, int frame) call"

definition choose_loader ::
  "'v live_env \<Rightarrow> (string \<Rightarrow> py_exn + row list) \<Rightarrow> 'v bars_loader option \<Rightarrow> strategy_cfg \<Rightarrow> int param
   \<Rightarrow> optimize_request option \<Rightarrow> (api_db \<times> 'v, live_err, string \<Rightarrow> (api_db \<times> 'v, live_err, int frame) call) call" where
  "choose_loader env get bar_loader c w req =
     (case bar_loader of
        Some bars \<Rightarrow>
          bindC (liftR (raised (of_py (live_lookback_bars w)))) (\<lambda>lookback.
            returnC (\<lambda>cusip. calling (bars cusip lookback)))
      | None \<Rightarrow>
          bindC (\<lambda>(db, v). case lv_today env v of (t, v') \<Rightarrow> (Inr t, (db, v'))) (\<lambda>today.
          bindC (liftR (raised (of_py (live_date_range w (cf_period c) today)))) (\<lambda>(start, end_s).
          bindC (liftR (data_sources c req)) (\<lambda>sources.
            returnC (provider_load (live_fetch_env env get) sources start end_s)))))"

definition live_position ::
  "'v live_env \<Rightarrow> 'v bars_loader option \<Rightarrow> row \<Rightarrow> json \<Rightarrow> (api_db \<times> 'v, live_err, flt \<times> int) call" where
  "live_position env bar_loader doc payload =
     bindC (liftR (live_tables (lv_refdata env))) (\<lambda>get.
     bindC (liftR (resolve_config_and_params env get doc payload)) (\<lambda>(c, w, s, req).
     bindC (choose_loader env get bar_loader c w req) (\<lambda>load.
     bindC (build_data_dict_for_signal c load) (\<lambda>d.
       liftR (position_on env c w s d)))))"

text \<open>The loader a deployment binds: a window of bars that ends with the forming one.\<close>

definition window_loader :: "'v bar_service \<Rightarrow> int \<Rightarrow> int \<Rightarrow> 'v bars_loader" where
  "window_loader svc iv app = (\<lambda>cusip lookback.
     on_market (bindC (load_window svc cusip lookback iv app None True) (\<lambda>rows. returnC (frame_of_rows rows))))"

end
