(* ===== verification/EvalProps.thy ===== *)
theory EvalProps
  imports LiveEval
begin

text \<open>
  What the loading of series and the two services on top of it guarantee: an exchange series is
  every stored bar of the requested range, a search runs on a sample it can score, a live
  evaluation reads the series and sources of the back-test, and uses all of them.
\<close>

section \<open>Running a call\<close>

lemma on_market_Inr:
  "on_market f (db, v) = (Inr x, w) \<longleftrightarrow> (\<exists>v'. f v = (Inr x, v') \<and> w = (db, v'))"
  by (auto simp: on_market_def split: prod.splits sum.splits) (metis id_apply map_sum.simps(2) old.sum.exhaust
    sum.distinct(1) map_sum.simps(1) sum.inject(2))+

lemma liftR_Inr: "liftR r w = (Inr x, w') \<longleftrightarrow> r = Inr x \<and> w' = w"
  by (auto simp: liftR_def)

section \<open>Bars of an exchange\<close>

lemma stored_bounds_db:
  assumes "bars_wf (fst v)" and "stored_bounds (price_bar_service be) key v = (Inr (Some (mn, mx)), v')"
  shows "bars_wf (fst v') \<and> bar_map v' key mn \<noteq> None \<and> bar_map v' key mx \<noteq> None"
proof -
  have run: "on_bars (\<lambda>rows. Inr (sp_get_price_bar_coverage key rows, rows)) v = (Inr (Some (mn, mx)), v')"
    using assms(2) by (simp add: stored_bounds_def repo_get_coverage_def)
  note db = on_bars_read [OF assms(1) run]
  have "sp_get_price_bar_coverage key (price_bars (fst v')) = Some (mn, mx)" "keys_distinct (price_bars (fst v'))"
    using db(2) [of "Some (mn, mx)"] by simp_all
  from sp_coverage_some [OF this(2,1)] db(1) show ?thesis by (auto simp: bar_map_def)
qed

text \<open>Rows of the table as a frame: every stored bar of the range, in order, once.\<close>

definition bars_between :: "'v frame \<Rightarrow> ('v :: linorder \<Rightarrow> ohlcv option) \<Rightarrow> 'v \<Rightarrow> 'v \<Rightarrow> bool" where
  "bars_between fr stored_bar a b \<longleftrightarrow>
     sorted_wrt (<) (f_index fr)
     \<and> (\<forall>t. t \<in> set (f_index fr) \<longleftrightarrow> a \<le> t \<and> t \<le> b \<and> stored_bar t \<noteq> None)
     \<and> map_of (f_cols fr) ''price'' = Some (map (\<lambda>t. close_px (the (stored_bar t))) (f_index fr))"

lemma read_bars_db:
  assumes "bars_wf (fst v)" and "read_bars (price_bar_service be) key a b v = (Inr rows, v')"
  shows "grows bar_map v v' \<and> bars_between (frame_of_rows rows) (bar_map v' key) a b"
proof -
  obtain bars where run: "on_bars (\<lambda>rows. Inr (sp_get_price_bar key a b rows, rows)) v = (Inr bars, v')"
    and rows: "rows = ohlcv_frame bars"
    using assms(2) by (auto simp: read_bars_def repo_get_bars_def bindC_Inr_iff)
  note db = on_bars_read [OF assms(1) run]
  have bars: "bars = sp_get_price_bar key a b (price_bars (fst v'))" "keys_distinct (price_bars (fst v'))"
    using db(2) [of bars] by simp_all
  note got = sp_get_price_bar_rows [OF bars(2), of key a b, folded bars(1)]
  have mem: "bt \<in> set bars \<longleftrightarrow> bar_map v' key (bar_timestamp bt) = Some bt \<and> a \<le> bar_timestamp bt \<and> bar_timestamp bt \<le> b" for bt
    using got by (simp add: bar_map_def)
  have idx: "map idx rows = sort (map bar_timestamp bars)"
  proof -
    have "map idx (sort_key idx xs) = sort (map idx xs)" for xs :: "frame_row list"
      by (rule properties_for_sort [symmetric]) simp_all
    then show ?thesis by (simp add: rows ohlcv_frame_def comp_def frame_row_of_def)
  qed
  have "distinct (map bar_timestamp bars)" using got by simp
  then have srt: "sorted_wrt (<) (map idx rows)" by (simp add: idx strict_sorted_iff)
  have "bar_timestamp bt = t" if "bar_map v' key t = Some bt" for t bt
    using that bars_of_stamp by (auto simp: bar_map_def)
  then have "t \<in> bar_timestamp ` set bars \<longleftrightarrow> a \<le> t \<and> t \<le> b \<and> bar_map v' key t \<noteq> None" for t
    using mem by (auto simp: image_iff) metis
  moreover have "set (map idx rows) = bar_timestamp ` set bars" by (simp add: idx)
  moreover have "map price rows = map (\<lambda>t. close_px (the (bar_map v' key t))) (map idx rows)"
  proof -
    have "price r = close_px (the (bar_map v' key (idx r)))" if "r \<in> set rows" for r
    proof -
      obtain bt where "bt \<in> set bars" "r = frame_row_of bt"
        using \<open>r \<in> set rows\<close> by (auto simp: rows ohlcv_frame_def)
      with mem show ?thesis by (simp add: frame_row_of_def)
    qed
    then show ?thesis by simp
  qed
  ultimately show ?thesis using db(1) srt by (simp add: bars_between_def frame_of_rows_def)
qed

lemma frame_of_rows_empty: "f_index (frame_of_rows rows) = [] \<longleftrightarrow> rows = []"
  by (simp add: frame_of_rows_def)

text \<open>C21: A back-test on an exchange is never run on a silently short series. When \<open>fetch_df\<close> returns a
  frame for an exchange source, it left the request cache alone and asked no provider; the store
  holds a bar at or before the requested start and one that reaches the requested end up to one
  bar; and the frame is exactly the stored bars of the requested range, in order and once each,
  its price column their closes, and not empty. The bars are those of the table at the moment of
  the read, whatever other workers add meanwhile.\<close>

theorem exchange_series_spans:
  fixes w w' :: "api_db \<times> bar_db \<times> 'u"
  assumes "\<forall>f i svc. fe_bars env = Some f \<and> f i = Inr svc \<longrightarrow> (\<exists>be. svc = price_bar_service be)"
    and "bars_wf (fst (snd w))" and "app_named env ds = Inr app" and "is_exchange app"
    and "fetch_df env cusip s e ds refresh (Some iv) nm w = (Inr fr, w')"
  shows "\<exists>i a b p mn mx. app_id_of app = Inr i \<and> fe_time env s = Inr a \<and> fe_time env e = Inr b
    \<and> bt_interval_period env iv = Inr p \<and> fst w' = fst w
    \<and> bar_map (snd w') (Series cusip iv i) mn \<noteq> None \<and> mn \<le> a
    \<and> bar_map (snd w') (Series cusip iv i) mx \<noteq> None \<and> b \<le> mx + p
    \<and> f_index fr \<noteq> [] \<and> bars_between fr (bar_map (snd w') (Series cusip iv i)) a b"
proof -
  obtain db v where w: "w = (db, v)" by (cases w)
  obtain vendor where run: "fetch_exchange_df env app cusip vendor s e iv (db, v) = (Inr fr, w')"
    using assms(3-5) by (auto simp: fetch_df_def bindC_Inr_iff w)
  obtain f x where f: "fe_bars env = Some f" "vendor = Some x"
    using run by (auto simp: fetch_exchange_df_def split: option.splits)
  obtain i p a b where h: "app_id_of app = Inr i" "bt_interval_period env iv = Inr p"
      "fe_time env s = Inr a" "fe_time env e = Inr b"
    and run1: "(case f i of
              Inl m \<Rightarrow> raiseC (detail (app_text app @
                '' does not resolve to a venue this platform can read bars from: '' @ m))
            | Inr svc \<Rightarrow>
                bindC (on_market (stored_bounds svc (Series cusip iv i))) (\<lambda>bounds.
                  case bounds of
                    None \<Rightarrow> raiseC (detail (''no '' @ app_text app @ '' bars captured for '' @ cusip
                      @ '' at interval '' @ int_str iv))
                  | Some bd \<Rightarrow>
                      (if \<not> spans bd p a b
                       then raiseC (BacktestError (NotSpanned (app_text app) cusip (fst bd) (snd bd) a b) 400)
                       else
                         bindC (on_market (read_bars svc (Series cusip iv i) a b)) (\<lambda>rows.
                           if rows = [] then raiseC (detail (''no '' @ app_text app @ '' bars for '' @ cusip))
                           else returnC (frame_of_rows rows))))) (db, v) = (Inr fr, w')"
    using run by (auto simp: fetch_exchange_df_def f bindC_Inr_iff)
  let ?key = "Series cusip iv i"
  obtain svc where svc: "f i = Inr svc" using run1 by (cases "f i") auto
  obtain be where be: "svc = price_bar_service be" using assms(1) f(1) svc by blast
  obtain bds v1 where bds: "stored_bounds svc ?key v = (Inr bds, v1)"
    and run2: "(case bds of
                    None \<Rightarrow> raiseC (detail (''no '' @ app_text app @ '' bars captured for '' @ cusip
                      @ '' at interval '' @ int_str iv))
                  | Some bd \<Rightarrow>
                      (if \<not> spans bd p a b
                       then raiseC (BacktestError (NotSpanned (app_text app) cusip (fst bd) (snd bd) a b) 400)
                       else
                         bindC (on_market (read_bars svc ?key a b)) (\<lambda>rows.
                           if rows = [] then raiseC (detail (''no '' @ app_text app @ '' bars for '' @ cusip))
                           else returnC (frame_of_rows rows)))) (db, v1) = (Inr fr, w')"
    using run1 unfolding svc sum.case bindC_Inr_iff on_market_Inr by auto
  obtain mn mx where bd: "bds = Some (mn, mx)" and sp: "spans (mn, mx) p a b"
    using run2 by (cases bds) (auto split: if_splits)
  obtain rows v2 where rd: "read_bars svc ?key a b v1 = (Inr rows, v2)" and ne: "rows \<noteq> []"
    and out: "fr = frame_of_rows rows" "w' = (db, v2)"
    using run2 sp by (auto simp: bd bindC_Inr_iff on_market_Inr split: if_splits)
  have "bars_wf (fst v)" using assms(2) w by simp
  note db1 = stored_bounds_db [OF this bds [unfolded be bd]]
  note db2 = read_bars_db [OF _ rd [unfolded be]]
  have g: "grows bar_map v1 v2" and fr: "bars_between fr (bar_map v2 ?key) a b"
    using db1 db2 out by auto
  have "bar_map v2 ?key t \<noteq> None" if "bar_map v1 ?key t \<noteq> None" for t
    using g that by (force simp: grows_def map_le_def dom_def)
  then have "bar_map v2 ?key mn \<noteq> None \<and> bar_map v2 ?key mx \<noteq> None" using db1 by blast
  with h sp fr ne out show ?thesis
    by (auto simp: w spans_def frame_of_rows_empty)
qed

section \<open>The sample of a search\<close>

lemma py_range_le: "py_range lo (hi + 1) st = Inr xs \<Longrightarrow> 0 < st \<Longrightarrow> x \<in> set xs \<Longrightarrow> x \<le> hi"
proof -
  assume h: "py_range lo (hi + 1) st = Inr xs" "0 < st" "x \<in> set xs"
  then obtain k where k: "k < nat ((hi - lo + st) div st)" and x: "x = lo + int k * st"
    by (auto simp: py_range_def Let_def algebra_simps)
  then have "int k + 1 \<le> (hi - lo + st) div st" by linarith
  then have "(int k + 1) * st \<le> (hi - lo + st) div st * st"
    using h(2) by (intro mult_right_mono) simp_all
  also have "\<dots> \<le> hi - lo + st"
    using pos_mod_sign [OF h(2), of "hi - lo + st"] div_mult_mod_eq [of "hi - lo + st" st] by linarith
  finally show "x \<le> hi" by (simp add: x distrib_right)
qed

lemma foldl_max_ge: "(x :: int) \<in> insert a (set xs) \<Longrightarrow> x \<le> foldl max a xs"
proof (induction xs arbitrary: a x)
  case (Cons y ys)
  have "max a y \<le> foldl max (max a y) ys" by (intro Cons.IH insertI1)
  with Cons.IH [of x "max a y"] Cons.prems show ?case by auto
qed simp

lemma max_list_ge: "max_list xs = Inr m \<Longrightarrow> x \<in> set xs \<Longrightarrow> x \<le> m"
  using foldl_max_ge by (cases xs) (auto simp: max_list_def)

definition candidate_windows :: "int list param \<Rightarrow> int set" where
  "candidate_windows p = (case p of Scalar ws \<Rightarrow> set ws | PerFactor wss \<Rightarrow> \<Union> (set ` set wss))"

lemma window_values_below:
  assumes "window_values r = Inr xs" and "int_of_float (rp_max r) = Inr hi" and "flt_lt (Fin 0) (rp_step r)"
    and "\<forall>st. int_of_float (rp_step r) = Inr st \<longrightarrow> 0 \<le> st" and "x \<in> set xs"
  shows "x \<le> hi"
proof -
  obtain lo st where st: "int_of_float (rp_step r) = Inr st" "py_range lo (hi + 1) st = Inr xs"
    using assms(1,2) by (auto simp: window_values_def bindR_Inr_iff)
  then have "st \<noteq> 0" by (auto simp: py_range_def)
  with assms(4) st(1) have "0 < st" by force
  then show ?thesis using py_range_le [OF st(2) _ assms(5)] by blast
qed

lemma py_trunc_nonneg: "flt_lt (Fin 0) x \<Longrightarrow> int_of_float x = Inr n \<Longrightarrow> 0 \<le> n"
  by (cases x) (auto simp: int_of_float_def py_trunc_def)

lemma candidate_windows_of:
  "build_param_ranges ar req = Inr (windows, signals) \<Longrightarrow> x \<in> candidate_windows windows \<Longrightarrow>
   \<exists>f \<in> set (rq_factors req). \<exists>xs. window_values (fc_window f) = Inr xs \<and> x \<in> set xs"
proof -
  assume run: "build_param_ranges ar req = Inr (windows, signals)" and x: "x \<in> candidate_windows windows"
  show ?thesis
  proof (cases "\<exists>f. rq_factors req = [f]")
    case True
    with run x show ?thesis by (auto simp: build_param_ranges_def bindR_Inr_iff candidate_windows_def)
  next
    case False
    then obtain wss where wss: "mapR (window_values \<circ> fc_window) (rq_factors req) = Inr wss" "windows = PerFactor wss"
      using run by (auto simp: build_param_ranges_def bindR_Inr_iff split: list.splits)
    then obtain ws where "ws \<in> set wss" "x \<in> set ws" using x by (auto simp: candidate_windows_def)
    have "list_all2 (\<lambda>f ws. window_values (fc_window f) = Inr ws) (rq_factors req) wss"
      using mapR_all2 [OF wss(1)] by simp
    moreover obtain k where "k < length wss" "ws = wss ! k"
      using \<open>ws \<in> set wss\<close> by (auto simp: in_set_conv_nth)
    ultimately have "rq_factors req ! k \<in> set (rq_factors req)" "window_values (fc_window (rq_factors req ! k)) = Inr ws"
      by (simp_all add: list_all2_conv_all_nth)
    with \<open>x \<in> set ws\<close> show ?thesis by blast
  qed
qed

text \<open>Loaded series, more than one, all reach over the requested range.\<close>

definition all_span :: "(string \<Rightarrow> py_exn + int) \<Rightarrow> (string \<times> int frame) list \<Rightarrow> string \<Rightarrow> string \<Rightarrow> bool" where
  "all_span T d s e \<longleftrightarrow>
     (\<forall>(k, fr) \<in> set d. f_index fr \<noteq> []
        \<and> (\<forall>a. T s = Inr a \<longrightarrow> (\<exists>t \<in> set (f_index fr). t \<le> a))
        \<and> (\<forall>b. T e = Inr b \<longrightarrow> (\<exists>t \<in> set (f_index fr). b \<le> t)))"

lemma enforce_date_sync_spans:
  assumes "enforce_date_sync T d s e = Inr u" and "1 < length d"
  shows "all_span T d s e"
proof -
  let ?starts = "map (\<lambda>(nm, fr). (nm, fst (series_bounds fr))) d"
    and ?ends = "map (\<lambda>(nm, fr). (nm, snd (series_bounds fr))) d"
  have ne: "find (\<lambda>(nm, fr). f_index fr = []) d = None"
    using assms
    by (cases "find (\<lambda>(nm, fr). f_index fr = []) d") (auto simp: enforce_date_sync_def bindR_Inr_iff)
  obtain a b where ab: "T s = Inr a" "T e = Inr b"
    and lim: "Max (snd ` set ?starts) \<le> a" "b \<le> Min (snd ` set ?ends)"
    using assms by (auto simp: enforce_date_sync_def bindR_Inr_iff Let_def not_less ne split: if_splits)
  have "f_index fr \<noteq> [] \<and> (\<exists>t \<in> set (f_index fr). t \<le> a) \<and> (\<exists>t \<in> set (f_index fr). b \<le> t)"
    if k: "(k, fr) \<in> set d" for k fr
  proof -
    have i: "f_index fr \<noteq> []" using ne k by (auto simp: find_None_iff)
    have "fst (series_bounds fr) \<in> snd ` set ?starts" "snd (series_bounds fr) \<in> snd ` set ?ends"
      using k by force+
    then have "fst (series_bounds fr) \<le> Max (snd ` set ?starts)" "Min (snd ` set ?ends) \<le> snd (series_bounds fr)"
      by (intro Max_ge Min_le; simp)+
    with lim have "Min (set (f_index fr)) \<le> a" "b \<le> Max (set (f_index fr))"
      by (simp_all add: series_bounds_def)
    with i show ?thesis using Min_in [of "set (f_index fr)"] Max_in [of "set (f_index fr)"] by auto
  qed
  with ab show ?thesis by (auto simp: all_span_def)
qed

text \<open>C25: A parameter search only runs on a sample it can score. If \<open>run_optimize\<close> answers, the request's
  series were loaded; when there are several, each of them reaches over the requested range; and
  for every window the search may try, on ranges that step upwards, the traded series has enough
  bars left after the warm-up for the configured minimum of observations. The answer is the
  search's on exactly these series, this strategy and these candidates.\<close>

theorem search_sample_scoreable:
  assumes "run_optimize env lib req w = (Inr r, w')"
    and "\<forall>f \<in> set (rq_factors req). flt_lt (Fin 0) (rp_step (fc_window f))"
  shows "\<exists>d v main mo c windows signals. build_data_dict env req w = (Inr d, v)
    \<and> (1 < length d \<longrightarrow> all_span (fe_time env) d (rq_start req) (rq_end req))
    \<and> map_of d (rq_symbol req) = Some main \<and> min_metric_obs env = Inr mo
    \<and> build_config (fe_get env) (lib_sid lib) req = Inr c
    \<and> build_param_ranges (lib_arange lib) req = Inr (windows, signals)
    \<and> (\<forall>x \<in> candidate_windows windows. x + mo \<le> int (length (f_index main)))
    \<and> search_response lib (map_of d) c windows signals req mo = Inr r"
proof -
  obtain d v c windows signals mo where d: "build_data_dict env req w = (Inr d, v)"
    and guard: "require_scoreable_sample env d req = Inr ()"
    and c: "build_config (fe_get env) (lib_sid lib) req = Inr c"
    and ranges: "build_param_ranges (lib_arange lib) req = Inr (windows, signals)"
    and mo: "min_metric_obs env = Inr mo"
    and r: "search_response lib (map_of d) c windows signals req mo = Inr r"
    using assms(1) by (auto simp: run_optimize_def bindC_Inr_iff liftR_Inr)
  obtain main hs m where main: "map_of d (rq_symbol req) = Some main"
    and hs: "mapR (\<lambda>f. int_of_float (rp_max (fc_window f))) (rq_factors req) = Inr hs" "max_list hs = Inr m"
    and need: "m + mo \<le> int (length (f_index main))"
    using guard mo
    by (auto simp: require_scoreable_sample_def bindR_Inr_iff lookup_frame_def Let_def
        split: option.splits if_splits)
  have "x + mo \<le> int (length (f_index main))" if x: "x \<in> candidate_windows windows" for x
  proof -
    obtain f xs where f: "f \<in> set (rq_factors req)" "window_values (fc_window f) = Inr xs" "x \<in> set xs"
      using candidate_windows_of [OF ranges x] by blast
    obtain k where k: "k < length (rq_factors req)" "f = rq_factors req ! k"
      using f(1) by (auto simp: in_set_conv_nth)
    then obtain h where h: "int_of_float (rp_max (fc_window f)) = Inr h" "h \<in> set hs"
      using mapR_nth [OF hs(1), of k] by (auto simp: in_set_conv_nth)
    have "x \<le> h"
      using window_values_below [OF f(2) h(1) _ _ f(3)] assms(2) f(1) py_trunc_nonneg by blast
    also have "h \<le> m" by (rule max_list_ge [OF hs(2) h(2)])
    finally show ?thesis using need by simp
  qed
  moreover have "1 < length d \<longrightarrow> all_span (fe_time env) d (rq_start req) (rq_end req)"
    using d enforce_date_sync_spans by (auto simp: build_data_dict_def bindC_Inr_iff liftR_Inr)
  ultimately show ?thesis using d c ranges mo r main by blast
qed

text \<open>
  The two guards disagree on the tail: an exchange series may end one bar before the requested end,
  but with a second series in the request the same series is refused.
\<close>

lemma date_sync_refuses_open_bar:
  assumes "1 < length d" and "(k, fr) \<in> set d" and "T e = Inr b" and "\<forall>t \<in> set (f_index fr). t < b"
  shows "enforce_date_sync T d s e \<noteq> Inr ()"
proof
  assume "enforce_date_sync T d s e = Inr ()"
  from enforce_date_sync_spans [OF this assms(1)] assms(2-4) show False by (fastforce simp: all_span_def)
qed

section \<open>Live evaluation and back-test read the same series\<close>

lemma truthy_SomeE: "truthy x \<Longrightarrow> \<exists>s. x = Some s \<and> s \<noteq> []"
  by (cases x) (auto simp: truthy_iff)

lemma source_key_cusip: "source_key c f = (case factor_cusip f of Some k \<Rightarrow> k | None \<Rightarrow> cf_cusip c)"
proof -
  have "truthy x \<Longrightarrow> x \<noteq> None" for x by (auto dest: truthy_SomeE)
  then show ?thesis by (auto simp: source_key_def factor_cusip_def opt_or_def split: option.split)
qed

definition from_source ::
  "'v fetch_env \<Rightarrow> 'a bt_request_scheme \<Rightarrow> (string \<times> string) list \<Rightarrow> (string \<times> int frame) list \<Rightarrow> bool" where
  "from_source env req srcs d \<longleftrightarrow>
     map fst d = map fst srcs \<and> distinct (map fst d)
     \<and> (\<forall>k fr. (k, fr) \<in> set d \<longrightarrow>
          (\<exists>ds v v'. map_of srcs k = Some ds \<and> fetch_series env req k ds v = (Inr fr, v')))"

lemma from_source_snoc:
  assumes "from_source env req srcs d" and "k \<notin> fst ` set d"
    and "fetch_series env req k ds v = (Inr fr, v')"
  shows "from_source env req (srcs @ [(k, ds)]) (d @ [(k, fr)])"
proof -
  have keys: "map fst d = map fst srcs" using assms(1) by (simp add: from_source_def)
  then have new: "k \<notin> fst ` set srcs" using assms(2) by (metis list.set_map)
  then have none: "map_of srcs k = None" by (simp add: map_of_eq_None_iff)
  have "\<exists>ds' u u'. map_of (srcs @ [(k, ds)]) j = Some ds' \<and> fetch_series env req j ds' u = (Inr fr', u')"
    if j: "(j, fr') \<in> set (d @ [(k, fr)])" for j fr'
  proof (cases "(j, fr') \<in> set d")
    case True
    then obtain ds' u u' where "map_of srcs j = Some ds'" "fetch_series env req j ds' u = (Inr fr', u')"
      using assms(1) unfolding from_source_def by blast
    moreover from this(1) none have "j \<noteq> k" by auto
    ultimately have "map_of (srcs @ [(k, ds)]) j = Some ds'" by (simp add: map_add_def)
    with \<open>fetch_series env req j ds' u = (Inr fr', u')\<close> show ?thesis by blast
  next
    case False
    with j have "j = k" "fr' = fr" by auto
    moreover have "map_of (srcs @ [(k, ds)]) k = Some ds" using none by (simp add: map_add_def)
    ultimately show ?thesis using assms(3) by blast
  qed
  moreover have "distinct (map fst (d @ [(k, fr)]))"
    using assms(1) new keys by (simp add: from_source_def)
  ultimately show ?thesis using keys by (simp add: from_source_def)
qed

lemma load_factors_sources:
  assumes "load_factors env req fs d w = (Inr d', w')" and "from_source env req srcs d"
    and "cf_cusip c \<in> set (map fst d)"
  shows "from_source env req
      (foldl (\<lambda>d f. setdefault (source_key c f) (str_or_default (fc_source f) (rq_source req)) d) srcs fs) d'
    \<and> set (map fst d') = set (map fst d) \<union> {k. \<exists>f \<in> set fs. factor_cusip f = Some k}"
  using assms
proof (induction fs arbitrary: d srcs w)
  case Nil
  then show ?case by simp
next
  case (Cons f fs)
  let ?ds = "str_or_default (fc_source f) (rq_source req)"
  have keys: "fst ` set srcs = fst ` set d" using Cons.prems(2) by (metis from_source_def list.set_map)
  show ?case
  proof (cases "factor_cusip f = None \<or> the (factor_cusip f) \<in> fst ` set d")
    case True
    then have "setdefault (source_key c f) ?ds srcs = srcs"
      using Cons.prems(3) by (cases "factor_cusip f") (simp_all add: setdefault_def source_key_cusip keys)
    moreover have "load_factors env req fs d w = (Inr d', w')"
      using Cons.prems(1) True by (auto split: option.splits)
    moreover have "set (map fst d) \<union> {k. \<exists>g \<in> set (f # fs). factor_cusip g = Some k}
        = set (map fst d) \<union> {k. \<exists>g \<in> set fs. factor_cusip g = Some k}"
      using True by (cases "factor_cusip f") (simp_all, blast)
    ultimately show ?thesis using Cons.IH [OF _ Cons.prems(2,3)] by simp
  next
    case False
    then obtain k where k: "factor_cusip f = Some k" "k \<notin> fst ` set d" by auto
    obtain fr w1 where fr: "fetch_series env req k ?ds w = (Inr fr, w1)"
      and rest: "load_factors env req fs (d @ [(k, fr)]) w1 = (Inr d', w')"
      using Cons.prems(1) k by (auto simp: bindC_Inr_iff)
    have src: "setdefault (source_key c f) ?ds srcs = srcs @ [(k, ?ds)]"
      using k by (simp add: setdefault_def source_key_cusip keys)
    have "from_source env req (srcs @ [(k, ?ds)]) (d @ [(k, fr)])"
      by (rule from_source_snoc [OF Cons.prems(2) k(2) fr])
    from Cons.IH [OF rest this] Cons.prems(3) k(1) show ?thesis
      unfolding foldl.simps src by auto
  qed
qed

lemma config_cusips:
  assumes "build_config get sid req = Inr c"
  shows "cf_cusip c = rq_symbol req
    \<and> get_internal_cusips c = insert (rq_symbol req) {k. \<exists>f \<in> set (rq_factors req). factor_cusip f = Some k}"
proof -
  obtain inds sigs subs where subs: "mapR (factor_sub inds sigs) (rq_factors req) = Inr subs" "cf_subs c = subs"
    and main: "cf_cusip c = rq_symbol req"
    using assms by (auto simp: build_config_def bindR_Inr_iff Let_def split: if_splits)
  have "map ss_cusip subs = map factor_cusip (rq_factors req)"
  proof (rule nth_equalityI)
    show len: "length (map ss_cusip subs) = length (map factor_cusip (rq_factors req))"
      using mapR_length [OF subs(1)] by simp
    fix i assume "i < length (map ss_cusip subs)"
    then have "factor_sub inds sigs (rq_factors req ! i) = Inr (subs ! i)"
      using mapR_nth [OF subs(1), of i] len by simp
    with \<open>i < _\<close> len show "map ss_cusip subs ! i = map factor_cusip (rq_factors req) ! i"
      by (cases "subs ! i") (auto simp: factor_sub_def bindR_Inr_iff)
  qed
  then have eq: "ss_cusip ` set subs = factor_cusip ` set (rq_factors req)"
    by (metis list.set_map)
  have "(\<exists>s \<in> set subs. Some k = ss_cusip s) \<longleftrightarrow> (\<exists>f \<in> set (rq_factors req). Some k = factor_cusip f)" for k
    using arg_cong [OF eq, of "\<lambda>S. Some k \<in> S"] by (simp add: image_iff)
  moreover have "set (concat (map (\<lambda>s. case ss_cusip s of Some x \<Rightarrow> [x] | None \<Rightarrow> []) subs))
      = {k. \<exists>s \<in> set subs. Some k = ss_cusip s}"
    by (auto split: option.splits)
  ultimately show ?thesis
    by (simp add: get_internal_cusips_def subs(2) main eq_commute [of "factor_cusip _"])
qed

lemma build_data_dict_sources:
  assumes "build_config get sid req = Inr c" and "build_data_dict env req w = (Inr d, w')"
    and "data_sources c (Some req) = Inr srcs"
  shows "from_source env req srcs d \<and> set (map fst d) = get_internal_cusips c"
proof -
  obtain main_df w1 where main: "fetch_series env req (rq_symbol req) (rq_source req) w = (Inr main_df, w1)"
    and load: "load_factors env req (rq_factors req) [(rq_symbol req, main_df)] w1 = (Inr d, w')"
    using assms(2) by (auto simp: build_data_dict_def bindC_Inr_iff liftR_Inr)
  have c: "cf_cusip c = rq_symbol req" using config_cusips [OF assms(1)] by simp
  have "from_source env req [(rq_symbol req, rq_source req)] [(rq_symbol req, main_df)]"
    using main by (simp add: from_source_def) (metis surj_pair)
  from load_factors_sources [OF load this, of c] show ?thesis
    using assms(3) config_cusips [OF assms(1)] by (simp add: data_sources_def c)
qed

text \<open>C22: A live evaluation reads the series the strategy was fitted on, from the same sources. For a
  strategy saved with its request, the series a back-test of it loads are exactly the symbols of
  the strategy, each once, and each was fetched from the source the live provider path names for
  that symbol. So no symbol of the strategy is without a source live, none is read from another
  provider than in the back-test, and nothing else is read: the symbols a live evaluation asks for
  are the same set, the traded one first and none twice.\<close>

theorem live_reads_backtest_series:
  assumes "build_config get sid req = Inr c" and "build_data_dict env req w = (Inr d, w')"
    and "data_sources c (Some req) = Inr srcs"
  shows "distinct (map fst d) \<and> set (map fst d) = get_internal_cusips c
    \<and> dom (map_of srcs) = get_internal_cusips c
    \<and> (\<forall>k fr. (k, fr) \<in> set d \<longrightarrow> (\<exists>v v'. fetch_series env req k (the (map_of srcs k)) v = (Inr fr, v')))
    \<and> hd (signal_symbols c) = rq_symbol req \<and> distinct (signal_symbols c)
    \<and> set (signal_symbols c) = get_internal_cusips c"
proof -
  have fin: "finite (get_internal_cusips c)" unfolding get_internal_cusips_def by (intro finite.insertI finite_set)
  have "cf_cusip c \<in> get_internal_cusips c" by (simp add: get_internal_cusips_def)
  then have "set (signal_symbols c) = get_internal_cusips c \<and> distinct (signal_symbols c)"
    using fin by (auto simp: signal_symbols_def)
  moreover have "hd (signal_symbols c) = rq_symbol req"
    using config_cusips [OF assms(1)] by (simp add: signal_symbols_def)
  moreover note build_data_dict_sources [OF assms]
  moreover from this have "dom (map_of srcs) = get_internal_cusips c"
    unfolding from_source_def dom_map_of_conv_image_fst by (metis list.set_map)
  ultimately show ?thesis unfolding from_source_def by (metis option.sel)
qed

end
