(* ===== verification/LiveProps.thy ===== *)
theory LiveProps
  imports EvalProps
begin

text \<open>
  What the live evaluation guarantees: a position it returns was computed from every series of the
  strategy, each non-empty and asked for far enough back; and where it fails: the refresh of a
  provider's series always raises.
\<close>

section \<open>Every series, far enough back\<close>

lemma load_each_Inr:
  "load_each load ks w = (Inr d, w') \<Longrightarrow>
   map fst d = ks \<and> (\<forall>k fr. (k, fr) \<in> set d \<longrightarrow> (\<exists>v v'. load k v = (Inr fr, v')))"
  by (induction ks arbitrary: w d) (fastforce simp: bindC_Inr_iff)+

lemma value_error_live_Inr [simp]: "value_error_live r = Inr x \<longleftrightarrow> r = Inr x"
  by (auto simp: value_error_live_def split: sum.splits py_exn.splits)

lemma raised_Inr [simp]: "raised r = Inr x \<longleftrightarrow> r = Inr x"
  by (cases r) (simp_all add: raised_def)

lemma calling_Inr: "calling f w = (Inr x, w') \<longleftrightarrow> f w = (Inr x, w')"
  by (auto simp: calling_def split: prod.splits)

lemma max_window_ge: "max_window p = Inr m \<Longrightarrow> x \<in> (case p of Scalar y \<Rightarrow> {y} | PerFactor xs \<Rightarrow> set xs) \<Longrightarrow> x \<le> m"
  by (cases p) (auto simp: max_window_def dest: max_list_ge)

definition windows_of :: "int param \<Rightarrow> int set" where
  "windows_of p = (case p of Scalar y \<Rightarrow> {y} | PerFactor xs \<Rightarrow> set xs)"

lemma latest_known:
  "latest_final_position index fp = Inr (q, t) \<Longrightarrow> q \<noteq> NaN \<and> t \<in> set index"
proof -
  assume h: "latest_final_position index fp = Inr (q, t)"
  let ?z = "filter (\<lambda>(i, p). p \<noteq> NaN) (zip index fp)"
  have "?z \<noteq> []" and "last ?z = (t, q)"
    using h by (auto simp: latest_final_position_def Let_def prod_eq_iff split: if_splits)
  then have "(t, q) \<in> set ?z" by (metis last_in_set)
  then show ?thesis by (auto dest: set_zip_leftD)
qed

lemma live_position_frames:
  assumes "live_position env (Some bars) doc payload w = (Inr (q, t), w')"
  shows "\<exists>get c win sig req d lookback mo main p.
      live_tables (lv_refdata env) = Inr get
    \<and> resolve_config_and_params env get doc payload = Inr (c, win, sig, req)
    \<and> set (map fst d) = get_internal_cusips c \<and> distinct (map fst d)
    \<and> (\<forall>k fr. (k, fr) \<in> set d \<longrightarrow> f_index fr \<noteq> [] \<and> (\<exists>v v'. bars k lookback v = (Inr fr, v')))
    \<and> (\<forall>x \<in> windows_of win. 0 \<le> x \<longrightarrow> x + 60 \<le> lookback)
    \<and> live_min_obs env = Inr mo \<and> map_of d (cf_cusip c) = Some main
    \<and> new_performance c (map_of d) (Some win) (Some sig) None mo = Inr p
    \<and> compute_latest_position (lv_kernels env) p = Inr (q, t)
    \<and> q \<noteq> NaN \<and> t \<in> set (f_index main)"
proof -
  obtain get c win sig req load d w1 w2 where get: "live_tables (lv_refdata env) = Inr get"
    and cfg: "resolve_config_and_params env get doc payload = Inr (c, win, sig, req)"
    and ch: "choose_loader env get (Some bars) c win req w = (Inr load, w1)"
    and d: "build_data_dict_for_signal c load w1 = (Inr d, w2)"
    and pos: "position_on env c win sig d = Inr (q, t)"
    using assms by (auto simp: live_position_def bindC_Inr_iff liftR_Inr)
  obtain lookback where lb: "live_lookback_bars win = Inr lookback"
    and load: "load = (\<lambda>cusip. calling (bars cusip lookback))"
    using ch by (auto simp: choose_loader_def bindC_Inr_iff liftR_Inr)
  obtain d' w3 where each: "load_each load (signal_symbols c) w1 = (Inr d', w3)"
    and keep: "(case find (\<lambda>(k, fr). f_index fr = []) d' of
         Some (k, _) \<Rightarrow> raiseC (live_error (''No data returned for '' @ py_repr k))
       | None \<Rightarrow> returnC d') w3 = (Inr d, w2)"
    using d unfolding build_data_dict_for_signal_def bindC_Inr_iff by blast
  then have ne: "find (\<lambda>(k, fr). f_index fr = []) d' = None" and dd: "d' = d"
    by (cases "find (\<lambda>(k, fr). f_index fr = []) d'"; auto)+
  have keys: "map fst d = signal_symbols c"
    and served: "\<And>k fr. (k, fr) \<in> set d \<Longrightarrow> \<exists>v v'. bars k lookback v = (Inr fr, v')"
    using load_each_Inr [OF each] unfolding dd load calling_Inr by auto
  have fin: "finite (get_internal_cusips c)" unfolding get_internal_cusips_def by (intro finite.insertI finite_set)
  have "cf_cusip c \<in> get_internal_cusips c" by (simp add: get_internal_cusips_def)
  then have symbols: "set (map fst d) = get_internal_cusips c" "distinct (map fst d)"
    unfolding keys using fin by (auto simp: signal_symbols_def)
  have full: "f_index fr \<noteq> []" if "(k, fr) \<in> set d" for k fr
    using ne that unfolding dd find_None_iff by auto
  have look: "x + 60 \<le> lookback" if "x \<in> windows_of win" "0 \<le> x" for x
  proof -
    obtain m where "max_window win = Inr m" "lookback = m * 3 + 60"
      using lb by (auto simp: live_lookback_bars_def bindR_Inr_iff)
    with max_window_ge [of win m x] that show ?thesis by (auto simp: windows_of_def split: param.splits)
  qed
  obtain mo p where mo: "live_min_obs env = Inr mo"
    and p: "new_performance c (map_of d) (Some win) (Some sig) None mo = Inr p"
    and q: "compute_latest_position (lv_kernels env) p = Inr (q, t)"
    using pos by (auto simp: position_on_def bindR_Inr_iff)
  obtain main where main: "map_of d (cf_cusip c) = Some main" "pf_main p = main"
    using p by (auto simp: new_performance_def bindR_Inr_iff lookup_frame_def split: option.splits)
  have "q \<noteq> NaN \<and> t \<in> set (f_index main)"
    using q main(2) by (auto simp: compute_latest_position_def bindR_Inr_iff dest: latest_known)
  with get cfg symbols served full look mo main(1) p q show ?thesis by blast
qed

text \<open>C23: A live position rests on complete series. When \<open>compute_latest_position\<close> answers for a venue's
  bars, there is a frame for every symbol the strategy reads and for no other; each was served by
  the bar loader for one common look-back, which is at least every window of the strategy plus the
  sixty bars of warm-up, and is not empty; and the answer is the engine's latest position on exactly
  these frames with the stored parameters: a known value, at a bar of the traded series.\<close>

theorem live_position_complete:
  assumes "live_position env (Some bars) doc payload w = (Inr (q, t), w')"
  shows "\<exists>get c win sig req d lookback mo main p.
      live_tables (lv_refdata env) = Inr get
    \<and> resolve_config_and_params env get doc payload = Inr (c, win, sig, req)
    \<and> set (map fst d) = get_internal_cusips c \<and> distinct (map fst d)
    \<and> (\<forall>k fr. (k, fr) \<in> set d \<longrightarrow> f_index fr \<noteq> [] \<and> (\<exists>v v'. bars k lookback v = (Inr fr, v')))
    \<and> (\<forall>x \<in> windows_of win. 0 \<le> x \<longrightarrow> x + 60 \<le> lookback)
    \<and> live_min_obs env = Inr mo \<and> map_of d (cf_cusip c) = Some main
    \<and> new_performance c (map_of d) (Some win) (Some sig) None mo = Inr p
    \<and> compute_latest_position (lv_kernels env) p = Inr (q, t)
    \<and> q \<noteq> NaN \<and> t \<in> set (f_index main)"
  by (rule live_position_frames [OF assms])

section \<open>The provider path cannot refresh\<close>

lemma same_tables_call:
  assumes "bindC f g w = (r, w')"
    and "\<And>x v. f w = (x, v) \<Longrightarrow> same_tables (fst w) (fst v)"
    and "\<And>x v u y. f w = (Inr x, v) \<Longrightarrow> g x v = (y, u) \<Longrightarrow> same_tables (fst v) (fst u)"
  shows "same_tables (fst w) (fst w')"
proof -
  obtain x v where fw: "f w = (x, v)" by (metis surj_pair)
  show ?thesis
  proof (cases x)
    case (Inl e)
    with assms(1) fw have "w' = v" by (simp add: bindC_def)
    with assms(2) [OF fw] show ?thesis by simp
  next
    case (Inr y)
    with assms(1) fw have "g y v = (r, w')" by (simp add: bindC_def)
    with assms(2) [OF fw] assms(3) [OF fw [unfolded Inr]] show ?thesis by (blast intro: same_tables_trans)
  qed
qed

lemma same_tables_liftR: "liftR x w = (r, w') \<Longrightarrow> same_tables (fst w) (fst w')"
  by (auto simp: liftR_def)

lemma lookup_current_same: "lookup_current app metric iv cusip w = (r, w') \<Longrightarrow> same_tables (fst w) (fst w')"
  unfolding lookup_current_def
  by (erule same_tables_call)
    (auto simp: on_api_def Let_def split: option.splits db_fault.splits list.splits prod.splits)

lemma miss_lookup_same:
  assumes "proc_error_is_miss (lookup_current app metric iv cusip) w = (r, w')"
  shows "same_tables (fst w) (fst w')"
proof -
  obtain x v where fw: "lookup_current app metric iv cusip w = (x, v)" by (metis surj_pair)
  with assms have "w' = v" by (auto simp: proc_error_is_miss_def split: sum.splits bt_exn.splits)
  with lookup_current_same [OF fw] show ?thesis by simp
qed

lemma read_payload_same:
  assumes "read_payload T rd app metric cusip s e iv w = (r, w')"
  shows "same_tables (fst w) (fst w')"
  using assms unfolding read_payload_def
  by (elim same_tables_call same_tables_liftR; assumption?)
    (auto split: option.splits if_splits
      elim!: same_tables_call dest!: same_tables_liftR dest: miss_lookup_same)

lemma live_fetch_env_sel [simp]:
  "fe_get (live_fetch_env env get) = get" "fe_catalog (live_fetch_env env get) = None"
  "fe_reader (live_fetch_env env get) = lv_refdata env" "fe_has_cache (live_fetch_env env get)"
  "fe_time (live_fetch_env env get) = lv_time env" "fe_uuid4 (live_fetch_env env get) = lv_uuid4 env"
  by (simp_all add: live_fetch_env_def)

lemma bindC_liftR [simp]:
  "bindC (liftR (Inr x)) g = g x" "bindC (liftR (Inl e)) g w = (Inl e, w)"
  by (simp_all add: bindC_def liftR_def fun_eq_iff)

text \<open>\<open>_provider_fetch\<close> asks the plain dict for a method only the reader has.\<close>

lemma provider_fetch_live:
  "\<exists>x. provider_fetch (live_fetch_env env get) app src ticker nm s e w = (Inl x, w)"
  by (auto simp: provider_fetch_def bindC_def liftR_def metric_path_of_def live_fetch_env_def
      split: option.split sum.split)

lemma refresh_payload_failing:
  assumes "\<And>s e w. \<exists>x. fetcher s e w = (Inl x, w)"
    and "refresh_payload T rd u app metric cusip s e fetcher grp iv w = (r, w')"
  shows "isl r \<and> same_tables (fst w) (fst w')"
proof
  have never: "fetcher s e v \<noteq> (Inr y, v')" for s e v y v'
    using assms(1) [of s e v] by auto
  have unchanged: "fetcher s e v = (x, v') \<Longrightarrow> v' = v" for s e v x v'
    using assms(1) [of s e v] by auto
  show "isl r"
  proof (cases r)
    case (Inr x)
    from assms(2) never show ?thesis
      unfolding refresh_payload_def bindC_Inr_iff Inr by blast
  qed simp
  show "same_tables (fst w) (fst w')"
    using assms(2) unfolding refresh_payload_def
    by (elim same_tables_call same_tables_liftR; assumption?)
      (auto simp: never elim!: same_tables_call dest!: same_tables_liftR
        dest: lookup_current_same unchanged)
qed

lemma fetch_df_live:
  assumes "fetch_df (live_fetch_env env get) k s e ds refresh None nm w = (r, w')"
  shows "same_tables (fst w) (fst w')
    \<and> (\<forall>fr. r = Inr fr \<longrightarrow> \<not> refresh \<and> (\<exists>app i m. app_named (live_fetch_env env get) ds = Inr app
        \<and> \<not> is_exchange app \<and> app_id_of app = Inr i
        \<and> resolve_app_metric_id (lv_refdata env) i nm = Inr (Some m)
        \<and> read_payload (lv_time env) (lv_refdata env) i m (Some k) s e None w = (Inr fr, w')))"
proof -
  let ?env = "live_fetch_env env get"
  have fetcher: "\<exists>x. bindC (provider_fetch ?env app src t nm s e) (\<lambda>df. returnC (Some df)) v = (Inl x, v)"
    for app src t s e and v :: "api_db \<times> 'a"
    using provider_fetch_live [of env get app src t nm s e v] by (auto simp: bindC_def)
  have cached: "same_tables (fst w) (fst w') \<and> (\<forall>fr. r = Inr fr \<longrightarrow> \<not> refresh \<and> (\<exists>i m. app_id_of app = Inr i
        \<and> resolve_app_metric_id (lv_refdata env) i nm = Inr (Some m)
        \<and> read_payload (lv_time env) (lv_refdata env) i m (Some k) s e None w = (Inr fr, w')))"
    if run: "cached_or_fetched ?env app src k t s e refresh nm w = (r, w')" for app src t
  proof -
    obtain db v where w: "w = (db, v)" by (cases w)
    show ?thesis
    proof (cases "app_id_of app")
      case (Inl x)
      with run show ?thesis by (auto simp: cached_or_fetched_def)
    next
      case i: (Inr i)
      show ?thesis
      proof (cases "resolve_app_metric_id (lv_refdata env) i nm")
        case (Inl x)
        with run i show ?thesis by (auto simp: cached_or_fetched_def of_py_def)
      next
        case m: (Inr m)
        show ?thesis
        proof (cases m)
          case None
          with run i m provider_fetch_live [of env get app src t nm s e w] show ?thesis
            by (auto simp: cached_or_fetched_def of_py_def)
        next
          case (Some mid)
          show ?thesis
          proof (cases refresh)
            case False
            with run i m Some show ?thesis
              by (auto simp: cached_or_fetched_def of_py_def dest: read_payload_same)
          next
            case True
            obtain u v' where u: "lv_uuid4 env v = (u, v')" by (metis surj_pair)
            from run i m Some True have
              "refresh_payload (lv_time env) (lv_refdata env) u i mid (Some k) s e
                 (\<lambda>s e. bindC (provider_fetch ?env app src t nm s e) (\<lambda>df. returnC (Some df))) None None (db, v')
               = (r, w')"
              by (simp add: cached_or_fetched_def of_py_def w u)
            from refresh_payload_failing [OF fetcher this] show ?thesis by (auto simp: w)
          qed
        qed
      qed
    qed
  qed
  show ?thesis
  proof (cases "app_named ?env ds")
    case (Inl x)
    with assms show ?thesis by (auto simp: fetch_df_def)
  next
    case app: (Inr app)
    show ?thesis
    proof (cases "vendor_of ?env app k")
      case (Inl x)
      with assms app show ?thesis by (auto simp: fetch_df_def)
    next
      case vendor: (Inr vendor)
      show ?thesis
      proof (cases "is_exchange app")
        case True
        with assms app vendor show ?thesis by (auto simp: fetch_df_def)
      next
        case False
        show ?thesis
        proof (cases "bindR (of_py (text_item ''class_name'' app)) (fe_source ?env)")
          case (Inl x)
          with assms app vendor False show ?thesis
            by (cases "of_py (text_item ''class_name'' app)") (auto simp: fetch_df_def daily_only_def)
        next
          case (Inr src)
          then obtain cls where "of_py (text_item ''class_name'' app) = Inr cls" "fe_source ?env cls = Inr src"
            by (auto simp only: bindR_Inr_iff)
          with assms app vendor False have
            "cached_or_fetched ?env app src k (if truthy vendor then the vendor else k) s e refresh nm w = (r, w')"
            by (simp add: fetch_df_def daily_only_def)
          from cached [OF this] app False show ?thesis by blast
        qed
      qed
    qed
  qed
qed

text \<open>On the provider path a live evaluation never fetches and never stores, against the comment
  that says a stale cache is refreshed. Whatever the tables, the providers and the clock do, the
  loader leaves the request tables as they are, and if it returns a frame, that frame is what the
  request cache holds for the symbol, the strategy's own source, its price metric and the default
  interval, over the whole requested range: the refresh that a cache miss starts always raises,
  because the plain dict of tables the service passes for the reader has no method to find the
  provider's metric path. So an evaluation on the provider path succeeds only while something else,
  a back-test or a scheduled provider fill, has stored the range.\<close>

theorem live_provider_serves_cache:
  assumes "provider_load (live_fetch_env env get) sources s e k w = (r, w')"
  shows "same_tables (fst w) (fst w')
    \<and> (\<forall>fr. r = Inr fr \<longrightarrow> (\<exists>ds app i m. map_of sources k = Some ds
        \<and> app_named (live_fetch_env env get) ds = Inr app \<and> \<not> is_exchange app \<and> app_id_of app = Inr i
        \<and> resolve_app_metric_id (lv_refdata env) i ''price'' = Inr (Some m)
        \<and> read_payload (lv_time env) (lv_refdata env) i m (Some k) s e None w = (Inr fr, w')))"
proof (cases "map_of sources k")
  case None
  with assms show ?thesis by (auto simp: provider_load_def)
next
  case (Some ds)
  let ?env = "live_fetch_env env get"
  obtain x v where first: "fetch_df ?env k s e ds False None ''price'' w = (x, v)" by (metis surj_pair)
  obtain y u where again: "fetch_df ?env k s e ds True None ''price'' v = (y, u)" by (metis surj_pair)
  have y: "isl y" using fetch_df_live [OF again] by (cases y) auto
  have s: "same_tables (fst w) (fst v)" "same_tables (fst w) (fst u)"
    using fetch_df_live [OF first] fetch_df_live [OF again] by (blast intro: same_tables_trans)+
  have "w' = v \<and> (\<forall>fr. r = Inr fr \<longrightarrow> x = Inr fr) \<or> w' = u \<and> isl r"
    using assms first again y
    by (cases x; cases y) (auto simp: provider_load_def Some calling_def raised_def split: bt_exn.splits)
  then show ?thesis
    using s fetch_df_live [OF first] Some by auto
qed

end
