(* ===== verification/LiveSignal.thy ===== *)
theory LiveSignal
  imports LiveApply LiveProps
begin

text \<open>
  The apply cycle with the real evaluation of its strategy: \<^verbatim>\<open>compute_signal\<close> of
  \<^verbatim>\<open>quant/trade/live_apply.py\<close> calls \<^verbatim>\<open>compute_latest_position\<close> of
  \<^verbatim>\<open>quant/strategy/live_service.py\<close> with the loader \<^verbatim>\<open>quant/trade/bar_source.py\<close> binds.
\<close>

section \<open>The evaluation as the cycle calls it\<close>

text \<open>
  \<open>app\<close> is the deployment's venue and \<open>svc\<close> its bar service. How the cycle sees an exception of the
  evaluation is the parameter \<open>err\<close>.
\<close>

definition evaluated_position ::
  "(live_err \<Rightarrow> live_exn) \<Rightarrow> 'v live_env \<Rightarrow> 'v bar_service \<Rightarrow> int \<Rightarrow> row \<Rightarrow> json \<Rightarrow> bar_loader
   \<Rightarrow> (api_db \<times> 'v, live_exn, flt \<times> int) call" where
  "evaluated_position err L svc app doc payload loader =
     (\<lambda>w. case live_position L
             (case loader of ProviderBars \<Rightarrow> None | VenueBars iv \<Rightarrow> Some (window_loader svc iv app))
             doc payload w of
        (r, w') \<Rightarrow> (map_sum err id r, w'))"

definition with_evaluation ::
  "(live_err \<Rightarrow> live_exn) \<Rightarrow> 'v live_env \<Rightarrow> 'v bar_service \<Rightarrow> int \<Rightarrow> (api_db \<times> 'v) apply_env
   \<Rightarrow> (api_db \<times> 'v) apply_env" where
  "with_evaluation err L svc app env = env\<lparr>latest_position := evaluated_position err L svc app\<rparr>"

lemma with_evaluation_sel [simp]:
  "latest_position (with_evaluation err L svc app env) = evaluated_position err L svc app"
  "app_ids (with_evaluation err L svc app env) = app_ids env"
  "strategy_config (with_evaluation err L svc app env) = strategy_config env"
  "result_payload (with_evaluation err L svc app env) = result_payload env"
  "clock (with_evaluation err L svc app env) = clock env"
  "decrypt_credential (with_evaluation err L svc app env) = decrypt_credential env"
  by (simp_all add: with_evaluation_def)

lemma evaluated_position_Inr:
  "evaluated_position err L svc app doc payload loader w = (Inr x, w') \<longleftrightarrow>
   live_position L (case loader of ProviderBars \<Rightarrow> None | VenueBars iv \<Rightarrow> Some (window_loader svc iv app))
     doc payload w = (Inr x, w')"
  by (auto simp: evaluated_position_def split: prod.splits sum.splits) (metis id_apply map_sum.simps(2) sum.distinct(1) map_sum.simps(1) sum.inject(2) old.sum.exhaust)+

section \<open>A window of bars\<close>

lemma load_window_enough:
  "load_window svc k lookback iv app now b w = (Inr rows, w') \<Longrightarrow> required_bars lookback \<le> int (length rows)"
  by (auto simp: load_window_def bindC_Inr_iff Let_def split: if_splits)

lemma window_loader_served:
  assumes "window_loader svc iv app k lookback w = (Inr fr, w')"
  shows "\<exists>rows v v'. load_window svc k lookback iv app None True v = (Inr rows, v') \<and> fr = frame_of_rows rows
    \<and> required_bars lookback \<le> int (length (f_index fr))"
proof -
  obtain db v where "w = (db, v)" by (cases w)
  with assms obtain rows v1 where run: "load_window svc k lookback iv app None True v = (Inr rows, v1)"
    and fr: "fr = frame_of_rows rows"
    by (auto simp: window_loader_def on_market_Inr bindC_Inr_iff)
  with load_window_enough [OF run] show ?thesis by (auto simp: frame_of_rows_def)
qed

section \<open>What the cycle trades on\<close>

lemma resolve_on_venue:
  assumes "exchange_id_for_app ids app \<noteq> None"
    and "resolve_signal_source ids has app sched fitted what = Inr src"
  shows "src_loader src = VenueBars (src_interval src)
    \<and> src_interval src = (case sched of Some i \<Rightarrow> i | None \<Rightarrow> fitted)"
  using assms by (auto simp: resolve_signal_source_def Let_def split: if_splits option.splits)

lemma evaluated_Inr: "evaluated r = Inr x \<longleftrightarrow> r = Inr x"
  by (auto simp: evaluated_def split: sum.splits live_exn.splits)

lemma compute_signal_venue:
  assumes "compute_signal env dep w = (Inr dec, w')" and "exchange_id_for_app (app_ids env) (app_id dep) \<noteq> None"
  shows "\<exists>doc payload fitted u v v'. strategy_config env (strategy_id dep) (strategy_vid dep) w = (Inr (Some doc), u)
    \<and> result_payload env (strategy_id dep) (strategy_vid dep) u = (Inr payload, v)
    \<and> fitted_interval_id doc = Inr fitted
    \<and> sr_interval dec = (case schedule_tm_interval_id dep of Some i \<Rightarrow> i | None \<Rightarrow> fitted)
    \<and> latest_position env doc payload (VenueBars (sr_interval dec)) v
        = (Inr (sr_signal dec, sr_bar_timestamp dec), v')"
proof -
  obtain doc payload src u v where
    cfg: "strategy_config env (strategy_id dep) (strategy_vid dep) w = (Inr (Some doc), u)" and
    pay: "result_payload env (strategy_id dep) (strategy_vid dep) u = (Inr payload, v)" and
    src: "bindR (fitted_interval_id doc) (\<lambda>fitted.
        resolve_signal_source (app_ids env) (has_price_bars env) (app_id dep)
          (schedule_tm_interval_id dep) fitted (''deployment '' @ nat_str (deployment_id dep))) = Inr src"
    and run: "(case latest_position env doc payload (src_loader src) v of (x, v') \<Rightarrow>
        (bindR (evaluated x) (\<lambda>(signal, as_of).
           Inr \<lparr>sr_signal = signal, sr_bar_source = src_label src,
                sr_bar_timestamp = as_of, sr_interval = src_interval src\<rparr>), v')) = (Inr dec, w')"
    using assms(1) by (auto simp: compute_signal_def bindC_Inr_iff raise_or_Inr split: option.splits)
  obtain fitted where fitted: "fitted_interval_id doc = Inr fitted"
    and res: "resolve_signal_source (app_ids env) (has_price_bars env) (app_id dep)
          (schedule_tm_interval_id dep) fitted (''deployment '' @ nat_str (deployment_id dep)) = Inr src"
    using src by (auto simp: bindR_Inr_iff)
  obtain q t v' where lp: "latest_position env doc payload (src_loader src) v = (Inr (q, t), v')"
    and dec: "dec = \<lparr>sr_signal = q, sr_bar_source = src_label src, sr_bar_timestamp = t, sr_interval = src_interval src\<rparr>"
    using run by (auto simp: bindR_Inr_iff evaluated_Inr split: prod.splits)
  from resolve_on_venue [OF assms(2) res] cfg pay fitted lp show ?thesis
    unfolding dec
    by (intro exI [of _ doc] exI [of _ payload] exI [of _ fitted] exI [of _ u] exI [of _ v] exI [of _ v']) simp
qed

text \<open>C5: A live order follows the engine's latest position on complete bars of its venue. When a cycle of
  a deployment whose broker is an exchange returns a report, on a database that answers, the one
  intent it recorded and the report carry the signal the cycle computed after taking its keys: the
  engine's latest position, known and at a bar of the traded series, for the configuration stored
  for the deployment's strategy version and the result payload stored for it, resolved over the
  reference tables, under the configured minimum of observations. The series it was
  computed from are one window per symbol of the strategy and no other, all read by the bar
  service of that exchange on the interval the intent records, which is the schedule's, or without
  one the fitted one; every window has at least the required share of the look-back, which
  exceeds each of the strategy's windows by the sixty bars of warm-up or more.\<close>

theorem live_intent_is_engines:
  assumes "on_file uid dep db" and "exchange_id_for_app (app_ids env) (app_id dep) \<noteq> None"
    and "live_run (with_evaluation err L svc (app_id dep) env) uid dep (db, w) = (Inr rep, (db', w'))"
  shows "\<exists>w1 ks w2 doc w3 payload w4 i fitted get c win sig req d lookback mo main p t.
      w1 = snd (clock env w)
    \<and> decrypt_credential env uid (api_credential_id dep) w1 = (Inr (Some ks), w2)
    \<and> strategy_config env (strategy_id dep) (strategy_vid dep) w2 = (Inr (Some doc), w3)
    \<and> result_payload env (strategy_id dep) (strategy_vid dep) w3 = (Inr payload, w4)
    \<and> intents db' = i # intents db \<and> rep_signal rep = signal_value i \<and> intent.bar_timestamp i = t
    \<and> fitted_interval_id doc = Inr fitted
    \<and> int_tm_interval_id i = (case schedule_tm_interval_id dep of Some s \<Rightarrow> s | None \<Rightarrow> fitted)
    \<and> live_tables (lv_refdata L) = Inr get
    \<and> resolve_config_and_params L get doc payload = Inr (c, win, sig, req)
    \<and> set (map fst d) = get_internal_cusips c \<and> distinct (map fst d)
    \<and> (\<forall>k fr. (k, fr) \<in> set d \<longrightarrow> required_bars lookback \<le> int (length (f_index fr))
         \<and> (\<exists>rows v v'. load_window svc k lookback (int_tm_interval_id i) (app_id dep) None True v = (Inr rows, v')
              \<and> fr = frame_of_rows rows))
    \<and> (\<forall>x \<in> windows_of win. 0 \<le> x \<longrightarrow> x + 60 \<le> lookback)
    \<and> live_min_obs L = Inr mo \<and> map_of d (cf_cusip c) = Some main
    \<and> new_performance c (map_of d) (Some win) (Some sig) None mo = Inr p
    \<and> compute_latest_position (lv_kernels L) p = Inr (signal_value i, t)
    \<and> signal_value i \<noteq> NaN \<and> t \<in> set (f_index main)"
proof -
  let ?env = "with_evaluation err L svc (app_id dep) env"
  obtain tick_at dec symb out where cyc: "cycle_run ?env uid dep w tick_at dec symb out"
    and ins: "intents db' = intent_of dep dec tick_at # intents db"
    and rep: "rep = report_of dep out symb (sr_signal dec) (sr_bar_source dec)"
    using live_run_diary [OF assms(1,3)] by blast
  obtain w1 ks w2 v1 where clk: "w1 = snd (clock env w)"
    and keys: "decrypt_credential env uid (api_credential_id dep) w1 = (Inr (Some ks), w2)"
    and sig: "compute_signal ?env dep w2 = (Inr dec, v1)"
    using cyc by (auto simp: cycle_run_def)
  obtain doc payload fitted w3 v v' where
    cfgrow: "strategy_config env (strategy_id dep) (strategy_vid dep) w2 = (Inr (Some doc), w3)"
    and pay: "result_payload env (strategy_id dep) (strategy_vid dep) w3 = (Inr payload, v)"
    and fitted: "fitted_interval_id doc = Inr fitted"
    and iv: "sr_interval dec = (case schedule_tm_interval_id dep of Some i \<Rightarrow> i | None \<Rightarrow> fitted)"
    and lp: "live_position L (Some (window_loader svc (sr_interval dec) (app_id dep))) doc payload v
        = (Inr (sr_signal dec, sr_bar_timestamp dec), v')"
    using compute_signal_venue [OF sig] assms(2) by (auto simp: evaluated_position_Inr)
  obtain get c win sg req d lookback mo main p where
    tabs: "live_tables (lv_refdata L) = Inr get" and
    cfg: "resolve_config_and_params L get doc payload = Inr (c, win, sg, req)"
    and syms: "set (map fst d) = get_internal_cusips c" "distinct (map fst d)"
    and frames: "\<forall>k fr. (k, fr) \<in> set d \<longrightarrow> f_index fr \<noteq> []
      \<and> (\<exists>v v'. window_loader svc (sr_interval dec) (app_id dep) k lookback v = (Inr fr, v'))"
    and look: "\<forall>x \<in> windows_of win. 0 \<le> x \<longrightarrow> x + 60 \<le> lookback"
    and mo: "live_min_obs L = Inr mo" and main: "map_of d (cf_cusip c) = Some main"
    and p: "new_performance c (map_of d) (Some win) (Some sg) None mo = Inr p"
    and q: "compute_latest_position (lv_kernels L) p = Inr (sr_signal dec, sr_bar_timestamp dec)"
      "sr_signal dec \<noteq> NaN" "sr_bar_timestamp dec \<in> set (f_index main)"
    using live_position_frames [OF lp] by blast
  have served: "\<forall>k fr. (k, fr) \<in> set d \<longrightarrow> required_bars lookback \<le> int (length (f_index fr))
         \<and> (\<exists>rows v v'. load_window svc k lookback (sr_interval dec) (app_id dep) None True v = (Inr rows, v')
              \<and> fr = frame_of_rows rows)"
    using frames window_loader_served by blast
  have i: "signal_value (intent_of dep dec tick_at) = sr_signal dec"
    "intent.bar_timestamp (intent_of dep dec tick_at) = sr_bar_timestamp dec"
    "int_tm_interval_id (intent_of dep dec tick_at) = sr_interval dec"
    "rep_signal rep = sr_signal dec"
    by (simp_all add: intent_of_def rep report_of_def Let_def)
  show ?thesis
    by (rule exI [of _ "w1"], rule exI [of _ "ks"], rule exI [of _ "w2"], rule exI [of _ "doc"], rule exI
        [of _ "w3"], rule exI [of _ "payload"], rule exI [of _ "v"], rule exI [of _ "intent_of dep
        dec tick_at"], rule exI [of _ "fitted"], rule exI [of _ "get"], rule exI [of _ "c"], rule
        exI [of _ "win"], rule exI [of _ "sg"], rule exI [of _ "req"], rule exI [of _ "d"], rule exI
        [of _ "lookback"], rule exI [of _ "mo"], rule exI [of _ "main"], rule exI [of _ "p"], rule
        exI [of _ "sr_bar_timestamp dec"],
        unfold i, intro conjI)
      (fact clk, fact keys, fact cfgrow, fact pay, fact ins, rule refl, rule refl, fact fitted, fact iv,
        fact tabs, fact cfg, fact syms(1), fact syms(2), fact served, fact look, fact mo, fact main,
        fact p, fact q(1), fact q(2), fact q(3))
qed

end
