(* ===== verification/EvalDemo.thy ===== *)
theory EvalDemo
  imports LiveSignal NoLookahead
begin

text \<open>
  Small runs of the loaders and of the two evaluation services, at which the properties of
  \<open>EvalProps\<close> and \<open>LiveProps\<close> apply.
\<close>

section \<open>Catalogs and a request\<close>

definition eval_tables :: "string \<Rightarrow> py_exn + row list" where
  "eval_tables t = Inr (
     if t = ''app'' then
       [[(''name'', JStr ''bybit''), (''app_id'', JInt 7), (''is_exchange_ind'', JStr ''Y'')],
        [(''name'', JStr ''vendor''), (''app_id'', JInt 1), (''is_exchange_ind'', JStr ''N''), (''class_name'', JStr ''Vendor'')]]
     else if t = ''indicator'' then [[(''method_name'', JStr ''get_sma''), (''is_bounded_ind'', JStr ''N'')]]
     else if t = ''signal_type'' then
       [[(''name'', JStr ''momentum''), (''func_name_band'', JStr ''momentum_band_signal'')]]
     else if t = ''app_metric'' then
       [[(''app_id'', JInt 1), (''metric_nm'', JStr ''price''), (''app_metric_id'', JInt 2)]]
     else if t = ''tm_interval'' then [[(''tm_interval_id'', JInt 1), (''period_length'', JStr ''01:00:00'')]]
     else [])"

definition eval_settings :: "string \<Rightarrow> py_exn + row list" where
  "eval_settings t = Inr
     [[(''setting_nm'', JStr ''default_tm_interval_id''), (''setting_value'', JStr ''5'')],
      [(''setting_nm'', JStr ''min_metric_obs''), (''setting_value'', JStr ''1'')]]"

definition eval_refdata :: refdata where
  "eval_refdata = \<lparr>catalog = eval_tables, config = eval_settings\<rparr>"

definition eval_time :: "string \<Rightarrow> py_exn + int" where
  "eval_time s = (if s = ''10'' then Inr 10 else if s = ''40'' then Inr 40 else Inl (ValueError s))"

definition eval_factor :: factor_config where
  "eval_factor = \<lparr>fc_symbol = None, fc_vendor = None, fc_source = None, fc_column = ''price'',
     fc_indicator = ''get_sma'', fc_strategy = ''momentum'',
     fc_window = \<lparr>rp_min = Fin 1, rp_max = Fin 1, rp_step = Fin 1\<rparr>,
     fc_signal = \<lparr>rp_min = Fin 1, rp_max = Fin 1, rp_step = Fin 1\<rparr>\<rparr>"

definition eval_request :: optimize_request where
  "eval_request = \<lparr>rq_symbol = ''BTC'', rq_start = ''10'', rq_end = ''40'', rq_period = 365, rq_fee = Fin 0,
     rq_source = ''bybit'', rq_interval = 1, rq_refresh = False, rq_factors = [eval_factor],
     rq_conjunction = None, oq_walk_forward = False, oq_split = Fin (1 / 2)\<rparr>"

definition eval_env :: "(bar_db \<times> unit) fetch_env" where
  "eval_env = \<lparr>fe_get = eval_tables, fe_catalog = Some eval_refdata, fe_reader = eval_refdata,
     fe_inst = Some (\<lambda>c a. Some c), fe_has_cache = True,
     fe_bars = Some (\<lambda>i. Inr (price_bar_service (PriceBarDb.demo_env []))),
     fe_source = (\<lambda>c. Inl (detail c)), fe_time = eval_time, fe_uuid4 = Pair 0\<rparr>"

definition eval_world :: "api_db \<times> bar_db \<times> unit" where
  "eval_world = (empty_api_db, demo_bars [10, 20, 30, 40])"

definition eval_libs :: bt_libs where
  "eval_libs = \<lparr>lib_optuna = \<lparr>suggest = (\<lambda>study k vs. hd vs), sort_values = id\<rparr>, lib_kernels = demo_kernels,
     lib_arange = (\<lambda>a b c. Inr [a]), lib_str_float = (\<lambda>x. []), lib_sid = ''s''\<rparr>"

definition is_Inr :: "'e + 'a \<Rightarrow> bool" where
  "is_Inr r = (case r of Inl e \<Rightarrow> False | Inr x \<Rightarrow> True)"

lemma is_Inr_run: "is_Inr (fst r) \<Longrightarrow> \<exists>x v. r = (Inr x, v)"
  by (cases r; cases "fst r") (auto simp: is_Inr_def)

section \<open>A back-test on a venue's bars\<close>

lemma eval_fetch_runs:
  "is_Inr (fst (fetch_df eval_env ''BTC'' ''10'' ''40'' ''bybit'' False (Some 1) ''price'' eval_world))"
  by code_simp

lemma eval_build_runs: "is_Inr (fst (build_data_dict eval_env eval_request eval_world))"
  by code_simp

lemma eval_search_runs: "is_Inr (fst (run_optimize eval_env eval_libs eval_request eval_world))"
  by code_simp

lemma eval_wf: "bars_wf (fst (snd eval_world))"
  by (simp add: eval_world_def demo_bars_wf)

theorem exchange_series_spans_witness:
  "\<exists>fr w'. fetch_df eval_env ''BTC'' ''10'' ''40'' ''bybit'' False (Some 1) ''price'' eval_world = (Inr fr, w')
     \<and> f_index fr \<noteq> [] \<and> bars_between fr (bar_map (snd w') (Series ''BTC'' 1 7)) 10 40"
proof -
  obtain fr w' where run: "fetch_df eval_env ''BTC'' ''10'' ''40'' ''bybit'' False (Some 1) ''price'' eval_world
      = (Inr fr, w')"
    using is_Inr_run [OF eval_fetch_runs] by blast
  have bars: "\<forall>f i svc. fe_bars eval_env = Some f \<and> f i = Inr svc \<longrightarrow> (\<exists>be. svc = price_bar_service be)"
    by (auto simp: eval_env_def)
  obtain app where app: "app_named eval_env ''bybit'' = Inr app" "is_exchange app" "app_id_of app = Inr 7"
    by (simp add: app_named_def eval_env_def eval_tables_def jitem_def of_py_def is_exchange_def jget_def
        app_id_of_def int_item_def)
  have "fe_time eval_env ''10'' = Inr 10" "fe_time eval_env ''40'' = Inr 40"
    by (simp_all add: eval_env_def eval_time_def)
  with exchange_series_spans [OF bars eval_wf app(1,2) run] app(3) run show ?thesis by auto
qed

theorem search_sample_scoreable_witness:
  "\<exists>d v main. build_data_dict eval_env eval_request eval_world = (Inr d, v)
     \<and> map_of d ''BTC'' = Some main \<and> 2 \<le> length (f_index main)"
proof -
  obtain r w' where run: "run_optimize eval_env eval_libs eval_request eval_world = (Inr r, w')"
    using is_Inr_run [OF eval_search_runs] by blast
  have mo: "min_metric_obs eval_env = Inr 1"
    by code_simp
  have ranges: "build_param_ranges (lib_arange eval_libs) eval_request = Inr (Scalar [1], Scalar [Fin 1])"
    by code_simp
  have "\<forall>f \<in> set (rq_factors eval_request). flt_lt (Fin 0) (rp_step (fc_window f))"
    by (simp add: eval_request_def eval_factor_def)
  from search_sample_scoreable [OF run this] mo ranges show ?thesis
    by (auto simp: candidate_windows_def eval_request_def)
qed

theorem live_reads_backtest_series_witness:
  "\<exists>d v. build_data_dict eval_env eval_request eval_world = (Inr d, v) \<and> set (map fst d) = {''BTC''}"
proof -
  obtain d v where run: "build_data_dict eval_env eval_request eval_world = (Inr d, v)"
    using is_Inr_run [OF eval_build_runs] by blast
  have "is_Inr (build_config (fe_get eval_env) ''s'' eval_request)" by code_simp
  then obtain c where c: "build_config (fe_get eval_env) ''s'' eval_request = Inr c"
    by (auto simp: is_Inr_def split: sum.splits)
  obtain srcs where srcs: "data_sources c (Some eval_request) = Inr srcs"
    by (simp add: data_sources_def)
  have "get_internal_cusips c = {''BTC''}"
    using config_cusips [OF c] by (simp add: eval_request_def eval_factor_def factor_cusip_def truthy_def)
  moreover have "set (map fst d) = get_internal_cusips c"
    using live_reads_backtest_series [OF c run srcs] by (elim conjE)
  ultimately show ?thesis using run by (intro exI [of _ d] exI [of _ v]) simp
qed

section \<open>A live evaluation\<close>

definition eval_live :: "unit live_env" where
  "eval_live = \<lparr>lv_refdata = eval_refdata, lv_inst = (\<lambda>c a. None),
     lv_source = (\<lambda>c. Inr \<lparr>ds_history = None, ds_takes_path = False\<rparr>), lv_time = demo_days,
     lv_uuid4 = Pair 0, lv_today = Pair 1, lv_validate = (\<lambda>r. Inl (ValueError [])), lv_sid = ''s'',
     lv_kernels = demo_kernels\<rparr>"

definition eval_doc :: row where
  "eval_doc = (case strategy_to_json ''now''
       (single_config ''s'' ''btc'' ''get_sma'' Momentum_band 365 1 (Fin 1) ''factor'') None None of
     Inr d \<Rightarrow> d | Inl e \<Rightarrow> [])"

definition eval_bars :: "unit bars_loader" where
  "eval_bars k lookback = returnC \<lparr>f_index = [1, 2, 3],
     f_cols = [(''price'', [Fin 5, Fin 2, Fin 9]), (''factor'', [Fin 5, Fin 2, Fin 9])]\<rparr>"

lemma eval_live_runs: "is_Inr (fst (live_position eval_live (Some eval_bars) eval_doc JNull (empty_api_db, ())))"
  by code_simp

theorem live_position_complete_witness:
  "\<exists>q t w'. live_position eval_live (Some eval_bars) eval_doc JNull (empty_api_db, ()) = (Inr (q, t), w')
     \<and> q \<noteq> NaN"
proof -
  obtain q t w' where run: "live_position eval_live (Some eval_bars) eval_doc JNull (empty_api_db, ())
      = (Inr (q, t), w')"
    using is_Inr_run [OF eval_live_runs] by fastforce
  from live_position_complete [OF this] run show ?thesis by blast
qed

definition eval_load :: "(api_db \<times> unit, live_err, int frame) call" where
  "eval_load = provider_load (live_fetch_env eval_live eval_tables) [(''btc'', ''vendor'')]
     ''1970-01-01'' ''1970-01-02'' ''btc''"

lemma eval_load_runs: "is_Inr (fst (eval_load (snd (demo_refresh (empty_api_db, ())))))"
  by code_simp

theorem live_provider_serves_cache_witness:
  "\<exists>fr w'. eval_load (snd (demo_refresh (empty_api_db, ()))) = (Inr fr, w')
     \<and> same_tables (fst (snd (demo_refresh (empty_api_db, ())))) (fst w')
     \<and> (\<exists>i m. read_payload demo_days eval_refdata i m (Some ''btc'') ''1970-01-01'' ''1970-01-02'' None
              (snd (demo_refresh (empty_api_db, ()))) = (Inr fr, w'))"
proof -
  obtain fr w' where run: "eval_load (snd (demo_refresh (empty_api_db, ()))) = (Inr fr, w')"
    using is_Inr_run [OF eval_load_runs] by blast
  have "lv_time eval_live = demo_days" "lv_refdata eval_live = eval_refdata"
    by (simp_all add: eval_live_def)
  with live_provider_serves_cache [OF run [unfolded eval_load_def]] run show ?thesis by auto
qed

section \<open>A cycle on a venue's bars\<close>

definition eval_service :: "(bar_db \<times> unit) bar_service" where
  "eval_service = price_bar_service ((PriceBarDb.demo_env [110])\<lparr>tm_intervals := [(5, PTimedelta 10)]\<rparr>)"

definition eval_market :: "api_db \<times> bar_db \<times> unit" where
  "eval_market = (empty_api_db,
     \<lparr>price_bars = map (\<lambda>k. (Series ''btc'' 5 4, demo_bar (10 * int k - 520))) [0..<63],
      arrivals = [], bar_faults = []\<rparr>, ())"

definition eval_cycle_live :: "(bar_db \<times> unit) live_env" where
  "eval_cycle_live = \<lparr>lv_refdata = eval_refdata, lv_inst = (\<lambda>c a. None),
     lv_source = (\<lambda>c. Inl (detail c)), lv_time = demo_days, lv_uuid4 = Pair 0, lv_today = Pair 1,
     lv_validate = (\<lambda>r. Inl (ValueError [])), lv_sid = ''s'', lv_kernels = demo_kernels\<rparr>"

definition eval_broker :: "(api_db \<times> bar_db \<times> unit) live_broker" where
  "eval_broker =
     \<lparr>open_session = returnC (), close_session = id, validate_symbol = (\<lambda>cusip app. returnC cusip),
      trading = \<lparr>get_position_qty = (\<lambda>symb. returnC (Fin 0)), place_order = (\<lambda>req. returnC (Some demo_fill)),
                 cancel_order = (\<lambda>oid symb. returnC (mk_result True (Some oid) ''order canceled''))\<rparr>\<rparr>"

definition eval_apply_env :: "(api_db \<times> bar_db \<times> unit) apply_env" where
  "eval_apply_env =
     \<lparr>clock = Pair 120, row_limits = (\<lambda>d. returnC None), app_registered = (\<lambda>i. True),
      decrypt_credential = (\<lambda>u i. returnC (Some (''key'', ''secret''))),
      strategy_config = (\<lambda>i n. returnC (Some (eval_doc @ [(''tm_interval_id'', JInt 5)]))),
      result_payload = (\<lambda>i n. returnC JNull),
      app_ids = (\<lambda>name. if name = ''bybit'' then Some 4 else None), has_price_bars = True,
      latest_position = (\<lambda>c p b. returnC (Fin 0, 0)), create_adapter = (\<lambda>i ks paper. eval_broker),
      product_ccy = (\<lambda>c. None), fallback_ccy = ''USDT'',
      order_policy = \<lparr>max_attempts = 2, backoff_s = Fin 1\<rparr>,
      send_alert = (\<lambda>dep out symb signal lot v. v)\<rparr>"

definition eval_cycle :: "(trade_db \<times> api_db \<times> bar_db \<times> unit, trade_exn, apply_report) call" where
  "eval_cycle = live_run (with_evaluation (\<lambda>e. LiveEvaluationError []) eval_cycle_live eval_service
     (app_id demo_deployment) eval_apply_env) 1 demo_deployment"

lemma eval_cycle_runs: "is_Inr (fst (eval_cycle (demo_db, eval_market)))"
  by code_simp

theorem live_intent_is_engines_witness:
  "\<exists>rep db' w' i. eval_cycle (demo_db, eval_market) = (Inr rep, (db', w'))
     \<and> intents db' = [i] \<and> int_tm_interval_id i = 5 \<and> rep_signal rep = signal_value i \<and> signal_value i \<noteq> NaN"
proof -
  obtain rep db' w' where run: "eval_cycle (demo_db, eval_market) = (Inr rep, (db', w'))"
    using is_Inr_run [OF eval_cycle_runs] by (metis surj_pair)
  have venue: "exchange_id_for_app (app_ids eval_apply_env) (app_id demo_deployment) \<noteq> None"
    by code_simp
  have none: "intents demo_db = []" and sched: "schedule_tm_interval_id demo_deployment = Some 5"
    by (simp_all add: demo_db_def demo_deployment_def)
  obtain i where "intents db' = i # intents demo_db" "rep_signal rep = signal_value i"
    "int_tm_interval_id i = 5" "signal_value i \<noteq> NaN"
    using live_intent_is_engines [OF demo_on_file venue run [unfolded eval_cycle_def]]
    unfolding sched option.case by blast
  with run none show ?thesis by (intro exI [of _ rep] exI [of _ db'] exI [of _ w'] exI [of _ i]) simp
qed

end
