(* ===== verification/BtDb.thy ===== *)
theory BtDb
  imports RefData "HOL-Library.Product_Lexorder"
begin

text \<open>
  The \<open>BT\<close> tables behind the backtest queue, with the stored procedures of
  \<^verbatim>\<open>db/liquidbase/bt/procedures\<close> as functions on them and
  \<^verbatim>\<open>quant/queue/repo.py\<close> as fallible calls.

  A table is the list of its rows, newest first; a row whose version window is open
  (\<open>TRANSACT_TO_TS = 9999-12-31\<close>) carries a flag. A procedure is one transaction. Several
  processes write the queue (the API, the worker loop, the workers), so a call happens in a
  \<open>slot\<close>: what other processes wrote since the caller's last call, the time that passed, and
  whether the call then fails. \<open>bt_slots\<close> lists the slots of the coming calls; a call past its
  end finds nothing changed and succeeds.

  \<open>bt_clock\<close> is the transaction time a write stamps, \<open>next_uuid\<close> the supply of \<open>uuid4()\<close>. Rows
  whose sort keys tie come out in table order, which SQL leaves open; no lemma depends on it. The
  columns no modelled code reads (the audit log, \<open>UPDATED_AT\<close>) are left out.
\<close>

record queue_row =
  queue_id :: nat
  queue_vid :: int
  q_strategy_id :: nat
  q_strategy_vid :: int
  transact_from_ts :: int
  q_open :: bool
  queue_status_id :: int
  priority :: int
  error_text :: "string option"
  q_user_id :: string
  created_at :: int

record strategy_row =
  s_strategy_id :: nat
  s_strategy_vid :: int
  strategy_nm :: string
  config_json :: json
  s_user_id :: string
  is_best :: bool
  logical_delete :: bool
  s_open :: bool

record result_row =
  result_id :: nat
  r_queue_id :: nat
  r_strategy_id :: nat
  r_strategy_vid :: int
  result_vid :: int
  r_current :: bool
  payload_json :: json
  r_metrics :: "flt option list"

record promotion_row =
  p_queue_id :: nat
  p_strategy_id :: nat
  p_strategy_vid :: int
  p_outcome :: string
  compared_vid :: "int option"
  p_gate_results :: "json option"
  p_user_id :: string

record job_write =
  w_queue_id :: nat
  w_strategy_id :: nat
  w_strategy_vid :: int
  w_status :: int
  w_priority :: int
  w_error :: "string option"
  w_user :: string

record slot =
  others :: "job_write list"
  passed :: nat
  fault :: "string option"

record bt_db =
  queue_rows :: "queue_row list"
  strategy_rows :: "strategy_row list"
  result_rows :: "result_row list"
  promotion_rows :: "promotion_row list"
  queue_statuses :: "(int \<times> string) list"
  bt_clock :: int
  next_uuid :: nat
  bt_slots :: "slot list"

section \<open>Stored procedures\<close>

definition close_job :: "nat \<Rightarrow> queue_row list \<Rightarrow> queue_row list" where
  "close_job qid rows = map (\<lambda>r. if queue_id r = qid then r\<lparr>q_open := False\<rparr> else r) rows"

definition job_vids :: "nat \<Rightarrow> queue_row list \<Rightarrow> int list" where
  "job_vids qid rows = map queue_vid (filter (\<lambda>r. queue_id r = qid) rows)"

definition sp_ins_queue_proc ::
  "nat \<Rightarrow> nat \<Rightarrow> int \<Rightarrow> int \<Rightarrow> int \<Rightarrow> string option \<Rightarrow> string \<Rightarrow> bt_db \<Rightarrow> bt_db" where
  "sp_ins_queue_proc qid sid svid st prio err uid db =
     db\<lparr>queue_rows :=
         \<lparr>queue_id = qid, queue_vid = max_vid (job_vids qid (queue_rows db)) + 1,
          q_strategy_id = sid, q_strategy_vid = svid, transact_from_ts = bt_clock db,
          q_open = True, queue_status_id = st, priority = prio, error_text = err,
          q_user_id = uid, created_at = bt_clock db\<rparr>
         # close_job qid (queue_rows db)\<rparr>"

text \<open>
  A row as \<open>SP_GET_QUEUE\<close> returns it: with the name of its status (an inner join) and the
  frozen configuration of its strategy (a left join).
\<close>

record job_row =
  job :: queue_row
  queue_status :: string
  job_config :: "json option"

definition strategy_version :: "nat \<Rightarrow> int \<Rightarrow> bt_db \<Rightarrow> strategy_row option" where
  "strategy_version sid svid db =
     find (\<lambda>s. s_strategy_id s = sid \<and> s_strategy_vid s = svid) (strategy_rows db)"

definition joined :: "bt_db \<Rightarrow> queue_row \<Rightarrow> job_row list" where
  "joined db q =
     (case map_of (queue_statuses db) (queue_status_id q) of
        None \<Rightarrow> []
      | Some nm \<Rightarrow>
          [\<lparr>job = q, queue_status = nm,
            job_config = map_option config_json (strategy_version (q_strategy_id q) (q_strategy_vid q) db)\<rparr>])"

definition matches :: "'a option \<Rightarrow> 'a \<Rightarrow> bool" where
  "matches f x \<longleftrightarrow> f = None \<or> f = Some x"

definition sp_get_queue_proc ::
  "nat option \<Rightarrow> nat option \<Rightarrow> int option \<Rightarrow> string option \<Rightarrow> nat \<Rightarrow> bt_db \<Rightarrow> job_row list" where
  "sp_get_queue_proc qid sid st uid n db =
     (let rows = filter (\<lambda>q. (case qid of Some i \<Rightarrow> queue_id q = i | None \<Rightarrow> q_open q)
                   \<and> matches sid (q_strategy_id q) \<and> matches st (queue_status_id q)
                   \<and> matches uid (q_user_id q)) (queue_rows db);
          ordered = (case qid of Some i \<Rightarrow> sort_key queue_vid rows
                     | None \<Rightarrow> sort_key (\<lambda>q. - created_at q) rows)
      in take n (concat (map (joined db) ordered)))"

definition sp_get_queued_count_proc :: "string \<Rightarrow> int \<Rightarrow> bt_db \<Rightarrow> int" where
  "sp_get_queued_count_proc uid st db =
     int (length (filter (\<lambda>q. q_open q \<and> queue_status_id q = st \<and> q_user_id q = uid) (queue_rows db)))"

text \<open>
  \<open>SP_GET_QUEUE_LATEST\<close>: the open row, if its frozen strategy version is there.
\<close>

definition sp_get_queue_latest_proc :: "nat \<Rightarrow> bt_db \<Rightarrow> (queue_row \<times> json) option" where
  "sp_get_queue_latest_proc qid db =
     (case find (\<lambda>q. queue_id q = qid \<and> q_open q) (queue_rows db) of
        None \<Rightarrow> None
      | Some q \<Rightarrow>
          map_option (\<lambda>s. (q, config_json s)) (strategy_version (q_strategy_id q) (q_strategy_vid q) db))"

text \<open>
  \<open>SP_INS_STRATEGY\<close> (\<^verbatim>\<open>SP_INS_STRATEGY_VID_BY_NM.sql\<close>): the lineage is the one of
  the newest version with this user and name, else the given id or a fresh one; the first
  version of a lineage is its best.
\<close>

definition lineage_of :: "string \<Rightarrow> string \<Rightarrow> bt_db \<Rightarrow> nat option" where
  "lineage_of uid nm db =
     (case sort_key (\<lambda>s. - s_strategy_vid s)
             (filter (\<lambda>s. s_user_id s = uid \<and> strategy_nm s = nm) (strategy_rows db)) of
        [] \<Rightarrow> None | s # _ \<Rightarrow> Some (s_strategy_id s))"

definition strategy_vids :: "nat \<Rightarrow> bt_db \<Rightarrow> int list" where
  "strategy_vids sid db = map s_strategy_vid (filter (\<lambda>s. s_strategy_id s = sid) (strategy_rows db))"

definition insert_version :: "nat \<Rightarrow> string \<Rightarrow> json \<Rightarrow> string \<Rightarrow> bt_db \<Rightarrow> bt_db" where
  "insert_version sid nm cfg uid db =
     (let vid = max_vid (strategy_vids sid db) + 1
      in db\<lparr>strategy_rows :=
             \<lparr>s_strategy_id = sid, s_strategy_vid = vid, strategy_nm = nm, config_json = cfg,
              s_user_id = uid, is_best = (vid = 1), logical_delete = False, s_open = True\<rparr>
             # map (\<lambda>s. if s_strategy_id s = sid then s\<lparr>s_open := False\<rparr> else s) (strategy_rows db)\<rparr>)"

datatype bt_exn =
    ProcedureError string string
  | BtDriverError string
  | BtPy py_exn
  | RateLimitError int
  | JobNotFound nat
  | CancelNotAllowed string
  | ReenqueueNotAllowed string
  | StrategyNameMismatch string
  | UnknownPriority string
  | BtLookupError string
  | StrategyNotFound string

definition sp_ins_strategy_proc ::
  "nat option \<Rightarrow> string \<Rightarrow> json \<Rightarrow> string \<Rightarrow> bt_db \<Rightarrow> bt_exn + (nat \<times> int) \<times> bt_db" where
  "sp_ins_strategy_proc sid nm cfg uid db =
     (if strip nm = [] then Inl (ProcedureError ''22023'' ''IN_STRATEGY_NM is required'')
      else if strip uid = [] then Inl (ProcedureError ''22023'' ''IN_USER_ID is required'')
      else
        (let (rid, db1) = (case lineage_of uid nm db of
                             Some s \<Rightarrow> (s, db)
                           | None \<Rightarrow> (case sid of Some s \<Rightarrow> (s, db)
                                     | None \<Rightarrow> (next_uuid db, db\<lparr>next_uuid := next_uuid db + 1\<rparr>)))
         in Inr ((rid, max_vid (strategy_vids rid db1) + 1), insert_version rid nm cfg uid db1)))"

datatype strategy_filter = ByVid int | Best | Latest

definition sp_get_strategy_proc :: "nat \<Rightarrow> strategy_filter \<Rightarrow> bt_db \<Rightarrow> strategy_row list" where
  "sp_get_strategy_proc sid f db =
     filter (\<lambda>s. s_strategy_id s = sid
       \<and> (case f of ByVid v \<Rightarrow> s_strategy_vid s = v | Best \<Rightarrow> is_best s | Latest \<Rightarrow> s_open s))
       (strategy_rows db)"

text \<open>\<open>SP_UPD_PROMOTE_STRATEGY\<close>: demote only (no version), or move the flag to one version.\<close>

definition set_best :: "(strategy_row \<Rightarrow> bool) \<Rightarrow> bool \<Rightarrow> bt_db \<Rightarrow> bt_db" where
  "set_best P b db =
     db\<lparr>strategy_rows := map (\<lambda>s. if P s then s\<lparr>is_best := b\<rparr> else s) (strategy_rows db)\<rparr>"

definition has_best :: "nat \<Rightarrow> bt_db \<Rightarrow> bool" where
  "has_best sid db \<longleftrightarrow> sp_get_strategy_proc sid Best db \<noteq> []"

definition sp_upd_promote_strategy_proc :: "nat \<Rightarrow> int option \<Rightarrow> bt_db \<Rightarrow> bt_exn + unit \<times> bt_db" where
  "sp_upd_promote_strategy_proc sid svid db =
     (let mine = (\<lambda>s. s_strategy_id s = sid)
      in case svid of
           None \<Rightarrow>
             (let db1 = set_best (\<lambda>s. mine s \<and> is_best s) False db
              in Inr ((), if has_best sid db1 then db1
                          else set_best (\<lambda>s. mine s \<and> s_strategy_vid s = 1) True db1))
         | Some v \<Rightarrow>
             (case strategy_version sid v db of
                None \<Rightarrow> Inl (ProcedureError ''02000'' ''Target VID does not exist for this STRATEGY_ID'')
              | Some s \<Rightarrow>
                  if is_best s then Inr ((), db)
                  else Inr ((), set_best (\<lambda>s. mine s \<and> s_strategy_vid s = v) True
                                 (set_best (\<lambda>s. mine s \<and> is_best s) False db))))"

definition sp_upd_strategy_logical_delete_proc ::
  "nat \<Rightarrow> int option \<Rightarrow> bool \<Rightarrow> bt_db \<Rightarrow> bt_exn + unit \<times> bt_db" where
  "sp_upd_strategy_logical_delete_proc sid svid b db =
     (let mine = (\<lambda>s. s_strategy_id s = sid \<and> matches svid (s_strategy_vid s))
      in if filter mine (strategy_rows db) = [] then
           Inl (ProcedureError ''02000''
             (if svid = None then ''STRATEGY_ID does not exist''
              else ''Target VID does not exist for this STRATEGY_ID''))
         else Inr ((), db\<lparr>strategy_rows :=
           map (\<lambda>s. if mine s then s\<lparr>logical_delete := b\<rparr> else s) (strategy_rows db)\<rparr>))"

text \<open>\<open>SP_INS_RESULT\<close>: the strategy keys come from the newest row of the job.\<close>

definition newest_row :: "nat \<Rightarrow> bt_db \<Rightarrow> queue_row option" where
  "newest_row qid db =
     (case sort_key (\<lambda>q. - queue_vid q) (filter (\<lambda>q. queue_id q = qid) (queue_rows db)) of
        [] \<Rightarrow> None | q # _ \<Rightarrow> Some q)"

definition sp_ins_result_proc ::
  "nat \<Rightarrow> nat \<Rightarrow> json \<Rightarrow> flt option list \<Rightarrow> bt_db \<Rightarrow> bt_exn + unit \<times> bt_db" where
  "sp_ins_result_proc rid qid payload metrics db =
     (case newest_row qid db of
        None \<Rightarrow> Inl (ProcedureError ''22023'' ''QUEUE_ID not found or missing STRATEGY_ID'')
      | Some q \<Rightarrow>
          (let mine = (\<lambda>r. r_strategy_id r = q_strategy_id q \<and> r_strategy_vid r = q_strategy_vid q)
           in Inr ((), db\<lparr>result_rows :=
                \<lparr>result_id = rid, r_queue_id = qid, r_strategy_id = q_strategy_id q,
                 r_strategy_vid = q_strategy_vid q,
                 result_vid = max_vid (map result_vid (filter mine (result_rows db))) + 1,
                 r_current = True, payload_json = payload, r_metrics = metrics\<rparr>
                # map (\<lambda>r. if mine r then r\<lparr>r_current := False\<rparr> else r) (result_rows db)\<rparr>)))"

text \<open>
  \<open>SP_GET_RESULT\<close>: the newest row of a job, or the current row of a strategy version. Rows are
  stored newest first, which is the order of \<open>CREATED_AT\<close>.
\<close>

definition sp_get_result_proc :: "nat option \<Rightarrow> nat option \<Rightarrow> int option \<Rightarrow> bt_db \<Rightarrow> bt_exn + result_row option" where
  "sp_get_result_proc qid sid svid db =
     (if qid = None \<and> sid = None then
        Inl (ProcedureError ''P0001'' ''SP_GET_RESULT needs IN_QUEUE_ID or IN_STRATEGY_ID'')
      else
        (let rows = filter (\<lambda>r. matches qid (r_queue_id r) \<and> matches sid (r_strategy_id r)
                      \<and> matches svid (r_strategy_vid r)) (result_rows db);
             ordered = (if qid = None then sort_key (\<lambda>r. - result_vid r) (filter r_current rows) else rows)
         in Inr (case ordered of [] \<Rightarrow> None | r # _ \<Rightarrow> Some r)))"

section \<open>Repository calls\<close>

type_synonym ('v, 'a) bt_call = "(bt_db \<times> 'v, bt_exn, 'a) call"

definition quiet_slot :: slot where
  "quiet_slot = \<lparr>others = [], passed = 0, fault = None\<rparr>"

definition apply_write :: "job_write \<Rightarrow> bt_db \<Rightarrow> bt_db" where
  "apply_write jw db =
     sp_ins_queue_proc (w_queue_id jw) (w_strategy_id jw) (w_strategy_vid jw) (w_status jw)
       (w_priority jw) (w_error jw) (w_user jw) (db\<lparr>next_uuid := max (next_uuid db) (Suc (w_queue_id jw))\<rparr>)"

definition interfere :: "bt_db \<Rightarrow> slot \<times> bt_db" where
  "interfere db =
     (let s = (case bt_slots db of [] \<Rightarrow> quiet_slot | x # _ \<Rightarrow> x)
      in (s, fold apply_write (others s)
               (db\<lparr>bt_slots := tl (bt_slots db), bt_clock := bt_clock db + int (passed s)\<rparr>)))"

definition on_bt :: "(bt_db \<Rightarrow> bt_exn + 'a \<times> bt_db) \<Rightarrow> ('v, 'a) bt_call" where
  "on_bt f = (\<lambda>(db, v).
     let (s, db1) = interfere db
     in case fault s of
          Some m \<Rightarrow> (Inl (BtDriverError m), (db1, v))
        | None \<Rightarrow> (case f db1 of Inl e \<Rightarrow> (Inl e, (db1, v)) | Inr (x, db2) \<Rightarrow> (Inr x, (db2, v))))"

text \<open>What the calls raise out of plain Python code and out of the reader.\<close>

definition liftR :: "py_exn + 'a \<Rightarrow> ('w, bt_exn, 'a) call" where
  "liftR r = (\<lambda>w. (case r of Inl e \<Rightarrow> Inl (BtPy e) | Inr x \<Rightarrow> Inr x, w))"

definition run_key :: "job_row \<Rightarrow> int \<times> int" where
  "run_key r = (priority (job r), transact_from_ts (job r))"

definition in_run_order :: "job_row list \<Rightarrow> job_row list" where
  "in_run_order rows = sort_key run_key rows"

definition sp_get_queue ::
  "nat option \<Rightarrow> nat option \<Rightarrow> int option \<Rightarrow> string option \<Rightarrow> nat \<Rightarrow> ('v, job_row list) bt_call" where
  "sp_get_queue qid sid st uid n = on_bt (\<lambda>db. Inr (sp_get_queue_proc qid sid st uid n db, db))"

definition sp_ins_queue ::
  "nat \<Rightarrow> nat \<Rightarrow> int \<Rightarrow> int \<Rightarrow> int \<Rightarrow> string \<Rightarrow> string option \<Rightarrow> ('v, unit) bt_call" where
  "sp_ins_queue qid sid svid st prio uid err =
     on_bt (\<lambda>db. Inr ((), sp_ins_queue_proc qid sid svid st prio err uid db))"

definition sp_get_queue_latest :: "nat \<Rightarrow> ('v, (queue_row \<times> json) option) bt_call" where
  "sp_get_queue_latest qid = on_bt (\<lambda>db. Inr (sp_get_queue_latest_proc qid db, db))"

definition sp_ins_strategy :: "string \<Rightarrow> json \<Rightarrow> string \<Rightarrow> nat option \<Rightarrow> ('v, nat \<times> int) bt_call" where
  "sp_ins_strategy nm cfg uid sid = on_bt (sp_ins_strategy_proc sid nm cfg uid)"

definition sp_get_queued_count :: "string \<Rightarrow> int \<Rightarrow> ('v, int) bt_call" where
  "sp_get_queued_count uid st = on_bt (\<lambda>db. Inr (sp_get_queued_count_proc uid st db, db))"

definition list_for_user :: "string \<Rightarrow> nat \<Rightarrow> ('v, job_row list) bt_call" where
  "list_for_user uid n = sp_get_queue None None None (Some uid) n"

fun position_in :: "nat \<Rightarrow> nat \<Rightarrow> job_row list \<Rightarrow> nat" where
  "position_in qid i [] = 0"
| "position_in qid i (r # rs) = (if queue_id (job r) = qid then i else position_in qid (i + 1) rs)"

definition queued_position :: "nat \<Rightarrow> int \<Rightarrow> ('v, nat) bt_call" where
  "queued_position qid queued =
     bindC (sp_get_queue None None (Some queued) None 500) (\<lambda>rows.
       returnC (position_in qid 1 (in_run_order rows)))"

definition get_active :: "nat \<Rightarrow> string option \<Rightarrow> ('v, job_row option) bt_call" where
  "get_active qid uid =
     bindC (sp_get_queue (Some qid) None None uid 50) (\<lambda>rows.
       returnC (if rows = [] then None else Some (last rows)))"

definition sp_get_result :: "nat option \<Rightarrow> nat option \<Rightarrow> int option \<Rightarrow> ('v, result_row option) bt_call" where
  "sp_get_result qid sid svid =
     on_bt (\<lambda>db. case sp_get_result_proc qid sid svid db of Inl e \<Rightarrow> Inl e | Inr r \<Rightarrow> Inr (r, db))"

text \<open>A payload column arrives decoded; one that is false as a value (an empty object) is none.\<close>

definition fetch_result_payload :: "nat \<Rightarrow> int \<Rightarrow> ('v, json option) bt_call" where
  "fetch_result_payload sid svid =
     bindC (sp_get_result None (Some sid) (Some svid)) (\<lambda>r.
       returnC (case r of None \<Rightarrow> None
                | Some x \<Rightarrow> if jtruthy (payload_json x) then Some (payload_json x) else None))"

definition sp_get_strategy :: "nat \<Rightarrow> int option \<Rightarrow> string option \<Rightarrow> ('v, strategy_row list) bt_call" where
  "sp_get_strategy sid svid best =
     on_bt (\<lambda>db. Inr (sp_get_strategy_proc sid
       (case svid of Some v \<Rightarrow> ByVid v | None \<Rightarrow> if best = Some ''Y'' then Best else Latest) db, db))"

definition sp_upd_strategy_logical_delete :: "nat \<Rightarrow> int option \<Rightarrow> bool \<Rightarrow> ('v, unit) bt_call" where
  "sp_upd_strategy_logical_delete sid svid b = on_bt (sp_upd_strategy_logical_delete_proc sid svid b)"

section \<open>The versions of a job\<close>

definition job_versions :: "nat \<Rightarrow> bt_db \<Rightarrow> queue_row list" where
  "job_versions qid db = filter (\<lambda>r. queue_id r = qid) (queue_rows db)"

definition job_ids :: "bt_db \<Rightarrow> nat set" where
  "job_ids db = queue_id ` set (queue_rows db)"

definition status_of :: "bt_db \<Rightarrow> nat \<Rightarrow> int option" where
  "status_of db qid = (case job_versions qid db of [] \<Rightarrow> None | r # _ \<Rightarrow> Some (queue_status_id r))"

text \<open>
  The table invariant: the versions of a job are numbered from 1 without a gap, and the newest
  one alone is open; ids come from the supply.
\<close>

definition queue_wf :: "bt_db \<Rightarrow> bool" where
  "queue_wf db \<longleftrightarrow>
     (\<forall>qid. map queue_vid (job_versions qid db) = rev [1..int (length (job_versions qid db))]
        \<and> (case job_versions qid db of [] \<Rightarrow> True | r # rs \<Rightarrow> q_open r \<and> list_all (\<lambda>r. \<not> q_open r) rs))
     \<and> (\<forall>qid \<in> job_ids db. qid < next_uuid db)"

lemma queue_wf_vids:
  "queue_wf db \<Longrightarrow> map queue_vid (job_versions qid db) = rev [1..int (length (job_versions qid db))]"
  by (simp add: queue_wf_def)

lemma queue_wf_open:
  "queue_wf db \<Longrightarrow> job_versions qid db = r # rs \<Longrightarrow> q_open r \<and> (\<forall>x \<in> set rs. \<not> q_open x)"
  by (auto simp: queue_wf_def list_all_iff dest: spec [of _ qid])

lemma job_ids_iff: "qid \<in> job_ids db \<longleftrightarrow> job_versions qid db \<noteq> []"
  by (auto simp: job_ids_def job_versions_def filter_empty_conv)

lemma status_of_None [simp]: "status_of db qid = None \<longleftrightarrow> qid \<notin> job_ids db"
  by (simp add: status_of_def job_ids_iff split: list.split)

definition new_row :: "nat \<Rightarrow> nat \<Rightarrow> int \<Rightarrow> int \<Rightarrow> int \<Rightarrow> string option \<Rightarrow> string \<Rightarrow> bt_db \<Rightarrow> queue_row" where
  "new_row qid sid svid st prio err uid db =
     hd (queue_rows (sp_ins_queue_proc qid sid svid st prio err uid db))"

lemma new_row_simps [simp]:
  "queue_id (new_row qid sid svid st prio err uid db) = qid"
  "q_strategy_id (new_row qid sid svid st prio err uid db) = sid"
  "q_strategy_vid (new_row qid sid svid st prio err uid db) = svid"
  "queue_status_id (new_row qid sid svid st prio err uid db) = st"
  "priority (new_row qid sid svid st prio err uid db) = prio"
  "q_user_id (new_row qid sid svid st prio err uid db) = uid"
  "error_text (new_row qid sid svid st prio err uid db) = err"
  "transact_from_ts (new_row qid sid svid st prio err uid db) = bt_clock db"
  "created_at (new_row qid sid svid st prio err uid db) = bt_clock db"
  "q_open (new_row qid sid svid st prio err uid db)"
  "queue_vid (new_row qid sid svid st prio err uid db) = max_vid (map queue_vid (job_versions qid db)) + 1"
  by (simp_all add: new_row_def sp_ins_queue_proc_def job_vids_def job_versions_def)

lemma sp_ins_queue_rows:
  "queue_rows (sp_ins_queue_proc qid sid svid st prio err uid db) =
     new_row qid sid svid st prio err uid db # close_job qid (queue_rows db)"
  by (simp add: new_row_def sp_ins_queue_proc_def)

lemma sp_ins_queue_frame [simp]:
  "strategy_rows (sp_ins_queue_proc qid sid svid st prio err uid db) = strategy_rows db"
  "result_rows (sp_ins_queue_proc qid sid svid st prio err uid db) = result_rows db"
  "promotion_rows (sp_ins_queue_proc qid sid svid st prio err uid db) = promotion_rows db"
  "queue_statuses (sp_ins_queue_proc qid sid svid st prio err uid db) = queue_statuses db"
  "bt_clock (sp_ins_queue_proc qid sid svid st prio err uid db) = bt_clock db"
  "next_uuid (sp_ins_queue_proc qid sid svid st prio err uid db) = next_uuid db"
  "bt_slots (sp_ins_queue_proc qid sid svid st prio err uid db) = bt_slots db"
  by (simp_all add: sp_ins_queue_proc_def)

lemma close_job_versions:
  "filter (\<lambda>r. queue_id r = x) (close_job qid rows) =
     (if x = qid then map (\<lambda>r. r\<lparr>q_open := False\<rparr>) (filter (\<lambda>r. queue_id r = qid) rows)
      else filter (\<lambda>r. queue_id r = x) rows)"
  by (induction rows) (auto simp: close_job_def)

lemma job_versions_ins:
  "job_versions x (sp_ins_queue_proc qid sid svid st prio err uid db) =
     (if x = qid then new_row qid sid svid st prio err uid db
                      # map (\<lambda>r. r\<lparr>q_open := False\<rparr>) (job_versions qid db)
      else job_versions x db)"
  by (auto simp: job_versions_def sp_ins_queue_rows close_job_versions)

lemma job_ids_ins [simp]:
  "job_ids (sp_ins_queue_proc qid sid svid st prio err uid db) = insert qid (job_ids db)"
  by (auto simp: set_eq_iff job_ids_iff job_versions_ins)

lemma status_of_ins [simp]:
  "status_of (sp_ins_queue_proc qid sid svid st prio err uid db) x =
     (if x = qid then Some st else status_of db x)"
  by (simp add: status_of_def job_versions_ins)

lemma job_versions_frame [simp]:
  "job_versions x (db\<lparr>bt_slots := ss, bt_clock := c\<rparr>) = job_versions x db"
  "job_versions x (db\<lparr>next_uuid := n\<rparr>) = job_versions x db"
  "job_versions x (db\<lparr>bt_slots := ss\<rparr>) = job_versions x db"
  by (simp_all add: job_versions_def)

lemma job_ids_frame [simp]:
  "job_ids (db\<lparr>bt_slots := ss, bt_clock := c\<rparr>) = job_ids db"
  "job_ids (db\<lparr>next_uuid := n\<rparr>) = job_ids db"
  "job_ids (db\<lparr>bt_slots := ss\<rparr>) = job_ids db"
  by (simp_all add: job_ids_def)

lemma rev_upto_Suc: "rev [1..int n + 1] = (int n + 1) # rev [1..int n]"
  using upto_rec2 [of 1 "int n + 1"] by simp

lemma max_vid_upto: "max_vid (rev [1..int n]) = int n"
proof (induction n)
  case (Suc n)
  have "[1..int (Suc n)] = [1..int n + 1]"
    by (simp add: add.commute)
  then show ?case
    using Suc by (simp add: rev_upto_Suc max_vid_def del: rev.simps)
qed (simp add: max_vid_def)

lemma queue_wf_ins:
  assumes "queue_wf db" "qid < next_uuid db"
  shows "queue_wf (sp_ins_queue_proc qid sid svid st prio err uid db)"
proof -
  let ?db = "sp_ins_queue_proc qid sid svid st prio err uid db"
  have vids: "map queue_vid (job_versions x ?db) = rev [1..int (length (job_versions x ?db))]" for x
  proof (cases "x = qid")
    case True
    let ?n = "int (length (job_versions qid db))"
    have "map queue_vid (job_versions x ?db)
        = (max_vid (map queue_vid (job_versions qid db)) + 1) # map queue_vid (job_versions qid db)"
      using True by (simp add: job_versions_ins comp_def)
    also have "\<dots> = (?n + 1) # rev [1..?n]"
      using queue_wf_vids [OF assms(1), of qid] by (simp add: max_vid_upto)
    also have "\<dots> = rev [1..?n + 1]" by (simp only: rev_upto_Suc)
    finally show ?thesis
      using True by (simp add: job_versions_ins add.commute)
  qed (use queue_wf_vids [OF assms(1)] in \<open>simp add: job_versions_ins\<close>)
  then show ?thesis
    using assms by (auto simp: queue_wf_def job_versions_ins list_all_iff)
qed

lemma queue_wf_frame:
  "queue_wf (db\<lparr>bt_slots := ss, bt_clock := c\<rparr>) = queue_wf db"
  "queue_wf (db\<lparr>bt_slots := ss\<rparr>) = queue_wf db"
  "queue_wf db \<Longrightarrow> next_uuid db \<le> n \<Longrightarrow> queue_wf (db\<lparr>next_uuid := n\<rparr>)"
  by (auto simp: queue_wf_def intro: less_le_trans)

lemma apply_write_wf: "queue_wf db \<Longrightarrow> queue_wf (apply_write jw db)"
  unfolding apply_write_def by (intro queue_wf_ins queue_wf_frame) auto

lemma fold_apply_write_wf: "queue_wf db \<Longrightarrow> queue_wf (fold apply_write ws db)"
  by (induction ws arbitrary: db) (auto intro: apply_write_wf)

lemma interfere_wf: "queue_wf db \<Longrightarrow> interfere db = (s, db1) \<Longrightarrow> queue_wf db1"
  by (auto simp: interfere_def Let_def queue_wf_frame intro: fold_apply_write_wf)

lemma on_bt_cases:
  assumes "on_bt f (db, v) = (x, w')"
  obtains (failed) s db1 e where "interfere db = (s, db1)" "x = Inl e" "w' = (db1, v)"
  | (answered) s db1 y db2 where "interfere db = (s, db1)" "f db1 = Inr (y, db2)" "x = Inr y" "w' = (db2, v)"
  using assms by (auto simp: on_bt_def Let_def split: prod.splits option.splits sum.splits)

lemma on_bt_quiet:
  "bt_slots db = [] \<Longrightarrow>
   on_bt f (db, v) = (case f db of Inl e \<Rightarrow> (Inl e, (db, v)) | Inr (x, db2) \<Rightarrow> (Inr x, (db2, v)))"
  by (cases db) (auto simp: on_bt_def interfere_def quiet_slot_def)

text \<open>Other processes write the queue table only; the lineages and the log are this process's.\<close>

lemma interfere_frame:
  assumes "interfere db = (s, db1)"
  shows "strategy_rows db1 = strategy_rows db" "promotion_rows db1 = promotion_rows db"
    "result_rows db1 = result_rows db"
proof -
  have "strategy_rows (fold apply_write ws db) = strategy_rows db
      \<and> promotion_rows (fold apply_write ws db) = promotion_rows db
      \<and> result_rows (fold apply_write ws db) = result_rows db" for ws db
    by (induction ws arbitrary: db) (simp_all add: apply_write_def)
  then show "strategy_rows db1 = strategy_rows db" "promotion_rows db1 = promotion_rows db"
    "result_rows db1 = result_rows db"
    using assms by (auto simp: interfere_def Let_def)
qed

section \<open>Reading the queue\<close>

lemma joined_job: "r \<in> set (joined db q) \<Longrightarrow> job r = q"
  by (auto simp: joined_def split: option.splits)

lemma sp_get_queue_active:
  assumes "r \<in> set (sp_get_queue_proc None sid (Some st) uid n db)"
  shows "job r \<in> set (queue_rows db)" "q_open (job r)" "queue_status_id (job r) = st"
  using assms
  by (auto simp: sp_get_queue_proc_def Let_def matches_def dest!: in_set_takeD joined_job)

lemma open_row_newest:
  assumes "queue_wf db" "q \<in> set (queue_rows db)" "q_open q"
  shows "\<exists>rs. job_versions (queue_id q) db = q # rs"
proof -
  have "q \<in> set (job_versions (queue_id q) db)"
    using assms(2) by (simp add: job_versions_def)
  then show ?thesis
    using queue_wf_open [OF assms(1), of "queue_id q"] assms(3)
    by (cases "job_versions (queue_id q) db") auto
qed

lemma listed_status:
  assumes "queue_wf db" "r \<in> set (sp_get_queue_proc None sid (Some st) uid n db)"
  shows "status_of db (queue_id (job r)) = Some st"
  using open_row_newest [OF assms(1) sp_get_queue_active(1,2) [OF assms(2)]] sp_get_queue_active(3) [OF assms(2)]
  by (auto simp: status_of_def)

end
