(* ===== verification/Deployments.thy ===== *)
theory Deployments
  imports LiveApply BtDb
begin

text \<open>
  The deployment editor: \<^verbatim>\<open>quant/trade/service.py\<close> (create, update, stop),
  \<^verbatim>\<open>quant/trade/schedule_policy.py\<close>, \<^verbatim>\<open>quant/trade/schedule_align.py\<close> and the
  validation half of \<^verbatim>\<open>quant/trade/db_repo.py\<close>.

  A call runs on the trade tables, the backtest tables (where the strategies are) and the rest
  of the world. The credential check, the instrument cache and the time zone database are
  parameters; the cached venue limits are any function of the rest of the world that does not
  raise, as the reader of \<open>VenueLimits\<close> is.
\<close>

record credential =
  cred_user :: uuid
  cred_app :: int
  cred_active :: bool

record 'v svc_env =
  svc_refdata :: refdata
  svc_clock :: "'v \<Rightarrow> int \<times> 'v"
  svc_uuid :: "'v \<Rightarrow> uuid \<times> 'v"
  credential_check :: "int \<Rightarrow> ('v, trade_exn, credential option) call"
  svc_inst :: inst_cache
  product_exchange :: "string \<Rightarrow> string option"
  svc_limits :: "int \<Rightarrow> string \<Rightarrow> string option \<Rightarrow> 'v \<Rightarrow> market_limits \<times> 'v"
  zone :: "string \<Rightarrow> ((int \<Rightarrow> int) \<times> (int \<Rightarrow> int)) option"

type_synonym ('v, 'a) svc_call = "(bt_db \<times> 'v, 'a) db_call"

definition beyond :: "('v \<Rightarrow> 'a \<times> 'v) \<Rightarrow> ('v, 'a) svc_call" where
  "beyond f = outside (\<lambda>(b, v). case f v of (x, v') \<Rightarrow> (Inr x, (b, v')))"

definition beyondR :: "('v, trade_exn, 'a) call \<Rightarrow> ('v, 'a) svc_call" where
  "beyondR f = outside (\<lambda>(b, v). case f v of (x, v') \<Rightarrow> (x, (b, v')))"

text \<open>An exception of the backtest repository, passed on as the text of a database error.\<close>

definition bt_failure :: "bt_exn \<Rightarrow> trade_exn" where
  "bt_failure e =
     (case e of BtPy p \<Rightarrow> PyExn p | BtDriverError m \<Rightarrow> db_error m | ProcedureError c m \<Rightarrow> db_error m
      | _ \<Rightarrow> db_error [])"

definition on_strategies :: "('v, 'a) bt_call \<Rightarrow> ('v, 'a) svc_call" where
  "on_strategies f = outside (\<lambda>w. case f w of (Inl e, w') \<Rightarrow> (Inl (bt_failure e), w') | (Inr x, w') \<Rightarrow> (Inr x, w'))"

section \<open>Validation in the repository\<close>

definition require_text :: "string \<Rightarrow> string \<Rightarrow> ('v, unit) svc_call" where
  "require_text nm v =
     (if strip v = [] then raiseC (TradeValidationError (nm @ '' is required'') 400) else returnC ())"

definition fetch_strategy :: "uuid \<Rightarrow> int \<Rightarrow> ('v, strategy_row option) svc_call" where
  "fetch_strategy sd svid =
     bindC (on_strategies (sp_get_strategy sd (Some svid) None)) (\<lambda>rows.
       returnC (case rows of [] \<Rightarrow> None | r # _ \<Rightarrow> Some r))"

definition strategy_owned_by :: "uuid \<Rightarrow> int \<Rightarrow> uuid \<Rightarrow> ('v, strategy_row) svc_call" where
  "strategy_owned_by sd svid uid =
     bindC (fetch_strategy sd svid) (\<lambda>r.
       case r of
         None \<Rightarrow> raiseC (TradeValidationError ''strategy_id / strategy_vid not found'' 404)
       | Some s \<Rightarrow>
           if s_user_id s \<noteq> nat_str uid then raiseC (TradeValidationError ''strategy does not belong to user'' 403)
           else if logical_delete s then raiseC (TradeValidationError ''strategy is logically deleted'' 400)
           else returnC s)"

definition assert_credential_usable :: "'v svc_env \<Rightarrow> int \<Rightarrow> uuid \<Rightarrow> int \<Rightarrow> ('v, credential) svc_call" where
  "assert_credential_usable env cid uid app =
     bindC (beyondR (credential_check env cid)) (\<lambda>r.
       case r of
         None \<Rightarrow> raiseC (TradeValidationError ''API credential not found or not current'' 404)
       | Some c \<Rightarrow>
           if \<not> cred_active c then raiseC (TradeValidationError ''API credential is not active'' 400)
           else if cred_user c \<noteq> uid then raiseC (TradeValidationError ''API credential does not belong to user'' 403)
           else if cred_app c \<noteq> app then raiseC (TradeValidationError ''app_id does not match API credential'' 400)
           else returnC c)"

definition validate_create_deployment :: "'v svc_env \<Rightarrow> deployment \<Rightarrow> bool \<Rightarrow> ('v, unit) svc_call" where
  "validate_create_deployment env d confirm_live =
     bindC (require_text ''internal_cusip'' (internal_cusip d)) (\<lambda>_.
     bindC (require_text ''user_id'' (user_id d)) (\<lambda>_.
       if is_paper_ind d = N \<and> \<not> confirm_live then
         raiseC (TradeValidationError (''Live trading requires explicit confirmation '' @ em_dash
           @ '' set confirm_live=true'') 400)
       else
         bindC (assert_credential_usable env (api_credential_id d) (app_user_id d) (app_id d)) (\<lambda>_.
         bindC (strategy_owned_by (strategy_id d) (strategy_vid d) (app_user_id d)) (\<lambda>_.
         bindC (on_db (\<lambda>db. Inr (open_deployment (deployment_id d) db, db))) (\<lambda>current.
           case current of
             Some c \<Rightarrow> if app_user_id c \<noteq> app_user_id d
                       then raiseC (TradeValidationError ''deployment_id does not belong to user'' 403) else returnC ()
           | None \<Rightarrow> returnC ())))))"

definition sp_ins_deployment :: "'v svc_env \<Rightarrow> deployment \<Rightarrow> bool \<Rightarrow> int option \<Rightarrow> ('v, deployment) svc_call" where
  "sp_ins_deployment env d confirm_live ts =
     bindC (validate_create_deployment env d confirm_live) (\<lambda>_. write_deployment d ts)"

section \<open>Cadence and first slot\<close>

text \<open>A stored configuration is an object; of another JSON value, on which the code would raise, the
  model reads no key.\<close>

definition config_row :: "json \<Rightarrow> row" where
  "config_row v = (case v of JObj d \<Rightarrow> d | _ \<Rightarrow> [])"

definition require_fitted_interval :: "refdata \<Rightarrow> int option \<Rightarrow> int \<Rightarrow> ('w, trade_exn, unit) call" where
  "require_fitted_interval rd sched fitted =
     (if sched = None \<or> sched = Some fitted then returnC ()
      else
        bindC (lift_py (interval_label rd (the sched))) (\<lambda>wanted.
        bindC (lift_py (interval_label rd fitted)) (\<lambda>fit.
          raiseC (TradeValidationError
            (''cannot schedule this deployment on '' @ wanted @ '': its strategy was fitted on '' @ fit
             @ '' bars, and the schedule decides which bars the live signal is computed from. Use '' @ fit
             @ '', or leave the schedule manual.'') 400))))"

definition should_realign_schedule :: "deployment \<Rightarrow> bool option \<Rightarrow> deployment_status option \<Rightarrow> int option option \<Rightarrow> bool" where
  "should_realign_schedule cur enabled st interval \<longleftrightarrow>
     (case interval of Some (Some i) \<Rightarrow> Some i \<noteq> schedule_tm_interval_id cur | _ \<Rightarrow> False)
     \<or> (schedule_tm_interval_id cur \<noteq> None
        \<and> (enabled = Some True \<and> is_enabled_ind cur \<noteq> Y \<or> st = Some ACTIVE \<and> deployment_status cur = PAUSED))"

definition compute_initial_scheduled_ts ::
  "'v svc_env \<Rightarrow> int \<Rightarrow> int \<Rightarrow> string option \<Rightarrow> int \<Rightarrow> py_exn + int" where
  "compute_initial_scheduled_ts env app iv listing moment =
     bindR (rd_interval_period (svc_refdata env) iv) (\<lambda>period.
     bindR (get_execute_offset (svc_refdata env) app iv) (\<lambda>offset.
     bindR (get_market_calendar (svc_refdata env) listing) (\<lambda>cal.
       case market_close_time cal of
         Some close \<Rightarrow>
           if us_day \<le> period then
             (case zone env (bar_timezone cal) of
                None \<Rightarrow> Inl (KeyError (''No time zone found with key '' @ bar_timezone cal))
              | Some (to_wall, of_wall) \<Rightarrow>
                  next_session_apply_slot to_wall of_wall (Aware moment) (close * us_second) offset)
           else next_apply_slot (Aware moment) period offset
       | None \<Rightarrow> next_apply_slot (Aware moment) period offset)))"

section \<open>The service\<close>

definition preset_of_app :: "refdata \<Rightarrow> int \<Rightarrow> py_exn + preset option" where
  "preset_of_app rd app =
     bindR (mapR (\<lambda>(nm, p). bindR (resolve_app_id rd nm) (\<lambda>i. Inr (nm, i))) ccxt_presets) (\<lambda>ids.
       Inr (preset_for_app (\<lambda>nm. Option.bind (map_of ids nm) id) app))"

definition venue_limits :: "'v svc_env \<Rightarrow> int \<Rightarrow> string \<Rightarrow> ('v, market_limits) svc_call" where
  "venue_limits env app cusip =
     (case resolve_cusip (svc_inst env) cusip app of
        None \<Rightarrow> returnC (no_limits cusip)
      | Some symb \<Rightarrow>
          bindC (lift_py (preset_of_app (svc_refdata env) app)) (\<lambda>p.
          bindC (case p of None \<Rightarrow> returnC None
                 | Some pr \<Rightarrow> raise_or (instrument_default_type pr (svc_inst env) cusip)) (\<lambda>t.
            beyond (svc_limits env app symb t))))"

definition svc_fitted_interval :: "uuid \<Rightarrow> uuid \<Rightarrow> int \<Rightarrow> ('v, int) svc_call" where
  "svc_fitted_interval uid sd svid =
     bindC (strategy_owned_by sd svid uid) (\<lambda>s. raise_or (fitted_interval_id (config_row (config_json s))))"

definition listing_exchange :: "'v svc_env \<Rightarrow> string \<Rightarrow> string option" where
  "listing_exchange env cusip =
     (case product_exchange env cusip of None \<Rightarrow> None | Some e \<Rightarrow> if e = [] then None else Some e)"

definition require_tradable_qty :: "'v svc_env \<Rightarrow> int \<Rightarrow> string \<Rightarrow> rat \<Rightarrow> ('v, unit) svc_call" where
  "require_tradable_qty env app cusip q =
     bindC (venue_limits env app cusip) (\<lambda>lims.
       case undersized lims (fl q) None of
         Some m \<Rightarrow> raiseC (TradeValidationError m 400) | None \<Rightarrow> returnC ())"

definition row_of :: "'v svc_env \<Rightarrow> deployment \<Rightarrow> ('v, deployment \<times> flt option) svc_call" where
  "row_of env d =
     bindC (venue_limits env (app_id d) (internal_cusip d)) (\<lambda>lims. returnC (d, min_qty lims))"

definition first_slot :: "'v svc_env \<Rightarrow> int \<Rightarrow> int \<Rightarrow> string \<Rightarrow> ('v, int option) svc_call" where
  "first_slot env app iv cusip =
     bindC (beyond (svc_clock env)) (\<lambda>moment.
     bindC (lift_py (compute_initial_scheduled_ts env app iv (listing_exchange env cusip) moment)) (\<lambda>ts.
       returnC (Some ts)))"

record create_request =
  cr_deployment_id :: "uuid option"
  cr_strategy_id :: uuid
  cr_strategy_vid :: int
  cr_api_credential_id :: int
  cr_app_id :: int
  cr_internal_cusip :: string
  cr_qty :: rat
  cr_paper :: bool
  cr_confirm_live :: bool
  cr_enabled :: bool
  cr_deployment_status :: deployment_status
  cr_schedule_tm_interval_id :: "int option"

definition ind_of :: "bool \<Rightarrow> ind" where
  "ind_of b = (if b then Y else N)"

definition new_deployment :: "uuid \<Rightarrow> string \<Rightarrow> create_request \<Rightarrow> uuid \<Rightarrow> deployment" where
  "new_deployment uid user req did =
     \<lparr>deployment_id = did, deployment_vid = 0, app_user_id = uid, strategy_id = cr_strategy_id req,
      strategy_vid = cr_strategy_vid req, api_credential_id = cr_api_credential_id req,
      app_id = cr_app_id req, internal_cusip = cr_internal_cusip req, qty = cr_qty req,
      is_paper_ind = ind_of (cr_paper req), is_enabled_ind = ind_of (cr_enabled req),
      deployment_status = cr_deployment_status req,
      schedule_tm_interval_id = cr_schedule_tm_interval_id req, user_id = user, is_open = True\<rparr>"

definition create_deployment ::
  "'v svc_env \<Rightarrow> uuid \<Rightarrow> string \<Rightarrow> create_request \<Rightarrow> ('v, deployment \<times> flt option) svc_call" where
  "create_deployment env uid user req =
     bindC (svc_fitted_interval uid (cr_strategy_id req) (cr_strategy_vid req)) (\<lambda>fitted.
     bindC (require_fitted_interval (svc_refdata env) (cr_schedule_tm_interval_id req) fitted) (\<lambda>_.
     bindC (require_tradable_qty env (cr_app_id req) (cr_internal_cusip req) (cr_qty req)) (\<lambda>_.
     bindC (case cr_deployment_id req of Some i \<Rightarrow> returnC i | None \<Rightarrow> beyond (svc_uuid env)) (\<lambda>did.
     bindC (case cr_schedule_tm_interval_id req of
              None \<Rightarrow> returnC None
            | Some iv \<Rightarrow> first_slot env (cr_app_id req) iv (cr_internal_cusip req)) (\<lambda>ts.
     bindC (sp_ins_deployment env (new_deployment uid user req did) (cr_confirm_live req) ts) (row_of env))))))"

record update_request =
  up_enabled :: "bool option"
  up_deployment_status :: "deployment_status option"
  up_schedule_tm_interval_id :: "int option option"
  up_qty :: "rat option option"

definition get_row :: "'v svc_env \<Rightarrow> uuid \<Rightarrow> uuid \<Rightarrow> ('v, deployment \<times> flt option) svc_call" where
  "get_row env uid did = bindC (open_row uid did) (row_of env)"

definition updated_status :: "deployment \<Rightarrow> update_request \<Rightarrow> deployment_status" where
  "updated_status cur req =
     (let st = (case up_deployment_status req of Some s \<Rightarrow> s | None \<Rightarrow> deployment_status cur)
      in if up_enabled req = Some True \<and> up_deployment_status req = None \<and> st = PAUSED then ACTIVE else st)"

definition updated :: "uuid \<Rightarrow> deployment \<Rightarrow> update_request \<Rightarrow> rat \<Rightarrow> deployment" where
  "updated uid cur req q =
     cur\<lparr>qty := q,
         is_enabled_ind := (case up_enabled req of Some b \<Rightarrow> ind_of b | None \<Rightarrow> is_enabled_ind cur),
         deployment_status := updated_status cur req,
         schedule_tm_interval_id :=
           (case up_schedule_tm_interval_id req of Some i \<Rightarrow> i | None \<Rightarrow> schedule_tm_interval_id cur),
         user_id := nat_str uid\<rparr>"

definition realigns :: "deployment \<Rightarrow> update_request \<Rightarrow> bool" where
  "realigns cur req =
     should_realign_schedule cur (up_enabled req) (up_deployment_status req) (up_schedule_tm_interval_id req)"

lemma realigns_iff:
  "realigns cur req \<longleftrightarrow>
     (\<exists>i. up_schedule_tm_interval_id req = Some (Some i) \<and> schedule_tm_interval_id cur \<noteq> Some i)
   \<or> schedule_tm_interval_id cur \<noteq> None
     \<and> (up_enabled req = Some True \<and> is_enabled_ind cur \<noteq> Y
        \<or> up_deployment_status req = Some ACTIVE \<and> deployment_status cur = PAUSED)"
  by (cases "schedule_tm_interval_id cur")
    (auto simp: realigns_def should_realign_schedule_def split: option.splits)

text \<open>The three decisions of an edit: the cadence it sets, its quantity, its first slot.\<close>

definition edited_cadence :: "'v svc_env \<Rightarrow> uuid \<Rightarrow> deployment \<Rightarrow> update_request \<Rightarrow> ('v, unit) svc_call" where
  "edited_cadence env uid cur req =
     (case up_schedule_tm_interval_id req of
        None \<Rightarrow> returnC ()
      | Some iv \<Rightarrow>
          bindC (svc_fitted_interval uid (strategy_id cur) (strategy_vid cur)) (\<lambda>fitted.
            require_fitted_interval (svc_refdata env) iv fitted))"

definition edited_qty :: "'v svc_env \<Rightarrow> deployment \<Rightarrow> update_request \<Rightarrow> ('v, rat) svc_call" where
  "edited_qty env cur req =
     (case up_qty req of
        None \<Rightarrow> returnC (qty cur)
      | Some None \<Rightarrow> raiseC (TradeValidationError ''qty must be greater than 0'' 400)
      | Some (Some q) \<Rightarrow>
          bindC (require_tradable_qty env (app_id cur) (internal_cusip cur) q) (\<lambda>_. returnC q))"

definition edited_slot :: "'v svc_env \<Rightarrow> deployment \<Rightarrow> update_request \<Rightarrow> int option \<Rightarrow> ('v, int option) svc_call" where
  "edited_slot env cur req sched =
     (case sched of
        Some iv \<Rightarrow> if realigns cur req then first_slot env (app_id cur) iv (internal_cusip cur) else returnC None
      | None \<Rightarrow> returnC None)"

definition update_deployment ::
  "'v svc_env \<Rightarrow> uuid \<Rightarrow> uuid \<Rightarrow> update_request \<Rightarrow> ('v, deployment \<times> flt option) svc_call" where
  "update_deployment env uid did req =
     bindC (get_row env uid did) (\<lambda>(cur, _).
     bindC (edited_cadence env uid cur req) (\<lambda>_.
     bindC (edited_qty env cur req) (\<lambda>q.
     bindC (edited_slot env cur req (schedule_tm_interval_id (updated uid cur req q))) (\<lambda>ts.
     bindC (write_deployment (updated uid cur req q) ts) (row_of env)))))"

definition stop_deployment :: "'v svc_env \<Rightarrow> uuid \<Rightarrow> uuid \<Rightarrow> ('v, deployment \<times> flt option) svc_call" where
  "stop_deployment env uid did =
     bindC (get_row env uid did) (\<lambda>(cur, lim).
       if deployment_status cur = STOPPED then returnC (cur, lim)
       else
         bindC (write_deployment (cur\<lparr>is_enabled_ind := N, deployment_status := STOPPED, user_id := nat_str uid\<rparr>) None)
           (row_of env))"

definition schedule_options :: "uuid \<Rightarrow> uuid \<Rightarrow> int \<Rightarrow> ('v, int list) svc_call" where
  "schedule_options uid sd svid = bindC (svc_fitted_interval uid sd svid) (\<lambda>i. returnC [i])"

fun rows_of :: "'v svc_env \<Rightarrow> deployment list \<Rightarrow> ('v, (deployment \<times> flt option) list) svc_call" where
  "rows_of env [] = returnC []"
| "rows_of env (d # ds) = bindC (row_of env d) (\<lambda>r. bindC (rows_of env ds) (\<lambda>rs. returnC (r # rs)))"

definition list_deployments :: "'v svc_env \<Rightarrow> uuid \<Rightarrow> ('v, (deployment \<times> flt option) list) svc_call" where
  "list_deployments env uid =
     bindC (on_db (\<lambda>db. Inr (sp_get_deployment_rows uid None db, db))) (rows_of env)"

section \<open>What an edit does to the tables\<close>

text \<open>Everything but the one write leaves deployments and schedules alone.\<close>

lemma diary_only_beyond: "diary_only (beyond f)" "diary_only (beyondR g)" "diary_only (on_strategies h)"
  by (simp_all add: beyond_def beyondR_def on_strategies_def diary_only_outside)

lemma diary_only_lift: "diary_only (lift_py r)" "diary_only (raise_or r')"
  by (cases r; simp add: lift_py_def diary_only_pure) (cases r'; simp add: raise_or_def diary_only_pure)

lemmas diary_only_svc = diary_only_bindC diary_only_beyond diary_only_lift diary_only_pure

lemma diary_only_strategy: "diary_only (strategy_owned_by sd svid uid)"
  unfolding strategy_owned_by_def fetch_strategy_def by (auto intro!: diary_only_svc split: option.split)

lemma diary_only_fitted: "diary_only (svc_fitted_interval uid sd svid)"
  unfolding svc_fitted_interval_def by (intro diary_only_svc diary_only_strategy)

lemma diary_only_require: "diary_only (require_fitted_interval rd sched fitted)"
  unfolding require_fitted_interval_def by (auto intro!: diary_only_svc)

lemma diary_only_limits: "diary_only (venue_limits env app cusip)"
  unfolding venue_limits_def by (auto intro!: diary_only_svc split: option.split)

lemma diary_only_tradable: "diary_only (require_tradable_qty env app cusip q)"
  unfolding require_tradable_qty_def by (auto intro!: diary_only_svc diary_only_limits split: option.split)

lemma diary_only_row: "diary_only (row_of env d)"
  unfolding row_of_def by (intro diary_only_svc diary_only_limits)

lemma diary_only_slot: "diary_only (first_slot env app iv cusip)"
  unfolding first_slot_def by (intro diary_only_svc)

lemma pending_same:
  assumes "same_schedule_tables db db'"
  shows "pending db' = pending db" "open_deployment x db' = open_deployment x db"
    "current_schedule x db' = current_schedule x db" "db_wf db' = db_wf db" "proc_ts d ts db' = proc_ts d ts db"
    "new_version d db' = new_version d db"
proof -
  have eq: "deployments db' = deployments db" "schedules db' = schedules db" "db_now db' = db_now db"
    using assms by (auto simp: same_schedule_tables_def)
  then show o: "open_deployment x db' = open_deployment x db" "current_schedule x db' = current_schedule x db" for x
    by (simp_all add: open_deployment_def current_schedule_def)
  then show "pending db' = pending db" by (simp add: pending_def fun_eq_iff)
  show "db_wf db' = db_wf db" using eq by (simp add: db_wf_def)
  show nv: "new_version d db' = new_version d db" using eq by (simp add: new_version_def)
  show "proc_ts d ts db' = proc_ts d ts db" using eq o nv by (cases ts) (simp_all add: proc_ts_def)
qed

lemma same_faults: "same_schedule_tables db (db\<lparr>faults := fs\<rparr>)"
  by (simp add: same_schedule_tables_def)

text \<open>The write, when it returns: the next version is open, and its cursor is what the procedure says.\<close>

definition written :: "deployment \<Rightarrow> int option \<Rightarrow> trade_db \<Rightarrow> trade_db \<Rightarrow> bool" where
  "written d ts db db' \<longleftrightarrow> db_wf db'
     \<and> (\<forall>x. open_deployment x db' = (if x = deployment_id d then Some (new_version d db) else open_deployment x db))
     \<and> pending db' = (pending db)(deployment_id d :=
          (if can_fire d \<and> schedule_tm_interval_id d \<noteq> None then Some (proc_ts d ts db) else None))"

lemma written_proc:
  assumes "db_wf db" "same_schedule_tables db db1" "same_schedule_tables (sp_ins_deployment_proc d ts db1) db'"
  shows "written d ts db db'"
proof -
  have wf: "db_wf db1" using assms(1) pending_same(4) [OF assms(2)] by simp
  show ?thesis
    unfolding written_def
    using pending_same [OF assms(3)] pending_after_proc [OF wf, of d ts] sp_ins_deployment_proc_wf [OF wf]
      pending_same [OF assms(2)] by auto
qed

lemma bind_on_db:
  assumes "bindC (on_db k) f (db, v) = (Inr y, w')"
  obtains fs x db1 where "k (db\<lparr>faults := fs\<rparr>) = Inr (x, db1)" "f x (db1, v) = (Inr y, w')"
proof -
  obtain x w1 where "on_db k (db, v) = (Inr x, w1)" "f x w1 = (Inr y, w')"
    using assms by (auto simp: bindC_Inr_iff)
  then show thesis by (cases rule: on_db_cases) (auto intro: that)
qed

lemma write_returns:
  assumes "db_wf db" "write_deployment d ts (db, v) = (Inr r, (db', v'))"
  shows "r = new_version d db \<and> written d ts db db' \<and> v' = v"
proof -
  from assms(2) [unfolded write_deployment_def] obtain fs fs' rs where
    rows: "sp_get_deployment_rows (app_user_id d) (Some (deployment_id d))
        ((sp_ins_deployment_proc d ts (db\<lparr>faults := fs\<rparr>))\<lparr>faults := fs'\<rparr>) = r # rs"
    and w': "(db', v') = ((sp_ins_deployment_proc d ts (db\<lparr>faults := fs\<rparr>))\<lparr>faults := fs'\<rparr>, v)"
    by (elim bind_on_db) (auto split: list.splits)
  let ?db1 = "sp_ins_deployment_proc d ts (db\<lparr>faults := fs\<rparr>)"
  have dep: "deployments (?db1\<lparr>faults := fs'\<rparr>) = deployments (with_version d db)"
    by (simp add: sp_ins_deployment_proc_alt with_version_def new_version_def)
  have "r = new_version d db"
    using rows unfolding sp_get_deployment_rows_def dep by (auto simp: with_version_def)
  moreover have "written d ts db db'"
    using written_proc [OF assms(1) same_faults] w' same_faults by blast
  ultimately show ?thesis using w' by simp
qed

text \<open>The row an edit starts from is the open version of this user's deployment.\<close>

lemma get_row_returns:
  assumes "db_wf db" "get_row env uid did (db, v) = (Inr (cur, lot), (db1, v1))"
  shows "open_deployment did db = Some cur \<and> app_user_id cur = uid \<and> deployment_id cur = did
    \<and> same_schedule_tables db db1"
proof -
  obtain w where o: "open_row uid did (db, v) = (Inr cur, w)" and r: "row_of env cur w = (Inr (cur, lot), (db1, v1))"
    using assms(2) by (auto simp: get_row_def bindC_Inr_iff row_of_def)
  obtain rows fs where rows: "sp_get_deployment_rows uid (Some did) (db\<lparr>faults := fs\<rparr>) = cur # rows"
    and w: "w = (db\<lparr>faults := fs\<rparr>, v)"
    using o unfolding open_row_def by (elim bind_on_db) (auto split: list.splits)
  have cur: "cur \<in> set (deployments db)" "app_user_id cur = uid" "is_open cur" "deployment_id cur = did"
    using list.set_intros(1) [of cur rows, folded rows] by (auto simp: sp_get_deployment_rows_def)
  moreover have "open_deployment did db = Some cur"
    unfolding open_deployment_def using assms(1) cur by (intro filter_le1_find) (auto simp: db_wf_def)
  moreover have "same_schedule_tables db db1"
    using diary_onlyD [OF diary_only_row r] by (simp add: w same_schedule_tables_def)
  ultimately show ?thesis by simp
qed

lemma written_same:
  assumes "written d ts db1 db2" "same_schedule_tables db db1" "same_schedule_tables db2 db'"
  shows "written d ts db db' \<and> new_version d db1 = new_version d db"
  using assms(1) pending_same [OF assms(2)] pending_same [OF assms(3)] by (auto simp: written_def)

lemma write_row_returns:
  assumes "db_wf db" "same_schedule_tables db db1"
    and "bindC (write_deployment d ts) (row_of env) (db1, v) = (Inr (r, lot), (db', v'))"
  shows "r = new_version d db \<and> written d ts db db'"
proof -
  obtain x db2 v2 where w: "write_deployment d ts (db1, v) = (Inr x, (db2, v2))"
    and r: "row_of env x (db2, v2) = (Inr (r, lot), (db', v'))"
    using assms(3) by (auto simp: bindC_Inr_iff)
  have "x = r" using r by (auto simp: row_of_def bindC_Inr_iff)
  have wf: "db_wf db1" using assms(1) pending_same(4) [OF assms(2)] by simp
  have "same_schedule_tables db2 db'" using diary_onlyD [OF diary_only_row r] by simp
  with write_returns [OF wf w] written_same [OF _ assms(2)] \<open>x = r\<close> show ?thesis by metis
qed

lemma stop_returns:
  assumes "db_wf db" "stop_deployment env uid did (db, v) = (Inr (r, lot), (db', v'))"
  shows "db_wf db' \<and> open_deployment did db' = Some r \<and> deployment_status r = STOPPED
    \<and> pending db' = (pending db)(did := None)"
proof -
  obtain cur lot' db1 v1 where row: "get_row env uid did (db, v) = (Inr (cur, lot'), (db1, v1))"
    and rest: "(if deployment_status cur = STOPPED then returnC (cur, lot')
       else bindC (write_deployment (cur\<lparr>is_enabled_ind := N, deployment_status := STOPPED, user_id := nat_str uid\<rparr>) None)
           (row_of env)) (db1, v1) = (Inr (r, lot), (db', v'))"
    using assms(2) by (auto simp: stop_deployment_def bindC_Inr_iff split: prod.splits)
  note cur = get_row_returns [OF assms(1) row]
  show ?thesis
  proof (cases "deployment_status cur = STOPPED")
    case True
    then have "r = cur" "db' = db1" using rest by auto
    moreover have "pending db did = None"
      using cur True by (auto simp: pending_def can_fire_def split: option.splits)
    ultimately show ?thesis
      using cur True pending_same [of db db1] assms(1) by (auto simp: fun_eq_iff)
  next
    case False
    with rest have "bindC (write_deployment (cur\<lparr>is_enabled_ind := N, deployment_status := STOPPED, user_id := nat_str uid\<rparr>) None)
           (row_of env) (db1, v1) = (Inr (r, lot), (db', v'))" by simp
    from write_row_returns [OF assms(1) _ this] cur show ?thesis
      by (simp add: written_def can_fire_def)
  qed
qed

text \<open>What the first slot is computed from: some reading of the clock.\<close>

lemma first_slot_returns:
  assumes "first_slot env app iv cusip w = (Inr ts, w')"
  shows "\<exists>v slot. ts = Some slot
    \<and> compute_initial_scheduled_ts env app iv (listing_exchange env cusip) (fst (svc_clock env v)) = Inr slot"
proof -
  obtain db b v where w: "w = (db, (b, v))" by (cases w) auto
  show ?thesis
    using assms
    by (auto simp: w first_slot_def beyond_def outside_def lift_py_def bindC_def
        split: prod.splits sum.splits intro!: exI [of _ v])
qed

lemma diary_only_edits:
  "diary_only (edited_cadence env uid cur req)" "diary_only (edited_qty env cur req)"
  "diary_only (edited_slot env cur req sched)"
  unfolding edited_cadence_def edited_qty_def edited_slot_def
  by (auto intro!: diary_only_svc diary_only_fitted diary_only_require diary_only_tradable diary_only_slot
      split: option.split)

lemma update_returns:
  assumes "db_wf db" "update_deployment env uid did req (db, v) = (Inr (r, lot), (db', v'))"
  obtains cur q ts where "open_deployment did db = Some cur" "app_user_id cur = uid" "deployment_id cur = did"
    and "r = new_version (updated uid cur req q) db" "written (updated uid cur req q) ts db db'"
    and "\<not> realigns cur req \<Longrightarrow> ts = None"
    and "\<And>iv. realigns cur req \<Longrightarrow> schedule_tm_interval_id r = Some iv \<Longrightarrow>
      \<exists>v slot. ts = Some slot \<and> compute_initial_scheduled_ts env (app_id cur) iv
        (listing_exchange env (internal_cusip cur)) (fst (svc_clock env v)) = Inr slot"
proof -
  obtain cur lot' w1 w2 q w3 ts w4 where row: "get_row env uid did (db, v) = (Inr (cur, lot'), w1)"
    and g: "edited_cadence env uid cur req w1 = (Inr (), w2)" and q: "edited_qty env cur req w2 = (Inr q, w3)"
    and s: "edited_slot env cur req (schedule_tm_interval_id (updated uid cur req q)) w3 = (Inr ts, w4)"
    and w: "bindC (write_deployment (updated uid cur req q) ts) (row_of env) w4 = (Inr (r, lot), (db', v'))"
    using assms(2) unfolding update_deployment_def by (auto simp: bindC_Inr_iff [of "get_row env uid did"]
        bindC_Inr_iff [of "edited_cadence env uid _ req"] bindC_Inr_iff [of "edited_qty env _ req"]
        bindC_Inr_iff [of "edited_slot env _ req _"])
  have row': "get_row env uid did (db, v) = (Inr (cur, lot'), (fst w1, snd w1))" using row by simp
  note cur = get_row_returns [OF assms(1) row']
  note same_steps = diary_onlyD [OF diary_only_edits(1) g] diary_onlyD [OF diary_only_edits(2) q]
    diary_onlyD [OF diary_only_edits(3) s]
  have same: "same_schedule_tables db (fst w4)"
    using cur same_steps by (meson same_schedule_tables_trans)
  have w': "bindC (write_deployment (updated uid cur req q) ts) (row_of env) (fst w4, snd w4) = (Inr (r, lot), (db', v'))"
    using w by simp
  note wr = write_row_returns [OF assms(1) same w']
  show thesis
  proof (rule that [of cur q ts])
    show "\<not> realigns cur req \<Longrightarrow> ts = None" using s by (auto simp: edited_slot_def split: option.splits)
    fix iv assume "realigns cur req" "schedule_tm_interval_id r = Some iv"
    then show "\<exists>v slot. ts = Some slot \<and> compute_initial_scheduled_ts env (app_id cur) iv
        (listing_exchange env (internal_cusip cur)) (fst (svc_clock env v)) = Inr slot"
      using s wr first_slot_returns [of env "app_id cur" iv "internal_cusip cur" w3 ts w4]
      by (simp add: edited_slot_def)
  qed (use cur wr in simp_all)
qed

section \<open>Properties\<close>

lemma never_due:
  assumes "db_wf db" "pending db did = None"
  shows "did \<notin> (\<lambda>r. deployment_id (due_dep r)) ` set (sp_get_missed_due periods iv (db\<lparr>db_now := t\<rparr>))"
proof (cases "periods iv")
  case None
  then show ?thesis by (simp add: sp_get_missed_due_def)
next
  case (Some p)
  have wf: "db_wf (db\<lparr>db_now := t\<rparr>)" using assms(1) by (simp add: db_wf_def)
  have "pending (db\<lparr>db_now := t\<rparr>) did = None"
    using assms(2) by (simp add: pending_def open_deployment_def current_schedule_def)
  then show ?thesis using sp_get_missed_due_iff [OF wf, where periods = periods and iv = iv, OF Some] by auto
qed

text \<open>C17: The kill switch holds. After a stop, or an edit that disables, pauses or stops a
  deployment, has returned, the scheduler never finds the deployment due again, at any time and
  on any cadence, until somebody writes it anew; no other deployment's cursor has moved.\<close>

theorem kill_switch:
  assumes "db_wf db"
    and "stop_deployment env uid did (db, v) = (Inr (r, lot), (db', v'))
      \<or> update_deployment env uid did req (db, v) = (Inr (r, lot), (db', v'))
        \<and> (up_enabled req = Some False \<or> up_deployment_status req \<in> {Some PAUSED, Some STOPPED})"
  shows "db_wf db' \<and> open_deployment did db' = Some r
    \<and> (\<forall>periods iv t. did \<notin> (\<lambda>r. deployment_id (due_dep r)) ` set (sp_get_missed_due periods iv (db'\<lparr>db_now := t\<rparr>)))
    \<and> (\<forall>x. x \<noteq> did \<longrightarrow> pending db' x = pending db x)"
proof -
  have main: "db_wf db' \<and> open_deployment did db' = Some r \<and> pending db' = (pending db)(did := None)"
    using assms(2)
  proof
    assume "stop_deployment env uid did (db, v) = (Inr (r, lot), (db', v'))"
    from stop_returns [OF assms(1) this] show ?thesis by simp
  next
    assume u: "update_deployment env uid did req (db, v) = (Inr (r, lot), (db', v'))
        \<and> (up_enabled req = Some False \<or> up_deployment_status req \<in> {Some PAUSED, Some STOPPED})"
    then obtain cur q ts where cur: "deployment_id cur = did"
      and r: "r = new_version (updated uid cur req q) db" "written (updated uid cur req q) ts db db'"
      using update_returns [OF assms(1)] by metis
    have "\<not> can_fire (updated uid cur req q)"
      using u by (auto simp: can_fire_def updated_def updated_status_def ind_of_def Let_def)
    then show ?thesis
      using r cur by (simp add: written_def updated_def)
  qed
  then show ?thesis using never_due [of db' did] by simp
qed

text \<open>An aligned slot on a market that never closes is the next one after the clock.\<close>

lemma continuous_slot:
  assumes "compute_initial_scheduled_ts env app iv listing t = Inr slot"
    and "rd_interval_period (svc_refdata env) iv = Inr period"
    and "get_market_calendar (svc_refdata env) listing = Inr cal" "market_close_time cal = None"
  shows "t < slot \<and> slot \<le> t + period"
proof -
  obtain off where "next_apply_slot (Aware t) period off = Inr slot"
    using assms by (auto simp: compute_initial_scheduled_ts_def bindR_Inr_iff)
  from next_apply_slot_spec(1,3) [OF this] show ?thesis by (simp add: as_utc_def)
qed


text \<open>Who may create what.\<close>

lemma strategy_owned_returns:
  assumes "strategy_owned_by sd svid uid (db, (b, v)) = (Inr s, w')"
  shows "s \<in> set (strategy_rows b) \<and> s_strategy_id s = sd \<and> s_strategy_vid s = svid
    \<and> s_user_id s = nat_str uid \<and> \<not> logical_delete s"
proof -
  obtain rows w1 where g: "sp_get_strategy sd (Some svid) None (b, v) = (Inr rows, w1)"
    and s: "\<exists>rs. rows = s # rs" "s_user_id s = nat_str uid" "\<not> logical_delete s"
    using assms
    by (auto simp: strategy_owned_by_def fetch_strategy_def on_strategies_def outside_def bindC_Inr_iff
        split: prod.splits sum.splits option.splits list.splits if_splits)
  from g [unfolded sp_get_strategy_def] obtain sl b1 where i: "interfere b = (sl, b1)"
    and rows: "rows = sp_get_strategy_proc sd (ByVid svid) b1"
    by (cases rule: on_bt_cases) auto
  have "s \<in> set (sp_get_strategy_proc sd (ByVid svid) b1)"
    using s(1) rows by (metis list.set_intros(1))
  then show ?thesis
    using s interfere_frame(1) [OF i] by (simp add: sp_get_strategy_proc_def)
qed

lemma credential_usable_returns:
  assumes "assert_credential_usable env cid uid app (db, (b, v)) = (Inr c, w')"
  shows "cred_active c \<and> cred_user c = uid \<and> cred_app c = app
    \<and> fst (credential_check env cid v) = Inr (Some c)"
  using assms
  by (auto simp: assert_credential_usable_def beyondR_def outside_def bindC_Inr_iff
      split: prod.splits option.splits if_splits)

lemma tradable_returns:
  assumes "require_tradable_qty env app cusip q (db, (b, v)) = (Inr (), w')"
    and "resolve_cusip (svc_inst env) cusip app = Some symb"
  shows "\<exists>t u. undersized (fst (svc_limits env app symb t u)) (fl q) None = None"
proof -
  obtain lims w1 where l: "venue_limits env app cusip (db, (b, v)) = (Inr lims, w1)"
    and ok: "undersized lims (fl q) None = None"
    using assms(1) by (auto simp: require_tradable_qty_def bindC_Inr_iff split: option.splits)
  from l assms(2) obtain t w2 where "beyond (svc_limits env app symb t) w2 = (Inr lims, w1)"
    by (auto simp: venue_limits_def bindC_Inr_iff)
  moreover obtain db2 b2 u where "w2 = (db2, (b2, u))" by (cases w2) auto
  ultimately have "fst (svc_limits env app symb t u) = lims"
    by (auto simp: beyond_def outside_def split: prod.splits)
  then show ?thesis using ok by metis
qed

lemma validate_returns:
  assumes "validate_create_deployment env d confirm w = (Inr (), w')"
  shows "(is_paper_ind d = N \<longrightarrow> confirm)
    \<and> (\<exists>u c. fst (credential_check env (api_credential_id d) u) = Inr (Some c)
         \<and> cred_active c \<and> cred_user c = app_user_id d \<and> cred_app c = app_id d)
    \<and> (\<forall>old. open_deployment (deployment_id d) (fst w) = Some old \<longrightarrow> app_user_id old = app_user_id d)
    \<and> same_schedule_tables (fst w) (fst w')"
proof -
  have texts: "require_text nm x w = (Inr (), w1) \<Longrightarrow> w1 = w" for nm x w1 and w :: "trade_db \<times> bt_db \<times> 'a"
    by (auto simp: require_text_def split: if_splits)
  obtain c s w2 w3 cur where live: "is_paper_ind d = N \<longrightarrow> confirm"
    and c: "assert_credential_usable env (api_credential_id d) (app_user_id d) (app_id d) w = (Inr c, w2)"
    and s: "strategy_owned_by (strategy_id d) (strategy_vid d) (app_user_id d) w2 = (Inr s, w3)"
    and o: "on_db (\<lambda>db. Inr (open_deployment (deployment_id d) db, db)) w3 = (Inr cur, w')"
    and mine: "\<forall>old. app_user_id old = app_user_id d \<or> cur \<noteq> Some old"
    using assms
    by (auto simp: validate_create_deployment_def bindC_Inr_iff dest!: texts split: if_splits option.splits) blast+
  have "diary_only (assert_credential_usable env (api_credential_id d) (app_user_id d) (app_id d))"
    unfolding assert_credential_usable_def by (auto intro!: diary_only_svc split: option.split)
  from diary_onlyD [OF this c] have 1: "same_schedule_tables (fst w) (fst w2)" .
  from diary_onlyD [OF diary_only_strategy s] have 2: "same_schedule_tables (fst w2) (fst w3)" .
  obtain db3 x3 where w3: "w3 = (db3, x3)" by (cases w3)
  from o [unfolded w3] obtain fs where cur: "cur = open_deployment (deployment_id d) (db3\<lparr>faults := fs\<rparr>)"
      and w': "w' = (db3\<lparr>faults := fs\<rparr>, x3)"
    by (cases rule: on_db_cases) auto
  have same: "same_schedule_tables (fst w) (fst w')"
    using 1 2 w3 w' same_faults [of db3 fs] by (metis fst_conv same_schedule_tables_trans)
  moreover have "cur = open_deployment (deployment_id d) (fst w)"
    using pending_same(2) [OF same] cur w' by simp
  moreover obtain db b u where "w = (db, (b, u))" by (cases w) auto
  ultimately show ?thesis
    using live mine credential_usable_returns [of env "api_credential_id d" "app_user_id d" "app_id d"] c by blast
qed

lemma fitted_returns:
  assumes "svc_fitted_interval uid sd svid (db, (b, v)) = (Inr i, w')"
  shows "\<exists>s \<in> set (strategy_rows b). s_strategy_id s = sd \<and> s_strategy_vid s = svid
    \<and> s_user_id s = nat_str uid \<and> \<not> logical_delete s
    \<and> fitted_interval_id (config_row (config_json s)) = Inr i"
proof -
  obtain s w1 where "strategy_owned_by sd svid uid (db, (b, v)) = (Inr s, w1)"
    "fitted_interval_id (config_row (config_json s)) = Inr i"
    using assms unfolding svc_fitted_interval_def bindC_Inr_iff raise_or_Inr by blast
  then show ?thesis using strategy_owned_returns [of sd svid uid db b v s w1] by blast
qed

lemma fitted_only:
  "require_fitted_interval rd sched fitted w = (Inr (), w') \<Longrightarrow> sched = None \<or> sched = Some fitted"
  by (auto simp: require_fitted_interval_def bindC_Inr_iff split: if_splits)

text \<open>C18: Nothing is deployed without authority. When a create returns, the strategy version exists,
  is the user's and is not deleted; a cadence, if any, is the one it was fitted on; the
  credential is current, active, the user's and of the app; live trading was confirmed; an
  existing deployment under the same id was the user's; the quantity passed the venue's lot rule
  when the venue lists the instrument; and the row returned is the open version the tables now
  hold.\<close>

theorem create_authorised:
  assumes "db_wf db" "create_deployment env uid user req (db, (b, v)) = (Inr (r, lot), (db', v'))"
  shows "(\<exists>s \<in> set (strategy_rows b). s_strategy_id s = cr_strategy_id req \<and> s_strategy_vid s = cr_strategy_vid req
       \<and> s_user_id s = nat_str uid \<and> \<not> logical_delete s
       \<and> (\<forall>i. cr_schedule_tm_interval_id req = Some i \<longrightarrow> fitted_interval_id (config_row (config_json s)) = Inr i))
    \<and> (\<exists>u c. fst (credential_check env (cr_api_credential_id req) u) = Inr (Some c)
         \<and> cred_active c \<and> cred_user c = uid \<and> cred_app c = cr_app_id req)
    \<and> (cr_paper req \<or> cr_confirm_live req)
    \<and> (\<forall>old. open_deployment (deployment_id r) db = Some old \<longrightarrow> app_user_id old = uid)
    \<and> (\<forall>symb. resolve_cusip (svc_inst env) (cr_internal_cusip req) (cr_app_id req) = Some symb \<longrightarrow>
         (\<exists>t u. undersized (fst (svc_limits env (cr_app_id req) symb t u)) (fl (cr_qty req)) None = None))
    \<and> open_deployment (deployment_id r) db' = Some r \<and> app_user_id r = uid \<and> qty r = cr_qty req \<and> db_wf db'"
proof -
  let ?ids = "case cr_deployment_id req of Some i \<Rightarrow> returnC i | None \<Rightarrow> beyond (svc_uuid env)"
  let ?ts = "case cr_schedule_tm_interval_id req of None \<Rightarrow> returnC None
      | Some iv \<Rightarrow> first_slot env (cr_app_id req) iv (cr_internal_cusip req)"
  obtain fitted w1 w2 w3 did w4 ts w5 x w6 w7 where
    f: "svc_fitted_interval uid (cr_strategy_id req) (cr_strategy_vid req) (db, (b, v)) = (Inr fitted, w1)"
    and g: "require_fitted_interval (svc_refdata env) (cr_schedule_tm_interval_id req) fitted w1 = (Inr (), w2)"
    and q: "require_tradable_qty env (cr_app_id req) (cr_internal_cusip req) (cr_qty req) w2 = (Inr (), w3)"
    and i: "?ids w3 = (Inr did, w4)" and t: "?ts w4 = (Inr ts, w5)"
    and va: "validate_create_deployment env (new_deployment uid user req did) (cr_confirm_live req) w5 = (Inr (), w6)"
    and wr: "write_deployment (new_deployment uid user req did) ts w6 = (Inr x, w7)"
    and ro: "row_of env x w7 = (Inr (r, lot), (db', v'))"
    using assms(2) unfolding create_deployment_def sp_ins_deployment_def
    by (auto simp: bindC_Inr_iff [where m = "svc_fitted_interval _ _ _"] bindC_Inr_iff [where m = "require_fitted_interval _ _ _"]
        bindC_Inr_iff [where m = "require_tradable_qty _ _ _ _"] bindC_Inr_iff [where m = ?ids] bindC_Inr_iff [where m = ?ts]
        bindC_Inr_iff [where f = "row_of env"] bindC_Inr_iff [where m = "validate_create_deployment _ _ _"])
  let ?d = "new_deployment uid user req did"
  have steps: "diary_only ?ids" "diary_only ?ts"
    by (auto intro!: diary_only_svc diary_only_slot split: option.split)
  have "same_schedule_tables db (fst w5)"
    using diary_onlyD [OF diary_only_fitted f] diary_onlyD [OF diary_only_require g]
      diary_onlyD [OF diary_only_tradable q] diary_onlyD [OF steps(1) i] diary_onlyD [OF steps(2) t]
    by (metis fst_conv same_schedule_tables_trans)
  then have same: "same_schedule_tables db (fst w6)" and old: "open_deployment x (fst w5) = open_deployment x db" for x
    using validate_returns [OF va] pending_same(2) same_schedule_tables_trans by blast+
  have "bindC (write_deployment ?d ts) (row_of env) (fst w6, snd w6) = (Inr (r, lot), (db', v'))"
    using wr ro by (simp add: bindC_def)
  from write_row_returns [OF assms(1) same this]
  have r: "r = new_version ?d db" "written ?d ts db db'" by simp_all
  have d: "deployment_id ?d = did" "app_user_id ?d = uid" "api_credential_id ?d = cr_api_credential_id req"
    "app_id ?d = cr_app_id req" "is_paper_ind ?d = ind_of (cr_paper req)" "qty ?d = cr_qty req"
    by (simp_all add: new_deployment_def)
  obtain db2 b2 v2 where "w2 = (db2, (b2, v2))" by (cases w2) auto
  then have "require_tradable_qty env (cr_app_id req) (cr_internal_cusip req) (cr_qty req) (db2, (b2, v2)) = (Inr (), w3)"
    using q by simp
  from tradable_returns [OF this] have lot: "\<forall>symb. resolve_cusip (svc_inst env) (cr_internal_cusip req) (cr_app_id req) = Some symb \<longrightarrow>
         (\<exists>t u. undersized (fst (svc_limits env (cr_app_id req) symb t u)) (fl (cr_qty req)) None = None)"
    by blast
  have "cr_paper req \<or> cr_confirm_live req"
    using validate_returns [OF va] d(5) by (cases "cr_paper req") (simp_all add: ind_of_def)
  then show ?thesis
    using fitted_returns [OF f] fitted_only [OF g] validate_returns [OF va] lot r old d
    by (intro conjI) (auto simp: written_def)
qed

section \<open>Witnesses\<close>

text \<open>An hourly deployment with half a minute of lead; the clock stands at 200 seconds.\<close>

definition demo_refdata :: refdata where
  "demo_refdata =
     \<lparr>catalog = (\<lambda>t. if t = ''tm_interval'' then
          Inr [[(''tm_interval_id'', JInt 5), (''name'', JStr ''HOURLY''), (''period_length'', JStr ''1:00:00'')]]
        else if t = ''market_calendar'' then
          Inr [[(''listing_exchange'', JNull), (''bar_timezone'', JStr ''UTC'')]]
        else Inl (ValueError (''refdata.'' @ t @ '' is empty''))),
      config = (\<lambda>t. if t = ''app_apply_timing'' then
          Inr [[(''app_id'', JInt 4), (''tm_interval_id'', JInt 5), (''execute_offset'', JStr ''0:00:30'')]]
        else Inl (ValueError (''config.'' @ t @ '' is empty'')))\<rparr>"

definition demo_svc :: "unit svc_env" where
  "demo_svc =
     \<lparr>svc_refdata = demo_refdata, svc_clock = (\<lambda>v. (200000000, v)), svc_uuid = (\<lambda>v. (8, v)),
      credential_check = (\<lambda>i. returnC (Some \<lparr>cred_user = 1, cred_app = 4, cred_active = True\<rparr>)),
      svc_inst = \<lparr>resolve_cusip = (\<lambda>c a. None), product_issue_type = (\<lambda>c. None)\<rparr>,
      product_exchange = (\<lambda>c. None), svc_limits = (\<lambda>a symb t v. (no_limits symb, v)), zone = (\<lambda>z. None)\<rparr>"

definition demo_strategies :: bt_db where
  "demo_strategies =
     \<lparr>queue_rows = [],
      strategy_rows = [\<lparr>s_strategy_id = 2, s_strategy_vid = 1, strategy_nm = ''BTC:HOURLY'',
        config_json = JObj [(''tm_interval_id'', JInt 5)], s_user_id = ''1'', is_best = True,
        logical_delete = False, s_open = True\<rparr>],
      result_rows = [], promotion_rows = [], queue_statuses = [], bt_clock = 0, next_uuid = 9, bt_slots = []\<rparr>"

definition returned :: "('e + 'a) \<times> 'w \<Rightarrow> bool" where
  "returned x = (case fst x of Inl e \<Rightarrow> False | Inr y \<Rightarrow> True)"

lemma returnedE:
  assumes "returned (x :: ('e + 'a \<times> 'b) \<times> trade_db \<times> 'w)"
  obtains r l db w where "x = (Inr (r, l), (db, w))"
  using assms by (cases x) (auto simp: returned_def split: sum.splits)

definition no_edit :: update_request where
  "no_edit = \<lparr>up_enabled = None, up_deployment_status = None, up_schedule_tm_interval_id = None, up_qty = None\<rparr>"

definition disabled_db :: trade_db where
  "disabled_db = demo_db\<lparr>deployments := [demo_deployment\<lparr>is_enabled_ind := N\<rparr>]\<rparr>"

definition demo_create :: create_request where
  "demo_create =
     \<lparr>cr_deployment_id = None, cr_strategy_id = 2, cr_strategy_vid = 1, cr_api_credential_id = 3, cr_app_id = 4,
      cr_internal_cusip = ''BTCUSDT'', cr_qty = 1, cr_paper = True, cr_confirm_live = False, cr_enabled = True,
      cr_deployment_status = CREATED, cr_schedule_tm_interval_id = Some 5\<rparr>"

lemma demo_edits_return:
  "returned (stop_deployment demo_svc 1 7 (demo_db, (demo_strategies, ())))"
  "returned (update_deployment demo_svc 1 7 (no_edit\<lparr>up_enabled := Some True\<rparr>) (disabled_db, (demo_strategies, ())))"
  "returned (create_deployment demo_svc 1 ''ann'' demo_create (demo_db, (demo_strategies, ())))"
  by code_simp+

theorem kill_switch_witness:
  "\<exists>r lot db' v'. stop_deployment demo_svc 1 7 (demo_db, (demo_strategies, ())) = (Inr (r, lot), (db', v'))
     \<and> (\<forall>periods iv t. 7 \<notin> (\<lambda>r. deployment_id (due_dep r)) ` set (sp_get_missed_due periods iv (db'\<lparr>db_now := t\<rparr>)))"
proof -
  obtain r lot db' v' where run: "stop_deployment demo_svc 1 7 (demo_db, (demo_strategies, ())) = (Inr (r, lot), (db', v'))"
    using demo_edits_return(1) by (rule returnedE)
  with kill_switch [OF demo_db_wf disjI1 [OF run]] show ?thesis by blast
qed


theorem create_authorised_witness:
  "\<exists>r lot db' v'. create_deployment demo_svc 1 ''ann'' demo_create (demo_db, (demo_strategies, ())) = (Inr (r, lot), (db', v'))
     \<and> open_deployment (deployment_id r) db' = Some r \<and> qty r = 1
     \<and> (\<exists>s \<in> set (strategy_rows demo_strategies). s_user_id s = ''1''
          \<and> fitted_interval_id (config_row (config_json s)) = Inr 5)"
proof -
  obtain r lot db' v' where run: "create_deployment demo_svc 1 ''ann'' demo_create (demo_db, (demo_strategies, ()))
      = (Inr (r, lot), (db', v'))"
    using demo_edits_return(3) by (rule returnedE)
  have "nat_str 1 = ''1''" by code_simp
  with create_authorised [OF demo_db_wf run] run show ?thesis
    by (cases v') (auto simp: demo_create_def simp del: One_nat_def)
qed

text \<open>
  Not every way back is aligned: a deployment stopped by an edit while enabled, then set ACTIVE
  by another, keeps the slot it had, which may be long past, and is due at once.
\<close>

definition stopped_db :: trade_db where
  "stopped_db = demo_db\<lparr>deployments := [demo_deployment\<lparr>deployment_status := STOPPED\<rparr>]\<rparr>"

lemma reactivated_keeps_old_slot:
  "case update_deployment demo_svc 1 7 (no_edit\<lparr>up_deployment_status := Some ACTIVE\<rparr>) (stopped_db, (demo_strategies, ()))
   of (_, (db', _)) \<Rightarrow> map scheduled_ts (sp_get_missed_due (\<lambda>_. Some 3600000000) 5 db') = [100]"
  by code_simp

end
