(* ===== verification/DryRun.thy ===== *)
theory DryRun
  imports Deployments
begin

text \<open>
  The two reads of a broker account that place nothing: the dry run of a deployment candidate
  (\<^verbatim>\<open>quant/trade/dry_run.py\<close>) and the account snapshot (\<^verbatim>\<open>quant/trade/account.py\<close>).

  Both run on the tables and the rest of the world as the service does. What they call is the
  environment of the apply cycle, with the reads of a session the executor does not make. The rest
  of the world of the apply cycle includes the strategies here.
\<close>

section \<open>Reads\<close>

record 'w session_reads =
  last_price :: "string \<Rightarrow> ('w, trade_exn, flt option) call"
  session_profile :: "'w \<Rightarrow> key_profile option"
  session_balances :: "('w, trade_exn, balance_row list) call"
  session_positions :: "('w, trade_exn, position_row list) call"

text \<open>The reads of the ccxt adapter.\<close>

definition ccxt_session_reads :: "'w ccxt_adapter \<Rightarrow> (adapter_state \<times> 'w) session_reads" where
  "ccxt_session_reads a =
     \<lparr>last_price = get_last_price a, session_profile = (\<lambda>(s, w). ad_key_profile s),
      session_balances = fetch_balances (ad_api a) (ad_cfg a),
      session_positions = fetch_open_positions (ad_api a) (ad_cfg a)\<rparr>"

record 'v dry_env =
  dy_svc :: "'v svc_env"
  dy_apply :: "(bt_db \<times> 'v) apply_env"
  dy_reads :: "int \<Rightarrow> string \<times> string \<Rightarrow> bool \<Rightarrow> (bt_db \<times> 'v) session_reads"
  dy_app_id_of :: "uuid \<Rightarrow> int \<Rightarrow> (bt_db \<times> 'v, trade_exn, int option) call"

section \<open>Dry run\<close>

record dry_run_request =
  dq_strategy_id :: uuid
  dq_strategy_vid :: int
  dq_api_credential_id :: int
  dq_app_id :: int
  dq_internal_cusip :: string
  dq_qty :: rat
  dq_paper :: bool

record dry_run_report =
  dr_request :: dry_run_request
  dr_strategy_nm :: string
  dr_vendor_symbol :: string
  dr_signal :: flt
  dr_intended_side :: intended
  dr_position_qty :: flt
  dr_data_as_of :: int
  dr_notional :: "flt option"
  dr_bar_source :: string
  dr_key_profile :: "key_profile option"

definition validate_dry_run :: "'v svc_env \<Rightarrow> uuid \<Rightarrow> dry_run_request \<Rightarrow> ('v, strategy_row) svc_call" where
  "validate_dry_run env uid req =
     bindC (require_text ''internal_cusip'' (dq_internal_cusip req)) (\<lambda>_.
     bindC (assert_credential_usable env (dq_api_credential_id req) uid (dq_app_id req)) (\<lambda>_.
       strategy_owned_by (dq_strategy_id req) (dq_strategy_vid req) uid))"

text \<open>The result payload, the series to price off, the evaluation; without a schedule.\<close>

definition previewed_signal ::
  "'w apply_env \<Rightarrow> dry_run_request \<Rightarrow> (string \<times> json) list \<Rightarrow> ('w, trade_exn, signal_read) call" where
  "previewed_signal env req doc =
     bindC (result_payload env (dq_strategy_id req) (dq_strategy_vid req)) (\<lambda>payload.
     bindC (raise_or (bindR (fitted_interval_id doc) (\<lambda>fitted.
              resolve_signal_source (app_ids env) (has_price_bars env) (dq_app_id req) None fitted
                (''dry run of strategy '' @ nat_str (dq_strategy_id req))))) (\<lambda>src v.
       case latest_position env doc payload (src_loader src) v of
         (x, v') \<Rightarrow>
           (bindR (evaluated x) (\<lambda>(signal, as_of).
              Inr \<lparr>sr_signal = signal, sr_bar_source = src_label src,
                   sr_bar_timestamp = as_of, sr_interval = src_interval src\<rparr>), v')))"

definition preview_report ::
  "'w live_broker \<Rightarrow> 'w session_reads \<Rightarrow> dry_run_request \<Rightarrow> string \<Rightarrow> signal_read
   \<Rightarrow> ('w, dry_run_report) db_call" where
  "preview_report br rd req nm dec =
     bindC (outside (validate_symbol br (dq_internal_cusip req) (dq_app_id req))) (\<lambda>symb.
     bindC (outside (get_position_qty (trading br) symb)) (\<lambda>position.
     bindC (raise_or (map_sum PyExn id (intended_action (sr_signal dec) position))) (\<lambda>action.
     bindC (outside (last_price rd symb)) (\<lambda>price (db, v).
       (Inr \<lparr>dr_request = req, dr_strategy_nm = nm, dr_vendor_symbol = symb, dr_signal = sr_signal dec,
             dr_intended_side = action, dr_position_qty = position, dr_data_as_of = sr_bar_timestamp dec,
             dr_notional = map_option (flt_mul (fl (dq_qty req))) price,
             dr_bar_source = sr_bar_source dec, dr_key_profile = session_profile rd v\<rparr>, (db, v))))))"

definition dry_run_with ::
  "'v dry_env \<Rightarrow> dry_run_request \<Rightarrow> strategy_row \<Rightarrow> string \<times> string \<Rightarrow> ('v, dry_run_report) svc_call" where
  "dry_run_with env req s ks =
     bindC (outside (previewed_signal (dy_apply env) req (config_row (config_json s)))) (\<lambda>dec.
       let br = create_adapter (dy_apply env) (dq_app_id req) ks (dq_paper req)
       in with_session br
            (preview_report br (dy_reads env (dq_app_id req) ks (dq_paper req)) req (strategy_nm s) dec))"

definition run_dry_run :: "'v dry_env \<Rightarrow> uuid \<Rightarrow> dry_run_request \<Rightarrow> ('v, dry_run_report) svc_call" where
  "run_dry_run env uid req =
     bindC (validate_dry_run (dy_svc env) uid req) (\<lambda>s.
       if \<not> app_registered (dy_apply env) (dq_app_id req) then
         raiseC (AdapterNotFoundError (''no broker adapter registered for app_id='' @ int_str (dq_app_id req)))
       else
         bindC (outside (decrypt_credential (dy_apply env) uid (dq_api_credential_id req))) (\<lambda>keys.
           case keys of
             None \<Rightarrow> raiseC (TradeValidationError ''API credential not found or not owned'' 404)
           | Some ks \<Rightarrow> dry_run_with env req s ks))"

section \<open>Account snapshot\<close>

record account_snapshot =
  as_api_credential_id :: int
  as_app_id :: int
  as_paper :: bool
  as_balances :: "balance_row list"
  as_positions :: "position_row list"

definition fetch_account_snapshot ::
  "'v dry_env \<Rightarrow> uuid \<Rightarrow> int \<Rightarrow> bool \<Rightarrow> ('v, account_snapshot) svc_call" where
  "fetch_account_snapshot env uid cid on_paper =
     bindC (outside (dy_app_id_of env uid cid)) (\<lambda>app.
       case app of
         None \<Rightarrow> raiseC (TradeValidationError ''API credential not found or not owned'' 404)
       | Some i \<Rightarrow>
           if \<not> app_registered (dy_apply env) i then
             raiseC (AdapterNotFoundError (''no broker adapter registered for app_id='' @ int_str i))
           else
             bindC (outside (decrypt_credential (dy_apply env) uid cid)) (\<lambda>keys.
               case keys of
                 None \<Rightarrow> raiseC (TradeValidationError ''API credential not found or not owned'' 404)
               | Some ks \<Rightarrow>
                   let br = create_adapter (dy_apply env) i ks on_paper; rd = dy_reads env i ks on_paper
                   in with_session br
                        (bindC (outside (session_balances rd)) (\<lambda>bs.
                         bindC (outside (session_positions rd)) (\<lambda>ps.
                           returnC \<lparr>as_api_credential_id = cid, as_app_id = i, as_paper = on_paper,
                                    as_balances = bs, as_positions = ps\<rparr>)))))"

section \<open>The first calls of the executor\<close>

text \<open>Given the position it reads, the executor starts with the order for the intended action.\<close>

definition first_order :: "'w trade_adapter \<Rightarrow> string \<Rightarrow> intended \<Rightarrow> flt \<Rightarrow> flt \<Rightarrow> broker_event list \<Rightarrow> bool" where
  "first_order ad symb a q p es \<longleftrightarrow>
     (case order_for symb a q p of
        None \<Rightarrow> es = []
      | Some req \<Rightarrow> \<exists>w es'. es = EvPlace req (fst (place_order ad req w)) # es')"

lemma attempt_once_first:
  assumes read: "get_position_qty ad symb w = (Inr p, w1)" and act: "intended_action s p = Inr a"
  shows "\<exists>res w' es. attempt_once pol (logged ad) symb s q k atts (w, l) = (res, (w', l @ EvRead symb (Inr p) # es))
    \<and> first_order ad symb a q p es \<and> (order_for symb a q p = None \<longrightarrow> (\<exists>out. res = Inr (Inl out)))"
proof (cases "order_for symb a q p")
  case None
  with assms show ?thesis by (simp add: attempt_once_def bindC_def first_order_def)
next
  case (Some req)
  obtain y w2 where place: "place_order ad req w1 = (y, w2)" by fastforce
  obtain z w3 where cancel: "cancel_order ad (the (vendor_order_id (the (projr y)))) symb w2 = (z, w3)" by fastforce
  have first: "first_order ad symb a q p (EvPlace req y # es)" for es
    unfolding first_order_def using Some place by (auto intro!: exI [of _ w1])
  have "\<exists>res w' es. attempt_once pol (logged ad) symb s q k atts (w, l)
      = (res, (w', l @ EvRead symb (Inr p) # EvPlace req y # es))"
    using assms Some place cancel
    by (cases y; cases "projr y"; cases z) (auto simp: attempt_once_def bindC_def Let_def)
  with first Some show ?thesis by auto
qed

lemma broker_log_first:
  assumes "0 < max_attempts pol" and "get_position_qty ad symb w = (Inr p, w1)" and "intended_action s p = Inr a"
  shows "\<exists>es. broker_log pol ad symb s q w = EvRead symb (Inr p) # es \<and> first_order ad symb a q p es"
proof -
  obtain n where n: "nat (max_attempts pol) = Suc n"
    using assms(1) by (metis gr0_implies_Suc zero_less_nat_eq)
  obtain res w' es where once: "attempt_once pol (logged ad) symb s q 1 [] (w, []) = (res, (w', EvRead symb (Inr p) # es))"
    and first: "first_order ad symb a q p es"
    and stop: "order_for symb a q p = None \<Longrightarrow> \<exists>out. res = Inr (Inl out)"
    using attempt_once_first [OF assms(2,3), of pol q 1 "[]" "[]"] by auto
  show ?thesis
  proof (cases "\<exists>atts. res = Inr (Inr atts)")
    case False
    with once first show ?thesis
      by (auto simp: broker_log_def execute_def n bindC_def split: sum.splits)
  next
    case True
    then obtain atts where res: "res = Inr (Inr atts)" by blast
    obtain es' where rest: "snd (snd (attempt_loop pol (logged ad) symb s q n 2 atts (w', EvRead symb (Inr p) # es)))
        = (EvRead symb (Inr p) # es) @ es'"
      using attempt_loop_log [of pol ad symb s q n 2 atts w' "EvRead symb (Inr p) # es"] by auto
    have "first_order ad symb a q p (es @ es')"
      using first stop res by (auto simp: first_order_def split: option.splits)
    moreover have "broker_log pol ad symb s q w = EvRead symb (Inr p) # es @ es'"
      using once res rest by (simp add: broker_log_def execute_def n bindC_def)
    ultimately show ?thesis by blast
  qed
qed

section \<open>What a dry run shows\<close>

text \<open>A deployment the request is a candidate of. A scheduled one has to run on the fitted interval,
  of an app that is an exchange.\<close>

definition candidate :: "'w apply_env \<Rightarrow> dry_run_request \<Rightarrow> (string \<times> json) list \<Rightarrow> deployment \<Rightarrow> bool" where
  "candidate env req doc dep \<longleftrightarrow>
     (strategy_id dep, strategy_vid dep, app_id dep, internal_cusip dep, qty dep)
       = (dq_strategy_id req, dq_strategy_vid req, dq_app_id req, dq_internal_cusip req, dq_qty req)
     \<and> (case schedule_tm_interval_id dep of
          None \<Rightarrow> True
        | Some i \<Rightarrow> fitted_interval_id doc = Inr i \<and> exchange_id_for_app (app_ids env) (app_id dep) \<noteq> None)"

lemma source_of_candidate:
  assumes "resolve_signal_source ids has app None fitted what = Inr src"
    and "sched = None \<or> sched = Some fitted \<and> exchange_id_for_app ids app \<noteq> None"
  shows "resolve_signal_source ids has app sched fitted what' = Inr src"
  using assms by (auto simp: resolve_signal_source_def Let_def split: if_splits option.splits)

lemma previewed_is_computed:
  assumes "previewed_signal env req doc v = (Inr dec, v1)" and "candidate env req doc dep"
    and "strategy_config env (strategy_id dep) (strategy_vid dep) v = (Inr (Some doc), v)"
  shows "compute_signal env dep v = (Inr dec, v1)"
proof -
  have ids: "strategy_id dep = dq_strategy_id req" "strategy_vid dep = dq_strategy_vid req" "app_id dep = dq_app_id req"
    using assms(2) by (simp_all add: candidate_def)
  obtain payload v' fitted src where pay: "result_payload env (dq_strategy_id req) (dq_strategy_vid req) v = (Inr payload, v')"
    and fit: "fitted_interval_id doc = Inr fitted"
    and src: "resolve_signal_source (app_ids env) (has_price_bars env) (dq_app_id req) None fitted
                (''dry run of strategy '' @ nat_str (dq_strategy_id req)) = Inr src"
    and out: "(case latest_position env doc payload (src_loader src) v' of
         (x, v'') \<Rightarrow>
           (bindR (evaluated x) (\<lambda>(signal, as_of).
              Inr \<lparr>sr_signal = signal, sr_bar_source = src_label src,
                   sr_bar_timestamp = as_of, sr_interval = src_interval src\<rparr>), v'')) = (Inr dec, v1)"
    using assms(1) by (auto simp: previewed_signal_def bindC_Inr_iff raise_or_Inr bindR_Inr_iff)
  have "schedule_tm_interval_id dep = None
      \<or> schedule_tm_interval_id dep = Some fitted \<and> exchange_id_for_app (app_ids env) (dq_app_id req) \<noteq> None"
    using assms(2) fit by (auto simp: candidate_def split: option.splits)
  from source_of_candidate [OF src this]
  have "raise_or (bindR (fitted_interval_id doc) (\<lambda>fitted.
      resolve_signal_source (app_ids env) (has_price_bars env) (app_id dep)
        (schedule_tm_interval_id dep) fitted (''deployment '' @ nat_str (deployment_id dep)))) v' = (Inr src, v')"
    using fit ids by (simp add: raise_or_Inr)
  with assms(3) pay out ids show ?thesis by (simp add: compute_signal_def)
qed

text \<open>A dry run writes nothing in the trade tables.\<close>

lemma keeps_db_outside: "keepsC (\<lambda>w. fst w = db) (outside f)"
  by (rule keepsC_I) (auto simp: outside_def split: prod.splits)

lemma keeps_db_session:
  assumes "keepsC (\<lambda>w. fst w = db) body"
  shows "keepsC (\<lambda>w. fst w = db) (with_session br body)"
proof -
  have "keepsC (\<lambda>w. fst w = db) (\<lambda>w. case body w of (x, (db, v)) \<Rightarrow> (x, (db, close_session br v)))"
  proof (rule keepsC_I)
    fix w r w'
    assume w: "fst w = db" and run: "(case body w of (x, (db, v)) \<Rightarrow> (x, (db, close_session br v))) = (r, w')"
    obtain x db2 v where body: "body w = (x, (db2, v))" by (metis surj_pair)
    from keepsC_D [OF assms w body] run body show "fst w' = db" by auto
  qed
  then show ?thesis unfolding with_session_def by (intro keepsC_bind keeps_db_outside)
qed

lemma keeps_raise_or: "keepsC I (raise_or r)"
  by (cases r) (simp_all add: raise_or_def)

lemma keeps_require_text: "keepsC I (require_text nm v)"
  by (simp add: require_text_def)

lemma keeps_db_validate: "keepsC (\<lambda>w. fst w = db) (validate_dry_run env uid req)"
  unfolding validate_dry_run_def assert_credential_usable_def strategy_owned_by_def fetch_strategy_def
    beyondR_def on_strategies_def
  by (intro keepsC_bind keeps_db_outside keeps_require_text keepsC_return)
    (auto intro!: keepsC_bind keeps_db_outside split: option.split)

lemma keeps_db_preview: "keepsC (\<lambda>w. fst w = db) (preview_report br rd req nm dec)"
  unfolding preview_report_def
  by (intro keepsC_bind keeps_db_outside keeps_raise_or) (auto simp: keepsC_def)

lemma keeps_db_dry_run: "keepsC (\<lambda>w. fst w = db) (run_dry_run env uid req)"
  unfolding run_dry_run_def dry_run_with_def Let_def
  by (intro keepsC_bind keeps_db_validate)
    (auto intro!: keepsC_bind keeps_db_outside keeps_db_session keeps_db_preview split: option.split)

lemma validated_row:
  assumes "validate_dry_run env uid req (db, (b, c)) = (Inr s, w1)"
  shows "s \<in> set (strategy_rows b)" "s_strategy_id s = dq_strategy_id req" "s_strategy_vid s = dq_strategy_vid req"
    "s_user_id s = nat_str uid" "\<not> logical_delete s"
proof -
  obtain c' where "strategy_owned_by (dq_strategy_id req) (dq_strategy_vid req) uid (db, (b, c')) = (Inr s, w1)"
    using assms
    by (auto simp: validate_dry_run_def require_text_def assert_credential_usable_def beyondR_def outside_def
        bindC_Inr_iff split: prod.splits option.splits if_splits)
  from strategy_owned_returns [OF this]
  show "s \<in> set (strategy_rows b)" "s_strategy_id s = dq_strategy_id req" "s_strategy_vid s = dq_strategy_vid req"
    "s_user_id s = nat_str uid" "\<not> logical_delete s"
    by simp_all
qed

lemma preview_report_returns:
  assumes "preview_report br rd req nm dec w = (Inr rep, w')"
  obtains symb p u u1 where "get_position_qty (trading br) symb u = (Inr p, u1)"
    "intended_action (sr_signal dec) p = Inr (dr_intended_side rep)"
    "dr_vendor_symbol rep = symb" "dr_position_qty rep = p" "dr_signal rep = sr_signal dec"
    "dr_data_as_of rep = sr_bar_timestamp dec" "dr_bar_source rep = sr_bar_source dec"
proof -
  from assms obtain symb w1 p w2 action where
    pos: "outside (get_position_qty (trading br) symb) w1 = (Inr p, w2)"
    and act: "map_sum PyExn id (intended_action (sr_signal dec) p) = Inr action"
    and rep: "dr_intended_side rep = action" "dr_vendor_symbol rep = symb" "dr_position_qty rep = p"
      "dr_signal rep = sr_signal dec" "dr_data_as_of rep = sr_bar_timestamp dec" "dr_bar_source rep = sr_bar_source dec"
    unfolding preview_report_def by (auto simp: bindC_Inr_iff raise_or_Inr)
  from pos obtain u u1 where "get_position_qty (trading br) symb u = (Inr p, u1)"
    by (cases w1) (auto simp: outside_Inr_iff)
  moreover have "intended_action (sr_signal dec) p = Inr action"
    using act by (cases "intended_action (sr_signal dec) p") simp_all
  ultimately show ?thesis using that rep by blast
qed

text \<open>C7: A dry run previews the apply. If it reports, the strategy version is the user's and not
  deleted, the trade tables are untouched, and: the signal, its bar and its source are what the
  apply cycle of every deployment this is a candidate of computes in the state the strategy was
  evaluated in, if it reads the same configuration row; and the intended side is what the executor
  makes of the position read: run from the state in which it was read, under any retry policy of
  at least one attempt, it reads this position and then either
  places the order for the intended side first, or places nothing when there is none.\<close>

theorem dry_run_previews_apply:
  assumes "run_dry_run env uid req (db, w) = (Inr rep, (db', w'))"
  shows "db' = db \<and> (\<exists>(s :: strategy_row) v dec v1 ks u u1.
      s \<in> set (strategy_rows (fst w))
    \<and> s_strategy_id s = dq_strategy_id req \<and> s_strategy_vid s = dq_strategy_vid req
    \<and> s_user_id s = nat_str uid \<and> \<not> logical_delete s
    \<and> (\<forall>dep. candidate (dy_apply env) req (config_row (config_json s)) dep
         \<and> strategy_config (dy_apply env) (strategy_id dep) (strategy_vid dep) v
             = (Inr (Some (config_row (config_json s))), v)
         \<longrightarrow> compute_signal (dy_apply env) dep v = (Inr dec, v1))
    \<and> dr_signal rep = sr_signal dec \<and> dr_data_as_of rep = sr_bar_timestamp dec
    \<and> dr_bar_source rep = sr_bar_source dec
    \<and> get_position_qty (trading (create_adapter (dy_apply env) (dq_app_id req) ks (dq_paper req)))
        (dr_vendor_symbol rep) u = (Inr (dr_position_qty rep), u1)
    \<and> (\<forall>pol. 0 < max_attempts pol \<longrightarrow> (\<exists>es.
         broker_log pol (trading (create_adapter (dy_apply env) (dq_app_id req) ks (dq_paper req)))
           (dr_vendor_symbol rep) (dr_signal rep) (fl (dq_qty req)) u
           = EvRead (dr_vendor_symbol rep) (Inr (dr_position_qty rep)) # es
         \<and> first_order (trading (create_adapter (dy_apply env) (dq_app_id req) ks (dq_paper req)))
             (dr_vendor_symbol rep) (dr_intended_side rep) (fl (dq_qty req)) (dr_position_qty rep) es)))"
proof -
  have db: "db' = db" using keepsC_D [OF keeps_db_dry_run _ assms, of db] by simp
  obtain b c where w: "w = (b, c)" by (cases w)
  from assms obtain s w1 keys w2 where
    valid: "validate_dry_run (dy_svc env) uid req (db, (b, c)) = (Inr s, w1)"
    and keys: "(case keys of
       None \<Rightarrow> raiseC (TradeValidationError ''API credential not found or not owned'' 404)
     | Some ks \<Rightarrow> dry_run_with env req s ks) w2 = (Inr rep, (db', w'))"
    unfolding run_dry_run_def w by (auto simp: bindC_Inr_iff split: if_splits)
  from keys obtain ks where "dry_run_with env req s ks w2 = (Inr rep, (db', w'))"
    by (auto split: option.splits)
  then obtain dec w3 where
    dec: "outside (previewed_signal (dy_apply env) req (config_row (config_json s))) w2 = (Inr dec, w3)"
    and sess: "with_session (create_adapter (dy_apply env) (dq_app_id req) ks (dq_paper req))
        (preview_report (create_adapter (dy_apply env) (dq_app_id req) ks (dq_paper req))
           (dy_reads env (dq_app_id req) ks (dq_paper req)) req (strategy_nm s) dec) w3 = (Inr rep, (db', w'))"
    unfolding dry_run_with_def Let_def bindC_Inr_iff by blast
  let ?br = "create_adapter (dy_apply env) (dq_app_id req) ks (dq_paper req)"
  have owner: "s \<in> set (strategy_rows (fst w))" "s_strategy_id s = dq_strategy_id req"
    "s_strategy_vid s = dq_strategy_vid req" "s_user_id s = nat_str uid" "\<not> logical_delete s"
    using validated_row [OF valid] w by simp_all
  obtain v v1 where prev: "previewed_signal (dy_apply env) req (config_row (config_json s)) v = (Inr dec, v1)"
    using dec by (cases w2) (auto simp: outside_Inr_iff)
  obtain w5 w6 where "preview_report ?br (dy_reads env (dq_app_id req) ks (dq_paper req)) req (strategy_nm s) dec w5
      = (Inr rep, w6)"
    using with_session_returns [OF sess] by blast
  then obtain symb p u u1 where pos: "get_position_qty (trading ?br) symb u = (Inr p, u1)"
    and act: "intended_action (sr_signal dec) p = Inr (dr_intended_side rep)"
    and rep: "dr_vendor_symbol rep = symb" "dr_position_qty rep = p" "dr_signal rep = sr_signal dec"
      "dr_data_as_of rep = sr_bar_timestamp dec" "dr_bar_source rep = sr_bar_source dec"
    by (rule preview_report_returns)
  have same: "\<forall>dep. candidate (dy_apply env) req (config_row (config_json s)) dep
         \<and> strategy_config (dy_apply env) (strategy_id dep) (strategy_vid dep) v
             = (Inr (Some (config_row (config_json s))), v)
         \<longrightarrow> compute_signal (dy_apply env) dep v = (Inr dec, v1)"
    using previewed_is_computed [OF prev] by blast
  have first: "\<forall>pol. 0 < max_attempts pol \<longrightarrow> (\<exists>es.
      broker_log pol (trading ?br) symb (sr_signal dec) (fl (dq_qty req)) u = EvRead symb (Inr p) # es
      \<and> first_order (trading ?br) symb (dr_intended_side rep) (fl (dq_qty req)) p es)"
    using broker_log_first [OF _ pos act] by blast
  show ?thesis
    unfolding rep
    by (rule conjI [OF db], rule exI [of _ s], rule exI [of _ v], rule exI [of _ dec], rule exI [of _ v1],
        rule exI [of _ ks], rule exI [of _ u], rule exI [of _ u1], intro conjI)
      (fact owner same pos first refl)+
qed

section \<open>A small run\<close>

definition dry_broker :: "'w live_broker" where
  "dry_broker =
     \<lparr>open_session = returnC (), close_session = id, validate_symbol = (\<lambda>cusip app. returnC cusip),
      trading = \<lparr>get_position_qty = (\<lambda>symb. returnC (Fin 0)), place_order = (\<lambda>req. returnC (Some demo_fill)),
                 cancel_order = (\<lambda>oid symb. returnC (mk_result True (Some oid) ''order canceled''))\<rparr>\<rparr>"

definition demo_dry :: "unit dry_env" where
  "demo_dry =
     \<lparr>dy_svc = demo_svc,
      dy_apply =
        \<lparr>clock = (\<lambda>v. (120, v)), row_limits = (\<lambda>d. returnC None), app_registered = (\<lambda>i. True),
         decrypt_credential = (\<lambda>u i. returnC (Some (''key'', ''secret''))),
         strategy_config = (\<lambda>i n. returnC (Some [(''tm_interval_id'', JInt 5)])),
         result_payload = (\<lambda>i n. returnC JNull),
         app_ids = (\<lambda>name. if name = ''bybit'' then Some 4 else None), has_price_bars = True,
         latest_position = (\<lambda>c p b. returnC (Fin 1, 60)),
         create_adapter = (\<lambda>i ks paper. dry_broker),
         product_ccy = (\<lambda>c. None), fallback_ccy = ''USDT'',
         order_policy = \<lparr>max_attempts = 2, backoff_s = Fin 1\<rparr>,
         send_alert = (\<lambda>dep out symb signal lot v. v)\<rparr>,
      dy_reads = (\<lambda>i ks paper. \<lparr>last_price = (\<lambda>symb. returnC (Some (Fin 50000))), session_profile = (\<lambda>v. None),
        session_balances = returnC [], session_positions = returnC []\<rparr>),
      dy_app_id_of = (\<lambda>u i. returnC (Some 4))\<rparr>"

definition demo_candidate :: dry_run_request where
  "demo_candidate =
     \<lparr>dq_strategy_id = 2, dq_strategy_vid = 1, dq_api_credential_id = 3, dq_app_id = 4,
      dq_internal_cusip = ''BTCUSDT'', dq_qty = 1, dq_paper = True\<rparr>"

definition previews_buy :: "('e + dry_run_report) \<times> 'w \<Rightarrow> bool" where
  "previews_buy x =
     (case fst x of Inl e \<Rightarrow> False | Inr rep \<Rightarrow> dr_intended_side rep = BUY \<and> dr_bar_source rep = ''price_bar:bybit'')"

lemma demo_dry_run: "previews_buy (run_dry_run demo_dry 1 demo_candidate (demo_db, (demo_strategies, ())))"
  by code_simp

theorem dry_run_previews_apply_witness:
  "\<exists>rep w' dec v v1. run_dry_run demo_dry 1 demo_candidate (demo_db, (demo_strategies, ())) = (Inr rep, (demo_db, w'))
    \<and> dr_intended_side rep = BUY
    \<and> compute_signal (dy_apply demo_dry) demo_deployment v = (Inr dec, v1) \<and> sr_signal dec = dr_signal rep"
proof -
  obtain rep db' w' where run: "run_dry_run demo_dry 1 demo_candidate (demo_db, (demo_strategies, ())) = (Inr rep, (db', w'))"
    and buy: "dr_intended_side rep = BUY"
    using demo_dry_run
    by (cases "run_dry_run demo_dry 1 demo_candidate (demo_db, (demo_strategies, ()))")
      (auto simp: previews_buy_def split: sum.splits)
  from dry_run_previews_apply [OF run] obtain s :: strategy_row and v dec v1 where
    s: "s \<in> set (strategy_rows demo_strategies)" and out: "db' = demo_db" "dr_signal rep = sr_signal dec" and
    same: "candidate (dy_apply demo_dry) demo_candidate (config_row (config_json s)) demo_deployment
      \<and> strategy_config (dy_apply demo_dry) (strategy_id demo_deployment) (strategy_vid demo_deployment) v
          = (Inr (Some (config_row (config_json s))), v)
      \<longrightarrow> compute_signal (dy_apply demo_dry) demo_deployment v = (Inr dec, v1)"
    by - (elim conjE exE, rule that, (assumption | simp | erule allE)+)
  have doc: "config_row (config_json s) = [(''tm_interval_id'', JInt 5)]"
    using s by (simp add: demo_strategies_def config_row_def)
  have "candidate (dy_apply demo_dry) demo_candidate [(''tm_interval_id'', JInt 5)] demo_deployment"
    by code_simp
  then have "compute_signal (dy_apply demo_dry) demo_deployment v = (Inr dec, v1)"
    using same unfolding doc by (simp add: demo_dry_def)
  with run buy out show ?thesis
    by (intro exI [of _ rep] exI [of _ w'] exI [of _ dec] exI [of _ v] exI [of _ v1]) simp
qed

end
