(* ===== verification/WorkerLoop.thy ===== *)
theory WorkerLoop
  imports BtDb
begin

text \<open>
  \<^verbatim>\<open>quant/queue/worker_loop.py\<close>: the long-lived loop that claims queued backtest jobs,
  starts one worker process per job, stops cancelled and overdue ones, and writes the terminal
  row when the worker cannot. Also \<^verbatim>\<open>quant/queue/wake.py\<close>.

  The loop's state is the record \<open>loop\<close>: its own fields, and what it sees of the operating
  system. A child process is its pid; \<open>returncodes\<close> is what \<open>poll()\<close> answers; whether a signal
  ends a process within the wait that follows it is an input per pid (\<open>term_works\<close>,
  \<open>kill_works\<close>), as is whether \<open>Popen\<close> raises. \<open>spawn_log\<close> is the operating system's record of
  the workers started, over all loops. Processes end and the monotonic clock moves between
  ticks; other processes write the queue between any two calls (the slots of \<open>BtDb\<close>).
\<close>

record child =
  pid :: nat
  started :: rat
  claimed :: job_row

record loop =
  active :: "(nat \<times> child) list"
  running :: bool
  max_concurrent :: int
  job_timeout_s :: int
  returncodes :: "nat \<Rightarrow> int option"
  term_works :: "nat \<Rightarrow> bool"
  kill_works :: "nat \<Rightarrow> bool"
  next_pid :: nat
  monotonic :: rat
  spawn_faults :: "string option list"
  spawn_log :: "nat list"

type_synonym world = "bt_db \<times> loop"

type_synonym 'a loop_call = "(world, bt_exn, 'a) call"

definition readL :: "(loop \<Rightarrow> 'a) \<Rightarrow> 'a loop_call" where
  "readL f = (\<lambda>(db, l). (Inr (f l), (db, l)))"

definition modL :: "(loop \<Rightarrow> loop) \<Rightarrow> unit loop_call" where
  "modL f = (\<lambda>(db, l). (Inr (), (db, f l)))"

definition status_id :: "refdata \<Rightarrow> string \<Rightarrow> int loop_call" where
  "status_id rd nm = liftR (resolve_queue_status_id rd nm)"

section \<open>The loop's repository\<close>

definition list_by_status :: "int \<Rightarrow> job_row list loop_call" where
  "list_by_status st = sp_get_queue None None (Some st) None 1000"

definition claim_next :: "int \<Rightarrow> int \<Rightarrow> job_row option loop_call" where
  "claim_next queued run =
     bindC (list_by_status queued) (\<lambda>rows.
       case in_run_order rows of
         [] \<Rightarrow> returnC None
       | r # _ \<Rightarrow>
           bindC (sp_ins_queue (queue_id (job r)) (q_strategy_id (job r)) (q_strategy_vid (job r)) run
                    (priority (job r)) (q_user_id (job r)) None) (\<lambda>_.
             returnC (Some r)))"

definition mark_terminal :: "job_row \<Rightarrow> int \<Rightarrow> string option \<Rightarrow> unit loop_call" where
  "mark_terminal r st err =
     sp_ins_queue (queue_id (job r)) (q_strategy_id (job r)) (q_strategy_vid (job r)) st
       (priority (job r)) (q_user_id (job r)) err"

section \<open>Boot\<close>

definition recover_stale :: "refdata \<Rightarrow> nat loop_call" where
  "recover_stale rd =
     bindC (status_id rd ''RUNNING'') (\<lambda>run.
     bindC (status_id rd ''FAILED'') (\<lambda>failed.
     bindC (list_by_status run) (\<lambda>rows.
     bindC (forC rows (\<lambda>r. mark_terminal r failed (Some ''worker_loop restarted while job was running'')))
       (\<lambda>_. returnC (length rows)))))"

section \<open>One tick\<close>

definition pop_active :: "nat \<Rightarrow> loop \<Rightarrow> loop" where
  "pop_active qid l = l\<lparr>active := AList.delete qid (active l)\<rparr>"

definition mark_crashed :: "refdata \<Rightarrow> int \<Rightarrow> job_row option \<Rightarrow> unit loop_call" where
  "mark_crashed rd code latest =
     bindC (status_id rd ''RUNNING'') (\<lambda>run.
       case latest of
         None \<Rightarrow> returnC ()
       | Some r \<Rightarrow>
           if queue_status_id (job r) \<noteq> run then returnC ()
           else
             bindC (status_id rd ''FAILED'') (\<lambda>failed.
               mark_terminal r failed (Some (''worker crashed exit='' @ int_str code))))"

definition reap_child :: "refdata \<Rightarrow> nat \<times> child \<Rightarrow> unit loop_call" where
  "reap_child rd = (\<lambda>(qid, c).
     bindC (modL (pop_active qid)) (\<lambda>_.
     bindC (readL (\<lambda>l. returncodes l (pid c))) (\<lambda>rc.
       case rc of
         None \<Rightarrow> returnC ()
       | Some code \<Rightarrow>
           if code = 0 then returnC () else bindC (get_active qid None) (mark_crashed rd code))))"

definition reap_children :: "refdata \<Rightarrow> unit loop_call" where
  "reap_children rd =
     bindC (readL (\<lambda>l. filter (\<lambda>(qid, c). returncodes l (pid c) \<noteq> None) (active l)))
       (\<lambda>finished. forC finished (reap_child rd))"

text \<open>A process that a signal ends has the signal's negated number as its return code.\<close>

definition end_proc :: "nat \<Rightarrow> int \<Rightarrow> loop \<Rightarrow> loop" where
  "end_proc p code l =
     (if returncodes l p = None then l\<lparr>returncodes := (returncodes l)(p := Some code)\<rparr> else l)"

definition kill_wait :: "nat \<Rightarrow> loop \<Rightarrow> loop" where
  "kill_wait p l = (if kill_works l p then end_proc p (- 9) l else l)"

definition stop_child :: "nat \<Rightarrow> loop \<Rightarrow> loop" where
  "stop_child p l = (if term_works l p then end_proc p (- 15) l else kill_wait p l)"

definition timeout_child :: "refdata \<Rightarrow> rat \<Rightarrow> nat \<times> child \<Rightarrow> unit loop_call" where
  "timeout_child rd now = (\<lambda>(qid, c).
     bindC (readL (\<lambda>l. (returncodes l (pid c), job_timeout_s l))) (\<lambda>(rc, limit).
       if rc \<noteq> None then returnC ()
       else if now - started c < of_int limit then returnC ()
       else
         bindC (modL (kill_wait (pid c))) (\<lambda>_.
         bindC (status_id rd ''FAILED'') (\<lambda>failed.
         bindC (mark_terminal (claimed c) failed
                  (Some (''job exceeded '' @ int_str limit @ ''s timeout''))) (\<lambda>_.
           modL (pop_active qid))))))"

definition enforce_timeouts :: "refdata \<Rightarrow> unit loop_call" where
  "enforce_timeouts rd =
     bindC (readL (\<lambda>l. (monotonic l, active l))) (\<lambda>(now, entries).
       forC entries (timeout_child rd now))"

definition cancel_row :: "int \<Rightarrow> job_row \<Rightarrow> unit loop_call" where
  "cancel_row cancelled r =
     bindC (readL (\<lambda>l. map_of (active l) (queue_id (job r)))) (\<lambda>entry.
     bindC (modL (pop_active (queue_id (job r)))) (\<lambda>_.
     bindC (case entry of None \<Rightarrow> returnC () | Some c \<Rightarrow> modL (stop_child (pid c))) (\<lambda>_.
       mark_terminal r cancelled None)))"

definition enforce_cancels :: "refdata \<Rightarrow> unit loop_call" where
  "enforce_cancels rd =
     bindC (status_id rd ''CANCEL_REQUESTED'') (\<lambda>requested.
     bindC (list_by_status requested) (\<lambda>rows.
       if rows = [] then returnC ()
       else bindC (status_id rd ''CANCELLED'') (\<lambda>cancelled. forC rows (cancel_row cancelled))))"

definition spawn :: "nat \<Rightarrow> nat loop_call" where
  "spawn qid = (\<lambda>(db, l).
     case spawn_faults l of
       Some m # fs \<Rightarrow> (Inl (BtPy (RuntimeError m)), (db, l\<lparr>spawn_faults := fs\<rparr>))
     | _ \<Rightarrow>
         (Inr (next_pid l),
          (db, l\<lparr>spawn_faults := tl (spawn_faults l), next_pid := next_pid l + 1,
                 returncodes := (returncodes l)(next_pid l := None),
                 spawn_log := qid # spawn_log l\<rparr>)))"

definition track :: "nat \<Rightarrow> nat \<Rightarrow> job_row \<Rightarrow> loop \<Rightarrow> loop" where
  "track qid p r l =
     l\<lparr>active := AList.update qid \<lparr>pid = p, started = monotonic l, claimed = r\<rparr> (active l)\<rparr>"

definition try_claim_and_spawn :: "refdata \<Rightarrow> bool loop_call" where
  "try_claim_and_spawn rd =
     bindC (status_id rd ''QUEUED'') (\<lambda>queued.
     bindC (status_id rd ''RUNNING'') (\<lambda>run.
     bindC (claim_next queued run) (\<lambda>j.
       case j of
         None \<Rightarrow> returnC False
       | Some r \<Rightarrow>
           bindC (spawn (queue_id (job r))) (\<lambda>p.
           bindC (modL (track (queue_id (job r)) p r)) (\<lambda>_. returnC True)))))"

text \<open>The loop that fills the free capacity; \<open>None\<close> is a loop that does not end.\<close>

partial_function (option) fill :: "refdata \<Rightarrow> world \<Rightarrow> ((bt_exn + unit) \<times> world) option" where
  "fill rd w =
     (if running (snd w) \<and> int (length (active (snd w))) < max_concurrent (snd w)
      then (case try_claim_and_spawn rd w of
              (Inl e, w') \<Rightarrow> Some (Inl e, w')
            | (Inr went, w') \<Rightarrow> if went then fill rd w' else Some (Inr (), w'))
      else Some (Inr (), w))"

declare fill.simps [code]

definition before_fill :: "refdata \<Rightarrow> unit loop_call" where
  "before_fill rd =
     bindC (reap_children rd) (\<lambda>_. bindC (enforce_cancels rd) (\<lambda>_. enforce_timeouts rd))"

definition tick :: "refdata \<Rightarrow> world \<Rightarrow> ((bt_exn + unit) \<times> world) option" where
  "tick rd w =
     (case before_fill rd w of
        (Inl e, w') \<Rightarrow> Some (Inl e, w')
      | (Inr _, w') \<Rightarrow> fill rd w')"

section \<open>Lifecycle\<close>

definition stop :: "loop \<Rightarrow> loop" where
  "stop l = l\<lparr>running := False\<rparr>"

text \<open>\<open>_drain\<close>: each child ends within the wait (an input) or is killed.\<close>

definition drain :: "(nat \<Rightarrow> bool) \<Rightarrow> loop \<Rightarrow> loop" where
  "drain ends l =
     foldl (\<lambda>l (qid, c). if ends (pid c) then end_proc (pid c) 0 l else kill_wait (pid c) l) l (active l)"

text \<open>
  \<open>publish_wake\<close> and \<open>wait_for_wake\<close> on the number of tokens in the Redis list; a Redis error
  (its text) is swallowed by both.
\<close>

definition publish_wake :: "string option \<Rightarrow> nat \<Rightarrow> nat" where
  "publish_wake err tokens = (case err of None \<Rightarrow> tokens + 1 | Some m \<Rightarrow> tokens)"

definition wait_for_wake :: "string option \<Rightarrow> nat \<Rightarrow> bool \<times> nat" where
  "wait_for_wake err tokens =
     (case err of None \<Rightarrow> (0 < tokens, tokens - 1) | Some m \<Rightarrow> (False, tokens))"

section \<open>No job runs twice\<close>

text \<open>
  \<open>Q\<close> and \<open>R\<close> are the ids of QUEUED and RUNNING. What the other processes may write between two
  calls of the loop: never RUNNING, and QUEUED only for an id no earlier row or write names.
\<close>

fun calm :: "int \<Rightarrow> int \<Rightarrow> nat set \<Rightarrow> job_write list \<Rightarrow> bool" where
  "calm Q R ids [] = True"
| "calm Q R ids (jw # ws) \<longleftrightarrow>
     w_status jw \<noteq> R \<and> (w_status jw = Q \<longrightarrow> w_queue_id jw \<notin> ids)
     \<and> calm Q R (insert (w_queue_id jw) ids) ws"

definition coming :: "bt_db \<Rightarrow> job_write list" where
  "coming db = concat (map others (bt_slots db))"

definition runs :: "int \<Rightarrow> bt_db \<Rightarrow> nat \<Rightarrow> nat" where
  "runs R db qid = length (filter (\<lambda>r. queue_status_id r = R) (job_versions qid db))"

definition queue_once :: "int \<Rightarrow> int \<Rightarrow> bt_db \<Rightarrow> bool" where
  "queue_once Q R db \<longleftrightarrow>
     queue_wf db \<and> (\<forall>qid. runs R db qid \<le> 1 \<and> (status_of db qid = Some Q \<longrightarrow> runs R db qid = 0))"

definition ids_ok :: "refdata \<Rightarrow> int \<Rightarrow> int \<Rightarrow> bool" where
  "ids_ok rd Q R \<longleftrightarrow>
     resolve_queue_status_id rd ''QUEUED'' = Inr Q \<and> resolve_queue_status_id rd ''RUNNING'' = Inr R \<and> Q \<noteq> R
     \<and> (\<forall>nm \<in> {''CANCEL_REQUESTED'', ''COMPLETED'', ''FAILED'', ''CANCELLED''}.
          \<forall>i. resolve_queue_status_id rd nm = Inr i \<longrightarrow> i \<noteq> Q \<and> i \<noteq> R)"

text \<open>
  The invariant: no job has two RUNNING rows and a queued job has none; the workers started are
  of different jobs, each with its RUNNING row; a tracked child is of the job it is tracked under.
\<close>

definition runs_once :: "int \<Rightarrow> int \<Rightarrow> world \<Rightarrow> bool" where
  "runs_once Q R = (\<lambda>(db, l).
     queue_once Q R db \<and> calm Q R (job_ids db) (coming db)
     \<and> distinct (spawn_log l) \<and> (\<forall>qid \<in> set (spawn_log l). runs R db qid = 1)
     \<and> distinct (map fst (active l))
     \<and> (\<forall>(qid, c) \<in> set (active l). queue_id (job (claimed c)) = qid \<and> qid \<in> set (spawn_log l)))"

lemma runs_ins:
  "runs R (sp_ins_queue_proc qid sid svid st prio err uid db) x =
     (if x = qid \<and> st = R then 1 else 0) + runs R db x"
  by (simp add: runs_def job_versions_ins filter_map comp_def)

lemma runs_pos: "0 < runs R db qid \<Longrightarrow> qid \<in> job_ids db"
  by (auto simp: runs_def job_ids_iff)

lemma runs_frame [simp]:
  "runs R (db\<lparr>bt_slots := ss, bt_clock := c\<rparr>) = runs R db"
  "runs R (db\<lparr>next_uuid := n\<rparr>) = runs R db"
  "runs R (db\<lparr>bt_slots := ss\<rparr>) = runs R db"
  by (simp_all add: runs_def fun_eq_iff)

lemma status_of_frame [simp]:
  "status_of (db\<lparr>bt_slots := ss, bt_clock := c\<rparr>) = status_of db"
  "status_of (db\<lparr>next_uuid := n\<rparr>) = status_of db"
  "status_of (db\<lparr>bt_slots := ss\<rparr>) = status_of db"
  by (simp_all add: status_of_def fun_eq_iff)

lemma runs_apply_write: "w_status jw \<noteq> R \<Longrightarrow> runs R (apply_write jw db) x = runs R db x"
  by (simp add: apply_write_def runs_ins)

lemma queue_once_write:
  assumes "queue_once Q R db" "w_status jw \<noteq> R" "w_status jw = Q \<longrightarrow> w_queue_id jw \<notin> job_ids db"
  shows "queue_once Q R (apply_write jw db)"
  using assms runs_pos [of R db "w_queue_id jw"]
  by (auto simp: queue_once_def apply_write_wf runs_apply_write)
    (auto simp: apply_write_def split: if_splits)

lemma apply_write_frame [simp]:
  "job_ids (apply_write jw db) = insert (w_queue_id jw) (job_ids db)"
  "bt_slots (apply_write jw db) = bt_slots db"
  "queue_statuses (apply_write jw db) = queue_statuses db"
  "strategy_rows (apply_write jw db) = strategy_rows db"
  by (simp_all add: apply_write_def)

lemma calm_writes:
  assumes "queue_once Q R db" "calm Q R (job_ids db) (ws @ rest)"
  shows "queue_once Q R (fold apply_write ws db)"
    "calm Q R (job_ids (fold apply_write ws db)) rest"
    "runs R (fold apply_write ws db) = runs R db"
    "job_ids db \<subseteq> job_ids (fold apply_write ws db)"
    "bt_slots (fold apply_write ws db) = bt_slots db"
  using assms
proof (induction ws arbitrary: db)
  case (Cons jw ws)
  {
    case 1
    with Cons.IH(1) [of "apply_write jw db"] show ?case by (simp add: queue_once_write)
  next
    case 2
    with Cons.IH(2) [of "apply_write jw db"] show ?case by (simp add: queue_once_write)
  next
    case 3
    with Cons.IH(3) [of "apply_write jw db"] show ?case
      by (simp add: queue_once_write runs_apply_write fun_eq_iff)
  next
    case 4
    with Cons.IH(4) [of "apply_write jw db"] show ?case by (simp add: queue_once_write)
  next
    case 5
    with Cons.IH(5) [of "apply_write jw db"] show ?case by (simp add: queue_once_write)
  }
qed simp_all

lemma interfere_calm:
  assumes "interfere db = (s, db1)" "queue_once Q R db" "calm Q R (job_ids db) (coming db)"
  shows "queue_once Q R db1" "calm Q R (job_ids db1) (coming db1)" "runs R db1 = runs R db"
    "job_ids db \<subseteq> job_ids db1"
proof -
  let ?db = "db\<lparr>bt_slots := tl (bt_slots db), bt_clock := bt_clock db + int (passed s)\<rparr>"
  have db1: "db1 = fold apply_write (others s) ?db"
    and com: "coming db = others s @ concat (map others (tl (bt_slots db)))"
    using assms(1) by (auto simp: interfere_def Let_def coming_def quiet_slot_def split: list.splits)
  have once: "queue_once Q R ?db"
    using assms(2) by (simp add: queue_once_def queue_wf_frame)
  have cal: "calm Q R (job_ids ?db) (others s @ concat (map others (tl (bt_slots db))))"
    using assms(3) com by simp
  note c = calm_writes [OF once cal]
  show "queue_once Q R db1" "runs R db1 = runs R db" "job_ids db \<subseteq> job_ids db1"
    using c by (simp_all add: db1)
  show "calm Q R (job_ids db1) (coming db1)"
    using c(2,5) by (simp add: db1 coming_def)
qed

text \<open>The invariant after the other processes wrote, and what a call of the loop adds to it.\<close>

lemma runs_once_interfere:
  assumes "runs_once Q R (db, l)" "interfere db = (s, db1)"
  shows "runs_once Q R (db1, l)" "runs R db1 = runs R db" "job_ids db \<subseteq> job_ids db1"
  using assms(1) interfere_calm [OF assms(2), of Q R] by (auto simp: runs_once_def)

lemma runs_once_write:
  assumes "runs_once Q R (db, l)" "qid \<in> job_ids db" "st \<noteq> R" "st \<noteq> Q"
  shows "runs_once Q R (sp_ins_queue_proc qid sid svid st prio err uid db, l)"
proof -
  have "qid < next_uuid db"
    using assms(1,2) by (auto simp: runs_once_def queue_once_def queue_wf_def)
  then show ?thesis
    using assms by (auto simp: runs_once_def queue_once_def runs_ins queue_wf_ins insert_absorb coming_def)
qed

text \<open>The same invariant, together with the jobs known to exist.\<close>

definition known :: "int \<Rightarrow> int \<Rightarrow> nat set \<Rightarrow> world \<Rightarrow> bool" where
  "known Q R X w \<longleftrightarrow> runs_once Q R w \<and> X \<subseteq> job_ids (fst w)"

lemma known_empty: "known Q R {} = runs_once Q R"
  by (auto simp: known_def fun_eq_iff)

lemma known_interfere:
  assumes "known Q R X (db, l)" "interfere db = (s, db1)"
  shows "known Q R X (db1, l)"
  using assms runs_once_interfere(1,3) [of Q R db l s db1] by (auto simp: known_def)

lemma keeps_read: "keepsC (known Q R X) (on_bt (\<lambda>db. Inr (f db, db)))"
proof (rule keepsC_I)
  fix w r w' assume k: "known Q R X w" and c: "on_bt (\<lambda>db. Inr (f db, db)) w = (r, w')"
  obtain db l where w: "w = (db, l)" by (cases w)
  from c [unfolded w] show "known Q R X w'"
    by (cases rule: on_bt_cases) (use k known_interfere in \<open>auto simp: w\<close>)
qed

lemma keeps_write:
  assumes "st \<noteq> R" "st \<noteq> Q" "qid \<in> X"
  shows "keepsC (known Q R X) (sp_ins_queue qid sid svid st prio uid err)"
proof (rule keepsC_I)
  fix w r w' assume k: "known Q R X w" and c: "sp_ins_queue qid sid svid st prio uid err w = (r, w')"
  obtain db l where w: "w = (db, l)" by (cases w)
  from c [unfolded w sp_ins_queue_def] show "known Q R X w'"
  proof (cases rule: on_bt_cases)
    case (failed s db1 e)
    then show ?thesis using k known_interfere by (auto simp: w)
  next
    case (answered s db1 y db2)
    have "runs_once Q R (db1, l)" "X \<subseteq> job_ids db1"
      using known_interfere [OF k [unfolded w] answered(1)] by (auto simp: known_def)
    then show ?thesis
      using answered assms runs_once_write by (auto simp: known_def)
  qed
qed

lemma keeps_status [intro]: "keepsC I (status_id rd nm)"
  by (auto simp: status_id_def liftR_def keepsC_def)

lemma keeps_readL [intro]: "keepsC I (readL f)"
  by (auto simp: readL_def keepsC_def)

lemma status_id_Inr: "status_id rd nm w = (Inr i, w') \<Longrightarrow> resolve_queue_status_id rd nm = Inr i \<and> w' = w"
  by (auto simp: status_id_def liftR_def split: sum.splits)

lemma ids_ok_other:
  "ids_ok rd Q R \<Longrightarrow> nm \<in> {''CANCEL_REQUESTED'', ''COMPLETED'', ''FAILED'', ''CANCELLED''}
   \<Longrightarrow> resolve_queue_status_id rd nm = Inr i \<Longrightarrow> i \<noteq> R \<and> i \<noteq> Q"
  by (auto simp: ids_ok_def)

lemma keeps_mark_terminal:
  "st \<noteq> R \<Longrightarrow> st \<noteq> Q \<Longrightarrow> queue_id (job r) \<in> X \<Longrightarrow> keepsC (known Q R X) (mark_terminal r st err)"
  by (simp add: mark_terminal_def keeps_write)

lemma set_delete: "set (AList.delete k al) = {(x, y) \<in> set al. x \<noteq> k}"
  by (auto simp: AList.delete_eq)

lemma keeps_modL:
  assumes "\<And>l. spawn_log (f l) = spawn_log l"
    and "\<And>l. distinct (map fst (active l)) \<Longrightarrow> distinct (map fst (active (f l)))"
    and "\<And>l. set (active (f l)) \<subseteq> set (active l)"
  shows "keepsC (known Q R X) (modL f)"
  using assms by (fastforce simp: keepsC_def modL_def known_def runs_once_def)

lemma keeps_pop [intro]: "keepsC (known Q R X) (modL (pop_active qid))"
  by (rule keeps_modL) (auto simp: pop_active_def set_delete distinct_delete)

lemma kill_wait_frame [simp]:
  "spawn_log (kill_wait p l) = spawn_log l" "active (kill_wait p l) = active l"
  "spawn_log (stop_child p l) = spawn_log l" "active (stop_child p l) = active l"
  by (simp_all add: kill_wait_def end_proc_def stop_child_def)

lemma keeps_kill [intro]:
  "keepsC (known Q R X) (modL (kill_wait p))" "keepsC (known Q R X) (modL (stop_child p))"
  by (rule keeps_modL; simp)+

lemma list_by_status_known:
  assumes "known Q R X w" "list_by_status st w = (Inr rows, w')"
  shows "known Q R (X \<union> (queue_id \<circ> job) ` set rows) w'" "r \<in> set rows \<Longrightarrow> status_of (fst w') (queue_id (job r)) = Some st"
proof -
  obtain db l where w: "w = (db, l)" by (cases w)
  have "\<exists>db1. w' = (db1, l) \<and> rows = sp_get_queue_proc None None (Some st) None 1000 db1"
    using assms(2) unfolding list_by_status_def sp_get_queue_def w by (cases rule: on_bt_cases) auto
  then obtain db1 where db1: "w' = (db1, l)" "rows = sp_get_queue_proc None None (Some st) None 1000 db1"
    by blast
  have k: "known Q R X w'"
    using keepsC_D [OF keeps_read assms(1)] assms(2) unfolding list_by_status_def sp_get_queue_def by blast
  then have "queue_wf db1"
    by (simp add: known_def runs_once_def queue_once_def db1)
  then have st: "status_of (fst w') (queue_id (job r)) = Some st" if "r \<in> set rows" for r
    using listed_status [of db1 r None st None 1000] that by (simp add: db1)
  then show "r \<in> set rows \<Longrightarrow> status_of (fst w') (queue_id (job r)) = Some st" .
  have "queue_id (job r) \<in> job_ids db1" if "r \<in> set rows" for r
    using st [OF that] status_of_None [of db1 "queue_id (job r)"] db1 by fastforce
  then show "known Q R (X \<union> (queue_id \<circ> job) ` set rows) w'"
    using k by (auto simp: known_def db1)
qed

lemma known_mono: "known Q R X w \<Longrightarrow> Y \<subseteq> X \<Longrightarrow> known Q R Y w"
  by (auto simp: known_def)

text \<open>A call that lists the jobs of one status and then works on them.\<close>

lemma keeps_listed:
  assumes "\<And>rows. keepsC (known Q R (X \<union> (queue_id \<circ> job) ` set rows)) (f rows)"
  shows "keepsC (known Q R X) (bindC (list_by_status st) f)"
proof (rule keepsC_bindI)
  show "keepsC (known Q R X) (list_by_status st)"
    by (simp add: list_by_status_def sp_get_queue_def keeps_read)
next
  fix w rows w' r w''
  assume "known Q R X w" "list_by_status st w = (Inr rows, w')" "f rows w' = (r, w'')"
  then have "known Q R (X \<union> (queue_id \<circ> job) ` set rows) w''"
    using keepsC_D [OF assms] list_by_status_known(1) by blast
  then show "known Q R X w''"
    by (rule known_mono) auto
qed

lemma keeps_status_bind:
  assumes "\<And>i. resolve_queue_status_id rd nm = Inr i \<Longrightarrow> keepsC I (f i)"
  shows "keepsC I (bindC (status_id rd nm) f)"
  by (rule keepsC_bindI) (auto dest!: status_id_Inr dest: keepsC_D [OF assms])

lemma keeps_recover:
  assumes "ids_ok rd Q R"
  shows "keepsC (known Q R X) (recover_stale rd)"
  unfolding recover_stale_def
  by (intro keeps_status_bind keeps_listed keepsC_bind keepsC_for keeps_mark_terminal keepsC_return)
    (use ids_ok_other [OF assms, of "''FAILED''"] in auto)

lemma get_active_job:
  assumes "get_active qid uid w = (Inr (Some r), w')"
  shows "queue_id (job r) = qid" "qid \<in> job_ids (fst w')"
proof -
  obtain db l where w: "w = (db, l)" by (cases w)
  obtain rows where rows: "sp_get_queue (Some qid) None None uid 50 (db, l) = (Inr rows, w')"
    and r: "r \<in> set rows"
    using assms by (auto simp: get_active_def w bindC_Inr_iff split: if_splits)
  have "\<exists>db1. w' = (db1, l) \<and> rows = sp_get_queue_proc (Some qid) None None uid 50 db1"
    using rows unfolding sp_get_queue_def by (cases rule: on_bt_cases) auto
  then obtain db1 where w': "w' = (db1, l)" "r \<in> set (sp_get_queue_proc (Some qid) None None uid 50 db1)"
    using r by blast
  then have "job r \<in> set (queue_rows db1) \<and> queue_id (job r) = qid"
    by (auto simp: sp_get_queue_proc_def Let_def dest!: in_set_takeD joined_job)
  then show "queue_id (job r) = qid" "qid \<in> job_ids (fst w')"
    by (auto simp: w' job_ids_def)
qed

lemma keeps_get_active [intro]: "keepsC (known Q R X) (get_active qid uid)"
  unfolding get_active_def sp_get_queue_def by (intro keepsC_bind keeps_read keepsC_return)

lemma keeps_mark_crashed:
  assumes "ids_ok rd Q R" "\<And>r. latest = Some r \<Longrightarrow> queue_id (job r) \<in> X"
  shows "keepsC (known Q R X) (mark_crashed rd code latest)"
  unfolding mark_crashed_def
  using assms(2) ids_ok_other [OF assms(1), of "''FAILED''"]
  by (cases latest) (auto intro!: keeps_status_bind keeps_mark_terminal)

lemma keeps_reap_child:
  assumes "ids_ok rd Q R"
  shows "keepsC (known Q R X) (reap_child rd e)"
proof -
  obtain qid c where e: "e = (qid, c)" by (cases e)
  have crashed: "keepsC (known Q R X) (bindC (get_active qid None) (mark_crashed rd code))" for code
  proof (rule keepsC_bindI [OF keeps_get_active])
    fix w latest w' x w''
    assume k: "known Q R X w" and a: "get_active qid None w = (Inr latest, w')"
      and f: "mark_crashed rd code latest w' = (x, w'')"
    let ?Y = "X \<union> (if latest = None then {} else {qid})"
    have k': "known Q R ?Y w'"
      using keepsC_D [OF keeps_get_active k a] get_active_job(2) [of qid None w _ w'] a
      by (cases latest) (auto simp: known_def)
    have "keepsC (known Q R ?Y) (mark_crashed rd code latest)"
      using get_active_job(1) [of qid None w _ w'] a by (intro keeps_mark_crashed [OF assms]) auto
    from keepsC_D [OF this k' f] show "known Q R X w''"
      by (rule known_mono) auto
  qed
  show ?thesis
    unfolding reap_child_def e prod.case
    by (intro keepsC_bind keeps_pop keeps_readL) (auto intro: crashed split: option.split)
qed

lemma keeps_reap: "ids_ok rd Q R \<Longrightarrow> keepsC (known Q R X) (reap_children rd)"
  unfolding reap_children_def by (intro keepsC_bind keeps_readL keepsC_for keeps_reap_child)

lemma keeps_cancels:
  assumes "ids_ok rd Q R"
  shows "keepsC (known Q R X) (enforce_cancels rd)"
proof -
  have one: "keepsC (known Q R Y) (cancel_row cancelled r)"
    if "resolve_queue_status_id rd ''CANCELLED'' = Inr cancelled" "queue_id (job r) \<in> Y" for cancelled r Y
    unfolding cancel_row_def
    using that ids_ok_other [OF assms, of "''CANCELLED''"]
    by (intro keepsC_bind keeps_readL keeps_pop keeps_mark_terminal)
      (auto split: option.split)
  show ?thesis
    unfolding enforce_cancels_def
    by (intro keeps_status_bind keeps_listed) (auto intro!: keeps_status_bind one)
qed

text \<open>A tracked child is of a job that exists, so the timeout writes an existing job.\<close>

lemma keeps_timeouts:
  assumes "ids_ok rd Q R"
  shows "keepsC (known Q R X) (enforce_timeouts rd)"
  unfolding enforce_timeouts_def
proof (rule keepsC_bindI [OF keeps_readL])
  fix w x w' r w''
  assume k: "known Q R X w" and a: "readL (\<lambda>l. (monotonic l, active l)) w = (Inr x, w')"
    and f: "(case x of (now, entries) \<Rightarrow> forC entries (timeout_child rd now)) w' = (r, w'')"
  obtain db l where w: "w = (db, l)" by (cases w)
  have x: "x = (monotonic l, active l)" and w': "w' = (db, l)"
    using a by (auto simp: w readL_def)
  let ?Y = "X \<union> (\<lambda>(q, c). queue_id (job (claimed c))) ` set (active l)"
  have one: "keepsC (known Q R ?Y) (timeout_child rd now e)" if "e \<in> set (active l)" for now e
  proof (cases e)
    case (Pair qid c)
    then have "queue_id (job (claimed c)) \<in> ?Y"
      using that by force
    then show ?thesis
      unfolding timeout_child_def Pair prod.case
      using ids_ok_other [OF assms, of "''FAILED''"]
      by (intro keepsC_bind keeps_readL)
        (auto intro!: keepsC_bind keeps_status_bind keeps_mark_terminal split: prod.split)
  qed
  have "queue_id (job (claimed c)) \<in> job_ids db" if "(q, c) \<in> set (active l)" for q c
    using k that runs_pos [of R db q] by (fastforce simp: known_def w runs_once_def)
  then have "known Q R ?Y w'"
    using k by (auto simp: known_def w w')
  then have "known Q R ?Y w''"
    using keepsC_D [OF keepsC_for [OF one, of "active l"]] f x by simp
  then show "known Q R X w''" by (rule known_mono) auto
qed

text \<open>Claiming: the job was queued when it was listed, so it had no RUNNING row and no worker.\<close>

lemma claim_write_known:
  assumes "known Q R (insert qid X) (db1, l)" "runs R db1 qid = 0" "Q \<noteq> R"
    and "sp_ins_queue qid sid svid R prio uid err (db1, l) = (y, w')"
  shows "known Q R X w'" "snd w' = l" "y = Inr u \<Longrightarrow> runs R (fst w') qid = 1"
proof -
  have once1: "runs_once Q R (db1, l)"
    using assms(1) by (simp add: known_def)
  have nolog: "qid \<notin> set (spawn_log l)"
    using once1 assms(2) by (auto simp: runs_once_def)
  have "known Q R X w' \<and> snd w' = l \<and> (y = Inr u \<longrightarrow> runs R (fst w') qid = 1)"
    using assms(4) unfolding sp_ins_queue_def
  proof (cases rule: on_bt_cases)
    case (failed s db2 e)
    then show ?thesis
      using known_interfere [OF assms(1) failed(1)] by (auto intro: known_mono)
  next
    case (answered s db2 z db3)
    note k2 = known_interfere [OF assms(1) answered(1)]
    have r2: "runs R db2 qid = 0"
      using assms(2) runs_once_interfere(2) [OF once1 answered(1)] by simp
    have mem: "qid \<in> job_ids db2" "qid < next_uuid db2"
      using k2 by (auto simp: known_def runs_once_def queue_once_def queue_wf_def)
    have "runs_once Q R (db3, l)"
      using k2 answered(2) r2 mem nolog assms(3)
      by (auto simp: known_def runs_once_def queue_once_def runs_ins queue_wf_ins insert_absorb coming_def)
    moreover have "runs R db3 qid = 1" "job_ids db2 \<subseteq> job_ids db3"
      using answered(2) r2 by (auto simp: runs_ins)
    ultimately show ?thesis
      using k2 answered(4) by (auto simp: known_def)
  qed
  then show "known Q R X w'" "snd w' = l" "y = Inr u \<Longrightarrow> runs R (fst w') qid = 1"
    by blast+
qed

lemma claim_next_cases:
  assumes "claim_next Q R w = (x, w')"
  obtains (not_listed) e where "list_by_status Q w = (Inl e, w')" "x = Inl e"
  | (idle) rows where "list_by_status Q w = (Inr rows, w')" "in_run_order rows = []" "x = Inr None"
  | (claim) rows r rs w1 y where "list_by_status Q w = (Inr rows, w1)" "in_run_order rows = r # rs"
      "sp_ins_queue (queue_id (job r)) (q_strategy_id (job r)) (q_strategy_vid (job r)) R
         (priority (job r)) (q_user_id (job r)) None w1 = (y, w')"
      "x = (case y of Inl e \<Rightarrow> Inl e | Inr _ \<Rightarrow> Inr (Some r))"
  using assms unfolding claim_next_def by (auto elim!: bindC_E split: list.splits)

lemma claim_next_known:
  assumes "known Q R X w" "Q \<noteq> R" "claim_next Q R w = (x, w')"
  shows "known Q R X w'"
    "x = Inr (Some r) \<Longrightarrow> queue_id (job r) \<notin> set (spawn_log (snd w'))"
    "x = Inr (Some r) \<Longrightarrow> runs R (fst w') (queue_id (job r)) = 1"
proof -
  have "known Q R X w' \<and> (\<forall>r. x = Inr (Some r) \<longrightarrow>
      queue_id (job r) \<notin> set (spawn_log (snd w')) \<and> runs R (fst w') (queue_id (job r)) = 1)"
    using assms(3)
  proof (cases rule: claim_next_cases)
    case (not_listed e)
    have "known Q R X w'"
      using keepsC_D [OF keeps_read assms(1)] not_listed(1)
      unfolding list_by_status_def sp_get_queue_def by blast
    then show ?thesis using not_listed by simp
  next
    case (idle rows)
    then show ?thesis
      using list_by_status_known(1) [OF assms(1) idle(1)] by (auto intro: known_mono)
  next
    case (claim rows c rs w1 y)
    note listed = list_by_status_known [OF assms(1) claim(1)]
    obtain db1 l where w1: "w1 = (db1, l)" by (cases w1)
    have "c \<in> set rows"
      using claim(2) by (metis in_run_order_def list.set_intros(1) set_sort)
    then have k1: "known Q R (insert (queue_id (job c)) X) (db1, l)"
      using listed(1) w1 by (auto intro: known_mono)
    have zero: "runs R db1 (queue_id (job c)) = 0"
      using k1 listed(2) [OF \<open>c \<in> set rows\<close>] by (auto simp: known_def runs_once_def queue_once_def w1)
    have nolog: "queue_id (job c) \<notin> set (spawn_log l)"
      using k1 zero by (auto simp: known_def runs_once_def)
    note wr = claim_write_known [OF k1 zero assms(2) claim(3) [unfolded w1]]
    show ?thesis
      using wr nolog claim(4) by (cases y) auto
  qed
  then show "known Q R X w'"
    "x = Inr (Some r) \<Longrightarrow> queue_id (job r) \<notin> set (spawn_log (snd w'))"
    "x = Inr (Some r) \<Longrightarrow> runs R (fst w') (queue_id (job r)) = 1"
    by blast+
qed

lemma ids_okD:
  assumes "ids_ok rd Q R"
  shows "status_id rd ''QUEUED'' w = (Inr Q, w)" "status_id rd ''RUNNING'' w = (Inr R, w)" "Q \<noteq> R"
  using assms by (auto simp: ids_ok_def status_id_def liftR_def)

lemma update_new: "k \<notin> fst ` set al \<Longrightarrow> AList.update k v al = al @ [(k, v)]"
  by (induction al) auto

lemma spawn_tracked:
  assumes "known Q R X (db, l)" "qid \<notin> set (spawn_log l)" "runs R db qid = 1" "queue_id (job r) = qid"
    and "spawn qid (db, l) = (Inr p, (db', l'))"
  shows "known Q R X (db', track qid p r l')" "length (active (track qid p r l')) = length (active l) + 1"
proof -
  have l': "db' = db" "active l' = active l" "spawn_log l' = qid # spawn_log l"
    using assms(5) by (auto simp: spawn_def split: list.splits option.splits)
  have new: "qid \<notin> fst ` set (active l)"
    using assms(1,2) by (fastforce simp: known_def runs_once_def)
  then have act: "active (track qid p r l') = active l @ [(qid, \<lparr>pid = p, started = monotonic l', claimed = r\<rparr>)]"
    by (simp add: track_def l' update_new)
  then show "length (active (track qid p r l')) = length (active l) + 1"
    by simp
  show "known Q R X (db', track qid p r l')"
    using assms(1-4) new act by (auto simp: known_def runs_once_def l' track_def)
qed

text \<open>Calls that only touch the tables leave the loop's own state alone.\<close>

lemma keeps_own: "keepsC (\<lambda>w. P (snd w)) (on_bt f)"
  by (rule keepsC_I) (auto elim!: on_bt_cases)

lemma list_by_status_own: "list_by_status st w = (x, w') \<Longrightarrow> snd w' = snd w"
  using keepsC_D [OF keeps_own [of "\<lambda>l. l = snd w"]]
  by (fastforce simp: list_by_status_def sp_get_queue_def)

lemma sp_ins_queue_own: "sp_ins_queue a b c d e f g w = (x, w') \<Longrightarrow> snd w' = snd w"
  using keepsC_D [OF keeps_own [of "\<lambda>l. l = snd w"]]
  by (fastforce simp: sp_ins_queue_def)

lemma claim_next_own: "claim_next Q R w = (x, w') \<Longrightarrow> snd w' = snd w"
  by (erule claim_next_cases) (metis list_by_status_own sp_ins_queue_own)+

lemma spawn_frame:
  assumes "spawn qid (db, l) = (x, (db', l'))"
  shows "db' = db" "active l' = active l" "max_concurrent l' = max_concurrent l" "running l' = running l"
    "x = Inl e \<Longrightarrow> spawn_log l' = spawn_log l"
  using assms by (auto simp: spawn_def split: list.splits option.splits)

lemma try_claim_cases:
  assumes "ids_ok rd Q R" "try_claim_and_spawn rd w = (x, w')"
  obtains (refused) e where "claim_next Q R w = (Inl e, w')" "x = Inl e"
  | (idle) "claim_next Q R w = (Inr None, w')" "x = Inr False"
  | (no_spawn) r w1 e where "claim_next Q R w = (Inr (Some r), w1)"
      "spawn (queue_id (job r)) w1 = (Inl e, w')" "x = Inl e"
  | (spawned) r w1 p db2 l2 where "claim_next Q R w = (Inr (Some r), w1)"
      "spawn (queue_id (job r)) w1 = (Inr p, (db2, l2))" "x = Inr True"
      "w' = (db2, track (queue_id (job r)) p r l2)"
  using assms(2) unfolding try_claim_and_spawn_def
  by (auto simp: ids_okD [OF assms(1)] modL_def elim!: bindC_E split: option.splits)

lemma try_claim_known:
  assumes "ids_ok rd Q R" "known Q R X w" "try_claim_and_spawn rd w = (x, w')"
  shows "known Q R X w' \<and> max_concurrent (snd w') = max_concurrent (snd w)
    \<and> length (active (snd w')) = length (active (snd w)) + (if x = Inr True then 1 else 0)"
  using assms(1,3)
proof (cases rule: try_claim_cases)
  case (refused e)
  then show ?thesis
    using claim_next_known(1) [OF assms(2) ids_okD(3) [OF assms(1)] refused(1)] claim_next_own [OF refused(1)]
    by simp
next
  case idle
  then show ?thesis
    using claim_next_known(1) [OF assms(2) ids_okD(3) [OF assms(1)] idle(1)] claim_next_own [OF idle(1)]
    by simp
next
  case (no_spawn r w1 e)
  obtain db1 l1 db2 l2 where w1: "w1 = (db1, l1)" "w' = (db2, l2)" by (cases w1; cases w')
  note c = claim_next_known(1) [OF assms(2) ids_okD(3) [OF assms(1)] no_spawn(1)]
  note f = spawn_frame [OF no_spawn(2) [unfolded w1]]
  have "known Q R X w'"
    using c f by (auto simp: known_def runs_once_def w1)
  then show ?thesis
    using f claim_next_own [OF no_spawn(1)] no_spawn(3) by (auto simp: w1)
next
  case (spawned r w1 p db2 l2)
  obtain db1 l1 where w1: "w1 = (db1, l1)" by (cases w1)
  note c = claim_next_known [OF assms(2) ids_okD(3) [OF assms(1)] spawned(1)]
  have "known Q R X w'"
    using spawn_tracked(1) [OF c(1) [unfolded w1] _ _ refl spawned(2) [unfolded w1]] c(2,3) w1 spawned(4) by simp
  moreover have "length (active (snd w')) = length (active l1) + 1"
    using spawn_tracked(2) [OF c(1) [unfolded w1] _ _ refl spawned(2) [unfolded w1]] c(2,3) w1 spawned(4) by simp
  moreover have "max_concurrent (snd w') = max_concurrent l1"
    using spawn_frame(3) [OF spawned(2) [unfolded w1]] spawned(4) by (simp add: track_def)
  ultimately show ?thesis
    using claim_next_own [OF spawned(1)] spawned(3) w1 by auto
qed

lemma fill_ends:
  assumes "ids_ok rd Q R" "known Q R X w"
  shows "\<exists>r w'. fill rd w = Some (r, w') \<and> known Q R X w'
    \<and> max_concurrent (snd w') = max_concurrent (snd w)
    \<and> int (length (active (snd w'))) \<le> max (int (length (active (snd w)))) (max_concurrent (snd w))"
  using assms(2)
proof (induction "nat (max_concurrent (snd w) - int (length (active (snd w))))" arbitrary: w rule: less_induct)
  case less
  show ?case
  proof (cases "running (snd w) \<and> int (length (active (snd w))) < max_concurrent (snd w)")
    case True
    obtain x w1 where t: "try_claim_and_spawn rd w = (x, w1)" by (metis surj_pair)
    note tc = try_claim_known [OF assms(1) less.prems t]
    show ?thesis
    proof (cases "x = Inr True")
      case more: True
      have "\<exists>r w'. fill rd w1 = Some (r, w') \<and> known Q R X w'
        \<and> max_concurrent (snd w') = max_concurrent (snd w1)
        \<and> int (length (active (snd w'))) \<le> max (int (length (active (snd w1)))) (max_concurrent (snd w1))"
        using True tc more by (intro less.hyps) auto
      then show ?thesis
        using True t tc more by (subst fill.simps) auto
    next
      case False
      then show ?thesis
        using True t tc by (subst fill.simps) (cases x; auto)
    qed
  next
    case False
    then have "fill rd w = Some (Inr (), w)"
      by (subst fill.simps) (rule if_not_P)
    then show ?thesis using less.prems by auto
  qed
qed

text \<open>The steps before the filling never add a child.\<close>

definition room :: "nat \<Rightarrow> int \<Rightarrow> world \<Rightarrow> bool" where
  "room n m w \<longleftrightarrow> length (active (snd w)) \<le> n \<and> max_concurrent (snd w) = m"

lemma keeps_room_db: "keepsC (room n m) (on_bt f)"
  unfolding room_def by (rule keeps_own)

lemma keeps_room_modL:
  "keepsC (room n m) (modL (pop_active qid))" "keepsC (room n m) (modL (kill_wait p))"
  "keepsC (room n m) (modL (stop_child p))"
  by (auto simp: keepsC_def room_def modL_def pop_active_def kill_wait_def stop_child_def end_proc_def
      intro: le_trans [OF length_delete_le])

lemmas keeps_room_simps = keeps_room_db keeps_room_modL keeps_readL keeps_status keepsC_return
  keepsC_bind keepsC_for

lemma keeps_room: "keepsC (room n m) (before_fill rd)"
  unfolding before_fill_def reap_children_def reap_child_def mark_crashed_def enforce_cancels_def
    enforce_timeouts_def timeout_child_def cancel_row_def mark_terminal_def sp_ins_queue_def
    get_active_def list_by_status_def sp_get_queue_def
  by (auto intro!: keeps_room_simps split: option.split prod.split)

lemma keeps_before_fill: "ids_ok rd Q R \<Longrightarrow> keepsC (known Q R X) (before_fill rd)"
  unfolding before_fill_def by (intro keepsC_bind keeps_reap keeps_cancels keeps_timeouts)

lemma tick_ends:
  assumes "ids_ok rd Q R" "known Q R X w"
  shows "\<exists>r w'. tick rd w = Some (r, w') \<and> known Q R X w' \<and> max_concurrent (snd w') = max_concurrent (snd w)
    \<and> int (length (active (snd w'))) \<le> max (int (length (active (snd w)))) (max_concurrent (snd w))"
proof -
  obtain x w1 where b: "before_fill rd w = (x, w1)" by (metis surj_pair)
  have k: "known Q R X w1"
    using keepsC_D [OF keeps_before_fill [OF assms(1)] assms(2) b] .
  have rm: "length (active (snd w1)) \<le> length (active (snd w))" "max_concurrent (snd w1) = max_concurrent (snd w)"
    using keepsC_D [OF keeps_room _ b, of "length (active (snd w))" "max_concurrent (snd w)"]
    by (auto simp: room_def)
  show ?thesis
  proof (cases x)
    case (Inl e)
    then show ?thesis using b k rm by (auto simp: tick_def)
  next
    case (Inr u)
    then show ?thesis
      using b rm fill_ends [OF assms(1) k] by (auto simp: tick_def)
  qed
qed

section \<open>The loop over its lifetime\<close>

text \<open>
  Every state the queue and the loops can reach: a queue nobody works on; a loop that boots
  (also after one that died with children still running); ticks, returning or raising; a stop
  and the drain; processes that end, time that passes, failing spawns; and any calm schedule of
  writes by the other processes and of failing calls.
\<close>

inductive reach :: "refdata \<Rightarrow> int \<Rightarrow> int \<Rightarrow> world \<Rightarrow> bool" for rd Q R where
  fresh: "reach rd Q R (db, l)"
    if "queue_once Q R db" "bt_slots db = []" "spawn_log l = []" "active l = []"
| boot: "reach rd Q R w'"
    if "reach rd Q R (db, l)" "recover_stale rd (db, l\<lparr>active := [], running := True\<rparr>) = (r, w')"
| ticked: "reach rd Q R w'"
    if "reach rd Q R w" "tick rd w = Some (r, w')"
| stopped: "reach rd Q R (db, drain ends (stop l))"
    if "reach rd Q R (db, l)"
| elapsed: "reach rd Q R (db, l\<lparr>returncodes := rc, monotonic := t, spawn_faults := fs\<rparr>)"
    if "reach rd Q R (db, l)"
| scheduled: "reach rd Q R (db\<lparr>bt_slots := ss\<rparr>, l)"
    if "reach rd Q R (db, l)" "calm Q R (job_ids db) (concat (map others ss))"

lemma drain_frame: "spawn_log (drain ends l) = spawn_log l \<and> active (drain ends l) = active l"
proof -
  have "spawn_log (foldl (\<lambda>l (qid, c). if ends (pid c) then end_proc (pid c) 0 l else kill_wait (pid c) l) l cs)
        = spawn_log l
      \<and> active (foldl (\<lambda>l (qid, c). if ends (pid c) then end_proc (pid c) 0 l else kill_wait (pid c) l) l cs)
        = active l" for cs
    by (induction cs arbitrary: l) (auto simp: end_proc_def kill_wait_def)
  then show ?thesis by (simp add: drain_def)
qed

lemma reach_runs_once:
  assumes "ids_ok rd Q R"
  shows "reach rd Q R w \<Longrightarrow> runs_once Q R w"
proof (induction rule: reach.induct)
  case (fresh db l)
  then show ?case by (simp add: runs_once_def coming_def)
next
  case (boot db l r w')
  then have "known Q R {} (db, l\<lparr>active := [], running := True\<rparr>)"
    by (auto simp: known_def runs_once_def)
  then show ?case
    using keepsC_D [OF keeps_recover [OF assms]] boot(2) by (metis known_empty)
next
  case (ticked w r w')
  then show ?case
    using tick_ends [OF assms, of "{}" w] by (auto simp: known_empty)
next
  case (stopped db l ends)
  then show ?case by (auto simp: runs_once_def drain_frame stop_def)
next
  case (scheduled db l ss)
  then show ?case by (auto simp: runs_once_def queue_once_def queue_wf_frame coming_def)
qed (auto simp: runs_once_def)

text \<open>C3: No job runs twice. Whatever the API and the workers write between the loop's calls
  (never RUNNING, QUEUED only under a new id), whichever calls and spawns fail, and however
  often the loop dies and restarts, no two worker processes are started for one job, and a job
  has at most one RUNNING row, which a started worker's job has.\<close>

theorem no_job_runs_twice:
  assumes "ids_ok rd Q R" and "reach rd Q R (db, l)"
  shows "distinct (spawn_log l) \<and> (\<forall>qid. runs R db qid \<le> 1)
    \<and> (\<forall>qid. qid \<in> set (spawn_log l) \<longrightarrow> runs R db qid = 1)"
  using reach_runs_once [OF assms] by (auto simp: runs_once_def queue_once_def)

text \<open>C15: A tick ends, and within capacity. In every state the system reaches, the claim loop of
  the next tick terminates, and the tick leaves at most \<open>max_concurrent\<close> children, unless there
  were more before it, whether it returns or raises.\<close>

theorem tick_within_capacity:
  assumes "ids_ok rd Q R" and "reach rd Q R w"
  shows "\<exists>r w'. tick rd w = Some (r, w')
    \<and> int (length (active (snd w'))) \<le> max (int (length (active (snd w)))) (max_concurrent (snd w))"
  using tick_ends [OF assms(1), of "{}" w] reach_runs_once [OF assms] by (auto simp: known_empty)

section \<open>The seeded catalog\<close>

text \<open>Two different ids of one status catalog, as the seed of \<open>REFDATA.QUEUE_STATUS\<close> numbers them.\<close>

definition status_rows :: "row list" where
  "status_rows = map (\<lambda>(i, nm). [(''queue_status_id'', JInt i), (''name'', JStr nm)])
     [(1, ''QUEUED''), (2, ''RUNNING''), (3, ''CANCEL_REQUESTED''), (4, ''COMPLETED''), (5, ''FAILED''),
      (6, ''CANCELLED'')]"

definition seed_refdata :: refdata where
  "seed_refdata =
     \<lparr>catalog = (\<lambda>t. if t = ''queue_status'' then Inr status_rows else Inl (ValueError t)),
      config = (\<lambda>t. Inl (ValueError t))\<rparr>"

lemma seed_resolve:
  "resolve_queue_status_id seed_refdata ''QUEUED'' = Inr 1"
  "resolve_queue_status_id seed_refdata ''RUNNING'' = Inr 2"
  "resolve_queue_status_id seed_refdata ''CANCEL_REQUESTED'' = Inr 3"
  "resolve_queue_status_id seed_refdata ''COMPLETED'' = Inr 4"
  "resolve_queue_status_id seed_refdata ''FAILED'' = Inr 5"
  "resolve_queue_status_id seed_refdata ''CANCELLED'' = Inr 6"
  by (simp_all add: resolve_queue_status_id_def lookup_name_def seed_refdata_def status_rows_def
      has_name_def jitem_def int_item_def)

lemma seed_ids_ok: "ids_ok seed_refdata 1 2"
  by (simp add: ids_ok_def seed_resolve)

text \<open>
  A queue of two jobs, the second more urgent, and a loop with room for one worker; between its
  calls a user enqueues a third job.
\<close>

definition demo_job :: "nat \<Rightarrow> int \<Rightarrow> int \<Rightarrow> queue_row" where
  "demo_job qid prio ts =
     \<lparr>queue_id = qid, queue_vid = 1, q_strategy_id = 70 + qid, q_strategy_vid = 1, transact_from_ts = ts,
      q_open = True, queue_status_id = 1, priority = prio, error_text = None, q_user_id = ''ann'',
      created_at = ts\<rparr>"

definition demo_queue :: bt_db where
  "demo_queue =
     \<lparr>queue_rows = [demo_job 8 10 200, demo_job 7 50 100], strategy_rows = [], result_rows = [],
      promotion_rows = [],
      queue_statuses = [(1, ''QUEUED''), (2, ''RUNNING''), (3, ''CANCEL_REQUESTED''), (4, ''COMPLETED''),
                        (5, ''FAILED''), (6, ''CANCELLED'')],
      bt_clock = 300, next_uuid = 9, bt_slots = []\<rparr>"

definition demo_slots :: "slot list" where
  "demo_slots =
     [quiet_slot,
      \<lparr>others = [\<lparr>w_queue_id = 9, w_strategy_id = 79, w_strategy_vid = 1, w_status = 1, w_priority = 50,
                   w_error = None, w_user = ''bob''\<rparr>], passed = 5, fault = None\<rparr>]"

definition demo_loop :: loop where
  "demo_loop =
     \<lparr>active = [], running = True, max_concurrent = 1, job_timeout_s = 6000, returncodes = (\<lambda>_. None),
      term_works = (\<lambda>_. True), kill_works = (\<lambda>_. True), next_pid = 100, monotonic = 0,
      spawn_faults = [], spawn_log = []\<rparr>"

lemma demo_versions:
  "job_versions qid demo_queue =
     (if qid = 8 then [demo_job 8 10 200] else if qid = 7 then [demo_job 7 50 100] else [])"
  by (simp add: job_versions_def demo_queue_def demo_job_def)

lemma demo_once: "queue_once 1 2 demo_queue"
  by (auto simp: queue_once_def queue_wf_def demo_versions runs_def demo_job_def job_ids_def)
    (auto simp: demo_queue_def demo_job_def)

lemma demo_reach: "reach seed_refdata 1 2 (demo_queue\<lparr>bt_slots := demo_slots\<rparr>, demo_loop)"
proof (rule reach.scheduled)
  show "reach seed_refdata 1 2 (demo_queue, demo_loop)"
    by (rule reach.fresh [OF demo_once]) (simp_all add: demo_queue_def demo_loop_def)
  show "calm 1 2 (job_ids demo_queue) (concat (map others demo_slots))"
    by (simp add: demo_slots_def quiet_slot_def job_ids_def demo_queue_def demo_job_def)
qed

lemma demo_tick:
  "map_option (\<lambda>(r, (db, l)). spawn_log l) (tick seed_refdata (demo_queue\<lparr>bt_slots := demo_slots\<rparr>, demo_loop))
   = Some [8]"
  by code_simp

theorem no_job_runs_twice_witness:
  "\<exists>r db l. tick seed_refdata (demo_queue\<lparr>bt_slots := demo_slots\<rparr>, demo_loop) = Some (r, (db, l))
     \<and> spawn_log l = [8] \<and> distinct (spawn_log l) \<and> (\<forall>qid. runs 2 db qid \<le> 1) \<and> runs 2 db 8 = 1"
proof -
  obtain r db l where t: "tick seed_refdata (demo_queue\<lparr>bt_slots := demo_slots\<rparr>, demo_loop) = Some (r, (db, l))"
    and log: "spawn_log l = [8]"
    using demo_tick by auto
  have "reach seed_refdata 1 2 (db, l)"
    by (rule reach.ticked [OF demo_reach t])
  from no_job_runs_twice [OF seed_ids_ok this] show ?thesis
    using t log by auto
qed

theorem tick_within_capacity_witness:
  "\<exists>r w'. tick seed_refdata (demo_queue\<lparr>bt_slots := demo_slots\<rparr>, demo_loop) = Some (r, w')
     \<and> int (length (active (snd w'))) \<le> 1"
  using tick_within_capacity [OF seed_ids_ok demo_reach] by (auto simp: demo_loop_def)

end
