(* ===== verification/RunOrder.thy ===== *)
theory RunOrder
  imports WorkerLoop
begin

text \<open>
  The order in which the worker loop runs the jobs: the contract of a run queue as a locale on
  the set of waiting jobs, and \<open>claim_next\<close> on the versioned table as its provider.
\<close>

section \<open>The order jobs run in\<close>

text \<open>
  The contract of a run queue, stated on the set of waiting jobs: taking the next job takes one
  with the least key and leaves the others waiting.
\<close>

locale run_queue =
  fixes ready :: "'w \<Rightarrow> bool"
    and waiting :: "'w \<Rightarrow> 'j set"
    and key :: "'j \<Rightarrow> 'k :: linorder"
    and take_next :: "'w \<Rightarrow> 'j option \<times> 'w"
  assumes finite_waiting: "ready w \<Longrightarrow> finite (waiting w)"
    and takes_none: "ready w \<Longrightarrow> waiting w = {} \<Longrightarrow> \<exists>w'. take_next w = (None, w') \<and> ready w' \<and> waiting w' = {}"
    and takes_least: "ready w \<Longrightarrow> waiting w \<noteq> {} \<Longrightarrow>
      \<exists>j w'. take_next w = (Some j, w') \<and> j \<in> waiting w \<and> (\<forall>i \<in> waiting w. key j \<le> key i)
        \<and> ready w' \<and> waiting w' = waiting w - {j}"
begin

fun take_all :: "nat \<Rightarrow> 'w \<Rightarrow> 'j list" where
  "take_all 0 w = []"
| "take_all (Suc n) w = (case take_next w of (None, w') \<Rightarrow> [] | (Some j, w') \<Rightarrow> j # take_all n w')"

lemma take_all_in_order:
  assumes "ready w" "card (waiting w) \<le> n"
  shows "set (take_all n w) = waiting w \<and> distinct (take_all n w) \<and> sorted (map key (take_all n w))"
  using assms
proof (induction n arbitrary: w)
  case 0
  then show ?case using finite_waiting [of w] by simp
next
  case (Suc n)
  show ?case
  proof (cases "waiting w = {}")
    case True
    then show ?thesis using takes_none [OF Suc.prems(1)] by auto
  next
    case False
    then obtain j w' where j: "take_next w = (Some j, w')" "j \<in> waiting w" "\<forall>i \<in> waiting w. key j \<le> key i"
      "ready w'" "waiting w' = waiting w - {j}"
      using takes_least [OF Suc.prems(1)] by blast
    have "card (waiting w') \<le> n"
      using Suc.prems j finite_waiting by simp
    from Suc.IH [OF j(4) this] show ?thesis
      using j by auto
  qed
qed

end

definition queued_jobs :: "int \<Rightarrow> world \<Rightarrow> queue_row set" where
  "queued_jobs Q w = {q \<in> set (queue_rows (fst w)). q_open q \<and> queue_status_id q = Q}"

definition row_key :: "queue_row \<Rightarrow> int \<times> int" where
  "row_key q = (priority q, transact_from_ts q)"

text \<open>A queue at rest: no other writer, no failing call, and not more jobs than one read returns.\<close>

definition quiet_queue :: "int \<Rightarrow> world \<Rightarrow> bool" where
  "quiet_queue Q w \<longleftrightarrow>
     queue_wf (fst w) \<and> bt_slots (fst w) = [] \<and> map_of (queue_statuses (fst w)) Q \<noteq> None
     \<and> length (filter (\<lambda>q. q_open q \<and> queue_status_id q = Q) (queue_rows (fst w))) \<le> 1000"

definition claim_job :: "int \<Rightarrow> int \<Rightarrow> world \<Rightarrow> queue_row option \<times> world" where
  "claim_job Q R w =
     (case claim_next Q R w of (Inl e, w') \<Rightarrow> (None, w') | (Inr r, w') \<Rightarrow> (map_option job r, w'))"

lemma list_by_status_quiet:
  assumes "quiet_queue Q w"
  shows "\<exists>rows. list_by_status Q w = (Inr rows, w) \<and> job ` set rows = queued_jobs Q w"
proof -
  obtain db l where w: "w = (db, l)" by (cases w)
  let ?qs = "sort_key (\<lambda>q. - created_at q) (filter (\<lambda>q. q_open q \<and> queue_status_id q = Q) (queue_rows db))"
  obtain nm where nm: "map_of (queue_statuses db) Q = Some nm"
    using assms by (auto simp: quiet_queue_def w)
  have one: "\<exists>r. joined db q = [r] \<and> job r = q" if "q \<in> set ?qs" for q
    using that nm by (auto simp: joined_def)
  have "concat (map (joined db) ?qs) = map (\<lambda>q. hd (joined db q)) ?qs"
    by (rule concat_singletons) (use one in fastforce)
  then have rows: "sp_get_queue_proc None None (Some Q) None 1000 db = map (\<lambda>q. hd (joined db q)) ?qs"
    using assms by (simp add: sp_get_queue_proc_def matches_def quiet_queue_def w eq_commute [of Q])
  moreover have "job ` set (map (\<lambda>q. hd (joined db q)) ?qs) = queued_jobs Q w"
    using one by (force simp: queued_jobs_def w)
  ultimately show ?thesis
    using assms by (auto simp: list_by_status_def sp_get_queue_def on_bt_quiet w quiet_queue_def)
qed

lemma sort_key_head:
  assumes "sort_key f xs = r # rs"
  shows "r \<in> set xs" "\<And>x. x \<in> set xs \<Longrightarrow> f r \<le> f x"
proof -
  have ne: "xs \<noteq> []" using assms by auto
  have "hd (sort_key f xs) = r" using assms by simp
  then show "r \<in> set xs" "\<And>x. x \<in> set xs \<Longrightarrow> f r \<le> f x"
    using hd_sort_key_in [OF ne, of f] hd_sort_key_le [OF ne, of _ f] by auto
qed

lemma open_close_job:
  "x \<in> set (close_job qid rows) \<and> q_open x \<longleftrightarrow> x \<in> set rows \<and> q_open x \<and> queue_id x \<noteq> qid"
  by (induction rows) (auto simp: close_job_def)

lemma queued_after_claim:
  assumes "queue_wf db" "q \<in> queued_jobs Q (db, l)" "Q \<noteq> R"
  shows "queued_jobs Q (sp_ins_queue_proc (queue_id q) sid svid R prio err uid db, l) = queued_jobs Q (db, l) - {q}"
proof -
  obtain rs where rs: "job_versions (queue_id q) db = q # rs"
    using assms(2) open_row_newest [OF assms(1), of q] by (auto simp: queued_jobs_def)
  have only: "x = q" if "x \<in> set (queue_rows db)" "queue_id x = queue_id q" "q_open x" for x
  proof -
    have "x \<in> set (job_versions (queue_id q) db)"
      using that(1,2) by (simp add: job_versions_def)
    then show ?thesis
      using queue_wf_open [OF assms(1) rs] that(3) rs by auto
  qed
  have "x \<in> queued_jobs Q (sp_ins_queue_proc (queue_id q) sid svid R prio err uid db, l)
      \<longleftrightarrow> x \<in> queued_jobs Q (db, l) \<and> queue_id x \<noteq> queue_id q" for x
    using assms(3) open_close_job [of x "queue_id q" "queue_rows db"]
    by (auto simp: queued_jobs_def sp_ins_queue_rows)
  moreover have "x \<in> queued_jobs Q (db, l) \<Longrightarrow> queue_id x = queue_id q \<longleftrightarrow> x = q" for x
    using only [of x] by (auto simp: queued_jobs_def)
  ultimately show ?thesis by blast
qed

lemma queued_card_after:
  "length (filter (\<lambda>q. q_open q \<and> queue_status_id q = Q)
     (queue_rows (sp_ins_queue_proc qid sid svid R prio err uid db)))
   \<le> length (filter (\<lambda>q. q_open q \<and> queue_status_id q = Q) (queue_rows db))" if "Q \<noteq> R"
proof -
  have "length (filter (\<lambda>q. q_open q \<and> queue_status_id q = Q) (close_job qid rows))
      \<le> length (filter (\<lambda>q. q_open q \<and> queue_status_id q = Q) rows)" for rows
    by (induction rows) (auto simp: close_job_def)
  then show ?thesis using that by (simp add: sp_ins_queue_rows)
qed

lemma claim_job_takes:
  assumes "quiet_queue Q w" "queued_jobs Q w \<noteq> {}" "Q \<noteq> R"
  shows "\<exists>j w'. claim_job Q R w = (Some j, w') \<and> j \<in> queued_jobs Q w
    \<and> (\<forall>i \<in> queued_jobs Q w. row_key j \<le> row_key i) \<and> quiet_queue Q w'
    \<and> queued_jobs Q w' = queued_jobs Q w - {j}"
proof -
  obtain db l where w: "w = (db, l)" by (cases w)
  obtain rows where rows: "list_by_status Q w = (Inr rows, w)" "job ` set rows = queued_jobs Q w"
    using list_by_status_quiet [OF assms(1)] by blast
  then have "rows \<noteq> []"
    using assms(2) by auto
  then obtain r rs where r: "sort_key run_key rows = r # rs"
    by (metis length_0_conv length_sort list.exhaust)
  note least = sort_key_head [OF r]
  let ?db = "sp_ins_queue_proc (queue_id (job r)) (q_strategy_id (job r)) (q_strategy_vid (job r)) R
      (priority (job r)) None (q_user_id (job r)) db"
  have j: "job r \<in> queued_jobs Q w" using rows(2) least(1) by blast
  then have "queue_id (job r) < next_uuid db"
    using assms(1) by (auto simp: quiet_queue_def queue_wf_def queued_jobs_def job_ids_def w)
  then have "queue_wf ?db"
    using assms(1) by (intro queue_wf_ins) (simp_all add: quiet_queue_def w)
  then have "quiet_queue Q (?db, l)"
    using assms(1) order_trans [OF queued_card_after [OF assms(3)]] by (simp add: quiet_queue_def w)
  moreover have "claim_job Q R w = (Some (job r), (?db, l))"
    using rows(1) r assms(1)
    by (simp add: claim_job_def claim_next_def in_run_order_def sp_ins_queue_def on_bt_quiet
        quiet_queue_def w)
  moreover have "row_key (job r) \<le> row_key i" if "i \<in> queued_jobs Q w" for i
  proof -
    obtain x where "x \<in> set rows" "i = job x"
      using \<open>i \<in> queued_jobs Q w\<close> rows(2) by blast
    then show ?thesis
      using least(2) [of x] by (simp only: row_key_def run_key_def)
  qed
  moreover have "queued_jobs Q (?db, l) = queued_jobs Q w - {job r}"
    using queued_after_claim [OF _ _ assms(3)] j assms(1) by (auto simp: quiet_queue_def w)
  ultimately show ?thesis using j by blast
qed

lemma claim_job_none:
  assumes "quiet_queue Q w" "queued_jobs Q w = {}"
  shows "claim_job Q R w = (None, w)"
proof -
  obtain rows where "list_by_status Q w = (Inr rows, w)" "job ` set rows = queued_jobs Q w"
    using list_by_status_quiet [OF assms(1)] by blast
  then show ?thesis
    using assms(2) by (simp add: claim_job_def claim_next_def in_run_order_def)
qed

lemma claim_run_queue:
  assumes "Q \<noteq> R"
  shows "run_queue (quiet_queue Q) (queued_jobs Q) row_key (claim_job Q R)"
proof
  fix w
  show "quiet_queue Q w \<Longrightarrow> finite (queued_jobs Q w)"
    by (simp add: queued_jobs_def)
  show "quiet_queue Q w \<Longrightarrow> queued_jobs Q w = {} \<Longrightarrow>
      \<exists>w'. claim_job Q R w = (None, w') \<and> quiet_queue Q w' \<and> queued_jobs Q w' = {}"
    using claim_job_none by blast
  show "quiet_queue Q w \<Longrightarrow> queued_jobs Q w \<noteq> {} \<Longrightarrow>
      \<exists>j w'. claim_job Q R w = (Some j, w') \<and> j \<in> queued_jobs Q w
        \<and> (\<forall>i \<in> queued_jobs Q w. row_key j \<le> row_key i) \<and> quiet_queue Q w'
        \<and> queued_jobs Q w' = queued_jobs Q w - {j}"
    using claim_job_takes assms by blast
qed

interpretation bt_queue: run_queue "quiet_queue 1" "queued_jobs 1" row_key "claim_job 1 2"
  by (rule claim_run_queue) simp

text \<open>C12: Jobs run in order. On a queue nobody else writes, with at most 1000 jobs waiting, as
  many claims as there are waiting jobs hand out exactly the waiting jobs, each once, in the
  order of priority and, within one priority, of the time they were enqueued: the loop's
  \<open>claim_next\<close> on the versioned table refines a priority queue on the set of waiting jobs.\<close>

theorem claims_in_run_order:
  assumes "Q \<noteq> R" and "quiet_queue Q w" and "card (queued_jobs Q w) \<le> n"
  shows "set (run_queue.take_all (claim_job Q R) n w) = queued_jobs Q w
    \<and> distinct (run_queue.take_all (claim_job Q R) n w)
    \<and> sorted (map row_key (run_queue.take_all (claim_job Q R) n w))"
  by (rule run_queue.take_all_in_order [OF claim_run_queue [OF assms(1)] assms(2,3)])

theorem claims_in_run_order_witness:
  "queue_id ` set (run_queue.take_all (claim_job 1 2) 2 (demo_queue, demo_loop)) = {7, 8}
   \<and> sorted (map row_key (run_queue.take_all (claim_job 1 2) 2 (demo_queue, demo_loop)))"
proof -
  have two: "queued_jobs 1 (demo_queue, demo_loop) = {demo_job 8 10 200, demo_job 7 50 100}"
    by (auto simp: queued_jobs_def demo_queue_def demo_job_def)
  have "quiet_queue 1 (demo_queue, demo_loop)"
    using demo_once by (simp add: quiet_queue_def queue_once_def) (simp add: demo_queue_def)
  moreover have "card (queued_jobs 1 (demo_queue, demo_loop)) \<le> 2"
    by (simp add: two demo_job_def)
  ultimately show ?thesis
    using claims_in_run_order [of 1 2 "(demo_queue, demo_loop)" 2] by (auto simp: two demo_job_def)
qed

end
