(* ===== verification/CancelTick.thy ===== *)
theory CancelTick
  imports RunOrder
begin

text \<open>
  What a tick does for a job whose cancellation was requested: the four steps of the tick as
  total calls on a queue at rest, and the theorem that the request is honoured.
\<close>

section \<open>Cancelling\<close>

text \<open>A queue at rest in which every status is in the catalog.\<close>

definition status_names :: "string list" where
  "status_names = [''QUEUED'', ''RUNNING'', ''CANCEL_REQUESTED'', ''COMPLETED'', ''FAILED'', ''CANCELLED'']"

definition sid :: "refdata \<Rightarrow> string \<Rightarrow> int" where
  "sid rd nm = projr (resolve_queue_status_id rd nm)"

definition catalog_ok :: "refdata \<Rightarrow> (int \<times> string) list \<Rightarrow> bool" where
  "catalog_ok rd sts \<longleftrightarrow>
     (\<forall>nm \<in> set status_names. \<exists>i. resolve_queue_status_id rd nm = Inr i \<and> map_of sts i = Some nm)"

definition at_rest :: "bt_db \<Rightarrow> bool" where
  "at_rest db \<longleftrightarrow>
     queue_wf db \<and> bt_slots db = []
     \<and> (\<forall>q \<in> set (queue_rows db). map_of (queue_statuses db) (queue_status_id q) \<noteq> None)"

lemma catalog_ok_status:
  assumes "catalog_ok rd sts" "nm \<in> set status_names"
  shows "status_id rd nm w = (Inr (sid rd nm), w)" "map_of sts (sid rd nm) = Some nm"
  using assms by (auto simp: catalog_ok_def sid_def status_id_def liftR_def)

lemma catalog_ok_inj:
  assumes "catalog_ok rd sts" "nm \<in> set status_names" "nm' \<in> set status_names" "nm \<noteq> nm'"
  shows "sid rd nm \<noteq> sid rd nm'"
  using catalog_ok_status(2) [OF assms(1,2)] catalog_ok_status(2) [OF assms(1,3)] assms(4) by auto

lemma catalog_ids_ok:
  assumes "catalog_ok rd sts"
  shows "ids_ok rd (sid rd ''QUEUED'') (sid rd ''RUNNING'')"
proof -
  have r: "resolve_queue_status_id rd nm = Inr (sid rd nm)" if "nm \<in> set status_names" for nm
    using assms that by (auto simp: catalog_ok_def sid_def)
  show ?thesis
    using r catalog_ok_inj [OF assms] by (auto simp: ids_ok_def status_names_def)
qed

lemma at_rest_ins:
  assumes "at_rest db" "qid \<in> job_ids db" "map_of (queue_statuses db) st \<noteq> None"
  shows "at_rest (sp_ins_queue_proc qid sd svid st prio err uid db)"
proof -
  have "qid < next_uuid db"
    using assms(1,2) by (auto simp: at_rest_def queue_wf_def)
  then show ?thesis
    using assms by (auto simp: at_rest_def queue_wf_ins sp_ins_queue_rows close_job_def)
qed

lemma sort_key_rev: "sorted_wrt (\<lambda>a b. f b < f a) xs \<Longrightarrow> sort_key f xs = rev xs"
proof (induction xs)
  case (Cons x xs)
  have "insort_key f x ys = ys @ [x]" if "\<forall>y \<in> set ys. f y < f x" for ys
    using that by (induction ys) auto
  with Cons show ?case by simp
qed simp

lemma sorted_versions:
  assumes "queue_wf db"
  shows "sort_key queue_vid (job_versions qid db) = rev (job_versions qid db)"
proof (rule sort_key_rev)
  have "sorted_wrt (<) [1..int n]" for n
    by (simp add: sorted_wrt_upto)
  then have "sorted_wrt (\<lambda>a b. b < a) (map queue_vid (job_versions qid db))"
    unfolding queue_wf_vids [OF assms] by (simp add: sorted_wrt_rev)
  then show "sorted_wrt (\<lambda>a b. queue_vid b < queue_vid a) (job_versions qid db)"
    by (simp add: sorted_wrt_map)
qed

lemma get_active_rest:
  assumes "at_rest db" "job_versions qid db = q # qs" "length qs < 50"
  shows "\<exists>r. get_active qid None (db, l) = (Inr (Some r), (db, l)) \<and> job r = q"
proof -
  let ?hist = "rev (job_versions qid db)"
  have one: "\<exists>r. joined db x = [r] \<and> job r = x" if "x \<in> set ?hist" for x
    using that assms(1) by (auto simp: joined_def at_rest_def job_versions_def)
  have all: "concat (map (joined db) ?hist) = map (\<lambda>x. hd (joined db x)) ?hist"
    by (rule concat_singletons) (use one in fastforce)
  have "filter (\<lambda>q. queue_id q = qid) (queue_rows db) = job_versions qid db"
    by (simp add: job_versions_def)
  then have rows: "sp_get_queue_proc (Some qid) None None None 50 db = map (\<lambda>x. hd (joined db x)) ?hist"
    using assms all sorted_versions [of db qid]
    by (simp add: sp_get_queue_proc_def matches_def at_rest_def del: rev.simps)
  then show ?thesis
    using assms one [of q]
    by (auto simp: get_active_def sp_get_queue_def on_bt_quiet at_rest_def)
qed

text \<open>The state a quiet tick works in; \<open>P\<close> is a fact about one job and one process.\<close>

definition quiet_loop :: "refdata \<Rightarrow> bt_db \<Rightarrow> loop \<Rightarrow> bool" where
  "quiet_loop rd db l \<longleftrightarrow>
     at_rest db \<and> catalog_ok rd (queue_statuses db) \<and> distinct (map fst (active l))
     \<and> (\<forall>(q, c) \<in> set (active l). queue_id (job (claimed c)) = q \<and> q \<in> job_ids db \<and> pid c < next_pid l)
     \<and> length (filter (\<lambda>q. q_open q \<and> queue_status_id q = sid rd ''CANCEL_REQUESTED'') (queue_rows db)) \<le> 1000"

definition steady :: "refdata \<Rightarrow> (bt_db \<Rightarrow> loop \<Rightarrow> bool) \<Rightarrow> world \<Rightarrow> bool" where
  "steady rd P w \<longleftrightarrow> quiet_loop rd (fst w) (snd w) \<and> P (fst w) (snd w)"

lemma steady_status:
  assumes "nm \<in> set status_names" "okC (steady rd P) (f (sid rd nm)) J"
  shows "okC (steady rd P) (bindC (status_id rd nm) f) J"
proof (rule okC_I)
  fix w assume w: "steady rd P w"
  then have "status_id rd nm w = (Inr (sid rd nm), w)"
    using assms(1) by (auto simp: steady_def quiet_loop_def catalog_ok_status(1))
  then show "\<exists>x w'. bindC (status_id rd nm) f w = (Inr x, w') \<and> J x w'"
    using okC_D [OF assms(2) w] by simp
qed

lemma steady_readL: "okC (steady rd P) (readL f) (\<lambda>x w. steady rd (\<lambda>db l. P db l \<and> x = f l) w)"
  by (rule okC_I) (auto simp: steady_def readL_def split: prod.splits)

lemma steady_write:
  assumes "\<And>db l. P db l \<Longrightarrow> qid \<in> job_ids db" "nm \<in> set status_names" "nm \<noteq> ''CANCEL_REQUESTED''"
    and "\<And>db l. P db l \<Longrightarrow> P' (sp_ins_queue_proc qid sd svid (sid rd nm) prio err uid db) l"
  shows "okC (steady rd P) (sp_ins_queue qid sd svid (sid rd nm) prio uid err) (\<lambda>_. steady rd P')"
proof (rule okC_I)
  fix w assume w: "steady rd P w"
  obtain db l where dl: "w = (db, l)" by (cases w)
  let ?db = "sp_ins_queue_proc qid sd svid (sid rd nm) prio err uid db"
  have b: "quiet_loop rd db l" "P db l" using w by (simp_all add: steady_def dl)
  have "at_rest ?db"
    using b assms(1) catalog_ok_status(2) [OF _ assms(2)] by (intro at_rest_ins) (auto simp: quiet_loop_def)
  moreover have "sid rd ''CANCEL_REQUESTED'' \<noteq> sid rd nm"
    using b(1) assms(2,3) by (intro catalog_ok_inj) (auto simp: quiet_loop_def status_names_def)
  note order_trans [OF queued_card_after [OF this]]
  ultimately have "quiet_loop rd ?db l"
    using b(1) by (auto simp: quiet_loop_def)
  then show "\<exists>x w'. sp_ins_queue qid sd svid (sid rd nm) prio uid err w = (Inr x, w') \<and> steady rd P' w'"
    using b assms(4) by (auto simp: steady_def dl sp_ins_queue_def on_bt_quiet quiet_loop_def at_rest_def)
qed

lemma steady_modL:
  assumes "\<And>l. distinct (map fst (active l)) \<Longrightarrow> distinct (map fst (active (f l)))"
    and "\<And>l. set (active (f l)) \<subseteq> set (active l)" "\<And>l. next_pid (f l) = next_pid l"
    and "\<And>db l. P db l \<Longrightarrow> distinct (map fst (active l)) \<Longrightarrow> P' db (f l)"
  shows "okC (steady rd P) (modL f) (\<lambda>_. steady rd P')"
  using assms by (intro okC_I) (fastforce simp: steady_def quiet_loop_def modL_def split: prod.splits)

lemma steady_weaken: "steady rd P w \<Longrightarrow> (\<And>db l. P db l \<Longrightarrow> P' db l) \<Longrightarrow> steady rd P' w"
  by (auto simp: steady_def)

lemma pop_active_frame [simp]:
  "next_pid (pop_active q l) = next_pid l" "returncodes (pop_active q l) = returncodes l"
  "set (active (pop_active q l)) \<subseteq> set (active l)"
  "distinct (map fst (active l)) \<Longrightarrow> distinct (map fst (active (pop_active q l)))"
  "fst ` set (active (pop_active q l)) = fst ` set (active l) - {q}"
  by (auto simp: pop_active_def set_delete distinct_delete image_iff)

lemma kill_frame [simp]:
  "next_pid (kill_wait p l) = next_pid l" "next_pid (stop_child p l) = next_pid l"
  "returncodes l x \<noteq> None \<Longrightarrow> returncodes (kill_wait p l) x \<noteq> None"
  "returncodes l x \<noteq> None \<Longrightarrow> returncodes (stop_child p l) x \<noteq> None"
  by (simp_all add: kill_wait_def end_proc_def stop_child_def)

definition newest_of :: "nat \<Rightarrow> job_row option \<Rightarrow> bt_db \<Rightarrow> bool" where
  "newest_of q latest db \<longleftrightarrow>
     (\<forall>r. latest = Some r \<longrightarrow> queue_id (job r) = q \<and> q \<in> job_ids db
        \<and> (\<forall>v vs. job_versions q db = v # vs \<and> length vs < 50 \<longrightarrow> job r = v))"

lemma steady_get_active:
  "okC (steady rd P) (get_active q None) (\<lambda>x. steady rd (\<lambda>db l. P db l \<and> newest_of q x db))"
proof (rule okC_I)
  fix w assume s: "steady rd P w"
  obtain db l where w: "w = (db, l)" by (cases w)
  have rest: "at_rest db" using s by (simp add: steady_def quiet_loop_def w)
  have "bt_slots db = []" using rest by (simp add: at_rest_def)
  then have "\<exists>x. get_active q None w = (Inr x, w)"
    by (simp add: get_active_def sp_get_queue_def on_bt_quiet w)
  then obtain x where x: "get_active q None w = (Inr x, w)" by blast
  have "queue_id (job r) = q \<and> q \<in> job_ids db" if "x = Some r" for r
    using get_active_job [of q None w r w] x that by (simp add: w)
  moreover have "job r = v"
    if r: "x = Some r" and v: "job_versions q db = v # vs" and few: "length vs < 50" for r v vs
  proof -
    obtain r' where "get_active q None (db, l) = (Inr (Some r'), (db, l))" "job r' = v"
      using get_active_rest [OF rest v few, of l] by (elim exE conjE)
    with x r show ?thesis by (simp only: w prod.inject sum.inject option.inject)
  qed
  ultimately have "newest_of q x db"
    unfolding newest_of_def by blast
  then have "steady rd (\<lambda>db l. P db l \<and> newest_of q x db) w"
    using s by (simp add: steady_def w)
  with x show "\<exists>x w'. get_active q None w = (Inr x, w') \<and> steady rd (\<lambda>db l. P db l \<and> newest_of q x db) w'"
    by blast
qed

text \<open>
  A job whose cancellation was requested, its child process \<open>co\<close> if it has one, and the state
  the tick has to bring both to.
\<close>

definition child_going :: "nat \<Rightarrow> child option \<Rightarrow> bool \<Rightarrow> loop \<Rightarrow> bool" where
  "child_going qid co ended l \<longleftrightarrow>
     (\<forall>c. co = Some c \<longrightarrow> pid c < next_pid l \<and> (term_works l (pid c) \<or> kill_works l (pid c))
        \<and> (returncodes l (pid c) = None \<longrightarrow> \<not> ended \<and> map_of (active l) qid = Some c))"

definition child_gone :: "nat \<Rightarrow> child option \<Rightarrow> loop \<Rightarrow> bool" where
  "child_gone qid co l \<longleftrightarrow>
     qid \<notin> fst ` set (active l) \<and> (\<forall>c. co = Some c \<longrightarrow> pid c < next_pid l \<and> returncodes l (pid c) \<noteq> None)"

definition requested :: "refdata \<Rightarrow> nat \<Rightarrow> child option \<Rightarrow> bool \<Rightarrow> bt_db \<Rightarrow> loop \<Rightarrow> bool" where
  "requested rd qid co ended db l \<longleftrightarrow>
     status_of db qid = Some (sid rd ''CANCEL_REQUESTED'') \<and> length (job_versions qid db) \<le> 50
     \<and> child_going qid co ended l"

definition cancelled :: "refdata \<Rightarrow> nat \<Rightarrow> child option \<Rightarrow> bt_db \<Rightarrow> loop \<Rightarrow> bool" where
  "cancelled rd qid co db l \<longleftrightarrow>
     status_of db qid = Some (sid rd ''CANCELLED'') \<and> child_gone qid co l"

lemma signal_frame [simp]:
  "term_works (pop_active q l) = term_works l" "kill_works (pop_active q l) = kill_works l"
  "term_works (kill_wait p l) = term_works l" "kill_works (kill_wait p l) = kill_works l"
  "term_works (stop_child p l) = term_works l" "kill_works (stop_child p l) = kill_works l"
  by (simp_all add: pop_active_def kill_wait_def stop_child_def end_proc_def)

lemma map_of_pop: "map_of (active (pop_active q l)) x = (if x = q then None else map_of (active l) x)"
  by (simp add: pop_active_def delete_conv')

lemma requested_write_other:
  "requested rd qid co ended db l \<Longrightarrow> x \<noteq> qid \<Longrightarrow> requested rd qid co ended (sp_ins_queue_proc x sd svid st prio err uid db) l"
  by (simp add: requested_def job_versions_ins)

subsection \<open>Reaping leaves it alone\<close>

lemma running_not_requested:
  assumes "steady rd (\<lambda>db l. requested rd qid co ended db l \<and> newest_of q (Some r) db) w"
    "queue_status_id (job r) = sid rd ''RUNNING''"
  shows "steady rd (\<lambda>db l. requested rd qid co ended db l \<and> queue_id (job r) \<in> job_ids db \<and> queue_id (job r) \<noteq> qid) w"
proof -
  obtain db l where w: "w = (db, l)" by (cases w)
  have p: "requested rd qid co ended db l" "newest_of q (Some r) db" "catalog_ok rd (queue_statuses db)"
    using assms(1) by (simp_all add: steady_def quiet_loop_def w)
  have "sid rd ''CANCEL_REQUESTED'' \<noteq> sid rd ''RUNNING''"
    using catalog_ok_inj [OF p(3)] by (simp add: status_names_def)
  then have "queue_id (job r) \<noteq> qid"
    using p(1,2) assms(2)
    by (cases "job_versions qid db") (auto simp: requested_def status_of_def newest_of_def)
  then show ?thesis
    using assms(1) p(2) by (simp add: steady_def w newest_of_def)
qed

lemma mark_crashed_requested:
  "okC (steady rd (\<lambda>db l. requested rd qid co ended db l \<and> newest_of q latest db))
     (mark_crashed rd code latest) (\<lambda>_. steady rd (requested rd qid co ended))"
    (is "okC (steady rd ?P) _ ?J")
  unfolding mark_crashed_def
proof (rule steady_status)
  let ?body = "\<lambda>r. bindC (status_id rd ''FAILED'') (\<lambda>failed.
      mark_terminal r failed (Some (''worker crashed exit='' @ int_str code)))"
  have same: "okC (steady rd ?P) (returnC ()) ?J"
    by (rule okC_return) (simp add: steady_def)
  have fail: "okC (steady rd (\<lambda>db l. requested rd qid co ended db l \<and> queue_id (job r) \<in> job_ids db
      \<and> queue_id (job r) \<noteq> qid)) (?body r) ?J" for r
    unfolding mark_terminal_def
    by (intro steady_status steady_write) (auto simp: status_names_def requested_write_other)
  show "okC (steady rd ?P) (case latest of None \<Rightarrow> returnC ()
      | Some r \<Rightarrow> if queue_status_id (job r) \<noteq> sid rd ''RUNNING'' then returnC () else ?body r) ?J"
  proof (cases latest)
    case (Some r)
    show ?thesis
    proof (cases "queue_status_id (job r) = sid rd ''RUNNING''")
      case True
      have "okC (steady rd ?P) (?body r) ?J"
        using fail running_not_requested [OF _ True] Some by (intro okC_weaken [OF fail]) auto
      then show ?thesis using True Some by simp
    qed (use same Some in simp)
  qed (use same in simp)
qed (simp add: status_names_def)

lemma reap_child_requested:
  assumes "fst e = qid \<Longrightarrow> ended"
  shows "okC (steady rd (requested rd qid co ended)) (reap_child rd e) (\<lambda>_. steady rd (requested rd qid co ended))"
    (is "okC (steady rd ?P) _ _")
proof -
  obtain q c where e: "e = (q, c)" by (cases e)
  have pop: "okC (steady rd ?P) (modL (pop_active q)) (\<lambda>_. steady rd ?P)"
    using assms by (intro steady_modL) (auto simp: e requested_def child_going_def map_of_pop)
  have same: "okC (steady rd (\<lambda>db l. ?P db l \<and> x = f l)) (returnC ()) (\<lambda>_. steady rd ?P)"
    for x and f :: "loop \<Rightarrow> int option"
    by (rule okC_return) (simp add: steady_def)
  have crash: "okC (steady rd (\<lambda>db l. ?P db l \<and> x = f l)) (bindC (get_active q None) (mark_crashed rd code))
      (\<lambda>_. steady rd ?P)" for x code and f :: "loop \<Rightarrow> int option"
    by (rule okC_bind [OF okC_weaken [OF steady_get_active [where P = ?P]] mark_crashed_requested])
      (auto simp: steady_def)
  show ?thesis
    unfolding reap_child_def e prod.case
    by (intro okC_bind [OF pop] okC_bind [OF steady_readL])
      (use same crash in \<open>auto split: option.split\<close>)
qed

lemma reap_requested:
  "okC (steady rd (requested rd qid co False)) (reap_children rd) (\<lambda>_. steady rd (requested rd qid co False))"
  unfolding reap_children_def
proof (rule okC_bind [OF steady_readL])
  fix fin :: "(nat \<times> child) list"
  let ?e = "\<exists>c. (qid, c) \<in> set fin"
  let ?f = "\<lambda>l. filter (\<lambda>(qid, c). returncodes l (pid c) \<noteq> None) (active l)"
  have each: "okC (steady rd (requested rd qid co ?e)) (forC fin (reap_child rd)) (\<lambda>_. steady rd (requested rd qid co ?e))"
    by (intro okC_for reap_child_requested) auto
  have enter: "steady rd (requested rd qid co ?e) w"
    if st: "steady rd (\<lambda>db l. requested rd qid co False db l \<and> fin = ?f l) w" for w
  proof -
    have "returncodes (snd w) (pid c) \<noteq> None" if "co = Some c" "(qid, c') \<in> set fin" for c c'
    proof (rule ccontr)
      assume alive: "\<not> returncodes (snd w) (pid c) \<noteq> None"
      then have "map_of (active (snd w)) qid = Some c"
        using st that(1) by (auto simp: steady_def requested_def child_going_def)
      moreover have "(qid, c') \<in> set (active (snd w))" "returncodes (snd w) (pid c') \<noteq> None"
        using st that(2) by (auto simp: steady_def)
      ultimately have "c' = c"
        using st map_of_is_SomeI [of "active (snd w)" qid c'] by (auto simp: steady_def quiet_loop_def)
      with alive \<open>returncodes (snd w) (pid c') \<noteq> None\<close> show False by simp
    qed
    then show ?thesis
      using st unfolding steady_def requested_def child_going_def by blast
  qed
  have leave: "steady rd (requested rd qid co False) w" if "steady rd (requested rd qid co ?e) w" for w
    using that by (auto simp: steady_def requested_def child_going_def)
  show "okC (steady rd (\<lambda>db l. requested rd qid co False db l \<and> fin = ?f l)) (forC fin (reap_child rd))
      (\<lambda>_. steady rd (requested rd qid co False))"
    by (rule okC_weaken [OF each enter leave])
qed

subsection \<open>The request is honoured\<close>

lemma stop_child_ends:
  "term_works l p \<or> kill_works l p \<Longrightarrow> returncodes (stop_child p l) p \<noteq> None"
  by (auto simp: stop_child_def kill_wait_def end_proc_def)

lemma cancelled_write:
  "cancelled rd qid co db l \<Longrightarrow> x \<noteq> qid \<or> st = sid rd ''CANCELLED''
   \<Longrightarrow> cancelled rd qid co (sp_ins_queue_proc x sd svid st prio err uid db) l"
  by (auto simp: cancelled_def)

lemma requested_mono:
  "requested rd qid co ended db l \<Longrightarrow> active l' = active l \<Longrightarrow> next_pid l' = next_pid l
   \<Longrightarrow> term_works l' = term_works l \<Longrightarrow> kill_works l' = kill_works l
   \<Longrightarrow> (\<And>p. returncodes l p \<noteq> None \<Longrightarrow> returncodes l' p \<noteq> None) \<Longrightarrow> requested rd qid co ended db l'"
  unfolding requested_def child_going_def by metis

lemma steady_conv:
  "(\<And>db l. P db l \<Longrightarrow> P' db l) \<Longrightarrow> okC (steady rd P') m J \<Longrightarrow> okC (steady rd P) m J"
  by (erule okC_weaken) (auto simp: steady_def)

text \<open>One row of the list: popping and stopping the child, then the write.\<close>

lemma cancel_row_ok:
  fixes r :: job_row
  defines "q \<equiv> queue_id (job r)"
  assumes "\<And>db l. P db l \<Longrightarrow> q \<in> job_ids db"
    and "\<And>db l. P db l \<Longrightarrow> distinct (map fst (active l)) \<Longrightarrow> map_of (active l) q = None \<Longrightarrow> Pm db (pop_active q l)"
    and "\<And>db l c. P db l \<Longrightarrow> distinct (map fst (active l)) \<Longrightarrow> map_of (active l) q = Some c
         \<Longrightarrow> Pm db (stop_child (pid c) (pop_active q l))"
    and "\<And>db l. Pm db l \<Longrightarrow> q \<in> job_ids db
         \<Longrightarrow> Pf (sp_ins_queue_proc q (q_strategy_id (job r)) (q_strategy_vid (job r)) (sid rd ''CANCELLED'')
                   (priority (job r)) None (q_user_id (job r)) db) l"
  shows "okC (steady rd P) (cancel_row (sid rd ''CANCELLED'') r) (\<lambda>_. steady rd Pf)"
proof -
  let ?Pm = "\<lambda>db l. Pm db l \<and> q \<in> job_ids db"
  have wr: "okC (steady rd ?Pm) (mark_terminal r (sid rd ''CANCELLED'') None) (\<lambda>_. steady rd Pf)"
    unfolding mark_terminal_def q_def [symmetric]
    by (rule steady_write) (use assms(5) in \<open>auto simp: status_names_def\<close>)
  have stop: "okC (steady rd (\<lambda>db l. \<exists>l0. P db l0 \<and> distinct (map fst (active l0)) \<and> entry = map_of (active l0) q
        \<and> l = pop_active q l0))
      (case entry of None \<Rightarrow> returnC () | Some c \<Rightarrow> modL (stop_child (pid c))) (\<lambda>_. steady rd ?Pm)" for entry
  proof (cases entry)
    case None
    then show ?thesis
      using assms(2,3) by (auto intro!: okC_return simp: steady_def)
  next
    case (Some c)
    then show ?thesis
      using assms(2,4) by (auto intro!: steady_modL)
  qed
  have pop: "okC (steady rd (\<lambda>db l. P db l \<and> entry = map_of (active l) q)) (modL (pop_active q))
      (\<lambda>_. steady rd (\<lambda>db l. \<exists>l0. P db l0 \<and> distinct (map fst (active l0)) \<and> entry = map_of (active l0) q
        \<and> l = pop_active q l0))" for entry
    by (rule steady_modL) auto
  show ?thesis
    unfolding cancel_row_def q_def [symmetric]
    by (intro okC_bind [OF steady_readL] okC_bind [OF pop] okC_bind [OF stop] wr)
qed

definition cancelling :: "refdata \<Rightarrow> nat \<Rightarrow> child option \<Rightarrow> bt_db \<Rightarrow> loop \<Rightarrow> bool" where
  "cancelling rd qid co db l \<longleftrightarrow> requested rd qid co False db l \<or> cancelled rd qid co db l"

lemma cancelling_gone:
  assumes "cancelling rd qid co db l"
  shows "map_of (active l) qid = None \<Longrightarrow> child_gone qid co (pop_active qid l)"
    "map_of (active l) qid = Some c \<Longrightarrow> child_gone qid co (stop_child (pid c) (pop_active qid l))"
proof -
  have known: "pid c' < next_pid l" "returncodes l (pid c') \<noteq> None \<or> map_of (active l) qid = Some c'"
    "term_works l (pid c') \<or> kill_works l (pid c') \<or> returncodes l (pid c') \<noteq> None" if "co = Some c'" for c'
    using assms that
    by (auto simp: cancelling_def requested_def cancelled_def child_going_def child_gone_def)
  then show "map_of (active l) qid = None \<Longrightarrow> child_gone qid co (pop_active qid l)"
    by (auto simp: child_gone_def)
  assume c: "map_of (active l) qid = Some c"
  have "returncodes (stop_child (pid c) (pop_active qid l)) (pid c') \<noteq> None" if co: "co = Some c'" for c'
  proof (cases "returncodes l (pid c') \<noteq> None")
    case True
    then show ?thesis by (intro kill_frame) simp
  next
    case False
    then show ?thesis
      using known [OF co] c stop_child_ends [of "pop_active qid l" "pid c'"] by simp
  qed
  then show "child_gone qid co (stop_child (pid c) (pop_active qid l))"
    using known(1) by (simp add: child_gone_def)
qed

lemma child_frame:
  assumes "q \<noteq> qid" "child_going qid co e l"
  shows "child_going qid co e (pop_active q l)" "child_going qid co e (stop_child p l)"
  using assms by (auto simp: child_going_def map_of_pop stop_child_def kill_wait_def end_proc_def)

lemma child_gone_frame:
  assumes "child_gone qid co l"
  shows "child_gone qid co (pop_active q l)" "child_gone qid co (stop_child p l)" "child_gone qid co (kill_wait p l)"
  using assms by (auto simp: child_gone_def stop_child_def kill_wait_def end_proc_def)

lemma cancelling_other:
  assumes "cancelling rd qid co db l" "q \<noteq> qid"
  shows "cancelling rd qid co db (pop_active q l)" "cancelling rd qid co db (stop_child p (pop_active q l))"
  using assms child_frame [of q qid co False] child_gone_frame [of qid co]
  by (auto simp: cancelling_def requested_def cancelled_def)

lemma cancelling_write:
  "cancelling rd qid co db l \<Longrightarrow> q \<noteq> qid \<Longrightarrow> cancelling rd qid co (sp_ins_queue_proc q sd svid st prio err uid db) l"
  by (auto simp: cancelling_def requested_write_other cancelled_write)

lemma cancel_rows_ok:
  assumes "\<exists>r \<in> set rows. queue_id (job r) = qid"
  defines "ids \<equiv> (queue_id \<circ> job) ` set rows"
  shows "okC (steady rd (\<lambda>db l. cancelling rd qid co db l \<and> ids \<subseteq> job_ids db))
    (forC rows (cancel_row (sid rd ''CANCELLED''))) (\<lambda>_. steady rd (\<lambda>db l. cancelled rd qid co db l \<and> ids \<subseteq> job_ids db))"
    (is "okC (steady rd ?I) _ (\<lambda>_. steady rd ?D)")
proof -
  have hit: "okC (steady rd ?I) (cancel_row (sid rd ''CANCELLED'') r) (\<lambda>_. steady rd ?D)"
    if "r \<in> set rows" "queue_id (job r) = qid" for r
    by (rule cancel_row_ok [where Pm = "\<lambda>db l. child_gone qid co l \<and> ids \<subseteq> job_ids db"])
      (use that cancelling_gone in \<open>auto simp: ids_def cancelled_def\<close>)
  have miss: "okC (steady rd ?I) (cancel_row (sid rd ''CANCELLED'') r) (\<lambda>_. steady rd ?I)"
    if "r \<in> set rows" "queue_id (job r) \<noteq> qid" for r
    by (rule cancel_row_ok [where Pm = "\<lambda>db l. cancelling rd qid co db l \<and> ids \<subseteq> job_ids db"])
      (use that cancelling_other cancelling_write in \<open>auto simp: ids_def\<close>)
  have keep: "okC (steady rd ?D) (cancel_row (sid rd ''CANCELLED'') r) (\<lambda>_. steady rd ?D)"
    if "r \<in> set rows" "queue_id (job r) \<noteq> qid" for r
    by (rule cancel_row_ok [where Pm = "\<lambda>db l. cancelled rd qid co db l \<and> ids \<subseteq> job_ids db"])
      (use that child_gone_frame in \<open>auto simp: ids_def cancelled_def\<close>)
  have up: "steady rd ?D w \<Longrightarrow> steady rd ?I w" for w
    by (auto simp: steady_def cancelling_def)
  show ?thesis
  proof (rule okC_for_reaches)
    fix r assume r: "r \<in> set rows"
    show "okC (steady rd ?I) (cancel_row (sid rd ''CANCELLED'') r) (\<lambda>_. steady rd ?I)"
      by (cases "queue_id (job r) = qid")
        (rule okC_weaken [OF hit [OF r] _ up], assumption+, rule miss [OF r])
    show "okC (steady rd ?D) (cancel_row (sid rd ''CANCELLED'') r) (\<lambda>_. steady rd ?D)"
      by (cases "queue_id (job r) = qid")
        (rule okC_weaken [OF hit [OF r] up], assumption+, rule keep [OF r])
  qed (use assms(1) hit in blast)
qed

lemma list_requested:
  "okC (steady rd (requested rd qid co False)) (list_by_status (sid rd ''CANCEL_REQUESTED''))
     (\<lambda>rows w. (\<exists>r \<in> set rows. queue_id (job r) = qid)
        \<and> steady rd (\<lambda>db l. cancelling rd qid co db l \<and> (queue_id \<circ> job) ` set rows \<subseteq> job_ids db) w)"
proof (rule okC_I)
  fix w assume s: "steady rd (requested rd qid co False) w"
  obtain db l where w: "w = (db, l)" by (cases w)
  have b: "quiet_loop rd db l" "requested rd qid co False db l" using s by (simp_all add: steady_def w)
  have "quiet_queue (sid rd ''CANCEL_REQUESTED'') w"
    using b(1) catalog_ok_status(2) [of rd "queue_statuses db" "''CANCEL_REQUESTED''"]
    by (auto simp: quiet_queue_def quiet_loop_def at_rest_def w status_names_def)
  then obtain rows where rows: "list_by_status (sid rd ''CANCEL_REQUESTED'') w = (Inr rows, w)"
    "job ` set rows = queued_jobs (sid rd ''CANCEL_REQUESTED'') w"
    using list_by_status_quiet by blast
  obtain q qs where q: "job_versions qid db = q # qs" "queue_status_id q = sid rd ''CANCEL_REQUESTED''"
    using b(2) by (auto simp: requested_def status_of_def split: list.splits)
  then have "q \<in> queued_jobs (sid rd ''CANCEL_REQUESTED'') w" "queue_id q = qid"
    using queue_wf_open [OF _ q(1)] b(1) filter_eq_ConsD [of "\<lambda>r. queue_id r = qid" "queue_rows db" q qs]
    by (auto simp: queued_jobs_def job_versions_def quiet_loop_def at_rest_def w)
  then have "\<exists>r \<in> set rows. queue_id (job r) = qid"
    using rows(2) by (metis imageE)
  moreover have "(queue_id \<circ> job) ` set rows \<subseteq> job_ids db"
    using rows(2) by (auto simp: queued_jobs_def job_ids_def w)
  ultimately show "\<exists>rows w'. list_by_status (sid rd ''CANCEL_REQUESTED'') w = (Inr rows, w')
      \<and> (\<exists>r \<in> set rows. queue_id (job r) = qid)
      \<and> steady rd (\<lambda>db l. cancelling rd qid co db l \<and> (queue_id \<circ> job) ` set rows \<subseteq> job_ids db) w'"
    using rows(1) b by (auto simp: steady_def w cancelling_def)
qed

lemma cancels_honoured:
  "okC (steady rd (requested rd qid co False)) (enforce_cancels rd) (\<lambda>_. steady rd (cancelled rd qid co))"
proof -
  have rows: "okC (\<lambda>w. (\<exists>r \<in> set rows. queue_id (job r) = qid)
      \<and> steady rd (\<lambda>db l. cancelling rd qid co db l \<and> (queue_id \<circ> job) ` set rows \<subseteq> job_ids db) w)
    (if rows = [] then returnC ()
     else bindC (status_id rd ''CANCELLED'') (\<lambda>c. forC rows (cancel_row c)))
    (\<lambda>_. steady rd (cancelled rd qid co))" for rows
  proof (cases "\<exists>r \<in> set rows. queue_id (job r) = qid")
    case True
    then have "okC (steady rd (\<lambda>db l. cancelling rd qid co db l \<and> (queue_id \<circ> job) ` set rows \<subseteq> job_ids db))
        (bindC (status_id rd ''CANCELLED'') (\<lambda>c. forC rows (cancel_row c))) (\<lambda>_. steady rd (cancelled rd qid co))"
      by (intro steady_status okC_weaken [OF cancel_rows_ok [OF True]])
        (auto simp: status_names_def steady_def)
    then show ?thesis
      using True by (auto intro: okC_weaken)
  qed (simp add: okC_def)
  show ?thesis
    unfolding enforce_cancels_def
    by (intro steady_status okC_bind [OF list_requested rows]) (simp add: status_names_def)
qed

text \<open>The deadline then finds no child of this job.\<close>

lemma timeouts_cancelled:
  "okC (steady rd (cancelled rd qid co)) (enforce_timeouts rd) (\<lambda>_. steady rd (cancelled rd qid co))"
  unfolding enforce_timeouts_def
proof (rule okC_bind [OF steady_readL])
  fix x :: "rat \<times> (nat \<times> child) list"
  obtain now entries where x: "x = (now, entries)" by (cases x)
  let ?ids = "(\<lambda>(q, c). queue_id (job (claimed c))) ` set entries"
  let ?I = "\<lambda>db l. cancelled rd qid co db l \<and> ?ids \<subseteq> job_ids db - {qid}"
  have one: "okC (steady rd ?I) (timeout_child rd now e) (\<lambda>_. steady rd ?I)" if "e \<in> set entries" for e
  proof -
    obtain q c where e: "e = (q, c)" by (cases e)
    have in_ids: "queue_id (job (claimed c)) \<in> ?ids"
      using that e by force
    have kill: "okC (steady rd ?I) (modL (kill_wait (pid c))) (\<lambda>_. steady rd ?I)"
      by (rule steady_modL) (auto simp: cancelled_def child_gone_frame)
    have pop: "okC (steady rd ?I) (modL (pop_active q)) (\<lambda>_. steady rd ?I)"
      by (rule steady_modL) (auto simp: cancelled_def child_gone_frame)
    have wr: "okC (steady rd ?I) (mark_terminal (claimed c) (sid rd ''FAILED'') err) (\<lambda>_. steady rd ?I)" for err
      unfolding mark_terminal_def using in_ids
      by (intro steady_write) (auto simp: status_names_def intro!: cancelled_write)
    have body: "okC (steady rd ?I) (bindC (modL (kill_wait (pid c))) (\<lambda>_. bindC (status_id rd ''FAILED'') (\<lambda>f.
        bindC (mark_terminal (claimed c) f err) (\<lambda>_. modL (pop_active q))))) (\<lambda>_. steady rd ?I)" for err
      by (intro okC_bind [OF kill] steady_status okC_bind [OF wr] pop) (simp add: status_names_def)
    have same: "okC (steady rd ?I) (returnC ()) (\<lambda>_. steady rd ?I)"
      by (rule okC_return)
    show ?thesis
      unfolding timeout_child_def e prod.case
      by (intro okC_bind [OF okC_weaken [OF steady_readL [where P = ?I], where J' = "\<lambda>_. steady rd ?I"]])
        (auto simp: steady_def intro: body same split: prod.split)
  qed
  have "steady rd ?I w" if "steady rd (\<lambda>db l. cancelled rd qid co db l \<and> x = (monotonic l, active l)) w" for w
  proof -
    have "entries = active (snd w)" using that x by (simp add: steady_def)
    then show ?thesis
      using that by (fastforce simp: steady_def quiet_loop_def cancelled_def child_gone_def image_iff)
  qed
  then show "okC (steady rd (\<lambda>db l. cancelled rd qid co db l \<and> x = (monotonic l, active l)))
      (case x of (now, entries) \<Rightarrow> forC entries (timeout_child rd now)) (\<lambda>_. steady rd (cancelled rd qid co))"
    unfolding x prod.case
    by (intro okC_weaken [OF okC_for [OF one]]) (auto simp: steady_def)
qed

text \<open>Filling the capacity claims queued jobs only.\<close>

lemma claim_cancelled:
  assumes "steady rd (cancelled rd qid co) w" "claim_next (sid rd ''QUEUED'') (sid rd ''RUNNING'') w = (x, w')"
  shows "steady rd (cancelled rd qid co) w' \<and> snd w' = snd w
    \<and> (\<forall>r. x = Inr (Some r) \<longrightarrow> queue_id (job r) \<noteq> qid \<and> queue_id (job r) \<in> job_ids (fst w'))"
proof -
  obtain db l where w: "w = (db, l)" by (cases w)
  have b: "quiet_loop rd db l" "cancelled rd qid co db l" using assms(1) by (simp_all add: steady_def w)
  have quiet: "bt_slots db = []" "queue_wf db"
    using b(1) by (simp_all add: quiet_loop_def at_rest_def)
  have listed: "list_by_status (sid rd ''QUEUED'') w
      = (Inr (sp_get_queue_proc None None (Some (sid rd ''QUEUED'')) None 1000 db), w)"
    by (simp add: list_by_status_def sp_get_queue_def on_bt_quiet quiet w)
  from assms(2) show ?thesis
  proof (cases rule: claim_next_cases)
    case (claim rows r rs w1 y)
    have rows: "rows = sp_get_queue_proc None None (Some (sid rd ''QUEUED'')) None 1000 db" and "w1 = w"
      using claim(1) listed by simp_all
    have "r \<in> set rows"
      using claim(2) by (metis in_run_order_def list.set_intros(1) set_sort)
    then have "status_of db (queue_id (job r)) = Some (sid rd ''QUEUED'')"
      unfolding rows by (rule listed_status [OF quiet(2)])
    moreover have "sid rd ''QUEUED'' \<noteq> sid rd ''CANCELLED''"
      using b(1) by (intro catalog_ok_inj) (auto simp: quiet_loop_def status_names_def)
    ultimately have r: "queue_id (job r) \<noteq> qid" "queue_id (job r) \<in> job_ids db"
      using b(2) status_of_None [of db "queue_id (job r)"] by (auto simp: cancelled_def)
    let ?P = "\<lambda>db l. cancelled rd qid co db l \<and> queue_id (job r) \<in> job_ids db"
    have wr: "okC (steady rd ?P) (sp_ins_queue (queue_id (job r)) (q_strategy_id (job r)) (q_strategy_vid (job r))
        (sid rd ''RUNNING'') (priority (job r)) (q_user_id (job r)) None) (\<lambda>_. steady rd ?P)"
      using r(1) by (intro steady_write) (auto simp: status_names_def intro!: cancelled_write)
    have "steady rd ?P w1"
      using b r(2) \<open>w1 = w\<close> by (simp add: steady_def w)
    from okC_D [OF wr this] have written: "steady rd ?P w'" "\<exists>z. y = Inr z"
      using claim(3) by auto
    then show ?thesis
      using claim(4) r(1) sp_ins_queue_own [OF claim(3)] \<open>w1 = w\<close> by (auto simp: steady_def)
  qed (use listed assms(1) in auto)
qed

lemma try_claim_cancelled:
  assumes "steady rd (cancelled rd qid co) w" "try_claim_and_spawn rd w = (x, w')"
  shows "steady rd (cancelled rd qid co) w'"
proof -
  obtain db l where w: "w = (db, l)" by (cases w)
  have ids: "ids_ok rd (sid rd ''QUEUED'') (sid rd ''RUNNING'')"
    using assms(1) catalog_ids_ok by (auto simp: steady_def quiet_loop_def)
  from ids assms(2) show ?thesis
  proof (cases rule: try_claim_cases)
    case (no_spawn r w1 e)
    note c = claim_cancelled [OF assms(1) no_spawn(1)]
    obtain db1 l1 where w1: "w1 = (db1, l1)" by (cases w1)
    show ?thesis
      using c no_spawn(2) w1
      by (auto simp: spawn_def steady_def quiet_loop_def cancelled_def child_gone_def split: list.splits option.splits)
  next
    case (spawned r w1 p db2 l2)
    note c = claim_cancelled [OF assms(1) spawned(1)]
    obtain db1 l1 where w1: "w1 = (db1, l1)" by (cases w1)
    let ?q = "queue_id (job r)"
    have l2: "db2 = db1" "p = next_pid l1" "next_pid l2 = next_pid l1 + 1" "active l2 = active l1"
      "returncodes l2 = (returncodes l1)(next_pid l1 := None)"
      using spawned(2) w1 by (auto simp: spawn_def split: list.splits option.splits)
    have b: "quiet_loop rd db1 l1" "cancelled rd qid co db1 l1" "?q \<noteq> qid" "?q \<in> job_ids db1"
      using c spawned(1) by (auto simp: steady_def w1)
    have "quiet_loop rd db1 (track ?q p r l2)"
      using b(1,4) l2 set_update_subset [of ?q _ "active l1"]
      by (fastforce simp: quiet_loop_def track_def distinct_update)
    moreover have "cancelled rd qid co db1 (track ?q p r l2)"
      using b(2,3) l2 by (auto simp: cancelled_def child_gone_def track_def dom_update)
    ultimately show ?thesis
      using spawned(4) l2 by (simp add: steady_def)
  qed (use claim_cancelled [OF assms(1)] in blast)+
qed

lemma fill_cancelled:
  assumes "fill rd w = Some y"
  shows "steady rd (cancelled rd qid co) w \<longrightarrow> steady rd (cancelled rd qid co) (snd y)"
proof (rule fill.raw_induct [OF _ assms,
      where P = "\<lambda>rd w y. steady rd (cancelled rd qid co) w \<longrightarrow> steady rd (cancelled rd qid co) (snd y)"], rule impI)
  fix f :: "refdata \<Rightarrow> world \<Rightarrow> ((bt_exn + unit) \<times> world) option" and rd w y
  assume ih: "\<And>rd w y. f rd w = Some y \<Longrightarrow>
      steady rd (cancelled rd qid co) w \<longrightarrow> steady rd (cancelled rd qid co) (snd y)"
    and eq: "(if running (snd w) \<and> int (length (active (snd w))) < max_concurrent (snd w)
      then (case try_claim_and_spawn rd w of
              (Inl e, w') \<Rightarrow> Some (Inl e, w')
            | (Inr went, w') \<Rightarrow> if went then f rd w' else Some (Inr (), w'))
      else Some (Inr (), w)) = Some y"
    and s: "steady rd (cancelled rd qid co) w"
  obtain x w1 where t: "try_claim_and_spawn rd w = (x, w1)" by (metis surj_pair)
  have "steady rd (cancelled rd qid co) w1"
    using try_claim_cancelled [OF s t] .
  then show "steady rd (cancelled rd qid co) (snd y)"
    using eq ih [of rd w1 y] s t by (auto split: if_splits sum.splits)
qed

lemma before_fill_cancels:
  "okC (steady rd (requested rd qid co False)) (before_fill rd) (\<lambda>_. steady rd (cancelled rd qid co))"
  unfolding before_fill_def
  by (intro okC_bind [OF reap_requested] okC_bind [OF cancels_honoured] timeouts_cancelled)

text \<open>C14: A cancel request is honoured within one tick. On a queue at rest (no other writer, no
  failing call, at most 1000 requests and 50 versions of the job), after a tick of the loop a job
  in CANCEL_REQUESTED is CANCELLED and no longer tracked, and if the loop was running its worker
  and the operating system ends a process on SIGTERM or SIGKILL, that process has ended: neither
  its crash, nor its deadline, nor the capacity filled afterwards overwrites the CANCELLED row.\<close>

theorem tick_honours_cancel:
  assumes "quiet_loop rd db l" and "runs_once (sid rd ''QUEUED'') (sid rd ''RUNNING'') (db, l)"
    and "status_of db qid = Some (sid rd ''CANCEL_REQUESTED'')"
    and "length (job_versions qid db) \<le> 50"
    and "\<And>p. term_works l p \<or> kill_works l p"
  shows "\<exists>r db' l'. tick rd (db, l) = Some (r, (db', l'))
    \<and> status_of db' qid = Some (sid rd ''CANCELLED'') \<and> qid \<notin> fst ` set (active l')
    \<and> (\<forall>c. map_of (active l) qid = Some c \<longrightarrow> returncodes l' (pid c) \<noteq> None)"
proof -
  let ?co = "map_of (active l) qid"
  have ids: "ids_ok rd (sid rd ''QUEUED'') (sid rd ''RUNNING'')"
    using assms(1) catalog_ids_ok by (auto simp: quiet_loop_def)
  then obtain r db' l' where t: "tick rd (db, l) = Some (r, (db', l'))"
    using tick_ends [OF ids, of "{}" "(db, l)"] assms(2) by (auto simp: known_empty)
  have "pid c < next_pid l" if "?co = Some c" for c
    using assms(1) map_of_SomeD [OF that] by (auto simp: quiet_loop_def)
  then have "steady rd (requested rd qid ?co False) (db, l)"
    using assms(1,3-5) by (simp add: steady_def requested_def child_going_def)
  from okC_D [OF before_fill_cancels this]
  obtain x w1 where "before_fill rd (db, l) = (Inr x, w1)" "steady rd (cancelled rd qid ?co) w1"
    by (elim exE conjE)
  then have "steady rd (cancelled rd qid ?co) (db', l')"
    using t fill_cancelled [of rd w1 "(r, (db', l'))" qid ?co] by (simp add: tick_def)
  then show ?thesis
    using t by (auto simp: steady_def cancelled_def child_gone_def)
qed

text \<open>Job 7 was claimed, its worker runs as process 99, and its user asked to cancel it.\<close>

definition cancel_queue :: bt_db where
  "cancel_queue =
     sp_ins_queue_proc 7 77 1 3 50 None ''ann'' (sp_ins_queue_proc 7 77 1 2 50 None ''ann'' demo_queue)"

definition cancel_loop :: loop where
  "cancel_loop = demo_loop\<lparr>spawn_log := [7],
     active := [(7, \<lparr>pid = 99, started = 0,
                     claimed = \<lparr>job = demo_job 7 50 100, queue_status = ''QUEUED'', job_config = None\<rparr>\<rparr>)]\<rparr>"

lemma seed_sids:
  "sid seed_refdata ''QUEUED'' = 1" "sid seed_refdata ''RUNNING'' = 2"
  "sid seed_refdata ''CANCEL_REQUESTED'' = 3" "sid seed_refdata ''CANCELLED'' = 6"
  by (simp_all add: sid_def seed_resolve)

lemma cancel_queue_wf: "queue_wf cancel_queue"
  unfolding cancel_queue_def using demo_once
  by (intro queue_wf_ins) (simp_all add: queue_once_def, simp_all add: demo_queue_def)

lemma cancel_versions:
  "length (job_versions qid cancel_queue) \<le> 3" "status_of cancel_queue 7 = Some 3"
  "runs 2 cancel_queue qid = (if qid = 7 then 1 else 0)"
  "status_of cancel_queue qid = Some 1 \<Longrightarrow> qid = 8"
  by (simp_all add: cancel_queue_def job_versions_ins runs_ins demo_versions runs_def demo_job_def)
    (auto simp: status_of_def demo_versions job_versions_ins split: if_splits)

lemma cancel_quiet: "quiet_loop seed_refdata cancel_queue cancel_loop"
proof -
  have "catalog_ok seed_refdata (queue_statuses cancel_queue)"
    by (simp add: catalog_ok_def status_names_def seed_resolve cancel_queue_def demo_queue_def)
  moreover have "at_rest cancel_queue"
    using cancel_queue_wf
    by (auto simp: at_rest_def cancel_queue_def sp_ins_queue_rows close_job_def) (auto simp: demo_queue_def demo_job_def)
  moreover have "length (queue_rows cancel_queue) \<le> 1000"
    by (simp add: cancel_queue_def sp_ins_queue_rows close_job_def demo_queue_def)
  then have "length (filter P (queue_rows cancel_queue)) \<le> 1000" for P
    by (rule order_trans [OF length_filter_le])
  ultimately show ?thesis
    by (simp add: quiet_loop_def cancel_loop_def demo_loop_def demo_job_def cancel_queue_def)
qed

lemma cancel_runs_once: "runs_once 1 2 (cancel_queue, cancel_loop)"
proof -
  have "bt_slots cancel_queue = []"
    by (simp add: cancel_queue_def demo_queue_def)
  then show ?thesis
    using cancel_queue_wf cancel_versions
    by (auto simp: runs_once_def queue_once_def coming_def cancel_loop_def demo_job_def)
qed

theorem tick_honours_cancel_witness:
  "\<exists>r db' l'. tick seed_refdata (cancel_queue, cancel_loop) = Some (r, (db', l'))
     \<and> status_of db' 7 = Some 6 \<and> 7 \<notin> fst ` set (active l') \<and> returncodes l' 99 \<noteq> None"
proof -
  have "length (job_versions 7 cancel_queue) \<le> 50"
    using cancel_versions(1) [of 7] by simp
  then show ?thesis
    using tick_honours_cancel [OF cancel_quiet, of 7] cancel_runs_once cancel_versions(2)
    by (auto simp: seed_sids cancel_loop_def demo_loop_def)
qed

end
