(* ===== verification/Promotion.thy ===== *)
theory Promotion
  imports BtDb
begin

text \<open>
  Auto-promotion of a strategy version after its backtest: the pure decision of
  \<^verbatim>\<open>quant/promotion/evaluate.py\<close>, its persistence in \<^verbatim>\<open>quant/promotion/repo.py\<close>, and the
  columns \<^verbatim>\<open>quant/queue/result_metrics.py\<close> shreds out of a result.

  A result payload and a row of \<open>CONFIG.PROMOTION_METRIC\<close> are JSON objects. The groups of a
  payload (\<open>performance\<close>, \<open>walk_forward\<close> and the metric dicts in them) are objects or null, as the
  response schema has them.
\<close>

datatype promotion_outcome = PROMOTED | KEPT | DEMOTED | REJECTED

fun outcome_name :: "promotion_outcome \<Rightarrow> string" where
  "outcome_name PROMOTED = ''PROMOTED''"
| "outcome_name KEPT = ''KEPT''"
| "outcome_name DEMOTED = ''DEMOTED''"
| "outcome_name REJECTED = ''REJECTED''"

record gate_result =
  gate_name :: json
  gate_metric_key :: json
  gate_passed :: bool
  gate_value :: "flt option"
  gate_threshold :: flt

record promotion_decision =
  decision :: promotion_outcome
  gate_results :: "gate_result list"
  decision_compared_vid :: "int option"

section \<open>Helpers\<close>

text \<open>\<open>d.get(k) or {}\<close> of an object or null.\<close>

definition sub_dict :: "string \<Rightarrow> row \<Rightarrow> row" where
  "sub_dict k d = (case jget k d of JObj o' \<Rightarrow> o' | _ \<Rightarrow> [])"

definition fin_or_none :: "py_exn + flt \<Rightarrow> py_exn + flt option" where
  "fin_or_none r =
     (case r of Inr x \<Rightarrow> Inr (if is_finite x then Some x else None)
      | Inl (TypeError m) \<Rightarrow> Inr None
      | Inl (ValueError m) \<Rightarrow> Inr None
      | Inl e \<Rightarrow> Inl e)"

definition finite_or_none :: "json \<Rightarrow> py_exn + flt option" where
  "finite_or_none v = (case v of JBool b \<Rightarrow> Inr None | JNull \<Rightarrow> Inr None | _ \<Rightarrow> fin_or_none (py_float_json v))"

definition extract_metric :: "row \<Rightarrow> string \<Rightarrow> py_exn + flt option" where
  "extract_metric payload key =
     (let perf = sub_dict ''performance'' payload
      in if key = ''OOS Sharpe Ratio'' then
           finite_or_none (jget ''Sharpe Ratio'' (sub_dict ''oos_metrics'' (sub_dict ''walk_forward'' payload)))
         else if key = ''Sharpe Excess'' then
           bindR (finite_or_none (jget ''Sharpe Ratio'' (sub_dict ''strategy_metrics'' perf))) (\<lambda>strategy.
           bindR (finite_or_none (jget ''Sharpe Ratio'' (sub_dict ''buy_hold_metrics'' perf))) (\<lambda>buy_hold.
             case (strategy, buy_hold) of
               (Some a, Some b) \<Rightarrow> Inr (Some (flt_sub a b))
             | _ \<Rightarrow> Inr None))
         else finite_or_none (jget key (sub_dict ''strategy_metrics'' perf)))"

text \<open>A key that is not text is in no dict.\<close>

definition metric_of :: "row \<Rightarrow> json \<Rightarrow> py_exn + flt option" where
  "metric_of payload key = (case key of JStr k \<Rightarrow> extract_metric payload k | _ \<Rightarrow> Inr None)"

definition b2i :: "bool \<Rightarrow> int" where
  "b2i b = (if b then 1 else 0)"

definition compare_values :: "flt \<Rightarrow> flt \<Rightarrow> json \<Rightarrow> int" where
  "compare_values a b direction =
     (if direction = JStr ''lower_is_better'' then b2i (flt_lt a b) - b2i (flt_lt b a)
      else b2i (flt_lt b a) - b2i (flt_lt a b))"

definition meets_threshold :: "flt option \<Rightarrow> flt \<Rightarrow> json \<Rightarrow> bool" where
  "meets_threshold v threshold direction =
     (case v of None \<Rightarrow> False | Some x \<Rightarrow> 0 \<le> compare_values x threshold direction)"

definition group_by_type :: "row list \<Rightarrow> string \<Rightarrow> row list" where
  "group_by_type metrics ty =
     filter (\<lambda>m. (case map_of m ''requirement_type'' of None \<Rightarrow> JStr [] | Some v \<Rightarrow> v) = JStr ty) metrics"

section \<open>HARD and SOFT requirements\<close>

definition hard_gate :: "row \<Rightarrow> row \<Rightarrow> py_exn + gate_result" where
  "hard_gate payload m =
     bindR (jitem ''metric_key'' m) (\<lambda>key.
     bindR (metric_of payload key) (\<lambda>val.
     bindR (py_float_json (jget ''threshold'' m)) (\<lambda>threshold.
     bindR (jitem ''direction'' m) (\<lambda>direction.
       Inr \<lparr>gate_name = (case map_of m ''name'' of None \<Rightarrow> key | Some n \<Rightarrow> n), gate_metric_key = key,
            gate_passed = meets_threshold val threshold direction, gate_value = val,
            gate_threshold = threshold\<rparr>))))"

definition evaluate_hard :: "row \<Rightarrow> row list \<Rightarrow> py_exn + gate_result list" where
  "evaluate_hard payload metrics =
     mapR (hard_gate payload) (filter (\<lambda>m. jget ''threshold'' m \<noteq> JNull) metrics)"

fun evaluate_soft :: "row \<Rightarrow> row \<Rightarrow> row list \<Rightarrow> py_exn + promotion_outcome" where
  "evaluate_soft new_payload best_payload [] = Inr KEPT"
| "evaluate_soft new_payload best_payload (m # ms) =
     bindR (jitem ''metric_key'' m) (\<lambda>key.
     bindR (metric_of new_payload key) (\<lambda>new_val.
     bindR (metric_of best_payload key) (\<lambda>best_val.
       case new_val of
         None \<Rightarrow> evaluate_soft new_payload best_payload ms
       | Some a \<Rightarrow>
           (case best_val of
              None \<Rightarrow> Inr PROMOTED
            | Some b \<Rightarrow>
                bindR (jitem ''direction'' m) (\<lambda>direction.
                  let c = compare_values a b direction
                  in if c \<noteq> 0 then Inr (if 0 < c then PROMOTED else KEPT)
                     else evaluate_soft new_payload best_payload ms)))))"

definition all_passed :: "gate_result list \<Rightarrow> bool" where
  "all_passed gates = list_all gate_passed gates"

definition passes_hard_gates :: "row \<Rightarrow> row list \<Rightarrow> py_exn + bool" where
  "passes_hard_gates payload metrics =
     bindR (evaluate_hard payload (group_by_type metrics ''HARD'')) (\<lambda>gates. Inr (all_passed gates))"

definition evaluate_promotion ::
  "row \<Rightarrow> row option \<Rightarrow> row list \<Rightarrow> bool \<Rightarrow> int option \<Rightarrow> int option \<Rightarrow> py_exn + promotion_decision" where
  "evaluate_promotion new_payload best_payload metrics is_current_best best_vid svid =
     (if metrics = [] then
        Inr \<lparr>decision = REJECTED, gate_results = [], decision_compared_vid = best_vid\<rparr>
      else
        bindR (evaluate_hard new_payload (group_by_type metrics ''HARD'')) (\<lambda>gates.
          if is_current_best then
            Inr \<lparr>decision = (if svid = Some 1 then KEPT else if all_passed gates then KEPT else DEMOTED),
                 gate_results = gates, decision_compared_vid = None\<rparr>
          else if \<not> all_passed gates then
            Inr \<lparr>decision = REJECTED, gate_results = gates, decision_compared_vid = best_vid\<rparr>
          else
            bindR (case best_payload of
                     None \<Rightarrow> Inr PROMOTED
                   | Some b \<Rightarrow> evaluate_soft new_payload b (group_by_type metrics ''SOFT'')) (\<lambda>out.
              Inr \<lparr>decision = out, gate_results = gates, decision_compared_vid = best_vid\<rparr>)))"

section \<open>Persistence\<close>

definition flip_best :: "nat \<Rightarrow> int option \<Rightarrow> ('v, unit) bt_call" where
  "flip_best sd svid = on_bt (sp_upd_promote_strategy_proc sd svid)"

definition sp_ins_promotion_proc :: "promotion_row \<Rightarrow> bt_db \<Rightarrow> bt_db" where
  "sp_ins_promotion_proc p db = db\<lparr>promotion_rows := p # promotion_rows db\<rparr>"

definition gate_json :: "gate_result \<Rightarrow> json" where
  "gate_json g =
     JObj [(''name'', gate_name g), (''passed'', JBool (gate_passed g)), (''value'', opt_num (gate_value g)),
           (''threshold'', JNum (gate_threshold g))]"

definition ins_promotion ::
  "nat \<Rightarrow> nat \<Rightarrow> int \<Rightarrow> string \<Rightarrow> string \<Rightarrow> int option \<Rightarrow> json option \<Rightarrow> ('v, unit) bt_call" where
  "ins_promotion qid sd svid out uid vid gates =
     on_bt (\<lambda>db. Inr ((), sp_ins_promotion_proc
       \<lparr>p_queue_id = qid, p_strategy_id = sd, p_strategy_vid = svid, p_outcome = out,
        compared_vid = vid, p_gate_results = gates, p_user_id = uid\<rparr> db))"

definition apply_decision ::
  "promotion_decision \<Rightarrow> nat \<Rightarrow> int \<Rightarrow> string \<Rightarrow> nat \<Rightarrow> ('v, unit) bt_call" where
  "apply_decision d sd svid uid qid =
     bindC (if decision d = DEMOTED \<or> decision d = PROMOTED
            then flip_best sd (if decision d = PROMOTED then Some svid else None) else returnC ()) (\<lambda>_.
       ins_promotion qid sd svid (outcome_name (decision d)) uid (decision_compared_vid d)
         (if gate_results d = [] then None else Some (JArr (map gate_json (gate_results d)))))"

text \<open>
  \<open>run\<close>. A stored payload that is not an object has no metric; one that is an empty object counts
  as none.
\<close>

definition payload_row :: "json \<Rightarrow> row" where
  "payload_row v = (case v of JObj d \<Rightarrow> d | _ \<Rightarrow> [])"

definition decide_promotion :: "refdata \<Rightarrow> queue_row \<Rightarrow> row \<Rightarrow> ('v, promotion_decision) bt_call" where
  "decide_promotion rd j payload =
     bindC (liftR (get_promotion_metrics rd)) (\<lambda>metrics.
     bindC (sp_get_strategy (q_strategy_id j) None (Some ''Y'')) (\<lambda>best_rows.
       let best_vid = (case best_rows of [] \<Rightarrow> None | s # _ \<Rightarrow> Some (s_strategy_vid s));
           is_current_best = (best_vid = Some (q_strategy_vid j))
       in bindC (case best_vid of
                   None \<Rightarrow> returnC None
                 | Some v \<Rightarrow> if is_current_best then returnC None
                            else fetch_result_payload (q_strategy_id j) v) (\<lambda>best_payload.
          bindC (liftR (evaluate_promotion payload (map_option payload_row best_payload) metrics
                          is_current_best best_vid (Some (q_strategy_vid j)))) (\<lambda>d.
          bindC (liftR (validate_promotion_state rd (outcome_name (decision d)))) (\<lambda>_. returnC d)))))"

definition promotion_run ::
  "refdata \<Rightarrow> queue_row \<Rightarrow> row \<Rightarrow> nat \<Rightarrow> ('v, promotion_decision) bt_call" where
  "promotion_run rd j payload qid =
     bindC (decide_promotion rd j payload) (\<lambda>d.
     bindC (apply_decision d (q_strategy_id j) (q_strategy_vid j) (q_user_id j) qid) (\<lambda>_. returnC d))"

section \<open>Shredded metrics\<close>

definition metric_value :: "json \<Rightarrow> py_exn + flt option" where
  "metric_value v = (if v = JNull then Inr None else fin_or_none (py_float_json v))"

definition metric_columns :: "string list" where
  "metric_columns = [''Total Return'', ''Annualized Return'', ''Sharpe Ratio'', ''Max Drawdown'', ''Calmar Ratio'']"

definition read_metrics :: "row \<Rightarrow> py_exn + flt option list" where
  "read_metrics metrics = mapR (\<lambda>k. metric_value (jget k metrics)) metric_columns"

text \<open>The ten columns, the strategy's five before buy-and-hold's.\<close>

definition extract_shredded_metrics :: "row \<Rightarrow> py_exn + flt option list" where
  "extract_shredded_metrics payload =
     (let perf = sub_dict ''performance'' payload
      in bindR (read_metrics (sub_dict ''strategy_metrics'' perf)) (\<lambda>strat.
         bindR (read_metrics (sub_dict ''buy_hold_metrics'' perf)) (\<lambda>bh. Inr (strat @ bh))))"

section \<open>What the decision means\<close>

text \<open>
  The declarative reading of the two requirement kinds, on rows that have their columns and
  payloads whose metrics are readable: a gate passes when the metric is there and on the right
  side of its threshold; a candidate beats the best when it wins the first metric that is not
  tied, a metric the candidate lacks being a tie and one only the best lacks a win.
\<close>

definition metric_row_ok :: "row \<Rightarrow> bool" where
  "metric_row_ok m \<longleftrightarrow>
     map_of m ''metric_key'' \<noteq> None \<and> map_of m ''direction'' \<noteq> None
     \<and> (jget ''threshold'' m = JNull \<or> (\<exists>x. py_float_json (jget ''threshold'' m) = Inr x))"

definition readable :: "row \<Rightarrow> row list \<Rightarrow> bool" where
  "readable payload metrics \<longleftrightarrow> (\<forall>m \<in> set metrics. \<exists>v. metric_of payload (the (map_of m ''metric_key'')) = Inr v)"

definition value_of :: "row \<Rightarrow> row \<Rightarrow> flt option" where
  "value_of payload m = projr (metric_of payload (the (map_of m ''metric_key'')))"

definition lower_better :: "row \<Rightarrow> bool" where
  "lower_better m \<longleftrightarrow> map_of m ''direction'' = Some (JStr ''lower_is_better'')"

definition better :: "row \<Rightarrow> flt \<Rightarrow> flt \<Rightarrow> bool" where
  "better m a b = (if lower_better m then flt_lt a b else flt_lt b a)"

definition gate_open :: "row \<Rightarrow> row \<Rightarrow> bool" where
  "gate_open payload m \<longleftrightarrow>
     jget ''threshold'' m = JNull
     \<or> (\<exists>a. value_of payload m = Some a \<and> \<not> better m (projr (py_float_json (jget ''threshold'' m))) a)"

definition gates_open :: "row \<Rightarrow> row list \<Rightarrow> bool" where
  "gates_open payload metrics \<longleftrightarrow> (\<forall>m \<in> set (group_by_type metrics ''HARD''). gate_open payload m)"

definition wins :: "row \<Rightarrow> row \<Rightarrow> row \<Rightarrow> bool" where
  "wins new best m \<longleftrightarrow>
     (\<exists>a. value_of new m = Some a \<and> (\<forall>b. value_of best m = Some b \<longrightarrow> better m a b))"

definition ties :: "row \<Rightarrow> row \<Rightarrow> row \<Rightarrow> bool" where
  "ties new best m \<longleftrightarrow>
     value_of new m = None
     \<or> (\<exists>a b. value_of new m = Some a \<and> value_of best m = Some b \<and> \<not> better m a b \<and> \<not> better m b a)"

definition beats :: "row \<Rightarrow> row \<Rightarrow> row list \<Rightarrow> bool" where
  "beats new best ms \<longleftrightarrow>
     (\<exists>before m after. ms = before @ m # after \<and> wins new best m \<and> (\<forall>x \<in> set before. ties new best x))"

lemma better_asym: "better m a b \<Longrightarrow> \<not> better m b a"
  by (auto simp: better_def dest: flt_lt_asym)

lemma compare_values_sign:
  assumes "map_of m ''direction'' = Some d"
  shows "0 < compare_values a b d \<longleftrightarrow> better m a b" "compare_values a b d < 0 \<longleftrightarrow> better m b a"
    "compare_values a b d = 0 \<longleftrightarrow> \<not> better m a b \<and> \<not> better m b a"
  using assms flt_lt_asym [of a b] flt_lt_asym [of b a]
  by (auto simp: compare_values_def better_def lower_better_def b2i_def)

lemma beats_Cons: "beats new best (m # ms) \<longleftrightarrow> wins new best m \<or> ties new best m \<and> beats new best ms"
    (is "?L \<longleftrightarrow> ?R")
proof
  assume ?L
  then obtain bs x as where x: "m # ms = bs @ x # as" "wins new best x" "\<forall>y \<in> set bs. ties new best y"
    unfolding beats_def by blast
  then show ?R by (cases bs) (auto simp: beats_def)
next
  assume ?R
  then show ?L
  proof
    assume "wins new best m"
    then have "m # ms = [] @ m # ms \<and> wins new best m \<and> (\<forall>x \<in> set []. ties new best x)"
      by simp
    then show ?L unfolding beats_def by blast
  next
    assume t: "ties new best m \<and> beats new best ms"
    then obtain bs x as where "ms = bs @ x # as" "wins new best x" "\<forall>y \<in> set bs. ties new best y"
      unfolding beats_def by blast
    with t have "m # ms = (m # bs) @ x # as \<and> wins new best x \<and> (\<forall>y \<in> set (m # bs). ties new best y)"
      by simp
    then show ?L unfolding beats_def by blast
  qed
qed

lemma beats_Nil [simp]: "\<not> beats new best []"
  by (simp add: beats_def)

lemma wins_not_ties: "wins new best m \<Longrightarrow> \<not> ties new best m"
  by (auto simp: wins_def ties_def)

lemma metric_reads:
  assumes "metric_row_ok m" "readable payload ms" "m \<in> set ms"
  obtains key where "jitem ''metric_key'' m = Inr key" "metric_of payload key = Inr (value_of payload m)"
proof -
  obtain key where k: "map_of m ''metric_key'' = Some key"
    using assms(1) by (auto simp: metric_row_ok_def)
  moreover have "\<exists>v. metric_of payload key = Inr v"
    using assms(2,3) k by (force simp: readable_def)
  ultimately show thesis
    using that by (auto simp: jitem_def value_of_def)
qed

lemma readable_Cons: "readable payload (m # ms) \<Longrightarrow> readable payload ms"
  by (simp add: readable_def)

lemma evaluate_soft_spec:
  assumes "list_all metric_row_ok ms" "readable new ms" "readable best ms"
  shows "evaluate_soft new best ms = Inr (if beats new best ms then PROMOTED else KEPT)"
  using assms
proof (induction ms)
  case (Cons m ms)
  have ok: "metric_row_ok m" using Cons.prems(1) by simp
  obtain key where key: "jitem ''metric_key'' m = Inr key" "metric_of new key = Inr (value_of new m)"
    using metric_reads [OF ok Cons.prems(2)] by auto
  obtain key' where key': "jitem ''metric_key'' m = Inr key'" "metric_of best key' = Inr (value_of best m)"
    using metric_reads [OF ok Cons.prems(3)] by auto
  obtain d where d: "map_of m ''direction'' = Some d" "jitem ''direction'' m = Inr d"
    using ok by (auto simp: metric_row_ok_def jitem_def)
  have IH: "evaluate_soft new best ms = Inr (if beats new best ms then PROMOTED else KEPT)"
    using Cons.IH Cons.prems by (simp add: readable_def)
  show ?case
  proof (cases "value_of new m")
    case None
    then show ?thesis
      using key key' IH by (auto simp: beats_Cons wins_def ties_def)
  next
    case (Some a)
    show ?thesis
    proof (cases "value_of best m")
      case None
      then show ?thesis
        using key key' Some by (auto simp: beats_Cons wins_def)
    next
      case (Some b)
      then show ?thesis
        using key key' d IH \<open>value_of new m = Some a\<close> better_asym [of m a b] compare_values_sign [OF d(1), of a b]
        by (auto simp: Let_def beats_Cons wins_def ties_def)
    qed
  qed
qed simp

lemma evaluate_hard_spec:
  assumes "list_all metric_row_ok ms" "readable payload ms"
  shows "\<exists>gates. evaluate_hard payload ms = Inr gates \<and> (all_passed gates \<longleftrightarrow> (\<forall>m \<in> set ms. gate_open payload m))"
proof -
  let ?ms = "filter (\<lambda>m. jget ''threshold'' m \<noteq> JNull) ms"
  have gate: "\<exists>g. hard_gate payload m = Inr g \<and> (gate_passed g \<longleftrightarrow> gate_open payload m)" if m: "m \<in> set ?ms" for m
  proof -
    have ok: "metric_row_ok m" using m assms(1) by (simp add: list_all_iff)
    obtain key where key: "jitem ''metric_key'' m = Inr key" "metric_of payload key = Inr (value_of payload m)"
      using metric_reads [OF ok assms(2)] m by auto
    obtain d where d: "map_of m ''direction'' = Some d" "jitem ''direction'' m = Inr d"
      using ok by (auto simp: metric_row_ok_def jitem_def)
    obtain x where x: "py_float_json (jget ''threshold'' m) = Inr x"
      using ok m by (auto simp: metric_row_ok_def)
    show ?thesis
      using key d x m compare_values_sign(2) [OF d(1), of _ x]
      by (auto simp: hard_gate_def meets_threshold_def gate_open_def not_less [symmetric] split: option.split)
  qed
  then obtain g where g: "\<And>m. m \<in> set ?ms \<Longrightarrow> hard_gate payload m = Inr (g m) \<and> (gate_passed (g m) \<longleftrightarrow> gate_open payload m)"
    by metis
  have "evaluate_hard payload ms = Inr (map g ?ms)"
    unfolding evaluate_hard_def using g by (intro mapR_Inr) blast
  moreover have "all_passed (map g ?ms) \<longleftrightarrow> (\<forall>m \<in> set ms. gate_open payload m)"
    using g by (auto simp: all_passed_def list_all_iff gate_open_def)
  ultimately show ?thesis by blast
qed

text \<open>C11: The promotion decision is the declared policy. On a readable policy and readable
  results the decision is made without raising, and: a candidate that is not the best is
  REJECTED exactly when a hard gate is closed for it and PROMOTED exactly when all are open and
  there is no result to beat or it beats the best in lexicographic order of the soft metrics; the
  current best is DEMOTED exactly when a hard gate is closed and it is not version 1, and is
  otherwise KEPT.\<close>

theorem promotion_policy:
  assumes "metrics \<noteq> []" and "list_all metric_row_ok metrics" and "readable new metrics"
    and "\<And>b. best = Some b \<Longrightarrow> readable b metrics"
  shows "\<exists>d. evaluate_promotion new best metrics cur best_vid svid = Inr d
    \<and> (decision d = REJECTED \<longleftrightarrow> \<not> cur \<and> \<not> gates_open new metrics)
    \<and> (decision d = DEMOTED \<longleftrightarrow> cur \<and> svid \<noteq> Some 1 \<and> \<not> gates_open new metrics)
    \<and> (decision d = PROMOTED \<longleftrightarrow> \<not> cur \<and> gates_open new metrics
         \<and> (\<forall>b. best = Some b \<longrightarrow> beats new b (group_by_type metrics ''SOFT'')))"
proof -
  have sub: "list_all metric_row_ok (group_by_type metrics ty)" "readable p metrics \<Longrightarrow> readable p (group_by_type metrics ty)"
    for ty p
    using assms(2) by (auto simp: group_by_type_def list_all_iff readable_def)
  obtain gates where gates: "evaluate_hard new (group_by_type metrics ''HARD'') = Inr gates"
    "all_passed gates \<longleftrightarrow> gates_open new metrics"
    using evaluate_hard_spec [OF sub(1) sub(2) [OF assms(3)], of "''HARD''"] by (auto simp: gates_open_def)
  have soft: "evaluate_soft new b (group_by_type metrics ''SOFT'')
      = Inr (if beats new b (group_by_type metrics ''SOFT'') then PROMOTED else KEPT)" if "best = Some b" for b
    by (rule evaluate_soft_spec [OF sub(1) sub(2) [OF assms(3)] sub(2) [OF assms(4) [OF that]]])
  show ?thesis
    using assms(1) gates soft by (cases best) (auto simp: evaluate_promotion_def)
qed

text \<open>
  Two results without an out-of-sample Sharpe ratio, a policy of one gate and one ranking
  metric, and a candidate that passes and ranks higher.
\<close>

definition demo_metric :: "string \<Rightarrow> string \<Rightarrow> json \<Rightarrow> row" where
  "demo_metric key ty threshold =
     [(''metric_key'', JStr key), (''direction'', JStr ''higher_is_better''), (''requirement_type'', JStr ty),
      (''threshold'', threshold)]"

definition demo_metrics :: "row list" where
  "demo_metrics = [demo_metric ''Sharpe Ratio'' ''HARD'' (JInt 1), demo_metric ''Calmar Ratio'' ''SOFT'' JNull]"

definition demo_payload :: "rat \<Rightarrow> row" where
  "demo_payload calmar =
     [(''performance'', JObj [(''strategy_metrics'',
         JObj [(''Sharpe Ratio'', JNum (Fin 2)), (''Calmar Ratio'', JNum (Fin calmar))])])]"

lemma demo_one: "py_float_json (JInt 1) = Inr (Fin 1)"
  using fl_of_int [of 1] by simp

lemma demo_metrics_ok: "list_all metric_row_ok demo_metrics"
  using demo_one by (simp add: demo_metrics_def metric_row_ok_def demo_metric_def)

lemma demo_metric_values:
  "metric_of (demo_payload c) (JStr ''Sharpe Ratio'') = Inr (Some (Fin 2))"
  "metric_of (demo_payload c) (JStr ''Calmar Ratio'') = Inr (Some (Fin c))"
  by (simp_all add: metric_of_def extract_metric_def demo_payload_def sub_dict_def finite_or_none_def
      fin_or_none_def is_finite_def)

lemma demo_readable: "readable (demo_payload c) demo_metrics"
  by (auto simp: readable_def demo_metrics_def demo_metric_def demo_metric_values)

lemma demo_groups:
  "group_by_type demo_metrics ''HARD'' = [demo_metric ''Sharpe Ratio'' ''HARD'' (JInt 1)]"
  "group_by_type demo_metrics ''SOFT'' = [demo_metric ''Calmar Ratio'' ''SOFT'' JNull]"
  by (simp_all add: group_by_type_def demo_metrics_def demo_metric_def)

theorem promotion_policy_witness:
  "\<exists>d. evaluate_promotion (demo_payload 3) (Some (demo_payload 1)) demo_metrics False (Some 1) (Some 2) = Inr d
     \<and> decision d = PROMOTED"
proof -
  have "gates_open (demo_payload 3) demo_metrics"
    using demo_one
    by (simp add: gates_open_def gate_open_def demo_groups value_of_def demo_metric_def demo_metric_values better_def
        lower_better_def)
  moreover have "beats (demo_payload 3) (demo_payload 1) (group_by_type demo_metrics ''SOFT'')"
    by (simp add: demo_groups beats_Cons wins_def value_of_def demo_metric_def demo_metric_values better_def
        lower_better_def)
  ultimately show ?thesis
    using promotion_policy [of demo_metrics "demo_payload 3" "Some (demo_payload 1)" False "Some 1" "Some 2"]
      demo_metrics_ok demo_readable by (auto simp: demo_metrics_def)
qed

section \<open>One best version per lineage\<close>

definition lineage :: "nat \<Rightarrow> bt_db \<Rightarrow> strategy_row list" where
  "lineage sd db = filter (\<lambda>s. s_strategy_id s = sd) (strategy_rows db)"

definition best_vids :: "nat \<Rightarrow> bt_db \<Rightarrow> int list" where
  "best_vids sd db = map s_strategy_vid (filter is_best (lineage sd db))"

text \<open>Every lineage is numbered from 1 without a gap and has exactly one best version.\<close>

definition lineages_wf :: "bt_db \<Rightarrow> bool" where
  "lineages_wf db \<longleftrightarrow>
     (\<forall>sd. map s_strategy_vid (lineage sd db) = rev [1..int (length (lineage sd db))]
        \<and> (lineage sd db \<noteq> [] \<longrightarrow> (\<exists>v. best_vids sd db = [v])))"

lemma lineage_set_best:
  "lineage sd (set_best P b db) = map (\<lambda>s. if P s then s\<lparr>is_best := b\<rparr> else s) (lineage sd db)"
proof -
  have "filter (\<lambda>s. s_strategy_id s = sd) (map (\<lambda>s. if P s then s\<lparr>is_best := b\<rparr> else s) rows)
      = map (\<lambda>s. if P s then s\<lparr>is_best := b\<rparr> else s) (filter (\<lambda>s. s_strategy_id s = sd) rows)" for rows
    by (induction rows) auto
  then show ?thesis by (simp add: lineage_def set_best_def)
qed

lemma vids_map_best:
  "map s_strategy_vid (map (\<lambda>s. if P s then s\<lparr>is_best := b\<rparr> else s) rows) = map s_strategy_vid rows"
  by (induction rows) auto

text \<open>Clearing the flag of a lineage and setting it on one version that is there.\<close>

lemma best_after_move:
  assumes "distinct (map s_strategy_vid rows)" "v \<in> set (map s_strategy_vid rows)"
  shows "map s_strategy_vid (filter is_best
      (map (\<lambda>s. if s_strategy_vid s = v then s\<lparr>is_best := True\<rparr> else s)
        (map (\<lambda>s. if is_best s then s\<lparr>is_best := False\<rparr> else s) rows))) = [v]"
proof -
  have flags: "filter is_best (map (\<lambda>s. if s_strategy_vid s = v then s\<lparr>is_best := True\<rparr> else s)
        (map (\<lambda>s. if is_best s then s\<lparr>is_best := False\<rparr> else s) rows))
      = map (\<lambda>s. s\<lparr>is_best := True\<rparr>) (filter (\<lambda>s. s_strategy_vid s = v) rows)" for rows
    by (induction rows) auto
  have "map s_strategy_vid (filter (\<lambda>s. s_strategy_vid s = v) rows) = [v]"
    using assms
  proof (induction rows)
    case (Cons s rows)
    show ?case
    proof (cases "s_strategy_vid s = v")
      case True
      then have "filter (\<lambda>s. s_strategy_vid s = v) rows = []"
        using Cons.prems(1) by (simp add: filter_empty_conv) (metis imageI)
      with True show ?thesis by simp
    qed (use Cons in auto)
  qed simp
  then show ?thesis unfolding flags by (simp add: comp_def)
qed

lemma lineage_distinct: "lineages_wf db \<Longrightarrow> distinct (map s_strategy_vid (lineage sd db))"
  by (simp add: lineages_wf_def)


text \<open>\<open>SP_UPD_PROMOTE_STRATEGY\<close> moves the flag: to the given version, or to version 1.\<close>

lemma set_best_simps [simp]:
  "queue_rows (set_best P b db) = queue_rows db" "promotion_rows (set_best P b db) = promotion_rows db"
  "result_rows (set_best P b db) = result_rows db"
  by (simp_all add: set_best_def)

lemma move_best:
  assumes "lineages_wf db" "v \<in> set (map s_strategy_vid (lineage sd db))"
  defines "db' \<equiv> set_best (\<lambda>s. s_strategy_id s = sd \<and> s_strategy_vid s = v) True
                   (set_best (\<lambda>s. s_strategy_id s = sd \<and> is_best s) False db)"
  shows "lineages_wf db'" "best_vids sd db' = [v]" "x \<noteq> sd \<Longrightarrow> best_vids x db' = best_vids x db"
proof -
  have only: "s_strategy_id s = x" if "s \<in> set (lineage x db)" for s x
    using that by (simp add: lineage_def)
  have mine: "lineage sd db' = map (\<lambda>s. if s_strategy_vid s = v then s\<lparr>is_best := True\<rparr> else s)
      (map (\<lambda>s. if is_best s then s\<lparr>is_best := False\<rparr> else s) (lineage sd db))"
    using only [of _ sd] by (auto simp: db'_def lineage_set_best)
  have other: "lineage x db' = lineage x db" if "x \<noteq> sd" for x
    using only [of _ x] that by (auto simp: db'_def lineage_set_best map_idI)
  show best: "best_vids sd db' = [v]"
    unfolding best_vids_def mine by (rule best_after_move [OF lineage_distinct [OF assms(1)] assms(2)])
  show "x \<noteq> sd \<Longrightarrow> best_vids x db' = best_vids x db"
    by (simp add: best_vids_def other)
  have "map s_strategy_vid (lineage x db') = map s_strategy_vid (lineage x db)" for x
    by (cases "x = sd") (simp_all only: mine other not_False_eq_True vids_map_best)
  moreover have "length (lineage x db') = length (lineage x db)" for x
    by (cases "x = sd") (simp_all add: mine other)
  ultimately show "lineages_wf db'"
    using assms(1) best other
    unfolding lineages_wf_def by (metis best_vids_def)
qed

lemma version_in_lineage:
  "strategy_version sd v db = Some s \<Longrightarrow> v \<in> set (map s_strategy_vid (lineage sd db))"
  by (auto simp: strategy_version_def lineage_def dest!: find_SomeD)

lemma best_of_wf:
  assumes "lineages_wf db" "strategy_version sd v db = Some s" "is_best s"
  shows "best_vids sd db = [v]"
proof -
  have s: "s \<in> set (lineage sd db)" "s_strategy_vid s = v"
    using find_SomeD [OF assms(2) [unfolded strategy_version_def]] by (auto simp: lineage_def)
  then have "v \<in> set (best_vids sd db)"
    using assms(3) by (auto simp: best_vids_def)
  moreover have "lineage sd db \<noteq> []"
    using s(1) by auto
  then obtain u where "best_vids sd db = [u]"
    using assms(1) by (auto simp: lineages_wf_def)
  ultimately show ?thesis by simp
qed

lemma promote_proc:
  assumes "lineages_wf db" "sp_upd_promote_strategy_proc sd (Some v) db = Inr (u, db')"
  shows "lineages_wf db' \<and> best_vids sd db' = [v] \<and> (\<forall>x. x \<noteq> sd \<longrightarrow> best_vids x db' = best_vids x db)"
proof (cases "strategy_version sd v db")
  case None
  then show ?thesis using assms(2) by (simp add: sp_upd_promote_strategy_proc_def)
next
  case (Some s)
  show ?thesis
  proof (cases "is_best s")
    case True
    then show ?thesis
      using assms Some best_of_wf [OF assms(1) Some] by (simp add: sp_upd_promote_strategy_proc_def)
  next
    case False
    then have "db' = set_best (\<lambda>s. s_strategy_id s = sd \<and> s_strategy_vid s = v) True
        (set_best (\<lambda>s. s_strategy_id s = sd \<and> is_best s) False db)"
      using assms(2) Some by (simp add: sp_upd_promote_strategy_proc_def)
    then show ?thesis
      using move_best [OF assms(1) version_in_lineage [OF Some]] by simp
  qed
qed

lemma demote_proc:
  assumes "lineages_wf db" "lineage sd db \<noteq> []" "sp_upd_promote_strategy_proc sd None db = Inr (u, db')"
  shows "lineages_wf db' \<and> best_vids sd db' = [1] \<and> (\<forall>x. x \<noteq> sd \<longrightarrow> best_vids x db' = best_vids x db)"
proof -
  have vids: "map s_strategy_vid (lineage sd db) = rev [1..int (length (lineage sd db))]"
    using assms(1) by (simp add: lineages_wf_def)
  have one: "1 \<in> set (map s_strategy_vid (lineage sd db))"
    unfolding vids set_rev set_upto using assms(2) by (cases "lineage sd db") simp_all
  have "filter (\<lambda>s. s_strategy_id s = sd \<and> is_best s)
      (map (\<lambda>s. if s_strategy_id s = sd \<and> is_best s then s\<lparr>is_best := False\<rparr> else s) rows) = []" for rows
    by (induction rows) auto
  then have "\<not> has_best sd (set_best (\<lambda>s. s_strategy_id s = sd \<and> is_best s) False db)"
    by (simp add: has_best_def sp_get_strategy_proc_def set_best_def)
  then have "db' = set_best (\<lambda>s. s_strategy_id s = sd \<and> s_strategy_vid s = 1) True
      (set_best (\<lambda>s. s_strategy_id s = sd \<and> is_best s) False db)"
    using assms(3) by (simp add: sp_upd_promote_strategy_proc_def Let_def)
  then show ?thesis
    using move_best [OF assms(1) one] by simp
qed

definition same_strategies :: "bt_db \<Rightarrow> bt_db \<Rightarrow> bool" where
  "same_strategies db db' \<longleftrightarrow>
     strategy_rows db' = strategy_rows db \<and> promotion_rows db' = promotion_rows db"

lemma same_strategiesD:
  assumes "same_strategies db db'"
  shows "lineages_wf db' = lineages_wf db" "best_vids x db' = best_vids x db" "lineage x db' = lineage x db"
    "strategy_version a b db' = strategy_version a b db" "promotion_rows db' = promotion_rows db"
  using assms
  by (simp_all add: same_strategies_def lineages_wf_def best_vids_def lineage_def strategy_version_def)

lemma read_same:
  assumes "on_bt (\<lambda>db. case f db of Inl e \<Rightarrow> Inl e | Inr x \<Rightarrow> Inr (x, db)) (db, v) = (x, w')"
  shows "\<exists>db'. w' = (db', v) \<and> same_strategies db db'"
  using assms
proof (cases rule: on_bt_cases)
  case (failed s db1 e)
  then show ?thesis using interfere_frame [OF failed(1)] by (simp add: same_strategies_def)
next
  case (answered s db1 y db2)
  then show ?thesis using interfere_frame [OF answered(1)] by (auto simp: same_strategies_def split: sum.splits)
qed

lemma flip_best_effect:
  assumes "lineages_wf db" "lineage sd db \<noteq> []" "flip_best sd vid (db, v) = (x, w')"
  shows "\<exists>db'. w' = (db', v) \<and> lineages_wf db' \<and> promotion_rows db' = promotion_rows db
    \<and> (\<forall>y. y \<noteq> sd \<longrightarrow> best_vids y db' = best_vids y db)
    \<and> best_vids sd db' = (case x of Inl e \<Rightarrow> best_vids sd db | Inr u \<Rightarrow> [case vid of None \<Rightarrow> 1 | Some v \<Rightarrow> v])"
  using assms(3) unfolding flip_best_def
proof (cases rule: on_bt_cases)
  case (failed s db1 e)
  have "same_strategies db db1" using interfere_frame [OF failed(1)] by (simp add: same_strategies_def)
  from same_strategiesD [OF this] show ?thesis using failed assms(1) by simp
next
  case (answered s db1 y db2)
  have "same_strategies db db1" using interfere_frame [OF answered(1)] by (simp add: same_strategies_def)
  note same = same_strategiesD [OF this]
  have wf: "lineages_wf db1" "lineage sd db1 \<noteq> []" using same assms(1,2) by simp_all
  have "promotion_rows db2 = promotion_rows db1"
    using answered(2)
    by (auto simp: sp_upd_promote_strategy_proc_def Let_def split: option.splits if_splits)
  then show ?thesis
    using answered same promote_proc [OF wf(1)] demote_proc [OF wf]
    by (cases vid) auto
qed

lemma ins_promotion_effect:
  assumes "ins_promotion qid sd svid out uid vid gates (db, v) = (x, w')"
  shows "\<exists>db'. w' = (db', v) \<and> strategy_rows db' = strategy_rows db
    \<and> promotion_rows db' = (case x of Inl e \<Rightarrow> promotion_rows db
        | Inr u \<Rightarrow> \<lparr>p_queue_id = qid, p_strategy_id = sd, p_strategy_vid = svid, p_outcome = out,
                    compared_vid = vid, p_gate_results = gates, p_user_id = uid\<rparr> # promotion_rows db)"
  using assms unfolding ins_promotion_def
  by (cases rule: on_bt_cases) (auto simp: interfere_frame sp_ins_promotion_proc_def)


lemma apply_decision_effect:
  assumes "lineages_wf db" "lineage sd db \<noteq> []" "apply_decision d sd svid uid qid (db, v) = (x, (db', v'))"
  shows "lineages_wf db' \<and> (\<forall>y. y \<noteq> sd \<longrightarrow> best_vids y db' = best_vids y db)
    \<and> (\<forall>u. x = Inr u \<longrightarrow>
         best_vids sd db' = (case decision d of PROMOTED \<Rightarrow> [svid] | DEMOTED \<Rightarrow> [1] | _ \<Rightarrow> best_vids sd db)
         \<and> (\<exists>p. promotion_rows db' = p # promotion_rows db \<and> p_queue_id p = qid \<and> p_strategy_id p = sd
              \<and> p_strategy_vid p = svid \<and> p_outcome p = outcome_name (decision d)))"
proof -
  let ?flip = "decision d = DEMOTED \<or> decision d = PROMOTED"
  let ?vid = "if decision d = PROMOTED then Some svid else None"
  from assms(3) show ?thesis
    unfolding apply_decision_def
  proof (cases rule: bindC_E)
    case (raised e)
    then show ?thesis
      using flip_best_effect [OF assms(1,2), of ?vid v x "(db', v')"] by (cases ?flip) auto
  next
    case (went_on u w1)
    have "\<exists>db1. w1 = (db1, v) \<and> lineages_wf db1 \<and> promotion_rows db1 = promotion_rows db
        \<and> (\<forall>y. y \<noteq> sd \<longrightarrow> best_vids y db1 = best_vids y db)
        \<and> best_vids sd db1 = (case decision d of PROMOTED \<Rightarrow> [svid] | DEMOTED \<Rightarrow> [1] | _ \<Rightarrow> best_vids sd db)"
    proof (cases ?flip)
      case True
      then have "flip_best sd ?vid (db, v) = (Inr u, w1)" using went_on(1) by simp
      from flip_best_effect [OF assms(1,2) this] True show ?thesis
        by (cases "decision d") auto
    next
      case False
      then show ?thesis
        using went_on(1) assms(1) by (cases "decision d") auto
    qed
    then obtain db1 where db1: "w1 = (db1, v)" "lineages_wf db1" "promotion_rows db1 = promotion_rows db"
      "\<forall>y. y \<noteq> sd \<longrightarrow> best_vids y db1 = best_vids y db"
      "best_vids sd db1 = (case decision d of PROMOTED \<Rightarrow> [svid] | DEMOTED \<Rightarrow> [1] | _ \<Rightarrow> best_vids sd db)"
      by blast
    have "strategy_rows db' = strategy_rows db1"
      and "\<forall>u. x = Inr u \<longrightarrow> (\<exists>p. promotion_rows db' = p # promotion_rows db1 \<and> p_queue_id p = qid
        \<and> p_strategy_id p = sd \<and> p_strategy_vid p = svid \<and> p_outcome p = outcome_name (decision d))"
      using ins_promotion_effect [OF went_on(2) [unfolded db1(1)]] by auto
    then show ?thesis
      using db1 by (simp add: lineages_wf_def best_vids_def lineage_def)
  qed
qed

lemma keeps_liftR [intro]: "keepsC I (liftR r)"
  by (simp add: keepsC_def liftR_def)

lemma decide_keeps: "keepsC (\<lambda>w. same_strategies db (fst w) \<and> snd w = v) (decide_promotion rd j payload)"
    (is "keepsC ?I _")
proof -
  have rd: "keepsC ?I (on_bt (\<lambda>db. case f db of Inl e \<Rightarrow> Inl e | Inr x \<Rightarrow> Inr (x, db)))"
    for f :: "bt_db \<Rightarrow> bt_exn + 'b"
  proof (rule keepsC_I)
    fix w r w' assume w: "?I w" "on_bt (\<lambda>db. case f db of Inl e \<Rightarrow> Inl e | Inr x \<Rightarrow> Inr (x, db)) w = (r, w')"
    obtain db1 where "w = (db1, v)" "same_strategies db db1" using w(1) by (cases w) auto
    then show "?I w'" using read_same [of f db1 v r w'] w(2) by (auto simp: same_strategies_def)
  qed
  have strat: "keepsC ?I (sp_get_strategy a b c)" for a b c
    using rd [of "\<lambda>db. Inr (sp_get_strategy_proc a (case b of Some v \<Rightarrow> ByVid v
      | None \<Rightarrow> if c = Some ''Y'' then Best else Latest) db)"] by (simp add: sp_get_strategy_def)
  have pay: "keepsC ?I (fetch_result_payload a b)" for a b
    unfolding fetch_result_payload_def sp_get_result_def by (intro keepsC_bind rd keepsC_return)
  show ?thesis
    unfolding decide_promotion_def Let_def
    by (auto intro!: keepsC_bind keeps_liftR strat pay split: option.split list.split)
qed

text \<open>Promotion keeps one best version. If every lineage has exactly one best version, it
  still does after the promotion flow, whether it returns or fails at any call; no other lineage
  is touched. When the flow returns, the best version is the candidate if it was promoted,
  version 1 if it was demoted and otherwise what it was, and the decision has been logged.\<close>

theorem promotion_keeps_one_best:
  assumes "lineages_wf db" and "lineage (q_strategy_id j) db \<noteq> []"
    and "promotion_run rd j payload qid (db, v) = (x, (db', v'))"
  shows "lineages_wf db' \<and> (\<forall>y. y \<noteq> q_strategy_id j \<longrightarrow> best_vids y db' = best_vids y db)
    \<and> (\<forall>d. x = Inr d \<longrightarrow>
         best_vids (q_strategy_id j) db' = (case decision d of PROMOTED \<Rightarrow> [q_strategy_vid j] | DEMOTED \<Rightarrow> [1]
                                            | _ \<Rightarrow> best_vids (q_strategy_id j) db)
         \<and> (\<exists>p. promotion_rows db' = p # promotion_rows db \<and> p_queue_id p = qid
              \<and> p_strategy_id p = q_strategy_id j \<and> p_strategy_vid p = q_strategy_vid j
              \<and> p_outcome p = outcome_name (decision d)))"
  using assms(3) unfolding promotion_run_def
proof (cases rule: bindC_E)
  case (raised e)
  have "same_strategies db db'"
    using keepsC_D [OF decide_keeps [of db v] _ raised(1)] by (simp add: same_strategies_def)
  from same_strategiesD [OF this] show ?thesis using raised assms(1) by simp
next
  case (went_on d w1)
  have "same_strategies db (fst w1)" "snd w1 = v"
    using keepsC_D [OF decide_keeps [of db v] _ went_on(1)] by (simp_all add: same_strategies_def)
  then obtain db1 where w1: "w1 = (db1, v)" and same: "same_strategies db db1" by (cases w1) auto
  note same = same_strategiesD [OF same]
  obtain y where y: "apply_decision d (q_strategy_id j) (q_strategy_vid j) (q_user_id j) qid (db1, v) = (y, (db', v'))"
    "x = (case y of Inl e \<Rightarrow> Inl e | Inr _ \<Rightarrow> Inr d)"
    using went_on(2) w1 by (auto elim!: bindC_E)
  show ?thesis
    using apply_decision_effect [OF _ _ y(1)] assms(1,2) same y(2)
    by (auto split: sum.splits promotion_outcome.split)
qed

text \<open>A lineage of two versions, the first the best; the second finishes with a better result.\<close>

definition demo_policy :: refdata where
  "demo_policy =
     \<lparr>catalog = (\<lambda>t. if t = ''promotion_state''
          then Inr (map (\<lambda>n. [(''name'', JStr n)]) [''PROMOTED'', ''KEPT'', ''DEMOTED'', ''REJECTED''])
          else Inl (ValueError t)),
      config = (\<lambda>t. if t = ''promotion_metric'' then Inr demo_metrics else Inl (ValueError t))\<rparr>"

definition demo_version :: "int \<Rightarrow> bool \<Rightarrow> strategy_row" where
  "demo_version v b =
     \<lparr>s_strategy_id = 70, s_strategy_vid = v, strategy_nm = ''btc'', config_json = JObj [], s_user_id = ''ann'',
      is_best = b, logical_delete = False, s_open = (v = 2)\<rparr>"

definition demo_bt :: bt_db where
  "demo_bt =
     \<lparr>queue_rows = [], strategy_rows = [demo_version 2 False, demo_version 1 True],
      result_rows = [\<lparr>result_id = 1, r_queue_id = 4, r_strategy_id = 70, r_strategy_vid = 1, result_vid = 1,
                      r_current = True, payload_json = JObj (demo_payload 1), r_metrics = []\<rparr>],
      promotion_rows = [], queue_statuses = [], bt_clock = 0, next_uuid = 6, bt_slots = []\<rparr>"

definition demo_candidate :: queue_row where
  "demo_candidate =
     \<lparr>queue_id = 5, queue_vid = 2, q_strategy_id = 70, q_strategy_vid = 2, transact_from_ts = 0, q_open = True,
      queue_status_id = 2, priority = 50, error_text = None, q_user_id = ''ann'', created_at = 0\<rparr>"

lemma demo_lineages: "lineages_wf demo_bt"
proof -
  have "lineage sd demo_bt = (if sd = 70 then [demo_version 2 False, demo_version 1 True] else [])" for sd
    by (simp add: lineage_def demo_bt_def demo_version_def)
  moreover have "rev [1..2 :: int] = [2, 1]" by code_simp
  ultimately show ?thesis
    by (simp add: lineages_wf_def best_vids_def demo_version_def)
qed

lemma demo_promotes:
  "map_sum (\<lambda>_. ()) decision (fst (promotion_run demo_policy demo_candidate (demo_payload 3) 5 (demo_bt, ())))
   = Inr PROMOTED"
  by code_simp

theorem promotion_keeps_one_best_witness:
  "\<exists>d db'. promotion_run demo_policy demo_candidate (demo_payload 3) 5 (demo_bt, ()) = (Inr d, (db', ()))
     \<and> lineages_wf db' \<and> best_vids 70 db' = [2]"
proof -
  obtain x db' where r: "promotion_run demo_policy demo_candidate (demo_payload 3) 5 (demo_bt, ()) = (x, (db', ()))"
    by (metis surj_pair unit.exhaust)
  obtain d where d: "x = Inr d" "decision d = PROMOTED"
    using demo_promotes r by (cases x) auto
  have "lineage (q_strategy_id demo_candidate) demo_bt \<noteq> []"
    by (simp add: lineage_def demo_bt_def demo_candidate_def demo_version_def)
  from promotion_keeps_one_best [OF demo_lineages this r] show ?thesis
    using r d by (auto simp: demo_candidate_def)
qed

end
