(* ===== verification/Jobs.thy ===== *)
theory Jobs
  imports WorkerLoop Promotion
begin

text \<open>
  The producers of the backtest queue: \<^verbatim>\<open>quant/api/services/jobs.py\<close> (enqueue, cancel,
  re-enqueue and the reads behind the job pages), \<^verbatim>\<open>quant/api/services/strategies.py\<close>, and the
  worker process of \<^verbatim>\<open>quant/queue/worker.py\<close> that the loop starts.

  The world besides the tables is a number: the wake tokens in Redis. Whether the wake push
  fails is an input (the text of the \<open>RedisError\<close>). The optimiser a worker runs and the
  validation of its request are parameters: the strategy code is not part of the queue.
\<close>

type_synonym 'a api_call = "(bt_db \<times> nat, bt_exn, 'a) call"

section \<open>The jobs service\<close>

record enqueue_request =
  req_strategy_nm :: string
  req_config :: row
  req_priority :: string

record enqueue_response =
  resp_queue_id :: nat
  resp_queue_pos :: nat

definition wake :: "string option \<Rightarrow> unit api_call" where
  "wake err = (\<lambda>(db, tokens). (Inr (), (db, publish_wake err tokens)))"

definition uuid4 :: "nat api_call" where
  "uuid4 = (\<lambda>(db, tokens). (Inr (next_uuid db), (db\<lparr>next_uuid := next_uuid db + 1\<rparr>, tokens)))"

definition job_status_id :: "refdata \<Rightarrow> string \<Rightarrow> int api_call" where
  "job_status_id rd nm = liftR (resolve_queue_status_id rd nm)"

text \<open>\<open>s.split(sep, 1)[0]\<close> at \<open> \<leftarrow> \<close> (the arrow is three bytes), and \<open>endswith\<close>.\<close>

definition arrow :: string where
  "arrow = '' '' @ [CHR 0xE2, CHR 0x86, CHR 0x90] @ '' ''"

fun before_arrow :: "string \<Rightarrow> string" where
  "before_arrow [] = []"
| "before_arrow (c # s) = (if starts_with arrow (c # s) then [] else c # before_arrow s)"

definition ends_with :: "string \<Rightarrow> string \<Rightarrow> bool" where
  "ends_with suffix s = starts_with (rev suffix) (rev s)"

definition quote :: string where
  "quote = [CHR 0x27]"

definition assert_cadence_in_name :: "refdata \<Rightarrow> enqueue_request \<Rightarrow> unit api_call" where
  "assert_cadence_in_name rd req =
     (let iv = jget ''tm_interval_id'' (req_config req)
      in if iv = JNull then
           raiseC (StrategyNameMismatch (''config_json.tm_interval_id is required '' @ em_dash
             @ '' it selects the bars the run is fitted on, and the strategy name is built from it''))
         else
           bindC (liftR (py_int iv)) (\<lambda>i.
           bindC (liftR (interval_name rd i)) (\<lambda>cadence.
             if ends_with ('':'' @ cadence) (before_arrow (req_strategy_nm req)) then returnC ()
             else raiseC (StrategyNameMismatch (''strategy_nm '' @ py_repr (req_strategy_nm req)
               @ '' does not name its cadence '' @ py_repr cadence @ '' '' @ em_dash
               @ '' expected the traded leg to end '' @ quote @ '':'' @ cadence @ quote
               @ ''. A name and a config describing different series would fork the lineage. ''
               @ ''Reload the page to pick up the current client'')))))"

text \<open>The per-user cap, shared by enqueue and re-enqueue.\<close>

definition check_cap :: "refdata \<Rightarrow> string \<Rightarrow> int \<Rightarrow> unit api_call" where
  "check_cap rd uid queued =
     bindC (liftR (setting_int rd ''max_queued_per_user'')) (\<lambda>max_queued.
     bindC (sp_get_queued_count uid queued) (\<lambda>n.
       if max_queued \<le> n then raiseC (RateLimitError max_queued) else returnC ()))"

definition priority_of :: "refdata \<Rightarrow> string \<Rightarrow> int api_call" where
  "priority_of rd nm =
     (case resolve_queue_priority rd nm of
        Inl (RuntimeError m) \<Rightarrow> raiseC (UnknownPriority m)
      | Inl e \<Rightarrow> raiseC (BtPy e)
      | Inr p \<Rightarrow> returnC p)"

definition submit :: "nat \<Rightarrow> int \<Rightarrow> int \<Rightarrow> int \<Rightarrow> string \<Rightarrow> string option \<Rightarrow> enqueue_response api_call" where
  "submit sd svid queued prio uid err =
     bindC uuid4 (\<lambda>qid.
     bindC (sp_ins_queue qid sd svid queued prio uid None) (\<lambda>_.
     bindC (wake err) (\<lambda>_.
     bindC (queued_position qid queued) (\<lambda>pos.
       returnC \<lparr>resp_queue_id = qid, resp_queue_pos = pos\<rparr>))))"

definition enqueue :: "refdata \<Rightarrow> string \<Rightarrow> enqueue_request \<Rightarrow> string option \<Rightarrow> enqueue_response api_call" where
  "enqueue rd uid req err =
     bindC (assert_cadence_in_name rd req) (\<lambda>_.
     bindC (job_status_id rd ''QUEUED'') (\<lambda>queued.
     bindC (check_cap rd uid queued) (\<lambda>_.
     bindC (priority_of rd (req_priority req)) (\<lambda>prio.
     bindC (sp_ins_strategy (req_strategy_nm req) (JObj (req_config req)) uid None) (\<lambda>(sd, svid).
       submit sd svid queued prio uid err)))))"

definition get_job :: "string \<Rightarrow> nat \<Rightarrow> (job_row \<times> json option) api_call" where
  "get_job uid qid =
     bindC (get_active qid (Some uid)) (\<lambda>r.
       case r of None \<Rightarrow> raiseC (JobNotFound qid)
       | Some j \<Rightarrow> bindC (sp_get_result (Some qid) None None) (\<lambda>res.
           returnC (j, map_option payload_json res)))"

definition cancel_target :: "string \<Rightarrow> string option" where
  "cancel_target st = map_of [(''QUEUED'', ''CANCELLED''), (''RUNNING'', ''CANCEL_REQUESTED'')] st"

definition cancel :: "refdata \<Rightarrow> string \<Rightarrow> nat \<Rightarrow> string option \<Rightarrow> job_row api_call" where
  "cancel rd uid qid err =
     bindC (get_active qid (Some uid)) (\<lambda>r.
       case r of
         None \<Rightarrow> raiseC (JobNotFound qid)
       | Some j \<Rightarrow>
           (case cancel_target (queue_status j) of
              None \<Rightarrow> raiseC (CancelNotAllowed (''job '' @ nat_str qid @ '' is in terminal state '' @ py_repr (queue_status j)))
            | Some nm \<Rightarrow>
                bindC (job_status_id rd nm) (\<lambda>target.
                bindC (sp_ins_queue qid (q_strategy_id (job j)) (q_strategy_vid (job j)) target (priority (job j)) uid None) (\<lambda>_.
                bindC (wake err) (\<lambda>_.
                bindC (get_active qid (Some uid)) (\<lambda>r'.
                  returnC (case r' of None \<Rightarrow> j | Some j' \<Rightarrow> j')))))))"

definition reenqueue :: "refdata \<Rightarrow> string \<Rightarrow> nat \<Rightarrow> string option \<Rightarrow> enqueue_response api_call" where
  "reenqueue rd uid qid err =
     bindC (get_active qid (Some uid)) (\<lambda>r.
       case r of
         None \<Rightarrow> raiseC (JobNotFound qid)
       | Some j \<Rightarrow>
           if queue_status j \<notin> {''FAILED'', ''CANCELLED''} then
             raiseC (ReenqueueNotAllowed (''job '' @ nat_str qid @ '' cannot be re-enqueued from state '' @ py_repr (queue_status j)))
           else
             bindC (job_status_id rd ''QUEUED'') (\<lambda>queued.
             bindC (check_cap rd uid queued) (\<lambda>_.
               submit (q_strategy_id (job j)) (q_strategy_vid (job j)) queued (priority (job j)) uid err)))"

record status_snapshot =
  snap_queue_id :: nat
  snap_queue_vid :: int
  snap_status :: string
  snap_status_id :: int
  snap_error :: "string option"

definition snapshot_status :: "string \<Rightarrow> nat \<Rightarrow> status_snapshot option api_call" where
  "snapshot_status uid qid =
     bindC (get_active qid (Some uid)) (\<lambda>r.
       returnC (map_option (\<lambda>j. \<lparr>snap_queue_id = queue_id (job j), snap_queue_vid = queue_vid (job j),
         snap_status = queue_status j, snap_status_id = queue_status_id (job j), snap_error = error_text (job j)\<rparr>) r))"

section \<open>The strategies service\<close>

definition require_owned_lineage :: "string \<Rightarrow> nat \<Rightarrow> unit api_call" where
  "require_owned_lineage uid sd =
     bindC (sp_get_queue None (Some sd) None (Some uid) 1) (\<lambda>rows.
       if rows = [] then raiseC (StrategyNotFound (nat_str sd)) else returnC ())"

definition get_strategy_result :: "nat \<Rightarrow> int \<Rightarrow> (strategy_row \<times> json option) api_call" where
  "get_strategy_result sd svid =
     bindC (sp_get_strategy sd (Some svid) None) (\<lambda>rows.
       case rows of
         [] \<Rightarrow> raiseC (StrategyNotFound (''strategy '' @ nat_str sd @ '' v'' @ int_str svid @ '' not found''))
       | s # _ \<Rightarrow> bindC (fetch_result_payload sd svid) (\<lambda>p. returnC (s, p)))"

definition promote :: "string \<Rightarrow> nat \<Rightarrow> int \<Rightarrow> unit api_call" where
  "promote uid sd svid = bindC (require_owned_lineage uid sd) (\<lambda>_. flip_best sd (Some svid))"

definition set_logical_delete :: "string \<Rightarrow> nat \<Rightarrow> bool \<Rightarrow> int option \<Rightarrow> unit api_call" where
  "set_logical_delete uid sd b svid =
     bindC (require_owned_lineage uid sd) (\<lambda>_. sp_upd_strategy_logical_delete sd svid b)"

section \<open>The worker process\<close>

text \<open>
  \<open>BacktestWorker.run\<close> as \<open>main\<close> calls it: the exit code, and the tables. \<open>validate\<close> is
  \<open>OptimizeRequest.model_validate\<close> (or the text of what it raises), \<open>optimize\<close> is \<open>run_optimize\<close> with its error text. A fault that
  nothing catches is exit code 1; a missing job is 2. The promotion is best effort: whatever it
  raises, the job completes.
\<close>

definition fetch_job :: "nat \<Rightarrow> (queue_row \<times> json) api_call" where
  "fetch_job qid =
     bindC (sp_get_queue_latest qid) (\<lambda>r.
       case r of
         None \<Rightarrow> raiseC (BtLookupError (''no active BT.QUEUE row (or missing frozen STRATEGY) for queue_id='' @ nat_str qid))
       | Some x \<Rightarrow> returnC x)"

definition write_state :: "queue_row \<Rightarrow> nat \<Rightarrow> int \<Rightarrow> string option \<Rightarrow> unit api_call" where
  "write_state j qid st err =
     sp_ins_queue qid (q_strategy_id j) (q_strategy_vid j) st (priority j) (q_user_id j) err"

definition ins_result :: "nat \<Rightarrow> nat \<Rightarrow> json \<Rightarrow> flt option list \<Rightarrow> unit api_call" where
  "ins_result rid qid payload metrics = on_bt (sp_ins_result_proc rid qid payload metrics)"

definition attempt_call :: "'a api_call \<Rightarrow> unit api_call" where
  "attempt_call m = (\<lambda>w. (Inr (), snd (m w)))"

definition validated :: "string + 'r \<Rightarrow> 'r api_call" where
  "validated v =
     (case v of Inl m \<Rightarrow> raiseC (BtPy (ValueError (''CONFIG_JSON failed OptimizeRequest validation: '' @ m)))
      | Inr req \<Rightarrow> returnC req)"

definition worker_run ::
  "refdata \<Rightarrow> (json \<Rightarrow> string + 'r) \<Rightarrow> ('r \<Rightarrow> string + row) \<Rightarrow> nat \<Rightarrow> int api_call" where
  "worker_run rd validate optimize qid =
     bindC (job_status_id rd ''COMPLETED'') (\<lambda>completed.
     bindC (job_status_id rd ''FAILED'') (\<lambda>failed.
     bindC (fetch_job qid) (\<lambda>(j, cfg).
     bindC (validated (validate cfg)) (\<lambda>req.
       case optimize req of
         Inl err \<Rightarrow> bindC (write_state j qid failed (Some err)) (\<lambda>_. returnC 0)
       | Inr payload \<Rightarrow>
           bindC uuid4 (\<lambda>rid.
           bindC (liftR (extract_shredded_metrics payload)) (\<lambda>metrics.
           bindC (ins_result rid qid (JObj payload) metrics) (\<lambda>_.
           bindC (attempt_call (promotion_run rd j payload qid)) (\<lambda>_.
           bindC (write_state j qid completed None) (\<lambda>_. returnC 0)))))))))"

definition worker_main ::
  "refdata \<Rightarrow> (json \<Rightarrow> string + 'r) \<Rightarrow> ('r \<Rightarrow> string + row) \<Rightarrow> nat \<Rightarrow> bt_db \<times> nat \<Rightarrow> int \<times> (bt_db \<times> nat)" where
  "worker_main rd validate optimize qid w =
     (case worker_run rd validate optimize qid w of
        (Inr code, w') \<Rightarrow> (code, w')
      | (Inl (BtLookupError m), w') \<Rightarrow> (2, w')
      | (Inl (BtPy (KeyError m)), w') \<Rightarrow> (2, w')
      | (Inl e, w') \<Rightarrow> (1, w'))"

section \<open>The other writers keep to the loop's terms\<close>

text \<open>
  What \<open>db\<close> is to \<open>db0\<close> when a handler ran between them: the queue is \<open>db0\<close>'s after a sequence of
  writes of the kind the worker loop allows for.
\<close>

definition alone :: "slot list \<Rightarrow> bool" where
  "alone ss \<longleftrightarrow> (\<forall>s \<in> set ss. others s = [] \<and> passed s = 0)"

lemma alone_tl: "alone ss \<Longrightarrow> alone (tl ss)"
  by (cases ss) (simp_all add: alone_def)

lemma on_bt_alone:
  assumes "on_bt f (db, v) = (x, w')" and "alone (bt_slots db)"
  obtains (failed) e where "x = Inl e" "w' = (db\<lparr>bt_slots := tl (bt_slots db)\<rparr>, v)"
  | (answered) y db2 where "f (db\<lparr>bt_slots := tl (bt_slots db)\<rparr>) = Inr (y, db2)" "x = Inr y" "w' = (db2, v)"
proof -
  have "snd (interfere db) = db\<lparr>bt_slots := tl (bt_slots db)\<rparr>"
    using assms(2) by (cases "bt_slots db") (simp_all add: interfere_def alone_def quiet_slot_def)
  with assms(1) show thesis
    by (cases rule: on_bt_cases) (auto intro: failed answered)
qed

definition calm_since :: "int \<Rightarrow> int \<Rightarrow> bt_db \<Rightarrow> bt_db \<Rightarrow> bool" where
  "calm_since Q R db0 db \<longleftrightarrow>
     alone (bt_slots db) \<and> bt_clock db = bt_clock db0 \<and> (\<forall>q \<in> job_ids db. q < next_uuid db)
     \<and> (\<exists>ws. calm Q R (job_ids db0) ws \<and> queue_rows db = queue_rows (fold apply_write ws db0))"

lemma calm_append:
  "calm Q R ids (ws @ [jw]) \<longleftrightarrow>
     calm Q R ids ws \<and> w_status jw \<noteq> R \<and> (w_status jw = Q \<longrightarrow> w_queue_id jw \<notin> ids \<union> w_queue_id ` set ws)"
  by (induction ws arbitrary: ids) auto

lemma fold_job_ids: "job_ids (fold apply_write ws db) = job_ids db \<union> w_queue_id ` set ws"
  by (induction ws arbitrary: db) auto

lemma fold_clock [simp]: "bt_clock (fold apply_write ws db) = bt_clock db"
  by (induction ws arbitrary: db) (simp_all add: apply_write_def)

lemma ins_rows_cong:
  "queue_rows db = queue_rows db' \<Longrightarrow> bt_clock db = bt_clock db' \<Longrightarrow>
   queue_rows (sp_ins_queue_proc qid sd svid st prio err uid db)
   = queue_rows (sp_ins_queue_proc qid sd svid st prio err uid db')"
  by (simp add: sp_ins_queue_proc_def)

lemma calm_since_refl: "queue_wf db \<Longrightarrow> alone (bt_slots db) \<Longrightarrow> calm_since Q R db db"
  unfolding calm_since_def queue_wf_def by (auto intro: exI [of _ "[]"])

lemma calm_since_write:
  assumes "calm_since Q R db0 db" "st \<noteq> R" "st = Q \<Longrightarrow> qid \<notin> job_ids db" "qid < next_uuid db"
  shows "calm_since Q R db0 (sp_ins_queue_proc qid sd svid st prio err uid db)"
proof -
  obtain ws where ws: "calm Q R (job_ids db0) ws" "queue_rows db = queue_rows (fold apply_write ws db0)"
    using assms(1) by (auto simp: calm_since_def)
  let ?jw = "\<lparr>w_queue_id = qid, w_strategy_id = sd, w_strategy_vid = svid, w_status = st, w_priority = prio,
      w_error = err, w_user = uid\<rparr>"
  have "job_ids db = job_ids db0 \<union> w_queue_id ` set ws"
    using ws(2) fold_job_ids [of ws db0] by (simp add: job_ids_def)
  then have "calm Q R (job_ids db0) (ws @ [?jw])"
    using ws(1) assms(2,3) by (simp add: calm_append)
  moreover have "queue_rows (sp_ins_queue_proc qid sd svid st prio err uid db) = queue_rows (fold apply_write (ws @ [?jw]) db0)"
    using ws(2) assms(1) by (simp add: apply_write_def calm_since_def) (rule ins_rows_cong, simp_all)
  ultimately show ?thesis
    using assms(1,4) unfolding calm_since_def by (intro conjI exI [of _ "ws @ [?jw]"]) simp_all
qed

lemma calm_since_frame:
  assumes "calm_since Q R db0 db" "queue_rows db' = queue_rows db" "bt_slots db' = bt_slots db"
    "bt_clock db' = bt_clock db" "next_uuid db \<le> next_uuid db'"
  shows "calm_since Q R db0 db'"
  using assms unfolding calm_since_def job_ids_def by (metis order_less_le_trans)

lemma calm_since_slot:
  "calm_since Q R db0 db \<Longrightarrow> calm_since Q R db0 (db\<lparr>bt_slots := tl (bt_slots db)\<rparr>)"
  by (simp add: calm_since_def alone_tl)

text \<open>Calls that do not write the queue.\<close>

definition calm_with :: "int \<Rightarrow> int \<Rightarrow> bt_db \<Rightarrow> nat set \<Rightarrow> bt_db \<times> 'v \<Rightarrow> bool" where
  "calm_with Q R db0 X w \<longleftrightarrow> calm_since Q R db0 (fst w) \<and> X \<subseteq> job_ids (fst w)"

lemma calm_with_mono: "calm_with Q R db0 X w \<Longrightarrow> Y \<subseteq> X \<Longrightarrow> calm_with Q R db0 Y w"
  by (auto simp: calm_with_def)

lemma calm_other:
  assumes "\<And>db x db'. f db = Inr (x, db') \<Longrightarrow>
      queue_rows db' = queue_rows db \<and> bt_slots db' = bt_slots db \<and> bt_clock db' = bt_clock db \<and> next_uuid db \<le> next_uuid db'"
  shows "keepsC (calm_with Q R db0 X) (on_bt f)"
proof (rule keepsC_I)
  fix w r w'
  assume c: "calm_with Q R db0 X w" and o: "on_bt f w = (r, w')"
  obtain db v where w: "w = (db, v)" by (cases w)
  let ?db = "db\<lparr>bt_slots := tl (bt_slots db)\<rparr>"
  have cs: "calm_since Q R db0 ?db" and al: "alone (bt_slots db)"
    using c calm_since_slot by (auto simp: calm_with_def calm_since_def [of Q R db0 db] w)
  have same: "fst w' = ?db \<or> (\<exists>x. f ?db = Inr (x, fst w'))"
    using o [unfolded w] al by (cases rule: on_bt_alone) auto
  then have "queue_rows (fst w') = queue_rows db"
    using assms by fastforce
  moreover have "calm_since Q R db0 (fst w')"
    using same
  proof
    assume "fst w' = ?db"
    with cs show ?thesis by simp
  next
    assume "\<exists>x. f ?db = Inr (x, fst w')"
    then show ?thesis using assms by (blast intro: calm_since_frame [OF cs])
  qed
  ultimately show "calm_with Q R db0 X w'"
    using c by (simp add: calm_with_def w job_ids_def)
qed

lemma calm_read: "keepsC (calm_with Q R db0 X) (on_bt (\<lambda>db. Inr (g db, db)))"
  by (rule calm_other) auto

lemma calm_write:
  assumes "st \<noteq> R" "st \<noteq> Q" "qid \<in> X"
  shows "keepsC (calm_with Q R db0 X) (sp_ins_queue qid sd svid st prio uid err)"
proof (rule keepsC_I)
  fix w r w'
  assume c: "calm_with Q R db0 X w" and o: "sp_ins_queue qid sd svid st prio uid err w = (r, w')"
  obtain db v where w: "w = (db, v)" by (cases w)
  let ?db = "db\<lparr>bt_slots := tl (bt_slots db)\<rparr>"
  have cs: "calm_since Q R db0 ?db" and al: "alone (bt_slots db)" "qid < next_uuid ?db" "X \<subseteq> job_ids ?db"
    using c assms(3) calm_since_slot by (auto simp: calm_with_def calm_since_def [of Q R db0 db] w)
  have "fst w' = ?db \<or> fst w' = sp_ins_queue_proc qid sd svid st prio err uid ?db"
    using o [unfolded w sp_ins_queue_def] al(1) by (cases rule: on_bt_alone) auto
  then show "calm_with Q R db0 X w'"
    using cs al calm_since_write [OF cs, of st qid] assms by (auto simp: calm_with_def w)
qed

lemma calm_wake [intro]: "keepsC (calm_with Q R db0 X) (wake err)"
  by (auto simp: keepsC_def wake_def calm_with_def)

lemma calm_uuid4 [intro]: "keepsC (calm_with Q R db0 X) uuid4"
  by (auto simp: keepsC_def uuid4_def calm_with_def intro: calm_since_frame)

lemma calm_status:
  assumes "\<And>i. resolve_queue_status_id rd nm = Inr i \<Longrightarrow> keepsC I (f i)"
  shows "keepsC I (bindC (job_status_id rd nm) f)"
  using assms by (auto simp: keepsC_def bindC_def job_status_id_def liftR_def split: sum.splits)

lemma calm_get_active [intro]: "keepsC (calm_with Q R db0 X) (get_active qid uid)"
  unfolding get_active_def sp_get_queue_def by (intro keepsC_bind calm_read keepsC_return)

lemma calm_position [intro]: "keepsC (calm_with Q R db0 X) (queued_position qid queued)"
  unfolding queued_position_def sp_get_queue_def by (intro keepsC_bind calm_read keepsC_return)

text \<open>A handler that first looks the job up knows that it exists.\<close>

lemma calm_active_bind:
  assumes "\<And>j. keepsC (calm_with Q R db0 (insert qid X)) (f (Some j))" "keepsC (calm_with Q R db0 X) (f None)"
  shows "keepsC (calm_with Q R db0 X) (bindC (get_active qid uid) f)"
proof (rule keepsC_bindI [OF calm_get_active])
  fix w x w' r w''
  assume c: "calm_with Q R db0 X w" and a: "get_active qid uid w = (Inr x, w')" and f: "f x w' = (r, w'')"
  have c': "calm_with Q R db0 X w'" using keepsC_D [OF calm_get_active c a] .
  show "calm_with Q R db0 X w''"
  proof (cases x)
    case None
    then show ?thesis using keepsC_D [OF assms(2) c'] f by simp
  next
    case (Some j)
    then have "calm_with Q R db0 (insert qid X) w'"
      using c' get_active_job(2) [of qid uid w j w'] a by (simp add: calm_with_def)
    from keepsC_D [OF assms(1) [of j] this] f Some show ?thesis
      by (auto intro: calm_with_mono)
  qed
qed

lemma calm_fresh_write:
  assumes "Q \<noteq> R" "calm_with Q R db0 X w" "uuid4 w = (Inr qid, w1)" "sp_ins_queue qid sd svid Q prio uid err w1 = (y, w2)"
  shows "calm_with Q R db0 X w2"
proof -
  obtain db v where w: "w = (db, v)" by (cases w)
  let ?d = "db\<lparr>next_uuid := next_uuid db + 1\<rparr>"
  let ?db = "?d\<lparr>bt_slots := tl (bt_slots ?d)\<rparr>"
  have w1: "w1 = (?d, v)" "qid = next_uuid db" using assms(3) by (auto simp: w uuid4_def)
  have c: "calm_since Q R db0 ?d"
    using assms(2) calm_since_frame [of Q R db0 db ?d] by (simp add: calm_with_def w)
  from calm_since_slot [OF this] have cs: "calm_since Q R db0 ?db" .
  have al: "alone (bt_slots ?d)" using c by (simp add: calm_since_def)
  have "fst w2 = ?db \<or> fst w2 = sp_ins_queue_proc qid sd svid st prio err uid ?db" if "st = Q" for st
    using assms(4) [unfolded w1(1) sp_ins_queue_def] al that by (cases rule: on_bt_alone) auto
  moreover have "qid \<notin> job_ids ?db"
    using assms(2) by (auto simp: calm_with_def calm_since_def w w1)
  ultimately show ?thesis
    using assms(2) cs calm_since_write [OF cs assms(1), of qid] by (auto simp: calm_with_def w w1)
qed

lemma calm_submit:
  assumes "Q \<noteq> R"
  shows "keepsC (calm_with Q R db0 X) (submit sd svid Q prio uid err)"
  unfolding submit_def
proof (rule keepsC_bindI [OF calm_uuid4])
  fix w qid w1 r w'
  assume c: "calm_with Q R db0 X w" and u: "uuid4 w = (Inr qid, w1)"
    and f: "bindC (sp_ins_queue qid sd svid Q prio uid None) (\<lambda>_. bindC (wake err) (\<lambda>_.
      bindC (queued_position qid Q) (\<lambda>pos. returnC \<lparr>resp_queue_id = qid, resp_queue_pos = pos\<rparr>))) w1 = (r, w')"
  have rest: "keepsC (calm_with Q R db0 X) (bindC (wake err) (\<lambda>_.
      bindC (queued_position qid Q) (\<lambda>pos. returnC \<lparr>resp_queue_id = qid, resp_queue_pos = pos\<rparr>)))"
    by (intro keepsC_bind calm_wake calm_position keepsC_return)
  from f show "calm_with Q R db0 X w'"
    by (cases rule: bindC_E) (use calm_fresh_write [OF assms c u] keepsC_D [OF rest] in blast)+
qed

lemma calm_cap [intro]: "keepsC (calm_with Q R db0 X) (check_cap rd uid queued)"
  unfolding check_cap_def sp_get_queued_count_def
  by (auto intro!: keepsC_bind keeps_liftR calm_read)

lemma calm_cadence [intro]: "keepsC (calm_with Q R db0 X) (assert_cadence_in_name rd req)"
  unfolding assert_cadence_in_name_def Let_def by (auto intro!: keepsC_bind keeps_liftR)

lemma calm_ins_strategy [intro]: "keepsC (calm_with Q R db0 X) (sp_ins_strategy nm cfg uid sd)"
  unfolding sp_ins_strategy_def
  by (rule calm_other)
    (auto simp: sp_ins_strategy_proc_def insert_version_def Let_def split: if_splits option.splits)

lemma calm_enqueue:
  assumes "ids_ok rd Q R"
  shows "keepsC (calm_with Q R db0 X) (enqueue rd uid req err)"
proof -
  have pr: "keepsC (calm_with Q R db0 X) (priority_of rd nm)" for nm
    by (auto simp: priority_of_def split: sum.split py_exn.split)
  have q: "keepsC (calm_with Q R db0 X) (submit sd svid i prio uid err)"
    if "resolve_queue_status_id rd ''QUEUED'' = Inr i" for i sd svid prio
    using that assms calm_submit by (auto simp: ids_ok_def)
  show ?thesis
    unfolding enqueue_def
    by (intro keepsC_bind calm_cadence calm_status) (auto intro!: keepsC_bind pr q split: prod.split)
qed

lemma calm_cancel:
  assumes "ids_ok rd Q R"
  shows "keepsC (calm_with Q R db0 X) (cancel rd uid qid err)"
proof -
  have target: "i \<noteq> R \<and> i \<noteq> Q"
    if "cancel_target st = Some nm" "resolve_queue_status_id rd nm = Inr i" for st nm i
    using that ids_ok_other [OF assms, of nm i] by (auto simp: cancel_target_def split: if_splits)
  show ?thesis
    unfolding cancel_def
    by (intro calm_active_bind)
      (auto intro!: keepsC_bind calm_status calm_write dest: target split: option.split)
qed

lemma calm_reenqueue:
  assumes "ids_ok rd Q R"
  shows "keepsC (calm_with Q R db0 X) (reenqueue rd uid qid err)"
proof -
  have q: "keepsC (calm_with Q R db0 Y) (submit sd svid i prio uid err)"
    if "resolve_queue_status_id rd ''QUEUED'' = Inr i" for i sd svid prio Y
    using that assms calm_submit by (auto simp: ids_ok_def)
  show ?thesis
    unfolding reenqueue_def
    by (intro calm_active_bind) (auto intro!: keepsC_bind calm_status q)
qed

text \<open>The worker: its result and its promotion touch other tables; its last write ends the job.\<close>

lemma calm_fetch_bind:
  assumes "\<And>x. keepsC (calm_with Q R db0 (insert qid X)) (f x)"
  shows "keepsC (calm_with Q R db0 X) (bindC (fetch_job qid) f)"
proof (rule keepsC_bindI)
  have rd: "keepsC (calm_with Q R db0 X) (sp_get_queue_latest qid)"
    unfolding sp_get_queue_latest_def by (rule calm_read)
  show fetch: "keepsC (calm_with Q R db0 X) (fetch_job qid)"
    unfolding fetch_job_def by (auto intro!: keepsC_bind rd split: option.split)
  fix w x w' r w''
  assume c: "calm_with Q R db0 X w" and a: "fetch_job qid w = (Inr x, w')" and f: "f x w' = (r, w'')"
  obtain db v where w: "w = (db, v)" by (cases w)
  let ?db = "db\<lparr>bt_slots := tl (bt_slots db)\<rparr>"
  have slots: "alone (bt_slots db)" using c by (simp add: calm_with_def calm_since_def w)
  obtain r where "sp_get_queue_latest qid w = (Inr r, w')" "r \<noteq> None"
    using a by (auto simp: fetch_job_def bindC_Inr_iff split: option.splits)
  then have "sp_get_queue_latest_proc qid ?db \<noteq> None" "w' = (?db, v)"
    using slots unfolding sp_get_queue_latest_def w by (auto elim!: on_bt_alone)
  then have "qid \<in> job_ids (fst w')"
    by (auto simp: sp_get_queue_latest_proc_def job_ids_def find_Some_iff split: option.splits)
  moreover have "calm_with Q R db0 X w'" using keepsC_D [OF fetch c a] .
  ultimately have "calm_with Q R db0 (insert qid X) w'" by (simp add: calm_with_def)
  from keepsC_D [OF assms this f] show "calm_with Q R db0 X w''" by (auto intro: calm_with_mono)
qed

lemma calm_ins_result [intro]: "keepsC (calm_with Q R db0 X) (ins_result rid qid payload ms)"
  unfolding ins_result_def
  by (rule calm_other) (auto simp: sp_ins_result_proc_def Let_def split: if_splits option.splits)

lemma calm_flip [intro]: "keepsC (calm_with Q R db0 X) (flip_best sd svid)"
  unfolding flip_best_def
  by (rule calm_other) (auto simp: sp_upd_promote_strategy_proc_def set_best_def Let_def split: if_splits option.splits)

lemma calm_ins_promotion [intro]: "keepsC (calm_with Q R db0 X) (ins_promotion qid sd svid out uid vid gates)"
  unfolding ins_promotion_def by (rule calm_other) (auto simp: sp_ins_promotion_proc_def)

lemma calm_get_result [intro]: "keepsC (calm_with Q R db0 X) (sp_get_result qid sd svid)"
  unfolding sp_get_result_def by (rule calm_other) (auto split: sum.splits)

lemma calm_promotion [intro]: "keepsC (calm_with Q R db0 X) (promotion_run rd j payload qid)"
  unfolding promotion_run_def decide_promotion_def apply_decision_def Let_def sp_get_strategy_def
    fetch_result_payload_def
  by (auto intro!: keepsC_bind keeps_liftR calm_read split: option.split)

lemma calm_attempt [intro]: "keepsC I m \<Longrightarrow> keepsC I (attempt_call m)"
  by (simp add: keepsC_def attempt_call_def)

lemma calm_validated [intro]: "keepsC I (validated v)"
  by (simp add: validated_def split: sum.split)

lemma calm_worker:
  assumes "ids_ok rd Q R"
  shows "keepsC (calm_with Q R db0 X) (worker_run rd validate optimize qid)"
proof -
  have st: "keepsC (calm_with Q R db0 (insert qid X)) (write_state j qid i err)"
    if "resolve_queue_status_id rd nm = Inr i" "nm \<in> {''COMPLETED'', ''FAILED''}" for j i nm err
    using that ids_ok_other [OF assms, of nm i] by (auto simp: write_state_def intro!: calm_write)
  show ?thesis
    unfolding worker_run_def
    by (intro calm_status calm_fetch_bind)
      (auto intro!: keepsC_bind keeps_liftR calm_validated calm_uuid4 calm_ins_result calm_attempt calm_promotion st split: sum.split prod.split)
qed

text \<open>C13: The writers the worker loop shares the queue with keep to its terms. Take an enqueue, a
  cancel, a re-enqueue or a worker process between whose database calls no other session writes the
  queue, any of which may fail. What it leaves in the queue, whether it returns or raises, is the
  result of a sequence of writes none of which says RUNNING, and which say QUEUED only under an id
  that no earlier row and no earlier write of the sequence has.\<close>

theorem other_writers_calm:
  assumes "ids_ok rd Q R" "queue_wf db" "\<forall>s \<in> set (bt_slots db). others s = [] \<and> passed s = 0"
    and "w' \<in> {snd (enqueue rd uid req err (db, t)), snd (cancel rd uid qid err (db, t)),
      snd (reenqueue rd uid qid err (db, t)), snd (worker_main rd validate optimize qid (db, t))}"
  shows "\<exists>ws. calm Q R (job_ids db) ws \<and> queue_rows (fst w') = queue_rows (fold apply_write ws db)"
proof -
  have w: "calm_with Q R db {} (db, t)"
    using calm_since_refl [OF assms(2)] assms(3) by (simp add: calm_with_def alone_def)
  have main: "snd (worker_main rd validate optimize qid (db, t)) = snd (worker_run rd validate optimize qid (db, t))"
    by (auto simp: worker_main_def split: prod.split sum.split bt_exn.split py_exn.split)
  have "calm_with Q R db {} w'"
    using assms(4) keepsC_D [OF calm_enqueue [OF assms(1)] w] keepsC_D [OF calm_cancel [OF assms(1)] w]
      keepsC_D [OF calm_reenqueue [OF assms(1)] w] keepsC_D [OF calm_worker [OF assms(1)] w]
    unfolding main by (metis (no_types) insertE singletonD surjective_pairing)
  then show ?thesis by (simp add: calm_with_def calm_since_def)
qed

text \<open>A cancel of the queued job 7, and a worker on job 8 whose strategy version is missing.\<close>

lemma demo_queue_wf: "queue_wf demo_queue"
  using demo_once by (simp add: queue_once_def)

lemma demo_cancel:
  "map (\<lambda>r. (queue_id r, queue_status_id r)) (queue_rows (fst (snd (cancel seed_refdata ''ann'' 7 None (demo_queue, 0)))))
   = [(7, 6), (8, 1), (7, 1)]"
  by code_simp

theorem other_writers_calm_witness:
  "\<exists>ws. calm 1 2 {7, 8} ws \<and> queue_rows (fst (snd (cancel seed_refdata ''ann'' 7 None (demo_queue, 0))))
     = queue_rows (fold apply_write ws demo_queue) \<and> ws \<noteq> []"
proof -
  have "bt_slots demo_queue = []" "job_ids demo_queue = {7, 8}"
    by (auto simp: demo_queue_def job_ids_def demo_job_def)
  then obtain ws where ws: "calm 1 2 {7, 8} ws"
      "queue_rows (fst (snd (cancel seed_refdata ''ann'' 7 None (demo_queue, 0)))) = queue_rows (fold apply_write ws demo_queue)"
    using other_writers_calm [OF seed_ids_ok demo_queue_wf,
        of "snd (cancel seed_refdata ''ann'' 7 None (demo_queue, 0))" "''ann''" _ None 0 7] by auto
  moreover have "ws \<noteq> []"
    using ws(2) demo_cancel by (auto simp: demo_queue_def demo_job_def)
  ultimately show ?thesis by blast
qed

end
