(* ===== verification/VenueLimits.thy ===== *)
theory VenueLimits
  imports CcxtAdapter
begin

text \<open>
  The cached order-size rules of \<^verbatim>\<open>quant/trade/venue_limits.py\<close>: the publisher that asks each
  exchange for them and the reader the deployment editor uses.

  Redis holds the stamp and, per broker app, a snapshot: a JSON object, or text that does not
  parse. The numbers of a rule are JSON numbers or null, as the publisher writes them. A GET
  fails (with its text) or answers; the publisher's transaction takes effect as a whole.
\<close>

type_synonym venue_rules = "(string \<times> (string \<times> market_limits) list) list"

datatype limits_text = Unreadable | Payload "(string \<times> json) list"

record limits_redis =
  stamp :: "int option"
  snapshots :: "int \<Rightarrow> limits_text option"

section \<open>Snapshots as JSON\<close>

definition rule_json :: "market_limits \<Rightarrow> json" where
  "rule_json l = JObj [(''min_qty'', opt_num (min_qty l)), (''min_notional'', opt_num (min_notional l))]"

definition encode_rules :: "venue_rules \<Rightarrow> (string \<times> json) list" where
  "encode_rules rules = map (\<lambda>(symb, d). (symb, JObj (map (\<lambda>(t, l). (t, rule_json l)) d))) rules"

definition json_number :: "json \<Rightarrow> flt option" where
  "json_number v = (case v of JNum x \<Rightarrow> Some x | JInt i \<Rightarrow> Some (fl (of_int i)) | _ \<Rightarrow> None)"

definition decode_rule :: "string \<Rightarrow> json \<Rightarrow> market_limits option" where
  "decode_rule symb v =
     (case v of
        JObj rule \<Rightarrow> Some \<lparr>lim_symbol = symb, min_qty = json_number (jget ''min_qty'' rule),
                          min_notional = json_number (jget ''min_notional'' rule)\<rparr>
      | _ \<Rightarrow> None)"

definition decode_types :: "string \<Rightarrow> (string \<times> json) list \<Rightarrow> (string \<times> market_limits) list" where
  "decode_types symb d = List.map_filter (\<lambda>(t, r). map_option (\<lambda>l. (t, l)) (decode_rule symb r)) d"

definition decode_rules :: "(string \<times> json) list \<Rightarrow> venue_rules" where
  "decode_rules payload =
     List.map_filter (\<lambda>(symb, v). case v of JObj d \<Rightarrow> Some (symb, decode_types symb d) | _ \<Rightarrow> None) payload"

section \<open>The publisher\<close>

definition publisher_types :: "preset \<Rightarrow> string option list" where
  "publisher_types p =
     (case dedup [] (map snd (default_type_by_issue p)) of [] \<Rightarrow> [None] | ts \<Rightarrow> map Some ts)"

definition type_label :: "string option \<Rightarrow> string" where
  "type_label t = str_or t ''default''"

text \<open>\<open>merged.setdefault(symbol, {})[label] = limits\<close>, symbol by symbol.\<close>

definition types_of :: "venue_rules \<Rightarrow> string \<Rightarrow> (string \<times> market_limits) list" where
  "types_of m symb = (case map_of m symb of None \<Rightarrow> [] | Some d \<Rightarrow> d)"

definition add_limit :: "string \<Rightarrow> venue_rules \<Rightarrow> string \<times> market_limits \<Rightarrow> venue_rules" where
  "add_limit label m = (\<lambda>(symb, l).
     AList.update symb (AList.update label l (types_of m symb)) m)"

fun merge_types ::
  "session_config \<Rightarrow> string option list \<Rightarrow> gateway_state \<Rightarrow> venue_rules \<Rightarrow> (trade_exn + venue_rules) \<times> gateway_state" where
  "merge_types cfg [] s m = (Inr m, s)"
| "merge_types cfg (t # ts) s m =
     (let s1 = pin_default_type t s
      in case fetch_all_market_limits cfg s1 of
           Inl e \<Rightarrow> (Inl e, s1)
         | Inr entries \<Rightarrow> merge_types cfg ts s1 (foldl (add_limit (type_label t)) m entries))"

definition fetch_venue :: "'w ccxt_api \<Rightarrow> preset \<Rightarrow> 'w \<Rightarrow> (trade_exn + venue_rules) \<times> 'w" where
  "fetch_venue api p w =
     (case gateway_connect api (public_session p) direct (new_gateway, w) of
        (Inl e, (s, w1)) \<Rightarrow> (Inl e, w1)
      | (Inr _, (s, w1)) \<Rightarrow>
          (case merge_types (public_session p) (publisher_types p) s [] of
             (r, s') \<Rightarrow> (r, snd (disconnect api (s', w1)))))"

fun fetch_venues :: "'w ccxt_api \<Rightarrow> (int \<times> preset) list \<Rightarrow> 'w \<Rightarrow> (int \<times> venue_rules) list \<Rightarrow> (int \<times> venue_rules) list \<times> 'w" where
  "fetch_venues api [] w got = (got, w)"
| "fetch_venues api ((app, p) # apps) w got =
     (case fetch_venue api p w of
        (Inl e, w') \<Rightarrow> fetch_venues api apps w' got
      | (Inr rules, w') \<Rightarrow> fetch_venues api apps w' (AList.update app rules got))"

definition write_snapshots :: "(int \<times> venue_rules) list \<Rightarrow> limits_redis \<Rightarrow> limits_redis" where
  "write_snapshots got kv =
     \<lparr>stamp = Some ((case stamp kv of None \<Rightarrow> 0 | Some n \<Rightarrow> n) + 1),
      snapshots = foldl (\<lambda>m (app, rules). m(app \<mapsto> Payload (encode_rules rules))) (snapshots kv) got\<rparr>"

definition publish_limits :: "'w ccxt_api \<Rightarrow> (int \<times> preset) list \<Rightarrow> 'w \<times> limits_redis \<Rightarrow> nat \<times> ('w \<times> limits_redis)" where
  "publish_limits api apps = (\<lambda>(w, kv).
     case fetch_venues api apps w [] of
       (got, w') \<Rightarrow> if got = [] then (0, (w', kv)) else (length got, (w', write_snapshots got kv)))"

section \<open>The reader\<close>

record limits_cache =
  by_app :: "(int \<times> venue_rules) list"
  cache_version :: "int option"

definition new_cache :: limits_cache where
  "new_cache = \<lparr>by_app = [], cache_version = None\<rparr>"

definition check_limits_version :: "string + int option \<Rightarrow> limits_cache \<Rightarrow> limits_cache" where
  "check_limits_version ans c =
     (case ans of
        Inl m \<Rightarrow> c
      | Inr v \<Rightarrow> if v \<noteq> cache_version c then \<lparr>by_app = [], cache_version = v\<rparr> else c)"

definition load_limits :: "string + limits_text option \<Rightarrow> venue_rules" where
  "load_limits ans = (case ans of Inr (Some (Payload d)) \<Rightarrow> decode_rules d | _ \<Rightarrow> [])"

definition pick_limits :: "string \<Rightarrow> string option \<Rightarrow> venue_rules \<Rightarrow> market_limits" where
  "pick_limits symb t rules =
     (case map_of rules symb of
        None \<Rightarrow> no_limits symb
      | Some [] \<Rightarrow> no_limits symb
      | Some d \<Rightarrow>
          (case t of
             Some x \<Rightarrow> (case map_of d x of Some l \<Rightarrow> l | None \<Rightarrow> no_limits symb)
           | None \<Rightarrow> if length d = 1 then snd (hd d) else no_limits symb))"

definition get_limits ::
  "int \<Rightarrow> string \<Rightarrow> string option \<Rightarrow> string + int option \<Rightarrow> string + limits_text option \<Rightarrow> limits_cache \<Rightarrow> market_limits \<times> limits_cache" where
  "get_limits app symb t ver_ans text_ans c =
     (let c1 = check_limits_version ver_ans c
      in case map_of (by_app c1) app of
           Some rules \<Rightarrow> (pick_limits symb t rules, c1)
         | None \<Rightarrow>
             (let rules = load_limits text_ans
              in (pick_limits symb t rules, c1\<lparr>by_app := AList.update app rules (by_app c1)\<rparr>)))"

section \<open>What an edit is checked against\<close>

text \<open>The limits of a symbol and a default type in a rules dict.\<close>

definition rule_of :: "venue_rules \<Rightarrow> string \<Rightarrow> string \<Rightarrow> market_limits option" where
  "rule_of m symb t = Option.bind (map_of m symb) (\<lambda>d. map_of d t)"

lemma rule_of_add:
  "rule_of (add_limit label m (symb, l)) x t = (if x = symb \<and> t = label then Some l else rule_of m x t)"
  by (auto simp: rule_of_def add_limit_def types_of_def update_conv' split: option.split)

lemma rule_of_adds:
  "distinct (map fst entries) \<Longrightarrow>
   rule_of (foldl (add_limit label) m entries) x t =
     (if t = label \<and> map_of entries x \<noteq> None then map_of entries x else rule_of m x t)"
proof (induction entries arbitrary: m)
  case (Cons e entries)
  obtain symb l where e: "e = (symb, l)" by (cases e)
  have "map_of entries symb = None"
    using Cons.prems e by (auto simp: map_of_eq_None_iff)
  then show ?case
    using Cons by (auto simp: e rule_of_add)
qed simp

text \<open>What a pinned session lists.\<close>

definition same_markets :: "gateway_state \<Rightarrow> gateway_state \<Rightarrow> bool" where
  "same_markets s s' \<longleftrightarrow> map_option conn_markets (exchange s) = map_option conn_markets (exchange s')"

lemma same_markets_refl [simp]: "same_markets s s"
  by (simp add: same_markets_def)

lemma same_markets_pin: "same_markets s (pin_default_type t s') \<longleftrightarrow> same_markets s s'"
  by (auto simp: same_markets_def pin_default_type_def Let_def split: option.splits)

lemma fetch_all_same:
  assumes "same_markets s s'"
  shows "fetch_all_market_limits cfg (pin_default_type t s) = fetch_all_market_limits cfg (pin_default_type t s')"
  using assms
  by (auto simp: same_markets_def fetch_all_market_limits_def pin_default_type_def Let_def split: option.splits)

lemma distinct_updates: "distinct (map fst m) \<Longrightarrow> distinct (map fst (foldl (\<lambda>out (k, l). AList.update k l out) m es))"
  by (induction es arbitrary: m) (auto simp: distinct_update)

lemma fetch_all_distinct: "fetch_all_market_limits cfg s = Inr es \<Longrightarrow> distinct (map fst es)"
  by (auto simp: fetch_all_market_limits_def Let_def distinct_updates split: option.splits)

lemma merge_types_rules:
  assumes "merge_types cfg ts s m = (Inr rules, s')" "distinct (map type_label ts)"
  shows "(\<forall>t \<in> set ts. \<exists>es. fetch_all_market_limits cfg (pin_default_type t s) = Inr es
      \<and> (\<forall>x. rule_of rules x (type_label t)
            = (if map_of es x \<noteq> None then map_of es x else rule_of m x (type_label t))))
    \<and> (\<forall>x l. l \<notin> type_label ` set ts \<longrightarrow> rule_of rules x l = rule_of m x l)"
  using assms
proof (induction cfg ts s m rule: merge_types.induct)
  case (2 cfg t ts s m)
  let ?s1 = "pin_default_type t s"
  obtain es where es: "fetch_all_market_limits cfg ?s1 = Inr es"
    using "2.prems" by (auto simp: Let_def split: sum.splits)
  let ?m = "foldl (add_limit (type_label t)) m es"
  have rest: "merge_types cfg ts ?s1 ?m = (Inr rules, s')"
    using "2.prems" es by (simp add: Let_def)
  have dist: "distinct (map type_label ts)" "type_label t \<notin> type_label ` set ts"
    using "2.prems" by auto
  note IH = "2.IH" [OF refl es rest dist(1)]
  have add: "rule_of ?m x y = (if y = type_label t \<and> map_of es x \<noteq> None then map_of es x else rule_of m x y)" for x y
    by (rule rule_of_adds [OF fetch_all_distinct [OF es]])
  have other: "type_label u \<noteq> type_label t" if "u \<in> set ts" for u
    using dist(2) that by (metis image_eqI)
  have pin: "fetch_all_market_limits cfg (pin_default_type u ?s1) = fetch_all_market_limits cfg (pin_default_type u s)" for u
    by (rule fetch_all_same) (metis same_markets_pin same_markets_refl same_markets_def)
  show ?case
  proof (intro conjI ballI allI impI)
    fix u assume "u \<in> set (t # ts)"
    then consider "u = t" | "u \<in> set ts" by auto
    then show "\<exists>es. fetch_all_market_limits cfg (pin_default_type u s) = Inr es
      \<and> (\<forall>x. rule_of rules x (type_label u)
            = (if map_of es x \<noteq> None then map_of es x else rule_of m x (type_label u)))"
    proof cases
      case 1
      then show ?thesis using es IH dist(2) add by simp
    next
      case 2
      then show ?thesis using IH add other pin by fastforce
    qed
  next
    fix x l assume "l \<notin> type_label ` set (t # ts)"
    then show "rule_of rules x l = rule_of m x l" using IH add by simp
  qed
qed simp

text \<open>A snapshot survives its JSON, if each rule is filed under its own symbol.\<close>

definition filed :: "venue_rules \<Rightarrow> bool" where
  "filed rules \<longleftrightarrow> (\<forall>(symb, d) \<in> set rules. \<forall>(t, l) \<in> set d. lim_symbol l = symb)"

lemma filedD: "filed rules \<Longrightarrow> (symb, d) \<in> set rules \<Longrightarrow> (t, l) \<in> set d \<Longrightarrow> lim_symbol l = symb"
  by (force simp: filed_def)

lemma json_number_opt_num [simp]: "json_number (opt_num v) = v"
  by (cases v) (simp_all add: json_number_def opt_num_def)

lemma decode_rule_json: "lim_symbol l = symb \<Longrightarrow> decode_rule symb (rule_json l) = Some l"
  by (cases l) (simp add: decode_rule_def rule_json_def)

lemma map_filter_map_Some: "(\<And>x. x \<in> set xs \<Longrightarrow> f (g x) = Some x) \<Longrightarrow> List.map_filter f (map g xs) = xs"
  by (induction xs) (simp_all add: List.map_filter_simps)

lemma decode_types_json:
  "(\<And>t l. (t, l) \<in> set d \<Longrightarrow> lim_symbol l = symb) \<Longrightarrow>
   decode_types symb (map (\<lambda>(t, l). (t, rule_json l)) d) = d"
  unfolding decode_types_def by (rule map_filter_map_Some) (auto simp: decode_rule_json)

lemma decode_encode: "filed rules \<Longrightarrow> decode_rules (encode_rules rules) = rules"
  unfolding decode_rules_def encode_rules_def
  by (rule map_filter_map_Some) (auto intro!: decode_types_json dest: filedD)

lemma filed_update:
  "filed m \<Longrightarrow> (\<And>t l. (t, l) \<in> set d \<Longrightarrow> lim_symbol l = symb) \<Longrightarrow> filed (AList.update symb d m)"
  using set_update_subset [of symb d m] by (fastforce simp: filed_def)

lemma filed_add: "filed m \<Longrightarrow> lim_symbol l = symb \<Longrightarrow> filed (add_limit label m (symb, l))"
proof -
  assume f: "filed m" and l: "lim_symbol l = symb"
  let ?d = "types_of m symb"
  have "lim_symbol k = symb" if "(t, k) \<in> set ?d" for t k
    using that filedD [OF f map_of_SomeD] by (cases "map_of m symb") (auto simp: types_of_def)
  then have "lim_symbol k = symb" if "(t, k) \<in> set (AList.update label l ?d)" for t k
    using that l set_update_subset [of label l ?d] by auto
  then show ?thesis
    using filed_update [OF f] by (simp add: add_limit_def)
qed

lemma filed_adds:
  "filed m \<Longrightarrow> (\<And>s l. (s, l) \<in> set entries \<Longrightarrow> lim_symbol l = s) \<Longrightarrow> filed (foldl (add_limit label) m entries)"
  by (induction entries arbitrary: m) (auto intro: filed_add)

lemma updates_subset: "set (foldl (\<lambda>out (k, l). AList.update k l out) m es) \<subseteq> set m \<union> set es"
proof (induction es arbitrary: m)
  case (Cons e es)
  obtain k l where e: "e = (k, l)" by (cases e)
  show ?case
    using Cons [of "AList.update k l m"] set_update_subset [of k l m] by (auto simp: e)
qed simp

lemma fetch_all_filed:
  assumes "fetch_all_market_limits cfg s = Inr es" "(x, l) \<in> set es"
  shows "lim_symbol l = x"
proof -
  obtain ms where "es = foldl (\<lambda>out (k, l). AList.update k l out) [] (concat (map limit_entries ms))"
    using assms(1) by (auto simp: fetch_all_market_limits_def Let_def split: option.splits)
  then have "(x, l) \<in> set (concat (map limit_entries ms))"
    using assms(2) updates_subset [of "[]" "concat (map limit_entries ms)"] by auto
  then show ?thesis
    by (auto simp: limit_entries_def limits_of_def List.map_filter_def split: if_splits)
qed

lemma merge_types_filed:
  "merge_types cfg ts s m = (Inr rules, s') \<Longrightarrow> filed m \<Longrightarrow> filed rules"
  by (induction cfg ts s m rule: merge_types.induct)
    (auto simp: Let_def split: sum.splits intro: filed_adds dest: fetch_all_filed)

text \<open>The labels a symbol's rules are filed under.\<close>

definition labelled :: "string set \<Rightarrow> venue_rules \<Rightarrow> bool" where
  "labelled L rules \<longleftrightarrow> (\<forall>(symb, d) \<in> set rules. distinct (map fst d) \<and> fst ` set d \<subseteq> L)"

lemma labelledD: "labelled L rules \<Longrightarrow> (symb, d) \<in> set rules \<Longrightarrow> distinct (map fst d) \<and> fst ` set d \<subseteq> L"
  by (force simp: labelled_def)

lemma labelled_update:
  assumes "labelled L m" "distinct (map fst d)" "fst ` set d \<subseteq> L"
  shows "labelled L (AList.update symb d m)"
  unfolding labelled_def
proof
  fix x assume "x \<in> set (AList.update symb d m)"
  then have "x = (symb, d) \<or> x \<in> set m" using set_update_subset [of symb d m] by blast
  then show "case x of (symb, d) \<Rightarrow> distinct (map fst d) \<and> fst ` set d \<subseteq> L"
    using assms(2,3) labelledD [OF assms(1), of "fst x" "snd x"] by (cases x) (simp, blast)
qed

lemma labelled_add:
  assumes "labelled L m" "label \<in> L"
  shows "labelled L (add_limit label m (symb, l))"
proof -
  let ?d = "types_of m symb"
  have "distinct (map fst ?d)" "fst ` set ?d \<subseteq> L"
    using labelledD [OF assms(1) map_of_SomeD] by (cases "map_of m symb"; auto simp: types_of_def)+
  then have "distinct (map fst (AList.update label l ?d))" "fst ` set (AList.update label l ?d) \<subseteq> L"
    using assms(2) by (simp_all add: distinct_update dom_update)
  then show ?thesis
    using labelled_update [OF assms(1)] by (simp add: add_limit_def)
qed

lemma labelled_adds: "labelled L m \<Longrightarrow> label \<in> L \<Longrightarrow> labelled L (foldl (add_limit label) m entries)"
  by (induction entries arbitrary: m) (auto intro: labelled_add)

lemma merge_types_labelled:
  "merge_types cfg ts s m = (Inr rules, s') \<Longrightarrow> type_label ` set ts \<subseteq> L \<Longrightarrow> labelled L m \<Longrightarrow> labelled L rules"
  by (induction cfg ts s m rule: merge_types.induct)
    (auto simp: Let_def split: sum.splits intro: labelled_adds)

definition or_none :: "string \<Rightarrow> market_limits option \<Rightarrow> market_limits" where
  "or_none symb l = (case l of Some x \<Rightarrow> x | None \<Rightarrow> no_limits symb)"

lemma pick_some: "pick_limits x (Some t) rules = or_none x (rule_of rules x t)"
  by (simp add: pick_limits_def or_none_def rule_of_def split: option.split list.split)

lemma pick_none:
  assumes "labelled {t} rules"
  shows "pick_limits x None rules = or_none x (rule_of rules x t)"
proof (cases "map_of rules x")
  case (Some d)
  then have d: "distinct (map fst d)" "fst ` set d \<subseteq> {t}"
    using labelledD [OF assms map_of_SomeD] by auto
  show ?thesis
  proof (cases d)
    case (Cons e es)
    then have "fst e = t" "es = []" using d by (cases es; force)+
    then show ?thesis using Some Cons by (cases e) (simp add: pick_limits_def or_none_def rule_of_def)
  qed (use Some in \<open>simp add: pick_limits_def or_none_def rule_of_def\<close>)
qed (simp add: pick_limits_def or_none_def rule_of_def)

text \<open>What the session of a fetch lists for a symbol when pinned to a default type.\<close>

definition listed :: "preset \<Rightarrow> gateway_state \<Rightarrow> string option \<Rightarrow> string \<Rightarrow> market_limits" where
  "listed p s t x =
     (case fetch_all_market_limits (public_session p) (pin_default_type t s) of
        Inr es \<Rightarrow> or_none x (map_of es x) | Inl e \<Rightarrow> no_limits x)"

definition types_named :: "preset \<Rightarrow> bool" where
  "types_named p \<longleftrightarrow> [] \<notin> snd ` set (default_type_by_issue p)"

lemma publisher_types_cases:
  assumes "types_named p"
  shows "publisher_types p = [None] \<or> distinct (map type_label (publisher_types p))
    \<and> (\<forall>t \<in> set (publisher_types p). t = Some (type_label t))"
proof -
  let ?ts = "dedup [] (map snd (default_type_by_issue p))"
  have "type_label (Some t) = t" if "t \<in> set ?ts" for t
    using assms that by (force simp: types_named_def set_dedup type_label_def str_or_def truthy_iff)
  then have "map (type_label \<circ> Some) ?ts = ?ts" "\<forall>t \<in> set ?ts. type_label (Some t) = t"
    by (auto intro: map_idI)
  then show ?thesis
    using distinct_dedup [of "[]" "map snd (default_type_by_issue p)"]
    by (auto simp: publisher_types_def split: list.splits)
qed

lemma fetch_venue_rules:
  assumes "fetch_venue api p w = (Inr rules, w')" "types_named p"
  obtains s w1 where "gateway_connect api (public_session p) direct (new_gateway, w) = (Inr (), (s, w1))"
    and "filed rules"
    and "\<And>t x. t \<in> set (publisher_types p) \<Longrightarrow> pick_limits x t rules = listed p s t x"
proof -
  obtain s w1 s' where conn: "gateway_connect api (public_session p) direct (new_gateway, w) = (Inr (), (s, w1))"
    and m: "merge_types (public_session p) (publisher_types p) s [] = (Inr rules, s')"
    using assms(1) by (auto simp: fetch_venue_def split: prod.splits sum.splits)
  have dist: "distinct (map type_label (publisher_types p))"
    using publisher_types_cases [OF assms(2)] by auto
  have nil: "rule_of [] x y = None" for x y by (simp add: rule_of_def)
  have lst: "listed p s t x = or_none x (rule_of rules x (type_label t))" if "t \<in> set (publisher_types p)" for t x
    using merge_types_rules [OF m dist] that nil by (fastforce simp: listed_def)
  have "pick_limits x t rules = listed p s t x" if t: "t \<in> set (publisher_types p)" for t x
  proof (cases t)
    case None
    then have "publisher_types p = [None]"
      using publisher_types_cases [OF assms(2)] t by fastforce
    then have "labelled {type_label None} rules"
      using merge_types_labelled [OF m, of "{type_label None}"] by (simp add: labelled_def)
    then show ?thesis using lst [OF t] pick_none None by simp
  next
    case (Some y)
    then have "type_label t = y"
      using publisher_types_cases [OF assms(2)] t by auto
    then show ?thesis using lst [OF t] Some pick_some by simp
  qed
  moreover have "filed rules"
    using merge_types_filed [OF m] by (simp add: filed_def)
  ultimately show thesis using that conn by blast
qed

lemma merge_types_answers: "exchange s \<noteq> None \<Longrightarrow> \<exists>rules s'. merge_types cfg ts s m = (Inr rules, s')"
proof (induction ts arbitrary: s m)
  case (Cons t ts)
  have "exchange (pin_default_type t s) \<noteq> None"
    using Cons.prems by (auto simp: pin_default_type_def Let_def)
  then show ?case
    using Cons.IH [of "pin_default_type t s"]
    by (auto simp: Let_def fetch_all_market_limits_def split: option.splits sum.splits)
qed simp

text \<open>A fetch answers exactly when the public session connects.\<close>

lemma fetch_venue_connects:
  "fst (fetch_venue api p w) = Inl e \<longleftrightarrow> fst (gateway_connect api (public_session p) direct (new_gateway, w)) = Inl e"
proof -
  obtain x s w1 where c: "gateway_connect api (public_session p) direct (new_gateway, w) = (x, (s, w1))"
    by (metis surj_pair)
  show ?thesis
  proof (cases x)
    case (Inr y)
    then have "exchange s \<noteq> None"
      using c by (auto simp: gateway_connect_def Let_def split: sum.splits prod.splits ccxt_exn.splits)
    from merge_types_answers [OF this, of "public_session p" "publisher_types p" "[]"]
    obtain rules s' where "merge_types (public_session p) (publisher_types p) s [] = (Inr rules, s')" by blast
    with c Inr show ?thesis by (simp add: fetch_venue_def)
  qed (simp add: fetch_venue_def c)
qed

text \<open>The venues in the order they are asked, each with the state of the outside it is asked in: the
  one the venue before left, whether it answered or not.\<close>

fun visits :: "'w ccxt_api \<Rightarrow> (int \<times> preset) list \<Rightarrow> 'w \<Rightarrow> (int \<times> preset \<times> 'w) list" where
  "visits api [] w = []"
| "visits api ((app, p) # apps) w = (app, p, w) # visits api apps (snd (fetch_venue api p w))"

lemma visits_apps: "map (\<lambda>(app, p, u). (app, p)) (visits api apps w) = apps"
  by (induction api apps w rule: visits.induct) simp_all

lemma visits_app: "(app, p, u) \<in> set (visits api apps w) \<Longrightarrow> (app, p) \<in> set apps"
  using visits_apps [of api apps w] by (metis (mono_tags, lifting) case_prod_conv image_eqI set_map)

lemma length_update_new: "k \<notin> fst ` set al \<Longrightarrow> length (AList.update k v al) = Suc (length al)"
  by (induction al) auto

lemma fetch_venues_got:
  assumes "fetch_venues api apps w got0 = (got, w')" "distinct (map fst apps)"
    and "distinct (map fst got0)" "fst ` set got0 \<inter> fst ` set apps = {}"
  shows "distinct (map fst got)
    \<and> length got = length got0 + length (filter (\<lambda>(app, p, u). \<not> isl (fst (fetch_venue api p u))) (visits api apps w))
    \<and> (\<forall>app. app \<notin> fst ` set apps \<longrightarrow> map_of got app = map_of got0 app)
    \<and> (\<forall>(app, p, u) \<in> set (visits api apps w).
         map_of got app = (case fst (fetch_venue api p u) of Inr rules \<Rightarrow> Some rules | Inl e \<Rightarrow> None))"
  using assms
proof (induction api apps w got0 rule: fetch_venues.induct)
  case (2 api app p apps w got0)
  obtain r w2 where r: "fetch_venue api p w = (r, w2)" by (cases "fetch_venue api p w")
  have new: "app \<notin> fst ` set got0" "app \<notin> fst ` set apps" "distinct (map fst apps)" using "2.prems" by auto
  then have none: "map_of got0 app = None" by (simp add: map_of_eq_None_iff)
  show ?case
  proof (cases r)
    case (Inl e)
    have "fetch_venues api apps w2 got0 = (got, w')" "fst ` set got0 \<inter> fst ` set apps = {}"
      using "2.prems" r Inl by auto
    from "2.IH"(1) [OF r [symmetric] Inl this(1) new(3) "2.prems"(3) this(2)] r Inl none new show ?thesis
      by (auto simp: image_iff)
  next
    case (Inr rules)
    have run: "fetch_venues api apps w2 (AList.update app rules got0) = (got, w')"
      using "2.prems" r Inr by simp
    have d: "distinct (map fst (AList.update app rules got0))"
      "fst ` set (AList.update app rules got0) \<inter> fst ` set apps = {}"
      using "2.prems" new by (auto simp: distinct_update dom_update)
    from "2.IH"(2) [OF r [symmetric] Inr run new(3) d] r Inr new show ?thesis
      by (auto simp: length_update_new update_conv' image_iff)
  qed
qed auto

lemma snapshots_write:
  assumes "distinct (map fst got)"
  shows "snapshots (write_snapshots got kv) app =
    (case map_of got app of Some rules \<Rightarrow> Some (Payload (encode_rules rules)) | None \<Rightarrow> snapshots kv app)"
proof -
  have "foldl (\<lambda>m (app, rules). m(app \<mapsto> Payload (encode_rules rules))) m got app
      = (case map_of got app of Some rules \<Rightarrow> Some (Payload (encode_rules rules)) | None \<Rightarrow> m app)" for m
    using assms
  proof (induction got arbitrary: m)
    case (Cons e got)
    obtain a r where e: "e = (a, r)" by (cases e)
    have "map_of got a = None" using Cons.prems e by (simp add: map_of_eq_None_iff)
    then show ?case using Cons e by (cases "app = a") simp_all
  qed simp
  then show ?thesis by (simp add: write_snapshots_def)
qed

text \<open>C35: What the deployment editor checks a quantity against is what the exchange listed. A
  publish asks every configured app once, in order, each in the state the one before left, whether
  that one answered or not, and reports how many could be reached. For each app whose public
  session connected, a reader that has seen no stamp newer than the one replaced then serves, for
  every symbol and every default type the preset maps, the limits that session lists when pinned to
  that type (none when it does not list the symbol there). An app that could not be reached keeps
  its snapshot, and so does every other.\<close>

theorem published_limits_served:
  assumes "publish_limits api apps (w, kv) = (n, (w', kv'))" "\<forall>(app, p) \<in> set apps. types_named p"
    and "distinct (map fst apps)"
    and "cache_version c = None \<or> (\<exists>i k. cache_version c = Some i \<and> stamp kv = Some k \<and> i \<le> k)"
  shows "map (\<lambda>(app, p, u). (app, p)) (visits api apps w) = apps
    \<and> n = length (filter (\<lambda>(app, p, u).
            \<not> isl (fst (gateway_connect api (public_session p) direct (new_gateway, u)))) (visits api apps w))
    \<and> (\<forall>(app, p, u) \<in> set (visits api apps w).
         case gateway_connect api (public_session p) direct (new_gateway, u) of
           (Inl e, v) \<Rightarrow> snapshots kv' app = snapshots kv app
         | (Inr z, (s, v)) \<Rightarrow>
             (\<forall>t x. (if default_type_by_issue p = [] then t = None else t \<in> (Some \<circ> snd) ` set (default_type_by_issue p)) \<longrightarrow>
                fst (get_limits app x t (Inr (stamp kv')) (Inr (snapshots kv' app)) c) = listed p s t x))
    \<and> (\<forall>app. app \<notin> fst ` set apps \<longrightarrow> snapshots kv' app = snapshots kv app)"
proof -
  obtain got where got: "fetch_venues api apps w [] = (got, w')"
    and n: "n = length got" and kv': "kv' = (if got = [] then kv else write_snapshots got kv)"
    using assms(1) by (auto simp: publish_limits_def split: prod.splits if_splits)
  have dist: "distinct (map fst got)"
    and len: "length got = length (filter (\<lambda>(app, p, u). \<not> isl (fst (fetch_venue api p u))) (visits api apps w))"
    and other: "\<And>app. app \<notin> fst ` set apps \<Longrightarrow> map_of got app = None"
    and asked: "\<And>app p u. (app, p, u) \<in> set (visits api apps w) \<Longrightarrow>
      map_of got app = (case fst (fetch_venue api p u) of Inr rules \<Rightarrow> Some rules | Inl e \<Rightarrow> None)"
    using fetch_venues_got [OF got assms(3)] by auto
  have kept: "snapshots kv' app = snapshots kv app" if "map_of got app = None" for app
    using kv' dist that by (simp add: snapshots_write)
  have answers: "isl (fst (fetch_venue api p u)) =
      isl (fst (gateway_connect api (public_session p) direct (new_gateway, u)))" for p u
    using fetch_venue_connects [of api p u] by (metis sum.collapse(1) sum.disc(1))
  have types: "set (publisher_types p) = {t. if default_type_by_issue p = [] then t = None
      else t \<in> (Some \<circ> snd) ` set (default_type_by_issue p)}" for p
  proof (cases "default_type_by_issue p = []")
    case False
    have d: "set (dedup [] (map snd (default_type_by_issue p))) = snd ` set (default_type_by_issue p)"
      by (simp add: set_dedup)
    then have "dedup [] (map snd (default_type_by_issue p)) \<noteq> []" using False by auto
    then have "publisher_types p = map Some (dedup [] (map snd (default_type_by_issue p)))"
      by (simp add: publisher_types_def split: list.split)
    then show ?thesis using d False by (simp add: image_image)
  qed (simp add: publisher_types_def)
  have served: "case gateway_connect api (public_session p) direct (new_gateway, u) of
           (Inl e, v) \<Rightarrow> snapshots kv' app = snapshots kv app
         | (Inr z, (s, v)) \<Rightarrow> (\<forall>t x. t \<in> set (publisher_types p) \<longrightarrow>
             fst (get_limits app x t (Inr (stamp kv')) (Inr (snapshots kv' app)) c) = listed p s t x)"
    if v: "(app, p, u) \<in> set (visits api apps w)" for app p u
  proof (cases "fetch_venue api p u")
    case (Pair x u')
    show ?thesis
    proof (cases x)
      case (Inl e)
      then have "fst (gateway_connect api (public_session p) direct (new_gateway, u)) = Inl e"
        using fetch_venue_connects [of api p u e] Pair by simp
      then show ?thesis
        using kept [of app] asked [OF v] Pair Inl by (auto split: prod.splits)
    next
      case (Inr rules)
      have "types_named p" using assms(2) visits_app [OF v] by auto
      then obtain s u2 where s: "gateway_connect api (public_session p) direct (new_gateway, u) = (Inr (), (s, u2))"
        "filed rules" "\<And>t x. t \<in> set (publisher_types p) \<Longrightarrow> pick_limits x t rules = listed p s t x"
        using fetch_venue_rules [of api p u rules u'] Pair Inr by blast
      have m: "map_of got app = Some rules" using asked [OF v] Pair Inr by simp
      then have kv: "kv' = write_snapshots got kv" using kv' by auto
      then have "snapshots kv' app = Some (Payload (encode_rules rules))"
        using m dist by (simp add: snapshots_write)
      moreover have "stamp kv' \<noteq> cache_version c"
        using assms(4) kv by (auto simp: write_snapshots_def)
      ultimately have "fst (get_limits app x t (Inr (stamp kv')) (Inr (snapshots kv' app)) c) = pick_limits x t rules" for x t
        by (simp add: get_limits_def check_limits_version_def load_limits_def decode_encode [OF s(2)] Let_def)
      with s show ?thesis by simp
    qed
  qed
  show ?thesis
  proof (intro conjI)
    show "map (\<lambda>(app, p, u). (app, p)) (visits api apps w) = apps" by (rule visits_apps)
    show "n = length (filter (\<lambda>(app, p, u).
            \<not> isl (fst (gateway_connect api (public_session p) direct (new_gateway, u)))) (visits api apps w))"
      using n len by (simp only: answers)
    show "\<forall>app. app \<notin> fst ` set apps \<longrightarrow> snapshots kv' app = snapshots kv app"
      using kept other by blast
  qed (use served in \<open>fastforce simp: types split: prod.splits sum.splits\<close>)
qed

text \<open>One id that names the spot pair and the perpetual, with different lots.\<close>

definition btc_market :: "string \<Rightarrow> string \<Rightarrow> flt \<Rightarrow> market" where
  "btc_market unified flag lot =
     \<lparr>mk_id = Some ''BTCUSDT'', mk_symbol = Some unified, mk_base = None, mk_flags = [flag],
      mk_min_amount = RawNum lot, mk_min_cost = RawNone\<rparr>"

definition two_markets :: "unit ccxt_api" where
  "two_markets = demo_exchange\<lparr>api_load_markets := (\<lambda>c w.
     (Inr [btc_market ''BTC/USDT'' ''spot'' (Fin 2), btc_market ''BTC/USDT:USDT'' ''linear'' (Fin 3)], w))\<rparr>"

definition no_snapshots :: limits_redis where
  "no_snapshots = \<lparr>stamp = None, snapshots = (\<lambda>_. None)\<rparr>"

lemma two_markets_session:
  "case gateway_connect two_markets (public_session bybit_preset) direct (new_gateway, ()) of (r, (s, w)) \<Rightarrow>
     min_qty (listed bybit_preset s (Some ''spot'') ''BTCUSDT'') = Some (Fin 2)
     \<and> min_qty (listed bybit_preset s (Some ''linear'') ''BTCUSDT'') = Some (Fin 3)"
  by code_simp

theorem published_limits_served_witness:
  "\<exists>kv c. publish_limits two_markets [(4, bybit_preset)] ((), no_snapshots) = (1, ((), kv))
     \<and> min_qty (fst (get_limits 4 ''BTCUSDT'' (Some ''spot'') (Inr (stamp kv)) (Inr (snapshots kv 4)) c)) = Some (Fin 2)
     \<and> min_qty (fst (get_limits 4 ''BTCUSDT'' (Some ''linear'') (Inr (stamp kv)) (Inr (snapshots kv 4)) c)) = Some (Fin 3)"
proof -
  obtain kv where pub: "publish_limits two_markets [(4, bybit_preset)] ((), no_snapshots) = (1, ((), kv))"
  proof -
    have "fst (publish_limits two_markets [(4, bybit_preset)] ((), no_snapshots)) = 1" by code_simp
    then show thesis using that by (metis prod.collapse old.unit.exhaust)
  qed
  have types: "publisher_types bybit_preset = [Some ''spot'', Some ''linear'']" "types_named bybit_preset"
    by (simp_all add: publisher_types_def types_named_def bybit_preset_def)
  have ok: "\<not> isl (fst (gateway_connect two_markets (public_session bybit_preset) direct (new_gateway, ())))"
    by code_simp
  then have "fst (gateway_connect two_markets (public_session bybit_preset) direct (new_gateway, ())) = Inr ()"
    by (metis sum.collapse(2) old.unit.exhaust)
  then obtain s w2 where s: "gateway_connect two_markets (public_session bybit_preset) direct (new_gateway, ()) = (Inr (), (s, w2))"
    by (metis prod.collapse)
  have "fst (get_limits 4 x t (Inr (stamp kv)) (Inr (snapshots kv 4)) new_cache) = listed bybit_preset s t x"
    if "t \<in> {Some ''spot'', Some ''linear''}" for t x
    using published_limits_served [OF pub, of new_cache] types that s by (auto simp: new_cache_def bybit_preset_def)
  then show ?thesis
    using pub two_markets_session s by (intro exI [of _ kv] exI [of _ new_cache]) simp
qed

end
