(* ===== verification/Spec2Isabelle.thy ===== *)
theory Spec2Isabelle
  imports Intervals Orders OrderPolicy TradeDb Tick CcxtApi BarFetch PriceBars PriceBarDb BarWarm Subscriptions
    Venue Gateway KeyRouting CcxtAdapter LiveApply
    StrategyConfig SearchProps EvalDemo DryRun RefData BtDb WorkerLoop RunOrder CancelTick Promotion Jobs VenueLimits Deployments
begin

text \<open>
  A verification library of a trading platform (the Python package \<^verbatim>\<open>quant/\<close>, with the
  PostgreSQL procedures under \<^verbatim>\<open>db/liquidbase/\<close>). Strategies are searched and tested on price
  series; a strategy version that wins is promoted; a deployment of it is applied to a broker
  account at every slot of its interval.

  \<^bold>\<open>The parts and how they meet.\<close> The API enqueues a back-test as a row of \<open>BT.QUEUE\<close>; the worker
  loop claims rows in run order and starts one process per job; the process loads the series of
  the request (stored venue bars or the cache of a provider), searches the parameters, writes the
  result and may promote the strategy. A deployment names a strategy version, an instrument and a
  broker account. The scheduler finds the deployments whose slot has come, and for each runs the
  apply cycle: load fresh series, compute the position the strategy wants, read the position of
  the account, place at most one order at a time, and write what happened into three diaries. The
  warmer keeps the stored bars of every deployed series up to date.

  \<^bold>\<open>Conventions\<close> (\<open>Prelude\<close>, \<open>PyFloat\<close>). A Python call that changes something is a \<open>call\<close>: a
  function from a state to a result (\<open>Inl\<close> an exception, \<open>Inr\<close> the value) and the state after it,
  also after an exception; \<open>bindC\<close> is sequencing. Python integers are \<open>int\<close>. A \<open>float\<close> is a rational,
  an infinity or NaN, with round to nearest even after every operation. Strings are lists of
  bytes. A time is an \<open>int\<close> of microseconds. A table is the list of its rows, newest first, and a
  stored procedure is a function on it that takes effect as a whole or not at all; a version
  window that is still open is a flag of the row. What other
  processes, the network and the operating system do is an input of the model: a list of faults,
  of rows that arrive between two calls, of answers of Redis.

  \<^bold>\<open>Trading.\<close>
  \<^item> \<open>Intervals\<close> (\<^verbatim>\<open>shared/intervals.py\<close>): bar boundaries and slots. \<open>Orders\<close>
    (\<^verbatim>\<open>trade/models/\<close>, \<^verbatim>\<open>trade/errors.py\<close>): the value objects.
  \<^item> \<open>OrderPolicy\<close> (\<^verbatim>\<open>trade/order_policy.py\<close>): the action for a signal and a position
    (\<open>intended_action\<close>, \<open>order_for\<close>) and the executor with its retries (\<open>execute\<close>). The lemmas: the
    loop returns within \<open>max_attempts\<close>; no order is placed while an earlier one is unaccounted for;
    no order crosses zero; two full fills bring any position to the side of its signal, and there
    it stays.
  \<^item> \<open>TradeDb\<close> (\<^verbatim>\<open>trade/db_repo.py\<close>, \<^verbatim>\<open>db/liquidbase/trade\<close>): versioned deployments, cursors and
    diaries. \<open>Tick\<close> (\<^verbatim>\<open>trade/scheduler/\<close>): one pass over an interval, the sweep and the drain. The
    lemmas: each due deployment is tried a bounded number of times, an applied one's cursor moves
    by one period, a paused one's is gone, and no other cursor moves.
  \<^item> \<open>CcxtApi\<close>, \<open>Venue\<close>, \<open>Gateway\<close>, \<open>KeyRouting\<close>, \<open>CcxtAdapter\<close> (\<^verbatim>\<open>trade/brokers/ccxt/\<close>,
    \<^verbatim>\<open>trade/key_profiles.py\<close>, \<^verbatim>\<open>trade/registry.py\<close>): the session with an exchange, the choice of a
    way out the key is allowed on, placing an order and confirming it. The lemmas:
    connecting succeeds exactly when the key is allowed on some route the environment lists; every
    result of \<open>place_order\<close> says what became of the order.
  \<^item> \<open>LiveApply\<close> (\<^verbatim>\<open>trade/live_apply.py\<close>, \<^verbatim>\<open>trade/bar_source.py\<close>): the apply cycle over any
    evaluation; \<open>LiveSignal\<close> puts the modelled evaluation in. The lemmas: one intent precedes
    any order, every attempt of the cycle's one run of the executor has its row, and the signal of
    the intent is the engine's latest position on complete series for the stored configuration.
  \<^item> \<open>DryRun\<close> (\<^verbatim>\<open>trade/dry_run.py\<close>, \<^verbatim>\<open>account.py\<close>): the preview of a deployment and the account
    snapshot. The lemma: the preview shows the signal an apply computes and the order its executor
    places first.
  \<^item> \<open>Deployments\<close> (\<^verbatim>\<open>trade/service.py\<close>, \<^verbatim>\<open>trade/schedule_policy.py\<close>,
    \<^verbatim>\<open>trade/schedule_align.py\<close>, \<^verbatim>\<open>schemas/deployments.py\<close>): create, edit and stop. \<open>VenueLimits\<close>
    (\<^verbatim>\<open>trade/venue_limits.py\<close>): the order-size rules in Redis. The lemmas: who may create what,
    which edits move the cursor, that a stopped deployment is not due, that the limits of every
    venue that could be reached are served and the others kept.

  \<^bold>\<open>Market data.\<close>
  \<^item> \<open>BarFetch\<close>, \<open>PriceBars\<close>, \<open>PriceBarDb\<close>, \<open>BarWarm\<close> (\<^verbatim>\<open>market_data/fetcher.py\<close>, \<^verbatim>\<open>service.py\<close>,
    \<^verbatim>\<open>repo.py\<close>, \<^verbatim>\<open>warm.py\<close>, \<^verbatim>\<open>db/liquidbase/market_data\<close>): paged reads of an exchange, the stored
    bars, gaps, backfill and its plan, the pass that warms every series. The lemmas: paging misses
    no bar, the freshness gate returns only with the newest closed bar stored and leaves no hole
    among or after what it fetched, a backfill returns, stores what is served and reports the rest.
  \<^item> \<open>ApiCache\<close> (\<^verbatim>\<open>data/backtest_cache.py\<close>): the versioned cache of provider series; a refresh stores
    every answer that is not empty, and that is what a read gives. \<open>Instruments\<close> (\<^verbatim>\<open>data/instruments.py\<close>, \<^verbatim>\<open>db/liquidbase/inst\<close>):
    products, the symbols of venues, the cache of the process; creating an instrument lists
    exactly it. \<open>Subscriptions\<close> (\<^verbatim>\<open>market_data/subscriptions.py\<close>, \<^verbatim>\<open>series_subscr.py\<close>): standing
    requests to keep a series; what is subscribed on a known interval is visited by the next warm
    pass.

  \<^bold>\<open>Strategies.\<close>
  \<^item> \<open>Signals\<close>, \<open>StrategyConfig\<close> (\<^verbatim>\<open>strategy/signals.py\<close>): signal functions, the combination of
    factors, a strategy and its JSON document. \<open>Performance\<close> (\<^verbatim>\<open>strategy/indicators.py\<close>,
    \<^verbatim>\<open>performance.py\<close>): indicators, positions, profit and metrics. \<open>NoLookahead\<close>: a position depends
    on no later bar.
  \<^item> \<open>Optimizer\<close>, \<open>SearchProps\<close> (\<^verbatim>\<open>strategy/objective.py\<close>, \<^verbatim>\<open>optimizer.py\<close>, \<^verbatim>\<open>walk_forward.py\<close>):
    the searches and the walk-forward test. The lemmas: the array program of the objective is the
    reported metric, an exhaustive search finds the best of its grid, the out-of-sample part does
    not reach the choice.
  \<^item> \<open>DataLoad\<close>, \<open>BacktestRun\<close> (\<^verbatim>\<open>strategy/backtest_service.py\<close>, \<^verbatim>\<open>schemas/backtest.py\<close>): loading the
    series of a request with the guards on them, and the entry points. \<open>LiveEval\<close>
    (\<^verbatim>\<open>strategy/live_service.py\<close>): the evaluation of a saved strategy on fresh series.
    \<open>EvalProps\<close>, \<open>LiveProps\<close>: what both promise, and that they read the same series; \<open>EvalDemo\<close>: small
    runs of both.

  \<^bold>\<open>Back-test queue and reference data.\<close>
  \<^item> \<open>RefData\<close> (\<^verbatim>\<open>refdata/\<close>): the snapshots in Redis, their publisher and the cache of a reader.
  \<^item> \<open>BtDb\<close> (\<^verbatim>\<open>queue/repo.py\<close>, \<^verbatim>\<open>db/liquidbase/bt\<close>): queue, strategy, result and promotion tables.
    \<open>WorkerLoop\<close> (\<^verbatim>\<open>queue/worker_loop.py\<close>, \<^verbatim>\<open>wake.py\<close>), \<open>RunOrder\<close>, \<open>CancelTick\<close>: the loop; no job
    runs twice, jobs run in order, a cancel is honoured in one tick.
  \<^item> \<open>Promotion\<close> (\<^verbatim>\<open>promotion/\<close>, \<^verbatim>\<open>queue/result_metrics.py\<close>): the decision equals the declared policy.
    \<open>Jobs\<close> (\<^verbatim>\<open>api/services/\<close>, \<^verbatim>\<open>queue/worker.py\<close>): the other writers of the queue, which keep to the
    terms the loop relies on.

  \<^bold>\<open>Interfaces.\<close> Four contracts are locales, each interpreted on the code's model where that is
  defined: \<open>schedule_store\<close> (what a tick needs of the cursors; \<open>db_store\<close>, on the procedures of
  \<open>TradeDb\<close>), \<open>acknowledging_broker\<close> (a success names its order; \<open>ccxt_broker\<close>, on the ccxt adapter),
  \<open>bar_store\<close> (the stored bars as a map from boundaries; \<open>bar_db\<close>, on the bar procedures) and
  \<open>run_queue\<close> (a priority queue on the set of waiting jobs; \<open>bt_queue\<close>, on \<open>claim_next\<close>).

  \<^bold>\<open>Loops.\<close> No loop is cut short by a fuel. The retry loops recurse on the attempts left, which the
  code bounds; paging (\<open>fetch_loop\<close>) and the claim loop (\<open>fill\<close>) may run for ever and are
  option-valued partial functions, with \<open>fetch_bars_complete\<close> and \<open>tick_within_capacity\<close> proving
  that they return; \<open>bar_loop\<close> and the bisection of the ranks have a measure. The bounds of the code
  are kept: 10,000 boundaries of a backfill, 1,000 rows of a page, 1,000 rows of a queue read (the
  hypothesis of \<open>claims_in_run_order\<close>), 10,000 trials of a grid.

  \<^bold>\<open>Parameters of the model\<close>: the ccxt client, Redis, pydantic, the rolling statistics and reductions
  of pandas and numpy (record \<open>kernels\<close>), the sampler of optuna, the time zone database, SHA-256,
  the process environment, how pandas reads a time from text, the provider clients, the
  credential store and the alert sink. Each property that needs something of one of them states
  it as a hypothesis and has a witness with a concrete instance.

  \<^bold>\<open>Not modelled.\<close> The HTTP clients of data vendors and the parsing of their answers
  (\<^verbatim>\<open>data/sources.py\<close>, \<^verbatim>\<open>data/glassnode_response.py\<close>), and the daily fill from them
  (\<^verbatim>\<open>data/provider_fill.py\<close>); the Futu broker, a wrapper of a vendor's SDK;
  authentication, credentials and administration (password hashing, tokens and encryption by
  libraries); the FastAPI routers and exception handlers; connection pools, configuration, e-mail
  and logging; the command line, maintenance scripts and Lambda handlers; sleeping, plots, CSV and
  chart payloads. Two processes meet only where a model says so: the worker loop with the other
  writers of the queue, the bar service with other inserts, a reader with publishes; elsewhere a
  call runs alone.
\<close>

section \<open>A live deployment on a ccxt exchange\<close>

text \<open>The session the registry builds for a ccxt broker: a fresh adapter object on every apply.\<close>

definition ccxt_live_broker :: "'w ccxt_adapter \<Rightarrow> (adapter_state \<times> 'w) live_broker" where
  "ccxt_live_broker a =
     \<lparr>open_session = (\<lambda>(s, w). adapter_connect a (new_adapter, w)),
      close_session = disconnect (ad_api a),
      validate_symbol = validate_for_dry_run a,
      trading = ccxt_trade_adapter a\<rparr>"

definition on_ccxt :: "(adapter_state \<times> 'w) apply_env \<Rightarrow> bool" where
  "on_ccxt env \<longleftrightarrow> (\<forall>app ks paper. \<exists>a. create_adapter env app ks paper = ccxt_live_broker a)"

lemma traded_ccxt:
  assumes "on_ccxt env" and "traded env dep signal es"
  shows "no_stacking {} es \<and> placed es \<le> nat (max_attempts (order_policy env))"
proof -
  obtain ks symb v where es: "es = broker_log (order_policy env)
      (trading (create_adapter env (app_id dep) ks (is_paper_ind dep = Y))) symb signal (fl (qty dep)) v"
    using assms(2) unfolding traded_def by blast
  obtain a where "create_adapter env (app_id dep) ks (is_paper_ind dep = Y) = ccxt_live_broker a"
    using assms(1) unfolding on_ccxt_def by blast
  then have es': "es = broker_log (order_policy env) (ccxt_trade_adapter a) symb signal (fl (qty dep)) v"
    using es by (simp add: ccxt_live_broker_def)
  show ?thesis
    unfolding es'
    using ccxt_broker.execute_never_stacks [of "order_policy env" a symb signal "fl (qty dep)" v]
      broker_log_run [of "order_policy env" "ccxt_trade_adapter a" symb signal "fl (qty dep)" v]
    by auto
qed

section \<open>Properties\<close>

text \<open>C4: One apply cycle against a ccxt exchange, whatever the exchange, the database and the
  clock do: at most \<open>max_attempts\<close> orders reach the exchange, none while an earlier one of the
  cycle has an id and an unknown state, and if any order is sent, exactly one intent of this
  deployment version was written before it.\<close>

theorem ccxt_cycle_safe:
  assumes "on_ccxt env" and "live_run (logged_env env) uid dep (db, (v, [])) = (x, (db', (v', es)))"
  shows "no_stacking {} es \<and> placed es \<le> nat (max_attempts (order_policy env))
    \<and> (0 < placed es \<longrightarrow> (\<exists>i. intents db' = i # intents db
         \<and> int_deployment_id i = deployment_id dep \<and> int_deployment_vid i = deployment_vid dep))"
  using live_run_log [OF assms(2)] traded_ccxt [OF assms(1)]
  by (auto simp: cycle_ok_def)

definition demo_ccxt_env :: "(adapter_state \<times> unit) apply_env" where
  "demo_ccxt_env =
     \<lparr>clock = (\<lambda>v. (120, v)), row_limits = (\<lambda>d. returnC None), app_registered = (\<lambda>i. True),
      decrypt_credential = (\<lambda>u i. returnC (Some (''key'', ''secret''))),
      strategy_config = (\<lambda>i n. returnC (Some [(''tm_interval_id'', JInt 5)])),
      result_payload = (\<lambda>i n. returnC JNull),
      app_ids = (\<lambda>name. if name = ''bybit'' then Some 4 else None), has_price_bars = True,
      latest_position = (\<lambda>c p b. returnC (Fin 1, 60)),
      create_adapter = (\<lambda>i ks paper. ccxt_live_broker demo_adapter),
      product_ccy = (\<lambda>c. None), fallback_ccy = ''USDT'',
      order_policy = \<lparr>max_attempts = 2, backoff_s = Fin 1\<rparr>,
      send_alert = (\<lambda>dep out symb signal lot v. v)\<rparr>"

theorem ccxt_cycle_safe_witness:
  "\<exists>x db' v' es. live_run (logged_env demo_ccxt_env) 1 demo_deployment (demo_db, ((demo_state, ()), []))
     = (x, (db', (v', es))) \<and> no_stacking {} es \<and> placed es \<le> 2"
proof -
  have "on_ccxt demo_ccxt_env"
    by (auto simp: on_ccxt_def demo_ccxt_env_def)
  moreover obtain x db' v' es where
    "live_run (logged_env demo_ccxt_env) 1 demo_deployment (demo_db, ((demo_state, ()), [])) = (x, (db', (v', es)))"
    by (metis surj_pair)
  moreover have "nat (max_attempts (order_policy demo_ccxt_env)) = 2"
    by (simp add: demo_ccxt_env_def)
  ultimately show ?thesis
    using ccxt_cycle_safe [of demo_ccxt_env 1 demo_deployment demo_db "(demo_state, ())" x db' v' es]
    by metis
qed

text \<open>A pass of the scheduler over one interval with the real apply cycle: the cycle never
  touches a schedule, so the deployments processed are distinct and were due, each cursor moves
  as its result says, and no other deployment's cursor moves.\<close>

theorem scheduled_apply_cursors:
  assumes "db_wf (fst w)"
    and "run_interval max_att (db_schedule_repo periods) (apply_deployment env) iv w = (Inr rep, w')"
  shows "\<exists>rows. list_all2 (\<lambda>row r. turn_ok row r (pending (fst w)) (pending (fst w'))) rows (results rep)
    \<and> distinct (map (\<lambda>row. deployment_id (due_dep row)) rows)
    \<and> (\<forall>x. x \<notin> (\<lambda>row. deployment_id (due_dep row)) ` set rows \<longrightarrow>
         pending (fst w') x = pending (fst w) x)
    \<and> db_wf (fst w')"
  using run_interval_moves [OF apply_deployment_keeps_schedule assms] by blast

theorem scheduled_apply_cursors_witness:
  "\<exists>rep w'. run_interval 2 (db_schedule_repo (\<lambda>iv. Some 100)) (apply_deployment demo_env) 5 (demo_db, ())
     = (Inr rep, w') \<and> db_wf (fst w')"
proof -
  obtain rows w1 where due: "missed_due (db_schedule_repo (\<lambda>iv. Some 100)) 5 (demo_db, ()) = (Inr rows, w1)"
    by (simp add: db_schedule_repo_def missed_due_rows_def on_db_answers demo_db_def)
  obtain rs w2 where "run_rows 2 (db_schedule_repo (\<lambda>iv. Some 100)) (apply_deployment demo_env) rows w1 = (Inr rs, w2)"
    using run_rows_returns [of 2] by fastforce
  with due obtain rep w' where
    run: "run_interval 2 (db_schedule_repo (\<lambda>iv. Some 100)) (apply_deployment demo_env) 5 (demo_db, ()) = (Inr rep, w')"
    by (simp add: run_interval_def)
  have "db_wf (fst (demo_db, ()))"
    using demo_db_wf by simp
  from scheduled_apply_cursors [OF this run] run show ?thesis by blast
qed

end
